(* ===== verification/Prelude.thy ===== *)
theory Prelude
  imports Complex_Main "HOL-Library.AList" "HOL-Library.Char_ord" "HOL-Library.List_Lexorder"
begin

text \<open>
  What the components share: Python exceptions as values, ordered dictionaries, strings,
  decimal numbers and clocks.

  A Python \<open>str\<close> is modelled by the bytes of its UTF-8 encoding (a \<^typ>\<open>string\<close>), as is a
  \<open>bytes\<close> object; so \<open>.encode()\<close> is the identity and code-point order is byte order.
  Case conversion and white space are modelled on the ASCII range. A clock reading in
  seconds is a \<^typ>\<open>real\<close>, an integer time stamp is an \<^typ>\<open>int\<close>.
\<close>

section \<open>Exceptions\<close>

text \<open>The exception classes the sources raise or catch, with \<open>str(exc)\<close>.\<close>

datatype exn_class =
    PermissionError | AuthenticationError | AuthorizationError
  | ValueError | TokenError | WebhookError | PhoneError
  | KeyError | TypeError | AttributeError | RuntimeError | ProviderError | ModelBudgetError
  | TimeoutError | DatabaseError | IndexError | StopIteration | OSError | URLError | ServiceClientError

datatype exn = Exn (exn_cls: exn_class) (exn_msg: string)

type_synonym 'a res = "exn + 'a"

abbreviation raise :: "exn_class \<Rightarrow> string \<Rightarrow> 'a res" where
  "raise c m \<equiv> Inl (Exn c m)"

text \<open>The class hierarchy, as far as an \<open>except\<close> clause of the sources sees it.\<close>

definition is_permission_error :: "exn \<Rightarrow> bool" where
  "is_permission_error e = (exn_cls e \<in> {PermissionError, AuthenticationError, AuthorizationError})"

definition is_value_error :: "exn \<Rightarrow> bool" where
  "is_value_error e = (exn_cls e \<in> {ValueError, TokenError, WebhookError, PhoneError})"

definition is_timeout_error :: "exn \<Rightarrow> bool" where
  "is_timeout_error e = (exn_cls e = TimeoutError)"

lemmas exn_kind_defs = is_permission_error_def is_value_error_def is_timeout_error_def

fun rbind :: "'a res \<Rightarrow> ('a \<Rightarrow> 'b res) \<Rightarrow> 'b res" where
  "rbind (Inl e) f = Inl e"
| "rbind (Inr a) f = f a"

lemma rbind_Inr_iff: "rbind m f = Inr b \<longleftrightarrow> (\<exists>a. m = Inr a \<and> f a = Inr b)"
  by (cases m) auto

lemma rbind_Inl_iff: "rbind m f = Inl e \<longleftrightarrow> m = Inl e \<or> (\<exists>a. m = Inr a \<and> f a = Inl e)"
  by (cases m) auto

definition of_option :: "exn \<Rightarrow> 'a option \<Rightarrow> 'a res" where
  "of_option e m = (case m of None \<Rightarrow> Inl e | Some a \<Rightarrow> Inr a)"

lemma of_option_simps [simp]: "of_option e None = Inl e" "of_option e (Some a) = Inr a"
  by (simp_all add: of_option_def)

lemma of_option_Inr_iff [simp]: "of_option e m = Inr a \<longleftrightarrow> m = Some a"
  by (cases m) auto

section \<open>Ordered dictionaries\<close>

text \<open>
  A Python dictionary keeps its keys in insertion order: an association list with distinct
  keys. \<open>d[k] = v\<close> is \<^const>\<open>AList.update\<close> (in place, or appended at the end),
  \<open>d.pop(k, None)\<close> is \<^const>\<open>AList.delete\<close>, \<open>d.get(k)\<close> is \<^const>\<open>map_of\<close>.
\<close>

type_synonym ('k, 'v) dict = "('k \<times> 'v) list"

abbreviation dict_set :: "'k \<Rightarrow> 'v \<Rightarrow> ('k, 'v) dict \<Rightarrow> ('k, 'v) dict" where
  "dict_set \<equiv> AList.update"

abbreviation dict_pop :: "'k \<Rightarrow> ('k, 'v) dict \<Rightarrow> ('k, 'v) dict" where
  "dict_pop \<equiv> AList.delete"

abbreviation dict_wf :: "('k, 'v) dict \<Rightarrow> bool" where
  "dict_wf d \<equiv> distinct (map fst d)"

named_theorems dict_simps \<open>lookups after updates, deletions and filters of a dictionary\<close>

lemma dict_get_set [dict_simps]: "map_of (dict_set k v d) = (map_of d)(k \<mapsto> v)"
  by (rule update_conv')

lemma dict_get_pop [dict_simps]: "map_of (dict_pop k d) = (map_of d)(k := None)"
  by (rule delete_conv')

lemma dict_wf_set [simp]: "dict_wf d \<Longrightarrow> dict_wf (dict_set k v d)"
  by (rule distinct_update)

lemma dict_wf_pop [simp]: "dict_wf d \<Longrightarrow> dict_wf (dict_pop k d)"
  by (rule distinct_delete)

lemma dict_wf_filter [simp]: "dict_wf d \<Longrightarrow> dict_wf (filter P d)"
  by (simp add: distinct_map_filter)

lemma dict_wf_drop: "dict_wf d \<Longrightarrow> dict_wf (drop n d)"
  by (simp add: distinct_drop flip: drop_map)

lemma dict_get_filter [dict_simps]:
  assumes "dict_wf d"
  shows "map_of (filter (\<lambda>(k, v). P v) d) k =
    (case map_of d k of None \<Rightarrow> None | Some v \<Rightarrow> if P v then Some v else None)"
  using assms by (induction d) (auto simp: map_of_eq_None_iff image_iff split: option.splits)

lemma dict_length_set:
  "length (dict_set k v d) = (if k \<in> fst ` set d then length d else Suc (length d))"
  by (induction d) auto

lemma dict_set_fresh: "k \<notin> fst ` set d \<Longrightarrow> dict_set k v d = d @ [(k, v)]"
  by (induction d) auto

lemma dict_length_pop_le: "length (dict_pop k d) \<le> length d"
  by (simp add: length_delete_le)

lemma dict_pop_absent [simp]: "k \<notin> fst ` set (dict_pop k d)"
  by (induction d) auto

lemma dict_pop_set [simp]: "dict_pop k (dict_set k v d) = dict_pop k d"
  by (induction d) auto

lemma dict_pop_subset: "set (dict_pop k d) \<subseteq> set d"
  by (auto simp: AList.delete_eq)

lemma dict_length_pop:
  "dict_wf d \<Longrightarrow> k \<in> fst ` set d \<Longrightarrow> length (dict_pop k d) = length d - 1"
proof (induction d)
  case (Cons p d)
  obtain k' v where p: "p = (k', v)" by fastforce
  show ?case
  proof (cases "k' = k")
    case True
    with Cons.prems p have "k \<notin> fst ` set d" by auto
    then have "dict_pop k d = d" by (induction d) auto
    with True p show ?thesis by simp
  next
    case False
    with Cons p have "k \<in> fst ` set d" "dict_wf d" by auto
    with Cons.IH False p show ?thesis by (cases d) auto
  qed
qed simp

text \<open>\<open>min(d, key=lambda k: f(d[k]))\<close>: the first key, in insertion order, with the least value.\<close>

fun min_entry :: "('v \<Rightarrow> real) \<Rightarrow> 'k \<times> 'v \<Rightarrow> ('k, 'v) dict \<Rightarrow> 'k \<times> 'v" where
  "min_entry f b [] = b"
| "min_entry f b (x # xs) = min_entry f (if f (snd x) < f (snd b) then x else b) xs"

definition min_key :: "('v \<Rightarrow> real) \<Rightarrow> ('k, 'v) dict \<Rightarrow> 'k option" where
  "min_key f d = (case d of [] \<Rightarrow> None | x # xs \<Rightarrow> Some (fst (min_entry f x xs)))"

lemma min_entry_mem: "min_entry f b xs = b \<or> min_entry f b xs \<in> set xs"
proof (induction xs arbitrary: b)
  case (Cons y ys)
  show ?case using Cons.IH [of y] Cons.IH [of b] by (cases "f (snd y) < f (snd b)") auto
qed simp

lemma min_entry_le_base: "f (snd (min_entry f b xs)) \<le> f (snd b)"
proof (induction xs arbitrary: b)
  case (Cons y ys)
  show ?case using Cons.IH [of y] Cons.IH [of b] by (cases "f (snd y) < f (snd b)") auto
qed simp

lemma min_entry_least: "x \<in> set xs \<Longrightarrow> f (snd (min_entry f b xs)) \<le> f (snd x)"
proof (induction xs arbitrary: b)
  case (Cons y ys)
  let ?b = "if f (snd y) < f (snd b) then y else b"
  show ?case
  proof (cases "x \<in> set ys")
    case True
    then show ?thesis unfolding min_entry.simps by (rule Cons.IH)
  next
    case False
    then have "f (snd ?b) \<le> f (snd x)" using Cons.prems by auto
    then show ?thesis unfolding min_entry.simps by (rule order_trans [OF min_entry_le_base])
  qed
qed simp

lemma min_key_Some:
  assumes "min_key f d = Some k"
  shows "\<exists>v. (k, v) \<in> set d \<and> (\<forall>x \<in> set d. f v \<le> f (snd x))"
proof (cases d)
  case (Cons x xs)
  let ?m = "min_entry f x xs"
  have "?m \<in> set d" "\<forall>y \<in> set d. f (snd ?m) \<le> f (snd y)"
    using min_entry_mem [of f x xs] min_entry_least [of _ xs f x] min_entry_le_base [of f x xs] Cons
    by auto
  moreover have "k = fst ?m" using assms Cons by (simp add: min_key_def)
  ultimately show ?thesis by (metis prod.collapse)
qed (use assms in \<open>simp add: min_key_def\<close>)

lemma min_key_None: "min_key f d = None \<longleftrightarrow> d = []"
  by (simp add: min_key_def split: list.splits)

end
