(* ===== verification/PyText.thy ===== *)
theory PyText
  imports Prelude
begin

text \<open>
  The string operations of the Python standard library the sources use: ASCII case and
  white space, prefixes, splitting, joining, \<open>str(int)\<close> and \<open>int(str)\<close>.
\<close>

section \<open>Characters\<close>

abbreviation code :: "char \<Rightarrow> nat" where
  "code c \<equiv> of_char c"

lemma char_of_code [simp]: "char_of (code c) = c"
  by simp

definition is_digit :: "char \<Rightarrow> bool" where
  "is_digit c = (48 \<le> code c \<and> code c \<le> 57)"

definition digit_char :: "nat \<Rightarrow> char" where
  "digit_char n = char_of (48 + n)"

definition digit_val :: "char \<Rightarrow> nat" where
  "digit_val c = code c - 48"

lemma code_digit_char: "n < 10 \<Longrightarrow> code (digit_char n) = 48 + n"
  by (simp add: digit_char_def)

lemma digit_val_char [simp]: "n < 10 \<Longrightarrow> digit_val (digit_char n) = n"
  by (simp add: digit_val_def code_digit_char)

lemma is_digit_char [simp]: "n < 10 \<Longrightarrow> is_digit (digit_char n)"
  by (simp add: is_digit_def code_digit_char)

definition ascii_upper :: "char \<Rightarrow> char" where
  "ascii_upper c = (if 97 \<le> code c \<and> code c \<le> 122 then char_of (code c - 32) else c)"

definition ascii_lower :: "char \<Rightarrow> char" where
  "ascii_lower c = (if 65 \<le> code c \<and> code c \<le> 90 then char_of (code c + 32) else c)"

definition py_upper :: "string \<Rightarrow> string" where
  "py_upper s = map ascii_upper s"

definition py_lower :: "string \<Rightarrow> string" where
  "py_lower s = map ascii_lower s"

text \<open>\<open>str.strip()\<close>: the ASCII characters for which \<open>str.isspace\<close> holds.\<close>

definition is_space :: "char \<Rightarrow> bool" where
  "is_space c = (9 \<le> code c \<and> code c \<le> 13 \<or> 28 \<le> code c \<and> code c \<le> 32)"

definition py_strip :: "string \<Rightarrow> string" where
  "py_strip s = rev (dropWhile is_space (rev (dropWhile is_space s)))"

definition starts_with :: "string \<Rightarrow> string \<Rightarrow> bool" where
  "starts_with s p = (take (length p) s = p)"

lemma starts_with_simps [simp]:
  "starts_with s []" "\<not> starts_with [] (p # ps)"
  "starts_with (x # xs) (p # ps) = (x = p \<and> starts_with xs ps)"
  by (simp_all add: starts_with_def)

lemma starts_with_split: "starts_with s p \<Longrightarrow> s = p @ drop (length p) s"
  unfolding starts_with_def by (metis append_take_drop_id)

text \<open>\<open>s.split(c, 1)\<close> when \<open>c\<close> occurs in \<open>s\<close>.\<close>

fun split_once :: "char \<Rightarrow> string \<Rightarrow> (string \<times> string) option" where
  "split_once c [] = None"
| "split_once c (x # xs) =
     (if x = c then Some ([], xs) else map_option (\<lambda>(a, b). (x # a, b)) (split_once c xs))"

text \<open>\<open>s.split(c)\<close>.\<close>

fun split_all :: "char \<Rightarrow> string \<Rightarrow> string list" where
  "split_all c [] = [[]]"
| "split_all c (x # xs) =
     (if x = c then [] # split_all c xs
      else (case split_all c xs of [] \<Rightarrow> [[x]] | w # ws \<Rightarrow> (x # w) # ws))"

fun py_join :: "string \<Rightarrow> string list \<Rightarrow> string" where
  "py_join sep [] = []"
| "py_join sep [w] = w"
| "py_join sep (w # v # ws) = w @ sep @ py_join sep (v # ws)"

lemma split_once_append: "c \<notin> set a \<Longrightarrow> split_once c (a @ c # b) = Some (a, b)"
  by (induction a) auto

section \<open>Decimal numbers\<close>

fun nat_dec :: "nat \<Rightarrow> string" where
  "nat_dec n = (if n < 10 then [digit_char n] else nat_dec (n div 10) @ [digit_char (n mod 10)])"

declare nat_dec.simps [simp del]

definition int_dec :: "int \<Rightarrow> string" where
  "int_dec i = (if i < 0 then CHR ''-'' # nat_dec (nat (- i)) else nat_dec (nat i))"

definition dec_val :: "string \<Rightarrow> nat" where
  "dec_val s = foldl (\<lambda>acc c. 10 * acc + digit_val c) 0 s"

lemma dec_val_nat_dec [simp]: "dec_val (nat_dec n) = n"
proof (induction n rule: nat_dec.induct)
  case (1 n)
  show ?case
  proof (cases "n < 10")
    case True
    then show ?thesis by (simp add: nat_dec.simps [of n] dec_val_def)
  next
    case False
    with 1 show ?thesis by (simp add: nat_dec.simps [of n] dec_val_def)
  qed
qed

lemma nat_dec_digits: "c \<in> set (nat_dec n) \<Longrightarrow> is_digit c"
proof (induction n rule: nat_dec.induct)
  case (1 n)
  then show ?case by (cases "n < 10") (auto simp: nat_dec.simps [of n])
qed

lemma nat_dec_nonempty [simp]: "nat_dec n \<noteq> []"
  by (subst nat_dec.simps) simp

lemma nat_dec_hd: "0 < n \<Longrightarrow> hd (nat_dec n) \<noteq> CHR ''0''"
proof (induction n rule: nat_dec.induct)
  case (1 n)
  show ?case
  proof (cases "n < 10")
    case True
    have "code (digit_char n) \<noteq> code (CHR ''0'')" using True 1(2) by (simp add: code_digit_char)
    with True show ?thesis by (auto simp: nat_dec.simps [of n])
  next
    case False
    with 1 show ?thesis by (simp add: nat_dec.simps [of n] hd_append)
  qed
qed

lemma nat_dec_0 [simp]: "nat_dec 0 = ''0''"
  by code_simp

text \<open>
  \<open>int(s)\<close>: surrounding white space, an optional sign, digits with single underscores
  between them. \<open>None\<close> stands for the \<open>ValueError\<close>.
\<close>

fun grouped :: "(char \<Rightarrow> bool) \<Rightarrow> bool \<Rightarrow> string \<Rightarrow> bool" where
  "grouped P prev [] = prev"
| "grouped P prev (c # cs) =
     (if P c then grouped P True cs else if c = CHR ''_'' \<and> prev then grouped P False cs else False)"

definition py_int :: "string \<Rightarrow> int option" where
  "py_int s =
     (let t = py_strip s;
          neg = (case t of c # _ \<Rightarrow> c = CHR ''-'' | [] \<Rightarrow> False);
          ds = (case t of c # cs \<Rightarrow> if c = CHR ''-'' \<or> c = CHR ''+'' then cs else t | [] \<Rightarrow> [])
      in if grouped is_digit False ds
         then Some ((if neg then - 1 else 1) * int (dec_val (filter (\<lambda>c. c \<noteq> CHR ''_'') ds)))
         else None)"

lemma grouped_all: "(\<forall>c \<in> set s. P c) \<Longrightarrow> grouped P b s = (b \<or> s \<noteq> [])"
  by (induction s arbitrary: b) auto

lemma py_strip_id:
  assumes "\<forall>c \<in> set s. \<not> is_space c"
  shows "py_strip s = s"
proof -
  have "dropWhile is_space t = t" if "\<forall>c \<in> set t. \<not> is_space c" for t
    using that by (cases t) auto
  from this [of s] this [of "rev s"] show ?thesis using assms by (simp add: py_strip_def)
qed

lemma digit_not_space: "is_digit c \<Longrightarrow> \<not> is_space c"
  by (simp add: is_digit_def is_space_def)

lemma digit_facts [simp]: "is_digit c \<Longrightarrow> c \<noteq> CHR ''-''" "is_digit c \<Longrightarrow> c \<noteq> CHR ''+''"
  "is_digit c \<Longrightarrow> c \<noteq> CHR ''_''" "is_digit c \<Longrightarrow> c \<noteq> CHR ''.''"
  by (auto simp: is_digit_def)

lemma filter_digits: "(\<forall>c \<in> set s. is_digit c) \<Longrightarrow> filter (\<lambda>c. c \<noteq> CHR ''_'') s = s"
  by (induction s) auto

lemma py_int_dec [simp]: "py_int (int_dec i) = Some i"
proof -
  let ?d = "nat_dec (nat \<bar>i\<bar>)"
  have d: "\<forall>c \<in> set ?d. is_digit c" using nat_dec_digits by blast
  obtain c cs where cs: "?d = c # cs" by (cases ?d) auto
  have f: "filter (\<lambda>c. c \<noteq> CHR ''_'') ?d = ?d" by (rule filter_digits [OF d])
  have g: "grouped is_digit False ?d" using d by (simp add: grouped_all)
  have c: "c \<noteq> CHR ''-'' \<and> c \<noteq> CHR ''+''" using d cs by auto
  show ?thesis
  proof (cases "i < 0")
    case True
    have "py_strip (int_dec i) = CHR ''-'' # ?d"
      using d True
      by (subst py_strip_id) (auto simp: int_dec_def simp flip: is_space_def dest: digit_not_space,
        simp add: is_space_def)
    with True f g show ?thesis by (simp add: py_int_def Let_def)
  next
    case False
    have "py_strip (int_dec i) = ?d"
      using d False by (subst py_strip_id) (auto simp: int_dec_def dest: digit_not_space)
    with False f g c cs show ?thesis
      by (simp add: py_int_def Let_def split: list.splits) (metis dec_val_nat_dec int_nat_eq not_less abs_of_nonneg)
  qed
qed

end
