(* ===== verification/Hashing.thy ===== *)
theory Hashing
  imports PyText "HOL-Library.Word"
begin

unbundle bit_operations_syntax

text \<open>
  \<open>hashlib.sha256\<close>, \<open>hmac.new(key, msg, hashlib.sha256)\<close> and their hexadecimal digests, as
  executable functions on bytes (FIPS 180-4 and RFC 2104). No theorem of the development
  depends on more of them than the shape of a digest: an equation between hashes is never
  assumed to give an equation between messages.
\<close>

type_synonym u32 = "32 word"
type_synonym bytes = string

section \<open>SHA-256\<close>

definition rotr :: "nat \<Rightarrow> u32 \<Rightarrow> u32" where
  "rotr n x = drop_bit n x OR push_bit (32 - n) x"

definition sha_ch :: "u32 \<Rightarrow> u32 \<Rightarrow> u32 \<Rightarrow> u32" where
  "sha_ch x y z = (x AND y) XOR (NOT x AND z)"

definition sha_maj :: "u32 \<Rightarrow> u32 \<Rightarrow> u32 \<Rightarrow> u32" where
  "sha_maj x y z = (x AND y) XOR (x AND z) XOR (y AND z)"

definition big_sigma0 :: "u32 \<Rightarrow> u32" where
  "big_sigma0 x = rotr 2 x XOR rotr 13 x XOR rotr 22 x"

definition big_sigma1 :: "u32 \<Rightarrow> u32" where
  "big_sigma1 x = rotr 6 x XOR rotr 11 x XOR rotr 25 x"

definition small_sigma0 :: "u32 \<Rightarrow> u32" where
  "small_sigma0 x = rotr 7 x XOR rotr 18 x XOR drop_bit 3 x"

definition small_sigma1 :: "u32 \<Rightarrow> u32" where
  "small_sigma1 x = rotr 17 x XOR rotr 19 x XOR drop_bit 10 x"

definition sha_k :: "u32 list" where
  "sha_k = [1116352408, 1899447441, 3049323471, 3921009573, 961987163, 1508970993, 2453635748, 2870763221,
    3624381080, 310598401, 607225278, 1426881987, 1925078388, 2162078206, 2614888103, 3248222580,
    3835390401, 4022224774, 264347078, 604807628, 770255983, 1249150122, 1555081692, 1996064986,
    2554220882, 2821834349, 2952996808, 3210313671, 3336571891, 3584528711, 113926993, 338241895,
    666307205, 773529912, 1294757372, 1396182291, 1695183700, 1986661051, 2177026350, 2456956037,
    2730485921, 2820302411, 3259730800, 3345764771, 3516065817, 3600352804, 4094571909, 275423344,
    430227734, 506948616, 659060556, 883997877, 958139571, 1322822218, 1537002063, 1747873779,
    1955562222, 2024104815, 2227730452, 2361852424, 2428436474, 2756734187, 3204031479, 3329325298]"

definition sha_h0 :: "u32 list" where
  "sha_h0 = [1779033703, 3144134277, 1013904242, 2773480762, 1359893119, 2600822924, 528734635, 1541459225]"

text \<open>The message schedule, newest word first.\<close>

fun sha_extend :: "nat \<Rightarrow> u32 list \<Rightarrow> u32 list" where
  "sha_extend 0 ws = ws"
| "sha_extend (Suc n) ws =
     sha_extend n ((small_sigma1 (ws ! 1) + ws ! 6 + small_sigma0 (ws ! 14) + ws ! 15) # ws)"

definition be32 :: "bytes \<Rightarrow> u32" where
  "be32 cs = foldl (\<lambda>acc c. push_bit 8 acc OR of_char c) 0 cs"

fun chunks :: "nat \<Rightarrow> 'a list \<Rightarrow> 'a list list" where
  "chunks n xs = (if n = 0 \<or> xs = [] then [] else take n xs # chunks n (drop n xs))"

declare chunks.simps [simp del]

fun sha_round :: "u32 list \<Rightarrow> u32 \<times> u32 \<Rightarrow> u32 list" where
  "sha_round [a, b, c, d, e, f, g, h] (k, w) =
     (let t1 = h + big_sigma1 e + sha_ch e f g + k + w; t2 = big_sigma0 a + sha_maj a b c
      in [t1 + t2, a, b, c, d + t1, e, f, g])"
| "sha_round xs _ = xs"

definition sha_block :: "u32 list \<Rightarrow> bytes \<Rightarrow> u32 list" where
  "sha_block hs blk =
     (let ws = rev (sha_extend 48 (rev (map be32 (chunks 4 blk))))
      in map2 (+) hs (foldl sha_round hs (zip sha_k ws)))"

definition word_bytes :: "u32 \<Rightarrow> bytes" where
  "word_bytes w = [char_of (uint (drop_bit 24 w)), char_of (uint (drop_bit 16 w)),
     char_of (uint (drop_bit 8 w)), char_of (uint w)]"

definition sha_pad :: "bytes \<Rightarrow> bytes" where
  "sha_pad m = m @ [char_of (128::nat)] @ replicate ((119 - length m mod 64) mod 64) (char_of (0::nat))
     @ word_bytes (word_of_nat (8 * length m div 2 ^ 32)) @ word_bytes (word_of_nat (8 * length m))"

definition sha256 :: "bytes \<Rightarrow> bytes" where
  "sha256 m = concat (map word_bytes (foldl sha_block sha_h0 (chunks 64 (sha_pad m))))"

definition hex_digit :: "nat \<Rightarrow> char" where
  "hex_digit n = ''0123456789abcdef'' ! n"

definition hexlify :: "bytes \<Rightarrow> string" where
  "hexlify bs = concat (map (\<lambda>c. [hex_digit (code c div 16), hex_digit (code c mod 16)]) bs)"

definition sha256_hexdigest :: "bytes \<Rightarrow> string" where
  "sha256_hexdigest m = hexlify (sha256 m)"

section \<open>HMAC\<close>

definition xor_byte :: "nat \<Rightarrow> char \<Rightarrow> char" where
  "xor_byte n c = char_of (code c XOR n)"

definition hmac_key :: "bytes \<Rightarrow> bytes" where
  "hmac_key k = (let k' = (if 64 < length k then sha256 k else k)
                 in k' @ replicate (64 - length k') (char_of (0::nat)))"

definition hmac_sha256 :: "bytes \<Rightarrow> bytes \<Rightarrow> bytes" where
  "hmac_sha256 k m = sha256 (map (xor_byte 92) (hmac_key k) @ sha256 (map (xor_byte 54) (hmac_key k) @ m))"

definition hmac_hexdigest :: "bytes \<Rightarrow> bytes \<Rightarrow> string" where
  "hmac_hexdigest k m = hexlify (hmac_sha256 k m)"

section \<open>The shape of a digest\<close>

lemma length_sha_round: "length (sha_round hs kw) = length hs"
  by (induction hs kw rule: sha_round.induct) (simp_all add: Let_def)

lemma length_sha_rounds: "length (foldl sha_round hs kws) = length hs"
  by (induction kws arbitrary: hs) (simp_all add: length_sha_round)

lemma length_sha_block: "length (sha_block hs blk) = length hs"
  by (simp add: sha_block_def Let_def length_sha_rounds)

lemma length_sha_blocks: "length (foldl sha_block hs blks) = length hs"
  by (induction blks arbitrary: hs) (simp_all add: length_sha_block)

lemma length_concat_word_bytes: "length (concat (map word_bytes ws)) = 4 * length ws"
  by (induction ws) (simp_all add: word_bytes_def)

lemma length_sha256: "length (sha256 m) = 32"
  by (simp add: sha256_def length_concat_word_bytes length_sha_blocks sha_h0_def)

lemma length_hexlify: "length (hexlify bs) = 2 * length bs"
  by (induction bs) (simp_all add: hexlify_def)

lemma length_sha256_hexdigest: "length (sha256_hexdigest m) = 64"
  by (simp add: sha256_hexdigest_def length_hexlify length_sha256)

definition is_lower_hex :: "char \<Rightarrow> bool" where
  "is_lower_hex c = (is_digit c \<or> 97 \<le> code c \<and> code c \<le> 102)"

lemma hex_digit_lower: "n < 16 \<Longrightarrow> is_lower_hex (hex_digit n)"
proof -
  have "list_all (\<lambda>n. is_lower_hex (hex_digit n)) [0..<16]" by code_simp
  then show "n < 16 \<Longrightarrow> ?thesis" by (simp add: list_all_iff)
qed

lemma hexlify_lower: "c \<in> set (hexlify bs) \<Longrightarrow> is_lower_hex c"
proof -
  have "code b div 16 < 16" for b using nat_of_char_less_256 [of b] by linarith
  moreover assume "c \<in> set (hexlify bs)"
  ultimately show ?thesis by (auto simp: hexlify_def hex_digit_lower)
qed

end
