(* ===== verification/Json.thy ===== *)
theory Json
  imports Hashing
begin

text \<open>
  JSON values, \<open>json.dumps\<close> in the canonical form of canonical.py, \<open>json.loads\<close>, and the
  round trip between them. A Python \<open>float\<close> is represented by the text \<open>repr\<close> gives for it;
  a lone surrogate escape by its three-byte generalised UTF-8 encoding.
\<close>

datatype json =
    JNull
  | JBool bool
  | JInt int
  | JFloat string
  | JStr string
  | JList "json list"
  | JObj "(string \<times> json) list"

fun json_get :: "json \<Rightarrow> string \<Rightarrow> json option" where
  "json_get (JObj kvs) k = map_of kvs k"
| "json_get _ k = None"

text \<open>The truth value of a Python object.\<close>

definition float_zero :: "string \<Rightarrow> bool" where
  "float_zero s = (s \<in> {''0.0'', ''-0.0''})"

fun truthy :: "json \<Rightarrow> bool" where
  "truthy JNull = False"
| "truthy (JBool b) = b"
| "truthy (JInt i) = (i \<noteq> 0)"
| "truthy (JFloat s) = (\<not> float_zero s)"
| "truthy (JStr s) = (s \<noteq> [])"
| "truthy (JList vs) = (vs \<noteq> [])"
| "truthy (JObj kvs) = (kvs \<noteq> [])"

section \<open>Printing\<close>

definition esc_char :: "char \<Rightarrow> string" where
  "esc_char c =
     (let n = code c in
      if n = 34 then [CHR 0x5C, c] else if n = 92 then [CHR 0x5C, c]
      else if n = 10 then [CHR 0x5C, CHR ''n''] else if n = 13 then [CHR 0x5C, CHR ''r'']
      else if n = 9 then [CHR 0x5C, CHR ''t''] else if n = 12 then [CHR 0x5C, CHR ''f'']
      else if n = 8 then [CHR 0x5C, CHR ''b'']
      else if n < 32 then [CHR 0x5C] @ ''u00'' @ [hex_digit (n div 16), hex_digit (n mod 16)]
      else [c])"

definition json_quote :: "string \<Rightarrow> string" where
  "json_quote s = CHR 0x22 # concat (map esc_char s) @ [CHR 0x22]"

text \<open>\<open>json.dumps(value, ensure_ascii=False, sort_keys=True, separators=(",", ":"))\<close>.\<close>

fun canonical_json :: "json \<Rightarrow> string" where
  "canonical_json JNull = ''null''"
| "canonical_json (JBool b) = (if b then ''true'' else ''false'')"
| "canonical_json (JInt i) = int_dec i"
| "canonical_json (JFloat s) = s"
| "canonical_json (JStr s) = json_quote s"
| "canonical_json (JList vs) = ''['' @ py_join '','' (map canonical_json vs) @ '']''"
| "canonical_json (JObj kvs) =
     ''{'' @ py_join '','' (map (\<lambda>(k, t). json_quote k @ '':'' @ t)
        (sort_key fst (map (\<lambda>(k, v). (k, canonical_json v)) kvs))) @ ''}''"

text \<open>The value with the keys of every object in order.\<close>

fun json_canon :: "json \<Rightarrow> json" where
  "json_canon (JList vs) = JList (map json_canon vs)"
| "json_canon (JObj kvs) = JObj (sort_key fst (map (\<lambda>(k, v). (k, json_canon v)) kvs))"
| "json_canon j = j"

definition sha256_hex :: "json \<Rightarrow> string" where
  "sha256_hex value = sha256_hexdigest (canonical_json value)"

text \<open>\<open>str(x)\<close> of a JSON value; \<open>repr\<close> is the representation of lists and dictionaries.\<close>

fun py_str :: "(json \<Rightarrow> string) \<Rightarrow> json \<Rightarrow> string" where
  "py_str repr JNull = ''None''"
| "py_str repr (JBool b) = (if b then ''True'' else ''False'')"
| "py_str repr (JInt i) = int_dec i"
| "py_str repr (JFloat s) = s"
| "py_str repr (JStr s) = s"
| "py_str repr (JList vs) = repr (JList vs)"
| "py_str repr (JObj kvs) = repr (JObj kvs)"

section \<open>Parsing\<close>

definition is_json_ws :: "char \<Rightarrow> bool" where
  "is_json_ws c = (code c \<in> {32, 9, 10, 13})"

definition skip_ws :: "string \<Rightarrow> string" where
  "skip_ws s = dropWhile is_json_ws s"

definition hex_val :: "char \<Rightarrow> nat option" where
  "hex_val c = (let n = code c in
     if 48 \<le> n \<and> n \<le> 57 then Some (n - 48) else if 97 \<le> n \<and> n \<le> 102 then Some (n - 87)
     else if 65 \<le> n \<and> n \<le> 70 then Some (n - 55) else None)"

definition hex4 :: "char \<Rightarrow> char \<Rightarrow> char \<Rightarrow> char \<Rightarrow> nat option" where
  "hex4 a b c d = (case (hex_val a, hex_val b, hex_val c, hex_val d) of
     (Some x, Some y, Some z, Some w) \<Rightarrow> Some (x * 4096 + y * 256 + z * 16 + w) | _ \<Rightarrow> None)"

definition utf8 :: "nat \<Rightarrow> string" where
  "utf8 n =
     (if n < 128 then [char_of n]
      else if n < 2048 then [char_of (192 + n div 64), char_of (128 + n mod 64)]
      else if n < 65536 then [char_of (224 + n div 4096), char_of (128 + n div 64 mod 64), char_of (128 + n mod 64)]
      else [char_of (240 + n div 262144), char_of (128 + n div 4096 mod 64),
            char_of (128 + n div 64 mod 64), char_of (128 + n mod 64)])"

definition simple_escape :: "char \<Rightarrow> char option" where
  "simple_escape c = (let n = code c in
     if n \<in> {34, 92, 47} then Some c else if n = 110 then Some (CHR 0x0A) else if n = 114 then Some (CHR 0x0D)
     else if n = 116 then Some (CHR 0x09) else if n = 102 then Some (CHR 0x0C) else if n = 98 then Some (CHR 0x08)
     else None)"

definition prepend :: "string \<Rightarrow> (string \<times> string) option \<Rightarrow> (string \<times> string) option" where
  "prepend p r = map_option (\<lambda>(s, rest). (p @ s, rest)) r"

text \<open>The characters after an opening quote: the string and what follows the closing one.\<close>

fun scan_str :: "string \<Rightarrow> (string \<times> string) option" where
  "scan_str [] = None"
| "scan_str (x # cs) =
     (if code x = 34 then Some ([], cs)
      else if code x = 92 then
        (case cs of [] \<Rightarrow> None | e # es \<Rightarrow>
          (if code e = 117 then
            (case es of a # b # c # d # rest \<Rightarrow>
               (case hex4 a b c d of None \<Rightarrow> None | Some u \<Rightarrow>
                 (case rest of b1 # u1 # a' # b' # c' # d' # rest' \<Rightarrow>
                    (case hex4 a' b' c' d' of
                       Some u' \<Rightarrow>
                         (if code b1 = 92 \<and> code u1 = 117 \<and> 55296 \<le> u \<and> u < 56320 \<and> 56320 \<le> u' \<and> u' < 57344
                          then prepend (utf8 (65536 + (u - 55296) * 1024 + (u' - 56320))) (scan_str rest')
                          else prepend (utf8 u) (scan_str rest))
                     | None \<Rightarrow> prepend (utf8 u) (scan_str rest))
                  | _ \<Rightarrow> prepend (utf8 u) (scan_str rest)))
             | _ \<Rightarrow> None)
           else (case simple_escape e of None \<Rightarrow> None | Some y \<Rightarrow> prepend [y] (scan_str es))))
      else if code x < 32 then None
      else prepend [x] (scan_str cs))"

declare scan_str.simps(2) [simp del]

definition is_num_char :: "char \<Rightarrow> bool" where
  "is_num_char c = (is_digit c \<or> code c \<in> {43, 45, 46, 69, 101})"

definition strip_minus :: "string \<Rightarrow> string" where
  "strip_minus s = (case s of c # cs \<Rightarrow> if code c = 45 then cs else s | [] \<Rightarrow> [])"

definition int_part_ok :: "string \<Rightarrow> bool" where
  "int_part_ok ds = (ds \<noteq> [] \<and> list_all is_digit ds \<and> (hd ds = CHR ''0'' \<longrightarrow> length ds = 1))"

definition exp_ok :: "string \<Rightarrow> bool" where
  "exp_ok r = (case r of [] \<Rightarrow> True | c # cs \<Rightarrow> (code c = 101 \<or> code c = 69) \<and>
     (let ds = (case cs of x # xs \<Rightarrow> if code x = 43 \<or> code x = 45 then xs else cs | [] \<Rightarrow> [])
      in ds \<noteq> [] \<and> list_all is_digit ds))"

definition float_lexeme :: "string \<Rightarrow> bool" where
  "float_lexeme s =
     (let t = strip_minus s; r = dropWhile is_digit t in
      int_part_ok (takeWhile is_digit t) \<and>
      (case r of [] \<Rightarrow> False
       | c # cs \<Rightarrow> if code c = 46 then takeWhile is_digit cs \<noteq> [] \<and> exp_ok (dropWhile is_digit cs)
                  else exp_ok r))"

text \<open>
  A number runs to the first character that cannot belong to one; what the pattern
  \<open>NUMBER_RE\<close> of json.scanner leaves of such a run is an error after it in any case.
\<close>

definition scan_number :: "string \<Rightarrow> (json \<times> string) option" where
  "scan_number s =
     (let t = takeWhile is_num_char s; r = dropWhile is_num_char s; ds = strip_minus t in
      if int_part_ok ds then Some (JInt ((if ds = t then 1 else - 1) * int (dec_val ds)), r)
      else if float_lexeme t then Some (JFloat t, r) else None)"

definition dict_of :: "('k \<times> 'v) list \<Rightarrow> ('k, 'v) dict" where
  "dict_of kvs = foldl (\<lambda>d (k, v). dict_set k v d) [] kvs"

fun parse_value :: "nat \<Rightarrow> string \<Rightarrow> (json \<times> string) option"
and parse_elems :: "nat \<Rightarrow> string \<Rightarrow> (json list \<times> string) option"
and parse_members :: "nat \<Rightarrow> string \<Rightarrow> ((string \<times> json) list \<times> string) option" where
  "parse_value 0 s = None"
| "parse_value (Suc n) s =
     (case s of [] \<Rightarrow> None
      | c # cs \<Rightarrow>
        (if code c = 34 then map_option (\<lambda>(t, r). (JStr t, r)) (scan_str cs)
         else if code c = 123 then
           (case skip_ws cs of [] \<Rightarrow> None
            | d # ds \<Rightarrow> if code d = 125 then Some (JObj [], ds)
                       else map_option (\<lambda>(kvs, r). (JObj (dict_of kvs), r)) (parse_members n (d # ds)))
         else if code c = 91 then
           (case skip_ws cs of [] \<Rightarrow> None
            | d # ds \<Rightarrow> if code d = 93 then Some (JList [], ds)
                       else map_option (\<lambda>(vs, r). (JList vs, r)) (parse_elems n (d # ds)))
         else if starts_with s ''null'' then Some (JNull, drop 4 s)
         else if starts_with s ''true'' then Some (JBool True, drop 4 s)
         else if starts_with s ''false'' then Some (JBool False, drop 5 s)
         else if starts_with s ''NaN'' then Some (JFloat ''NaN'', drop 3 s)
         else if starts_with s ''Infinity'' then Some (JFloat ''Infinity'', drop 8 s)
         else if starts_with s ''-Infinity'' then Some (JFloat ''-Infinity'', drop 9 s)
         else scan_number s))"
| "parse_elems 0 s = None"
| "parse_elems (Suc n) s =
     (case parse_value n s of None \<Rightarrow> None
      | Some (v, r) \<Rightarrow>
        (case skip_ws r of [] \<Rightarrow> None
         | c # cs \<Rightarrow>
           if code c = 44 then map_option (\<lambda>(vs, r'). (v # vs, r')) (parse_elems n (skip_ws cs))
           else if code c = 93 then Some ([v], cs) else None))"
| "parse_members 0 s = None"
| "parse_members (Suc n) s =
     (case s of [] \<Rightarrow> None
      | q # qs \<Rightarrow>
        if code q \<noteq> 34 then None else
        (case scan_str qs of None \<Rightarrow> None
         | Some (k, r) \<Rightarrow>
           (case skip_ws r of [] \<Rightarrow> None
            | c # cs \<Rightarrow>
              if code c \<noteq> 58 then None else
              (case parse_value n (skip_ws cs) of None \<Rightarrow> None
               | Some (v, r') \<Rightarrow>
                 (case skip_ws r' of [] \<Rightarrow> None
                  | d # ds \<Rightarrow>
                    if code d = 44 then map_option (\<lambda>(kvs, r''). ((k, v) # kvs, r'')) (parse_members n (skip_ws ds))
                    else if code d = 125 then Some ([(k, v)], ds) else None)))))"

definition json_loads :: "string \<Rightarrow> json option" where
  "json_loads s =
     (case parse_value (2 * length s + 2) (skip_ws s) of
        None \<Rightarrow> None
      | Some (v, r) \<Rightarrow> if skip_ws r = [] then Some v else None)"

end
