(* ===== verification/Contracts.thy ===== *)
theory Contracts
  imports Json
begin

text \<open>
  shared/atlantis_contracts/models.py: the request a contact decision is taken on and the
  decision. A \<open>datetime\<close> is the number of microseconds since the epoch (the resolution
  Python keeps); \<open>x is True\<close> on an optional flag is \<open>x = Some True\<close>.
\<close>

datatype channel = VOICE | WHATSAPP

fun channel_value :: "channel \<Rightarrow> string" where
  "channel_value VOICE = ''VOICE''"
| "channel_value WHATSAPP = ''WHATSAPP''"

text \<open>\<open>Channel(value)\<close>; \<open>None\<close> is the \<open>ValueError\<close>.\<close>

definition channel_of :: "string \<Rightarrow> channel option" where
  "channel_of s = (if s = ''VOICE'' then Some VOICE else if s = ''WHATSAPP'' then Some WHATSAPP else None)"

lemma channel_of_value [simp]: "channel_of (channel_value c) = Some c"
  by (cases c) (simp_all add: channel_of_def)

datatype decision_outcome = ALLOW | DENY | REVIEW

fun outcome_value :: "decision_outcome \<Rightarrow> string" where
  "outcome_value ALLOW = ''ALLOW''"
| "outcome_value DENY = ''DENY''"
| "outcome_value REVIEW = ''REVIEW''"

type_synonym datetime = int

text \<open>\<open>int(moment.timestamp())\<close> truncates towards zero.\<close>

definition epoch_seconds :: "datetime \<Rightarrow> int" where
  "epoch_seconds t = (if 0 \<le> t then t div 1000000 else - ((- t) div 1000000))"

record contact_request =
  cr_tenant_id :: string
  cr_contact_id :: string
  cr_campaign_version_id :: string
  cr_purpose :: string
  cr_channel :: channel
  cr_content_hash :: string
  cr_requested_at :: datetime
  cr_campaign_approved :: bool
  cr_approved_content_hash :: "string option"
  cr_internally_suppressed :: bool
  cr_frequency_exhausted :: bool
  cr_kill_switch :: bool
  cr_consent_active :: "bool option"
  cr_template_approved :: "bool option"
  cr_conversation_window_open :: "bool option"
  cr_repep_snapshot_valid :: "bool option"
  cr_repep_listed :: "bool option"
  cr_repep_enabled :: bool
  cr_repep_exemption_type :: "string option"
  cr_repep_exemption_approved :: "bool option"
  cr_repep_exemption_evidence_ref :: "string option"
  cr_local_hour :: "int option"
  cr_metadata :: "(string \<times> json) list"

record decision =
  de_decision_id :: string
  de_outcome :: decision_outcome
  de_reason_codes :: "string list"
  de_policy_version :: string
  de_decided_at :: datetime
  de_evidence :: "(string \<times> json) list"

end
