(* ===== verification/Governance.thy ===== *)
theory Governance
  imports Contracts
begin

text \<open>
  services/policy_gateway/app/repep.py and sensitivity.py: the registry of REPEP snapshots
  and the limits of autonomous recommendations. A \<open>Decimal\<close> is a \<^typ>\<open>rat\<close>.
\<close>

section \<open>REPEP registry\<close>

record repep_snapshot =
  rs_dataset_id :: string
  rs_tenant_id :: string
  rs_effective_at :: datetime
  rs_valid_until :: datetime
  rs_contract_or_receipt_ref :: string
  rs_evidence_uri :: string
  rs_evidence_hash :: string
  rs_phone_tokens :: "string set"

type_synonym repep_registry = "(string \<times> string, repep_snapshot) dict"

definition import_snapshot :: "repep_snapshot \<Rightarrow> bytes \<Rightarrow> repep_registry \<Rightarrow> unit res \<times> repep_registry" where
  "import_snapshot s raw_bytes reg =
     (if sha256_hexdigest raw_bytes \<noteq> rs_evidence_hash s then (raise ValueError ''REPEP_EVIDENCE_HASH_MISMATCH'', reg)
      else if rs_contract_or_receipt_ref s = [] \<or> rs_evidence_uri s = []
        then (raise ValueError ''REPEP_ACQUISITION_EVIDENCE_REQUIRED'', reg)
      else if rs_valid_until s \<le> rs_effective_at s then (raise ValueError ''REPEP_VALIDITY_INVALID'', reg)
      else (Inr (), dict_set (rs_tenant_id s, rs_dataset_id s) s reg))"

text \<open>The dictionary \<open>check\<close> returns.\<close>

datatype repep_check =
    NotValid (rc_reason: string)
  | Checked (rc_listed: bool) (rc_dataset: string) (rc_hash: string)

definition repep_lookup :: "string \<Rightarrow> string \<Rightarrow> string \<Rightarrow> datetime \<Rightarrow> repep_registry \<Rightarrow> repep_check" where
  "repep_lookup tenant_id dataset_id token clock reg =
     (case map_of reg (tenant_id, dataset_id) of
        None \<Rightarrow> NotValid ''REPEP_SNAPSHOT_MISSING''
      | Some s \<Rightarrow>
          if \<not> (rs_effective_at s \<le> clock \<and> clock < rs_valid_until s) then NotValid ''REPEP_SNAPSHOT_STALE''
          else Checked (token \<in> rs_phone_tokens s) dataset_id (rs_evidence_hash s))"

text \<open>What an import accepts: evidence whose hash is recorded and a validity that is not empty.\<close>

definition snapshot_ok :: "repep_snapshot \<Rightarrow> bool" where
  "snapshot_ok s \<longleftrightarrow> (\<exists>raw. sha256_hexdigest raw = rs_evidence_hash s) \<and>
     rs_contract_or_receipt_ref s \<noteq> [] \<and> rs_evidence_uri s \<noteq> [] \<and> rs_effective_at s < rs_valid_until s"

definition registry_ok :: "repep_registry \<Rightarrow> bool" where
  "registry_ok reg \<longleftrightarrow>
     (\<forall>t d s. map_of reg (t, d) = Some s \<longrightarrow> snapshot_ok s \<and> rs_tenant_id s = t \<and> rs_dataset_id s = d)"

lemma import_registry_ok: "registry_ok reg \<Longrightarrow> registry_ok (snd (import_snapshot s raw reg))"
  by (auto simp: import_snapshot_def registry_ok_def snapshot_ok_def dict_simps)

lemma import_then_check:
  assumes "import_snapshot s raw reg = (Inr (), reg')"
  shows "repep_lookup (rs_tenant_id s) (rs_dataset_id s) token clock reg' =
    (if rs_effective_at s \<le> clock \<and> clock < rs_valid_until s
     then Checked (token \<in> rs_phone_tokens s) (rs_dataset_id s) (sha256_hexdigest raw)
     else NotValid ''REPEP_SNAPSHOT_STALE'')"
  using assms by (auto simp: import_snapshot_def repep_lookup_def dict_simps split: if_splits)

lemma import_other_tenant:
  assumes "import_snapshot s raw reg = (r, reg')" "tenant \<noteq> rs_tenant_id s"
  shows "repep_lookup tenant dataset token clock reg' = repep_lookup tenant dataset token clock reg"
  using assms by (auto simp: import_snapshot_def repep_lookup_def dict_simps split: if_splits)

section \<open>Sensitive recommendations\<close>

record opportunity_action =
  oa_kind :: string
  oa_amount :: "rat option"
  oa_discount_percent :: "rat option"
  oa_regulated_product :: bool

record sensitivity_policy =
  sp_max_discount :: rat
  sp_max_amount :: rat

definition default_sensitivity :: sensitivity_policy where
  "default_sensitivity = \<lparr>sp_max_discount = 5, sp_max_amount = 10000\<rparr>"

definition exceeds :: "rat option \<Rightarrow> rat \<Rightarrow> bool" where
  "exceeds v limit = (case v of None \<Rightarrow> False | Some x \<Rightarrow> limit < x)"

definition evaluate_action :: "sensitivity_policy \<Rightarrow> opportunity_action \<Rightarrow> string \<times> string list" where
  "evaluate_action p a =
     (let reasons =
        (if oa_kind a \<in> {''SIGN_CONTRACT'', ''TAKE_PAYMENT'', ''LEGAL_COMMITMENT'', ''GUARANTEE''}
         then [''PROHIBITED_AUTONOMOUS_ACTION''] else [])
        @ (if exceeds (oa_discount_percent a) (sp_max_discount p) then [''DISCOUNT_REQUIRES_HUMAN''] else [])
        @ (if exceeds (oa_amount a) (sp_max_amount p) then [''AMOUNT_REQUIRES_HUMAN''] else [])
        @ (if oa_regulated_product a then [''REGULATED_PRODUCT_REQUIRES_HUMAN''] else [])
      in if reasons \<noteq> [] then (''HUMAN_REVIEW'', reasons) else (''ALLOW_RECOMMENDATION'', [''WITHIN_LIMITS'']))"

lemma evaluate_allows:
  "fst (evaluate_action p a) = ''ALLOW_RECOMMENDATION'' \<longleftrightarrow>
     oa_kind a \<notin> {''SIGN_CONTRACT'', ''TAKE_PAYMENT'', ''LEGAL_COMMITMENT'', ''GUARANTEE''} \<and>
     \<not> exceeds (oa_discount_percent a) (sp_max_discount p) \<and> \<not> exceeds (oa_amount a) (sp_max_amount p) \<and>
     \<not> oa_regulated_product a"
  by (auto simp: evaluate_action_def Let_def)

end
