(* ===== verification/Phone.thy ===== *)
theory Phone
  imports Hashing
begin

text \<open>
  shared/atlantis_contracts/phone.py: E.164 normalisation of telephone numbers and the
  peppered token the registries store instead of them.
\<close>

definition e164_ok :: "string \<Rightarrow> bool" where
  "e164_ok s \<longleftrightarrow> (case s of
     p # d # ds \<Rightarrow> p = CHR ''+'' \<and> is_digit d \<and> d \<noteq> CHR ''0'' \<and> list_all is_digit ds \<and> 7 \<le> length ds \<and> length ds \<le> 14
   | _ \<Rightarrow> False)"

definition normalize_e164 :: "string \<Rightarrow> string \<Rightarrow> string res" where
  "normalize_e164 default_country_code value =
     (let raw0 = filter (\<lambda>c. is_digit c \<or> c = CHR ''+'') (py_strip value);
          raw1 = (if starts_with raw0 ''00'' then CHR ''+'' # drop 2 raw0 else raw0);
          raw2 = (if starts_with raw1 ''+'' then raw1
                  else (let digits = filter is_digit raw1 in
                        if default_country_code = ''52'' \<and> length digits = 10 then ''+52'' @ digits
                        else CHR ''+'' # default_country_code @ digits))
      in if \<not> e164_ok raw2 then raise PhoneError ''INVALID_E164_PHONE'' else Inr raw2)"

definition phone_token :: "string \<Rightarrow> bytes \<Rightarrow> string res" where
  "phone_token e164 tenant_pepper =
     (if length tenant_pepper < 32 then raise ValueError ''PHONE_TOKEN_PEPPER_TOO_SHORT''
      else rbind (normalize_e164 ''52'' e164) (\<lambda>n. Inr (sha256_hexdigest (tenant_pepper @ n))))"

lemma plus_not_digit [simp]: "\<not> is_digit (CHR ''+'')"
  by (simp add: is_digit_def)

lemma plus_not_space [simp]: "\<not> is_space (CHR ''+'')"
  by (simp add: is_space_def)

lemma e164_chars: "e164_ok s \<Longrightarrow> c \<in> set s \<Longrightarrow> is_digit c \<or> c = CHR ''+''"
  by (auto simp: e164_ok_def list_all_iff split: list.splits)

lemma e164_starts: "e164_ok s \<Longrightarrow> starts_with s ''+'' \<and> \<not> starts_with s ''00''"
  by (auto simp: e164_ok_def starts_with_def split: list.splits)

lemma normalize_ok: "normalize_e164 cc v = Inr n \<Longrightarrow> e164_ok n"
  by (auto simp: normalize_e164_def Let_def split: if_splits)

lemma normalize_id: "e164_ok s \<Longrightarrow> normalize_e164 cc s = Inr s"
proof -
  assume s: "e164_ok s"
  then have "py_strip s = s" using e164_chars digit_not_space by (intro py_strip_id) fastforce
  moreover have "filter (\<lambda>c. is_digit c \<or> c = CHR ''+'') s = s" using s e164_chars by (simp add: filter_id_conv)
  ultimately show ?thesis using s e164_starts [OF s] by (simp add: normalize_e164_def Let_def)
qed

lemma phone_token_Inr:
  "phone_token v pepper = Inr t \<longleftrightarrow>
     32 \<le> length pepper \<and> (\<exists>n. normalize_e164 ''52'' v = Inr n \<and> t = sha256_hexdigest (pepper @ n))"
  by (auto simp: phone_token_def rbind_Inr_iff not_less)

section \<open>Properties\<close>

text \<open>
  C36: what normalisation returns is a plus sign and eight to fifteen digits the first of which
  is not zero, and normalising it again, under any default country, changes nothing.
\<close>

theorem normalize_e164_normal_form:
  "normalize_e164 cc v = Inr n \<Longrightarrow> e164_ok n \<and> normalize_e164 cc' n = Inr n"
  using normalize_ok normalize_id by blast

theorem normalize_e164_normal_form_witness:
  "e164_ok ''+525512345678'' \<and> normalize_e164 ''1'' ''+525512345678'' = Inr ''+525512345678''"
proof (rule normalize_e164_normal_form)
  show "normalize_e164 ''52'' '' 55 (1234)-5678'' = Inr ''+525512345678''" by code_simp
qed

text \<open>
  The token does not depend on how the number is spelled: spellings with one normal form
  have one token, and the token of a number is the token of its normal form.
\<close>

theorem phone_token_canonical:
  assumes "normalize_e164 ''52'' v = Inr n" "normalize_e164 ''52'' w = Inr n"
  shows "phone_token v pepper = phone_token w pepper \<and> phone_token v pepper = phone_token n pepper"
  using assms normalize_id [OF normalize_ok [OF assms(1)]] by (simp add: phone_token_def)

theorem phone_token_canonical_witness:
  "phone_token ''55 1234 5678'' (replicate 32 (CHR ''k'')) = phone_token ''0052 55 1234 5678'' (replicate 32 (CHR ''k'')) \<and>
   phone_token ''55 1234 5678'' (replicate 32 (CHR ''k'')) = phone_token ''+525512345678'' (replicate 32 (CHR ''k''))"
proof (rule phone_token_canonical)
  show "normalize_e164 ''52'' ''55 1234 5678'' = Inr ''+525512345678''" by code_simp
  show "normalize_e164 ''52'' ''0052 55 1234 5678'' = Inr ''+525512345678''" by code_simp
qed

end
