(* ===== verification/Stores.thy ===== *)
theory Stores
  imports Prelude PyText
begin

text \<open>
  shared/atlantis_contracts/persistence.py, the in-memory stores: the bounded map and set
  with expiry, the nonce store of replay protection, the idempotency store. What their
  clients rely on is stated by the locales \<open>nonce_store\<close> and \<open>idempotency_store\<close>, which the
  stores interpret here and the PostgreSQL stores interpret in their own theory.
\<close>

section \<open>The bounded map with expiry\<close>

record ('k, 'v) ttl_map =
  tm_ttl_seconds :: real
  tm_max_entries :: nat
  tm_values :: "('k, 'v \<times> real) dict"

definition ttl_prune :: "real \<Rightarrow> ('k, 'v \<times> real) dict \<Rightarrow> ('k, 'v \<times> real) dict" where
  "ttl_prune now d = filter (\<lambda>(k, v). \<not> snd v \<le> now) d"

definition has_key :: "('k, 'v) dict \<Rightarrow> 'k \<Rightarrow> bool" where
  "has_key d k = (map_of d k \<noteq> None)"

text \<open>
  The eviction the stores share: \<open>oldest = min(d, key=...)\<close>, then \<open>d.pop(oldest, None)\<close>.
  \<open>min\<close> of an empty dictionary is a \<open>ValueError\<close>.
\<close>

definition evict :: "('v \<Rightarrow> real) \<Rightarrow> ('k, 'v) dict \<Rightarrow> ('k, 'v) dict res" where
  "evict f d = (case min_key f d of
     None \<Rightarrow> raise ValueError ''min() iterable argument is empty''
   | Some oldest \<Rightarrow> Inr (dict_pop oldest d))"

definition ttl_set :: "real \<Rightarrow> 'k \<Rightarrow> 'v \<Rightarrow> ('k, 'v) ttl_map \<Rightarrow> unit res \<times> ('k, 'v) ttl_map" where
  "ttl_set now key v m =
     (let values = ttl_prune now (tm_values m);
          entry = (v, now + tm_ttl_seconds m)
      in if tm_max_entries m \<le> length values \<and> \<not> has_key values key
         then (case evict snd values of
                 Inl e \<Rightarrow> (Inl e, m\<lparr>tm_values := values\<rparr>)
               | Inr values' \<Rightarrow> (Inr (), m\<lparr>tm_values := dict_set key entry values'\<rparr>))
         else (Inr (), m\<lparr>tm_values := dict_set key entry values\<rparr>))"

text \<open>\<open>__getitem__\<close> and \<open>get\<close>; \<open>None\<close> is the \<open>KeyError\<close> that \<open>get\<close> turns into its default.\<close>

definition ttl_get :: "real \<Rightarrow> 'k \<Rightarrow> ('k, 'v) ttl_map \<Rightarrow> 'v option \<times> ('k, 'v) ttl_map" where
  "ttl_get now key m =
     (let values = ttl_prune now (tm_values m) in (map_option fst (map_of values key), m\<lparr>tm_values := values\<rparr>))"

text \<open>\<open>BoundedTTLSet.remember\<close> reads the clock once in \<open>get\<close> and once in the assignment.\<close>

definition ttl_remember :: "real \<Rightarrow> real \<Rightarrow> 'k \<Rightarrow> ('k, unit) ttl_map \<Rightarrow> bool res \<times> ('k, unit) ttl_map" where
  "ttl_remember now1 now2 v m =
     (case ttl_get now1 v m of
        (Some _, m') \<Rightarrow> (Inr False, m')
      | (None, m') \<Rightarrow> (case ttl_set now2 v () m' of (Inl e, m'') \<Rightarrow> (Inl e, m'') | (Inr _, m'') \<Rightarrow> (Inr True, m'')))"

definition ttl_ok :: "('k, 'v) ttl_map \<Rightarrow> bool" where
  "ttl_ok m \<longleftrightarrow> dict_wf (tm_values m) \<and> length (tm_values m) \<le> tm_max_entries m"

lemma has_key_iff: "has_key d k \<longleftrightarrow> k \<in> fst ` set d"
  by (simp add: has_key_def map_of_eq_None_iff)

lemma ttl_prune_wf [simp]: "dict_wf d \<Longrightarrow> dict_wf (ttl_prune now d)"
  by (simp add: ttl_prune_def)

lemma ttl_prune_length: "length (ttl_prune now d) \<le> length d"
  by (simp add: ttl_prune_def)

lemma ttl_prune_get:
  "dict_wf d \<Longrightarrow> map_of (ttl_prune now d) k =
    (case map_of d k of None \<Rightarrow> None | Some v \<Rightarrow> if now < snd v then Some v else None)"
  unfolding ttl_prune_def by (subst dict_get_filter) (auto split: option.splits)

lemma evict_Inr:
  assumes "evict f d = Inr d'"
  shows "\<exists>k v. (k, v) \<in> set d \<and> (\<forall>x \<in> set d. f v \<le> f (snd x)) \<and> d' = dict_pop k d"
  using assms min_key_Some [of f d] by (auto simp: evict_def split: option.splits)

lemma evict_shrinks:
  assumes "evict f d = Inr d'" "dict_wf d"
  shows "dict_wf d'" "length d' = length d - 1" "set d' \<subseteq> set d"
proof -
  obtain k v where k: "(k, v) \<in> set d" "d' = dict_pop k d" using evict_Inr [OF assms(1)] by blast
  then show "dict_wf d'" "set d' \<subseteq> set d" using assms(2) dict_pop_subset [of k d] by auto
  have "k \<in> fst ` set d" using k(1) by force
  then show "length d' = length d - 1" using dict_length_pop assms(2) k(2) by metis
qed

lemma evict_total: "d \<noteq> [] \<Longrightarrow> \<exists>d'. evict f d = Inr d'"
  using min_key_None [of f d] by (auto simp: evict_def split: option.splits)

lemma ttl_set_ok:
  assumes "ttl_ok m"
  shows "ttl_ok (snd (ttl_set now k v m))"
proof -
  let ?p = "ttl_prune now (tm_values m)"
  have p: "dict_wf ?p" "length ?p \<le> tm_max_entries m"
    using assms ttl_prune_length [of now "tm_values m"] by (auto simp: ttl_ok_def)
  show ?thesis
  proof (cases "tm_max_entries m \<le> length ?p \<and> \<not> has_key ?p k")
    case True
    show ?thesis
    proof (cases "evict snd ?p")
      case (Inl e)
      then show ?thesis using True p by (simp add: ttl_set_def Let_def ttl_ok_def)
    next
      case (Inr d')
      then have "?p \<noteq> []" by (auto simp: evict_def min_key_def)
      then have "Suc (length ?p - 1) \<le> tm_max_entries m" using p by (cases ?p) auto
      then show ?thesis using True Inr p evict_shrinks [OF Inr p(1)]
        by (simp add: ttl_set_def Let_def ttl_ok_def dict_length_set)
    qed
  next
    case False
    then show ?thesis using p by (auto simp: ttl_set_def Let_def ttl_ok_def dict_length_set has_key_iff)
  qed
qed

lemma ttl_get_ok: "ttl_ok m \<Longrightarrow> ttl_ok (snd (ttl_get now k m))"
  using ttl_prune_length [of now "tm_values m"] by (auto simp: ttl_get_def Let_def ttl_ok_def)

lemma ttl_set_get:
  assumes "ttl_ok m" "ttl_set now k v m = (Inr (), m')"
  shows "fst (ttl_get later k m') = (if later < now + tm_ttl_seconds m then Some v else None)"
proof -
  have "ttl_ok m'" using ttl_set_ok [OF assms(1), of now k v] assms(2) by simp
  moreover have "map_of (tm_values m') k = Some (v, now + tm_ttl_seconds m)"
    using assms(2) by (auto simp: ttl_set_def Let_def dict_simps split: if_splits sum.splits)
  ultimately show ?thesis by (simp add: ttl_get_def Let_def ttl_ok_def ttl_prune_get)
qed

section \<open>Replay protection\<close>

text \<open>
  What the request verifier relies on. \<open>e\<close> is what the provider reads when it is called (a
  clock), \<open>held e s k\<close> says that the nonce \<open>k\<close> is refused at \<open>e\<close>, \<open>covers e t e'\<close> that a nonce
  accepted at \<open>e\<close> with issue time \<open>t\<close> is still held at \<open>e'\<close>, \<open>room\<close> that the store evicts nothing.
\<close>

type_synonym nonce_key = "string \<times> string \<times> string"

locale nonce_store =
  fixes remember :: "'e \<Rightarrow> nonce_key \<Rightarrow> int \<Rightarrow> 's \<Rightarrow> bool res \<times> 's"
    and ok :: "'s \<Rightarrow> bool"
    and held :: "'e \<Rightarrow> 's \<Rightarrow> nonce_key \<Rightarrow> bool"
    and covers :: "'e \<Rightarrow> int \<Rightarrow> 'e \<Rightarrow> bool"
    and precedes :: "'e \<Rightarrow> 'e \<Rightarrow> bool"
    and room :: "'s \<Rightarrow> bool"
  assumes ok_remember: "ok s \<Longrightarrow> ok (snd (remember e k t s))"
    and accept_held: "ok s \<Longrightarrow> remember e k t s = (Inr True, s') \<Longrightarrow> covers e t e' \<Longrightarrow> held e' s' k"
    and held_refused: "ok s \<Longrightarrow> held e s k \<Longrightarrow> fst (remember e k t s) \<noteq> Inr True"
    and held_stays: "ok s \<Longrightarrow> room s \<Longrightarrow> held e' s k \<Longrightarrow> precedes e e' \<Longrightarrow> held e' (snd (remember e j t s)) k"
begin

lemma replay_refused:
  assumes "ok s" "remember e k t s = (Inr True, s')" "covers e t e'"
  shows "fst (remember e' k t' s') \<noteq> Inr True"
  using assms by (metis accept_held held_refused ok_remember snd_conv)

lemma replay_refused_after_other:
  assumes "ok s" "remember e k t s = (Inr True, s')" "covers e t e'" "precedes e1 e'" "room s'"
  shows "fst (remember e' k t' (snd (remember e1 j t1 s'))) \<noteq> Inr True"
  using assms by (metis accept_held held_refused held_stays ok_remember snd_conv)

end

record mem_nonces =
  mn_ttl_seconds :: real
  mn_max_entries :: nat
  mn_values :: "(nonce_key, real) dict"

definition live_nonces :: "real \<Rightarrow> (nonce_key, real) dict \<Rightarrow> (nonce_key, real) dict" where
  "live_nonces now d = filter (\<lambda>(k, expiry). now < expiry) d"

text \<open>\<open>MemoryNonceStore.remember\<close>; the key is (tenant, service, nonce), the issue time is not used.\<close>

definition mem_remember :: "real \<Rightarrow> nonce_key \<Rightarrow> int \<Rightarrow> mem_nonces \<Rightarrow> bool res \<times> mem_nonces" where
  "mem_remember now key issued_at s =
     (let values = live_nonces now (mn_values s) in
      if has_key values key then (Inr False, s\<lparr>mn_values := values\<rparr>)
      else if mn_max_entries s \<le> length values
        then (case evict (\<lambda>x. x) values of
                Inl e \<Rightarrow> (Inl e, s\<lparr>mn_values := values\<rparr>)
              | Inr values' \<Rightarrow> (Inr True, s\<lparr>mn_values := dict_set key (now + mn_ttl_seconds s) values'\<rparr>))
        else (Inr True, s\<lparr>mn_values := dict_set key (now + mn_ttl_seconds s) values\<rparr>))"

definition nonces_ok :: "mem_nonces \<Rightarrow> bool" where
  "nonces_ok s \<longleftrightarrow> dict_wf (mn_values s) \<and> length (mn_values s) \<le> mn_max_entries s"

definition nonce_held :: "real \<Rightarrow> mem_nonces \<Rightarrow> nonce_key \<Rightarrow> bool" where
  "nonce_held now s k \<longleftrightarrow> (\<exists>x. map_of (mn_values s) k = Some x \<and> now < x)"

lemma live_nonces_wf [simp]: "dict_wf d \<Longrightarrow> dict_wf (live_nonces now d)"
  by (simp add: live_nonces_def)

lemma live_nonces_get:
  "dict_wf d \<Longrightarrow> map_of (live_nonces now d) k =
    (case map_of d k of None \<Rightarrow> None | Some x \<Rightarrow> if now < x then Some x else None)"
  unfolding live_nonces_def by (subst dict_get_filter) (auto split: option.splits)

lemma live_nonces_length: "length (live_nonces now d) \<le> length d"
  by (simp add: live_nonces_def)

lemma mem_remember_accepts:
  assumes "mem_remember now k t s = (Inr True, s')"
  shows "map_of (mn_values s') k = Some (now + mn_ttl_seconds s)"
    "mn_ttl_seconds s' = mn_ttl_seconds s" "mn_max_entries s' = mn_max_entries s"
    "\<not> nonce_held now s k \<or> \<not> dict_wf (mn_values s)"
  using assms by (auto simp: mem_remember_def Let_def dict_simps has_key_def nonce_held_def live_nonces_get
      split: if_splits sum.splits)

lemma mem_remember_ok:
  assumes "nonces_ok s"
  shows "nonces_ok (snd (mem_remember now k t s))"
proof -
  let ?p = "live_nonces now (mn_values s)"
  have p: "dict_wf ?p" "length ?p \<le> mn_max_entries s"
    using assms live_nonces_length [of now "mn_values s"] by (auto simp: nonces_ok_def)
  show ?thesis
  proof (cases "evict (\<lambda>x. x) ?p")
    case (Inl e)
    then show ?thesis using p by (auto simp: mem_remember_def Let_def nonces_ok_def dict_length_set)
  next
    case (Inr d')
    then have "?p \<noteq> []" by (auto simp: evict_def min_key_def)
    then have "Suc (length ?p - 1) \<le> mn_max_entries s" using p by (cases ?p) auto
    then show ?thesis using Inr p evict_shrinks [OF Inr p(1)]
      by (auto simp: mem_remember_def Let_def nonces_ok_def dict_length_set has_key_iff)
  qed
qed

definition nonce_ttl :: "real \<Rightarrow> mem_nonces \<Rightarrow> bool" where
  "nonce_ttl ttl s \<longleftrightarrow> nonces_ok s \<and> mn_ttl_seconds s = ttl"

lemma has_key_live: "dict_wf (mn_values s) \<Longrightarrow> has_key (live_nonces now (mn_values s)) k \<longleftrightarrow> nonce_held now s k"
  by (cases "map_of (mn_values s) k") (auto simp: has_key_def nonce_held_def live_nonces_get simp del: map_of_eq_Some_iff)

lemma mem_held_refused:
  "nonces_ok s \<Longrightarrow> nonce_held now s k \<Longrightarrow> fst (mem_remember now k t s) = Inr False"
  by (simp add: mem_remember_def Let_def nonces_ok_def has_key_live)

lemma mem_held_stays:
  assumes "nonces_ok s" "length (mn_values s) < mn_max_entries s" "nonce_held later s k" "now \<le> later"
  shows "nonce_held later (snd (mem_remember now j t s)) k"
proof -
  have l: "length (live_nonces now (mn_values s)) < mn_max_entries s"
    using assms(2) live_nonces_length [of now "mn_values s"] by linarith
  obtain x where x: "map_of (mn_values s) k = Some x" "later < x" using assms(3) by (auto simp: nonce_held_def)
  then have g: "map_of (live_nonces now (mn_values s)) k = Some x"
    using assms(1,4) by (simp add: nonces_ok_def live_nonces_get del: map_of_eq_Some_iff)
  then have "has_key (live_nonces now (mn_values s)) j" if "j = k" using that by (simp add: has_key_def)
  then show ?thesis using g x(2) l
    by (cases "j = k") (simp_all add: mem_remember_def Let_def nonce_held_def dict_simps)
qed

lemma mem_remember_fixed:
  "mn_ttl_seconds (snd (mem_remember now k t s)) = mn_ttl_seconds s"
  "mn_max_entries (snd (mem_remember now k t s)) = mn_max_entries s"
  by (auto simp: mem_remember_def Let_def split: sum.splits)

interpretation mem_nonces: nonce_store mem_remember "nonce_ttl ttl" nonce_held "\<lambda>now t later. later < now + ttl" "(\<le>)"
    "\<lambda>s. length (mn_values s) < mn_max_entries s"
  for ttl
proof unfold_locales
  fix now later :: real and k j :: nonce_key and t :: int and s s' :: mem_nonces
  show "nonce_ttl ttl s \<Longrightarrow> nonce_ttl ttl (snd (mem_remember now k t s))"
    by (simp add: nonce_ttl_def mem_remember_ok mem_remember_fixed)
  show "nonce_ttl ttl s \<Longrightarrow> mem_remember now k t s = (Inr True, s') \<Longrightarrow> later < now + ttl \<Longrightarrow> nonce_held later s' k"
    using mem_remember_accepts(1) [of now k t s s'] by (simp add: nonce_ttl_def nonce_held_def)
  show "nonce_ttl ttl s \<Longrightarrow> nonce_held now s k \<Longrightarrow> fst (mem_remember now k t s) \<noteq> Inr True"
    by (simp add: nonce_ttl_def mem_held_refused)
  show "nonce_ttl ttl s \<Longrightarrow> length (mn_values s) < mn_max_entries s \<Longrightarrow> nonce_held later s k \<Longrightarrow> now \<le> later
      \<Longrightarrow> nonce_held later (snd (mem_remember now j t s)) k"
    by (simp add: nonce_ttl_def mem_held_stays)
qed

section \<open>Replay protection of the bounded store under load\<close>

text \<open>
  A full store evicts the entry that expires first. With a clock that does not run backwards
  that is the oldest entry, so a nonce is forgotten early only after \<open>max_entries\<close> later ones.
\<close>

fun nonce_run :: "(real \<times> nonce_key \<times> int) list \<Rightarrow> mem_nonces \<Rightarrow> nat \<times> mem_nonces" where
  "nonce_run [] s = (0, s)"
| "nonce_run ((now, k, t) # rest) s =
     (case mem_remember now k t s of
        (r, s') \<Rightarrow> (case nonce_run rest s' of (n, s'') \<Rightarrow> ((if r = Inr True then Suc n else n), s'')))"

definition nonces_sorted :: "real \<Rightarrow> mem_nonces \<Rightarrow> bool" where
  "nonces_sorted now s \<longleftrightarrow> nonces_ok s \<and> sorted (map snd (mn_values s)) \<and>
     (\<forall>x \<in> set (mn_values s). snd x \<le> now + mn_ttl_seconds s)"

lemma min_entry_first: "(\<forall>x \<in> set xs. f (snd b) \<le> f (snd x)) \<Longrightarrow> min_entry f b xs = b"
  by (induction xs) auto

lemma evict_sorted:
  assumes "sorted (map snd d)" "dict_wf d" "d \<noteq> []"
  shows "evict (\<lambda>x :: real. x) d = Inr (tl d)"
proof -
  obtain k v xs where d: "d = (k, v) # xs" using assms(3) by (cases d) auto
  have "min_entry (\<lambda>x. x) (k, v) xs = (k, v)" using assms(1) d by (intro min_entry_first) auto
  moreover have "k \<notin> fst ` set xs" using assms(2) d by auto
  ultimately show ?thesis using d by (simp add: evict_def min_key_def AList.delete_id)
qed

text \<open>What \<open>remember\<close> does to a sorted store that accepts.\<close>

lemma mem_remember_sorted_accepts:
  assumes "nonces_sorted now s" "mem_remember now k t s = (Inr True, s')"
  shows "k \<notin> fst ` set (live_nonces now (mn_values s))"
    "mn_values s' =
      (if mn_max_entries s \<le> length (live_nonces now (mn_values s))
       then tl (live_nonces now (mn_values s)) else live_nonces now (mn_values s)) @ [(k, now + mn_ttl_seconds s)]"
proof -
  let ?d = "live_nonces now (mn_values s)"
  have w: "dict_wf ?d" "sorted (map snd ?d)"
    using assms(1) by (auto simp: nonces_sorted_def nonces_ok_def live_nonces_def sorted_filter)
  show k: "k \<notin> fst ` set ?d"
    using assms(2) by (auto simp: mem_remember_def Let_def has_key_iff split: if_splits)
  then have "k \<notin> fst ` set (tl ?d)" by (cases ?d) auto
  then show "mn_values s' = (if mn_max_entries s \<le> length ?d then tl ?d else ?d) @ [(k, now + mn_ttl_seconds s)]"
    using assms(2) k w evict_sorted [of ?d] evict_def [of "\<lambda>x. x" "[] :: (nonce_key, real) dict"]
    by (cases "?d = []") (auto simp: mem_remember_def Let_def has_key_iff min_key_def dict_set_fresh split: if_splits)
qed

lemma mem_remember_not_accepted:
  "fst (mem_remember now k t s) \<noteq> Inr True \<Longrightarrow>
    snd (mem_remember now k t s) = s\<lparr>mn_values := live_nonces now (mn_values s)\<rparr>"
  by (auto simp: mem_remember_def Let_def split: if_splits sum.splits)

lemma nonces_sorted_step:
  assumes "nonces_sorted now0 s" "now0 \<le> now"
  shows "nonces_sorted now (snd (mem_remember now k t s))"
proof -
  let ?d = "live_nonces now (mn_values s)"
  have d: "sorted (map snd ?d)" "\<forall>x \<in> set ?d. snd x \<le> now + mn_ttl_seconds s"
    using assms by (auto simp: nonces_sorted_def live_nonces_def sorted_filter)
  then have tl: "sorted (map snd (tl ?d))" "\<forall>x \<in> set (tl ?d). snd x \<le> now + mn_ttl_seconds s"
    by (cases ?d; simp)+
  have ok: "nonces_ok (snd (mem_remember now k t s))"
    using assms(1) by (intro mem_remember_ok) (simp add: nonces_sorted_def)
  show ?thesis
  proof (cases "fst (mem_remember now k t s) = Inr True")
    case True
    then obtain s' where s': "mem_remember now k t s = (Inr True, s')" by (metis prod.collapse)
    have "nonces_sorted now s" using assms by (auto simp: nonces_sorted_def)
    from mem_remember_sorted_accepts(2) [OF this s'] mem_remember_fixed(1) [of now k t s] ok d tl s'
    show ?thesis by (auto simp: nonces_sorted_def sorted_append)
  next
    case False
    then show ?thesis using ok d by (simp add: nonces_sorted_def mem_remember_not_accepted)
  qed
qed

definition nonce_at :: "nat \<Rightarrow> real \<Rightarrow> nonce_key \<Rightarrow> (nonce_key, real) dict \<Rightarrow> bool" where
  "nonce_at n x k d \<longleftrightarrow> (\<exists>pre post. d = pre @ (k, x) # post \<and> length post \<le> n)"

lemma nonce_at_live: "nonce_at n x k d \<Longrightarrow> now < x \<Longrightarrow> nonce_at n x k (live_nonces now d)"
proof -
  assume "nonce_at n x k d" "now < x"
  then obtain pre post where "d = pre @ (k, x) # post" "length post \<le> n" by (auto simp: nonce_at_def)
  moreover from this \<open>now < x\<close> have "live_nonces now d = live_nonces now pre @ (k, x) # live_nonces now post"
    by (simp add: live_nonces_def)
  ultimately show ?thesis using live_nonces_length [of now post] le_trans unfolding nonce_at_def by blast
qed

lemma nonce_at_tl:
  assumes "nonce_at n x k d" "Suc n < length d"
  shows "nonce_at n x k (tl d)"
proof -
  obtain pre post where d: "d = pre @ (k, x) # post" "length post \<le> n" using assms(1) by (auto simp: nonce_at_def)
  then have "tl d = tl pre @ (k, x) # post" using assms(2) by (cases pre) auto
  with d(2) show ?thesis by (auto simp: nonce_at_def)
qed

lemma nonce_at_snoc: "nonce_at n x k d \<Longrightarrow> nonce_at (Suc n) x k (d @ [y])"
  by (force simp: nonce_at_def)

lemma nonce_at_step:
  assumes "nonces_sorted now s" "now < x" "nonce_at n x k (mn_values s)" "mem_remember now j t s = (r, s')"
    and "r = Inr True \<Longrightarrow> Suc n < mn_max_entries s"
  shows "nonce_at (if r = Inr True then Suc n else n) x k (mn_values s')"
proof -
  have live: "nonce_at n x k (live_nonces now (mn_values s))" using assms(3,2) by (rule nonce_at_live)
  show ?thesis
  proof (cases "r = Inr True")
    case True
    then have "mem_remember now j t s = (Inr True, s')" using assms(4) by simp
    from mem_remember_sorted_accepts(2) [OF assms(1) this] True live nonce_at_tl [OF live] assms(5)
    show ?thesis by (auto intro: nonce_at_snoc)
  next
    case False
    then show ?thesis using live mem_remember_not_accepted [of now j t s] assms(4) by simp
  qed
qed

lemma nonce_run_keeps:
  assumes "nonces_sorted now s" "nonce_at n x k (mn_values s)" "nonce_run reqs s = (m, s')"
    and "sorted (now # map fst reqs)" "\<forall>q \<in> set reqs. fst q < x" "n + m < mn_max_entries s"
  shows "nonce_at (n + m) x k (mn_values s') \<and> nonces_ok s'"
  using assms
proof (induction reqs arbitrary: now s n m)
  case (Cons q reqs)
  obtain now' j t where q: "q = (now', j, t)" by (cases q)
  obtain r s1 where r: "mem_remember now' j t s = (r, s1)" by fastforce
  obtain m' where m: "nonce_run reqs s1 = (m', s')" "m = (if r = Inr True then Suc m' else m')"
    using Cons.prems(3) q r by (auto split: prod.splits)
  have le: "now \<le> now'" "now' < x" using Cons.prems q by auto
  have s: "nonces_sorted now' s" using Cons.prems(1) le by (auto simp: nonces_sorted_def)
  have at: "nonce_at (if r = Inr True then Suc n else n) x k (mn_values s1)"
    using s le(2) Cons.prems(2) r by (rule nonce_at_step) (use Cons.prems(6) m in simp)
  have s1: "nonces_sorted now' s1" "mn_max_entries s1 = mn_max_entries s"
    using nonces_sorted_step [OF s, of now' j t] mem_remember_fixed(2) [of now' j t s] r by auto
  have "nonce_at ((if r = Inr True then Suc n else n) + m') x k (mn_values s') \<and> nonces_ok s'"
    using s1(1) at m(1) by (rule Cons.IH) (use Cons.prems q m s1 in auto)
  then show ?case using m(2) by (simp split: if_splits)
qed (auto simp: nonces_sorted_def)

lemma nonce_at_held: "nonces_ok s \<Longrightarrow> nonce_at n x k (mn_values s) \<Longrightarrow> now < x \<Longrightarrow> nonce_held now s k"
  by (auto simp: nonce_at_def nonce_held_def nonces_ok_def intro!: exI [of _ x] map_of_is_SomeI)

lemma nonce_remembered:
  assumes "nonces_sorted now0 s" "now0 \<le> now" "mem_remember now k t s = (Inr True, s1)"
    and "nonce_run reqs s1 = (m, s2)" "sorted (now # map fst reqs)"
    and "\<forall>q \<in> set reqs. fst q < now + mn_ttl_seconds s" "later < now + mn_ttl_seconds s" "m < mn_max_entries s"
  shows "fst (mem_remember later k t' s2) = Inr False"
proof -
  let ?x = "now + mn_ttl_seconds s"
  have s: "nonces_sorted now s" using assms(1,2) by (auto simp: nonces_sorted_def)
  have "nonce_at 0 ?x k (mn_values s1)"
    unfolding mem_remember_sorted_accepts(2) [OF s assms(3)] nonce_at_def by blast
  moreover have "nonces_sorted now s1" "mn_max_entries s1 = mn_max_entries s"
    using nonces_sorted_step [OF s, of now k t] mem_remember_fixed(2) [of now k t s] assms(3) by auto
  ultimately have "nonce_at m ?x k (mn_values s2) \<and> nonces_ok s2"
    using nonce_run_keeps [of now s1 0 ?x k reqs m s2] assms(4-8) by simp
  then show ?thesis using nonce_at_held assms(7) mem_held_refused by blast
qed

section \<open>Idempotency\<close>

datatype 'b claim_result = ClaimNew | ClaimConflict | ClaimPending | ClaimCached int 'b

type_synonym idem_key = "string \<times> string"

text \<open>
  What the router relies on. \<open>view e s k\<close> is what the store knows of the key \<open>k\<close> (tenant and
  idempotency key) at \<open>e\<close>: the hash of the request and the recorded response. \<open>norm\<close> is what
  the provider does to a body it records (a \<open>jsonb\<close> column normalises it).
\<close>

locale idempotency_store =
  fixes claim :: "'e \<Rightarrow> idem_key \<Rightarrow> string \<Rightarrow> 's \<Rightarrow> 'b claim_result res \<times> 's"
    and finish :: "'e \<Rightarrow> idem_key \<Rightarrow> string \<Rightarrow> int \<Rightarrow> 'b \<Rightarrow> 's \<Rightarrow> unit res \<times> 's"
    and abandon :: "'e \<Rightarrow> idem_key \<Rightarrow> string \<Rightarrow> 's \<Rightarrow> unit res \<times> 's"
    and ok :: "'s \<Rightarrow> bool"
    and view :: "'e \<Rightarrow> 's \<Rightarrow> idem_key \<Rightarrow> (string \<times> (int \<times> 'b) option) option"
    and covers :: "'e \<Rightarrow> 'e \<Rightarrow> bool"
    and norm :: "'b \<Rightarrow> 'b"
  assumes ok_claim: "ok s \<Longrightarrow> ok (snd (claim e k h s))"
    and ok_finish: "ok s \<Longrightarrow> ok (snd (finish e k h st b s))"
    and ok_abandon: "ok s \<Longrightarrow> ok (snd (abandon e k h s))"
    and claim_new: "ok s \<Longrightarrow> claim e k h s = (Inr ClaimNew, s') \<Longrightarrow> covers e e' \<Longrightarrow> view e' s' k = Some (h, None)"
    and claim_free: "ok s \<Longrightarrow> view e s k = None \<Longrightarrow> claim e k h s = (Inr c, s') \<Longrightarrow> c = ClaimNew"
    and claim_known: "ok s \<Longrightarrow> view e s k = Some (h', r) \<Longrightarrow> claim e k h s = (Inr c, s') \<Longrightarrow>
      c = (if h' \<noteq> h then ClaimConflict else case r of None \<Rightarrow> ClaimPending | Some (st, b) \<Rightarrow> ClaimCached st b)"
    and claim_keeps: "ok s \<Longrightarrow> view e s k = Some v \<Longrightarrow> view e (snd (claim e k h s)) k = Some v"
    and finish_records: "ok s \<Longrightarrow> finish e k h st b s = (Inr (), s') \<Longrightarrow> view e' s k = Some (h, r) \<Longrightarrow>
      view e' s' k = Some (h, Some (st, norm b))"
    and abandon_frees: "ok s \<Longrightarrow> abandon e k h s = (Inr (), s') \<Longrightarrow> view e' s k = Some (h, None) \<Longrightarrow> view e' s' k = None"
    and abandon_keeps: "ok s \<Longrightarrow> abandon e k h s = (Inr (), s') \<Longrightarrow> view e' s k = Some (h, Some p) \<Longrightarrow>
      view e' s' k = Some (h, Some p)"
begin

lemma claim_result:
  assumes "ok s" "claim e k h s = (Inr c, s')"
  shows "c = (case view e s k of None \<Rightarrow> ClaimNew
    | Some (h', r) \<Rightarrow> if h' \<noteq> h then ClaimConflict else case r of None \<Rightarrow> ClaimPending | Some (st, b) \<Rightarrow> ClaimCached st b)"
  using claim_free [OF assms(1) _ assms(2)] claim_known [OF assms(1) _ assms(2)] by (auto split: option.splits)

text \<open>A finished request is answered from the store, whatever a repetition asks.\<close>

lemma finished_cached:
  assumes "ok s" "claim e k h s = (Inr ClaimNew, s1)" "ok s2" "view e' s1 k = view e' s2 k" "covers e e'"
    and "finish f k h st b s2 = (Inr (), s3)" "claim e' k h' s3 = (Inr c, s4)"
  shows "c = (if h = h' then ClaimCached st (norm b) else ClaimConflict)"
proof -
  have "view e' s2 k = Some (h, None)" using claim_new [OF assms(1,2,5)] assms(4) by simp
  then have "view e' s3 k = Some (h, Some (st, norm b))" by (rule finish_records [OF assms(3,6)])
  moreover have "ok s3" using ok_finish [OF assms(3), of f k h st b] assms(6) by simp
  ultimately show ?thesis using claim_known [OF _ _ assms(7)] by auto
qed

end

record 'b mem_idem =
  mi_service_name :: string
  mi_ttl_seconds :: real
  mi_max_entries :: nat
  mi_values :: "(string \<times> string \<times> string, string \<times> (int \<times> 'b) option \<times> real) dict"

definition idem_live :: "real \<Rightarrow> ('k, string \<times> (int \<times> 'b) option \<times> real) dict \<Rightarrow> ('k, string \<times> (int \<times> 'b) option \<times> real) dict" where
  "idem_live now d = filter (\<lambda>(k, v). now < snd (snd v)) d"

definition idem_cache_key :: "'b mem_idem \<Rightarrow> idem_key \<Rightarrow> string \<times> string \<times> string" where
  "idem_cache_key s k = (fst k, mi_service_name s, snd k)"

definition idem_claim :: "real \<Rightarrow> idem_key \<Rightarrow> string \<Rightarrow> 'b mem_idem \<Rightarrow> 'b claim_result res \<times> 'b mem_idem" where
  "idem_claim now k request_hash s =
     (let cache_key = idem_cache_key s k;
          values = idem_live now (mi_values s);
          entry = (request_hash, None, now + mi_ttl_seconds s)
      in case map_of values cache_key of
           Some (hash, response, _) \<Rightarrow>
             (if hash \<noteq> request_hash then (Inr ClaimConflict, s\<lparr>mi_values := values\<rparr>)
              else case response of
                     None \<Rightarrow> (Inr ClaimPending, s\<lparr>mi_values := values\<rparr>)
                   | Some (status, body) \<Rightarrow> (Inr (ClaimCached status body), s\<lparr>mi_values := values\<rparr>))
         | None \<Rightarrow>
             (if mi_max_entries s \<le> length values
              then (case evict (\<lambda>v. snd (snd v)) values of
                      Inl e \<Rightarrow> (Inl e, s\<lparr>mi_values := values\<rparr>)
                    | Inr values' \<Rightarrow> (Inr ClaimNew, s\<lparr>mi_values := dict_set cache_key entry values'\<rparr>))
              else (Inr ClaimNew, s\<lparr>mi_values := dict_set cache_key entry values\<rparr>)))"

definition idem_finish :: "real \<Rightarrow> idem_key \<Rightarrow> string \<Rightarrow> int \<Rightarrow> 'b \<Rightarrow> 'b mem_idem \<Rightarrow> unit res \<times> 'b mem_idem" where
  "idem_finish now k request_hash status body s =
     (case map_of (mi_values s) (idem_cache_key s k) of
        Some (hash, response, expiry) \<Rightarrow>
          (if hash = request_hash
           then (Inr (), s\<lparr>mi_values := dict_set (idem_cache_key s k) (request_hash, Some (status, body), expiry) (mi_values s)\<rparr>)
           else (Inr (), s))
      | None \<Rightarrow> (Inr (), s))"

definition idem_abandon :: "real \<Rightarrow> idem_key \<Rightarrow> string \<Rightarrow> 'b mem_idem \<Rightarrow> unit res \<times> 'b mem_idem" where
  "idem_abandon now k request_hash s =
     (case map_of (mi_values s) (idem_cache_key s k) of
        Some (hash, response, _) \<Rightarrow>
          (if hash = request_hash \<and> response = None
           then (Inr (), s\<lparr>mi_values := dict_pop (idem_cache_key s k) (mi_values s)\<rparr>)
           else (Inr (), s))
      | None \<Rightarrow> (Inr (), s))"

definition idem_ok :: "'b mem_idem \<Rightarrow> bool" where
  "idem_ok s \<longleftrightarrow> dict_wf (mi_values s) \<and> length (mi_values s) \<le> mi_max_entries s"

definition idem_view :: "real \<Rightarrow> 'b mem_idem \<Rightarrow> idem_key \<Rightarrow> (string \<times> (int \<times> 'b) option) option" where
  "idem_view now s k =
     (case map_of (mi_values s) (idem_cache_key s k) of
        Some (hash, response, expiry) \<Rightarrow> if now < expiry then Some (hash, response) else None
      | None \<Rightarrow> None)"

definition idem_ttl :: "real \<Rightarrow> 'b mem_idem \<Rightarrow> bool" where
  "idem_ttl ttl s \<longleftrightarrow> idem_ok s \<and> mi_ttl_seconds s = ttl"

lemma idem_live_wf [simp]: "dict_wf d \<Longrightarrow> dict_wf (idem_live now d)"
  by (simp add: idem_live_def)

lemma idem_live_length: "length (idem_live now d) \<le> length d"
  by (simp add: idem_live_def)

lemma idem_view_live:
  assumes "idem_ok s"
  shows "idem_view now s k =
    (case map_of (idem_live now (mi_values s)) (idem_cache_key s k) of None \<Rightarrow> None | Some (h, r, _) \<Rightarrow> Some (h, r))"
  using assms dict_get_filter [of "mi_values s" "\<lambda>v. now < snd (snd v)" "idem_cache_key s k"]
  by (auto simp: idem_view_def idem_live_def idem_ok_def simp del: map_of_eq_Some_iff split: option.splits)

lemma idem_cache_key_upd [simp]: "idem_cache_key (s\<lparr>mi_values := d\<rparr>) k = idem_cache_key s k"
  by (simp add: idem_cache_key_def)

lemma idem_claim_ok:
  assumes "idem_ok s"
  shows "idem_ok (snd (idem_claim now k h s))"
proof -
  let ?p = "idem_live now (mi_values s)"
  have p: "dict_wf ?p" "length ?p \<le> mi_max_entries s"
    using assms idem_live_length [of now "mi_values s"] by (auto simp: idem_ok_def)
  show ?thesis
  proof (cases "evict (\<lambda>v. snd (snd v)) ?p")
    case (Inl e)
    then show ?thesis using p
      by (auto simp: idem_claim_def Let_def idem_ok_def dict_length_set split: option.splits)
  next
    case (Inr d')
    then have "?p \<noteq> []" by (auto simp: evict_def min_key_def)
    then have "Suc (length ?p - 1) \<le> mi_max_entries s" using p by (cases ?p) auto
    then show ?thesis using Inr p evict_shrinks [OF Inr p(1)]
      by (auto simp: idem_claim_def Let_def idem_ok_def dict_length_set split: option.splits)
  qed
qed

lemma idem_finish_ok: "idem_ok s \<Longrightarrow> idem_ok (snd (idem_finish now k h st b s))"
  by (auto simp: idem_finish_def idem_ok_def dict_length_set split: option.splits dest: map_of_SomeD intro: rev_image_eqI)

lemma idem_abandon_ok: "idem_ok s \<Longrightarrow> idem_ok (snd (idem_abandon now k h s))"
  using dict_length_pop_le [of "idem_cache_key s k" "mi_values s"]
  by (auto simp: idem_abandon_def idem_ok_def split: option.splits)

lemma idem_fixed:
  "mi_ttl_seconds (snd (idem_claim now k h s)) = mi_ttl_seconds s"
  "mi_ttl_seconds (snd (idem_finish now k h st b s)) = mi_ttl_seconds s"
  "mi_ttl_seconds (snd (idem_abandon now k h s)) = mi_ttl_seconds s"
  by (auto simp: idem_claim_def idem_finish_def idem_abandon_def Let_def split: option.splits sum.splits)

lemma idem_claim_new:
  "idem_claim now k h s = (Inr ClaimNew, s') \<Longrightarrow> later < now + mi_ttl_seconds s \<Longrightarrow> idem_view later s' k = Some (h, None)"
  by (auto simp: idem_claim_def Let_def idem_view_def dict_simps split: option.splits if_splits sum.splits)

lemma idem_claim_free:
  "idem_ok s \<Longrightarrow> idem_view now s k = None \<Longrightarrow> idem_claim now k h s = (Inr c, s') \<Longrightarrow> c = ClaimNew"
  by (auto simp: idem_view_live idem_claim_def Let_def simp del: map_of_eq_Some_iff split: option.splits if_splits sum.splits)

lemma idem_claim_known:
  assumes "idem_ok s" "idem_view now s k = Some (h', r)"
  shows "idem_claim now k h s =
    (Inr (if h' \<noteq> h then ClaimConflict else case r of None \<Rightarrow> ClaimPending | Some (st, b) \<Rightarrow> ClaimCached st b),
     s\<lparr>mi_values := idem_live now (mi_values s)\<rparr>)"
  using assms by (auto simp: idem_view_live idem_claim_def Let_def simp del: map_of_eq_Some_iff split: option.splits)

lemma idem_live_view:
  "idem_ok s \<Longrightarrow> idem_view now (s\<lparr>mi_values := idem_live now (mi_values s)\<rparr>) k = idem_view now s k"
  by (subst idem_view_live) (auto simp: idem_ok_def idem_view_live idem_live_def intro: order_trans [OF length_filter_le])

interpretation mem_idem: idempotency_store idem_claim idem_finish idem_abandon "idem_ttl ttl" idem_view
    "\<lambda>now later. later < now + ttl" "\<lambda>b. b"
  for ttl
proof unfold_locales
  fix e e' :: real and k :: idem_key and h h' :: string and s s' :: "'a mem_idem"
  fix st and b :: 'a and c :: "'a claim_result" and r :: "(int \<times> 'a) option" and v and p :: "int \<times> 'a"
  show "idem_ttl ttl s \<Longrightarrow> idem_ttl ttl (snd (idem_claim e k h s))"
    by (simp add: idem_ttl_def idem_claim_ok idem_fixed)
  show "idem_ttl ttl s \<Longrightarrow> idem_ttl ttl (snd (idem_finish e k h st b s))"
    by (simp add: idem_ttl_def idem_finish_ok idem_fixed)
  show "idem_ttl ttl s \<Longrightarrow> idem_ttl ttl (snd (idem_abandon e k h s))"
    by (simp add: idem_ttl_def idem_abandon_ok idem_fixed)
  show "idem_ttl ttl s \<Longrightarrow> idem_claim e k h s = (Inr ClaimNew, s') \<Longrightarrow> e' < e + ttl \<Longrightarrow> idem_view e' s' k = Some (h, None)"
    using idem_claim_new [of e k h s s' e'] by (simp add: idem_ttl_def)
  show "idem_ttl ttl s \<Longrightarrow> idem_view e s k = None \<Longrightarrow> idem_claim e k h s = (Inr c, s') \<Longrightarrow> c = ClaimNew"
    using idem_claim_free [of s e k h c s'] by (simp add: idem_ttl_def)
  show "idem_ttl ttl s \<Longrightarrow> idem_view e s k = Some (h', r) \<Longrightarrow> idem_claim e k h s = (Inr c, s') \<Longrightarrow>
      c = (if h' \<noteq> h then ClaimConflict else case r of None \<Rightarrow> ClaimPending | Some (st, b) \<Rightarrow> ClaimCached st b)"
    using idem_claim_known [of s e k h' r h] by (simp add: idem_ttl_def)
  show "idem_ttl ttl s \<Longrightarrow> idem_view e s k = Some v \<Longrightarrow> idem_view e (snd (idem_claim e k h s)) k = Some v"
    using idem_claim_known [of s e k "fst v" "snd v" h] idem_live_view [of s e k] by (simp add: idem_ttl_def)
  show "idem_ttl ttl s \<Longrightarrow> idem_finish e k h st b s = (Inr (), s') \<Longrightarrow> idem_view e' s k = Some (h, r) \<Longrightarrow>
      idem_view e' s' k = Some (h, Some (st, b))"
    by (auto simp: idem_finish_def idem_view_def dict_simps simp del: map_of_eq_Some_iff split: option.splits if_splits)
  show "idem_ttl ttl s \<Longrightarrow> idem_abandon e k h s = (Inr (), s') \<Longrightarrow> idem_view e' s k = Some (h, None) \<Longrightarrow> idem_view e' s' k = None"
    by (auto simp: idem_abandon_def idem_view_def dict_simps simp del: map_of_eq_Some_iff split: option.splits if_splits)
  show "idem_ttl ttl s \<Longrightarrow> idem_abandon e k h s = (Inr (), s') \<Longrightarrow> idem_view e' s k = Some (h, Some p) \<Longrightarrow>
      idem_view e' s' k = Some (h, Some p)"
    by (auto simp: idem_abandon_def idem_view_def simp del: map_of_eq_Some_iff split: option.splits if_splits)
qed

section \<open>Choice of the stores\<close>

text \<open>
  The environment is a partial map, \<open>os.getenv(name, default)\<close> a lookup. The store built is
  described by a value: PostgreSQL with a DSN and a time to live, or memory.
\<close>

type_synonym environ = "string \<Rightarrow> string option"

definition getenv :: "environ \<Rightarrow> string \<Rightarrow> string \<Rightarrow> string" where
  "getenv env name d = (case env name of None \<Rightarrow> d | Some v \<Rightarrow> v)"

definition durable_state_required :: "environ \<Rightarrow> bool" where
  "durable_state_required env =
     (py_lower (getenv env ''ATLANTIS_REQUIRE_DURABLE_STATE''
        (if getenv env ''ATLANTIS_ENV'' ''development'' \<noteq> ''development'' then ''true'' else ''false'')) = ''true'')"

datatype store_choice = UsePostgres string int | UseMemory int

definition build_store :: "string \<Rightarrow> string \<Rightarrow> string \<Rightarrow> (environ \<Rightarrow> string res) \<Rightarrow> environ \<Rightarrow> store_choice res" where
  "build_store ttl_name ttl_default refusal postgres_dsn env =
     rbind (postgres_dsn env) (\<lambda>dsn.
     rbind (of_option (Exn ValueError ''invalid literal for int()'') (py_int (getenv env ttl_name ttl_default))) (\<lambda>ttl.
       if dsn \<noteq> [] then Inr (UsePostgres dsn ttl)
       else if durable_state_required env then raise RuntimeError refusal
       else Inr (UseMemory ttl)))"

definition build_nonce_store :: "(environ \<Rightarrow> string res) \<Rightarrow> environ \<Rightarrow> store_choice res" where
  "build_nonce_store = build_store ''ATLANTIS_WORKLOAD_NONCE_TTL_SECONDS'' ''120'' ''POSTGRES_NONCE_STORE_REQUIRED''"

definition build_idempotency_store :: "(environ \<Rightarrow> string res) \<Rightarrow> environ \<Rightarrow> store_choice res" where
  "build_idempotency_store = build_store ''ATLANTIS_IDEMPOTENCY_TTL_SECONDS'' ''86400'' ''POSTGRES_IDEMPOTENCY_STORE_REQUIRED''"

lemma build_store_durable:
  "durable_state_required env \<Longrightarrow> build_store n d m dsn env = Inr c \<Longrightarrow> \<exists>x ttl. c = UsePostgres x ttl \<and> x \<noteq> []"
  by (auto simp: build_store_def rbind_Inr_iff split: if_splits)

end
