(* ===== verification/JsonRoundtrip.thy ===== *)
theory JsonRoundtrip
  imports Json "HOL-Library.Multiset"
begin

text \<open>
  \<open>json_loads (canonical_json v)\<close> is \<open>v\<close> with the keys of its objects in order, for every
  well-formed value: distinct keys, floats written as \<open>repr\<close> writes finite ones. Hence the
  canonical text does not depend on the order of keys and determines the value.
\<close>

section \<open>Strings\<close>

lemma eq_code_iff: "c = d \<longleftrightarrow> code c = code d"
  by (metis char_of_code)

lemma hex_val_digit: "n < 16 \<Longrightarrow> hex_val (hex_digit n) = Some n"
proof -
  have "list_all (\<lambda>n. hex_val (hex_digit n) = Some n) [0..<16]" by code_simp
  then show "n < 16 \<Longrightarrow> ?thesis" by (simp add: list_all_iff)
qed

lemma scan_unicode:
  assumes "hex4 a b c d = Some u" "u < 55296"
  shows "scan_str (CHR 0x5C # CHR ''u'' # a # b # c # d # t) = prepend (utf8 u) (scan_str t)"
proof -
  have "\<not> 55296 \<le> u" using assms(2) by simp
  then show ?thesis
    using assms(1) by (subst scan_str.simps(2)) (simp split: list.split option.split)
qed

lemma scan_simple:
  assumes "simple_escape e = Some y"
  shows "scan_str (CHR 0x5C # e # t) = prepend [y] (scan_str t)"
proof -
  have "code e \<noteq> 117" using assms by (auto simp: simple_escape_def Let_def)
  then show ?thesis using assms by (subst scan_str.simps(2)) simp
qed

lemma scan_plain:
  assumes "code c \<noteq> 34" "code c \<noteq> 92" "\<not> code c < 32"
  shows "scan_str (c # t) = prepend [c] (scan_str t)"
  using assms by (subst scan_str.simps(2)) simp

lemma esc_named:
  assumes "code c \<in> {10, 13, 9, 12, 8}"
  shows "\<exists>e. esc_char c = [CHR 0x5C, e] \<and> simple_escape e = Some c"
proof -
  have "c \<in> {CHR 0x0A, CHR 0x0D, CHR 0x09, CHR 0x0C, CHR 0x08}"
    using assms by (auto simp: eq_code_iff)
  then show ?thesis by (auto simp: esc_char_def simple_escape_def Let_def)
qed

lemma scan_esc: "scan_str (esc_char c @ t) = prepend [c] (scan_str t)"
proof -
  consider "code c \<in> {34, 92}" | "code c \<in> {10, 13, 9, 12, 8}"
    | "code c < 32" "code c \<notin> {10, 13, 9, 12, 8}" | "\<not> code c < 32" "code c \<notin> {34, 92}"
    by blast
  then show ?thesis
  proof cases
    case 1
    then have "esc_char c = [CHR 0x5C, c]" "simple_escape c = Some c"
      by (auto simp: esc_char_def simple_escape_def Let_def)
    then show ?thesis by (simp add: scan_simple)
  next
    case 2
    then show ?thesis using esc_named [of c] by (auto simp: scan_simple)
  next
    case 3
    let ?h = "code c div 16" and ?l = "code c mod 16"
    have "hex4 (CHR ''0'') (CHR ''0'') (hex_digit ?h) (hex_digit ?l) = Some (code c)"
      using 3 by (simp add: hex4_def hex_val_digit, simp add: hex_val_def)
    moreover have "utf8 (code c) = [c]" using 3 by (simp add: utf8_def)
    moreover have "esc_char c = [CHR 0x5C, CHR ''u'', CHR ''0'', CHR ''0'', hex_digit ?h, hex_digit ?l]"
      using 3 by (simp add: esc_char_def Let_def)
    ultimately show ?thesis using 3 by (simp add: scan_unicode)
  next
    case 4
    then have "esc_char c = [c]" by (auto simp: esc_char_def Let_def)
    with 4 show ?thesis by (simp add: scan_plain)
  qed
qed

lemma scan_quoted: "scan_str (concat (map esc_char s) @ CHR 0x22 # rest) = Some (s, rest)"
proof (induction s)
  case Nil
  show ?case by (simp add: scan_str.simps(2))
next
  case (Cons c s)
  then show ?case by (simp add: scan_esc prepend_def)
qed

section \<open>Numbers\<close>

definition delimited :: "string \<Rightarrow> bool" where
  "delimited rest = (case rest of [] \<Rightarrow> True | c # _ \<Rightarrow> \<not> is_num_char c)"

lemma take_number:
  assumes "list_all is_num_char t" "delimited rest"
  shows "takeWhile is_num_char (t @ rest) = t" "dropWhile is_num_char (t @ rest) = rest"
  using assms by (induction t) (auto simp: delimited_def split: list.splits)

lemma digit_num_char [simp]: "is_digit c \<Longrightarrow> is_num_char c"
  by (simp add: is_num_char_def)

lemma digit_code_not_minus: "is_digit c \<Longrightarrow> code c \<noteq> 45"
  by (simp add: is_digit_def)

lemma nat_dec_ok: "int_part_ok (nat_dec n)"
proof -
  have "list_all is_digit (nat_dec n)" using nat_dec_digits by (auto simp: list_all_iff)
  moreover have "hd (nat_dec n) = CHR ''0'' \<Longrightarrow> length (nat_dec n) = 1"
    using nat_dec_hd [of n] by (cases "n = 0") auto
  ultimately show ?thesis by (simp add: int_part_ok_def)
qed

lemma strip_minus_dec: "strip_minus (nat_dec n) = nat_dec n"
proof (cases "nat_dec n")
  case (Cons c cs)
  then have "is_digit c" using nat_dec_digits [of c n] by simp
  then show ?thesis using Cons by (simp add: strip_minus_def digit_code_not_minus)
qed simp

lemma scan_int:
  assumes "delimited rest"
  shows "scan_number (int_dec i @ rest) = Some (JInt i, rest)"
proof -
  let ?d = "nat_dec (nat \<bar>i\<bar>)"
  have nc: "list_all is_num_char (int_dec i)"
    using nat_dec_digits by (auto simp: int_dec_def list_all_iff is_num_char_def)
  have "strip_minus (int_dec i) = ?d"
    using strip_minus_dec [of "nat i"] by (auto simp: int_dec_def strip_minus_def)
  moreover have "(?d = int_dec i) = (0 \<le> i)"
    using arg_cong [of "CHR ''-'' # ?d" "?d" length] by (auto simp: int_dec_def)
  ultimately show ?thesis
    using nat_dec_ok by (simp add: scan_number_def Let_def take_number [OF nc assms])
qed

lemma scan_float:
  assumes "list_all is_num_char s" "float_lexeme s" "delimited rest"
  shows "scan_number (s @ rest) = Some (JFloat s, rest)"
proof -
  have "\<not> int_part_ok (strip_minus s)"
  proof
    assume "int_part_ok (strip_minus s)"
    then have d: "dropWhile is_digit (strip_minus s) = []"
      by (simp add: int_part_ok_def list_all_iff)
    show False using assms(2) unfolding float_lexeme_def Let_def d by simp
  qed
  then show ?thesis using assms by (simp add: scan_number_def Let_def take_number)
qed

section \<open>Values\<close>

fun json_wf :: "json \<Rightarrow> bool" where
  "json_wf (JFloat s) = (list_all is_num_char s \<and> float_lexeme s)"
| "json_wf (JList vs) = list_all json_wf vs"
| "json_wf (JObj kvs) = (distinct (map fst kvs) \<and> list_all (\<lambda>(k, v). json_wf v) kvs)"
| "json_wf j = True"

lemma dict_of_distinct:
  assumes "distinct (map fst kvs)"
  shows "dict_of kvs = kvs"
proof -
  have "foldl (\<lambda>d (k, v). dict_set k v d) d kvs = d @ kvs"
    if "distinct (map fst (d @ kvs))" for d :: "('a \<times> 'b) list"
    using that
  proof (induction kvs arbitrary: d)
    case (Cons p kvs)
    obtain k v where p: "p = (k, v)" by fastforce
    have "k \<notin> fst ` set d" using Cons.prems p by auto
    then have "dict_set k v d = d @ [(k, v)]" by (induction d) auto
    with Cons p show ?case by simp
  qed simp
  from this [of "[]"] assms show ?thesis by (simp add: dict_of_def)
qed

lemma sort_key_map_snd:
  "sort_key fst (map (\<lambda>(k, v). (k, f v)) kvs) = map (\<lambda>(k, v). (k, f v)) (sort_key fst kvs)"
proof (induction kvs)
  case (Cons p kvs)
  have "insort_key fst (case p of (k, v) \<Rightarrow> (k, f v)) (map (\<lambda>(k, v). (k, f v)) xs) =
      map (\<lambda>(k, v). (k, f v)) (insort_key fst p xs)" for xs
    by (induction xs) (auto split: prod.splits)
  with Cons show ?case by simp
qed simp

text \<open>The first character of a printed value is neither white space nor a closing bracket.\<close>

definition value_start :: "char \<Rightarrow> bool" where
  "value_start c = (\<not> is_json_ws c \<and> code c \<noteq> 93 \<and> code c \<noteq> 125)"

lemma digit_value_start: "is_digit c \<Longrightarrow> value_start c"
  by (auto simp: value_start_def is_digit_def is_json_ws_def)

lemma nat_dec_start: "\<exists>c cs. nat_dec n = c # cs \<and> value_start c"
  using nat_dec_digits [of _ n] by (cases "nat_dec n") (auto simp: digit_value_start)

lemma canonical_start: "json_wf j \<Longrightarrow> \<exists>c cs. canonical_json j = c # cs \<and> value_start c"
proof (cases j)
  case (JInt i)
  then show ?thesis
    using nat_dec_start [of "nat i"] by (auto simp: int_dec_def value_start_def is_json_ws_def)
next
  case (JFloat s)
  assume "json_wf j"
  with JFloat have "int_part_ok (takeWhile is_digit (strip_minus s))"
    by (simp add: float_lexeme_def Let_def)
  then have "\<exists>c cs. strip_minus s = c # cs \<and> is_digit c"
    by (cases "strip_minus s") (auto simp: int_part_ok_def split: if_splits)
  then have "\<exists>c cs. s = c # cs \<and> (is_digit c \<or> code c = 45)"
    by (cases s) (auto simp: strip_minus_def split: if_splits)
  then show ?thesis using JFloat digit_value_start by (auto simp: value_start_def is_json_ws_def)
qed (auto simp: value_start_def is_json_ws_def json_quote_def)

lemma skip_ws_start: "value_start c \<Longrightarrow> skip_ws (c # cs) = c # cs"
  by (simp add: skip_ws_def value_start_def)

lemma skip_ws_keep [simp]: "\<not> is_json_ws c \<Longrightarrow> skip_ws (c # cs) = c # cs"
  by (simp add: skip_ws_def)

lemma delim_chars [simp]:
  "\<not> is_json_ws (CHR '','')" "\<not> is_json_ws (CHR '']'')" "\<not> is_json_ws (CHR ''}'')"
  "\<not> is_json_ws (CHR '':'')" "\<not> is_json_ws (CHR 0x22)"
  "delimited (CHR '','' # t)" "delimited (CHR '']'' # t)" "delimited (CHR ''}'' # t)" "delimited []"
  by (simp_all add: is_json_ws_def delimited_def is_num_char_def is_digit_def)

section \<open>The round trip\<close>

definition parses :: "json \<Rightarrow> bool" where
  "parses j = (\<forall>n rest. 2 * length (canonical_json j) \<le> n \<longrightarrow> delimited rest \<longrightarrow>
     parse_value (Suc n) (canonical_json j @ rest) = Some (json_canon j, rest))"

lemma parsesD:
  "parses j \<Longrightarrow> 2 * length (canonical_json j) + 1 \<le> n \<Longrightarrow> delimited rest \<Longrightarrow>
     parse_value n (canonical_json j @ rest) = Some (json_canon j, rest)"
  by (cases n) (auto simp: parses_def)

lemma py_join_Cons: "py_join sep (w # ws) = w @ (if ws = [] then [] else sep @ py_join sep ws)"
  by (cases ws) auto

lemma parse_elems_printed:
  assumes "vs \<noteq> []" "\<forall>v \<in> set vs. parses v \<and> json_wf v"
    and "2 * length (py_join '','' (map canonical_json vs)) + 2 \<le> n"
  shows "parse_elems (Suc n) (py_join '','' (map canonical_json vs) @ CHR '']'' # rest)
    = Some (map json_canon vs, rest)"
  using assms
proof (induction vs arbitrary: n)
  case (Cons v vs)
  show ?case
  proof (cases "vs = []")
    case True
    with Cons.prems have "parse_value n (canonical_json v @ CHR '']'' # rest) = Some (json_canon v, CHR '']'' # rest)"
      by (intro parsesD) auto
    with True show ?thesis by simp
  next
    case False
    let ?t = "py_join '','' (map canonical_json vs)"
    obtain v' vs' where vs: "vs = v' # vs'" using False by (cases vs) auto
    then obtain c cs where c: "canonical_json v' = c # cs" "value_start c"
      using canonical_start Cons.prems(2) by fastforce
    then have ws: "skip_ws (?t @ CHR '']'' # rest) = ?t @ CHR '']'' # rest"
      using vs by (simp add: py_join_Cons skip_ws_start)
    have t: "py_join '','' (map canonical_json (v # vs)) = canonical_json v @ CHR '','' # ?t"
      using False by (simp add: py_join_Cons)
    have len: "2 * length (canonical_json v) + 2 * length ?t + 4 \<le> n"
      using Cons.prems(3) t by simp
    have p: "parse_value n (canonical_json v @ CHR '','' # (?t @ CHR '']'' # rest))
        = Some (json_canon v, CHR '','' # (?t @ CHR '']'' # rest))"
      using Cons.prems(2) len by (intro parsesD) auto
    obtain m where m: "n = Suc m" using len by (cases n) auto
    have "parse_elems n (?t @ CHR '']'' # rest) = Some (map json_canon vs, rest)"
      unfolding m using Cons.prems(2) len m False by (intro Cons.IH) auto
    then show ?thesis using p ws t by simp
  qed
qed simp

lemma parse_members_printed:
  assumes "kvs \<noteq> []" "\<forall>(k, v) \<in> set kvs. parses v \<and> json_wf v"
    and "2 * length (py_join '','' (map (\<lambda>(k, v). json_quote k @ '':'' @ canonical_json v) kvs)) + 2 \<le> n"
  shows "parse_members (Suc n)
      (py_join '','' (map (\<lambda>(k, v). json_quote k @ '':'' @ canonical_json v) kvs) @ CHR ''}'' # rest)
    = Some (map (\<lambda>(k, v). (k, json_canon v)) kvs, rest)"
  using assms
proof (induction kvs arbitrary: n)
  case (Cons kv kvs)
  obtain k v where kv: "kv = (k, v)" by fastforce
  let ?f = "\<lambda>(k, v). json_quote k @ '':'' @ canonical_json v"
  obtain c cs where c: "canonical_json v = c # cs" "value_start c"
    using canonical_start Cons.prems(2) kv by fastforce
  have wsv: "skip_ws (canonical_json v @ t) = canonical_json v @ t" for t
    using c by (simp add: skip_ws_start)
  have q: "json_quote k @ t = CHR 0x22 # (concat (map esc_char k) @ CHR 0x22 # t)" for t
    by (simp add: json_quote_def)
  show ?case
  proof (cases "kvs = []")
    case True
    have "parse_value n (canonical_json v @ CHR ''}'' # rest) = Some (json_canon v, CHR ''}'' # rest)"
      using Cons.prems kv True by (intro parsesD) auto
    with True kv show ?thesis by (simp add: q scan_quoted wsv)
  next
    case False
    let ?t = "py_join '','' (map ?f kvs)"
    have t: "py_join '','' (map ?f (kv # kvs)) = json_quote k @ '':'' @ canonical_json v @ CHR '','' # ?t"
      using False kv by (simp add: py_join_Cons)
    have len: "2 * length (canonical_json v) + 2 * length ?t + 4 \<le> n"
      using Cons.prems(3) unfolding t by simp
    have p: "parse_value n (canonical_json v @ CHR '','' # (?t @ CHR ''}'' # rest))
        = Some (json_canon v, CHR '','' # (?t @ CHR ''}'' # rest))"
      using Cons.prems(2) kv len by (intro parsesD) auto
    obtain m where m: "n = Suc m" using len by (cases n) auto
    have r: "parse_members n (?t @ CHR ''}'' # rest) = Some (map (\<lambda>(k, v). (k, json_canon v)) kvs, rest)"
      unfolding m using Cons.prems(2) len m False by (intro Cons.IH) auto
    obtain k' v' kvs' where "kvs = (k', v') # kvs'" using False by (cases kvs) auto
    then have ws: "skip_ws (?t @ CHR ''}'' # rest) = ?t @ CHR ''}'' # rest"
      by (simp add: py_join_Cons json_quote_def)
    show ?thesis unfolding t using p r ws kv by (simp add: q scan_quoted wsv)
  qed
qed simp

lemma canonical_not_literal:
  assumes "is_num_char c"
  shows "code c \<noteq> 34" "code c \<noteq> 123" "code c \<noteq> 91" "c \<noteq> CHR ''n''" "c \<noteq> CHR ''t''" "c \<noteq> CHR ''f''"
    "c \<noteq> CHR ''N''" "c \<noteq> CHR ''I''"
  using assms by (auto simp: is_num_char_def is_digit_def)

lemma parse_number:
  assumes "t = c # t'" "is_num_char c" "\<not> starts_with (t @ rest) ''-Infinity''"
  shows "parse_value (Suc n) (t @ rest) = scan_number (t @ rest)"
  using assms canonical_not_literal [OF assms(2)] by auto

lemma minus_I_chars: "is_num_char (CHR ''-'')" "\<not> is_num_char (CHR ''I'')"
  by (simp_all add: is_num_char_def is_digit_def)

lemma not_minus_infinity:
  assumes "list_all is_num_char t" "delimited rest" "t \<noteq> ''-''"
  shows "\<not> starts_with (t @ rest) ''-Infinity''"
proof
  assume "starts_with (t @ rest) ''-Infinity''"
  then have "t @ rest = ''-Infinity'' @ drop 9 (t @ rest)"
    using starts_with_split by fastforce
  then have "takeWhile is_num_char (t @ rest) = ''-''"
    by (metis append_Cons append_Nil takeWhile.simps(2) minus_I_chars)
  then show False using take_number(1) [OF assms(1,2)] assms(3) by simp
qed

lemma parses_value: "json_wf j \<Longrightarrow> parses j"
proof (induction j)
  case (JInt i)
  have nc: "list_all is_num_char (int_dec i)"
    using nat_dec_digits by (auto simp: int_dec_def list_all_iff is_num_char_def)
  have ne: "int_dec i \<noteq> ''-''" using nat_dec_digits [of "CHR ''-''" "nat i"] by (auto simp: int_dec_def is_digit_def)
  obtain c cs where c: "int_dec i = c # cs" using nat_dec_nonempty by (cases "int_dec i") (auto simp: int_dec_def split: if_splits)
  have "is_num_char c" using nc c by simp
  then have "parse_value (Suc n) (int_dec i @ rest) = scan_number (int_dec i @ rest)" if "delimited rest" for n rest
    using that by (intro parse_number [OF c] not_minus_infinity [OF nc _ ne])
  then show ?case using nc by (auto simp: parses_def scan_int simp del: parse_value.simps)
next
  case (JFloat s)
  then have nc: "list_all is_num_char s" and f: "float_lexeme s" by simp_all
  have ne: "s \<noteq> ''-''" using f by (auto simp: float_lexeme_def strip_minus_def int_part_ok_def)
  obtain c cs where c: "s = c # cs" using f by (cases s) (auto simp: float_lexeme_def strip_minus_def int_part_ok_def)
  have "is_num_char c" using nc c by simp
  then have "parse_value (Suc n) (s @ rest) = scan_number (s @ rest)" if "delimited rest" for n rest
    using that by (intro parse_number [OF c] not_minus_infinity [OF nc _ ne])
  then show ?case using nc f by (auto simp: parses_def scan_float simp del: parse_value.simps)
next
  case (JStr s)
  show ?case by (simp add: parses_def json_quote_def scan_quoted)
next
  case (JList vs)
  show ?case
  proof (cases "vs = []")
    case False
    have "parse_value (Suc n) (canonical_json (JList vs) @ rest) = Some (json_canon (JList vs), rest)"
      if n: "2 * length (canonical_json (JList vs)) \<le> n" for n rest
    proof -
      let ?t = "py_join '','' (map canonical_json vs)"
      obtain m where m: "n = Suc m" using n by (cases n) auto
      have "parse_elems n (?t @ CHR '']'' # rest) = Some (map json_canon vs, rest)"
        unfolding m using JList n m False by (intro parse_elems_printed) (auto simp: list_all_iff)
      moreover obtain v vs' where vs: "vs = v # vs'" using False by (cases vs) auto
      then obtain c cs where "canonical_json v = c # cs" "value_start c"
        using canonical_start [of v] JList.prems by auto
      then have "\<exists>c cs. ?t = c # cs \<and> value_start c" using vs by (simp add: py_join_Cons)
      ultimately show ?thesis by (auto simp: skip_ws_start) (simp add: value_start_def)
    qed
    then show ?thesis by (simp add: parses_def)
  qed (simp add: parses_def)
next
  case (JObj kvs)
  let ?g = "\<lambda>(k, v). json_quote k @ '':'' @ canonical_json v"
  let ?s = "sort_key fst kvs"
  have canon: "canonical_json (JObj kvs) = ''{'' @ py_join '','' (map ?g ?s) @ ''}''"
    unfolding canonical_json.simps sort_key_map_snd by (simp add: comp_def case_prod_unfold)
  have canon': "json_canon (JObj kvs) = JObj (map (\<lambda>(k, v). (k, json_canon v)) ?s)"
    by (simp add: sort_key_map_snd)
  show ?case
  proof (cases "kvs = []")
    case False
    have "parse_value (Suc n) (canonical_json (JObj kvs) @ rest) = Some (json_canon (JObj kvs), rest)"
      if n: "2 * length (canonical_json (JObj kvs)) \<le> n" for n rest
    proof -
      let ?t = "py_join '','' (map ?g ?s)"
      obtain m where m: "n = Suc m" using n canon by (cases n) auto
      have ne: "?s \<noteq> []" using False by (metis length_sort length_0_conv)
      have all: "\<forall>(k, v) \<in> set ?s. parses v \<and> json_wf v"
        using JObj by (fastforce simp: list_all_iff)
      have "parse_members n (?t @ CHR ''}'' # rest) = Some (map (\<lambda>(k, v). (k, json_canon v)) ?s, rest)"
        unfolding m using n m ne all canon by (intro parse_members_printed) auto
      moreover obtain k v s' where "?s = (k, v) # s'" using ne by (cases ?s) auto
      then have "\<exists>cs. ?t = CHR 0x22 # cs" by (simp add: py_join_Cons json_quote_def)
      moreover have "distinct (map fst ?s)" using JObj.prems by (simp add: distinct_map)
      then have "dict_of (map (\<lambda>(k, v). (k, json_canon v)) ?s) = map (\<lambda>(k, v). (k, json_canon v)) ?s"
        by (intro dict_of_distinct) (simp add: comp_def case_prod_unfold)
      ultimately show ?thesis unfolding canon canon' by auto
    qed
    then show ?thesis by (simp add: parses_def)
  qed (simp add: parses_def)
qed (simp_all add: parses_def starts_with_def)

theorem loads_canonical:
  assumes "json_wf j"
  shows "json_loads (canonical_json j) = Some (json_canon j)"
proof -
  obtain c cs where "canonical_json j = c # cs" "value_start c" using canonical_start [OF assms] by blast
  then have "skip_ws (canonical_json j) = canonical_json j" by (simp add: skip_ws_start)
  moreover have "parse_value (2 * length (canonical_json j) + 2) (canonical_json j @ []) = Some (json_canon j, [])"
    using parses_value [OF assms] by (intro parsesD) auto
  ultimately show ?thesis by (simp add: json_loads_def skip_ws_def)
qed

corollary canonical_determines:
  assumes "json_wf a" "json_wf b" "canonical_json a = canonical_json b"
  shows "json_canon a = json_canon b"
  using loads_canonical [OF assms(1)] loads_canonical [OF assms(2)] assms(3) by simp

lemma sort_key_perm:
  fixes xs ys :: "(string \<times> json) list"
  assumes "mset xs = mset ys" "distinct (map fst xs)"
  shows "sort_key fst xs = sort_key fst ys"
proof (rule sort_key_inj_key_eq)
  show "mset xs = mset (sort_key fst ys)" using assms(1) by simp
  show "inj_on fst (set xs)" using assms(2) by (simp add: distinct_map)
  show "sorted (map fst (sort_key fst ys))" by simp
qed

lemma canonical_key_order:
  assumes "mset xs = mset ys" "distinct (map fst xs)"
  shows "canonical_json (JObj xs) = canonical_json (JObj ys)"
  using sort_key_perm [OF assms] by (simp add: sort_key_map_snd)

lemma map_of_canon:
  fixes kvs :: "(string \<times> json) list"
  assumes "distinct (map fst kvs)"
  shows "map_of (sort_key fst (map (\<lambda>(k, v). (k, json_canon v)) kvs)) k = map_option json_canon (map_of kvs k)"
proof -
  have "map_of (sort_key fst xs) = map_of xs" if "distinct (map fst xs)" for xs :: "(string \<times> json) list"
    using that by (intro map_of_eqI) (auto simp: distinct_map map_of_eq_Some_iff)
  from this [of "map (\<lambda>(k, v). (k, json_canon v)) kvs"] show ?thesis
    using assms by (simp add: comp_def case_prod_unfold map_of_map [unfolded case_prod_unfold])
qed

end
