(* ===== verification/Base64.thy ===== *)
theory Base64
  imports PyText
begin

text \<open>
  \<open>base64.urlsafe_b64encode\<close> and the (lenient) \<open>base64.urlsafe_b64decode\<close> of the Python
  standard library, with the unpadded wrappers \<open>_b64\<close> and \<open>_unb64\<close> of token.py, and
  their round trip. As \<open>binascii.a2b_base64\<close> does, the decoder skips characters outside
  the alphabet, stops at a complete padding and fails on an incomplete last quad.
\<close>

definition b64_char :: "nat \<Rightarrow> char" where
  "b64_char n =
     (if n < 26 then char_of (65 + n) else if n < 52 then char_of (97 + (n - 26))
      else if n < 62 then char_of (48 + (n - 52)) else if n = 62 then CHR ''-'' else CHR ''_'')"

definition b64_val :: "char \<Rightarrow> nat option" where
  "b64_val c =
     (let n = code c in
      if 65 \<le> n \<and> n \<le> 90 then Some (n - 65) else if 97 \<le> n \<and> n \<le> 122 then Some (n - 97 + 26)
      else if 48 \<le> n \<and> n \<le> 57 then Some (n - 48 + 52)
      else if n = 45 \<or> n = 43 then Some 62
      else if n = 95 \<or> n = 47 then Some 63 else None)"

lemma code_b64_char:
  "n < 64 \<Longrightarrow> code (b64_char n) =
     (if n < 26 then 65 + n else if n < 52 then 71 + n else if n < 62 then n - 4 else if n = 62 then 45 else 95)"
  by (simp add: b64_char_def)

lemma b64_val_char: "n < 64 \<Longrightarrow> b64_val (b64_char n) = Some n"
  by (auto simp: b64_val_def Let_def code_b64_char split: if_splits)

lemma b64_char_alphabet:
  assumes "n < 64"
  shows "code (b64_char n) < 128" "b64_char n \<noteq> CHR ''=''" "b64_char n \<noteq> CHR ''.''"
proof -
  show "code (b64_char n) < 128" using assms by (auto simp: code_b64_char)
  have "code (b64_char n) \<noteq> code (CHR ''='')" "code (b64_char n) \<noteq> code (CHR ''.'')"
    using assms by (auto simp: code_b64_char)
  then show "b64_char n \<noteq> CHR ''=''" "b64_char n \<noteq> CHR ''.''" by metis+
qed

text \<open>The encoding without its padding, three bytes at a time.\<close>

fun b64_encode :: "string \<Rightarrow> string" where
  "b64_encode [] = []"
| "b64_encode [x] = [b64_char (code x div 4), b64_char (code x mod 4 * 16)]"
| "b64_encode [x, y] =
     [b64_char (code x div 4), b64_char (code x mod 4 * 16 + code y div 16), b64_char (code y mod 16 * 4)]"
| "b64_encode (x # y # z # rest) =
     b64_char (code x div 4) # b64_char (code x mod 4 * 16 + code y div 16) #
     b64_char (code y mod 16 * 4 + code z div 64) # b64_char (code z mod 64) # b64_encode rest"

text \<open>
  The decoder's loop: \<open>q\<close> is the position in the quad, \<open>l\<close> the bits left over from the last
  character, \<open>p\<close> the padding characters seen since the last data character.
\<close>

fun b64_loop :: "nat \<Rightarrow> nat \<Rightarrow> nat \<Rightarrow> string \<Rightarrow> string option" where
  "b64_loop q l p [] = (if q = 0 then Some [] else None)"
| "b64_loop q l p (c # cs) =
     (if c = CHR ''='' then
        (if 2 \<le> q \<and> 4 \<le> q + (p + 1) then Some []
         else b64_loop q l (if 2 \<le> q then p + 1 else p) cs)
      else (case b64_val c of
          None \<Rightarrow> b64_loop q l p cs
        | Some v \<Rightarrow>
            (if q = 0 then b64_loop 1 v 0 cs
             else if q = 1 then map_option ((#) (char_of (l * 4 + v div 16))) (b64_loop 2 (v mod 16) 0 cs)
             else if q = 2 then map_option ((#) (char_of (l * 16 + v div 4))) (b64_loop 3 (v mod 4) 0 cs)
             else map_option ((#) (char_of (l * 64 + v))) (b64_loop 0 0 0 cs))))"

text \<open>\<open>_b64\<close> strips the padding; \<open>_unb64\<close> adds \<open>-len(data) % 4\<close> characters of it.\<close>

definition tok_b64 :: "string \<Rightarrow> string" where
  "tok_b64 data = b64_encode data"

definition tok_unb64 :: "string \<Rightarrow> string option" where
  "tok_unb64 data =
     (if \<forall>c \<in> set data. code c < 128
      then b64_loop 0 0 0 (data @ replicate ((4 - length data mod 4) mod 4) (CHR ''=''))
      else None)"

lemma b64_loop_step:
  assumes "n < 64"
  shows "b64_loop q l p (b64_char n # cs) =
    (if q = 0 then b64_loop 1 n 0 cs
     else if q = 1 then map_option ((#) (char_of (l * 4 + n div 16))) (b64_loop 2 (n mod 16) 0 cs)
     else if q = 2 then map_option ((#) (char_of (l * 16 + n div 4))) (b64_loop 3 (n mod 4) 0 cs)
     else map_option ((#) (char_of (l * 64 + n))) (b64_loop 0 0 0 cs))"
  using assms by (simp add: b64_loop.simps(2) b64_val_char b64_char_alphabet)

declare b64_loop.simps(2) [simp del]

lemma b64_loop_pad:
  "b64_loop q l p (CHR ''='' # cs) =
    (if 2 \<le> q \<and> 4 \<le> q + (p + 1) then Some [] else b64_loop q l (if 2 \<le> q then p + 1 else p) cs)"
  by (simp add: b64_loop.simps(2))

lemmas b64_steps = b64_loop_step b64_loop_pad

text \<open>The three bytes of a quad, recovered from its sextets.\<close>

lemma quad_bytes:
  fixes x y z :: char
  shows "char_of (code x div 4 * 4 + (code x mod 4 * 16 + code y div 16) div 16) = x"
    and "char_of ((code x mod 4 * 16 + code y div 16) mod 16 * 16 + (code y mod 16 * 4 + code z div 64) div 4) = y"
    and "char_of ((code y mod 16 * 4 + code z div 64) mod 4 * 64 + code z mod 64) = z"
proof -
  have y: "code y div 16 < 16" and z: "code z div 64 < 4"
    using nat_of_char_less_256 [of y] nat_of_char_less_256 [of z] by linarith+
  have "(code x mod 4 * 16 + code y div 16) div 16 = code x mod 4" using y by simp
  then show "char_of (code x div 4 * 4 + (code x mod 4 * 16 + code y div 16) div 16) = x"
    by (metis div_mult_mod_eq char_of_code)
  have "(code x mod 4 * 16 + code y div 16) mod 16 = code y div 16" using y by simp
  moreover have "(code y mod 16 * 4 + code z div 64) div 4 = code y mod 16" using z by simp
  ultimately show "char_of ((code x mod 4 * 16 + code y div 16) mod 16 * 16
      + (code y mod 16 * 4 + code z div 64) div 4) = y"
    by (metis div_mult_mod_eq char_of_code)
  have "(code y mod 16 * 4 + code z div 64) mod 4 = code z div 64" using z by simp
  then show "char_of ((code y mod 16 * 4 + code z div 64) mod 4 * 64 + code z mod 64) = z"
    by (metis div_mult_mod_eq char_of_code)
qed

lemma quad_bytes_short:
  fixes x y :: char
  shows "char_of (code x div 4 * 4 + code x mod 4 * 16 div 16) = x"
    and "char_of ((code x mod 4 * 16 + code y div 16) mod 16 * 16 + code y mod 16 * 4 div 4) = y"
  using quad_bytes(1) [of x "CHR 0x00"] quad_bytes(2) [of x y "CHR 0x00"] by simp_all

lemma sextets:
  fixes x y z :: char
  shows "code x div 4 < 64" "code x mod 4 * 16 + code y div 16 < 64"
    "code y mod 16 * 4 + code z div 64 < 64" "code z mod 64 < 64"
    "code x mod 4 * 16 < 64" "code y mod 16 * 4 < 64"
proof -
  have "code x < 256" "code y < 256" "code z < 256" by simp_all
  then show "code x div 4 < 64" "code x mod 4 * 16 + code y div 16 < 64"
    "code y mod 16 * 4 + code z div 64 < 64" "code z mod 64 < 64"
    "code x mod 4 * 16 < 64" "code y mod 16 * 4 < 64"
    by (linarith, linarith, linarith, simp, linarith, linarith)
qed

lemma b64_loop_encode:
  "b64_loop 0 0 p (b64_encode s @ replicate ((4 - length (b64_encode s) mod 4) mod 4) (CHR ''='')) = Some s"
proof (induction s arbitrary: p rule: b64_encode.induct)
  case (2 x)
  show ?case using sextets quad_bytes_short
    by (simp add: b64_steps numeral_2_eq_2 del: char_of_eq_iff)
next
  case (3 x y)
  show ?case using sextets quad_bytes quad_bytes_short by (simp add: b64_steps del: char_of_eq_iff)
next
  case (4 x y z rest)
  show ?case using sextets quad_bytes 4 by (simp add: b64_steps del: char_of_eq_iff)
qed simp

lemma b64_encode_alphabet: "c \<in> set (b64_encode s) \<Longrightarrow> code c < 128 \<and> c \<noteq> CHR ''.''"
proof -
  note ok = b64_char_alphabet
  show "c \<in> set (b64_encode s) \<Longrightarrow> ?thesis"
  proof (induction s rule: b64_encode.induct)
    case (2 x)
    then show ?case using ok sextets by auto
  next
    case (3 x y)
    then show ?case using ok sextets by auto
  next
    case (4 x y z rest)
    then show ?case using ok sextets by auto
  qed simp
qed

lemma tok_unb64_b64: "tok_unb64 (tok_b64 s) = Some s"
  using b64_encode_alphabet b64_loop_encode by (auto simp: tok_unb64_def tok_b64_def)

lemma tok_b64_no_dot: "CHR ''.'' \<notin> set (tok_b64 s)"
  using b64_encode_alphabet by (fastforce simp: tok_b64_def)

end
