(* ===== verification/Token.thy ===== *)
theory Token
  imports Contracts JsonRoundtrip Base64
begin

text \<open>
  shared/atlantis_contracts/token.py: the claims of a just-in-time authorization, their
  signed encoding, and the verifier that consumes the token identifier. The consumer the
  verifier calls is an interface, the locale \<open>single_use\<close>: the in-memory ledger, the shadow
  consumer and the PostgreSQL ledger interpret it.
\<close>

record claims =
  cl_jti :: string
  cl_iss :: string
  cl_aud :: string
  cl_tenant_id :: string
  cl_contact_id :: string
  cl_campaign_version_id :: string
  cl_decision_id :: string
  cl_channel :: string
  cl_purpose :: string
  cl_content_hash :: string
  cl_iat :: int
  cl_exp :: int

text \<open>\<open>claims.__dict__\<close>.\<close>

definition claims_dict :: "claims \<Rightarrow> (string \<times> json) list" where
  "claims_dict c =
     [(''jti'', JStr (cl_jti c)), (''iss'', JStr (cl_iss c)), (''aud'', JStr (cl_aud c)),
      (''tenant_id'', JStr (cl_tenant_id c)), (''contact_id'', JStr (cl_contact_id c)),
      (''campaign_version_id'', JStr (cl_campaign_version_id c)), (''decision_id'', JStr (cl_decision_id c)),
      (''channel'', JStr (cl_channel c)), (''purpose'', JStr (cl_purpose c)),
      (''content_hash'', JStr (cl_content_hash c)), (''iat'', JInt (cl_iat c)), (''exp'', JInt (cl_exp c))]"

definition claim_fields :: "string list" where
  "claim_fields = [''jti'', ''iss'', ''aud'', ''tenant_id'', ''contact_id'', ''campaign_version_id'',
     ''decision_id'', ''channel'', ''purpose'', ''content_hash'', ''iat'', ''exp'']"

fun json_str :: "json \<Rightarrow> string option" where
  "json_str (JStr s) = Some s"
| "json_str _ = None"

fun json_int :: "json \<Rightarrow> int option" where
  "json_int (JInt i) = Some i"
| "json_int _ = None"

text \<open>
  \<open>AuthorizationClaims(**raw)\<close>: exactly the fields of the class, at their annotated types;
  \<open>None\<close> is the exception.
\<close>

definition claims_of :: "json \<Rightarrow> claims option" where
  "claims_of raw =
     (case raw of
        JObj kvs \<Rightarrow>
          (if set (map fst kvs) \<noteq> set claim_fields then None
           else
             (let s = (\<lambda>k. Option.bind (map_of kvs k) json_str); i = (\<lambda>k. Option.bind (map_of kvs k) json_int) in
              case (s ''jti'', s ''iss'', s ''aud'', s ''tenant_id'', s ''contact_id'', s ''campaign_version_id'') of
                (Some jti, Some iss, Some aud, Some tid, Some cid, Some vid) \<Rightarrow>
                  (case (s ''decision_id'', s ''channel'', s ''purpose'', s ''content_hash'', i ''iat'', i ''exp'') of
                     (Some did, Some chan, Some pur, Some ch, Some iat, Some ex) \<Rightarrow>
                       Some \<lparr>cl_jti = jti, cl_iss = iss, cl_aud = aud, cl_tenant_id = tid, cl_contact_id = cid,
                         cl_campaign_version_id = vid, cl_decision_id = did, cl_channel = chan, cl_purpose = pur,
                         cl_content_hash = ch, cl_iat = iat, cl_exp = ex\<rparr>
                   | _ \<Rightarrow> None)
              | _ \<Rightarrow> None))
      | _ \<Rightarrow> None)"

definition token_payload :: "claims \<Rightarrow> bytes" where
  "token_payload c = canonical_json (JObj (claims_dict c))"

definition sign_claims :: "bytes \<Rightarrow> claims \<Rightarrow> string" where
  "sign_claims secret c = tok_b64 (token_payload c) @ ''.'' @ tok_b64 (hmac_sha256 secret (token_payload c))"

text \<open>\<open>TokenVerifier.__init__\<close>.\<close>

definition token_verifier_init :: "bytes \<Rightarrow> unit res" where
  "token_verifier_init secret =
     (if length secret < 32 then raise ValueError ''JIT secret must contain at least 32 bytes'' else Inr ())"

text \<open>The \<open>try\<close> block of \<open>verify_and_consume\<close>: every exception but a TokenError is MALFORMED_TOKEN.\<close>

definition decode_token :: "bytes \<Rightarrow> string \<Rightarrow> claims res" where
  "decode_token secret token =
     (case split_once (CHR ''.'') token of
        None \<Rightarrow> raise TokenError ''MALFORMED_TOKEN''
      | Some (payload_part, signature_part) \<Rightarrow>
        (case (tok_unb64 payload_part, tok_unb64 signature_part) of
           (Some payload_bytes, Some supplied) \<Rightarrow>
             (if supplied \<noteq> hmac_sha256 secret payload_bytes then raise TokenError ''INVALID_SIGNATURE''
              else of_option (Exn TokenError ''MALFORMED_TOKEN'')
                (Option.bind (json_loads payload_bytes) claims_of))
         | _ \<Rightarrow> raise TokenError ''MALFORMED_TOKEN''))"

text \<open>\<open>getattr(claims, key, None)\<close>.\<close>

definition claim_attr :: "claims \<Rightarrow> string \<Rightarrow> json" where
  "claim_attr c key = (case map_of (claims_dict c) key of None \<Rightarrow> JNull | Some v \<Rightarrow> v)"

fun expected_mismatch :: "claims \<Rightarrow> (string \<times> json) list \<Rightarrow> string option" where
  "expected_mismatch c [] = None"
| "expected_mismatch c ((key, v) # rest) =
     (if claim_attr c key \<noteq> v then Some key else expected_mismatch c rest)"

definition check_claims :: "string \<Rightarrow> string \<Rightarrow> (string \<times> json) list \<Rightarrow> int \<Rightarrow> claims \<Rightarrow> unit res" where
  "check_claims issuer audience expected clock c =
     (if cl_iss c \<noteq> issuer then raise TokenError ''INVALID_ISSUER''
      else if cl_aud c \<noteq> audience then raise TokenError ''INVALID_AUDIENCE''
      else if cl_exp c \<le> clock \<or> clock + 30 < cl_iat c \<or> 300 < cl_exp c - cl_iat c
        then raise TokenError ''TOKEN_EXPIRED_OR_INVALID_TTL''
      else case expected_mismatch c expected of
             Some key \<Rightarrow> raise TokenError (''CLAIM_MISMATCH:'' @ key)
           | None \<Rightarrow> Inr ())"

definition verify_and_consume ::
  "(claims \<Rightarrow> 's \<Rightarrow> bool res \<times> 's) \<Rightarrow> bytes \<Rightarrow> string \<Rightarrow> string \<Rightarrow> string \<Rightarrow> (string \<times> json) list \<Rightarrow> int
    \<Rightarrow> 's \<Rightarrow> claims res \<times> 's" where
  "verify_and_consume consume secret issuer token audience expected clock st =
     (case decode_token secret token of
        Inl e \<Rightarrow> (Inl e, st)
      | Inr c \<Rightarrow>
        (case check_claims issuer audience expected clock c of
           Inl e \<Rightarrow> (Inl e, st)
         | Inr _ \<Rightarrow>
           (case consume c st of
              (Inl e, st') \<Rightarrow> (Inl e, st')
            | (Inr True, st') \<Rightarrow> (Inr c, st')
            | (Inr False, st') \<Rightarrow> (raise TokenError ''TOKEN_REPLAY'', st'))))"

section \<open>Decoding a signed token\<close>

lemma distinct_claims: "distinct (map fst (claims_dict c))"
  by (simp add: claims_dict_def)

lemma claims_wf: "json_wf (JObj (claims_dict c))"
  by (simp add: claims_dict_def)

lemma claims_of_canon: "claims_of (json_canon (JObj (claims_dict c))) = Some c"
proof -
  have "set (map fst (sort_key fst (map (\<lambda>(k, v). (k, json_canon v)) (claims_dict c)))) = set claim_fields"
    by (auto simp: claims_dict_def claim_fields_def)
  then show ?thesis
    by (simp add: claims_of_def Let_def map_of_canon [OF distinct_claims]) (simp add: claims_dict_def)
qed

lemma decode_signed: "decode_token secret (sign_claims secret c) = Inr c"
proof -
  have "split_once (CHR ''.'') (sign_claims secret c) =
      Some (tok_b64 (token_payload c), tok_b64 (hmac_sha256 secret (token_payload c)))"
    by (simp add: sign_claims_def split_once_append tok_b64_no_dot)
  then show ?thesis
    by (simp add: decode_token_def tok_unb64_b64 token_payload_def loads_canonical [OF claims_wf] claims_of_canon
        del: json_canon.simps canonical_json.simps)
qed

lemma check_claims_ok_iff:
  "check_claims issuer audience expected clock c = Inr () \<longleftrightarrow>
     cl_iss c = issuer \<and> cl_aud c = audience \<and> clock < cl_exp c \<and> cl_iat c \<le> clock + 30 \<and>
     cl_exp c - cl_iat c \<le> 300 \<and> expected_mismatch c expected = None"
  by (auto simp: check_claims_def split: option.splits)

lemma expected_mismatch_None:
  "expected_mismatch c expected = None \<longleftrightarrow> (\<forall>(key, v) \<in> set expected. claim_attr c key = v)"
  by (induction c expected rule: expected_mismatch.induct) auto

lemma verify_accepted_iff:
  "verify_and_consume consume secret issuer token audience expected clock st = (Inr c, st') \<longleftrightarrow>
     decode_token secret token = Inr c \<and> check_claims issuer audience expected clock c = Inr () \<and>
     consume c st = (Inr True, st')"
  by (auto simp: verify_and_consume_def split: sum.splits prod.splits bool.splits)

lemma decoded_signature:
  assumes "decode_token secret token = Inr c"
  shows "\<exists>p s payload. split_once (CHR ''.'') token = Some (p, s) \<and> tok_unb64 p = Some payload \<and>
    tok_unb64 s = Some (hmac_sha256 secret payload) \<and> Option.bind (json_loads payload) claims_of = Some c"
  using assms by (auto simp: decode_token_def split: option.splits prod.splits if_splits)

section \<open>The interface of a single-use ledger\<close>

text \<open>
  What the verifier needs of the callable it is given: \<open>e\<close> stands for whatever else the
  provider reads when it is called (the clock of a database), \<open>ok\<close> for the provider's
  invariant, \<open>spent s j\<close> for ``the identifier \<open>j\<close> can no longer be consumed''.
\<close>

locale single_use =
  fixes consume :: "'e \<Rightarrow> claims \<Rightarrow> 's \<Rightarrow> bool res \<times> 's"
    and ok :: "'s \<Rightarrow> bool"
    and spent :: "'s \<Rightarrow> string \<Rightarrow> bool"
  assumes ok_consume: "ok s \<Longrightarrow> ok (snd (consume e c s))"
    and consume_spends: "ok s \<Longrightarrow> fst (consume e c s) = Inr True \<Longrightarrow> spent (snd (consume e c s)) (cl_jti c)"
    and spent_refused: "ok s \<Longrightarrow> spent s (cl_jti c) \<Longrightarrow> fst (consume e c s) \<noteq> Inr True"
    and spent_stays: "ok s \<Longrightarrow> spent s j \<Longrightarrow> spent (snd (consume e c s)) j"

text \<open>A sequence of presentations of tokens to one verifier, and the claims it accepted.\<close>

fun verify_run ::
  "('e \<Rightarrow> claims \<Rightarrow> 's \<Rightarrow> bool res \<times> 's) \<Rightarrow> bytes \<Rightarrow> string
    \<Rightarrow> ('e \<times> string \<times> string \<times> (string \<times> json) list \<times> int) list \<Rightarrow> 's \<Rightarrow> claims list \<times> 's" where
  "verify_run consume secret issuer [] s = ([], s)"
| "verify_run consume secret issuer ((e, token, audience, expected, clock) # rest) s =
     (case verify_and_consume (consume e) secret issuer token audience expected clock s of
        (Inl _, s') \<Rightarrow> verify_run consume secret issuer rest s'
      | (Inr c, s') \<Rightarrow> (case verify_run consume secret issuer rest s' of (cs, s'') \<Rightarrow> (c # cs, s'')))"

context single_use
begin

lemma verify_state:
  assumes "verify_and_consume (consume e) secret issuer token audience expected clock s = (r, s')"
  shows "s' = s \<or> (\<exists>c. s' = snd (consume e c s))"
  using assms unfolding verify_and_consume_def
  by (auto split: sum.splits prod.splits bool.splits) (metis snd_conv)+

lemma verify_ok:
  "ok s \<Longrightarrow> verify_and_consume (consume e) secret issuer token audience expected clock s = (r, s') \<Longrightarrow> ok s'"
  using verify_state ok_consume by blast

lemma verify_spent_stays:
  "ok s \<Longrightarrow> spent s j \<Longrightarrow>
    verify_and_consume (consume e) secret issuer token audience expected clock s = (r, s') \<Longrightarrow> spent s' j"
  using verify_state spent_stays by blast

lemma accepted_fresh:
  assumes "ok s" "verify_and_consume (consume e) secret issuer token audience expected clock s = (Inr c, s')"
  shows "\<not> spent s (cl_jti c)" "spent s' (cl_jti c)"
proof -
  have "consume e c s = (Inr True, s')" using assms(2) by (simp add: verify_accepted_iff)
  then show "\<not> spent s (cl_jti c)" "spent s' (cl_jti c)"
    using spent_refused [OF assms(1), of c e] consume_spends [OF assms(1), of e c] by auto
qed

lemma run_spent:
  assumes "ok s" "verify_run consume secret issuer reqs s = (cs, s')"
  shows "(\<forall>j. spent s j \<longrightarrow> j \<notin> cl_jti ` set cs) \<and> distinct (map cl_jti cs)"
  using assms
proof (induction reqs arbitrary: s cs)
  case (Cons q reqs)
  obtain e token audience expected clock where q: "q = (e, token, audience, expected, clock)"
    using prod_cases5 by blast
  obtain r t where v: "verify_and_consume (consume e) secret issuer token audience expected clock s = (r, t)"
    by fastforce
  have t: "ok t" using Cons.prems(1) v by (rule verify_ok)
  have mono: "spent s j \<Longrightarrow> spent t j" for j using Cons.prems(1) v by (blast intro: verify_spent_stays)
  obtain ds where ds: "verify_run consume secret issuer reqs t = (ds, s')"
    "cs = (case r of Inl _ \<Rightarrow> ds | Inr c \<Rightarrow> c # ds)"
    using Cons.prems(2) v q by (auto split: sum.splits prod.splits)
  have IH: "(\<forall>j. spent t j \<longrightarrow> j \<notin> cl_jti ` set ds) \<and> distinct (map cl_jti ds)"
    using t ds(1) by (rule Cons.IH)
  show ?case
  proof (cases r)
    case (Inl x)
    then show ?thesis using IH ds(2) mono by auto
  next
    case (Inr c)
    then have "\<not> spent s (cl_jti c)" "spent t (cl_jti c)"
      using accepted_fresh [OF Cons.prems(1)] v by auto
    then show ?thesis using IH ds(2) mono Inr by auto
  qed
qed simp

lemma run_distinct:
  "ok s \<Longrightarrow> verify_run consume secret issuer reqs s = (cs, s') \<Longrightarrow> distinct (map cl_jti cs)"
  using run_spent by blast

lemma replay_refused:
  assumes "ok s" "verify_and_consume (consume e) secret issuer token audience expected clock s = (Inr c, s')"
  shows "fst (verify_and_consume (consume e') secret issuer token audience' expected' clock' s') \<noteq> Inr c'"
proof
  assume r: "fst (verify_and_consume (consume e') secret issuer token audience' expected' clock' s') = Inr c'"
  then obtain s'' where v: "verify_and_consume (consume e') secret issuer token audience' expected' clock' s' = (Inr c', s'')"
    by (metis prod.collapse)
  then have "c' = c" using assms(2) by (simp add: verify_accepted_iff)
  moreover have "ok s'" using assms by (rule verify_ok)
  ultimately show False using accepted_fresh(1) v accepted_fresh(2) [OF assms] by blast
qed

end

section \<open>Properties\<close>

text \<open>
  Verifying a signed token returns exactly the signed claims when issuer, audience, time
  window and expected claims match and the ledger accepts the first use; it never accepts otherwise.
\<close>

theorem signed_token_verified:
  "fst (verify_and_consume consume secret issuer (sign_claims secret c) audience expected clock s) = Inr c' \<longleftrightarrow>
     c' = c \<and> cl_iss c = issuer \<and> cl_aud c = audience \<and> clock < cl_exp c \<and> cl_iat c \<le> clock + 30 \<and>
     cl_exp c - cl_iat c \<le> 300 \<and> list_all (\<lambda>(key, v). claim_attr c key = v) expected \<and>
     fst (consume c s) = Inr True"
proof -
  have "fst (verify_and_consume consume secret issuer (sign_claims secret c) audience expected clock s) = Inr c' \<longleftrightarrow>
    (\<exists>s'. verify_and_consume consume secret issuer (sign_claims secret c) audience expected clock s = (Inr c', s'))"
    by (metis fst_conv prod.collapse)
  also have "\<dots> \<longleftrightarrow> c' = c \<and> check_claims issuer audience expected clock c = Inr () \<and> (\<exists>s'. consume c s = (Inr True, s'))"
    by (auto simp: verify_accepted_iff decode_signed)
  also have "(\<exists>s'. consume c s = (Inr True, s')) \<longleftrightarrow> fst (consume c s) = Inr True" by (metis fst_conv prod.collapse)
  finally show ?thesis by (auto simp: check_claims_ok_iff expected_mismatch_None list_all_iff)
qed

end
