(* ===== verification/Policy.thy ===== *)
theory Policy
  imports Contracts
begin

text \<open>
  services/policy_gateway/app/policy.py: the deterministic contact policy, an abstract
  specification of when contact is allowed, and their equivalence.
\<close>

record policy_engine =
  pe_policy_version :: string
  pe_allowed_hours :: "int \<times> int"

definition default_engine :: policy_engine where
  "default_engine = \<lparr>pe_policy_version = ''mx-contactability@2'', pe_allowed_hours = (9, 20)\<rparr>"

definition promotional :: "contact_request \<Rightarrow> bool" where
  "promotional r = (py_upper (cr_purpose r) \<in> {''PROMOTIONAL'', ''MARKETING'', ''SALES''})"

text \<open>\<open>x or ""\<close> on an optional string.\<close>

definition or_empty :: "string option \<Rightarrow> string" where
  "or_empty s = (case s of None \<Rightarrow> [] | Some t \<Rightarrow> t)"

abbreviation reason_if :: "bool \<Rightarrow> string \<Rightarrow> string list" where
  "reason_if b s \<equiv> (if b then [s] else [])"

text \<open>The reasons against contact, in the order \<open>decide\<close> appends them.\<close>

definition hour_reasons :: "policy_engine \<Rightarrow> contact_request \<Rightarrow> string list" where
  "hour_reasons e r =
     (case cr_local_hour r of
        None \<Rightarrow> [''LOCAL_TIME_UNKNOWN'']
      | Some h \<Rightarrow> reason_if (\<not> (fst (pe_allowed_hours e) \<le> h \<and> h < snd (pe_allowed_hours e))) ''OUTSIDE_ALLOWED_HOURS'')"

definition repep_reasons :: "contact_request \<Rightarrow> string list" where
  "repep_reasons r =
     (if cr_repep_enabled r then
        (if cr_repep_snapshot_valid r \<noteq> Some True then [''REPEP_EVIDENCE_MISSING_OR_STALE'']
         else if cr_repep_listed r \<noteq> Some False then [''REPEP_LISTED_OR_UNKNOWN''] else [])
      else
        reason_if (py_upper (or_empty (cr_repep_exemption_type r)) \<noteq> ''B2B'') ''REPEP_DISABLED_REQUIRES_B2B''
        @ reason_if (cr_repep_exemption_approved r \<noteq> Some True) ''REPEP_B2B_EXCEPTION_NOT_APPROVED''
        @ reason_if (py_strip (or_empty (cr_repep_exemption_evidence_ref r)) = []) ''REPEP_B2B_EVIDENCE_MISSING'')"

definition whatsapp_reasons :: "contact_request \<Rightarrow> string list" where
  "whatsapp_reasons r =
     reason_if (cr_consent_active r \<noteq> Some True) ''WHATSAPP_OPT_IN_MISSING''
     @ reason_if (cr_conversation_window_open r \<noteq> Some True \<and> cr_template_approved r \<noteq> Some True)
         ''WHATSAPP_TEMPLATE_OR_WINDOW_INVALID''"

definition policy_reasons :: "policy_engine \<Rightarrow> contact_request \<Rightarrow> string list" where
  "policy_reasons e r =
     reason_if (cr_kill_switch r) ''GLOBAL_KILL_SWITCH''
     @ reason_if (\<not> cr_campaign_approved r) ''CAMPAIGN_NOT_APPROVED''
     @ reason_if (cr_approved_content_hash r \<noteq> Some (cr_content_hash r)) ''CAMPAIGN_CONTENT_CHANGED''
     @ reason_if (cr_internally_suppressed r) ''INTERNAL_SUPPRESSION''
     @ reason_if (cr_frequency_exhausted r) ''FREQUENCY_LIMIT''
     @ hour_reasons e r
     @ (if cr_channel r = VOICE \<and> promotional r then repep_reasons r else [])
     @ (if cr_channel r = WHATSAPP \<and> promotional r then whatsapp_reasons r else [])"

definition opt_str :: "string option \<Rightarrow> json" where
  "opt_str s = (case s of None \<Rightarrow> JNull | Some t \<Rightarrow> JStr t)"

text \<open>\<open>decide\<close>; the fresh identifier and the clock reading are arguments.\<close>

definition decide :: "policy_engine \<Rightarrow> string \<Rightarrow> datetime \<Rightarrow> contact_request \<Rightarrow> decision" where
  "decide e fresh_id now r =
     (let reasons = policy_reasons e r in
      \<lparr>de_decision_id = fresh_id,
       de_outcome = (if reasons \<noteq> [] then DENY else ALLOW),
       de_reason_codes = (if reasons \<noteq> [] then reasons else [''POLICY_ALLOW'']),
       de_policy_version = pe_policy_version e,
       de_decided_at = now,
       de_evidence =
         [(''channel'', JStr (channel_value (cr_channel r))),
          (''campaign_version_id'', JStr (cr_campaign_version_id r)),
          (''repep_enabled'', JBool (cr_repep_enabled r)),
          (''repep_exemption_type'', opt_str (cr_repep_exemption_type r)),
          (''repep_exemption_evidence_ref'', opt_str (cr_repep_exemption_evidence_ref r))]\<rparr>)"

section \<open>The specification\<close>

text \<open>
  When contact is allowed, stated without the order of the checks: the campaign is approved
  for exactly this content, nothing suppresses the contact, the hour is known and allowed,
  and the evidence the channel requires for a promotional purpose is positively there.
\<close>

definition voice_evidence :: "contact_request \<Rightarrow> bool" where
  "voice_evidence r \<longleftrightarrow>
     (if cr_repep_enabled r
      then cr_repep_snapshot_valid r = Some True \<and> cr_repep_listed r = Some False
      else (\<exists>t. cr_repep_exemption_type r = Some t \<and> py_upper t = ''B2B'') \<and>
           cr_repep_exemption_approved r = Some True \<and>
           (\<exists>ref. cr_repep_exemption_evidence_ref r = Some ref \<and> py_strip ref \<noteq> []))"

definition whatsapp_evidence :: "contact_request \<Rightarrow> bool" where
  "whatsapp_evidence r \<longleftrightarrow>
     cr_consent_active r = Some True \<and>
     (cr_conversation_window_open r = Some True \<or> cr_template_approved r = Some True)"

definition contactable :: "policy_engine \<Rightarrow> contact_request \<Rightarrow> bool" where
  "contactable e r \<longleftrightarrow>
     \<not> cr_kill_switch r \<and> cr_campaign_approved r \<and> cr_approved_content_hash r = Some (cr_content_hash r) \<and>
     \<not> cr_internally_suppressed r \<and> \<not> cr_frequency_exhausted r \<and>
     (\<exists>h. cr_local_hour r = Some h \<and> fst (pe_allowed_hours e) \<le> h \<and> h < snd (pe_allowed_hours e)) \<and>
     (promotional r \<longrightarrow> (case cr_channel r of VOICE \<Rightarrow> voice_evidence r | WHATSAPP \<Rightarrow> whatsapp_evidence r))"

lemma hour_reasons_Nil:
  "hour_reasons e r = [] \<longleftrightarrow>
     (\<exists>h. cr_local_hour r = Some h \<and> fst (pe_allowed_hours e) \<le> h \<and> h < snd (pe_allowed_hours e))"
  by (auto simp: hour_reasons_def split: option.splits)

lemma repep_reasons_Nil: "repep_reasons r = [] \<longleftrightarrow> voice_evidence r"
  by (auto simp: repep_reasons_def voice_evidence_def or_empty_def py_upper_def py_strip_def split: option.splits)

lemma whatsapp_reasons_Nil: "whatsapp_reasons r = [] \<longleftrightarrow> whatsapp_evidence r"
  by (auto simp: whatsapp_reasons_def whatsapp_evidence_def)

lemma policy_reasons_Nil: "policy_reasons e r = [] \<longleftrightarrow> contactable e r"
  by (cases "cr_channel r")
    (auto simp: policy_reasons_def contactable_def hour_reasons_Nil repep_reasons_Nil whatsapp_reasons_Nil)

lemma decide_outcome: "de_outcome (decide e i now r) = (if contactable e r then ALLOW else DENY)"
  by (simp add: decide_def Let_def policy_reasons_Nil)

text \<open>
  The specification of the codes: each code with the condition on the request that calls for it, in the
  order in which they are reported.
\<close>

definition denial_conditions :: "policy_engine \<Rightarrow> contact_request \<Rightarrow> (string \<times> bool) list" where
  "denial_conditions e r =
     (let voice = (cr_channel r = VOICE \<and> promotional r); whatsapp = (cr_channel r = WHATSAPP \<and> promotional r) in
      [(''GLOBAL_KILL_SWITCH'', cr_kill_switch r),
       (''CAMPAIGN_NOT_APPROVED'', \<not> cr_campaign_approved r),
       (''CAMPAIGN_CONTENT_CHANGED'', cr_approved_content_hash r \<noteq> Some (cr_content_hash r)),
       (''INTERNAL_SUPPRESSION'', cr_internally_suppressed r),
       (''FREQUENCY_LIMIT'', cr_frequency_exhausted r),
       (''LOCAL_TIME_UNKNOWN'', cr_local_hour r = None),
       (''OUTSIDE_ALLOWED_HOURS'',
         case cr_local_hour r of None \<Rightarrow> False | Some h \<Rightarrow> h < fst (pe_allowed_hours e) \<or> snd (pe_allowed_hours e) \<le> h),
       (''REPEP_EVIDENCE_MISSING_OR_STALE'', voice \<and> cr_repep_enabled r \<and> cr_repep_snapshot_valid r \<noteq> Some True),
       (''REPEP_LISTED_OR_UNKNOWN'',
         voice \<and> cr_repep_enabled r \<and> cr_repep_snapshot_valid r = Some True \<and> cr_repep_listed r \<noteq> Some False),
       (''REPEP_DISABLED_REQUIRES_B2B'',
         voice \<and> \<not> cr_repep_enabled r \<and> (case cr_repep_exemption_type r of None \<Rightarrow> True | Some t \<Rightarrow> py_upper t \<noteq> ''B2B'')),
       (''REPEP_B2B_EXCEPTION_NOT_APPROVED'', voice \<and> \<not> cr_repep_enabled r \<and> cr_repep_exemption_approved r \<noteq> Some True),
       (''REPEP_B2B_EVIDENCE_MISSING'',
         voice \<and> \<not> cr_repep_enabled r \<and> (case cr_repep_exemption_evidence_ref r of None \<Rightarrow> True | Some ref \<Rightarrow> py_strip ref = [])),
       (''WHATSAPP_OPT_IN_MISSING'', whatsapp \<and> cr_consent_active r \<noteq> Some True),
       (''WHATSAPP_TEMPLATE_OR_WINDOW_INVALID'',
         whatsapp \<and> cr_conversation_window_open r \<noteq> Some True \<and> cr_template_approved r \<noteq> Some True)])"

lemma hour_codes:
  "hour_reasons e r = map fst (filter snd
     [(''LOCAL_TIME_UNKNOWN'', cr_local_hour r = None),
      (''OUTSIDE_ALLOWED_HOURS'',
        case cr_local_hour r of None \<Rightarrow> False | Some h \<Rightarrow> h < fst (pe_allowed_hours e) \<or> snd (pe_allowed_hours e) \<le> h)])"
  by (simp add: hour_reasons_def not_le not_less de_Morgan_conj split: option.split)

lemma repep_codes:
  "repep_reasons r = map fst (filter snd
     [(''REPEP_EVIDENCE_MISSING_OR_STALE'', cr_repep_enabled r \<and> cr_repep_snapshot_valid r \<noteq> Some True),
      (''REPEP_LISTED_OR_UNKNOWN'', cr_repep_enabled r \<and> cr_repep_snapshot_valid r = Some True \<and> cr_repep_listed r \<noteq> Some False),
      (''REPEP_DISABLED_REQUIRES_B2B'',
        \<not> cr_repep_enabled r \<and> (case cr_repep_exemption_type r of None \<Rightarrow> True | Some t \<Rightarrow> py_upper t \<noteq> ''B2B'')),
      (''REPEP_B2B_EXCEPTION_NOT_APPROVED'', \<not> cr_repep_enabled r \<and> cr_repep_exemption_approved r \<noteq> Some True),
      (''REPEP_B2B_EVIDENCE_MISSING'',
        \<not> cr_repep_enabled r \<and> (case cr_repep_exemption_evidence_ref r of None \<Rightarrow> True | Some ref \<Rightarrow> py_strip ref = []))])"
proof -
  have "py_upper (or_empty t) \<noteq> ''B2B'' \<longleftrightarrow> (case t of None \<Rightarrow> True | Some t \<Rightarrow> py_upper t \<noteq> ''B2B'')" for t
    by (simp add: or_empty_def py_upper_def split: option.split)
  moreover have "py_strip (or_empty t) = [] \<longleftrightarrow> (case t of None \<Rightarrow> True | Some ref \<Rightarrow> py_strip ref = [])" for t
    by (simp add: or_empty_def py_strip_def split: option.split)
  ultimately show ?thesis by (simp add: repep_reasons_def)
qed

lemma policy_reasons_conditions: "policy_reasons e r = map fst (filter snd (denial_conditions e r))"
  unfolding policy_reasons_def denial_conditions_def hour_codes repep_codes whatsapp_reasons_def Let_def
  by (cases "cr_channel r"; cases "promotional r"; simp)

text \<open>The reasons are exact: a denial lists a code precisely when its condition holds.\<close>

lemma reason_membership:
  "''INTERNAL_SUPPRESSION'' \<in> set (policy_reasons e r) \<longleftrightarrow> cr_internally_suppressed r"
  by (auto simp: policy_reasons_def hour_reasons_def repep_reasons_def whatsapp_reasons_def split: option.splits)

end
