(* ===== verification/Authorization.thy ===== *)
theory Authorization
  imports Token Policy
begin

text \<open>
  services/policy_gateway/app/authorization.py and the consumer
  \<open>ShadowFirstUseConsumer\<close> of services/channel_adapters/app/postgres_token.py: the in-memory
  ledger of identifiers, the issuer of signed authorizations, the one-shot store of decision
  contexts. The two in-memory consumers interpret \<open>single_use\<close>.
\<close>

section \<open>In-memory ledgers\<close>

record mem_ledger =
  ml_issued :: "string set"
  ml_consumed :: "string set"

definition ledger_init :: mem_ledger where
  "ledger_init = \<lparr>ml_issued = {}, ml_consumed = {}\<rparr>"

definition ledger_register :: "string \<Rightarrow> mem_ledger \<Rightarrow> mem_ledger" where
  "ledger_register jti l = l\<lparr>ml_issued := insert jti (ml_issued l)\<rparr>"

definition ledger_consume :: "string \<Rightarrow> mem_ledger \<Rightarrow> bool res \<times> mem_ledger" where
  "ledger_consume jti l =
     (if jti \<notin> ml_issued l \<or> jti \<in> ml_consumed l then (Inr False, l)
      else (Inr True, l\<lparr>ml_consumed := insert jti (ml_consumed l)\<rparr>))"

definition shadow_consume :: "string \<Rightarrow> string set \<Rightarrow> bool res \<times> string set" where
  "shadow_consume jti seen = (if jti \<in> seen then (Inr False, seen) else (Inr True, insert jti seen))"

interpretation mem: single_use "\<lambda>(_ :: unit) c. ledger_consume (cl_jti c)" "\<lambda>_. True" "\<lambda>l j. j \<in> ml_consumed l"
  by unfold_locales (auto simp: ledger_consume_def)

interpretation shadow: single_use "\<lambda>(_ :: unit) c. shadow_consume (cl_jti c)" "\<lambda>_. True" "\<lambda>seen j. j \<in> seen"
  by unfold_locales (auto simp: shadow_consume_def)

section \<open>The issuer\<close>

record auth_issuer =
  ai_secret :: bytes
  ai_issuer :: string
  ai_max_decision_age_seconds :: int

definition issuer_init :: "bytes \<Rightarrow> string \<Rightarrow> int \<Rightarrow> auth_issuer res" where
  "issuer_init secret issuer max_age =
     (if length secret < 32 then raise ValueError ''JIT secret must contain at least 32 bytes''
      else if \<not> (1 \<le> max_age \<and> max_age \<le> 300) then raise ValueError ''DECISION_MAX_AGE_OUT_OF_RANGE''
      else Inr \<lparr>ai_secret = secret, ai_issuer = issuer, ai_max_decision_age_seconds = max_age\<rparr>)"

definition adapter_audience :: "channel \<Rightarrow> string" where
  "adapter_audience c = py_lower (channel_value c) @ ''-adapter''"

definition issued_claims ::
  "auth_issuer \<Rightarrow> decision \<Rightarrow> contact_request \<Rightarrow> string \<Rightarrow> int \<Rightarrow> int \<Rightarrow> string \<Rightarrow> claims" where
  "issued_claims ai d r audience ttl issued_at jti =
     \<lparr>cl_jti = jti, cl_iss = ai_issuer ai, cl_aud = audience, cl_tenant_id = cr_tenant_id r,
      cl_contact_id = cr_contact_id r, cl_campaign_version_id = cr_campaign_version_id r,
      cl_decision_id = de_decision_id d, cl_channel = channel_value (cr_channel r), cl_purpose = cr_purpose r,
      cl_content_hash = cr_content_hash r, cl_iat = issued_at, cl_exp = issued_at + ttl\<rparr>"

text \<open>
  \<open>issue\<close>; \<open>issued_at\<close> is the integer clock, \<open>jti\<close> the fresh identifier, \<open>register\<close> the
  ledger's operation (claims and token hash), which may raise.
\<close>

definition issue_token ::
  "(claims \<Rightarrow> string \<Rightarrow> 's \<Rightarrow> unit res \<times> 's) \<Rightarrow> auth_issuer \<Rightarrow> decision \<Rightarrow> contact_request \<Rightarrow> string \<Rightarrow> int
    \<Rightarrow> int \<Rightarrow> string \<Rightarrow> 's \<Rightarrow> string res \<times> 's" where
  "issue_token register ai d r audience ttl issued_at jti st =
     (if de_outcome d \<noteq> ALLOW then (raise PermissionError ''DENIED_DECISION_CANNOT_BE_AUTHORIZED'', st)
      else if ttl < 1 \<or> 300 < ttl then (raise ValueError ''TTL_OUT_OF_RANGE'', st)
      else
        (let decision_time = epoch_seconds (de_decided_at d) in
         if ai_max_decision_age_seconds ai < issued_at - decision_time \<or> 30 < decision_time - issued_at
           then (raise PermissionError ''DECISION_EXPIRED'', st)
         else if audience \<noteq> adapter_audience (cr_channel r)
           then (raise PermissionError ''DECISION_AUDIENCE_MISMATCH'', st)
         else
           (let c = issued_claims ai d r audience ttl issued_at jti;
                token = sign_claims (ai_secret ai) c
            in case register c (sha256_hexdigest token) st of
                 (Inl e, st') \<Rightarrow> (Inl e, st')
               | (Inr _, st') \<Rightarrow> (Inr token, st'))))"

definition mem_register :: "claims \<Rightarrow> string \<Rightarrow> mem_ledger \<Rightarrow> unit res \<times> mem_ledger" where
  "mem_register c token_hash l = (Inr (), ledger_register (cl_jti c) l)"

lemma issue_token_Inr:
  "issue_token register ai d r audience ttl issued_at jti st = (Inr token, st') \<longleftrightarrow>
     de_outcome d = ALLOW \<and> 1 \<le> ttl \<and> ttl \<le> 300 \<and>
     issued_at - epoch_seconds (de_decided_at d) \<le> ai_max_decision_age_seconds ai \<and>
     epoch_seconds (de_decided_at d) - issued_at \<le> 30 \<and> audience = adapter_audience (cr_channel r) \<and>
     token = sign_claims (ai_secret ai) (issued_claims ai d r audience ttl issued_at jti) \<and>
     register (issued_claims ai d r audience ttl issued_at jti) (sha256_hexdigest token) st = (Inr (), st')"
  by (auto simp: issue_token_def Let_def split: if_splits prod.splits sum.splits)

lemma issued_token_accepted:
  assumes "issue_token register ai d r audience ttl issued_at jti st = (Inr token, st')"
    and "verify_and_consume consume (ai_secret ai) issuer token audience' expected clock s = (Inr c, s')"
  shows "c = issued_claims ai d r audience ttl issued_at jti" "clock < issued_at + ttl" "issued_at \<le> clock + 30"
    "audience' = adapter_audience (cr_channel r)" "de_outcome d = ALLOW"
proof -
  have c: "c = issued_claims ai d r audience ttl issued_at jti"
    using assms by (simp add: issue_token_Inr verify_accepted_iff decode_signed)
  then show "c = issued_claims ai d r audience ttl issued_at jti" .
  have "check_claims issuer audience' expected clock c = Inr ()" using assms(2) by (simp add: verify_accepted_iff)
  then show "clock < issued_at + ttl" "issued_at \<le> clock + 30" "audience' = adapter_audience (cr_channel r)"
    using c assms(1) by (simp_all add: check_claims_ok_iff issued_claims_def issue_token_Inr)
  show "de_outcome d = ALLOW" using assms(1) by (simp add: issue_token_Inr)
qed

section \<open>Decision contexts\<close>

record context_store =
  cs_ttl_seconds :: real
  cs_max_entries :: nat
  cs_values :: "(string, decision \<times> contact_request \<times> real) dict"

definition context_prune :: "real \<Rightarrow> (string, decision \<times> contact_request \<times> real) dict
    \<Rightarrow> (string, decision \<times> contact_request \<times> real) dict" where
  "context_prune now d = filter (\<lambda>(k, v). \<not> snd (snd v) \<le> now) d"

text \<open>\<open>while len(values) > max_entries: values.popitem(last=False)\<close>.\<close>

fun pop_oldest :: "nat \<Rightarrow> ('k, 'v) dict \<Rightarrow> ('k, 'v) dict" where
  "pop_oldest m [] = []"
| "pop_oldest m (x # xs) = (if m < length (x # xs) then pop_oldest m xs else x # xs)"

text \<open>An \<open>OrderedDict\<close>: the assignment and \<open>move_to_end\<close> leave the entry last.\<close>

definition context_put :: "real \<Rightarrow> decision \<Rightarrow> contact_request \<Rightarrow> context_store \<Rightarrow> context_store" where
  "context_put now d r s =
     (let key = de_decision_id d;
          v = (d, r, now + cs_ttl_seconds s);
          values = dict_set key v (context_prune now (cs_values s));
          moved = dict_pop key values @ [(key, v)]
      in s\<lparr>cs_values := pop_oldest (cs_max_entries s) moved\<rparr>)"

definition context_take :: "real \<Rightarrow> string \<Rightarrow> string \<Rightarrow> context_store
    \<Rightarrow> (decision \<times> contact_request) option res \<times> context_store" where
  "context_take now decision_id tenant_id s =
     (case map_of (cs_values s) decision_id of
        None \<Rightarrow> (Inr None, s)
      | Some (d, r, expires_at) \<Rightarrow>
          if cr_tenant_id r \<noteq> tenant_id then (raise PermissionError ''DECISION_TENANT_MISMATCH'', s)
          else
            (let s' = s\<lparr>cs_values := dict_pop decision_id (cs_values s)\<rparr> in
             if expires_at \<le> now then (raise PermissionError ''DECISION_EXPIRED'', s')
             else (Inr (Some (d, r)), s')))"

definition context_inv :: "context_store \<Rightarrow> bool" where
  "context_inv s \<longleftrightarrow> dict_wf (cs_values s) \<and> length (cs_values s) \<le> cs_max_entries s \<and>
     (\<forall>x \<in> set (cs_values s). de_decision_id (fst (snd x)) = fst x)"

lemma pop_oldest_drop: "pop_oldest m d = drop (length d - m) d"
  by (induction d) (auto simp: Suc_diff_le not_less)

lemma map_of_drop_Some:
  assumes "distinct (map fst d)" "map_of (drop n d) k = Some v"
  shows "map_of d k = Some v"
proof -
  have "(k, v) \<in> set d" using map_of_SomeD [OF assms(2)] in_set_dropD by metis
  then show ?thesis using assms(1) by simp
qed

lemma context_put_values:
  "cs_values (context_put now d r s) =
     (let es = dict_pop (de_decision_id d) (context_prune now (cs_values s)) @ [(de_decision_id d, (d, r, now + cs_ttl_seconds s))]
      in drop (length es - cs_max_entries s) es)"
  by (simp add: context_put_def Let_def pop_oldest_drop)

lemma context_put_wf:
  assumes "dict_wf (cs_values s)"
  shows "dict_wf (dict_pop (de_decision_id d) (context_prune now (cs_values s)) @ [(de_decision_id d, v)])"
proof -
  have w: "dict_wf (dict_pop (de_decision_id d) (context_prune now (cs_values s)))"
    using assms by (simp add: context_prune_def)
  then show ?thesis by simp
qed

lemma context_put_inv: "context_inv s \<Longrightarrow> context_inv (context_put now d r s)"
proof -
  assume s: "context_inv s"
  let ?v = "(d, r, now + cs_ttl_seconds s)"
  let ?es = "dict_pop (de_decision_id d) (context_prune now (cs_values s)) @ [(de_decision_id d, ?v)]"
  let ?n = "length ?es - cs_max_entries s"
  have "dict_wf ?es" using s by (intro context_put_wf) (simp add: context_inv_def)
  then have w: "dict_wf (drop ?n ?es)" by (rule dict_wf_drop)
  have "set (dict_pop (de_decision_id d) (context_prune now (cs_values s))) \<subseteq> set (cs_values s)"
    using dict_pop_subset [of "de_decision_id d" "context_prune now (cs_values s)"]
    by (auto simp: context_prune_def)
  then have "\<forall>x \<in> set ?es. de_decision_id (fst (snd x)) = fst x" using s by (auto simp: context_inv_def)
  then have k: "\<forall>x \<in> set (drop ?n ?es). de_decision_id (fst (snd x)) = fst x" by (meson in_set_dropD)
  have m: "cs_max_entries (context_put now d r s) = cs_max_entries s" by (simp add: context_put_def Let_def)
  have v: "cs_values (context_put now d r s) = drop ?n ?es" by (simp only: context_put_values Let_def)
  show ?thesis unfolding context_inv_def m v using w k by simp
qed

lemma context_take_inv: "context_inv s \<Longrightarrow> context_inv (snd (context_take now i t s))"
  using dict_length_pop_le [of i "cs_values s"] dict_pop_subset [of i "cs_values s"]
  by (auto simp: context_inv_def context_take_def Let_def split: option.splits)

lemma context_take_Some:
  assumes "context_take now i t s = (Inr (Some (d, r)), s')"
  shows "cr_tenant_id r = t" "map_of (cs_values s') i = None"
    "\<exists>e. map_of (cs_values s) i = Some (d, r, e) \<and> now < e"
  using assms by (auto simp: context_take_def Let_def dict_simps split: option.splits if_splits)

lemma context_put_take:
  assumes "0 < cs_max_entries s" "dict_wf (cs_values s)" "t < now + cs_ttl_seconds s"
  shows "fst (context_take t (de_decision_id d) (cr_tenant_id r) (context_put now d r s)) = Inr (Some (d, r))"
proof -
  let ?v = "(d, r, now + cs_ttl_seconds s)"
  let ?es = "dict_pop (de_decision_id d) (context_prune now (cs_values s)) @ [(de_decision_id d, ?v)]"
  have "(de_decision_id d, ?v) \<in> set (drop (length ?es - cs_max_entries s) ?es)"
    using assms(1) by (cases "length ?es - cs_max_entries s \<le> length ?es - 1") auto
  moreover have "dict_wf (drop n ?es)" for n using context_put_wf [OF assms(2)] by (rule dict_wf_drop)
  ultimately have "map_of (cs_values (context_put now d r s)) (de_decision_id d) = Some ?v"
    unfolding context_put_values Let_def by (intro map_of_is_SomeI)
  then show ?thesis using assms(3) by (simp add: context_take_def Let_def)
qed

end
