(* ===== verification/PgStores.thy ===== *)
theory PgStores
  imports Stores Authorization
begin

text \<open>
  The PostgreSQL stores: nonce and idempotency tables of persistence.py, the authorization
  table as postgres_ledger.py (policy gateway) and postgres_token.py (channel adapters) use
  it, the webhook inbox of postgres_webhook.py. A method is one transaction: a fault of the
  database leaves every table as it was and is raised. A table is the list of its rows, a
  statement the list operation its SQL says; the unique constraints of src/database are part
  of the inserts. \<open>set_config('app.tenant_id', ...)\<close> scopes the statements to the tenant
  they also name, so it changes no row.
\<close>

record pg_env =
  pg_now :: real
  pg_fault :: "exn option"

text \<open>The transaction of \<open>with factory() as connection\<close>.\<close>

definition pg_run :: "pg_env \<Rightarrow> ('s \<Rightarrow> 'a res \<times> 's) \<Rightarrow> 's \<Rightarrow> 'a res \<times> 's" where
  "pg_run e body s =
     (case pg_fault e of
        Some x \<Rightarrow> (Inl x, s)
      | None \<Rightarrow> (case body s of (Inl x, s') \<Rightarrow> (Inl x, s) | (Inr a, s') \<Rightarrow> (Inr a, s')))"

lemma pg_run_Inr: "pg_run e body s = (Inr a, s') \<longleftrightarrow> pg_fault e = None \<and> body s = (Inr a, s')"
  by (auto simp: pg_run_def split: option.splits prod.splits sum.splits)

lemma pg_run_Inl: "pg_run e body s = (Inl x, s') \<Longrightarrow> s' = s"
  by (auto simp: pg_run_def split: option.splits prod.splits sum.splits)

text \<open>Sequencing inside a transaction.\<close>

definition tx_bind :: "('s \<Rightarrow> 'a res \<times> 's) \<Rightarrow> ('a \<Rightarrow> 's \<Rightarrow> 'b res \<times> 's) \<Rightarrow> 's \<Rightarrow> 'b res \<times> 's" where
  "tx_bind m f s = (case m s of (Inl x, s') \<Rightarrow> (Inl x, s') | (Inr a, s') \<Rightarrow> f a s')"

definition tx_lift :: "'a res \<Rightarrow> 's \<Rightarrow> 'a res \<times> 's" where
  "tx_lift r s = (r, s)"

lemma tx_bind_Inr: "tx_bind m f s = (Inr b, s') \<longleftrightarrow> (\<exists>a s1. m s = (Inr a, s1) \<and> f a s1 = (Inr b, s'))"
  by (auto simp: tx_bind_def split: prod.splits sum.splits)

lemma tx_lift_Inr [simp]: "tx_lift r s = (Inr a, s') \<longleftrightarrow> r = Inr a \<and> s' = s"
  by (auto simp: tx_lift_def)

section \<open>workload\_nonce\<close>

type_synonym nonce_table = "(nonce_key, int \<times> int) dict"

definition pg_remember :: "int \<Rightarrow> pg_env \<Rightarrow> nonce_key \<Rightarrow> int \<Rightarrow> nonce_table \<Rightarrow> bool res \<times> nonce_table" where
  "pg_remember ttl e key issued_at = pg_run e (\<lambda>t.
     let live = filter (\<lambda>(k, row). \<not> (fst k = fst key \<and> of_int (snd row) \<le> pg_now e)) t in
     if has_key live key then (Inr False, live)
     else (Inr True, live @ [(key, (issued_at, issued_at + ttl))]))"

definition pg_nonce_held :: "pg_env \<Rightarrow> nonce_table \<Rightarrow> nonce_key \<Rightarrow> bool" where
  "pg_nonce_held e t k \<longleftrightarrow> (\<exists>row. (k, row) \<in> set t \<and> pg_now e < of_int (snd row))"

lemma pg_remember_accepts:
  assumes "pg_remember ttl e k issued t = (Inr True, t')"
  shows "(k, (issued, issued + ttl)) \<in> set t'"
  using assms by (auto simp: pg_remember_def pg_run_Inr Let_def split: if_splits)

lemma pg_held_refused: "pg_nonce_held e t k \<Longrightarrow> fst (pg_remember ttl e k issued t) \<noteq> Inr True"
  by (force simp: pg_nonce_held_def pg_remember_def pg_run_def Let_def has_key_iff split: option.splits if_splits)

lemma pg_held_stays:
  "pg_nonce_held later t k \<Longrightarrow> pg_now e \<le> pg_now later \<Longrightarrow> pg_nonce_held later (snd (pg_remember ttl e j issued t)) k"
  by (force simp: pg_nonce_held_def pg_remember_def pg_run_def Let_def split: option.splits if_splits)

interpretation pg_nonces: nonce_store "pg_remember ttl" "\<lambda>_. True" pg_nonce_held
    "\<lambda>e issued later. pg_now later < of_int (issued + ttl)" "\<lambda>e later. pg_now e \<le> pg_now later" "\<lambda>_. True"
  for ttl
proof unfold_locales
  fix e later :: pg_env and k j :: nonce_key and issued :: int and t t' :: nonce_table
  show "pg_remember ttl e k issued t = (Inr True, t') \<Longrightarrow> pg_now later < of_int (issued + ttl) \<Longrightarrow> pg_nonce_held later t' k"
    using pg_remember_accepts [of ttl e k issued t t'] by (force simp: pg_nonce_held_def)
  show "pg_nonce_held e t k \<Longrightarrow> fst (pg_remember ttl e k issued t) \<noteq> Inr True"
    by (rule pg_held_refused)
  show "pg_nonce_held later t k \<Longrightarrow> pg_now e \<le> pg_now later \<Longrightarrow> pg_nonce_held later (snd (pg_remember ttl e j issued t)) k"
    by (rule pg_held_stays)
qed auto

section \<open>idempotency\_record\<close>

text \<open>\<open>jsonb\<close> is what the column does to the document it stores.\<close>

type_synonym 'b idem_table = "(string \<times> string \<times> string, string \<times> (int \<times> 'b) option \<times> real) dict"

definition pg_claim :: "string \<Rightarrow> real \<Rightarrow> pg_env \<Rightarrow> idem_key \<Rightarrow> string \<Rightarrow> 'b idem_table \<Rightarrow> 'b claim_result res \<times> 'b idem_table" where
  "pg_claim service ttl e k request_hash = pg_run e (\<lambda>t.
     let key = (fst k, service, snd k);
         live = filter (\<lambda>(k', row). \<not> (k' = key \<and> snd (snd row) \<le> pg_now e)) t
     in if \<not> has_key live key
        then (Inr ClaimNew, live @ [(key, (request_hash, None, pg_now e + ttl))])
        else (case map_of live key of
                None \<Rightarrow> (Inr ClaimConflict, live)
              | Some (hash, response, _) \<Rightarrow>
                  if hash \<noteq> request_hash then (Inr ClaimConflict, live)
                  else (case response of
                          None \<Rightarrow> (Inr ClaimPending, live)
                        | Some (status, body) \<Rightarrow> (Inr (ClaimCached status body), live))))"

definition pg_finish ::
  "('b \<Rightarrow> 'b) \<Rightarrow> string \<Rightarrow> pg_env \<Rightarrow> idem_key \<Rightarrow> string \<Rightarrow> int \<Rightarrow> 'b \<Rightarrow> 'b idem_table \<Rightarrow> unit res \<times> 'b idem_table" where
  "pg_finish jsonb service e k request_hash status body = pg_run e (\<lambda>t.
     (Inr (), map (\<lambda>(k', (hash, response, expires)).
        if k' = (fst k, service, snd k) \<and> hash = request_hash
        then (k', (hash, Some (status, jsonb body), expires)) else (k', (hash, response, expires))) t))"

definition pg_abandon :: "string \<Rightarrow> pg_env \<Rightarrow> idem_key \<Rightarrow> string \<Rightarrow> 'b idem_table \<Rightarrow> unit res \<times> 'b idem_table" where
  "pg_abandon service e k request_hash = pg_run e (\<lambda>t.
     (Inr (), filter (\<lambda>(k', (hash, response, _)).
        \<not> (k' = (fst k, service, snd k) \<and> hash = request_hash \<and> response = None)) t))"

definition pg_idem_view :: "string \<Rightarrow> pg_env \<Rightarrow> 'b idem_table \<Rightarrow> idem_key \<Rightarrow> (string \<times> (int \<times> 'b) option) option" where
  "pg_idem_view service e t k =
     (case map_of t (fst k, service, snd k) of
        None \<Rightarrow> None
      | Some (hash, response, expires) \<Rightarrow> if pg_now e < expires then Some (hash, response) else None)"

lemma pg_idem_step_keys [simp]:
  "map fst (map (\<lambda>(k', (hash, response, expires)).
     if P k' hash then (k', (hash, f response, expires)) else (k', (hash, response, expires))) t) = map fst t"
  by (induction t) auto

lemma pg_finish_get:
  "map_of (map (\<lambda>(k', (hash, response, expires)).
      if k' = key \<and> hash = h then (k', (hash, r, expires)) else (k', (hash, response, expires))) t) key =
   (case map_of t key of None \<Rightarrow> None
    | Some (hash, response, expires) \<Rightarrow> Some (if hash = h then (hash, r, expires) else (hash, response, expires)))"
  by (induction t) auto

lemma pg_filter_other:
  "map_of (filter (\<lambda>(k', row). \<not> (k' = key \<and> P row)) t) key =
    (if dict_wf t then (case map_of t key of None \<Rightarrow> None | Some row \<Rightarrow> if P row then None else Some row)
     else map_of (filter (\<lambda>(k', row). \<not> (k' = key \<and> P row)) t) key)"
  by (induction t) (auto split: option.splits simp: map_of_eq_None_iff image_iff)

lemma pg_claim_live:
  fixes now :: real
  assumes "dict_wf t"
  shows "map_of (filter (\<lambda>(k', row). \<not> (k' = key \<and> snd (snd row) \<le> now)) t) key =
    (case map_of t key of None \<Rightarrow> None | Some row \<Rightarrow> if now < snd (snd row) then Some row else None)"
  using assms pg_filter_other [of key "\<lambda>row. snd (snd row) \<le> now" t]
  by (cases "map_of t key") (auto simp del: map_of_eq_Some_iff)

lemma pg_claim_wf: "dict_wf t \<Longrightarrow> dict_wf (snd (pg_claim service ttl e k h t))"
  by (auto simp: pg_claim_def pg_run_def Let_def has_key_iff split: option.splits prod.splits sum.splits if_splits)

lemma pg_finish_wf: "dict_wf t \<Longrightarrow> dict_wf (snd (pg_finish jsonb service e k h st b t))"
  using pg_idem_step_keys [of "\<lambda>k' hash. k' = (fst k, service, snd k) \<and> hash = h" "\<lambda>_. Some (st, jsonb b)" t]
  by (simp add: pg_finish_def pg_run_def split: option.splits del: map_map pg_idem_step_keys)

lemma pg_abandon_wf: "dict_wf t \<Longrightarrow> dict_wf (snd (pg_abandon service e k h t))"
  by (simp add: pg_abandon_def pg_run_def split: option.splits)

lemma pg_claim_new:
  "pg_claim service ttl e k h t = (Inr ClaimNew, t') \<Longrightarrow> pg_now later < pg_now e + ttl \<Longrightarrow>
    pg_idem_view service later t' k = Some (h, None)"
  by (auto simp: pg_claim_def pg_run_Inr Let_def pg_idem_view_def has_key_def map_add_def
      split: if_splits option.splits)

lemma pg_claim_view:
  assumes "dict_wf t" "pg_claim service ttl e k h t = (Inr c, t')"
  shows "case pg_idem_view service e t k of
      None \<Rightarrow> c = ClaimNew
    | Some (h', r) \<Rightarrow> c = (if h' \<noteq> h then ClaimConflict else case r of None \<Rightarrow> ClaimPending | Some (st, b) \<Rightarrow> ClaimCached st b)
        \<and> t' = filter (\<lambda>(k', row). \<not> (k' = (fst k, service, snd k) \<and> snd (snd row) \<le> pg_now e)) t"
  using assms(2) pg_claim_live [OF assms(1), of "(fst k, service, snd k)" "pg_now e"]
  by (auto simp: pg_claim_def pg_run_Inr Let_def pg_idem_view_def has_key_def simp del: map_of_eq_Some_iff
      split: if_splits option.splits)

lemma pg_claim_keeps:
  assumes "dict_wf t" "pg_idem_view service e t k = Some v"
  shows "pg_idem_view service e (snd (pg_claim service ttl e k h t)) k = Some v"
proof (cases "pg_claim service ttl e k h t")
  case (Pair r t')
  show ?thesis
  proof (cases r)
    case (Inl x)
    then have "t' = t" using Pair unfolding pg_claim_def by (auto dest: pg_run_Inl)
    then show ?thesis using Pair assms(2) by simp
  next
    case (Inr c)
    have "t' = filter (\<lambda>(k', row). \<not> (k' = (fst k, service, snd k) \<and> snd (snd row) \<le> pg_now e)) t"
      using pg_claim_view [OF assms(1) Pair [unfolded Inr]] assms(2) by (auto split: prod.splits)
    then show ?thesis using pg_claim_live [OF assms(1), of "(fst k, service, snd k)" "pg_now e"] assms(2) Pair
      by (auto simp: pg_idem_view_def simp del: map_of_eq_Some_iff split: option.splits if_splits)
  qed
qed

lemma pg_finish_records:
  "pg_finish jsonb service e k h st b t = (Inr (), t') \<Longrightarrow> pg_idem_view service later t k = Some (h, r) \<Longrightarrow>
    pg_idem_view service later t' k = Some (h, Some (st, jsonb b))"
  using pg_finish_get [of "(fst k, service, snd k)" h "Some (st, jsonb b)" t]
  by (auto simp: pg_finish_def pg_run_Inr pg_idem_view_def simp del: map_of_eq_Some_iff split: option.splits if_splits)

lemma pg_abandon_get:
  assumes "dict_wf t" "pg_abandon service e k h t = (Inr (), t')"
  shows "map_of t' (fst k, service, snd k) = (case map_of t (fst k, service, snd k) of None \<Rightarrow> None
    | Some row \<Rightarrow> if fst row = h \<and> fst (snd row) = None then None else Some row)"
proof -
  have "t' = filter (\<lambda>(k', row). \<not> (k' = (fst k, service, snd k) \<and> fst row = h \<and> fst (snd row) = None)) t"
    using assms(2) by (auto simp: pg_abandon_def pg_run_Inr intro!: filter_cong)
  then show ?thesis
    using assms(1) pg_filter_other [of "(fst k, service, snd k)" "\<lambda>row. fst row = h \<and> fst (snd row) = None" t]
    by simp
qed

interpretation pg_idem: idempotency_store "pg_claim service ttl" "pg_finish jsonb service" "pg_abandon service"
    dict_wf "pg_idem_view service" "\<lambda>e later. pg_now later < pg_now e + ttl" jsonb
  for service ttl jsonb
proof unfold_locales
  fix e e' :: pg_env and k :: idem_key and h h' :: string and t t' :: "'a idem_table"
  fix st and b :: 'a and c :: "'a claim_result" and r :: "(int \<times> 'a) option" and v and p :: "int \<times> 'a"
  show "dict_wf t \<Longrightarrow> dict_wf (snd (pg_claim service ttl e k h t))" by (rule pg_claim_wf)
  show "dict_wf t \<Longrightarrow> dict_wf (snd (pg_finish jsonb service e k h st b t))" by (rule pg_finish_wf)
  show "dict_wf t \<Longrightarrow> dict_wf (snd (pg_abandon service e k h t))" by (rule pg_abandon_wf)
  show "pg_claim service ttl e k h t = (Inr ClaimNew, t') \<Longrightarrow> pg_now e' < pg_now e + ttl \<Longrightarrow>
      pg_idem_view service e' t' k = Some (h, None)" by (rule pg_claim_new)
  show "dict_wf t \<Longrightarrow> pg_idem_view service e t k = None \<Longrightarrow> pg_claim service ttl e k h t = (Inr c, t') \<Longrightarrow> c = ClaimNew"
    using pg_claim_view [of t service ttl e k h c t'] by simp
  show "dict_wf t \<Longrightarrow> pg_idem_view service e t k = Some (h', r) \<Longrightarrow> pg_claim service ttl e k h t = (Inr c, t') \<Longrightarrow>
      c = (if h' \<noteq> h then ClaimConflict else case r of None \<Rightarrow> ClaimPending | Some (st, b) \<Rightarrow> ClaimCached st b)"
    using pg_claim_view [of t service ttl e k h c t'] by simp
  show "dict_wf t \<Longrightarrow> pg_idem_view service e t k = Some v \<Longrightarrow>
      pg_idem_view service e (snd (pg_claim service ttl e k h t)) k = Some v" by (rule pg_claim_keeps)
  show "pg_finish jsonb service e k h st b t = (Inr (), t') \<Longrightarrow> pg_idem_view service e' t k = Some (h, r) \<Longrightarrow>
      pg_idem_view service e' t' k = Some (h, Some (st, jsonb b))" by (rule pg_finish_records)
  show "dict_wf t \<Longrightarrow> pg_abandon service e k h t = (Inr (), t') \<Longrightarrow> pg_idem_view service e' t k = Some (h, None) \<Longrightarrow>
      pg_idem_view service e' t' k = None"
    using pg_abandon_get [of t service e k h t']
    by (auto simp: pg_idem_view_def simp del: map_of_eq_Some_iff split: option.splits if_splits)
  show "dict_wf t \<Longrightarrow> pg_abandon service e k h t = (Inr (), t') \<Longrightarrow> pg_idem_view service e' t k = Some (h, Some p) \<Longrightarrow>
      pg_idem_view service e' t' k = Some (h, Some p)"
    using pg_abandon_get [of t service e k h t']
    by (auto simp: pg_idem_view_def simp del: map_of_eq_Some_iff split: option.splits if_splits)
qed

section \<open>outbound\_authorization\<close>

record auth_row =
  au_id :: string
  au_tenant_id :: string
  au_decision_id :: string
  au_channel :: string
  au_nonce_hash :: string
  au_token_hash :: string
  au_issued_at :: int
  au_expires_at :: int
  au_consumed_at :: "real option"
  au_revoked_at :: "real option"

text \<open>The arguments of \<open>app.append_audit_event\<close>.\<close>

record pg_audit =
  pa_tenant_id :: string
  pa_actor_type :: string
  pa_actor_id :: string
  pa_action :: string
  pa_resource_type :: string
  pa_resource_id :: string
  pa_decision_id :: "string option"
  pa_reason_codes :: string
  pa_correlation_id :: string

text \<open>\<open>json.dumps\<close> of a list of strings.\<close>

definition reason_json :: "string list \<Rightarrow> string" where
  "reason_json rs = ''['' @ py_join '', '' (map json_quote rs) @ '']''"

record auth_db =
  ad_rows :: "auth_row list"
  ad_audit :: "pg_audit list"

text \<open>\<open>PostgresReplayLedger.register\<close>: id, nonce hash and token hash are unique columns.\<close>

definition pg_register :: "pg_env \<Rightarrow> claims \<Rightarrow> string \<Rightarrow> auth_db \<Rightarrow> unit res \<times> auth_db" where
  "pg_register e c token_hash = pg_run e (\<lambda>db.
     let nonce_hash = sha256_hexdigest (cl_jti c) in
     if \<exists>row \<in> set (ad_rows db). au_id row = cl_jti c \<or> au_nonce_hash row = nonce_hash \<or> au_token_hash row = token_hash
     then (raise DatabaseError ''UNIQUE_VIOLATION'', db)
     else (Inr (), db\<lparr>
       ad_rows := ad_rows db @
         [\<lparr>au_id = cl_jti c, au_tenant_id = cl_tenant_id c, au_decision_id = cl_decision_id c,
           au_channel = cl_channel c, au_nonce_hash = nonce_hash, au_token_hash = token_hash,
           au_issued_at = cl_iat c, au_expires_at = cl_exp c, au_consumed_at = None, au_revoked_at = None\<rparr>],
       ad_audit := ad_audit db @
         [\<lparr>pa_tenant_id = cl_tenant_id c, pa_actor_type = ''SERVICE'', pa_actor_id = ''policy-gateway'',
           pa_action = ''JIT_ISSUED'', pa_resource_type = ''OUTBOUND_AUTHORIZATION'', pa_resource_id = cl_jti c,
           pa_decision_id = Some (cl_decision_id c), pa_reason_codes = ''[\"SHORT_LIVED\",\"SINGLE_USE\"]'',
           pa_correlation_id = cl_decision_id c\<rparr>]\<rparr>))"

text \<open>The conditional update both consumers run, and whether it returned a row.\<close>

definition consumable :: "real \<Rightarrow> string \<Rightarrow> string \<Rightarrow> auth_row \<Rightarrow> bool" where
  "consumable now tenant nonce_hash row \<longleftrightarrow>
     au_tenant_id row = tenant \<and> au_nonce_hash row = nonce_hash \<and> au_consumed_at row = None \<and>
     au_revoked_at row = None \<and> now < of_int (au_expires_at row)"

definition update_consumed :: "real \<Rightarrow> claims \<Rightarrow> auth_row list \<Rightarrow> bool \<times> auth_row list" where
  "update_consumed now c rows =
     (let hit = consumable now (cl_tenant_id c) (sha256_hexdigest (cl_jti c)) in
      (list_ex hit rows, map (\<lambda>row. if hit row then row\<lparr>au_consumed_at := Some now\<rparr> else row) rows))"

text \<open>\<open>PostgresReplayLedger.consume\<close>.\<close>

definition pg_ledger_consume :: "pg_env \<Rightarrow> claims \<Rightarrow> auth_db \<Rightarrow> bool res \<times> auth_db" where
  "pg_ledger_consume e c = pg_run e (\<lambda>db.
     case update_consumed (pg_now e) c (ad_rows db) of (hit, rows) \<Rightarrow> (Inr hit, db\<lparr>ad_rows := rows\<rparr>))"

text \<open>\<open>PostgresTokenConsumer.consume\<close>: a first use is also an audit event of the same transaction.\<close>

definition pg_token_consume :: "pg_env \<Rightarrow> claims \<Rightarrow> auth_db \<Rightarrow> bool res \<times> auth_db" where
  "pg_token_consume e c = pg_run e (\<lambda>db.
     case update_consumed (pg_now e) c (ad_rows db) of
       (False, rows) \<Rightarrow> (Inr False, db\<lparr>ad_rows := rows\<rparr>)
     | (True, rows) \<Rightarrow> (Inr True, db\<lparr>ad_rows := rows,
         ad_audit := ad_audit db @
           [\<lparr>pa_tenant_id = cl_tenant_id c, pa_actor_type = ''SERVICE'', pa_actor_id = ''channel-adapter'',
             pa_action = ''JIT_CONSUMED'', pa_resource_type = ''OUTBOUND_AUTHORIZATION'', pa_resource_id = cl_jti c,
             pa_decision_id = Some (cl_decision_id c), pa_reason_codes = ''[\"FIRST_USE\"]'',
             pa_correlation_id = cl_decision_id c\<rparr>]\<rparr>))"

definition nonce_spent :: "auth_db \<Rightarrow> string \<Rightarrow> bool" where
  "nonce_spent db jti \<longleftrightarrow>
     (\<exists>row \<in> set (ad_rows db). au_nonce_hash row = sha256_hexdigest jti \<and> au_consumed_at row \<noteq> None)"

definition auth_db_ok :: "auth_db \<Rightarrow> bool" where
  "auth_db_ok db \<longleftrightarrow> distinct (map au_nonce_hash (ad_rows db)) \<and> distinct (map au_id (ad_rows db)) \<and>
     distinct (map au_token_hash (ad_rows db))"

lemma update_consumed_keys:
  "map au_nonce_hash (snd (update_consumed now c rows)) = map au_nonce_hash rows"
  "map au_id (snd (update_consumed now c rows)) = map au_id rows"
  "map au_token_hash (snd (update_consumed now c rows)) = map au_token_hash rows"
  by (auto simp: update_consumed_def Let_def)

lemma update_consumed_hit:
  assumes "fst (update_consumed now c rows)"
  shows "\<exists>row \<in> set (snd (update_consumed now c rows)).
    au_nonce_hash row = sha256_hexdigest (cl_jti c) \<and> au_consumed_at row \<noteq> None"
proof -
  obtain row where row: "row \<in> set rows" "consumable now (cl_tenant_id c) (sha256_hexdigest (cl_jti c)) row"
    using assms by (auto simp: update_consumed_def Let_def list_ex_iff)
  then have "row\<lparr>au_consumed_at := Some now\<rparr> \<in> set (snd (update_consumed now c rows))"
    by (auto simp: update_consumed_def Let_def intro!: rev_image_eqI [of row])
  then show ?thesis using row(2) by (auto simp: consumable_def intro!: bexI [of _ "row\<lparr>au_consumed_at := Some now\<rparr>"])
qed

lemma update_consumed_stays:
  assumes "row \<in> set rows" "au_consumed_at row \<noteq> None"
  shows "row \<in> set (snd (update_consumed now c rows))"
  using assms by (auto simp: update_consumed_def Let_def consumable_def intro!: rev_image_eqI [of row])

lemma update_consumed_refused:
  assumes "distinct (map au_nonce_hash rows)" "row \<in> set rows" "au_nonce_hash row = sha256_hexdigest (cl_jti c)"
    and "au_consumed_at row \<noteq> None"
  shows "\<not> fst (update_consumed now c rows)"
proof
  assume "fst (update_consumed now c rows)"
  then obtain x where x: "x \<in> set rows" "au_nonce_hash x = sha256_hexdigest (cl_jti c)" "au_consumed_at x = None"
    by (auto simp: update_consumed_def Let_def list_ex_iff consumable_def)
  moreover have "inj_on au_nonce_hash (set rows)" using assms(1) by (simp add: distinct_map)
  ultimately have "x = row" using assms(2,3) by (simp add: inj_on_def)
  with x assms(4) show False by simp
qed

lemma pg_register_ok: "auth_db_ok db \<Longrightarrow> auth_db_ok (snd (pg_register e c h db))"
  by (auto simp: auth_db_ok_def pg_register_def pg_run_def Let_def split: option.splits prod.splits sum.splits if_splits)

text \<open>Both consumers run the update, and a fault leaves the table as it was.\<close>

definition runs_update :: "(pg_env \<Rightarrow> claims \<Rightarrow> auth_db \<Rightarrow> bool res \<times> auth_db) \<Rightarrow> bool" where
  "runs_update consume \<longleftrightarrow> (\<forall>e c db.
     (\<exists>x. consume e c db = (Inl x, db)) \<or>
     fst (consume e c db) = Inr (fst (update_consumed (pg_now e) c (ad_rows db))) \<and>
     ad_rows (snd (consume e c db)) = snd (update_consumed (pg_now e) c (ad_rows db)))"

lemma ledger_runs_update: "runs_update pg_ledger_consume"
  by (auto simp: runs_update_def pg_ledger_consume_def pg_run_def split: option.splits prod.splits)

lemma token_runs_update: "runs_update pg_token_consume"
  by (auto simp: runs_update_def pg_token_consume_def pg_run_def split: option.splits prod.splits bool.splits sum.splits)

lemma runs_update_single_use:
  assumes "runs_update consume"
  shows "single_use consume auth_db_ok nonce_spent"
proof unfold_locales
  fix e :: pg_env and c :: claims and db :: auth_db and j :: string
  let ?u = "update_consumed (pg_now e) c (ad_rows db)"
  consider (fault) x where "consume e c db = (Inl x, db)"
    | (run) "fst (consume e c db) = Inr (fst ?u)" "ad_rows (snd (consume e c db)) = snd ?u"
    using assms unfolding runs_update_def by blast
  note cases = this
  show "auth_db_ok db \<Longrightarrow> auth_db_ok (snd (consume e c db))"
    by (cases rule: cases) (simp_all add: auth_db_ok_def update_consumed_keys)
  show "fst (consume e c db) = Inr True \<Longrightarrow> nonce_spent (snd (consume e c db)) (cl_jti c)"
    using update_consumed_hit [of "pg_now e" c "ad_rows db"] by (cases rule: cases) (simp_all add: nonce_spent_def)
  show "auth_db_ok db \<Longrightarrow> nonce_spent db (cl_jti c) \<Longrightarrow> fst (consume e c db) \<noteq> Inr True"
    using update_consumed_refused [of "ad_rows db" _ c "pg_now e"]
    by (cases rule: cases) (auto simp: nonce_spent_def auth_db_ok_def)
  show "nonce_spent db j \<Longrightarrow> nonce_spent (snd (consume e c db)) j"
    using update_consumed_stays [of _ "ad_rows db" "pg_now e" c] by (cases rule: cases) (auto simp: nonce_spent_def)
qed

interpretation pg_ledger: single_use pg_ledger_consume auth_db_ok nonce_spent
  by (rule runs_update_single_use [OF ledger_runs_update])

interpretation pg_token: single_use pg_token_consume auth_db_ok nonce_spent
  by (rule runs_update_single_use [OF token_runs_update])

text \<open>Every first use is on record: acceptances and JIT\_CONSUMED events go together.\<close>

lemma pg_token_consume_audit:
  "pg_token_consume e c db = (Inr hit, db') \<Longrightarrow>
    map pa_resource_id (ad_audit db') = map pa_resource_id (ad_audit db) @ (if hit then [cl_jti c] else [])"
  by (auto simp: pg_token_consume_def pg_run_Inr split: prod.splits bool.splits)

section \<open>webhook\_receipt\<close>

record receipt_row =
  wr_id :: string
  wr_tenant_id :: string
  wr_provider :: string
  wr_event_id :: string
  wr_body_hash :: string
  wr_correlation_id :: string

text \<open>\<open>PostgresWebhookInbox.remember\<close>; the two fresh identifiers are arguments.\<close>

definition pg_inbox_remember ::
  "string \<Rightarrow> pg_env \<times> string \<times> string \<Rightarrow> string \<Rightarrow> string \<Rightarrow> string \<Rightarrow> receipt_row list \<Rightarrow> bool res \<times> receipt_row list" where
  "pg_inbox_remember tenant env provider event_id body_hash =
     (case env of (e, row_id, correlation) \<Rightarrow> pg_run e (\<lambda>rows.
        if \<exists>row \<in> set rows. wr_tenant_id row = tenant \<and> wr_provider row = provider \<and> wr_event_id row = event_id
        then (Inr False, rows)
        else (Inr True, rows @ [\<lparr>wr_id = row_id, wr_tenant_id = tenant, wr_provider = provider,
          wr_event_id = event_id, wr_body_hash = body_hash, wr_correlation_id = correlation\<rparr>])))"

end
