(* ===== verification/Workflow.thy ===== *)
theory Workflow
  imports Contracts Token Stores
begin

text \<open>
  services/orchestrator/app/workflow.py: the state of a sales run, the deterministic engine
  with its checkpoints, human actions and outbox, and the restoration of a run from its
  checkpoints. Fresh identifiers and clock readings are arguments.
\<close>

section \<open>Runs\<close>

datatype stage = QUALIFY | PREPARE | APPROVE | CONTACT | CONVERSE | HANDOFF | CLOSE

fun stage_value :: "stage \<Rightarrow> string" where
  "stage_value QUALIFY = ''QUALIFY''"
| "stage_value PREPARE = ''PREPARE''"
| "stage_value APPROVE = ''APPROVE''"
| "stage_value CONTACT = ''CONTACT''"
| "stage_value CONVERSE = ''CONVERSE''"
| "stage_value HANDOFF = ''HANDOFF''"
| "stage_value CLOSE = ''CLOSE''"

definition stage_order :: "stage list" where
  "stage_order = [QUALIFY, PREPARE, APPROVE, CONTACT, CONVERSE, HANDOFF, CLOSE]"

text \<open>\<open>Stage(value)\<close> and \<open>order.index(stage)\<close>.\<close>

definition stage_of :: "string \<Rightarrow> stage option" where
  "stage_of s = find (\<lambda>x. stage_value x = s) stage_order"

definition stage_index :: "stage \<Rightarrow> nat" where
  "stage_index s = length (takeWhile (\<lambda>x. x \<noteq> s) stage_order)"

definition next_stage :: "stage \<Rightarrow> stage" where
  "next_stage s = stage_order ! min (stage_index s + 1) (length stage_order - 1)"

record run_state =
  rn_tenant_id :: string
  rn_run_id :: string
  rn_campaign_version_id :: string
  rn_contact_id :: string
  rn_stage :: stage
  rn_status :: string
  rn_facts :: "json list"
  rn_policy_decision_id :: "string option"
  rn_pending_human_action_id :: "string option"
  rn_attempts :: "(string \<times> json) list"
  rn_last_event_id :: "string option"
  rn_next_action :: "(string \<times> json) list"
  rn_schema_version :: int
  rn_workflow_version :: string
  rn_checkpoint_no :: int

text \<open>\<open>SalesRunState(tenant, run, campaign_version, contact)\<close>: the defaults of the class.\<close>

definition new_run :: "string \<Rightarrow> string \<Rightarrow> string \<Rightarrow> string \<Rightarrow> run_state" where
  "new_run tenant_id run_id campaign_version_id contact_id =
     \<lparr>rn_tenant_id = tenant_id, rn_run_id = run_id, rn_campaign_version_id = campaign_version_id,
      rn_contact_id = contact_id, rn_stage = QUALIFY, rn_status = ''RUNNING'', rn_facts = [],
      rn_policy_decision_id = None, rn_pending_human_action_id = None, rn_attempts = [],
      rn_last_event_id = None, rn_next_action = [], rn_schema_version = 1,
      rn_workflow_version = ''sales-graph@1'', rn_checkpoint_no = 0\<rparr>"

definition str_or_null :: "string option \<Rightarrow> json" where
  "str_or_null s = (case s of None \<Rightarrow> JNull | Some t \<Rightarrow> JStr t)"

text \<open>\<open>asdict(state)\<close>.\<close>

definition run_dict :: "run_state \<Rightarrow> (string \<times> json) list" where
  "run_dict s =
     [(''tenant_id'', JStr (rn_tenant_id s)), (''run_id'', JStr (rn_run_id s)),
      (''campaign_version_id'', JStr (rn_campaign_version_id s)), (''contact_id'', JStr (rn_contact_id s)),
      (''stage'', JStr (stage_value (rn_stage s))), (''status'', JStr (rn_status s)),
      (''facts'', JList (rn_facts s)), (''policy_decision_id'', str_or_null (rn_policy_decision_id s)),
      (''pending_human_action_id'', str_or_null (rn_pending_human_action_id s)),
      (''attempts'', JObj (rn_attempts s)), (''last_event_id'', str_or_null (rn_last_event_id s)),
      (''next_action'', JObj (rn_next_action s)), (''schema_version'', JInt (rn_schema_version s)),
      (''workflow_version'', JStr (rn_workflow_version s)), (''checkpoint_no'', JInt (rn_checkpoint_no s))]"

definition run_fields :: "string list" where
  "run_fields = [''tenant_id'', ''run_id'', ''campaign_version_id'', ''contact_id'', ''stage'', ''status'', ''facts'',
     ''policy_decision_id'', ''pending_human_action_id'', ''attempts'', ''last_event_id'', ''next_action'',
     ''schema_version'', ''workflow_version'', ''checkpoint_no'']"

section \<open>The engine\<close>

record human_action =
  ha_id :: string
  ha_status :: string
  ha_subject_hash :: json
  ha_expires_at :: datetime
  ha_actor_id :: "string option"

record outbox_item =
  oi_id :: string
  oi_tenant_id :: string
  oi_run_id :: string
  oi_idempotency_key :: string
  oi_effect :: json
  oi_status :: string
  oi_cancel_reason :: "string option"

record wf_engine =
  we_checkpoints :: "(string, json list) dict"
  we_outbox :: "(string, outbox_item) dict"
  we_processed_events :: "string set"
  we_human_actions :: "(string, human_action) dict"

definition engine_init :: wf_engine where
  "engine_init = \<lparr>we_checkpoints = [], we_outbox = [], we_processed_events = {}, we_human_actions = []\<rparr>"

definition checkpoint_of :: "run_state \<Rightarrow> json" where
  "checkpoint_of s = JObj (run_dict s @ [(''state_hash'', JStr (sha256_hex (JObj (run_dict s))))])"

definition checkpoints_for :: "wf_engine \<Rightarrow> string \<Rightarrow> json list" where
  "checkpoints_for e run_id = (case map_of (we_checkpoints e) run_id of None \<Rightarrow> [] | Some cs \<Rightarrow> cs)"

definition wf_checkpoint :: "run_state \<Rightarrow> wf_engine \<Rightarrow> run_state \<times> wf_engine" where
  "wf_checkpoint s e =
     (let s' = s\<lparr>rn_checkpoint_no := rn_checkpoint_no s + 1\<rparr> in
      (s', e\<lparr>we_checkpoints :=
         dict_set (rn_run_id s') (checkpoints_for e (rn_run_id s') @ [checkpoint_of s']) (we_checkpoints e)\<rparr>))"

definition wf_start :: "string \<Rightarrow> string \<Rightarrow> string \<Rightarrow> string \<Rightarrow> wf_engine \<Rightarrow> run_state \<times> wf_engine" where
  "wf_start run_id tenant_id campaign_version_id contact_id e =
     wf_checkpoint (new_run tenant_id run_id campaign_version_id contact_id) e"

text \<open>24 hours, in microseconds.\<close>

definition day_us :: int where
  "day_us = 24 * 60 * 60 * 1000000"

text \<open>
  \<open>(payload or {}).get(key, default)\<close>: a payload that counts as false is an empty object, and any other payload that is no
  object has no \<open>get\<close>.
\<close>

definition payload_get :: "json \<Rightarrow> string \<Rightarrow> json \<Rightarrow> json res" where
  "payload_get payload key d =
     (case payload of
        JObj kvs \<Rightarrow> Inr (case map_of kvs key of None \<Rightarrow> d | Some v \<Rightarrow> v)
      | _ \<Rightarrow> if truthy payload then raise AttributeError ''get'' else Inr d)"

definition wf_transition ::
  "string \<Rightarrow> datetime \<Rightarrow> run_state \<Rightarrow> string \<Rightarrow> json \<Rightarrow> wf_engine \<Rightarrow> run_state res \<times> wf_engine" where
  "wf_transition action_id now s event_id payload e =
     (if event_id \<in> we_processed_events e then (Inr s, e)
      else if rn_status s \<noteq> ''RUNNING'' then (raise ValueError ''RUN_NOT_ACTIVE'', e)
      else
        (let e1 = e\<lparr>we_processed_events := insert event_id (we_processed_events e)\<rparr>;
             r = (if rn_stage s = APPROVE
                  then rbind (payload_get payload ''subject_hash'' JNull) (\<lambda>subject_hash. Inr
                       (s\<lparr>rn_status := ''WAITING_HUMAN'', rn_pending_human_action_id := Some action_id,
                          rn_last_event_id := Some event_id\<rparr>,
                        e1\<lparr>we_human_actions := dict_set action_id
                          \<lparr>ha_id = action_id, ha_status = ''PENDING'', ha_subject_hash = subject_hash,
                           ha_expires_at = now + day_us, ha_actor_id = None\<rparr> (we_human_actions e1)\<rparr>))
                  else Inr (s\<lparr>rn_stage := next_stage (rn_stage s), rn_last_event_id := Some event_id\<rparr>, e1))
         in case r of
              Inl x \<Rightarrow> (Inl x, e1)
            | Inr (s1, e2) \<Rightarrow> (case wf_checkpoint s1 e2 of (s', e') \<Rightarrow> (Inr s', e'))))"

definition wf_decide_human_action ::
  "run_state \<Rightarrow> string \<Rightarrow> bool \<Rightarrow> string \<Rightarrow> json \<Rightarrow> wf_engine \<Rightarrow> run_state res \<times> wf_engine" where
  "wf_decide_human_action s action_id approved actor_id subject_hash e =
     (case map_of (we_human_actions e) action_id of
        None \<Rightarrow> (raise ValueError ''HUMAN_ACTION_NOT_PENDING'', e)
      | Some action \<Rightarrow>
          if ha_status action \<noteq> ''PENDING'' then (raise ValueError ''HUMAN_ACTION_NOT_PENDING'', e)
          else if ha_subject_hash action \<noteq> subject_hash then (raise ValueError ''HUMAN_ACTION_HASH_MISMATCH'', e)
          else
            (let e1 = e\<lparr>we_human_actions := dict_set action_id
                   (action\<lparr>ha_status := (if approved then ''APPROVED'' else ''REJECTED''), ha_actor_id := Some actor_id\<rparr>)
                   (we_human_actions e)\<rparr>;
                 s1 = (if approved
                       then s\<lparr>rn_status := ''RUNNING'', rn_stage := CONTACT, rn_pending_human_action_id := None\<rparr>
                       else s\<lparr>rn_status := ''BLOCKED'', rn_pending_human_action_id := None\<rparr>)
             in case wf_checkpoint s1 e1 of (s', e') \<Rightarrow> (Inr s', e')))"

text \<open>One state of the loop of \<open>expire_human_actions\<close>, then the loop over the states given.\<close>

definition wf_expire_one :: "datetime \<Rightarrow> run_state \<Rightarrow> wf_engine \<Rightarrow> run_state option \<times> wf_engine" where
  "wf_expire_one clock s e =
     (let action_id = (case rn_pending_human_action_id s of None \<Rightarrow> [] | Some a \<Rightarrow> a) in
      case map_of (we_human_actions e) action_id of
        None \<Rightarrow> (None, e)
      | Some action \<Rightarrow>
          if ha_status action = ''PENDING'' \<and> ha_expires_at action \<le> clock
          then (case wf_checkpoint (s\<lparr>rn_status := ''BLOCKED'', rn_pending_human_action_id := None\<rparr>)
                  (e\<lparr>we_human_actions := dict_set action_id (action\<lparr>ha_status := ''EXPIRED''\<rparr>) (we_human_actions e)\<rparr>) of
                  (s', e') \<Rightarrow> (Some s', e'))
          else (None, e))"

fun wf_expire ::
  "datetime \<Rightarrow> (string, run_state) dict \<Rightarrow> wf_engine \<Rightarrow> run_state list \<times> (string, run_state) dict \<times> wf_engine" where
  "wf_expire clock [] e = ([], [], e)"
| "wf_expire clock ((run_id, s) # rest) e =
     (case wf_expire_one clock s e of
        (r, e1) \<Rightarrow> (case wf_expire clock rest e1 of (changed, states, e2) \<Rightarrow>
          (case r of None \<Rightarrow> (changed, (run_id, s) # states, e2)
                   | Some s' \<Rightarrow> (s' # changed, (run_id, s') # states, e2))))"

definition wf_cancel_pending_effects :: "string \<Rightarrow> string \<Rightarrow> wf_engine \<Rightarrow> nat \<times> wf_engine" where
  "wf_cancel_pending_effects run_id reason e =
     (let hit = (\<lambda>item. oi_run_id item = run_id \<and> oi_status item = ''PENDING'') in
      (length (filter (hit \<circ> snd) (we_outbox e)),
       e\<lparr>we_outbox := map (\<lambda>(k, item).
          (k, if hit item then item\<lparr>oi_status := ''CANCELLED'', oi_cancel_reason := Some reason\<rparr> else item)) (we_outbox e)\<rparr>))"

definition wf_enqueue_effect :: "string \<Rightarrow> run_state \<Rightarrow> json \<Rightarrow> string \<Rightarrow> wf_engine \<Rightarrow> outbox_item \<times> wf_engine" where
  "wf_enqueue_effect item_id s effect idempotency_key e =
     (case map_of (we_outbox e) idempotency_key of
        Some existing \<Rightarrow> (existing, e)
      | None \<Rightarrow>
          (let item = \<lparr>oi_id = item_id, oi_tenant_id = rn_tenant_id s, oi_run_id = rn_run_id s,
                 oi_idempotency_key = idempotency_key, oi_effect = effect, oi_status = ''PENDING'', oi_cancel_reason = None\<rparr>
           in (item, e\<lparr>we_outbox := dict_set idempotency_key item (we_outbox e)\<rparr>)))"

section \<open>Restoring a run\<close>

definition opt_json_str :: "json \<Rightarrow> string option option" where
  "opt_json_str j = (case j of JNull \<Rightarrow> Some None | JStr s \<Rightarrow> Some (Some s) | _ \<Rightarrow> None)"

fun json_list :: "json \<Rightarrow> json list option" where
  "json_list (JList xs) = Some xs"
| "json_list _ = None"

fun json_obj :: "json \<Rightarrow> (string \<times> json) list option" where
  "json_obj (JObj kvs) = Some kvs"
| "json_obj _ = None"

text \<open>
  \<open>Stage(last["stage"])\<close>, then \<open>SalesRunState(**last)\<close>: an unknown or missing field or a value
  of another type than the class declares is a \<open>TypeError\<close>; the other fields have defaults.
\<close>

definition run_of :: "(string \<times> json) list \<Rightarrow> run_state res" where
  "run_of kvs =
     rbind (of_option (Exn KeyError ''stage'') (map_of kvs ''stage'')) (\<lambda>stage_json.
     rbind (of_option (Exn ValueError ''is not a valid Stage'') (Option.bind (json_str stage_json) stage_of)) (\<lambda>stage.
       let field = (\<lambda>k d. case map_of kvs k of None \<Rightarrow> d | Some v \<Rightarrow> v);
           fail = Inl (Exn TypeError ''SalesRunState'')
       in if \<not> set (map fst kvs) \<subseteq> set run_fields then fail
          else case (json_str (field ''tenant_id'' JNull), json_str (field ''run_id'' JNull),
                     json_str (field ''campaign_version_id'' JNull), json_str (field ''contact_id'' JNull),
                     json_str (field ''status'' (JStr ''RUNNING'')), json_list (field ''facts'' (JList []))) of
            (Some tenant, Some run, Some version, Some contact, Some status, Some facts) \<Rightarrow>
              (case (opt_json_str (field ''policy_decision_id'' JNull), opt_json_str (field ''pending_human_action_id'' JNull),
                     json_obj (field ''attempts'' (JObj [])), opt_json_str (field ''last_event_id'' JNull),
                     json_obj (field ''next_action'' (JObj [])), json_int (field ''schema_version'' (JInt 1)),
                     json_str (field ''workflow_version'' (JStr ''sales-graph@1'')), json_int (field ''checkpoint_no'' (JInt 0))) of
                 (Some decision, Some pending, Some attempts, Some last_event, Some next_action, Some schema, Some wv, Some no) \<Rightarrow>
                   Inr \<lparr>rn_tenant_id = tenant, rn_run_id = run, rn_campaign_version_id = version, rn_contact_id = contact,
                     rn_stage = stage, rn_status = status, rn_facts = facts, rn_policy_decision_id = decision,
                     rn_pending_human_action_id = pending, rn_attempts = attempts, rn_last_event_id = last_event,
                     rn_next_action = next_action, rn_schema_version = schema, rn_workflow_version = wv, rn_checkpoint_no = no\<rparr>
               | _ \<Rightarrow> fail)
          | _ \<Rightarrow> fail))"

text \<open>The loop over the checkpoints; each is a dictionary.\<close>

fun check_checkpoints :: "int \<Rightarrow> (string \<times> json) list list \<Rightarrow> unit res" where
  "check_checkpoints previous_no [] = Inr ()"
| "check_checkpoints previous_no (checkpoint # rest) =
     (let body = dict_pop ''state_hash'' checkpoint in
      if map_of checkpoint ''state_hash'' \<noteq> Some (JStr (sha256_hex (JObj body)))
      then raise ValueError ''CHECKPOINT_HASH_INVALID''
      else (case map_of body ''checkpoint_no'' of
              None \<Rightarrow> raise KeyError ''checkpoint_no''
            | Some no \<Rightarrow>
                if no \<noteq> JInt (previous_no + 1) then raise ValueError ''CHECKPOINT_SEQUENCE_INVALID''
                else (case map_of body ''workflow_version'' of
                        None \<Rightarrow> raise KeyError ''workflow_version''
                      | Some v \<Rightarrow>
                          if v \<noteq> JStr ''sales-graph@1'' then raise ValueError ''WORKFLOW_VERSION_UNAVAILABLE''
                          else check_checkpoints (previous_no + 1) rest)))"

definition wf_restore :: "(string \<times> json) list list \<Rightarrow> wf_engine \<Rightarrow> run_state res \<times> wf_engine" where
  "wf_restore checkpoints e =
     (if checkpoints = [] then (raise ValueError ''CHECKPOINTS_REQUIRED'', e)
      else (case rbind (check_checkpoints 0 checkpoints) (\<lambda>_. run_of (dict_pop ''state_hash'' (last checkpoints))) of
              Inl x \<Rightarrow> (Inl x, e)
            | Inr s \<Rightarrow> (Inr s, e\<lparr>we_checkpoints := dict_set (rn_run_id s) (map JObj checkpoints) (we_checkpoints e)\<rparr>)))"

section \<open>Runs of the engine\<close>

text \<open>
  The engine with the states its caller holds, one per run: what the orchestrator keeps in
  memory mode. A caller may also forget a run (its store of runs is bounded). Identifiers from
  \<open>uuid4\<close> are fresh.
\<close>

record wf_world =
  ww_engine :: wf_engine
  ww_runs :: "(string, run_state) dict"

inductive wf_step :: "wf_world \<Rightarrow> wf_world \<Rightarrow> bool" where
  start: "map_of (we_checkpoints (ww_engine w)) run_id = None \<Longrightarrow>
    wf_start run_id tenant version contact (ww_engine w) = (s, e) \<Longrightarrow>
    wf_step w \<lparr>ww_engine = e, ww_runs = dict_set run_id s (ww_runs w)\<rparr>"
| transition: "map_of (ww_runs w) run_id = Some s \<Longrightarrow> map_of (we_human_actions (ww_engine w)) action_id = None \<Longrightarrow>
    wf_transition action_id now s event payload (ww_engine w) = (Inr s', e) \<Longrightarrow>
    wf_step w \<lparr>ww_engine = e, ww_runs = dict_set run_id s' (ww_runs w)\<rparr>"
| failed: "map_of (ww_runs w) run_id = Some s \<Longrightarrow> map_of (we_human_actions (ww_engine w)) action_id = None \<Longrightarrow>
    wf_transition action_id now s event payload (ww_engine w) = (Inl x, e) \<Longrightarrow> wf_step w (w\<lparr>ww_engine := e\<rparr>)"
| decide: "map_of (ww_runs w) run_id = Some s \<Longrightarrow>
    wf_decide_human_action s action_id approved actor hash (ww_engine w) = (Inr s', e) \<Longrightarrow>
    wf_step w \<lparr>ww_engine = e, ww_runs = dict_set run_id s' (ww_runs w)\<rparr>"
| expire: "map_of (ww_runs w) run_id = Some s \<Longrightarrow> wf_expire_one clock s (ww_engine w) = (Some s', e) \<Longrightarrow>
    wf_step w \<lparr>ww_engine = e, ww_runs = dict_set run_id s' (ww_runs w)\<rparr>"
| enqueue: "map_of (ww_runs w) run_id = Some s \<Longrightarrow> wf_enqueue_effect item_id s effect key (ww_engine w) = (item, e) \<Longrightarrow>
    wf_step w (w\<lparr>ww_engine := e\<rparr>)"
| cancel: "wf_cancel_pending_effects run_id reason (ww_engine w) = (n, e) \<Longrightarrow> wf_step w (w\<lparr>ww_engine := e\<rparr>)"
| forget: "wf_step w (w\<lparr>ww_runs := dict_pop run_id (ww_runs w)\<rparr>)"

inductive wf_reachable :: "wf_world \<Rightarrow> bool" where
  init: "wf_reachable \<lparr>ww_engine = engine_init, ww_runs = []\<rparr>"
| step: "wf_reachable w \<Longrightarrow> wf_step w w' \<Longrightarrow> wf_reachable w'"

text \<open>The history of a run: its checkpoints are those of a sequence of states numbered from one.\<close>

definition history :: "run_state list \<Rightarrow> bool" where
  "history ss \<longleftrightarrow> ss \<noteq> [] \<and> (\<forall>i < length ss. rn_checkpoint_no (ss ! i) = int i + 1 \<and>
     rn_workflow_version (ss ! i) = ''sales-graph@1'')"

definition past_approval :: "stage \<Rightarrow> bool" where
  "past_approval s \<longleftrightarrow> s \<in> {CONTACT, CONVERSE, HANDOFF, CLOSE}"

definition some_approved :: "wf_engine \<Rightarrow> bool" where
  "some_approved e \<longleftrightarrow> (\<exists>a x. map_of (we_human_actions e) a = Some x \<and> ha_status x = ''APPROVED'')"

definition run_ok :: "wf_engine \<Rightarrow> string \<Rightarrow> run_state \<Rightarrow> bool" where
  "run_ok e run_id s \<longleftrightarrow> rn_run_id s = run_id \<and>
     (\<exists>ss. checkpoints_for e run_id = map checkpoint_of ss \<and> history ss \<and> last ss = s) \<and>
     (past_approval (rn_stage s) \<longrightarrow> some_approved e)"

definition world_ok :: "wf_world \<Rightarrow> bool" where
  "world_ok w \<longleftrightarrow> (\<forall>run_id s. map_of (ww_runs w) run_id = Some s \<longrightarrow> run_ok (ww_engine w) run_id s)"

text \<open>The common form of the operations on a run: some changes that keep the identity, then a checkpoint.\<close>

lemma wf_checkpoint_other:
  "wf_checkpoint s e = (s', e') \<Longrightarrow> run_id \<noteq> rn_run_id s \<Longrightarrow> checkpoints_for e' run_id = checkpoints_for e run_id"
  by (auto simp: wf_checkpoint_def Let_def checkpoints_for_def dict_simps)

lemma wf_checkpoint_same:
  "wf_checkpoint s e = (s', e') \<Longrightarrow> checkpoints_for e' (rn_run_id s) = checkpoints_for e (rn_run_id s) @ [checkpoint_of s']"
  by (auto simp: wf_checkpoint_def Let_def checkpoints_for_def dict_simps)

lemma wf_checkpoint_fields:
  assumes "wf_checkpoint s e = (s', e')"
  shows "s' = s\<lparr>rn_checkpoint_no := rn_checkpoint_no s + 1\<rparr>" "we_human_actions e' = we_human_actions e"
    "we_processed_events e' = we_processed_events e" "we_outbox e' = we_outbox e"
  using assms by (auto simp: wf_checkpoint_def Let_def)

lemma checkpoints_for_cong [simp]:
  "checkpoints_for (e\<lparr>we_processed_events := p\<rparr>) r = checkpoints_for e r"
  "checkpoints_for (e\<lparr>we_human_actions := h\<rparr>) r = checkpoints_for e r"
  "checkpoints_for (e\<lparr>we_outbox := q\<rparr>) r = checkpoints_for e r"
  by (simp_all add: checkpoints_for_def)

lemma history_extend:
  assumes "history ss" "rn_checkpoint_no s' = rn_checkpoint_no (last ss) + 1" "rn_workflow_version s' = ''sales-graph@1''"
  shows "history (ss @ [s'])"
proof -
  have "rn_checkpoint_no (last ss) = int (length ss)"
    using assms(1) by (cases ss rule: rev_cases) (auto simp: history_def nth_append)
  then show ?thesis using assms by (auto simp: history_def nth_append less_Suc_eq)
qed

lemma history_version: "history ss \<Longrightarrow> rn_workflow_version (last ss) = ''sales-graph@1''"
  by (auto simp: history_def last_conv_nth)

text \<open>One checkpointed update of a run keeps the invariant of every run.\<close>

lemma checkpointed_update:
  assumes ok: "world_ok w" and s: "map_of (ww_runs w) run_id = Some s"
    and eng: "\<And>r. checkpoints_for eng r = checkpoints_for (ww_engine w) r"
    and keep: "some_approved (ww_engine w) \<Longrightarrow> some_approved eng"
    and upd: "rn_run_id upd = rn_run_id s" "rn_checkpoint_no upd = rn_checkpoint_no s" "rn_workflow_version upd = rn_workflow_version s"
      "past_approval (rn_stage upd) \<Longrightarrow> past_approval (rn_stage s) \<or> some_approved eng"
    and c: "wf_checkpoint upd eng = (s', e')"
  shows "world_ok \<lparr>ww_engine = e', ww_runs = dict_set run_id s' (ww_runs w)\<rparr>"
proof -
  have r: "run_ok (ww_engine w) run_id s" using ok s by (simp add: world_ok_def)
  then obtain ss where ss: "checkpoints_for (ww_engine w) run_id = map checkpoint_of ss" "history ss" "last ss = s"
    by (auto simp: run_ok_def)
  have id: "rn_run_id s = run_id" using r by (simp add: run_ok_def)
  note f = wf_checkpoint_fields [OF c]
  have keep': "some_approved e' = some_approved eng" by (simp add: some_approved_def f)
  have "history (ss @ [s'])" using ss upd f(1) history_version [OF ss(2)] by (intro history_extend) auto
  moreover have "checkpoints_for e' run_id = map checkpoint_of (ss @ [s'])"
    using wf_checkpoint_same [OF c] upd(1) id ss(1) eng by simp
  moreover have "past_approval (rn_stage s') \<Longrightarrow> some_approved e'"
    using f(1) upd(4) r keep keep' by (auto simp: run_ok_def)
  ultimately have new: "run_ok e' run_id s'" using f(1) upd(1) id unfolding run_ok_def
    by (metis last_snoc run_state.select_convs(2) run_state.surjective run_state.update_convs(15))
  have "run_ok e' j t" if "map_of (ww_runs w) j = Some t" "j \<noteq> run_id" for j t
  proof -
    have "run_ok (ww_engine w) j t" using ok that by (simp add: world_ok_def)
    moreover have "checkpoints_for e' j = checkpoints_for (ww_engine w) j"
      using wf_checkpoint_other [OF c] that(2) upd(1) id eng by simp
    ultimately show ?thesis using keep keep' by (auto simp: run_ok_def)
  qed
  with new show ?thesis by (auto simp: world_ok_def dict_simps simp del: map_of_eq_Some_iff)
qed

lemma next_stage_past: "st \<noteq> APPROVE \<Longrightarrow> past_approval (next_stage st) \<Longrightarrow> past_approval st"
  by (cases st) (simp_all add: past_approval_def next_stage_def stage_index_def stage_order_def)

lemma some_approved_upd:
  assumes "some_approved e" "\<And>y. map_of (we_human_actions e) a = Some y \<Longrightarrow> ha_status y \<noteq> ''APPROVED''"
  shows "some_approved (e\<lparr>we_human_actions := dict_set a x (we_human_actions e)\<rparr>)"
proof -
  obtain b y where y: "map_of (we_human_actions e) b = Some y" "ha_status y = ''APPROVED''"
    using assms(1) by (auto simp: some_approved_def)
  then have "b \<noteq> a" using assms(2) by blast
  with y show ?thesis by (auto simp: some_approved_def dict_simps intro!: exI [of _ b])
qed

lemma transition_ok:
  assumes "world_ok w" "map_of (ww_runs w) run_id = Some s" "map_of (we_human_actions (ww_engine w)) action_id = None"
    and t: "wf_transition action_id now s event payload (ww_engine w) = (Inr s', e)"
  shows "world_ok \<lparr>ww_engine = e, ww_runs = dict_set run_id s' (ww_runs w)\<rparr>"
proof (cases "event \<in> we_processed_events (ww_engine w)")
  case True
  then show ?thesis using assms by (auto simp: wf_transition_def world_ok_def dict_simps simp del: map_of_eq_Some_iff)
next
  case False
  then have run: "rn_status s = ''RUNNING''" using t by (auto simp: wf_transition_def split: if_splits)
  let ?e1 = "(ww_engine w)\<lparr>we_processed_events := insert event (we_processed_events (ww_engine w))\<rparr>"
  show ?thesis
  proof (cases "rn_stage s = APPROVE")
    case True
    obtain h where h: "payload_get payload ''subject_hash'' JNull = Inr h"
      using t False run True by (cases "payload_get payload ''subject_hash'' JNull") (simp_all add: wf_transition_def Let_def)
    let ?x = "\<lparr>ha_id = action_id, ha_status = ''PENDING'', ha_subject_hash = h, ha_expires_at = now + day_us, ha_actor_id = None\<rparr>"
    let ?e2 = "?e1\<lparr>we_human_actions := dict_set action_id ?x (we_human_actions ?e1)\<rparr>"
    let ?s1 = "s\<lparr>rn_status := ''WAITING_HUMAN'', rn_pending_human_action_id := Some action_id, rn_last_event_id := Some event\<rparr>"
    have c: "wf_checkpoint ?s1 ?e2 = (s', e)"
      using t False run True h by (simp add: wf_transition_def Let_def split: prod.splits)
    show ?thesis
    proof (rule checkpointed_update [OF assms(1,2) _ _ _ _ _ _ c])
      show "some_approved (ww_engine w) \<Longrightarrow> some_approved ?e2"
        using assms(3) by (intro some_approved_upd) (simp_all add: some_approved_def)
    qed (simp_all add: True past_approval_def)
  next
    case stage: False
    let ?s1 = "s\<lparr>rn_stage := next_stage (rn_stage s), rn_last_event_id := Some event\<rparr>"
    have c: "wf_checkpoint ?s1 ?e1 = (s', e)"
      using t False run stage by (simp add: wf_transition_def Let_def split: prod.splits)
    show ?thesis
      by (rule checkpointed_update [OF assms(1,2) _ _ _ _ _ _ c])
        (use next_stage_past [OF stage] in \<open>auto simp: some_approved_def\<close>)
  qed
qed

lemma decide_ok:
  assumes "world_ok w" "map_of (ww_runs w) run_id = Some s"
    and t: "wf_decide_human_action s action_id approved actor hash (ww_engine w) = (Inr s', e)"
  shows "world_ok \<lparr>ww_engine = e, ww_runs = dict_set run_id s' (ww_runs w)\<rparr>"
proof -
  obtain x where x: "map_of (we_human_actions (ww_engine w)) action_id = Some x" "ha_status x = ''PENDING''"
    using t by (auto simp: wf_decide_human_action_def simp del: map_of_eq_Some_iff split: option.splits if_splits)
  let ?x = "x\<lparr>ha_status := (if approved then ''APPROVED'' else ''REJECTED''), ha_actor_id := Some actor\<rparr>"
  let ?e1 = "(ww_engine w)\<lparr>we_human_actions := dict_set action_id ?x (we_human_actions (ww_engine w))\<rparr>"
  let ?s1 = "if approved then s\<lparr>rn_status := ''RUNNING'', rn_stage := CONTACT, rn_pending_human_action_id := None\<rparr>
    else s\<lparr>rn_status := ''BLOCKED'', rn_pending_human_action_id := None\<rparr>"
  have c: "wf_checkpoint ?s1 ?e1 = (s', e)"
    using t x by (simp add: wf_decide_human_action_def Let_def split: prod.splits if_splits)
  have new: "approved \<Longrightarrow> some_approved ?e1" by (auto simp: some_approved_def dict_simps)
  show ?thesis
  proof (rule checkpointed_update [OF assms(1,2) _ _ _ _ _ _ c])
    show "some_approved (ww_engine w) \<Longrightarrow> some_approved ?e1"
      using x by (intro some_approved_upd) simp_all
    show "past_approval (rn_stage ?s1) \<Longrightarrow> past_approval (rn_stage s) \<or> some_approved ?e1" using new by auto
  qed simp_all
qed

lemma expire_ok:
  assumes "world_ok w" "map_of (ww_runs w) run_id = Some s" "wf_expire_one clock s (ww_engine w) = (Some s', e)"
  shows "world_ok \<lparr>ww_engine = e, ww_runs = dict_set run_id s' (ww_runs w)\<rparr>"
proof -
  let ?a = "case rn_pending_human_action_id s of None \<Rightarrow> [] | Some a \<Rightarrow> a"
  obtain x where x: "map_of (we_human_actions (ww_engine w)) ?a = Some x" "ha_status x = ''PENDING''"
    using assms(3) by (auto simp: wf_expire_one_def Let_def simp del: map_of_eq_Some_iff split: option.splits if_splits)
  let ?e1 = "(ww_engine w)\<lparr>we_human_actions := dict_set ?a (x\<lparr>ha_status := ''EXPIRED''\<rparr>) (we_human_actions (ww_engine w))\<rparr>"
  have c: "wf_checkpoint (s\<lparr>rn_status := ''BLOCKED'', rn_pending_human_action_id := None\<rparr>) ?e1 = (s', e)"
    using assms(3) x by (simp add: wf_expire_one_def Let_def split: prod.splits if_splits)
  show ?thesis
  proof (rule checkpointed_update [OF assms(1,2) _ _ _ _ _ _ c])
    show "some_approved (ww_engine w) \<Longrightarrow> some_approved ?e1"
      using x by (intro some_approved_upd) simp_all
  qed simp_all
qed

lemma start_ok:
  assumes "world_ok w" "map_of (we_checkpoints (ww_engine w)) run_id = None"
    and c: "wf_start run_id tenant version contact (ww_engine w) = (s, e)"
  shows "world_ok \<lparr>ww_engine = e, ww_runs = dict_set run_id s (ww_runs w)\<rparr>"
proof -
  let ?n = "new_run tenant run_id version contact"
  have c: "wf_checkpoint ?n (ww_engine w) = (s, e)" using c by (simp add: wf_start_def)
  note f = wf_checkpoint_fields [OF c]
  have "checkpoints_for e run_id = map checkpoint_of [s]"
    using wf_checkpoint_same [OF c] assms(2) by (simp add: new_run_def checkpoints_for_def)
  moreover have "history [s]" using f(1) by (simp add: history_def new_run_def)
  ultimately have new: "run_ok e run_id s"
    using f(1) by (auto simp: run_ok_def new_run_def past_approval_def intro: exI [of _ "[s]"])
  have "run_ok e j t" if "map_of (ww_runs w) j = Some t" "j \<noteq> run_id" for j t
  proof -
    have "run_ok (ww_engine w) j t" using assms(1) that by (simp add: world_ok_def)
    moreover have "checkpoints_for e j = checkpoints_for (ww_engine w) j"
      using wf_checkpoint_other [OF c] that(2) by (simp add: new_run_def)
    ultimately show ?thesis by (auto simp: run_ok_def some_approved_def f)
  qed
  with new show ?thesis by (auto simp: world_ok_def dict_simps simp del: map_of_eq_Some_iff)
qed

lemma world_ok_engine:
  assumes "world_ok w" "we_checkpoints e = we_checkpoints (ww_engine w)" "we_human_actions e = we_human_actions (ww_engine w)"
  shows "world_ok (w\<lparr>ww_engine := e\<rparr>)"
  using assms by (simp add: world_ok_def run_ok_def some_approved_def checkpoints_for_def)

lemma step_ok: "wf_step w w' \<Longrightarrow> world_ok w \<Longrightarrow> world_ok w'"
proof (induction rule: wf_step.induct)
  case (start w run_id tenant version contact s e)
  then show ?case by (intro start_ok)
next
  case (transition w run_id s action_id now event payload s' e)
  then show ?case by (intro transition_ok)
next
  case (failed w run_id s action_id now event payload x e)
  then show ?case
    by (intro world_ok_engine) (auto simp: wf_transition_def Let_def split: if_splits sum.splits prod.splits)
next
  case (decide w run_id s action_id approved actor hash s' e)
  then show ?case by (intro decide_ok)
next
  case (expire w run_id s clock s' e)
  then show ?case by (intro expire_ok)
next
  case (enqueue w run_id s item_id effect key item e)
  then show ?case by (intro world_ok_engine) (auto simp: wf_enqueue_effect_def Let_def split: option.splits)
next
  case (cancel run_id reason w n e)
  then show ?case by (intro world_ok_engine) (auto simp: wf_cancel_pending_effects_def Let_def)
next
  case (forget w run_id)
  then show ?case by (auto simp: world_ok_def dict_simps simp del: map_of_eq_Some_iff split: if_splits)
qed

lemma reachable_ok: "wf_reachable w \<Longrightarrow> world_ok w"
proof (induction rule: wf_reachable.induct)
  case init
  then show ?case by (simp add: world_ok_def)
next
  case (step w w')
  then show ?case using step_ok by blast
qed

section \<open>Restoration\<close>

lemma stage_of_value [simp]: "stage_of (stage_value x) = Some x"
  by (cases x) (simp_all add: stage_of_def stage_order_def)

lemma run_dict_keys: "map fst (run_dict s) = run_fields"
  by (simp add: run_dict_def run_fields_def)

lemma opt_json_str_null [simp]: "opt_json_str (str_or_null x) = Some x"
  by (cases x) (simp_all add: opt_json_str_def str_or_null_def)

lemma run_of_dict: "run_of (run_dict s) = Inr s"
proof -
  have "set (map fst (run_dict s)) \<subseteq> set run_fields" by (simp only: run_dict_keys)
  then show ?thesis unfolding run_of_def Let_def by (simp add: run_dict_def)
qed

definition checkpoint_dict :: "run_state \<Rightarrow> (string \<times> json) list" where
  "checkpoint_dict s = run_dict s @ [(''state_hash'', JStr (sha256_hex (JObj (run_dict s))))]"

lemma checkpoint_of_dict: "checkpoint_of s = JObj (checkpoint_dict s)"
  by (simp add: checkpoint_of_def checkpoint_dict_def)

lemma checkpoint_dict_pop: "dict_pop ''state_hash'' (checkpoint_dict s) = run_dict s"
  by (simp add: checkpoint_dict_def run_dict_def)

lemma checkpoint_dict_hash: "map_of (checkpoint_dict s) ''state_hash'' = Some (JStr (sha256_hex (JObj (run_dict s))))"
  by (simp add: checkpoint_dict_def map_add_def run_dict_def)

lemma check_history:
  "(\<And>i. i < length ss \<Longrightarrow> rn_checkpoint_no (ss ! i) = n + int i + 1 \<and> rn_workflow_version (ss ! i) = ''sales-graph@1'') \<Longrightarrow>
    check_checkpoints n (map checkpoint_dict ss) = Inr ()"
proof (induction ss arbitrary: n)
  case (Cons s ss)
  have "rn_checkpoint_no s = n + 1" "rn_workflow_version s = ''sales-graph@1''" using Cons.prems [of 0] by auto
  then have "map_of (run_dict s) ''checkpoint_no'' = Some (JInt (n + 1))"
    "map_of (run_dict s) ''workflow_version'' = Some (JStr ''sales-graph@1'')" by (simp_all add: run_dict_def)
  moreover have "check_checkpoints (n + 1) (map checkpoint_dict ss) = Inr ()"
    by (rule Cons.IH) (use Cons.prems [of "Suc _"] in auto)
  ultimately show ?case by (simp add: Let_def checkpoint_dict_pop checkpoint_dict_hash)
qed simp

lemma restore_history:
  assumes "history ss"
  shows "wf_restore (map checkpoint_dict ss) e = (Inr (last ss),
    e\<lparr>we_checkpoints := dict_set (rn_run_id (last ss)) (map checkpoint_of ss) (we_checkpoints e)\<rparr>)"
proof -
  have "ss \<noteq> []" "check_checkpoints 0 (map checkpoint_dict ss) = Inr ()"
    using assms check_history [of ss 0] by (auto simp: history_def)
  moreover have "checkpoint_of = JObj \<circ> checkpoint_dict" by (rule ext) (simp add: checkpoint_of_dict)
  ultimately show ?thesis by (simp add: wf_restore_def last_map checkpoint_dict_pop run_of_dict)
qed

section \<open>What each operation does to a run\<close>

lemma transition_moves:
  assumes "event \<notin> we_processed_events e" "rn_status s = ''RUNNING''" "rn_stage s \<noteq> APPROVE"
  shows "\<exists>s' e'. wf_transition action_id now s event payload e = (Inr s', e') \<and> rn_stage s' = next_stage (rn_stage s) \<and>
    rn_status s' = ''RUNNING'' \<and> we_processed_events e' = insert event (we_processed_events e) \<and>
    we_human_actions e' = we_human_actions e"
  using assms by (simp add: wf_transition_def wf_checkpoint_def Let_def)

lemma transition_asks:
  assumes "event \<notin> we_processed_events e" "rn_status s = ''RUNNING''" "rn_stage s = APPROVE"
    and "payload_get payload ''subject_hash'' JNull = Inr h"
  shows "\<exists>s' e' x. wf_transition action_id now s event payload e = (Inr s', e') \<and> rn_stage s' = APPROVE \<and>
    rn_status s' = ''WAITING_HUMAN'' \<and> rn_pending_human_action_id s' = Some action_id \<and>
    map_of (we_human_actions e') action_id = Some x \<and> ha_status x = ''PENDING'' \<and>
    ha_subject_hash x = h"
  using assms by (simp add: wf_transition_def wf_checkpoint_def Let_def dict_simps del: map_of_eq_Some_iff)

lemma decide_approves:
  assumes "map_of (we_human_actions e) a = Some x" "ha_status x = ''PENDING''"
  shows "\<exists>s' e'. wf_decide_human_action s a True actor (ha_subject_hash x) e = (Inr s', e') \<and> rn_stage s' = CONTACT \<and>
    rn_status s' = ''RUNNING'' \<and> rn_run_id s' = rn_run_id s \<and> rn_tenant_id s' = rn_tenant_id s"
  using assms by (simp add: wf_decide_human_action_def wf_checkpoint_def Let_def del: map_of_eq_Some_iff)

text \<open>A run that goes from its start to the contact stage.\<close>

lemma some_run_contacts:
  "\<exists>w s. wf_reachable w \<and> map_of (ww_runs w) ''r'' = Some s \<and> rn_stage s = CONTACT"
proof -
  obtain s0 e0 where s0: "wf_start ''r'' ''t'' ''v'' ''c'' engine_init = (s0, e0)" by fastforce
  then have f0: "rn_stage s0 = QUALIFY" "rn_status s0 = ''RUNNING''" "we_processed_events e0 = {}" "we_human_actions e0 = []"
    by (auto simp: wf_start_def wf_checkpoint_def Let_def new_run_def engine_init_def)
  have w0: "wf_reachable \<lparr>ww_engine = e0, ww_runs = [(''r'', s0)]\<rparr>"
    using wf_reachable.step [OF wf_reachable.init wf_step.start [OF _ , of _ "''r''" "''t''" "''v''" "''c''" s0 e0]] s0
    by (simp add: engine_init_def)
  obtain s1 e1 where s1: "wf_transition ''a'' 0 s0 ''1'' JNull e0 = (Inr s1, e1)" "rn_stage s1 = PREPARE"
    "rn_status s1 = ''RUNNING''" "we_processed_events e1 = {''1''}" "we_human_actions e1 = []"
    using transition_moves [of "''1''" e0 s0 "''a''" 0 JNull] f0 by (auto simp: next_stage_def stage_index_def stage_order_def)
  have w1: "wf_reachable \<lparr>ww_engine = e1, ww_runs = [(''r'', s1)]\<rparr>"
    using wf_reachable.step [OF w0 wf_step.transition [OF _ _ , of _ "''r''" s0 "''a''" 0 "''1''" JNull s1 e1]] s1(1) f0 by simp
  obtain s2 e2 where s2: "wf_transition ''a'' 0 s1 ''2'' JNull e1 = (Inr s2, e2)" "rn_stage s2 = APPROVE"
    "rn_status s2 = ''RUNNING''" "we_processed_events e2 = {''1'', ''2''}" "we_human_actions e2 = []"
    using transition_moves [of "''2''" e1 s1 "''a''" 0 JNull] s1 by (auto simp: next_stage_def stage_index_def stage_order_def)
  have w2: "wf_reachable \<lparr>ww_engine = e2, ww_runs = [(''r'', s2)]\<rparr>"
    using wf_reachable.step [OF w1 wf_step.transition [OF _ _ , of _ "''r''" s1 "''a''" 0 "''2''" JNull s2 e2]] s2(1) s1 by simp
  obtain s3 e3 x where s3: "wf_transition ''a'' 0 s2 ''3'' JNull e2 = (Inr s3, e3)"
    "map_of (we_human_actions e3) ''a'' = Some x" "ha_status x = ''PENDING''"
    using transition_asks [of "''3''" e2 s2 JNull JNull "''a''" 0] s2 by (auto simp: payload_get_def)
  have w3: "wf_reachable \<lparr>ww_engine = e3, ww_runs = [(''r'', s3)]\<rparr>"
    using wf_reachable.step [OF w2 wf_step.transition [OF _ _ , of _ "''r''" s2 "''a''" 0 "''3''" JNull s3 e3]] s3(1) s2 by simp
  obtain s4 e4 where s4: "wf_decide_human_action s3 ''a'' True ''u'' (ha_subject_hash x) e3 = (Inr s4, e4)" "rn_stage s4 = CONTACT"
    using decide_approves [OF s3(2,3), of s3 "''u''"] by auto
  have "wf_reachable \<lparr>ww_engine = e4, ww_runs = [(''r'', s4)]\<rparr>"
    using wf_reachable.step [OF w3 wf_step.decide [OF _ , of _ "''r''" s3 "''a''" True "''u''" "ha_subject_hash x" s4 e4]] s4(1) by simp
  with s4(2) show ?thesis by (intro exI conjI) auto
qed

section \<open>Properties\<close>

text \<open>
  C32: whatever operations have run, every run the caller still holds can be restored from its
  recorded checkpoints, by this or by a fresh engine, and restoring yields exactly its state.
\<close>

theorem reachable_run_restores:
  assumes "wf_reachable w" "map_of (ww_runs w) run_id = Some s"
  shows "fst (wf_restore (List.map_filter json_obj (checkpoints_for (ww_engine w) run_id)) e) = Inr s"
proof -
  obtain ss where ss: "checkpoints_for (ww_engine w) run_id = map checkpoint_of ss" "history ss" "last ss = s"
    using reachable_ok [OF assms(1)] assms(2) by (auto simp: world_ok_def run_ok_def simp del: map_of_eq_Some_iff)
  have "List.map_filter json_obj (map checkpoint_of ss) = map checkpoint_dict ss"
    by (induction ss) (simp_all add: checkpoint_of_dict map_filter_simps)
  then show ?thesis using ss by (simp add: restore_history)
qed

theorem reachable_run_restores_witness:
  "\<exists>w (s :: run_state). wf_reachable w \<and> rn_stage s = CONTACT \<and>
    fst (wf_restore (List.map_filter json_obj (checkpoints_for (ww_engine w) ''r'')) engine_init) = Inr s"
proof -
  obtain w s where w: "wf_reachable w" "map_of (ww_runs w) ''r'' = Some s" "rn_stage s = CONTACT"
    using some_run_contacts by blast
  from reachable_run_restores [OF w(1,2), of engine_init] w show ?thesis by blast
qed

text \<open>
  No run is past the approval stage unless a human action has been approved.
\<close>

theorem contact_needs_approval:
  assumes "wf_reachable w" "map_of (ww_runs w) run_id = Some s" "past_approval (rn_stage s)"
  shows "\<exists>a x. map_of (we_human_actions (ww_engine w)) a = Some x \<and> ha_status x = ''APPROVED''"
  using reachable_ok [OF assms(1)] assms(2,3)
  by (auto simp: world_ok_def run_ok_def some_approved_def simp del: map_of_eq_Some_iff)

theorem contact_needs_approval_witness:
  "\<exists>w a x. wf_reachable w \<and> map_of (we_human_actions (ww_engine w)) a = Some x \<and> ha_status x = ''APPROVED''"
proof -
  obtain w s where w: "wf_reachable w" "map_of (ww_runs w) ''r'' = Some s" "rn_stage s = CONTACT"
    using some_run_contacts by blast
  then have "past_approval (rn_stage s)" by (simp add: past_approval_def)
  from contact_needs_approval [OF w(1,2) this] w(1) show ?thesis by blast
qed

text \<open>
  An event is processed at most once: delivering it again, with any payload, to the state
  it produced changes neither the state nor the engine.
\<close>

theorem transition_idempotent:
  assumes "wf_transition action_id now s event payload e = (Inr s', e')"
  shows "wf_transition action_id' now' s' event payload' e' = (Inr s', e')"
proof -
  have "event \<in> we_processed_events e'"
    using assms by (auto simp: wf_transition_def wf_checkpoint_def Let_def rbind_Inr_iff split: if_splits sum.splits)
  then show ?thesis by (simp add: wf_transition_def)
qed

theorem transition_idempotent_witness:
  "let s = new_run ''t'' ''r'' ''v'' ''c''; first = wf_transition ''a'' 0 s ''e'' JNull engine_init
   in \<exists>s'. fst first = Inr s' \<and> rn_stage s' = PREPARE \<and>
        wf_transition ''b'' 5 s' ''e'' (JList []) (snd first) = (Inr s', snd first)"
proof -
  let ?s = "new_run ''t'' ''r'' ''v'' ''c''"
  obtain s' e' where t: "wf_transition ''a'' 0 ?s ''e'' JNull engine_init = (Inr s', e')" "rn_stage s' = PREPARE"
    using transition_moves [of "''e''" engine_init ?s "''a''" 0 JNull]
    by (auto simp: engine_init_def new_run_def next_stage_def stage_index_def stage_order_def)
  from transition_idempotent [OF t(1), of "''b''" 5 "JList []"] t show ?thesis by (simp add: Let_def)
qed

text \<open>
  In memory mode the decision on a human action is not bound to the run that asked for it: a
  pending action of any run, of any tenant and however old, approved through another run's
  state, moves that other run to the contact stage, from whatever stage and status it is in.
\<close>

theorem decision_not_bound_to_run:
  assumes "map_of (we_human_actions e) a = Some x" "ha_status x = ''PENDING''"
  shows "\<exists>s'. fst (wf_decide_human_action s a True actor (ha_subject_hash x) e) = Inr s' \<and> rn_stage s' = CONTACT \<and>
    rn_status s' = ''RUNNING'' \<and> rn_run_id s' = rn_run_id s \<and> rn_tenant_id s' = rn_tenant_id s"
  using decide_approves [OF assms, of s actor] by fastforce

theorem decision_not_bound_to_run_witness:
  "let asked = (new_run ''tenant-1'' ''r1'' ''v'' ''c'')\<lparr>rn_stage := APPROVE\<rparr>;
       other = new_run ''tenant-2'' ''r2'' ''w'' ''d'';
       engine = snd (wf_transition ''a'' 0 asked ''e'' (JObj [(''subject_hash'', JStr ''h'')]) engine_init)
   in \<exists>s'. fst (wf_decide_human_action other ''a'' True ''u'' (JStr ''h'') engine) = Inr s' \<and> rn_stage s' = CONTACT \<and>
        rn_tenant_id s' = ''tenant-2''"
proof -
  let ?asked = "(new_run ''tenant-1'' ''r1'' ''v'' ''c'')\<lparr>rn_stage := APPROVE\<rparr>"
  let ?e = "snd (wf_transition ''a'' 0 ?asked ''e'' (JObj [(''subject_hash'', JStr ''h'')]) engine_init)"
  have a: "map_of (we_human_actions ?e) ''a'' = Some \<lparr>ha_id = ''a'', ha_status = ''PENDING'', ha_subject_hash = JStr ''h'',
      ha_expires_at = day_us, ha_actor_id = None\<rparr>"
    by (simp add: wf_transition_def wf_checkpoint_def payload_get_def Let_def new_run_def engine_init_def)
  show ?thesis
    using decision_not_bound_to_run [OF a, of "new_run ''tenant-2'' ''r2'' ''w'' ''d''" "''u''"]
    by (auto simp: Let_def new_run_def)
qed

end
