(* ===== verification/Security.thy ===== *)
theory Security
  imports Stores Token
begin

text \<open>
  shared/atlantis_contracts/security.py and identity.py: principals, the verification of
  RS256 access tokens, HMAC-signed service requests with replay protection, and the second,
  human identity of the approval endpoints. The RSA primitive of the package
  \<open>cryptography\<close> is the parameter \<open>rsa key signature message\<close>; \<open>int()\<close> of a JSON float is
  the parameter \<open>float_int\<close>.
\<close>

section \<open>Principals\<close>

record principal =
  pr_subject :: json
  pr_tenant_id :: json
  pr_roles :: "string set"
  pr_scopes :: "string set"

definition principal_require :: "principal \<Rightarrow> string \<Rightarrow> string option \<Rightarrow> unit res" where
  "principal_require p scope role =
     (if scope \<notin> pr_scopes p \<or> (case role of None \<Rightarrow> False | Some r \<Rightarrow> r \<noteq> [] \<and> r \<notin> pr_roles p)
      then raise AuthorizationError ''INSUFFICIENT_PRIVILEGES'' else Inr ())"

section \<open>RS256 access tokens\<close>

record rs256_verifier =
  rv_issuer :: string
  rv_audience :: string
  rv_public_keys :: "(string, bytes) dict"
  rv_clock_skew :: int
  rv_max_token_age :: int

text \<open>\<open>int(x)\<close> of a JSON value.\<close>

fun json_to_int :: "(string \<Rightarrow> int res) \<Rightarrow> json \<Rightarrow> int res" where
  "json_to_int float_int (JInt i) = Inr i"
| "json_to_int float_int (JBool b) = Inr (if b then 1 else 0)"
| "json_to_int float_int (JFloat f) = float_int f"
| "json_to_int float_int (JStr s) = of_option (Exn ValueError ''invalid literal for int()'') (py_int s)"
| "json_to_int float_int _ = raise TypeError ''int() argument''"

text \<open>\<open>payload.get(key, default)\<close> on an object.\<close>

definition json_get_or :: "json \<Rightarrow> json \<Rightarrow> string \<Rightarrow> json" where
  "json_get_or d j k = (case json_get j k of None \<Rightarrow> d | Some v \<Rightarrow> v)"

fun is_obj :: "json \<Rightarrow> bool" where
  "is_obj (JObj _) = True"
| "is_obj _ = False"

text \<open>\<open>s.split()\<close>.\<close>

function split_words :: "string \<Rightarrow> string list" where
  "split_words [] = []"
| "split_words (c # cs) =
     (if is_space c then split_words cs
      else (c # takeWhile (\<lambda>x. \<not> is_space x) cs) # split_words (dropWhile (\<lambda>x. \<not> is_space x) cs))"
  by pat_completeness auto

termination
  by (relation "measure length") (auto simp: less_Suc_eq_le length_dropWhile_le)

text \<open>\<open>json.loads(_decode(part))\<close>.\<close>

definition jwt_part :: "string \<Rightarrow> json option" where
  "jwt_part segment = Option.bind (tok_unb64 segment) json_loads"

text \<open>
  The first \<open>try\<close> block: the signed part decoded, the algorithm pinned, the signature
  checked against an allow-listed key.
\<close>

definition jwt_decode :: "(bytes \<Rightarrow> bytes \<Rightarrow> bytes \<Rightarrow> bool) \<Rightarrow> rs256_verifier \<Rightarrow> string \<Rightarrow> json res" where
  "jwt_decode rsa v token =
     (case split_all (CHR ''.'') token of
        [header_part, payload_part, signature_part] \<Rightarrow>
          (case (jwt_part header_part, jwt_part payload_part) of
             (Some header, Some payload) \<Rightarrow>
               (if \<not> is_obj header \<or> \<not> is_obj payload then raise AuthenticationError ''JWT_OBJECT_REQUIRED''
                else if json_get header ''alg'' \<noteq> Some (JStr ''RS256'') \<or> json_get_or (JStr ''JWT'') header ''typ'' \<noteq> JStr ''JWT''
                  then raise AuthenticationError ''JWT_ALGORITHM_DENIED''
                else (case Option.bind (Option.bind (json_get header ''kid'') json_str) (map_of (rv_public_keys v)) of
                        None \<Rightarrow> raise AuthenticationError ''INVALID_ACCESS_TOKEN''
                      | Some key \<Rightarrow>
                         (case tok_unb64 signature_part of
                            None \<Rightarrow> raise AuthenticationError ''INVALID_ACCESS_TOKEN''
                          | Some sig \<Rightarrow>
                              if rsa key sig (header_part @ ''.'' @ payload_part) then Inr payload
                              else raise AuthenticationError ''INVALID_ACCESS_TOKEN'')))
           | _ \<Rightarrow> raise AuthenticationError ''INVALID_ACCESS_TOKEN'')
      | _ \<Rightarrow> raise AuthenticationError ''INVALID_ACCESS_TOKEN'')"

definition jwt_audience_ok :: "rs256_verifier \<Rightarrow> json \<Rightarrow> bool" where
  "jwt_audience_ok v payload =
     ((case json_get_or (JList []) payload ''aud'' of
         JStr a \<Rightarrow> a = rv_audience v
       | JList as \<Rightarrow> JStr (rv_audience v) \<in> set as
       | _ \<Rightarrow> False)
      \<and> json_get payload ''iss'' = Some (JStr (rv_issuer v)))"

text \<open>\<open>except (KeyError, TypeError, ValueError)\<close> around the time claims.\<close>

definition jwt_times :: "(string \<Rightarrow> int res) \<Rightarrow> json \<Rightarrow> (int \<times> int \<times> int) res" where
  "jwt_times float_int payload =
     (let item = (\<lambda>k. rbind (of_option (Exn KeyError k) (json_get payload k)) (json_to_int float_int));
          r = rbind (item ''exp'') (\<lambda>expires. rbind (item ''iat'') (\<lambda>issued.
              rbind (json_to_int float_int (json_get_or (JInt issued) payload ''nbf'')) (\<lambda>not_before.
                Inr (expires, issued, not_before))))
      in case r of
           Inr t \<Rightarrow> Inr t
         | Inl e \<Rightarrow> if exn_cls e = KeyError \<or> exn_cls e = TypeError \<or> is_value_error e
                    then raise AuthenticationError ''JWT_TIME_CLAIMS_INVALID'' else Inl e)"

definition jwt_time_ok :: "rs256_verifier \<Rightarrow> int \<Rightarrow> int \<times> int \<times> int \<Rightarrow> bool" where
  "jwt_time_ok v clock t =
     (case t of (expires, issued, not_before) \<Rightarrow>
        \<not> (expires \<le> clock - rv_clock_skew v \<or> clock + rv_clock_skew v < not_before \<or>
           clock + rv_clock_skew v < issued \<or> rv_max_token_age v + rv_clock_skew v < clock - issued \<or>
           expires \<le> issued))"

definition jwt_principal :: "json \<Rightarrow> principal res" where
  "jwt_principal payload =
     (let tenant_id = json_get_or JNull payload ''tenant_id''; subject = json_get_or JNull payload ''sub'' in
      if \<not> truthy tenant_id \<or> \<not> truthy subject then raise AuthenticationError ''JWT_TENANT_MISSING''
      else (case (json_get_or (JStr []) payload ''scope'', json_get_or (JList []) payload ''roles'') of
              (JStr scope_claim, JList roles) \<Rightarrow>
                (if list_all (\<lambda>r. json_str r \<noteq> None) roles
                 then Inr \<lparr>pr_subject = subject, pr_tenant_id = tenant_id,
                        pr_roles = set (List.map_filter json_str roles), pr_scopes = set (split_words scope_claim)\<rparr>
                 else raise AuthenticationError ''JWT_AUTHORIZATION_CLAIMS_INVALID'')
            | _ \<Rightarrow> raise AuthenticationError ''JWT_AUTHORIZATION_CLAIMS_INVALID''))"

definition rs256_verify ::
  "(bytes \<Rightarrow> bytes \<Rightarrow> bytes \<Rightarrow> bool) \<Rightarrow> (string \<Rightarrow> int res) \<Rightarrow> rs256_verifier \<Rightarrow> int \<Rightarrow> string \<Rightarrow> principal res" where
  "rs256_verify rsa float_int v clock token =
     rbind (jwt_decode rsa v token) (\<lambda>payload.
       if \<not> jwt_audience_ok v payload then raise AuthenticationError ''JWT_ISSUER_OR_AUDIENCE_MISMATCH''
       else rbind (jwt_times float_int payload) (\<lambda>t.
         if \<not> jwt_time_ok v clock t then raise AuthenticationError ''JWT_TIME_INVALID''
         else jwt_principal payload))"

section \<open>Signed service requests\<close>

definition request_canonical :: "string \<Rightarrow> string \<Rightarrow> string \<Rightarrow> string \<Rightarrow> bytes \<Rightarrow> bytes" where
  "request_canonical timestamp nonce method path body =
     py_join [CHR 0x0A] [timestamp, nonce, py_upper method, path, sha256_hexdigest body]"

definition sign_workload_request :: "bytes \<Rightarrow> int \<Rightarrow> string \<Rightarrow> string \<Rightarrow> string \<Rightarrow> bytes \<Rightarrow> string" where
  "sign_workload_request secret timestamp nonce method path body =
     hmac_hexdigest secret (request_canonical (int_dec timestamp) nonce method path body)"

text \<open>\<open>hmac.compare_digest\<close> of strings: other than ASCII is a \<open>TypeError\<close>.\<close>

definition compare_digest :: "string \<Rightarrow> string \<Rightarrow> bool res" where
  "compare_digest a b =
     (if list_all (\<lambda>c. code c < 128) a \<and> list_all (\<lambda>c. code c < 128) b then Inr (a = b)
      else raise TypeError ''comparing strings with non-ASCII characters is not supported'')"

record workload_request =
  wq_service_id :: string
  wq_timestamp :: string
  wq_nonce :: string
  wq_signature :: string
  wq_method :: string
  wq_path :: string
  wq_body :: bytes
  wq_tenant_id :: string

text \<open>Everything \<open>verify\<close> checks before it remembers the nonce: the issue time, or the error.\<close>

definition workload_check :: "(string, bytes) dict \<Rightarrow> int \<Rightarrow> int \<Rightarrow> workload_request \<Rightarrow> int res" where
  "workload_check secrets max_skew clock q =
     (case map_of secrets (wq_service_id q) of
        None \<Rightarrow> raise AuthenticationError ''WORKLOAD_NOT_CONFIGURED''
      | Some secret \<Rightarrow>
        if length secret < 32 then raise AuthenticationError ''WORKLOAD_NOT_CONFIGURED''
        else (case py_int (wq_timestamp q) of
          None \<Rightarrow> raise AuthenticationError ''WORKLOAD_TIMESTAMP_INVALID''
        | Some issued \<Rightarrow>
            if max_skew < \<bar>clock - issued\<bar> then raise AuthenticationError ''WORKLOAD_SIGNATURE_STALE''
            else rbind (compare_digest (wq_signature q)
                   (hmac_hexdigest secret (request_canonical (wq_timestamp q) (wq_nonce q) (wq_method q) (wq_path q) (wq_body q))))
              (\<lambda>same. if \<not> same then raise AuthenticationError ''WORKLOAD_SIGNATURE_INVALID''
                else if wq_tenant_id q = [] then raise AuthenticationError ''WORKLOAD_TENANT_REQUIRED''
                else Inr issued)))"

definition workload_verify ::
  "(nonce_key \<Rightarrow> int \<Rightarrow> 's \<Rightarrow> bool res \<times> 's) \<Rightarrow> (string, bytes) dict \<Rightarrow> int \<Rightarrow> int \<Rightarrow> workload_request \<Rightarrow> 's
    \<Rightarrow> string res \<times> 's" where
  "workload_verify remember secrets max_skew clock q s =
     (case workload_check secrets max_skew clock q of
        Inl e \<Rightarrow> (Inl e, s)
      | Inr issued \<Rightarrow>
        (case remember (wq_tenant_id q, wq_service_id q, wq_nonce q) issued s of
           (Inl e, s') \<Rightarrow> (Inl e, s')
         | (Inr False, s') \<Rightarrow> (raise AuthenticationError ''WORKLOAD_REPLAY'', s')
         | (Inr True, s') \<Rightarrow> (Inr (wq_service_id q), s')))"

section \<open>Human identity\<close>

text \<open>\<open>s.replace(p, '')\<close> for a nonempty \<open>p\<close>.\<close>

function remove_all_sub :: "string \<Rightarrow> string \<Rightarrow> string" where
  "remove_all_sub p [] = []"
| "remove_all_sub p (c # cs) =
     (if p \<noteq> [] \<and> starts_with (c # cs) p then remove_all_sub p (drop (length p) (c # cs))
      else c # remove_all_sub p cs)"
  by pat_completeness auto

termination
  by (relation "measure (\<lambda>(p, s). length s)") auto

text \<open>\<open>int(s, 16)\<close> succeeds: white space, a sign, a prefix, hexadecimal digits with single underscores.\<close>

definition hex_literal :: "string \<Rightarrow> bool" where
  "hex_literal s =
     (let t = py_strip s;
          u = (case t of c # cs \<Rightarrow> if c = CHR ''-'' \<or> c = CHR ''+'' then cs else t | [] \<Rightarrow> []);
          w = (if starts_with u ''0x'' \<or> starts_with u ''0X'' then drop 2 u else u);
          w' = (if w \<noteq> u \<and> starts_with w ''_'' then drop 1 w else w)
      in grouped (\<lambda>c. hex_val c \<noteq> None) False w')"

definition strip_braces :: "string \<Rightarrow> string" where
  "strip_braces s =
     (let brace = (\<lambda>c. c = CHR ''{'' \<or> c = CHR ''}'') in rev (dropWhile brace (rev (dropWhile brace s))))"

text \<open>\<open>UUID(text)\<close> does not raise; the minus signs are gone, so the number is never negative.\<close>

definition uuid_ok :: "string \<Rightarrow> bool" where
  "uuid_ok text =
     (let h = filter (\<lambda>c. c \<noteq> CHR ''-'') (strip_braces (remove_all_sub ''uuid:'' (remove_all_sub ''urn:'' text)))
      in length h = 32 \<and> hex_literal h)"

text \<open>\<open>str(UUID(text))\<close>; the number is the value of the hexadecimal digits.\<close>

definition uuid_number :: "string \<Rightarrow> nat" where
  "uuid_number text =
     foldl (\<lambda>n c. 16 * n + the (hex_val c)) 0
       (filter (\<lambda>c. hex_val c \<noteq> None) (strip_braces (remove_all_sub ''uuid:'' (remove_all_sub ''urn:'' text))))"

definition hex_field :: "nat \<Rightarrow> nat \<Rightarrow> string" where
  "hex_field n k = map (\<lambda>i. hex_digit (n div 16 ^ (k - 1 - i) mod 16)) [0..<k]"

definition uuid_text :: "string \<Rightarrow> string option" where
  "uuid_text text =
     (if uuid_ok text
      then (let h = hex_field (uuid_number text) 32 in
        Some (take 8 h @ ''-'' @ take 4 (drop 8 h) @ ''-'' @ take 4 (drop 12 h) @ ''-'' @ take 4 (drop 16 h) @ ''-'' @ drop 20 h))
      else None)"

record human_oidc =
  ho_verifier :: "rs256_verifier option"
  ho_scope :: string
  ho_role :: string
  ho_allow_shadow_identity :: bool

definition dict_get_or :: "'v \<Rightarrow> ('k, 'v) dict \<Rightarrow> 'k \<Rightarrow> 'v" where
  "dict_get_or d m k = (case map_of m k of None \<Rightarrow> d | Some v \<Rightarrow> v)"

definition bearer_token :: "(string, string) dict \<Rightarrow> string res" where
  "bearer_token headers =
     (let authorization = dict_get_or [] headers ''authorization'' in
      if \<not> starts_with authorization ''Bearer '' \<or> py_strip (drop 7 authorization) = []
      then raise AuthenticationError ''OIDC_BEARER_REQUIRED'' else Inr (py_strip (drop 7 authorization)))"

text \<open>The end of \<open>authenticate\<close>: the tenant, and a subject that is a UUID.\<close>

definition identity_check :: "string \<Rightarrow> principal \<Rightarrow> principal res" where
  "identity_check tenant_id p =
     (if pr_tenant_id p \<noteq> JStr tenant_id then raise AuthenticationError ''OIDC_TENANT_MISMATCH''
      else (case pr_subject p of
              JStr subject \<Rightarrow> (if uuid_ok subject then Inr p else raise AuthenticationError ''OIDC_SUBJECT_MUST_BE_UUID'')
            | _ \<Rightarrow> raise AuthenticationError ''OIDC_SUBJECT_MUST_BE_UUID''))"

text \<open>
  \<open>authenticate\<close>; \<open>verify\<close> is the verifier's method at the current clock. A verifier object
  is always true.
\<close>

definition human_authenticate ::
  "(rs256_verifier \<Rightarrow> string \<Rightarrow> principal res) \<Rightarrow> human_oidc \<Rightarrow> (string, string) dict \<Rightarrow> string \<Rightarrow> string option
    \<Rightarrow> principal res" where
  "human_authenticate verify a headers tenant_id shadow_subject =
     rbind
       (case ho_verifier a of
          Some v \<Rightarrow>
            rbind (bearer_token headers) (\<lambda>token. rbind (verify v token) (\<lambda>p.
            rbind (principal_require p (ho_scope a) (Some (ho_role a))) (\<lambda>_. Inr p)))
        | None \<Rightarrow>
            (case shadow_subject of
               Some subject \<Rightarrow>
                 (if ho_allow_shadow_identity a \<and> subject \<noteq> []
                  then Inr \<lparr>pr_subject = JStr subject, pr_tenant_id = JStr tenant_id,
                         pr_roles = {ho_role a}, pr_scopes = {ho_scope a}\<rparr>
                  else raise AuthenticationError ''HUMAN_IDENTITY_REQUIRED'')
             | None \<Rightarrow> raise AuthenticationError ''HUMAN_IDENTITY_REQUIRED''))
       (identity_check tenant_id)"

text \<open>\<open>from_environment\<close>; \<open>read_keys\<close> is the key file, parsed, with keys and values as strings.\<close>

definition human_from_environment ::
  "(string \<Rightarrow> (string, bytes) dict option) \<Rightarrow> environ \<Rightarrow> string \<Rightarrow> string \<Rightarrow> bool \<Rightarrow> human_oidc res" where
  "human_from_environment read_keys env scope role shadow_mode =
     (let required = (py_lower (getenv env ''ATLANTIS_REQUIRE_HUMAN_OIDC'' (if shadow_mode then ''false'' else ''true'')) = ''true'');
          issuer = py_strip (getenv env ''ATLANTIS_OIDC_ISSUER'' []);
          audience = py_strip (getenv env ''ATLANTIS_OIDC_AUDIENCE'' []);
          keys_file = py_strip (getenv env ''ATLANTIS_OIDC_PUBLIC_KEYS_FILE'' []);
          configured = (issuer \<noteq> [] \<and> audience \<noteq> [] \<and> keys_file \<noteq> [])
      in if required \<or> configured
         then (if issuer = [] \<or> audience = [] \<or> keys_file = [] then raise RuntimeError ''OIDC_CONFIGURATION_REQUIRED''
               else (case read_keys keys_file of
                       None \<Rightarrow> raise RuntimeError ''OIDC_PUBLIC_KEYS_INVALID''
                     | Some keys \<Rightarrow>
                         if keys = [] then raise RuntimeError ''OIDC_PUBLIC_KEYS_REQUIRED''
                         else Inr \<lparr>ho_verifier = Some \<lparr>rv_issuer = issuer, rv_audience = audience, rv_public_keys = keys,
                                   rv_clock_skew = 30, rv_max_token_age = 3600\<rparr>,
                                ho_scope = scope, ho_role = role, ho_allow_shadow_identity = False\<rparr>))
         else if \<not> shadow_mode then raise RuntimeError ''HUMAN_OIDC_REQUIRED_OUTSIDE_SHADOW''
         else Inr \<lparr>ho_verifier = None, ho_scope = scope, ho_role = role, ho_allow_shadow_identity = True\<rparr>)"

section \<open>Lemmas\<close>

lemma hexdigest_ascii: "list_all (\<lambda>c. code c < 128) (hmac_hexdigest k m)"
  using hexlify_lower [of _ "hmac_sha256 k m"]
  by (fastforce simp: list_all_iff hmac_hexdigest_def is_lower_hex_def is_digit_def)

lemma compare_digest_refl [simp]: "compare_digest (hmac_hexdigest k m) (hmac_hexdigest k m) = Inr True"
  by (simp add: compare_digest_def hexdigest_ascii)

text \<open>The request a client sends that signs with \<open>sign_workload_request\<close>.\<close>

definition signed_request ::
  "bytes \<Rightarrow> string \<Rightarrow> int \<Rightarrow> string \<Rightarrow> string \<Rightarrow> string \<Rightarrow> bytes \<Rightarrow> string \<Rightarrow> workload_request" where
  "signed_request secret service ts nonce method path body tenant =
     \<lparr>wq_service_id = service, wq_timestamp = int_dec ts, wq_nonce = nonce,
      wq_signature = sign_workload_request secret ts nonce method path body,
      wq_method = method, wq_path = path, wq_body = body, wq_tenant_id = tenant\<rparr>"

lemma signed_request_sel [simp]:
  "wq_service_id (signed_request secret service ts nonce method path body tenant) = service"
  "wq_nonce (signed_request secret service ts nonce method path body tenant) = nonce"
  "wq_tenant_id (signed_request secret service ts nonce method path body tenant) = tenant"
  "wq_timestamp (signed_request secret service ts nonce method path body tenant) = int_dec ts"
  by (simp_all add: signed_request_def)

lemma signed_request_check:
  assumes "map_of secrets service = Some secret" "32 \<le> length secret"
  shows "workload_check secrets max_skew clock (signed_request secret service ts nonce method path body tenant) =
    (if max_skew < \<bar>clock - ts\<bar> then raise AuthenticationError ''WORKLOAD_SIGNATURE_STALE''
     else if tenant = [] then raise AuthenticationError ''WORKLOAD_TENANT_REQUIRED'' else Inr ts)"
  using assms by (simp add: workload_check_def signed_request_def sign_workload_request_def)

lemma workload_check_Inr:
  assumes "workload_check secrets max_skew clock q = Inr issued"
  shows "py_int (wq_timestamp q) = Some issued" "\<bar>clock - issued\<bar> \<le> max_skew" "wq_tenant_id q \<noteq> []"
    "\<exists>secret. map_of secrets (wq_service_id q) = Some secret \<and> 32 \<le> length secret \<and>
      wq_signature q = hmac_hexdigest secret (request_canonical (wq_timestamp q) (wq_nonce q) (wq_method q) (wq_path q) (wq_body q))"
  using assms by (auto simp: workload_check_def rbind_Inr_iff compare_digest_def split: option.splits if_splits)

lemma workload_verify_Inr:
  "workload_verify remember secrets max_skew clock q s = (Inr sid, s') \<longleftrightarrow>
     sid = wq_service_id q \<and> (\<exists>issued. workload_check secrets max_skew clock q = Inr issued \<and>
       remember (wq_tenant_id q, wq_service_id q, wq_nonce q) issued s = (Inr True, s'))"
  by (auto simp: workload_verify_def split: sum.splits prod.splits bool.splits)

lemma workload_refused:
  assumes "\<And>issued. workload_check secrets max_skew clock q = Inr issued \<Longrightarrow>
    fst (remember (wq_tenant_id q, wq_service_id q, wq_nonce q) issued s) \<noteq> Inr True"
  shows "fst (workload_verify remember secrets max_skew clock q s) \<noteq> Inr sid"
proof
  assume "fst (workload_verify remember secrets max_skew clock q s) = Inr sid"
  then obtain s' where "workload_verify remember secrets max_skew clock q s = (Inr sid, s')" by (metis prod.collapse)
  then show False using assms by (auto simp: workload_verify_Inr)
qed

lemma jwt_decode_Inr:
  assumes "jwt_decode rsa v token = Inr payload"
  shows "\<exists>h pl sg header sig kid key. split_all (CHR ''.'') token = [h, pl, sg] \<and>
    jwt_part h = Some header \<and> json_get header ''alg'' = Some (JStr ''RS256'') \<and>
    json_get header ''kid'' = Some (JStr kid) \<and> map_of (rv_public_keys v) kid = Some key \<and>
    tok_unb64 sg = Some sig \<and> rsa key sig (h @ ''.'' @ pl) \<and> jwt_part pl = Some payload"
proof -
  obtain h pl sg where t: "split_all (CHR ''.'') token = [h, pl, sg]"
    using assms by (auto simp: jwt_decode_def split: list.splits)
  note a = assms [unfolded jwt_decode_def t, simplified]
  obtain header where h: "jwt_part h = Some header" using a by (auto split: option.splits)
  have p: "jwt_part pl = Some payload" using a by (auto split: option.splits if_splits)
  obtain kid key where k: "json_get header ''kid'' = Some (JStr kid)" "map_of (rv_public_keys v) kid = Some key"
    using a h by (auto split: if_splits option.splits simp: bind_eq_Some_conv elim!: json_str.elims)
  obtain sig where s: "tok_unb64 sg = Some sig" using a k by (auto split: if_splits option.splits)
  show ?thesis using a t h p k s by (auto split: if_splits option.splits)
qed

lemma rs256_verify_Inr:
  "rs256_verify rsa float_int v clock token = Inr p \<longleftrightarrow>
     (\<exists>payload t. jwt_decode rsa v token = Inr payload \<and> jwt_audience_ok v payload \<and>
        jwt_times float_int payload = Inr t \<and> jwt_time_ok v clock t \<and> jwt_principal payload = Inr p)"
  by (auto simp: rs256_verify_def rbind_Inr_iff)

lemma identity_check_Inr:
  "identity_check tenant q = Inr p \<longleftrightarrow>
     q = p \<and> pr_tenant_id p = JStr tenant \<and> (\<exists>subject. pr_subject p = JStr subject \<and> uuid_ok subject)"
  by (auto simp: identity_check_def split: json.splits if_splits)

lemma human_authenticate_Inr:
  "human_authenticate verify a headers tenant shadow = Inr p \<longleftrightarrow>
     pr_tenant_id p = JStr tenant \<and> (\<exists>subject. pr_subject p = JStr subject \<and> uuid_ok subject) \<and>
     (case ho_verifier a of
        Some v \<Rightarrow> \<exists>token. bearer_token headers = Inr token \<and> verify v token = Inr p \<and>
                 principal_require p (ho_scope a) (Some (ho_role a)) = Inr ()
      | None \<Rightarrow> \<exists>subject. shadow = Some subject \<and> subject \<noteq> [] \<and> ho_allow_shadow_identity a \<and>
          p = \<lparr>pr_subject = JStr subject, pr_tenant_id = JStr tenant, pr_roles = {ho_role a}, pr_scopes = {ho_scope a}\<rparr>)"
  by (auto simp: human_authenticate_def rbind_Inr_iff identity_check_Inr split: option.splits if_splits)

section \<open>Properties\<close>

text \<open>
  A principal comes only from a token whose header names RS256 and an allow-listed key,
  whose signature over exactly the transmitted header and payload that key verifies, issued by
  the configured issuer to the configured audience, within its time window and not too old.
\<close>

theorem access_token_sound:
  assumes "rs256_verify rsa float_int v clock token = Inr p"
  shows "\<exists>h pl sg header sig kid key payload expires issued not_before.
    split_all (CHR ''.'') token = [h, pl, sg] \<and> jwt_part h = Some header \<and>
    json_get header ''alg'' = Some (JStr ''RS256'') \<and> json_get header ''kid'' = Some (JStr kid) \<and>
    map_of (rv_public_keys v) kid = Some key \<and> tok_unb64 sg = Some sig \<and> rsa key sig (h @ ''.'' @ pl) \<and>
    jwt_part pl = Some payload \<and> jwt_audience_ok v payload \<and>
    jwt_times float_int payload = Inr (expires, issued, not_before) \<and> clock - rv_clock_skew v < expires \<and>
    not_before \<le> clock + rv_clock_skew v \<and> issued \<le> clock + rv_clock_skew v \<and>
    clock - issued \<le> rv_max_token_age v + rv_clock_skew v \<and> issued < expires \<and> jwt_principal payload = Inr p"
proof -
  obtain payload t where t: "jwt_decode rsa v token = Inr payload" "jwt_audience_ok v payload"
    "jwt_times float_int payload = Inr t" "jwt_time_ok v clock t" "jwt_principal payload = Inr p"
    using assms by (auto simp: rs256_verify_Inr)
  obtain expires issued not_before where "t = (expires, issued, not_before)" by (cases t)
  with t jwt_decode_Inr [OF t(1)] show ?thesis
    by (auto simp: jwt_time_ok_def not_le not_less intro!: exI [of _ expires] exI [of _ issued] exI [of _ not_before])
qed

theorem access_token_sound_witness:
  "\<exists>h pl sg. split_all (CHR ''.'')
      ''eyJhbGciOiJSUzI1NiIsImtpZCI6ImsifQ.eyJpc3MiOiJpIiwiYXVkIjoiYSIsImV4cCI6MjAwLCJpYXQiOjEwMCwidGVuYW50X2lkIjoidCIsInN1YiI6InMifQ.eA'' = [h, pl, sg] \<and> tok_unb64 sg = Some ''x''"
proof -
  let ?v = "\<lparr>rv_issuer = ''i'', rv_audience = ''a'', rv_public_keys = [(''k'', ''pem'')], rv_clock_skew = 30, rv_max_token_age = 3600\<rparr>"
  have "rs256_verify (\<lambda>key sig msg. sig = ''x'') (\<lambda>_. Inr 0) ?v 120
      ''eyJhbGciOiJSUzI1NiIsImtpZCI6ImsifQ.eyJpc3MiOiJpIiwiYXVkIjoiYSIsImV4cCI6MjAwLCJpYXQiOjEwMCwidGVuYW50X2lkIjoidCIsInN1YiI6InMifQ.eA'' =
      Inr \<lparr>pr_subject = JStr ''s'', pr_tenant_id = JStr ''t'', pr_roles = {}, pr_scopes = {}\<rparr>"
    by code_simp
  from access_token_sound [OF this] show ?thesis by blast
qed

lemma human_from_environment_verified:
  assumes "human_from_environment read_keys env scope role False = Inr a"
    and "human_authenticate verify a headers tenant shadow = Inr p" "role \<noteq> []"
  shows "\<exists>v token. ho_verifier a = Some v \<and> bearer_token headers = Inr token \<and> verify v token = Inr p \<and>
    scope \<in> pr_scopes p \<and> role \<in> pr_roles p \<and> pr_tenant_id p = JStr tenant \<and>
    (\<exists>subject. pr_subject p = JStr subject \<and> uuid_ok subject)"
  using assms
  by (auto simp: human_from_environment_def Let_def human_authenticate_Inr principal_require_def
      split: if_splits option.splits)

text \<open>
  Outside shadow mode no identity is simulated: whoever is authenticated presented a bearer
  token that the configured verifier accepts, has the scope and the role the endpoint asks for,
  and belongs to the tenant of the request, under a UUID.
\<close>

theorem human_identity_verified:
  assumes "human_from_environment read_keys env scope role False = Inr a"
    and "human_authenticate verify a headers tenant shadow = Inr p" "role \<noteq> []"
  shows "\<exists>v token. ho_verifier a = Some v \<and> bearer_token headers = Inr token \<and> verify v token = Inr p \<and>
    scope \<in> pr_scopes p \<and> role \<in> pr_roles p \<and> pr_tenant_id p = JStr tenant \<and>
    (\<exists>subject. pr_subject p = JStr subject \<and> uuid_ok subject)"
  using assms by (rule human_from_environment_verified)

theorem human_identity_verified_witness:
  "\<exists>(a :: human_oidc) (p :: principal). human_from_environment (\<lambda>_. Some [(''k'', ''pem'')])
      ((\<lambda>_. None)(''ATLANTIS_OIDC_ISSUER'' \<mapsto> ''i'', ''ATLANTIS_OIDC_AUDIENCE'' \<mapsto> ''a'', ''ATLANTIS_OIDC_PUBLIC_KEYS_FILE'' \<mapsto> ''f''))
      ''approve'' ''manager'' False = Inr a \<and> ''approve'' \<in> pr_scopes p \<and> ho_verifier a \<noteq> None"
proof -
  let ?env = "(\<lambda>_. None)(''ATLANTIS_OIDC_ISSUER'' \<mapsto> ''i'', ''ATLANTIS_OIDC_AUDIENCE'' \<mapsto> ''a'', ''ATLANTIS_OIDC_PUBLIC_KEYS_FILE'' \<mapsto> ''f'') :: environ"
  let ?v = "\<lparr>rv_issuer = ''i'', rv_audience = ''a'', rv_public_keys = [(''k'', ''pem'')], rv_clock_skew = 30, rv_max_token_age = 3600\<rparr>"
  let ?a = "\<lparr>ho_verifier = Some ?v, ho_scope = ''approve'', ho_role = ''manager'', ho_allow_shadow_identity = False\<rparr>"
  let ?p = "\<lparr>pr_subject = JStr ''00000000-0000-0000-0000-000000000001'', pr_tenant_id = JStr ''t'',
    pr_roles = {''manager''}, pr_scopes = {''approve''}\<rparr>"
  have env: "human_from_environment (\<lambda>_. Some [(''k'', ''pem'')]) ?env ''approve'' ''manager'' False = Inr ?a"
    by (simp add: human_from_environment_def Let_def getenv_def py_strip_def is_space_def)
  have u: "uuid_ok ''00000000-0000-0000-0000-000000000001''" by code_simp
  have b: "bearer_token [(''authorization'', ''Bearer tok'')] = Inr ''tok''" by code_simp
  have "human_authenticate (\<lambda>_ _. Inr ?p) ?a [(''authorization'', ''Bearer tok'')] ''t'' None = Inr ?p"
    using u b by (simp add: human_authenticate_Inr principal_require_def)
  then have "''approve'' \<in> pr_scopes ?p \<and> ho_verifier ?a \<noteq> None"
    using human_identity_verified [OF env] by fastforce
  then show ?thesis using env by blast
qed

text \<open>
  A request signed with the service's own secret is accepted exactly when it is fresh, names
  a tenant, and its nonce is new to the store.
\<close>

theorem signed_request_accepted:
  assumes "map_of secrets service = Some secret" "32 \<le> length secret"
  shows "fst (workload_verify remember secrets max_skew clock (signed_request secret service ts nonce method path body tenant) s) = Inr sid
    \<longleftrightarrow> sid = service \<and> \<bar>clock - ts\<bar> \<le> max_skew \<and> tenant \<noteq> [] \<and> fst (remember (tenant, service, nonce) ts s) = Inr True"
proof -
  let ?q = "signed_request secret service ts nonce method path body tenant"
  have "fst (workload_verify remember secrets max_skew clock ?q s) = Inr sid \<longleftrightarrow>
      (\<exists>s'. workload_verify remember secrets max_skew clock ?q s = (Inr sid, s'))" by (metis fst_conv prod.collapse)
  moreover have "fst (remember (tenant, service, nonce) ts s) = Inr True \<longleftrightarrow>
      (\<exists>s'. remember (tenant, service, nonce) ts s = (Inr True, s'))" by (metis fst_conv prod.collapse)
  ultimately show ?thesis
    by (auto simp: workload_verify_Inr signed_request_check [OF assms])
qed

theorem signed_request_accepted_witness:
  "fst (workload_verify (mem_remember 0) [(''crm-api'', replicate 32 (CHR ''k''))] 60 1000
      (signed_request (replicate 32 (CHR ''k'')) ''crm-api'' 990 ''n'' ''POST'' ''/v1/contacts'' [] ''t'')
      \<lparr>mn_ttl_seconds = 120, mn_max_entries = 5, mn_values = []\<rparr>) = Inr ''crm-api''"
  by (subst signed_request_accepted [of _ _ "replicate 32 (CHR ''k'')"])
    (simp_all add: mem_remember_def live_nonces_def has_key_def)

text \<open>
  C25: with the in-memory nonce store a request that was not issued in the future is accepted at
  most once, ever: however many other requests come in between, as long as fewer than the
  capacity of the store are accepted, and provided the time to live exceeds the allowed skew.
  Wall clock and monotonic clock advance together (\<open>off\<close> is their difference).
\<close>

theorem workload_accepted_once:
  assumes "nonces_sorted m0 s" "m0 \<le> m"
    and "workload_verify (mem_remember m) secrets skew \<lfloor>m + off\<rfloor> q s = (Inr sid, s1)"
    and "py_int (wq_timestamp q) = Some issued" "issued \<le> \<lfloor>m + off\<rfloor>"
    and "nonce_run reqs s1 = (n, s2)" "sorted (m # map fst reqs @ [m'])" "n < mn_max_entries s"
    and "of_int skew + 1 \<le> mn_ttl_seconds s"
  shows "fst (workload_verify (mem_remember m') secrets skew \<lfloor>m' + off\<rfloor> q s2) \<noteq> Inr sid'"
proof (rule workload_refused)
  fix issued'
  let ?k = "(wq_tenant_id q, wq_service_id q, wq_nonce q)"
  assume chk: "workload_check secrets skew \<lfloor>m' + off\<rfloor> q = Inr issued'"
  then have "issued' = issued" "\<bar>\<lfloor>m' + off\<rfloor> - issued'\<bar> \<le> skew" using workload_check_Inr assms(4) by fastforce+
  then have "\<lfloor>m' + off\<rfloor> \<le> \<lfloor>m + off\<rfloor> + skew" using assms(5) by linarith
  then have "m' < m + of_int skew + 1" by linarith
  then have late: "m' < m + mn_ttl_seconds s" using assms(9) by linarith
  obtain issued0 where r: "mem_remember m ?k issued0 s = (Inr True, s1)"
    using assms(3) by (auto simp: workload_verify_Inr)
  have times: "sorted (m # map fst reqs)" "\<forall>q \<in> set reqs. fst q < m + mn_ttl_seconds s"
    using assms(7) late by (auto simp: sorted_append)
  have "fst (mem_remember m' ?k issued' s2) = Inr False"
    by (rule nonce_remembered [OF assms(1,2) r assms(6) times late assms(8)])
  then show "fst (mem_remember m' ?k issued' s2) \<noteq> Inr True" by simp
qed

theorem workload_accepted_once_witness:
  "let secret = replicate 32 (CHR ''k'');
       q = signed_request secret ''crm-api'' 990 ''n'' ''POST'' ''/v1/contacts'' [] ''t'';
       store = \<lparr>mn_ttl_seconds = 120, mn_max_entries = 5, mn_values = []\<rparr>;
       first = workload_verify (mem_remember 0) [(''crm-api'', secret)] 60 1000 q store;
       others = nonce_run [(5, (''t'', ''crm-api'', ''m''), 1005)] (snd first)
   in fst first = Inr ''crm-api'' \<and>
      fst (workload_verify (mem_remember 10) [(''crm-api'', secret)] 60 1010 q (snd others)) \<noteq> Inr ''crm-api''"
proof -
  let ?secret = "replicate 32 (CHR ''k'')"
  let ?q = "signed_request ?secret ''crm-api'' 990 ''n'' ''POST'' ''/v1/contacts'' [] ''t''"
  let ?s = "\<lparr>mn_ttl_seconds = 120, mn_max_entries = 5, mn_values = []\<rparr>"
  let ?s1 = "\<lparr>mn_ttl_seconds = 120, mn_max_entries = 5, mn_values = [((''t'', ''crm-api'', ''n''), 120 :: real)]\<rparr>"
  let ?reqs = "[(5, (''t'', ''crm-api'', ''m''), 1005)] :: (real \<times> nonce_key \<times> int) list"
  have first: "workload_verify (mem_remember 0) [(''crm-api'', ?secret)] 60 \<lfloor>0 + 1000 :: real\<rfloor> ?q ?s = (Inr ''crm-api'', ?s1)"
    by (simp add: workload_verify_def signed_request_check mem_remember_def live_nonces_def has_key_def)
  obtain n s2 where others: "nonce_run ?reqs ?s1 = (n, s2)" by fastforce
  then have n: "n \<le> 1" by (auto split: prod.splits if_splits)
  have "fst (workload_verify (mem_remember 10) [(''crm-api'', ?secret)] 60 \<lfloor>10 + 1000 :: real\<rfloor> ?q s2) \<noteq> Inr ''crm-api''"
    by (rule workload_accepted_once [where ?m0.0 = 0 and issued = 990, OF _ _ first _ _ others])
      (use n in \<open>simp_all add: nonces_sorted_def nonces_ok_def\<close>)
  then show ?thesis using first others by (simp add: Let_def)
qed

text \<open>
  The hypothesis on the issue time is needed. With the defaults of the code (skew 60, time
  to live 120) a request dated 60 seconds ahead is accepted at once and, replayed unchanged 120
  seconds later, accepted again: it is still fresh and its nonce has just expired.
\<close>

theorem future_request_replayed:
  "let secret = replicate 32 (CHR ''k'');
       q = signed_request secret ''crm-api'' 1060 ''nonce-1'' ''POST'' ''/v1/contacts'' [] ''tenant'';
       store = \<lparr>mn_ttl_seconds = 120, mn_max_entries = 20000, mn_values = []\<rparr>;
       first = workload_verify (mem_remember 0) [(''crm-api'', secret)] 60 1000 q store;
       again = workload_verify (mem_remember 120) [(''crm-api'', secret)] 60 1120 q (snd first)
   in fst first = Inr ''crm-api'' \<and> fst again = Inr ''crm-api''"
  by (simp add: Let_def workload_verify_def signed_request_check mem_remember_def live_nonces_def has_key_def)

end
