(* ===== verification/Effects.thy ===== *)
theory Effects
  imports PgStores Workflow Security
begin

text \<open>
  services/orchestrator/app/resilience.py and postgres_outbox.py: the delay between retries, the
  circuit breaker, the worker that runs a preflight before every effect, and the transactional
  publisher of the outbox. What an effect does outside is a state \<open>'w\<close> the callables thread.
\<close>

section \<open>Retry policy\<close>

record retry_policy =
  rp_max_attempts :: int
  rp_base_seconds :: real
  rp_max_seconds :: real

definition default_retry :: retry_policy where
  "default_retry = \<lparr>rp_max_attempts = 5, rp_base_seconds = 1 / 2, rp_max_seconds = 30\<rparr>"

definition retry_delay :: "retry_policy \<Rightarrow> int \<Rightarrow> real \<Rightarrow> real" where
  "retry_delay p attempt jitter =
     min (rp_max_seconds p) (rp_base_seconds p * 2 ^ nat (max 0 (attempt - 1))) * (1 / 2 + jitter / 2)"

section \<open>Circuit breaker\<close>

record circuit_breaker =
  cb_threshold :: int
  cb_recovery_seconds :: real
  cb_failures :: int
  cb_opened_at :: "real option"

definition breaker_init :: "int \<Rightarrow> real \<Rightarrow> circuit_breaker" where
  "breaker_init threshold recovery =
     \<lparr>cb_threshold = threshold, cb_recovery_seconds = recovery, cb_failures = 0, cb_opened_at = None\<rparr>"

definition breaker_allow :: "real \<Rightarrow> circuit_breaker \<Rightarrow> bool \<times> circuit_breaker" where
  "breaker_allow now b =
     (case cb_opened_at b of
        None \<Rightarrow> (True, b)
      | Some t \<Rightarrow>
          if cb_recovery_seconds b \<le> now - t then (True, b\<lparr>cb_failures := 0, cb_opened_at := None\<rparr>)
          else (False, b))"

definition breaker_success :: "circuit_breaker \<Rightarrow> circuit_breaker" where
  "breaker_success b = b\<lparr>cb_failures := 0, cb_opened_at := None\<rparr>"

definition breaker_failure :: "real \<Rightarrow> circuit_breaker \<Rightarrow> circuit_breaker" where
  "breaker_failure now b =
     (let b' = b\<lparr>cb_failures := cb_failures b + 1\<rparr> in
      if cb_threshold b' \<le> cb_failures b' then b'\<lparr>cb_opened_at := Some now\<rparr> else b')"

section \<open>The outbox worker\<close>

datatype failure = PolicyDenial string | PermanentFailure string | TransientFailure string | OtherFailure exn

type_synonym item = "(string \<times> json) list"

definition item_status :: "item \<Rightarrow> json" where
  "item_status i = (case map_of i ''status'' of None \<Rightarrow> JNull | Some v \<Rightarrow> v)"

text \<open>\<open>int(item.get("attempts", 0))\<close>; an attempt count that is a JSON float is not modelled.\<close>

definition item_attempts :: "item \<Rightarrow> int res" where
  "item_attempts i =
     (case map_of i ''attempts'' of
        None \<Rightarrow> Inr 0
      | Some v \<Rightarrow> json_to_int (\<lambda>_. raise TypeError ''attempts'') v)"

text \<open>\<open>{**item, "status": ..., "error": ..., "attempts": ...}\<close>.\<close>

definition failed_item :: "item \<Rightarrow> string \<Rightarrow> string \<Rightarrow> int \<Rightarrow> item" where
  "failed_item i status err attempts =
     dict_set ''attempts'' (JInt attempts) (dict_set ''error'' (JStr err) (dict_set ''status'' (JStr status) i))"

definition sent_item :: "item \<Rightarrow> json \<Rightarrow> int \<Rightarrow> item" where
  "sent_item i receipt attempts =
     dict_set ''attempts'' (JInt attempts) (dict_set ''receipt'' receipt (dict_set ''status'' (JStr ''SENT'') i))"

text \<open>
  \<open>process\<close>; the state is the world and the dead letters. \<open>seconds\<close> renders the delay as the
  number the item records.
\<close>

definition worker_process ::
  "(item \<Rightarrow> 'w \<Rightarrow> (failure + 'a) \<times> 'w) \<Rightarrow> (item \<Rightarrow> 'a \<Rightarrow> 'w \<Rightarrow> (failure + json) \<times> 'w) \<Rightarrow> retry_policy \<Rightarrow> (real \<Rightarrow> json)
    \<Rightarrow> real \<Rightarrow> item \<Rightarrow> 'w \<times> item list \<Rightarrow> item res \<times> 'w \<times> item list" where
  "worker_process preflight dispatch policy seconds jitter i st =
     (case st of (w, dead) \<Rightarrow>
      if item_status i \<in> {JStr ''SENT'', JStr ''CANCELLED''} then (Inr i, w, dead)
      else (case item_attempts i of
        Inl e \<Rightarrow> (Inl e, w, dead)
      | Inr attempts \<Rightarrow>
        (let outcome = (case preflight i w of
               (Inl f, w') \<Rightarrow> (Inl f, w')
             | (Inr authorization, w') \<Rightarrow> dispatch i authorization w')
         in case outcome of
              (Inr receipt, w') \<Rightarrow> (Inr (sent_item i receipt (attempts + 1)), w', dead)
            | (Inl (PolicyDenial m), w') \<Rightarrow>
                (let blocked = failed_item i ''BLOCKED'' m (attempts + 1) in (Inr blocked, w', dead @ [blocked]))
            | (Inl (PermanentFailure m), w') \<Rightarrow>
                (let failed = failed_item i ''DEAD'' m (attempts + 1) in (Inr failed, w', dead @ [failed]))
            | (Inl (TransientFailure m), w') \<Rightarrow>
                (if rp_max_attempts policy \<le> attempts + 1
                 then (let failed = failed_item i ''DEAD'' m (attempts + 1) in (Inr failed, w', dead @ [failed]))
                 else (Inr (dict_set ''retry_after_seconds'' (seconds (retry_delay policy (attempts + 1) jitter))
                         (failed_item i ''RETRY'' m (attempts + 1))), w', dead))
            | (Inl (OtherFailure e), w') \<Rightarrow> (Inl e, w', dead))))"

text \<open>What drives the worker: an item is handed to it again while it asks for a retry, one jitter a time.\<close>

fun worker_drive ::
  "(item \<Rightarrow> 'w \<Rightarrow> (failure + 'a) \<times> 'w) \<Rightarrow> (item \<Rightarrow> 'a \<Rightarrow> 'w \<Rightarrow> (failure + json) \<times> 'w) \<Rightarrow> retry_policy \<Rightarrow> (real \<Rightarrow> json)
    \<Rightarrow> real list \<Rightarrow> item \<Rightarrow> 'w \<times> item list \<Rightarrow> item res \<times> 'w \<times> item list" where
  "worker_drive preflight dispatch policy seconds [] i st = (Inr i, st)"
| "worker_drive preflight dispatch policy seconds (j # js) i st =
     (case worker_process preflight dispatch policy seconds j i st of
        (Inr i', st') \<Rightarrow>
          if item_status i' = JStr ''RETRY'' then worker_drive preflight dispatch policy seconds js i' st' else (Inr i', st')
      | (Inl e, st') \<Rightarrow> (Inl e, st'))"

lemma failed_item_status [simp]: "item_status (failed_item i status err n) = JStr status"
  by (simp add: item_status_def failed_item_def dict_simps)

lemma failed_item_attempts [simp]: "item_attempts (failed_item i status err n) = Inr n"
  by (simp add: item_attempts_def failed_item_def dict_simps)

lemma retry_item_simps [simp]:
  "item_status (dict_set ''retry_after_seconds'' v i) = item_status i"
  "item_attempts (dict_set ''retry_after_seconds'' v i) = item_attempts i"
  by (simp_all add: item_status_def item_attempts_def dict_simps)

lemma sent_item_status [simp]: "item_status (sent_item i r n) = JStr ''SENT''"
  by (simp add: item_status_def sent_item_def dict_simps)

text \<open>A retry counts an attempt, and is asked for only while attempts are left.\<close>

lemma process_retry:
  assumes "worker_process preflight dispatch policy seconds jitter i st = (Inr i', st')" "item_status i' = JStr ''RETRY''"
  shows "\<exists>n. item_attempts i = Inr n \<and> item_attempts i' = Inr (n + 1) \<and> n + 1 < rp_max_attempts policy \<and> snd st' = snd st"
  using assms
  by (cases st) (auto simp: worker_process_def Let_def split: if_splits sum.splits prod.splits failure.splits)

lemma drive_ends:
  assumes "worker_drive preflight dispatch policy seconds js i st = (Inr i', st')"
    and "item_attempts i = Inr k" "nat (rp_max_attempts policy - k) \<le> length js" "js \<noteq> []"
  shows "item_status i' \<noteq> JStr ''RETRY''"
  using assms
proof (induction js arbitrary: i k st)
  case (Cons j js)
  obtain r st1 where p: "worker_process preflight dispatch policy seconds j i st = (r, st1)"
    by (cases "worker_process preflight dispatch policy seconds j i st") blast
  show ?case
  proof (cases r)
    case (Inl e)
    then show ?thesis using Cons.prems(1) p by simp
  next
    case (Inr i1)
    show ?thesis
    proof (cases "item_status i1 = JStr ''RETRY''")
      case True
      then have n: "item_attempts i1 = Inr (k + 1)" "k + 1 < rp_max_attempts policy"
        using process_retry [OF p [unfolded Inr]] Cons.prems(2) by auto
      then have js: "nat (rp_max_attempts policy - (k + 1)) \<le> length js" "js \<noteq> []" using Cons.prems(3) by auto
      show ?thesis by (rule Cons.IH [OF _ n(1) js]) (use Cons.prems(1) p Inr True in simp)
    next
      case False
      then show ?thesis using Cons.prems(1) p Inr by simp
    qed
  qed
qed simp

lemma process_denied:
  assumes "item_status i \<notin> {JStr ''SENT'', JStr ''CANCELLED''}" "item_attempts i = Inr n" "preflight i w = (Inl (PolicyDenial m), w')"
  shows "worker_process preflight dispatch policy seconds jitter i (w, dead) =
    (Inr (failed_item i ''BLOCKED'' m (n + 1)), w', dead @ [failed_item i ''BLOCKED'' m (n + 1)])"
  using assms by (simp add: worker_process_def Let_def)

section \<open>The transactional outbox publisher\<close>

record outbox_row =
  ob_id :: string
  ob_tenant_id :: string
  ob_event_type :: string
  ob_payload :: json
  ob_correlation_id :: string
  ob_occurred_at :: real
  ob_published_at :: "real option"

record dead_row =
  dl_id :: string
  dl_tenant_id :: string
  dl_source_event_id :: string
  dl_consumer :: string
  dl_payload_hash :: string
  dl_error_code :: string
  dl_attempt_count :: int
  dl_status :: string

record outbox_db =
  od_events :: "outbox_row list"
  od_dead :: "dead_row list"

text \<open>
  The rows \<open>FOR UPDATE SKIP LOCKED\<close> selects: unpublished, of the tenant, not locked by another
  transaction, in order of occurrence, at most \<open>limit\<close>.
\<close>

definition outbox_selected :: "string set \<Rightarrow> string \<Rightarrow> nat \<Rightarrow> outbox_row list \<Rightarrow> outbox_row list" where
  "outbox_selected locked tenant limit rows =
     take limit (sort_key ob_occurred_at
       (filter (\<lambda>r. ob_tenant_id r = tenant \<and> ob_published_at r = None \<and> ob_id r \<notin> locked) rows))"

definition mark_published :: "real \<Rightarrow> string \<Rightarrow> string \<Rightarrow> outbox_row list \<Rightarrow> outbox_row list" where
  "mark_published now tenant i rows =
     map (\<lambda>r. if ob_tenant_id r = tenant \<and> ob_id r = i then r\<lparr>ob_published_at := Some now\<rparr> else r) rows"

text \<open>
  The dead letter of a row. Its payload hash is computed by the database over the payload cast to a text, so
  the driver has to pass the payload of the event, a decoded JSON value, as a parameter: \<open>adapt\<close> is the text the
  database sees, or the exception the driver raises for a value it cannot adapt.
\<close>

definition dead_letter :: "string \<Rightarrow> string \<Rightarrow> (outbox_row \<Rightarrow> string) \<Rightarrow> outbox_row \<Rightarrow> string \<Rightarrow> dead_row" where
  "dead_letter consumer tenant fresh r payload =
     \<lparr>dl_id = fresh r, dl_tenant_id = tenant, dl_source_event_id = ob_id r, dl_consumer = consumer,
      dl_payload_hash = sha256_hexdigest payload, dl_error_code = ''PUBLISH_FAILURE'', dl_attempt_count = 1, dl_status = ''OPEN''\<rparr>"

text \<open>
  The loop over the selected rows; \<open>publish\<close> returns the exception it raised, if any. A dead letter that cannot be inserted
  ends the loop with an exception.
\<close>

fun publish_rows ::
  "(outbox_row \<Rightarrow> 'w \<Rightarrow> exn option \<times> 'w) \<Rightarrow> (json \<Rightarrow> string res) \<Rightarrow> string \<Rightarrow> real \<Rightarrow> string \<Rightarrow> (outbox_row \<Rightarrow> string)
    \<Rightarrow> outbox_row list \<Rightarrow> outbox_db \<Rightarrow> 'w \<Rightarrow> (nat \<times> nat) res \<times> outbox_db \<times> 'w" where
  "publish_rows publish adapt consumer now tenant fresh [] db w = (Inr (0, 0), db, w)"
| "publish_rows publish adapt consumer now tenant fresh (r # rs) db w =
     (case publish r w of
        (None, w1) \<Rightarrow>
          (case publish_rows publish adapt consumer now tenant fresh rs
                  (db\<lparr>od_events := mark_published now tenant (ob_id r) (od_events db)\<rparr>) w1 of
             (Inl x, db2, w2) \<Rightarrow> (Inl x, db2, w2)
           | (Inr (p, f), db2, w2) \<Rightarrow> (Inr (Suc p, f), db2, w2))
      | (Some _, w1) \<Rightarrow>
          (case adapt (ob_payload r) of
             Inl x \<Rightarrow> (Inl x, db, w1)
           | Inr payload \<Rightarrow>
               (case publish_rows publish adapt consumer now tenant fresh rs
                       (db\<lparr>od_dead := od_dead db @ [dead_letter consumer tenant fresh r payload]\<rparr>) w1 of
                  (Inl x, db2, w2) \<Rightarrow> (Inl x, db2, w2)
                | (Inr (p, f), db2, w2) \<Rightarrow> (Inr (p, Suc f), db2, w2))))"

text \<open>
  \<open>publish_batch\<close>: an exception in the loop or a fault when the transaction ends undoes the tables but not what was
  published.
\<close>

definition publish_batch ::
  "(outbox_row \<Rightarrow> 'w \<Rightarrow> exn option \<times> 'w) \<Rightarrow> (json \<Rightarrow> string res) \<Rightarrow> string \<Rightarrow> pg_env \<Rightarrow> (outbox_row \<Rightarrow> string) \<Rightarrow> string set
    \<Rightarrow> string \<Rightarrow> nat \<Rightarrow> outbox_db \<Rightarrow> 'w \<Rightarrow> (nat \<times> nat) res \<times> outbox_db \<times> 'w" where
  "publish_batch publish adapt consumer e fresh locked tenant limit db w =
     (case publish_rows publish adapt consumer (pg_now e) tenant fresh (outbox_selected locked tenant limit (od_events db)) db w of
        (Inl x, _, w') \<Rightarrow> (Inl x, db, w')
      | (Inr counts, db', w') \<Rightarrow>
          (case pg_fault e of None \<Rightarrow> (Inr counts, db', w') | Some x \<Rightarrow> (Inl x, db, w')))"

lemma publish_rows_counts:
  "publish_rows publish adapt consumer now tenant fresh rs db w = (Inr (p, f), db', w') \<Longrightarrow>
    p + f = length rs \<and> length (od_dead db') = length (od_dead db) + f"
proof (induction rs arbitrary: db w p f)
  case (Cons r rs)
  then show ?case by (fastforce split: option.splits prod.splits sum.splits)
qed simp

text \<open>What a dead letter says of its event.\<close>

definition dead_summary :: "dead_row \<Rightarrow> string \<times> int \<times> string" where
  "dead_summary d = (dl_source_event_id d, dl_attempt_count d, dl_status d)"

lemma dead_summary_letter [simp]: "dead_summary (dead_letter consumer tenant fresh r payload) = (ob_id r, 1, ''OPEN'')"
  by (simp add: dead_summary_def dead_letter_def)

lemma publish_rows_failing:
  assumes "\<And>r w. r \<in> set rs \<Longrightarrow> fst (publish r w) \<noteq> None"
    and "publish_rows publish adapt consumer now tenant fresh rs db w = (res, db', w')"
  shows "case res of
      Inl x \<Rightarrow> \<exists>r \<in> set rs. adapt (ob_payload r) = Inl x
    | Inr (p, f) \<Rightarrow> p = 0 \<and> f = length rs \<and> od_events db' = od_events db \<and>
        (\<forall>r \<in> set rs. \<exists>payload. adapt (ob_payload r) = Inr payload) \<and>
        map dead_summary (od_dead db') = map dead_summary (od_dead db) @ map (\<lambda>r. (ob_id r, 1, ''OPEN'')) rs"
  using assms
proof (induction rs arbitrary: db w res db' w')
  case (Cons r rs)
  obtain x w1 where x: "publish r w = (Some x, w1)" using Cons.prems(1) [of r w] by (cases "publish r w") auto
  show ?case
  proof (cases "adapt (ob_payload r)")
    case (Inl y)
    then show ?thesis using Cons.prems(2) x by auto
  next
    case (Inr payload)
    let ?db = "db\<lparr>od_dead := od_dead db @ [dead_letter consumer tenant fresh r payload]\<rparr>"
    obtain res1 db1 w2 where r: "publish_rows publish adapt consumer now tenant fresh rs ?db w1 = (res1, db1, w2)" using prod_cases3 by blast
    have ih: "case res1 of
      Inl x \<Rightarrow> \<exists>r \<in> set rs. adapt (ob_payload r) = Inl x
    | Inr (p, f) \<Rightarrow> p = 0 \<and> f = length rs \<and> od_events db1 = od_events ?db \<and>
        (\<forall>r \<in> set rs. \<exists>payload. adapt (ob_payload r) = Inr payload) \<and>
        map dead_summary (od_dead db1) = map dead_summary (od_dead ?db) @ map (\<lambda>r. (ob_id r, 1, ''OPEN'')) rs"
      by (rule Cons.IH [OF _ r]) (use Cons.prems(1) in simp)
    show ?thesis using ih Cons.prems(2) x Inr r by (auto split: sum.splits)
  qed
qed auto

section \<open>Properties\<close>

text \<open>
  C37: retries end: an item that is handed back to the worker while it asks for a retry no longer
  asks for one once as many calls were made as attempts were left, whatever the preflight and
  the effect do.
\<close>

theorem retries_end:
  assumes "worker_drive preflight dispatch policy seconds js i st = (Inr i', st')"
    and "item_attempts i = Inr k" "nat (rp_max_attempts policy - k) \<le> length js" "js \<noteq> []"
  shows "item_status i' \<noteq> JStr ''RETRY''"
  using assms by (rule drive_ends)

theorem retries_end_witness:
  "item_status (case worker_drive (\<lambda>_ w. (Inr (), w)) (\<lambda>_ _ (w :: nat). (Inl (TransientFailure ''timeout''), Suc w))
      default_retry (\<lambda>_. JNull) [0, 0, 0, 0, 0] [(''status'', JStr ''PENDING'')] (0, []) of
      (Inr i, _) \<Rightarrow> i | (Inl _, _) \<Rightarrow> []) \<noteq> JStr ''RETRY''"
proof -
  let ?r = "worker_drive (\<lambda>_ w. (Inr (), w)) (\<lambda>_ _ (w :: nat). (Inl (TransientFailure ''timeout''), Suc w))
      default_retry (\<lambda>_. JNull) [0, 0, 0, 0, 0] [(''status'', JStr ''PENDING'')] (0, [])"
  obtain i st where r: "?r = (Inr i, st)"
    by (simp add: worker_process_def Let_def item_status_def item_attempts_def failed_item_def default_retry_def)
  have "item_status i \<noteq> JStr ''RETRY''"
    by (rule retries_end [OF r, of 0]) (simp_all add: item_attempts_def default_retry_def)
  then show ?thesis unfolding r by simp
qed

text \<open>
  The preflight guards the effect: when it denies, the effect is not run, whatever it is; the
  world is as the preflight left it, the item is blocked, not retried, and kept as a dead letter.
\<close>

theorem denied_effect_not_run:
  assumes "item_status i \<notin> {JStr ''SENT'', JStr ''CANCELLED''}" "item_attempts i = Inr n"
    and "preflight i w = (Inl (PolicyDenial m), w')"
  shows "\<exists>blocked. worker_drive preflight dispatch policy seconds (j # js) i (w, dead) = (Inr blocked, w', dead @ [blocked]) \<and>
    item_status blocked = JStr ''BLOCKED''"
  using process_denied [where preflight = preflight and w = w, OF assms, of dispatch policy seconds j dead] by simp

theorem denied_effect_not_run_witness:
  "\<exists>blocked. worker_drive (\<lambda>_ w. (Inl (PolicyDenial ''FREQUENCY_LIMIT'') :: failure + unit, w)) (\<lambda>_ _ (w :: nat). (Inr JNull, Suc w))
      default_retry (\<lambda>_. JNull) [0, 0] [(''status'', JStr ''PENDING'')] (7, []) = (Inr blocked, 7, [blocked]) \<and>
    item_status blocked = JStr ''BLOCKED''"
  using denied_effect_not_run [of "[(''status'', JStr ''PENDING'')]" 0
      "\<lambda>_ w. (Inl (PolicyDenial ''FREQUENCY_LIMIT'') :: failure + unit, w)" 7 "''FREQUENCY_LIMIT''" 7
      "\<lambda>_ _ (w :: nat). (Inr JNull, Suc w)" default_retry "\<lambda>_. JNull" 0 "[0]" "[]"]
  by (simp add: item_status_def item_attempts_def)

text \<open>
  C40: events that cannot be published block the outbox: when every event a batch selects fails,
  the batch leaves all events as they were, so the next one selects the same events again. Either
  it records each of them as a new dead letter, with a count of one however often this happened before; or the driver
  cannot adapt the payload of one of them, and the batch ends with that exception and records nothing.
\<close>

theorem failing_batch_repeats:
  assumes "\<And>r w. r \<in> set (outbox_selected locked tenant limit (od_events db)) \<Longrightarrow> fst (publish r w) \<noteq> None"
    and "publish_batch publish adapt consumer e fresh locked tenant limit db w = (res, db', w')"
  shows "od_events db' = od_events db \<and>
    outbox_selected locked tenant limit (od_events db') = outbox_selected locked tenant limit (od_events db) \<and>
    (case res of
       Inl x \<Rightarrow> db' = db \<and> (pg_fault e = Some x \<or> (\<exists>r \<in> set (outbox_selected locked tenant limit (od_events db)). adapt (ob_payload r) = Inl x))
     | Inr (p, f) \<Rightarrow> p = 0 \<and> (\<forall>r \<in> set (outbox_selected locked tenant limit (od_events db)). \<exists>payload. adapt (ob_payload r) = Inr payload) \<and>
         map (\<lambda>d. (dl_source_event_id d, dl_attempt_count d, dl_status d)) (od_dead db') =
           map (\<lambda>d. (dl_source_event_id d, dl_attempt_count d, dl_status d)) (od_dead db) @
           map (\<lambda>r. (ob_id r, 1, ''OPEN'')) (outbox_selected locked tenant limit (od_events db)))"
proof -
  obtain res1 db1 w1 where r: "publish_rows publish adapt consumer (pg_now e) tenant fresh
      (outbox_selected locked tenant limit (od_events db)) db w = (res1, db1, w1)" using prod_cases3 by blast
  note f = publish_rows_failing [OF assms(1) r] and s = dead_summary_def [abs_def, symmetric]
  show ?thesis using assms(2) r f unfolding s
    by (cases res1; cases "pg_fault e") (auto simp: publish_batch_def)
qed

theorem failing_batch_repeats_witness:
  "let row = (\<lambda>i t. \<lparr>ob_id = i, ob_tenant_id = ''t'', ob_event_type = ''x'', ob_payload = JObj [],
         ob_correlation_id = ''c'', ob_occurred_at = t, ob_published_at = None\<rparr>);
       db = \<lparr>od_events = [row ''e1'' 1, row ''e2'' 2], od_dead = []\<rparr>;
       publish = (\<lambda>(r :: outbox_row) (w :: unit). if ob_id r = ''e1'' then (Some (Exn RuntimeError ''AMQP''), w) else (None, w));
       run = (\<lambda>adapt. publish_batch publish adapt ''c'' \<lparr>pg_now = 5, pg_fault = None\<rparr> ob_id {} ''t'' 1);
       first = run (\<lambda>_. Inr ''{}'') db ();
       second = run (\<lambda>_. Inr ''{}'') (fst (snd first)) ()
   in map (\<lambda>d. (dl_source_event_id d, dl_attempt_count d)) (od_dead (fst (snd second))) = [(''e1'', 1), (''e1'', 1)] \<and>
      od_events (fst (snd first)) = od_events db \<and>
      run (\<lambda>_. raise ValueError ''cannot adapt type dict'') db () = (raise ValueError ''cannot adapt type dict'', db, ())"
proof -
  let ?row = "\<lambda>i t. \<lparr>ob_id = i, ob_tenant_id = ''t'', ob_event_type = ''x'', ob_payload = JObj [],
    ob_correlation_id = ''c'', ob_occurred_at = t, ob_published_at = None\<rparr>"
  let ?db = "\<lparr>od_events = [?row ''e1'' 1, ?row ''e2'' 2], od_dead = []\<rparr>"
  let ?publish = "\<lambda>(r :: outbox_row) (w :: unit). if ob_id r = ''e1'' then (Some (Exn RuntimeError ''AMQP''), w) else (None, w)"
  let ?run = "\<lambda>adapt. publish_batch ?publish adapt ''c'' \<lparr>pg_now = 5, pg_fault = None\<rparr> ob_id {} ''t'' 1"
  let ?ok = "\<lambda>_. Inr ''{}''" and ?no = "\<lambda>_. raise ValueError ''cannot adapt type dict''"
  have sel: "outbox_selected {} ''t'' 1 (od_events ?db) = [?row ''e1'' 1]"
    by (simp add: outbox_selected_def)
  then have fails: "\<And>r w. r \<in> set (outbox_selected {} ''t'' 1 (od_events ?db)) \<Longrightarrow> fst (?publish r w) \<noteq> None" by simp
  obtain n db1 where first: "?run ?ok ?db () = (Inr n, db1, ())"
    unfolding publish_batch_def sel by simp
  from failing_batch_repeats [where publish = ?publish and db = ?db, OF fails first]
  have one: "od_events db1 = od_events ?db"
    "map (\<lambda>d. (dl_source_event_id d, dl_attempt_count d, dl_status d)) (od_dead db1) = [(''e1'', 1, ''OPEN'')]"
    unfolding sel by (auto split: prod.splits)
  then have dead1: "map (\<lambda>d. (dl_source_event_id d, dl_attempt_count d)) (od_dead db1) = [(''e1'', 1)]" by auto
  have sel1: "outbox_selected {} ''t'' 1 (od_events db1) = [?row ''e1'' 1]" using sel one(1) by simp
  then have fails1: "\<And>r w. r \<in> set (outbox_selected {} ''t'' 1 (od_events db1)) \<Longrightarrow> fst (?publish r w) \<noteq> None" by simp
  obtain n2 db2 where second: "?run ?ok db1 () = (Inr n2, db2, ())"
    unfolding publish_batch_def sel1 by simp
  from failing_batch_repeats [where publish = ?publish and db = db1, OF fails1 second]
  have "map (\<lambda>d. (dl_source_event_id d, dl_attempt_count d, dl_status d)) (od_dead db2) = [(''e1'', 1, ''OPEN''), (''e1'', 1, ''OPEN'')]"
    unfolding sel1 one(2) by (auto split: prod.splits)
  then have "map (\<lambda>d. (dl_source_event_id d, dl_attempt_count d)) (od_dead db2) = [(''e1'', 1), (''e1'', 1)]" by auto
  moreover have "?run ?no ?db () = (raise ValueError ''cannot adapt type dict'', ?db, ())"
    unfolding publish_batch_def sel by simp
  ultimately show ?thesis unfolding Let_def first second fst_conv snd_conv using one(1) by blast
qed

end
