(* ===== verification/Http.thy ===== *)
theory Http
  imports PgStores Security
begin

text \<open>
  shared/atlantis_contracts/http.py and middleware.py: the dispatch of a request by the JSON
  router (checks, middlewares, idempotency, handler, mapping of exceptions to replies), and the
  two middlewares, service authentication and rate limit. \<open>'w\<close> is the state of the middlewares
  and handlers, \<open>'s\<close> that of the idempotency store, \<open>'e\<close> what the store reads when it is called.
\<close>

section \<open>Requests\<close>

record request_context =
  rq_body :: bytes
  rq_json :: "(string \<times> json) list"
  rq_headers :: "(string, string) dict"
  rq_query :: "(string, string list) dict"
  rq_method :: string
  rq_path :: string
  rq_client_ip :: string

datatype reply_body = JsonBody json | RawBody bytes string

definition error_body :: "string \<Rightarrow> reply_body" where
  "error_body m = JsonBody (JObj [(''error'', JStr m)])"

text \<open>\<open>body[key]\<close>.\<close>

definition body_item :: "(string \<times> json) list \<Rightarrow> string \<Rightarrow> json res" where
  "body_item body k = of_option (Exn KeyError k) (map_of body k)"

fun body_items :: "(string \<times> json) list \<Rightarrow> string list \<Rightarrow> (string \<times> json) list res" where
  "body_items body [] = Inr []"
| "body_items body (k # ks) =
     rbind (body_item body k) (\<lambda>v. rbind (body_items body ks) (\<lambda>rest. Inr ((k, v) # rest)))"

text \<open>\<open>body[key]\<close> where a \<open>str\<close> is asked for: any other type is a TypeError here.\<close>

definition text_item :: "(string \<times> json) list \<Rightarrow> string \<Rightarrow> string res" where
  "text_item body k = rbind (body_item body k) (\<lambda>v. case v of JStr s \<Rightarrow> Inr s | _ \<Rightarrow> raise TypeError k)"

text \<open>An optional \<open>str\<close>.\<close>

definition maybe_string :: "(string \<times> json) list \<Rightarrow> string \<Rightarrow> string option res" where
  "maybe_string body k =
     (case map_of body k of
        None \<Rightarrow> Inr None | Some JNull \<Rightarrow> Inr None | Some (JStr s) \<Rightarrow> Inr (Some s) | _ \<Rightarrow> raise TypeError k)"

text \<open>
  What arrives: command, target, header lines in order, the stream the body is read from (which
  may time out), the peer.
\<close>

record raw_request =
  hq_command :: string
  hq_target :: string
  hq_headers :: "(string \<times> string) list"
  hq_read :: "nat \<Rightarrow> bytes res"
  hq_client :: string

datatype 'w handler =
    PlainHandler "(string \<times> json) list \<Rightarrow> 'w \<Rightarrow> (int \<times> reply_body) res \<times> 'w"
  | RawHandler "request_context \<Rightarrow> 'w \<Rightarrow> (int \<times> reply_body) res \<times> 'w"

type_synonym 'w middleware = "request_context \<Rightarrow> 'w \<Rightarrow> request_context res \<times> 'w"

record 'w router =
  rt_routes :: "(string \<times> string, 'w handler) dict"
  rt_max_body_bytes :: int
  rt_middlewares :: "'w middleware list"
  rt_idempotent_paths :: "string set"

definition route :: "string \<Rightarrow> string \<Rightarrow> 'w handler \<Rightarrow> 'w router \<Rightarrow> 'w router" where
  "route method path h r = r\<lparr>rt_routes := dict_set (py_upper method, path) h (rt_routes r)\<rparr>"

definition use_middleware :: "'w middleware \<Rightarrow> 'w router \<Rightarrow> 'w router" where
  "use_middleware m r = r\<lparr>rt_middlewares := rt_middlewares r @ [m]\<rparr>"

definition require_idempotency :: "string list \<Rightarrow> 'w router \<Rightarrow> 'w router" where
  "require_idempotency paths r = r\<lparr>rt_idempotent_paths := rt_idempotent_paths r \<union> set paths\<rparr>"

text \<open>\<open>self.headers.get(name)\<close>: the first header of that name, upper and lower case alike.\<close>

definition header_get :: "(string \<times> string) list \<Rightarrow> string \<Rightarrow> string option" where
  "header_get hs name = map_option snd (find (\<lambda>(k, v). py_lower k = py_lower name) hs)"

definition before :: "char \<Rightarrow> string \<Rightarrow> string" where
  "before c s = takeWhile (\<lambda>x. x \<noteq> c) s"

section \<open>Dispatch\<close>

text \<open>\<open>except\<close> clauses: the status of an exception, by its class.\<close>

definition error_reply :: "exn \<Rightarrow> int \<times> reply_body" where
  "error_reply e =
     (if is_permission_error e then (403, error_body (exn_msg e))
      else if is_value_error e then (400, error_body (exn_msg e))
      else if is_timeout_error e then (408, error_body ''REQUEST_TIMEOUT'')
      else (500, error_body ''INTERNAL_ERROR''))"

datatype ('b, 'c) step = Stop int 'b | Go 'c

text \<open>
  The checks before the middlewares: declared length, content type, a JSON object. \<open>split_url\<close>
  is \<open>urlsplit\<close> with \<open>parse_qs\<close> of its query; the text of a decoding error is not modelled.
\<close>

definition read_context ::
  "(string \<Rightarrow> string \<times> (string, string list) dict) \<Rightarrow> int \<Rightarrow> raw_request \<Rightarrow> (reply_body, request_context) step res" where
  "read_context split_url max_body q =
     (let content_length = header_get (hq_headers q) ''Content-Length'' in
      if hq_command q = ''POST'' \<and> content_length = None then Inr (Stop 411 (error_body ''CONTENT_LENGTH_REQUIRED''))
      else (case py_int (case content_length of None \<Rightarrow> ''0'' | Some l \<Rightarrow> if l = [] then ''0'' else l) of
        None \<Rightarrow> Inr (Stop 400 (error_body ''CONTENT_LENGTH_INVALID''))
      | Some n \<Rightarrow>
          if n < 0 then Inr (Stop 400 (error_body ''CONTENT_LENGTH_INVALID''))
          else if max_body < n then Inr (Stop 413 (error_body ''PAYLOAD_TOO_LARGE''))
          else if hq_command q = ''POST'' \<and>
                  py_lower (py_strip (before (CHR '';'') (case header_get (hq_headers q) ''Content-Type'' of None \<Rightarrow> [] | Some t \<Rightarrow> t)))
                    \<noteq> ''application/json''
            then Inr (Stop 415 (error_body ''CONTENT_TYPE_MUST_BE_APPLICATION_JSON''))
          else rbind (hq_read q (nat n)) (\<lambda>read.
            let raw_body = (if read = [] then ''{}'' else read) in
            case json_loads raw_body of
              None \<Rightarrow> raise ValueError ''JSON_DECODE_ERROR''
            | Some (JObj body) \<Rightarrow>
                (case split_url (hq_target q) of (path, query) \<Rightarrow>
                  Inr (Go \<lparr>rq_body = raw_body, rq_json = body,
                    rq_headers = dict_of (map (\<lambda>(k, v). (py_lower k, v)) (hq_headers q)),
                    rq_query = query, rq_method = hq_command q, rq_path = path, rq_client_ip = hq_client q\<rparr>))
            | Some _ \<Rightarrow> Inr (Stop 400 (error_body ''JSON_OBJECT_REQUIRED'')))))"

fun run_middlewares :: "'w middleware list \<Rightarrow> request_context \<Rightarrow> 'w \<Rightarrow> request_context res \<times> 'w" where
  "run_middlewares [] c w = (Inr c, w)"
| "run_middlewares (m # ms) c w =
     (case m c w of (Inl e, w') \<Rightarrow> (Inl e, w') | (Inr c', w') \<Rightarrow> run_middlewares ms c' w')"

fun invoke :: "'w handler \<Rightarrow> request_context \<Rightarrow> 'w \<Rightarrow> (int \<times> reply_body) res \<times> 'w" where
  "invoke (PlainHandler h) c w = h (rq_json c) w"
| "invoke (RawHandler h) c w = h c w"

definition reply_of :: "(int \<times> reply_body) res \<Rightarrow> int \<times> reply_body" where
  "reply_of r = (case r of Inl e \<Rightarrow> error_reply e | Inr x \<Rightarrow> x)"

text \<open>\<open>str(body.get("tenant_id", ""))\<close>.\<close>

definition tenant_of :: "(json \<Rightarrow> string) \<Rightarrow> (string \<times> json) list \<Rightarrow> string" where
  "tenant_of repr body = py_str repr (dict_get_or (JStr []) body ''tenant_id'')"

text \<open>The idempotency key of a request, or the reply that refuses it.\<close>

definition idem_request :: "(json \<Rightarrow> string) \<Rightarrow> request_context \<Rightarrow> (reply_body, idem_key \<times> string) step" where
  "idem_request repr c =
     (let key = dict_get_or [] (rq_headers c) ''idempotency-key''; tenant = tenant_of repr (rq_json c) in
      if \<not> (16 \<le> length key \<and> length key \<le> 128) then Stop 400 (error_body ''IDEMPOTENCY_KEY_REQUIRED'')
      else if tenant = [] then Stop 400 (error_body ''TENANT_ID_REQUIRED'')
      else Go ((tenant, key), sha256_hexdigest (rq_body c)))"

text \<open>
  From the context to the status and body, and the reservation that was made. \<open>Stop\<close> is an
  immediate reply, after which nothing is recorded.
\<close>

definition answer ::
  "('e \<Rightarrow> idem_key \<Rightarrow> string \<Rightarrow> 's \<Rightarrow> reply_body claim_result res \<times> 's) \<Rightarrow> (json \<Rightarrow> string) \<Rightarrow> 'w router \<Rightarrow> 'w handler
    \<Rightarrow> 'e \<Rightarrow> request_context \<Rightarrow> 'w \<Rightarrow> 's \<Rightarrow> (reply_body, (int \<times> reply_body) \<times> (idem_key \<times> string) option) step \<times> 'w \<times> 's" where
  "answer claim repr r h e c0 w s =
     (case run_middlewares (rt_middlewares r) c0 w of
        (Inl x, w1) \<Rightarrow> (Go (error_reply x, None), w1, s)
      | (Inr c, w1) \<Rightarrow>
          if rq_method c = ''POST'' \<and> rq_path c \<in> rt_idempotent_paths r
          then (case idem_request repr c of
                  Stop st b \<Rightarrow> (Stop st b, w1, s)
                | Go (k, body_hash) \<Rightarrow>
                   (case claim e k body_hash s of
                      (Inl x, s1) \<Rightarrow> (Go (error_reply x, None), w1, s1)
                    | (Inr ClaimConflict, s1) \<Rightarrow> (Stop 409 (error_body ''IDEMPOTENCY_KEY_CONFLICT''), w1, s1)
                    | (Inr ClaimPending, s1) \<Rightarrow> (Stop 409 (error_body ''IDEMPOTENCY_REQUEST_IN_PROGRESS''), w1, s1)
                    | (Inr (ClaimCached st b), s1) \<Rightarrow> (Stop st b, w1, s1)
                    | (Inr ClaimNew, s1) \<Rightarrow>
                        (case invoke h c w1 of (x, w2) \<Rightarrow> (Go (reply_of x, Some (k, body_hash)), w2, s1))))
          else (case invoke h c w1 of (x, w2) \<Rightarrow> (Go (reply_of x, None), w2, s)))"

text \<open>The end of \<open>_dispatch\<close>: recording is outside the \<open>try\<close>, so its exception leaves no reply.\<close>

definition conclude ::
  "('e \<Rightarrow> idem_key \<Rightarrow> string \<Rightarrow> int \<Rightarrow> 'b \<Rightarrow> 's \<Rightarrow> unit res \<times> 's) \<Rightarrow> ('e \<Rightarrow> idem_key \<Rightarrow> string \<Rightarrow> 's \<Rightarrow> unit res \<times> 's)
    \<Rightarrow> 'e \<Rightarrow> ('b, (int \<times> 'b) \<times> (idem_key \<times> string) option) step \<Rightarrow> 's \<Rightarrow> (int \<times> 'b) option \<times> 's" where
  "conclude finish abandon e a s =
     (case a of
        Stop st b \<Rightarrow> (Some (st, b), s)
      | Go ((st, b), None) \<Rightarrow> (Some (st, b), s)
      | Go ((st, b), Some (k, h)) \<Rightarrow>
         (case (if st < 500 then finish e k h st b s else abandon e k h s) of
            (Inl x, s') \<Rightarrow> (None, s')
          | (Inr _, s') \<Rightarrow> (Some (st, b), s')))"

definition dispatch ::
  "('e \<Rightarrow> idem_key \<Rightarrow> string \<Rightarrow> 's \<Rightarrow> reply_body claim_result res \<times> 's)
    \<Rightarrow> ('e \<Rightarrow> idem_key \<Rightarrow> string \<Rightarrow> int \<Rightarrow> reply_body \<Rightarrow> 's \<Rightarrow> unit res \<times> 's)
    \<Rightarrow> ('e \<Rightarrow> idem_key \<Rightarrow> string \<Rightarrow> 's \<Rightarrow> unit res \<times> 's)
    \<Rightarrow> (json \<Rightarrow> string) \<Rightarrow> (string \<Rightarrow> string \<times> (string, string list) dict) \<Rightarrow> 'w router \<Rightarrow> 'e \<times> 'e \<Rightarrow> raw_request
    \<Rightarrow> 'w \<Rightarrow> 's \<Rightarrow> (int \<times> reply_body) option \<times> 'w \<times> 's" where
  "dispatch claim finish abandon repr split_url r env q w s =
     (case map_of (rt_routes r) (hq_command q, before (CHR ''?'') (hq_target q)) of
        None \<Rightarrow> (Some (404, error_body ''NOT_FOUND''), w, s)
      | Some h \<Rightarrow>
         (case read_context split_url (rt_max_body_bytes r) q of
            Inl x \<Rightarrow> (Some (error_reply x), w, s)
          | Inr (Stop st b) \<Rightarrow> (Some (st, b), w, s)
          | Inr (Go c) \<Rightarrow>
             (case answer claim repr r h (fst env) c w s of
                (a, w', s1) \<Rightarrow> (case conclude finish abandon (snd env) a s1 of (reply, s2) \<Rightarrow> (reply, w', s2)))))"

section \<open>Middlewares\<close>

text \<open>\<open>WorkloadAuthMiddleware.__call__\<close>; \<open>clock\<close> is the wall clock, the state the nonce store's.\<close>

definition workload_auth ::
  "(nonce_key \<Rightarrow> int \<Rightarrow> 's \<Rightarrow> bool res \<times> 's) \<Rightarrow> (json \<Rightarrow> string) \<Rightarrow> (string, bytes) dict \<Rightarrow> string set \<Rightarrow> int
    \<Rightarrow> request_context \<Rightarrow> 's \<Rightarrow> request_context res \<times> 's" where
  "workload_auth remember repr secrets exempt_paths clock c s =
     (let c1 = c\<lparr>rq_headers := dict_pop ''x-atlantis-authenticated-service'' (rq_headers c)\<rparr> in
      if rq_path c1 \<in> exempt_paths then (Inr c1, s)
      else
        (let hs = rq_headers c1 in
         case workload_verify remember secrets 60 clock
                \<lparr>wq_service_id = dict_get_or [] hs ''x-atlantis-service'', wq_timestamp = dict_get_or [] hs ''x-atlantis-timestamp'',
                 wq_nonce = dict_get_or [] hs ''x-atlantis-nonce'', wq_signature = dict_get_or [] hs ''x-atlantis-signature'',
                 wq_method = rq_method c1, wq_path = rq_path c1, wq_body = rq_body c1, wq_tenant_id = tenant_of repr (rq_json c1)\<rparr> s of
           (Inl e, s') \<Rightarrow> (Inl e, s')
         | (Inr service_id, s') \<Rightarrow>
             (Inr (c1\<lparr>rq_headers := dict_set ''x-atlantis-authenticated-service'' service_id (rq_headers c1)\<rparr>), s')))"

type_synonym rate_windows = "(string \<times> int, nat) dict"

text \<open>\<open>RateLimitMiddleware.__call__\<close>; an empty service name is false, so the peer counts.\<close>

definition rate_identity :: "request_context \<Rightarrow> string" where
  "rate_identity c =
     (case map_of (rq_headers c) ''x-atlantis-authenticated-service'' of
        None \<Rightarrow> rq_client_ip c
      | Some s \<Rightarrow> if s = [] then rq_client_ip c else s)"

definition rate_count :: "string \<times> int \<Rightarrow> rate_windows \<Rightarrow> nat" where
  "rate_count key d = (case map_of d key of None \<Rightarrow> 0 | Some n \<Rightarrow> n)"

definition rate_limit ::
  "nat \<Rightarrow> string set \<Rightarrow> real \<Rightarrow> request_context \<Rightarrow> rate_windows \<Rightarrow> request_context res \<times> rate_windows" where
  "rate_limit limit exempt_paths now c d =
     (if rq_path c \<in> exempt_paths then (Inr c, d)
      else
        (let minute = \<lfloor>now / 60\<rfloor>;
             key = (rate_identity c, minute);
             count = rate_count key d + 1;
             d1 = dict_set key count d;
             d2 = (if 10000 < length d1 then filter (\<lambda>(k, v). minute - 1 \<le> snd k) d1 else d1)
         in if limit < count then (raise PermissionError ''RATE_LIMIT_EXCEEDED'', d2) else (Inr c, d2)))"

section \<open>Keyed requests\<close>

text \<open>
  What a request amounts to when it reaches the idempotency store: its handler, its context after
  the middlewares, the key, the hash of its body, and the state the middlewares leave.
\<close>

definition keyed ::
  "(json \<Rightarrow> string) \<Rightarrow> (string \<Rightarrow> string \<times> (string, string list) dict) \<Rightarrow> 'w router \<Rightarrow> raw_request \<Rightarrow> 'w
    \<Rightarrow> ('w handler \<times> request_context \<times> idem_key \<times> string \<times> 'w) option" where
  "keyed repr split_url r q w =
     (case (map_of (rt_routes r) (hq_command q, before (CHR ''?'') (hq_target q)), read_context split_url (rt_max_body_bytes r) q) of
        (Some h, Inr (Go c0)) \<Rightarrow>
          (case run_middlewares (rt_middlewares r) c0 w of
             (Inr c, w1) \<Rightarrow>
               (if rq_method c = ''POST'' \<and> rq_path c \<in> rt_idempotent_paths r
                then (case idem_request repr c of Go (k, body_hash) \<Rightarrow> Some (h, c, k, body_hash, w1) | Stop _ _ \<Rightarrow> None)
                else None)
           | _ \<Rightarrow> None)
      | _ \<Rightarrow> None)"

lemma keyed_dispatch:
  assumes "keyed repr split_url r q w = Some (h, c, k, body_hash, w1)"
  shows "dispatch claim finish abandon repr split_url r env q w s =
    (case claim (fst env) k body_hash s of
       (Inl x, s1) \<Rightarrow> (Some (error_reply x), w1, s1)
     | (Inr ClaimConflict, s1) \<Rightarrow> (Some (409, error_body ''IDEMPOTENCY_KEY_CONFLICT''), w1, s1)
     | (Inr ClaimPending, s1) \<Rightarrow> (Some (409, error_body ''IDEMPOTENCY_REQUEST_IN_PROGRESS''), w1, s1)
     | (Inr (ClaimCached st b), s1) \<Rightarrow> (Some (st, b), w1, s1)
     | (Inr ClaimNew, s1) \<Rightarrow>
         (case invoke h c w1 of (x, w2) \<Rightarrow>
            (case conclude finish abandon (snd env) (Go (reply_of x, Some (k, body_hash))) s1 of (reply, s2) \<Rightarrow> (reply, w2, s2))))"
proof -
  obtain c0 where f: "map_of (rt_routes r) (hq_command q, before (CHR ''?'') (hq_target q)) = Some h"
    "read_context split_url (rt_max_body_bytes r) q = Inr (Go c0)" "run_middlewares (rt_middlewares r) c0 w = (Inr c, w1)"
    "rq_method c = ''POST'' \<and> rq_path c \<in> rt_idempotent_paths r" "idem_request repr c = Go (k, body_hash)"
    using assms by (auto simp: keyed_def simp del: map_of_eq_Some_iff split: option.splits sum.splits step.splits prod.splits if_splits)
  show ?thesis
    by (simp add: dispatch_def answer_def f del: map_of_eq_Some_iff split: sum.split claim_result.split prod.split)
      (simp add: conclude_def)
qed

context idempotency_store
begin

text \<open>The key is recorded with the reply, so a repetition is answered from the record.\<close>

lemma finished_view:
  assumes "ok s" "claim e k h s = (Inr ClaimNew, s1)" "conclude finish abandon e' (Go ((st, b), Some (k, h))) s1 = (Some p, s2)"
    and "covers e f"
  shows "p = (st, b) \<and> ok s2 \<and> view f s2 k = (if st < 500 then Some (h, Some (st, norm b)) else None)"
proof -
  have v: "view f s1 k = Some (h, None)" using claim_new [OF assms(1,2,4)] .
  have ok1: "ok s1" using ok_claim [OF assms(1), of e k h] assms(2) by simp
  show ?thesis
  proof (cases "st < 500")
    case True
    then have "finish e' k h st b s1 = (Inr (), s2)" "p = (st, b)"
      using assms(3) by (auto simp: conclude_def split: prod.splits sum.splits)
    then show ?thesis using finish_records [OF ok1 _ v] ok_finish [OF ok1, of e' k h st b] True by auto
  next
    case False
    then have "abandon e' k h s1 = (Inr (), s2)" "p = (st, b)"
      using assms(3) by (auto simp: conclude_def split: prod.splits sum.splits)
    then show ?thesis using abandon_frees [OF ok1 _ v] ok_abandon [OF ok1, of e' k h] False by auto
  qed
qed

end

text \<open>A store of replies, and a router over it.\<close>

locale reply_store = idempotency_store claim finish abandon ok view covers norm
  for claim :: "'e \<Rightarrow> idem_key \<Rightarrow> string \<Rightarrow> 's \<Rightarrow> reply_body claim_result res \<times> 's"
    and finish and abandon and ok and view and covers and norm
begin

lemma new_request_runs:
  assumes "ok s" "keyed repr split_url r q w = Some (h, c, k, bh, w1)" "view (fst env) s k = None"
    and "claim (fst env) k bh s = (Inr cr, s1)"
    and "dispatch claim finish abandon repr split_url r env q w s = (Some p, w2, s2)"
  shows "cr = ClaimNew \<and> w2 = snd (invoke h c w1) \<and> p = reply_of (fst (invoke h c w1)) \<and>
    conclude finish abandon (snd env) (Go (p, Some (k, bh))) s1 = (Some p, s2)"
proof -
  have n: "cr = ClaimNew" using claim_free [OF assms(1,3,4)] .
  obtain x w' where i: "invoke h c w1 = (x, w')" by fastforce
  have d: "conclude finish abandon (snd env) (Go (reply_of x, Some (k, bh))) s1 = (Some p, s2)" "w' = w2"
    using assms(5) unfolding keyed_dispatch [OF assms(2)] using assms(4) n i by (auto split: prod.splits)
  then have "p = reply_of x" by (auto simp: conclude_def split: prod.splits sum.splits if_splits)
  with d n i show ?thesis by simp
qed

lemma known_request_answered:
  assumes "ok s" "keyed repr split_url r q w = Some (h, c, k, bh, w1)" "view (fst env) s k = Some (bh, Some (st, b))"
    and "claim (fst env) k bh s = (Inr cr, s1)"
  shows "dispatch claim finish abandon repr split_url r env q w s = (Some (st, b), w1, s1)"
  using claim_known [OF assms(1,3,4)] unfolding keyed_dispatch [OF assms(2)] by (simp add: assms(4))

lemma repeat_answered:
  assumes "ok s" "keyed repr split_url r q w = Some (h, c, k, bh, w1)" "view (fst env) s k = None"
    and "claim (fst env) k bh s = (Inr cr, s1)"
    and "dispatch claim finish abandon repr split_url r env q w s = (Some (st, b), w2, s2)"
    and "ok s3" "view (fst env') s3 k = view (fst env') s2 k" "covers (fst env) (fst env')" "st < 500"
    and "keyed repr split_url r q' w3 = Some (h', c', k, bh, w4)" "claim (fst env') k bh s3 = (Inr cr', s4)"
  shows "dispatch claim finish abandon repr split_url r env' q' w3 s3 = (Some (st, norm b), w4, s4)"
proof -
  note n = new_request_runs [OF assms(1-5)]
  then have new: "claim (fst env) k bh s = (Inr ClaimNew, s1)"
    and c: "conclude finish abandon (snd env) (Go ((st, b), Some (k, bh))) s1 = (Some (st, b), s2)" using assms(4) by blast+
  have "view (fst env') s2 k = Some (bh, Some (st, norm b))"
    using finished_view [OF assms(1) new c assms(8)] assms(9) by simp
  then show ?thesis using known_request_answered [OF assms(6,10) _ assms(11)] assms(7) by simp
qed

lemma failed_freed:
  assumes "ok s" "keyed repr split_url r q w = Some (h, c, k, bh, w1)" "view (fst env) s k = None"
    and "claim (fst env) k bh s = (Inr cr, s1)"
    and "dispatch claim finish abandon repr split_url r env q w s = (Some (st, b), w2, s2)"
    and "covers (fst env) later" "500 \<le> st"
  shows "ok s2 \<and> view later s2 k = None"
proof -
  note n = new_request_runs [OF assms(1-5)]
  then have new: "claim (fst env) k bh s = (Inr ClaimNew, s1)"
    and c: "conclude finish abandon (snd env) (Go ((st, b), Some (k, bh))) s1 = (Some (st, b), s2)" using assms(4) by blast+
  show ?thesis using finished_view [OF assms(1) new c assms(6)] assms(7) by simp
qed

end

interpretation mem_reply: reply_store idem_claim idem_finish idem_abandon "idem_ttl ttl" idem_view
    "\<lambda>now later. later < now + ttl" "\<lambda>b. b"
  for ttl
  by unfold_locales

interpretation pg_reply: reply_store "pg_claim service ttl" "pg_finish jsonb service" "pg_abandon service"
    dict_wf "pg_idem_view service" "\<lambda>e later. pg_now later < pg_now e + ttl" jsonb
  for service ttl jsonb
  by unfold_locales

section \<open>Rate limit\<close>

text \<open>The windows (identity and minute) of the requests a run accepts, exempt paths apart.\<close>

fun rate_accepted :: "nat \<Rightarrow> string set \<Rightarrow> (real \<times> request_context) list \<Rightarrow> rate_windows \<Rightarrow> (string \<times> int) list" where
  "rate_accepted limit exempt [] d = []"
| "rate_accepted limit exempt ((now, c) # rest) d =
     (case rate_limit limit exempt now c d of
        (Inl _, d') \<Rightarrow> rate_accepted limit exempt rest d'
      | (Inr _, d') \<Rightarrow>
          (if rq_path c \<in> exempt then [] else [(rate_identity c, \<lfloor>now / 60\<rfloor>)]) @ rate_accepted limit exempt rest d')"

lemma accepted_minute:
  "sorted (t # map fst reqs) \<Longrightarrow> key \<in> set (rate_accepted limit exempt reqs d) \<Longrightarrow> \<lfloor>t / 60\<rfloor> \<le> snd key"
proof (induction reqs arbitrary: t d)
  case (Cons q reqs)
  obtain now c where q: "q = (now, c)" by (cases q)
  have le: "\<lfloor>t / 60\<rfloor> \<le> \<lfloor>now / 60\<rfloor>" using Cons.prems(1) q by (intro floor_mono) simp
  obtain r d' where r: "rate_limit limit exempt now c d = (r, d')" by fastforce
  have s: "sorted (now # map fst reqs)" using Cons.prems(1) q by simp
  show ?case
  proof (cases "key \<in> set (rate_accepted limit exempt reqs d')")
    case True
    then show ?thesis using Cons.IH [OF s] le by fastforce
  next
    case False
    then have "key = (rate_identity c, \<lfloor>now / 60\<rfloor>)" using Cons.prems(2) q r by (auto split: sum.splits if_splits)
    then show ?thesis using le by simp
  qed
qed simp

lemma rate_limit_counts:
  assumes "dict_wf d" "rate_limit limit exempt now c d = (r, d')" "rq_path c \<notin> exempt"
  shows "dict_wf d'" "rate_count (rate_identity c, \<lfloor>now / 60\<rfloor>) d' = rate_count (rate_identity c, \<lfloor>now / 60\<rfloor>) d + 1"
    "r = Inr x \<Longrightarrow> rate_count (rate_identity c, \<lfloor>now / 60\<rfloor>) d + 1 \<le> limit"
    "key \<noteq> (rate_identity c, \<lfloor>now / 60\<rfloor>) \<Longrightarrow> \<lfloor>now / 60\<rfloor> - 1 \<le> snd key \<Longrightarrow> rate_count key d' = rate_count key d"
proof -
  let ?k = "(rate_identity c, \<lfloor>now / 60\<rfloor>)"
  let ?d1 = "dict_set ?k (rate_count ?k d + 1) d"
  let ?keep = "\<lambda>(k, v). \<lfloor>now / 60\<rfloor> - 1 \<le> snd k"
  have d': "d' = (if 10000 < length ?d1 then filter ?keep ?d1 else ?d1)"
    using assms(2,3) by (auto simp: rate_limit_def Let_def split: if_splits)
  have w: "dict_wf ?d1" using assms(1) by simp
  then show "dict_wf d'" using d' by (simp add: distinct_map_filter)
  have get: "map_of d' k = map_of ?d1 k" if "\<lfloor>now / 60\<rfloor> - 1 \<le> snd k" for k
  proof -
    have "map_of (filter ?keep xs) k = map_of xs k" for xs :: rate_windows
      using that by (induction xs) auto
    then show ?thesis using d' by simp
  qed
  show "rate_count ?k d' = rate_count ?k d + 1" using get [of ?k] by (simp add: rate_count_def dict_simps)
  show "r = Inr x \<Longrightarrow> rate_count ?k d + 1 \<le> limit"
    using assms(2,3) by (auto simp: rate_limit_def Let_def split: if_splits)
  show "key \<noteq> ?k \<Longrightarrow> \<lfloor>now / 60\<rfloor> - 1 \<le> snd key \<Longrightarrow> rate_count key d' = rate_count key d"
    using get [of key] by (simp add: rate_count_def dict_simps)
qed

lemma rate_bounded:
  "dict_wf d \<Longrightarrow> sorted (map fst reqs) \<Longrightarrow> count_list (rate_accepted limit exempt reqs d) key \<le> limit - rate_count key d"
proof (induction reqs arbitrary: d)
  case (Cons q reqs)
  obtain now c where q: "q = (now, c)" by (cases q)
  let ?k = "(rate_identity c, \<lfloor>now / 60\<rfloor>)"
  obtain r d' where r: "rate_limit limit exempt now c d = (r, d')" by fastforce
  have s: "sorted (map fst reqs)" "sorted (now # map fst reqs)" using Cons.prems(2) q by auto
  show ?case
  proof (cases "rq_path c \<in> exempt")
    case True
    then have "r = Inr c" "d' = d" using r by (auto simp: rate_limit_def)
    then show ?thesis using Cons.IH [OF Cons.prems(1) s(1)] q r True by simp
  next
    case False
    note m = rate_limit_counts [OF Cons.prems(1) r False]
    note IH = Cons.IH [OF m(1) s(1)]
    show ?thesis
    proof (cases "key = ?k")
      case True
      then show ?thesis using IH m(2,3) q r False by (cases r) auto
    next
      case other: False
      have "count_list (rate_accepted limit exempt reqs d') key \<le> limit - rate_count key d"
      proof (cases "\<lfloor>now / 60\<rfloor> - 1 \<le> snd key")
        case True
        then show ?thesis using IH m(4) other by simp
      next
        case False
        then have "key \<notin> set (rate_accepted limit exempt reqs d')" using accepted_minute [OF s(2)] by fastforce
        then show ?thesis by (simp add: count_list_0_iff)
      qed
      then show ?thesis using other q r by (cases r) auto
    qed
  qed
qed simp

section \<open>Properties\<close>

text \<open>A router with one idempotent route whose handler counts its calls, and a request to it.\<close>

definition example_router :: "nat router" where
  "example_router = require_idempotency [''/v1/contacts'']
     (route ''post'' ''/v1/contacts'' (PlainHandler (\<lambda>body n. (Inr (201, JsonBody (JInt (int n))), Suc n)))
       \<lparr>rt_routes = [], rt_max_body_bytes = 1048576, rt_middlewares = [], rt_idempotent_paths = {}\<rparr>)"

definition example_request :: raw_request where
  "example_request = \<lparr>hq_command = ''POST'', hq_target = ''/v1/contacts?x=1'',
     hq_headers = [(''content-length'', ''17''), (''Content-Type'', ''Application/JSON; charset=utf-8''),
       (''Idempotency-Key'', ''0123456789abcdef'')],
     hq_read = (\<lambda>n. Inr (take n ''{\"tenant_id\":\"t\"}'')), hq_client = ''10.0.0.1''\<rparr>"

definition example_context :: request_context where
  "example_context = \<lparr>rq_body = ''{\"tenant_id\":\"t\"}'', rq_json = [(''tenant_id'', JStr ''t'')],
     rq_headers = [(''content-length'', ''17''), (''content-type'', ''Application/JSON; charset=utf-8''),
       (''idempotency-key'', ''0123456789abcdef'')],
     rq_query = [], rq_method = ''POST'', rq_path = ''/v1/contacts'', rq_client_ip = ''10.0.0.1''\<rparr>"

lemma example_read: "read_context (\<lambda>u. (before (CHR ''?'') u, [])) 1048576 example_request = Inr (Go example_context)"
  by code_simp

lemma example_keyed:
  "\<exists>h bh. keyed repr (\<lambda>u. (before (CHR ''?'') u, [])) example_router example_request n =
      Some (h, example_context, (''t'', ''0123456789abcdef''), bh, n) \<and>
    invoke h example_context n = (Inr (201, JsonBody (JInt (int n))), Suc n)"
proof -
  have "rt_max_body_bytes example_router = 1048576" "rt_middlewares example_router = []"
    by (simp_all add: example_router_def require_idempotency_def route_def)
  moreover have "map_of (rt_routes example_router) (hq_command example_request, before (CHR ''?'') (hq_target example_request)) =
      Some (PlainHandler (\<lambda>body n. (Inr (201, JsonBody (JInt (int n))), Suc n)))"
  proof -
    have "py_upper ''post'' = ''POST''" by code_simp
    then show ?thesis by (simp add: example_router_def require_idempotency_def route_def example_request_def before_def)
  qed
  moreover have "rq_path example_context \<in> rt_idempotent_paths example_router"
    by (simp add: example_router_def require_idempotency_def route_def example_context_def)
  ultimately show ?thesis
    by (simp add: keyed_def example_read idem_request_def dict_get_or_def tenant_of_def)
      (simp add: example_context_def)
qed

text \<open>
  C23: a request with an idempotency key is carried out at most once while the key is remembered:
  the first one runs the handler and answers with its result, and a repetition with the same
  key and body gets the same answer, from the record, with no state changed but by the
  middlewares, whatever happened in between that did not touch the key.
\<close>

theorem repeated_request_replayed:
  assumes "idem_ttl ttl s" "keyed repr split_url r q w = Some (h, c, k, bh, w1)" "idem_view (fst env) s k = None"
    and "idem_claim (fst env) k bh s = (Inr cr, s1)"
    and "dispatch idem_claim idem_finish idem_abandon repr split_url r env q w s = (Some (st, b), w2, s2)" "st < 500"
    and "idem_ttl ttl s3" "idem_view (fst env') s3 k = idem_view (fst env') s2 k" "fst env' < fst env + ttl"
    and "keyed repr split_url r q' w3 = Some (h', c', k, bh, w4)"
  shows "(st, b) = reply_of (fst (invoke h c w1)) \<and> w2 = snd (invoke h c w1) \<and>
    (\<exists>s4. dispatch idem_claim idem_finish idem_abandon repr split_url r env' q' w3 s3 = (Some (st, b), w4, s4))"
proof -
  note n = mem_reply.new_request_runs [OF assms(1-5)]
  then have new: "idem_claim (fst env) k bh s = (Inr ClaimNew, s1)"
    and c: "conclude idem_finish idem_abandon (snd env) (Go ((st, b), Some (k, bh))) s1 = (Some (st, b), s2)"
    using assms(4) by blast+
  have "idem_view (fst env') s3 k = Some (bh, Some (st, b))"
    using mem_idem.finished_view [OF assms(1) new c assms(9)] assms(6,8) by simp
  then have "fst (idem_claim (fst env') k bh s3) = Inr (ClaimCached st b)"
    using idem_claim_known assms(7) by (fastforce simp: idem_ttl_def)
  then obtain s4 where "idem_claim (fst env') k bh s3 = (Inr (ClaimCached st b), s4)" by (metis prod.collapse)
  from mem_reply.repeat_answered [OF assms(1-5,7,8,9,6,10) this] n show ?thesis by blast
qed

theorem repeated_request_replayed_witness:
  "let store = \<lparr>mi_service_name = ''crm'', mi_ttl_seconds = 86400, mi_max_entries = 10, mi_values = []\<rparr>;
       serve = dispatch idem_claim idem_finish idem_abandon (\<lambda>_. []) (\<lambda>u. (before (CHR ''?'') u, [])) example_router;
       first = serve (0, 1) example_request 7 store;
       again = serve (60, 61) example_request 8 (snd (snd first))
   in fst first = Some (201, JsonBody (JInt 7)) \<and> fst (snd first) = 8 \<and>
      fst again = Some (201, JsonBody (JInt 7)) \<and> fst (snd again) = 8"
proof -
  let ?s = "\<lparr>mi_service_name = ''crm'', mi_ttl_seconds = 86400, mi_max_entries = 10, mi_values = []\<rparr> :: reply_body mem_idem"
  let ?serve = "dispatch idem_claim idem_finish idem_abandon (\<lambda>_. []) (\<lambda>u. (before (CHR ''?'') u, [])) example_router"
  let ?env = "(0, 1) :: real \<times> real"
  let ?later = "(60, 61) :: real \<times> real"
  let ?k = "(''t'', ''0123456789abcdef'')"
  obtain h bh where h: "keyed (\<lambda>_. []) (\<lambda>u. (before (CHR ''?'') u, [])) example_router example_request 7 =
      Some (h, example_context, ?k, bh, 7)" "invoke h example_context 7 = (Inr (201, JsonBody (JInt 7)), 8)"
    using example_keyed [of "\<lambda>_. []" 7] by auto
  obtain h' bh' where h': "keyed (\<lambda>_. []) (\<lambda>u. (before (CHR ''?'') u, [])) example_router example_request 8 =
      Some (h', example_context, ?k, bh', 8)" using example_keyed [of "\<lambda>_. []" 8] by auto
  have "bh' = bh" using h(1) h' by (auto simp: keyed_def idem_request_def split: option.splits sum.splits step.splits prod.splits if_splits)
  note h' = h' [unfolded this]
  have v: "idem_view (fst ?env) ?s ?k = None" by (simp add: idem_view_def)
  obtain s1 where c: "idem_claim (fst ?env) ?k bh ?s = (Inr ClaimNew, s1)"
    by (simp add: idem_claim_def Let_def idem_live_def)
  obtain s2 where first: "?serve ?env example_request 7 ?s = (Some (201, JsonBody (JInt 7)), 8, s2)"
  proof -
    have "\<exists>s2. ?serve ?env example_request 7 ?s = (Some (201, JsonBody (JInt 7)), 8, s2)"
      unfolding keyed_dispatch [OF h(1)] using c h(2)
      by (simp add: reply_of_def conclude_def idem_finish_def split: option.split)
    then show thesis using that by blast
  qed
  have ok: "idem_ttl 86400 ?s" by (simp add: idem_ttl_def idem_ok_def)
  have p: "reply_of (fst (invoke h example_context 7)) = (201, JsonBody (JInt 7))" using h(2) by (simp add: reply_of_def)
  have "conclude idem_finish idem_abandon (snd ?env) (Go ((201, JsonBody (JInt 7)), Some (?k, bh))) s1 =
      (Some (201, JsonBody (JInt 7)), s2)"
    using mem_reply.new_request_runs [OF ok h(1) v c first] by blast
  then have ok2: "idem_ttl 86400 s2" using mem_idem.finished_view [OF ok c, of _ _ _ _ _ 0] by simp
  obtain s4 where "?serve ?later example_request 8 s2 = (Some (201, JsonBody (JInt 7)), 8, s4)"
    using repeated_request_replayed [OF ok h(1) v c first _ ok2 refl _ h', of "?later"] by auto
  then show ?thesis using first by (simp add: Let_def)
qed

text \<open>
  C24: no identity passes more requests in a calendar minute than the limit, whatever the order and
  number of requests, on a clock that does not run backwards; pruning the windows loses no count.
\<close>

theorem rate_limit_holds:
  assumes "sorted (map fst reqs)"
  shows "count_list (rate_accepted limit exempt reqs []) (identity, minute) \<le> limit"
  using rate_bounded [of "[]" reqs limit exempt "(identity, minute)"] assms by simp

theorem rate_limit_holds_witness:
  "count_list (rate_accepted 2 {''/health''} [(0, example_context), (10, example_context), (20, example_context)] [])
     (''10.0.0.1'', 0) \<le> 2"
  by (rule rate_limit_holds) simp

text \<open>
  The service name the later middlewares and handlers see cannot be supplied by the caller: on a
  checked path it is the service whose signature over method, path and body was verified, and
  on an exempt path there is none.
\<close>

theorem authenticated_service_verified:
  assumes "workload_auth remember repr secrets exempt clock c s = (Inr c', s')" "dict_wf (rq_headers c)"
  shows "if rq_path c \<in> exempt then map_of (rq_headers c') ''x-atlantis-authenticated-service'' = None
    else \<exists>service secret. map_of (rq_headers c') ''x-atlantis-authenticated-service'' = Some service \<and>
      map_of secrets service = Some secret \<and> 32 \<le> length secret \<and>
      dict_get_or [] (rq_headers c) ''x-atlantis-signature'' = hmac_hexdigest secret
        (request_canonical (dict_get_or [] (rq_headers c) ''x-atlantis-timestamp'') (dict_get_or [] (rq_headers c) ''x-atlantis-nonce'')
          (rq_method c) (rq_path c) (rq_body c)) \<and>
      rq_json c' = rq_json c \<and> rq_body c' = rq_body c"
  using assms
  by (auto simp: workload_auth_def Let_def workload_verify_Inr dict_simps dict_get_or_def
      split: if_splits prod.splits sum.splits dest!: workload_check_Inr(4))

theorem authenticated_service_verified_witness:
  "let secret = replicate 32 (CHR ''k'');
       signature = hmac_hexdigest secret (request_canonical ''990'' ''n'' ''POST'' ''/v1/contacts'' (rq_body example_context));
       c = example_context\<lparr>rq_headers := [(''x-atlantis-authenticated-service'', ''admin''), (''x-atlantis-service'', ''crm-api''),
             (''x-atlantis-timestamp'', ''990''), (''x-atlantis-nonce'', ''n''), (''x-atlantis-signature'', signature)]\<rparr>;
       store = \<lparr>mn_ttl_seconds = 120, mn_max_entries = 5, mn_values = []\<rparr>
   in \<exists>c'. fst (workload_auth (mem_remember 0) (\<lambda>_. []) [(''crm-api'', secret)] {} 1000 c store) = Inr c' \<and>
        map_of (rq_headers c') ''x-atlantis-authenticated-service'' = Some ''crm-api''"
proof -
  let ?secret = "replicate 32 (CHR ''k'')"
  let ?sig = "hmac_hexdigest ?secret (request_canonical ''990'' ''n'' ''POST'' ''/v1/contacts'' (rq_body example_context))"
  let ?c = "example_context\<lparr>rq_headers := [(''x-atlantis-authenticated-service'', ''admin''), (''x-atlantis-service'', ''crm-api''),
             (''x-atlantis-timestamp'', ''990''), (''x-atlantis-nonce'', ''n''), (''x-atlantis-signature'', ?sig)]\<rparr>"
  let ?s = "\<lparr>mn_ttl_seconds = 120, mn_max_entries = 5, mn_values = []\<rparr>"
  have t: "py_int ''990'' = Some 990" by code_simp
  obtain c' s' where r: "workload_auth (mem_remember 0) (\<lambda>_. []) [(''crm-api'', ?secret)] {} 1000 ?c ?s = (Inr c', s')"
    by (simp add: Let_def workload_auth_def workload_verify_def workload_check_def t dict_get_or_def
        example_context_def tenant_of_def mem_remember_def live_nonces_def has_key_def)
  from authenticated_service_verified [OF this] have
    "\<exists>service. map_of (rq_headers c') ''x-atlantis-authenticated-service'' = Some service \<and>
      map_of [(''crm-api'', ?secret)] service = Some (?secret :: string)"
    by (auto split: if_splits)
  then show ?thesis using r by (auto simp: Let_def split: if_splits)
qed

end
