(* ===== verification/Client.thy ===== *)
theory Client
  imports Http
begin

text \<open>
  shared/atlantis\_contracts/client.py and config.py, and the configuration of the middlewares:
  the signed call of one service by another, secrets and data source names from the
  environment, and which checks a process starts with. \<open>urlparse\<close>, the splitting of a data source
  name, the connection and the files are parameters.
\<close>

section \<open>Strings the standard library makes\<close>

text \<open>The truth value of an optional string.\<close>

definition given :: "string option \<Rightarrow> bool" where
  "given v = (case v of None \<Rightarrow> False | Some s \<Rightarrow> s \<noteq> [])"

text \<open>What \<open>urlparse\<close> returns; \<open>None\<close> is a \<open>ValueError\<close> of it or of \<open>.port\<close>.\<close>

record parsed_url =
  pu_scheme :: string
  pu_hostname :: "string option"
  pu_username :: "string option"
  pu_password :: "string option"
  pu_port :: "int option"
  pu_path :: string
  pu_query :: string
  pu_fragment :: string

definition rstrip_slash :: "string \<Rightarrow> string" where
  "rstrip_slash s = rev (dropWhile (\<lambda>c. c = CHR ''/'') (rev s))"

text \<open>The code points of a text in UTF-8.\<close>

definition utf8_length :: "nat \<Rightarrow> nat" where
  "utf8_length n = (if n < 128 then 0 else if n < 224 then 1 else if n < 240 then 2 else 3)"

definition utf8_lead :: "nat \<Rightarrow> nat" where
  "utf8_lead n = (if n < 128 then n else if n < 224 then n mod 32 else if n < 240 then n mod 16 else n mod 8)"

function code_points :: "string \<Rightarrow> nat list" where
  "code_points [] = []"
| "code_points (c # cs) =
     (let k = utf8_length (code c) in
      foldl (\<lambda>v x. 64 * v + code x mod 64) (utf8_lead (code c)) (take k cs) # code_points (drop k cs))"
  by pat_completeness auto

termination
  by (relation "measure length") auto

definition u_escape :: "nat \<Rightarrow> string" where
  "u_escape n = [CHR 0x5C, CHR ''u''] @ map (\<lambda>i. hex_digit (n div 16 ^ (3 - i) mod 16)) [0..<4]"

definition ascii_escape :: "nat \<Rightarrow> string" where
  "ascii_escape n =
     (if n < 127 then (if 32 \<le> n \<or> n \<in> {8, 9, 10, 12, 13} then esc_char (char_of n) else u_escape n)
      else if n < 65536 then u_escape n
      else u_escape (55296 + (n - 65536) div 1024) @ u_escape (56320 + (n - 65536) mod 1024))"

definition ascii_quote :: "string \<Rightarrow> string" where
  "ascii_quote s = CHR 0x22 # concat (map ascii_escape (code_points s)) @ [CHR 0x22]"

text \<open>\<open>json.dumps(value, separators=(",", ":"), sort_keys=True)\<close>, which escapes what is not ASCII.\<close>

fun ascii_json :: "json \<Rightarrow> string" where
  "ascii_json JNull = ''null''"
| "ascii_json (JBool b) = (if b then ''true'' else ''false'')"
| "ascii_json (JInt i) = int_dec i"
| "ascii_json (JFloat s) = s"
| "ascii_json (JStr s) = ascii_quote s"
| "ascii_json (JList vs) = ''['' @ py_join '','' (map ascii_json vs) @ '']''"
| "ascii_json (JObj kvs) =
     ''{'' @ py_join '','' (map (\<lambda>(k, t). ascii_quote k @ '':'' @ t)
        (sort_key fst (map (\<lambda>(k, v). (k, ascii_json v)) kvs))) @ ''}''"

section \<open>The service client\<close>

record service_client =
  sv_base_url :: string
  sv_service_id :: string
  sv_secret :: bytes

text \<open>\<open>__init__\<close>; the TLS context is not modelled.\<close>

definition client_init ::
  "(string \<Rightarrow> parsed_url option) \<Rightarrow> string \<Rightarrow> string \<Rightarrow> bytes \<Rightarrow> string set \<Rightarrow> service_client res" where
  "client_init urlparse base_url service_id secret allow_http_hosts =
     (case urlparse base_url of
        None \<Rightarrow> raise ValueError ''URL''
      | Some u \<Rightarrow>
          (let secure = (pu_scheme u = ''https'');
               shadow_http = (pu_scheme u = ''http'' \<and> (case pu_hostname u of None \<Rightarrow> False | Some h \<Rightarrow> h \<in> allow_http_hosts))
           in if \<not> (secure \<or> shadow_http) \<or> \<not> given (pu_hostname u) \<or> given (pu_username u) \<or> given (pu_password u) \<or>
                 pu_path u \<notin> {[], ''/''}
              then raise ValueError ''INTERNAL_SERVICE_URL_MUST_USE_HTTPS''
              else if length secret < 32 then raise ValueError ''WORKLOAD_SECRET_TOO_SHORT''
              else Inr \<lparr>sv_base_url = rstrip_slash base_url, sv_service_id = service_id, sv_secret = secret\<rparr>))"

record service_request =
  sq_url :: string
  sq_body :: bytes
  sq_headers :: "(string, string) dict"

record service_response =
  sr_headers :: "(string \<times> string) list"
  sr_body :: bytes

definition client_request ::
  "service_client \<Rightarrow> int \<Rightarrow> string \<Rightarrow> string \<Rightarrow> string \<Rightarrow> (string \<times> json) list \<Rightarrow> service_request" where
  "client_request sc timestamp nonce key path body =
     (let payload = ascii_json (JObj body) in
      \<lparr>sq_url = sv_base_url sc @ path, sq_body = payload,
       sq_headers = [(''Content-Type'', ''application/json''), (''X-Atlantis-Service'', sv_service_id sc),
         (''X-Atlantis-Timestamp'', int_dec timestamp), (''X-Atlantis-Nonce'', nonce),
         (''X-Atlantis-Signature'', sign_workload_request (sv_secret sc) timestamp nonce ''POST'' path payload),
         (''Idempotency-Key'', key)]\<rparr>)"

text \<open>The answer of the other service, read up to one byte more than is allowed.\<close>

definition response_json :: "service_response \<Rightarrow> json res" where
  "response_json r =
     (if py_lower (before (CHR '';'') (case header_get (sr_headers r) ''Content-Type'' of None \<Rightarrow> [] | Some t \<Rightarrow> t)) \<noteq> ''application/json''
      then raise ServiceClientError ''INTERNAL_SERVICE_CONTENT_TYPE_INVALID''
      else
        rbind (of_option (Exn ValueError ''invalid literal for int()'')
                (py_int (case header_get (sr_headers r) ''Content-Length'' of None \<Rightarrow> ''0'' | Some l \<Rightarrow> if l = [] then ''0'' else l)))
          (\<lambda>size.
            if size < 0 \<or> 1048576 < size then raise ServiceClientError ''INTERNAL_SERVICE_RESPONSE_TOO_LARGE''
            else (let payload = take 1048577 (sr_body r) in
              if 1048576 < length payload then raise ServiceClientError ''INTERNAL_SERVICE_RESPONSE_TOO_LARGE''
              else of_option (Exn ValueError ''JSON_DECODE_ERROR'') (json_loads payload))))"

text \<open>
  \<open>post\<close>; \<open>key\<close> is the idempotency key given or a fresh one, \<open>open_url\<close> the connection, which
  refuses redirects with a ServiceClientError.
\<close>

definition client_post ::
  "(service_request \<Rightarrow> 'w \<Rightarrow> service_response res \<times> 'w) \<Rightarrow> service_client \<Rightarrow> int \<Rightarrow> string \<Rightarrow> string \<Rightarrow> string
    \<Rightarrow> (string \<times> json) list \<Rightarrow> 'w \<Rightarrow> json res \<times> 'w" where
  "client_post open_url sc timestamp nonce key path body w =
     (if \<not> truthy (dict_get_or JNull body ''tenant_id'') then (raise ValueError ''WORKLOAD_TENANT_REQUIRED'', w)
      else (case open_url (client_request sc timestamp nonce key path body) w of
              (r, w') \<Rightarrow>
                (case rbind r response_json of
                   Inr j \<Rightarrow> (Inr j, w')
                 | Inl x \<Rightarrow>
                     (if exn_cls x = URLError \<or> is_value_error x then raise ServiceClientError ''INTERNAL_SERVICE_FAILURE''
                      else Inl x, w'))))"

section \<open>Configuration\<close>

definition env_int :: "environ \<Rightarrow> string \<Rightarrow> string \<Rightarrow> int res" where
  "env_int env name d = of_option (Exn ValueError ''invalid literal for int()'') (py_int (getenv env name d))"

definition env_true :: "environ \<Rightarrow> string \<Rightarrow> string \<Rightarrow> bool" where
  "env_true env name d = (py_lower (getenv env name d) = ''true'')"

definition development :: "environ \<Rightarrow> bool" where
  "development env = (getenv env ''ATLANTIS_ENV'' ''development'' = ''development'')"

definition text_secret :: "(string \<Rightarrow> string res) \<Rightarrow> environ \<Rightarrow> string \<Rightarrow> string res" where
  "text_secret read_text env name =
     (let file_name = getenv env (name @ ''_FILE'') [] in
      if file_name \<noteq> [] then rbind (read_text file_name) (\<lambda>text. Inr (py_strip text))
      else Inr (py_strip (getenv env name [])))"

text \<open>\<open>quote(s, safe="")\<close>.\<close>

definition upper_hex :: "nat \<Rightarrow> char" where
  "upper_hex n = ascii_upper (hex_digit n)"

definition url_quote :: "string \<Rightarrow> string" where
  "url_quote s = concat (map (\<lambda>c.
     if is_digit c \<or> ascii_upper c \<noteq> c \<or> ascii_lower c \<noteq> c \<or> c \<in> {CHR ''_'', CHR ''.'', CHR ''-'', CHR ''~''} then [c]
     else [CHR ''%'', upper_hex (code c div 16), upper_hex (code c mod 16)]) s)"

text \<open>
  \<open>_postgres_tls_dsn\<close>: \<open>split_dsn\<close> is \<open>urlsplit\<close> with \<open>parse_qsl\<close> of the query, \<open>join_dsn\<close> the
  way back with another query.
\<close>

definition tls_mode :: "environ \<Rightarrow> (string, string) dict \<Rightarrow> string" where
  "tls_mode env query =
     (let configured = py_strip (getenv env ''ATLANTIS_DATABASE_SSLMODE'' []); own = dict_get_or [] query ''sslmode'' in
      if configured \<noteq> [] then configured else if own \<noteq> [] then own
      else if development env then [] else ''verify-full'')"

definition tls_query :: "environ \<Rightarrow> (string, string) dict \<Rightarrow> (string, string) dict" where
  "tls_query env query =
     fold (\<lambda>(env_name, query_name) q.
        let value = py_strip (getenv env env_name []) in if value \<noteq> [] then dict_set query_name value q else q)
       [(''ATLANTIS_DATABASE_SSLROOTCERT'', ''sslrootcert''), (''ATLANTIS_DATABASE_SSLCERT'', ''sslcert''),
        (''ATLANTIS_DATABASE_SSLKEY'', ''sslkey'')] query"

definition postgres_tls_dsn ::
  "(string \<Rightarrow> 'p \<times> (string, string) dict) \<Rightarrow> ('p \<Rightarrow> (string, string) dict \<Rightarrow> string) \<Rightarrow> environ \<Rightarrow> string \<Rightarrow> string res" where
  "postgres_tls_dsn split_dsn join_dsn env dsn =
     (case split_dsn dsn of
        (p, query) \<Rightarrow>
          (let mode = tls_mode env query in
           if \<not> development env \<and> mode \<noteq> ''verify-full'' then raise RuntimeError ''POSTGRES_SSLMODE_VERIFY_FULL_REQUIRED''
           else Inr (join_dsn p (tls_query env (if mode \<noteq> [] then dict_set ''sslmode'' mode query else query)))))"

definition postgres_dsn ::
  "(string \<Rightarrow> 'p \<times> (string, string) dict) \<Rightarrow> ('p \<Rightarrow> (string, string) dict \<Rightarrow> string) \<Rightarrow> (string \<Rightarrow> string res) \<Rightarrow> environ \<Rightarrow> string res" where
  "postgres_dsn split_dsn join_dsn read_text env =
     (let direct = py_strip (getenv env ''ATLANTIS_DATABASE_URL'' []) in
      if direct \<noteq> [] then postgres_tls_dsn split_dsn join_dsn env direct
      else rbind (text_secret read_text env ''ATLANTIS_DATABASE_PASSWORD'') (\<lambda>password.
        if password = [] then Inr []
        else postgres_tls_dsn split_dsn join_dsn env
          (''postgresql://'' @ url_quote (getenv env ''ATLANTIS_DATABASE_USER'' ''atlantis_runtime'') @ '':'' @ url_quote password @
           ''@'' @ getenv env ''ATLANTIS_DATABASE_HOST'' ''postgres'' @ '':'' @ getenv env ''ATLANTIS_DATABASE_PORT'' ''5432'' @ ''/'' @
           getenv env ''ATLANTIS_DATABASE_NAME'' ''atlantis'')))"

text \<open>\<open>WorkloadAuthMiddleware.from_environment\<close>: the secrets and the nonce store.\<close>

fun secrets_of :: "(string \<times> json) list \<Rightarrow> (string, bytes) dict res" where
  "secrets_of [] = Inr []"
| "secrets_of ((k, JStr v) # rest) = rbind (secrets_of rest) (\<lambda>d. Inr ((k, v) # d))"
| "secrets_of _ = raise AttributeError ''encode''"

definition workload_from_environment ::
  "(string \<Rightarrow> string res) \<Rightarrow> (environ \<Rightarrow> string res) \<Rightarrow> environ \<Rightarrow> ((string, bytes) dict \<times> store_choice) res" where
  "workload_from_environment read_text dsn env =
     (let path = getenv env ''ATLANTIS_WORKLOAD_SECRETS_FILE'' [] in
      if path = [] then raise RuntimeError ''ATLANTIS_WORKLOAD_SECRETS_FILE_REQUIRED''
      else
        rbind (read_text path) (\<lambda>text.
        rbind (of_option (Exn ValueError ''JSON_DECODE_ERROR'') (json_loads text)) (\<lambda>values.
          case values of
            JObj kvs \<Rightarrow> rbind (secrets_of kvs) (\<lambda>secrets. rbind (build_nonce_store dsn env) (\<lambda>store. Inr (secrets, store)))
          | _ \<Rightarrow> raise AttributeError ''items'')))"

text \<open>\<open>configure_workload_auth\<close>: \<open>None\<close> when the process runs without the middleware.\<close>

definition configure_workload_auth ::
  "(string \<Rightarrow> string res) \<Rightarrow> (environ \<Rightarrow> string res) \<Rightarrow> environ \<Rightarrow> ((string, bytes) dict \<times> store_choice) option res" where
  "configure_workload_auth read_text dsn env =
     (if env_true env ''ATLANTIS_REQUIRE_WORKLOAD_AUTH'' (if \<not> development env then ''true'' else ''false'')
      then rbind (workload_from_environment read_text dsn env) (\<lambda>c. Inr (Some c))
      else Inr None)"

definition configure_rate_limit :: "environ \<Rightarrow> int res" where
  "configure_rate_limit env = env_int env ''ATLANTIS_RATE_LIMIT_PER_MINUTE'' ''600''"

section \<open>Properties\<close>

lemma tls_query_sslmode: "map_of (tls_query env query) ''sslmode'' = map_of query ''sslmode''"
  by (simp add: tls_query_def Let_def dict_simps)

lemma workload_from_environment_Inr:
  assumes "workload_from_environment read_text dsn env = Inr (secrets, store)"
  shows "build_nonce_store dsn env = Inr store"
proof -
  obtain v where "(case v of
      JObj kvs \<Rightarrow> rbind (secrets_of kvs) (\<lambda>secrets. rbind (build_nonce_store dsn env) (\<lambda>store. Inr (secrets, store)))
    | _ \<Rightarrow> raise AttributeError ''items'') = Inr (secrets, store)"
    using assms by (auto simp: workload_from_environment_def Let_def rbind_Inr_iff split: if_splits)
  then show ?thesis by (cases v) (auto simp: rbind_Inr_iff)
qed

text \<open>
  Outside development, and with the requirements left at their defaults, a process does not
  start unprotected: every data source name it uses verifies the server, the callers of its
  endpoints are authenticated, and both replay protection and idempotency are in PostgreSQL.
  Where something is missing the result is an exception.
\<close>

theorem production_fails_closed:
  assumes "\<not> development env" "env ''ATLANTIS_REQUIRE_WORKLOAD_AUTH'' = None" "env ''ATLANTIS_REQUIRE_DURABLE_STATE'' = None"
  shows "(postgres_tls_dsn split_dsn join_dsn env dsn = Inr dsn' \<longrightarrow>
      (\<exists>p query. dsn' = join_dsn p query \<and> map_of query ''sslmode'' = Some ''verify-full'')) \<and>
    (configure_workload_auth read_text dsn_of env = Inr c \<longrightarrow>
      (\<exists>secrets x ttl. c = Some (secrets, UsePostgres x ttl) \<and> x \<noteq> [])) \<and>
    (build_idempotency_store dsn_of env = Inr store \<longrightarrow> (\<exists>x ttl. store = UsePostgres x ttl \<and> x \<noteq> []))"
proof -
  have l: "py_lower ''true'' = ''true''" by code_simp
  have durable: "durable_state_required env"
    using assms(1,3) l by (auto simp: durable_state_required_def getenv_def development_def)
  have auth: "env_true env ''ATLANTIS_REQUIRE_WORKLOAD_AUTH'' (if \<not> development env then ''true'' else ''false'')"
    using assms(1,2) l by (simp add: env_true_def getenv_def)
  have "\<exists>p query. dsn' = join_dsn p query \<and> map_of query ''sslmode'' = Some ''verify-full''"
    if "postgres_tls_dsn split_dsn join_dsn env dsn = Inr dsn'"
  proof -
    obtain p query where q: "split_dsn dsn = (p, query)" by fastforce
    then have "dsn' = join_dsn p (tls_query env (dict_set ''sslmode'' ''verify-full'' query))"
      using that assms(1) by (auto simp: postgres_tls_dsn_def Let_def split: if_splits)
    moreover have "map_of (tls_query env (dict_set ''sslmode'' ''verify-full'' query)) ''sslmode'' = Some ''verify-full''"
      by (simp add: tls_query_sslmode dict_simps)
    ultimately show ?thesis by blast
  qed
  moreover have "\<exists>secrets x ttl. c = Some (secrets, UsePostgres x ttl) \<and> x \<noteq> []"
    if w: "configure_workload_auth read_text dsn_of env = Inr c"
  proof -
    from w auth obtain secrets st where "c = Some (secrets, st)" "build_nonce_store dsn_of env = Inr st"
      by (auto simp: configure_workload_auth_def rbind_Inr_iff dest: workload_from_environment_Inr)
    then show ?thesis using build_store_durable [OF durable] unfolding build_nonce_store_def by blast
  qed
  moreover have "\<exists>x ttl. store = UsePostgres x ttl \<and> x \<noteq> []" if "build_idempotency_store dsn_of env = Inr store"
    using that build_store_durable [OF durable] unfolding build_idempotency_store_def by blast
  ultimately show ?thesis by blast
qed

theorem production_fails_closed_witness:
  "let env = [''ATLANTIS_ENV'' \<mapsto> ''production'', ''ATLANTIS_WORKLOAD_SECRETS_FILE'' \<mapsto> ''f''];
       read = (\<lambda>_. Inr ''{}'') in
   configure_workload_auth read (\<lambda>_. Inr []) env = raise RuntimeError ''POSTGRES_NONCE_STORE_REQUIRED'' \<and>
   (\<exists>x ttl. configure_workload_auth read (\<lambda>_. Inr ''dsn'') env = Inr (Some ([], UsePostgres x ttl)) \<and> x \<noteq> [])"
proof -
  let ?env = "[''ATLANTIS_ENV'' \<mapsto> ''production'', ''ATLANTIS_WORKLOAD_SECRETS_FILE'' \<mapsto> ''f'']"
  let ?read = "\<lambda>_ :: string. Inr ''{}'' :: string res"
  have t: "py_lower ''true'' = ''true''" "py_int ''120'' = Some 120" "json_loads ''{}'' = Some (JObj [])" by code_simp+
  have e: "\<not> development ?env" by (simp add: development_def getenv_def)
  have c: "configure_workload_auth ?read dsn ?env = rbind (build_nonce_store dsn ?env) (\<lambda>st. Inr (Some ([], st)))" for dsn
    using e by (simp add: configure_workload_auth_def env_true_def getenv_def t workload_from_environment_def Let_def)
      (cases "build_nonce_store dsn ?env"; simp)
  have d: "durable_state_required ?env" by (simp add: durable_state_required_def getenv_def t)
  have n: "configure_workload_auth ?read (\<lambda>_. Inr ''dsn'') ?env = Inr (Some ([], UsePostgres ''dsn'' 120))"
    by (simp add: c build_nonce_store_def build_store_def getenv_def t)
  have f: "configure_workload_auth ?read (\<lambda>_. Inr []) ?env = raise RuntimeError ''POSTGRES_NONCE_STORE_REQUIRED''"
    unfolding c build_nonce_store_def build_store_def using d by (simp add: getenv_def t)
  have "\<exists>secrets x ttl. Some ([], UsePostgres ''dsn'' 120) = Some (secrets, UsePostgres x ttl) \<and> x \<noteq> []"
    using production_fails_closed [OF e, where read_text = ?read and dsn_of = "\<lambda>_. Inr ''dsn''"] n by simp
  then show ?thesis using n f by (simp add: Let_def)
qed

text \<open>
  C26: the call of a service client is the one a service accepts: with the same secret, clocks at
  most a minute apart and a nonce not seen before, the middleware authenticates it as the
  client, for any body and path.
\<close>

theorem client_request_authenticated:
  assumes "client_init urlparse base_url service_id secret hosts = Inr sc"
    and "map_of secrets service_id = Some secret" "\<bar>clock - timestamp\<bar> \<le> 60" "path \<notin> exempt"
    and "c = \<lparr>rq_body = sq_body (client_request sc timestamp nonce key path body), rq_json = json,
      rq_headers = dict_of (map (\<lambda>(k, v). (py_lower k, v)) (sq_headers (client_request sc timestamp nonce key path body))),
      rq_query = query, rq_method = ''POST'', rq_path = path, rq_client_ip = peer\<rparr>"
    and "tenant_of repr json \<noteq> []" "remember (tenant_of repr json, service_id, nonce) timestamp s = (Inr True, s')"
  shows "\<exists>c'. workload_auth remember repr secrets exempt clock c s = (Inr c', s') \<and>
    map_of (rq_headers c') ''x-atlantis-authenticated-service'' = Some service_id"
proof -
  have sc: "sv_secret sc = secret" "sv_service_id sc = service_id" "32 \<le> length secret"
    using assms(1) by (auto simp: client_init_def Let_def split: option.splits if_splits)
  have low: "py_lower ''Content-Type'' = ''content-type''" "py_lower ''X-Atlantis-Service'' = ''x-atlantis-service''"
    "py_lower ''X-Atlantis-Timestamp'' = ''x-atlantis-timestamp''" "py_lower ''X-Atlantis-Nonce'' = ''x-atlantis-nonce''"
    "py_lower ''X-Atlantis-Signature'' = ''x-atlantis-signature''" "py_lower ''Idempotency-Key'' = ''idempotency-key''"
    by code_simp+
  have up: "py_upper ''POST'' = ''POST''" by code_simp
  show ?thesis
    using assms(2-4,6,7) sc(3)
    by (simp add: assms(5) workload_auth_def Let_def client_request_def low dict_of_def dict_get_or_def workload_verify_def
        workload_check_def sc(1,2) sign_workload_request_def request_canonical_def up dict_simps)
qed

theorem client_request_authenticated_witness:
  "let secret = replicate 32 (CHR ''k'');
       sc = \<lparr>sv_base_url = ''https://crm'', sv_service_id = ''policy-gateway'', sv_secret = secret\<rparr>;
       q = client_request sc 1000 ''n'' ''key'' ''/v1/x'' [(''tenant_id'', JStr ''t'')];
       c = \<lparr>rq_body = sq_body q, rq_json = [(''tenant_id'', JStr ''t'')],
         rq_headers = dict_of (map (\<lambda>(k, v). (py_lower k, v)) (sq_headers q)), rq_query = [], rq_method = ''POST'',
         rq_path = ''/v1/x'', rq_client_ip = ''10.0.0.1''\<rparr>;
       store = \<lparr>mn_ttl_seconds = 120, mn_max_entries = 5, mn_values = []\<rparr>
   in \<exists>c' s'. workload_auth (mem_remember 0) (\<lambda>_. []) [(''policy-gateway'', secret)] {} 1030 c store = (Inr c', s')"
proof -
  let ?secret = "replicate 32 (CHR ''k'')"
  let ?u = "\<lparr>pu_scheme = ''https'', pu_hostname = Some ''crm'', pu_username = None, pu_password = None,
             pu_port = None, pu_path = [], pu_query = [], pu_fragment = []\<rparr>"
  have r: "rstrip_slash ''https://crm'' = ''https://crm''" by (simp add: rstrip_slash_def)
  have i: "client_init (\<lambda>_. Some ?u) ''https://crm'' ''policy-gateway'' ?secret {} =
      Inr \<lparr>sv_base_url = ''https://crm'', sv_service_id = ''policy-gateway'', sv_secret = ?secret\<rparr>"
    by (simp add: client_init_def given_def r)
  have t: "tenant_of (\<lambda>_. []) [(''tenant_id'', JStr ''t'')] = ''t''" by (simp add: tenant_of_def dict_get_or_def)
  have m: "mem_remember 0 (''t'', ''policy-gateway'', ''n'') 1000 \<lparr>mn_ttl_seconds = 120, mn_max_entries = 5, mn_values = []\<rparr> =
      (Inr True, \<lparr>mn_ttl_seconds = 120, mn_max_entries = 5, mn_values = [((''t'', ''policy-gateway'', ''n''), 120)]\<rparr>)"
    by (simp add: mem_remember_def live_nonces_def has_key_def)
  let ?sc = "\<lparr>sv_base_url = ''https://crm'', sv_service_id = ''policy-gateway'', sv_secret = ?secret\<rparr>"
  let ?q = "client_request ?sc 1000 ''n'' ''key'' ''/v1/x'' [(''tenant_id'', JStr ''t'')]"
  let ?c = "\<lparr>rq_body = sq_body ?q, rq_json = [(''tenant_id'', JStr ''t'')],
         rq_headers = dict_of (map (\<lambda>(k, v). (py_lower k, v)) (sq_headers ?q)), rq_query = [], rq_method = ''POST'',
         rq_path = ''/v1/x'', rq_client_ip = ''10.0.0.1''\<rparr>"
  have "\<exists>c'. workload_auth (mem_remember 0) (\<lambda>_. []) [(''policy-gateway'', ?secret)] {} 1030 ?c
      \<lparr>mn_ttl_seconds = 120, mn_max_entries = 5, mn_values = []\<rparr> =
        (Inr c', \<lparr>mn_ttl_seconds = 120, mn_max_entries = 5, mn_values = [((''t'', ''policy-gateway'', ''n''), 120)]\<rparr>) \<and>
      map_of (rq_headers c') ''x-atlantis-authenticated-service'' = Some ''policy-gateway''"
    by (rule client_request_authenticated [OF i _ _ _ refl]) (simp_all add: t m)
  then show ?thesis unfolding Let_def by blast
qed

end
