(* ===== verification/Gateway.thy ===== *)
theory Gateway
  imports PgStores Client
begin

text \<open>
  services/model\_gateway/app/gateway.py and the provider configuration of server.py: redaction of
  personal data, the budget of a request, the choice among providers, and the adapters to
  providers. What the providers do is a state \<open>'w\<close>; \<open>urlparse\<close>, the HTTP call and the reading of
  files are parameters. \<open>\w\<close>, \<open>\d\<close> and \<open>\s\<close> are modelled on the ASCII range.
\<close>

section \<open>Redaction\<close>

text \<open>
  \<open>pattern.sub("[REDACTED]", text)\<close> for a pattern given by the length of its match at a position,
  from the character before it and the text from there on; \<open>skip\<close> counts the characters of a
  match still to be dropped. Neither pattern matches the empty string.
\<close>

definition redaction_mark :: string where
  "redaction_mark = ''[REDACTED]''"

fun re_sub :: "(char option \<Rightarrow> string \<Rightarrow> nat option) \<Rightarrow> char option \<Rightarrow> nat \<Rightarrow> string \<Rightarrow> string" where
  "re_sub m prev skip [] = []"
| "re_sub m prev (Suc k) (c # cs) = re_sub m (Some c) k cs"
| "re_sub m prev 0 (c # cs) =
     (case m prev (c # cs) of
        Some (Suc n) \<Rightarrow> redaction_mark @ re_sub m (Some c) n cs
      | _ \<Rightarrow> c # re_sub m (Some c) 0 cs)"

definition is_word :: "char \<Rightarrow> bool" where
  "is_word c = (is_digit c \<or> (65 \<le> code c \<and> code c \<le> 90) \<or> (97 \<le> code c \<and> code c \<le> 122) \<or> c = CHR ''_'')"

definition local_char :: "char \<Rightarrow> bool" where
  "local_char c = (is_word c \<or> c \<in> {CHR ''.'', CHR ''+'', CHR ''-''})"

definition host_char :: "char \<Rightarrow> bool" where
  "host_char c = (is_word c \<or> c = CHR ''-'')"

definition tail_char :: "char \<Rightarrow> bool" where
  "tail_char c = (is_word c \<or> c = CHR ''.'' \<or> c = CHR ''-'')"

text \<open>
  \<open>[\w.+-]+@[\w-]+\.[\w.-]+\<close>: what follows each repeated class is outside it, so a greedy run is
  the only way to match it.
\<close>

definition email_match :: "char option \<Rightarrow> string \<Rightarrow> nat option" where
  "email_match prev s =
     (let loc = takeWhile local_char s; s1 = dropWhile local_char s in
      if loc = [] then None
      else (case s1 of
              [] \<Rightarrow> None
            | a # s2 \<Rightarrow>
                (let host = takeWhile host_char s2; s3 = dropWhile host_char s2 in
                 if a \<noteq> CHR ''@'' \<or> host = [] then None
                 else (case s3 of
                         [] \<Rightarrow> None
                       | d # s4 \<Rightarrow>
                           (let rest = takeWhile tail_char s4 in
                            if d \<noteq> CHR ''.'' \<or> rest = [] then None
                            else Some (length loc + 1 + length host + 1 + length rest))))))"

text \<open>\<open>\d{10}(?!\d)\<close>.\<close>

definition ten_digits :: "string \<Rightarrow> bool" where
  "ten_digits s =
     (10 \<le> length s \<and> list_all is_digit (take 10 s) \<and> (case drop 10 s of [] \<Rightarrow> True | c # _ \<Rightarrow> \<not> is_digit c))"

text \<open>\<open>(?<!\d)(?:\+?52)?\s?\d{10}(?!\d)\<close>: the optional parts are tried present first.\<close>

definition phone_prefixes :: "string \<Rightarrow> nat list" where
  "phone_prefixes s =
     (if starts_with s ''+52'' then [3] else if starts_with s ''52'' then [2] else []) @ [0]"

definition space_options :: "string \<Rightarrow> nat list" where
  "space_options s = (case s of c # _ \<Rightarrow> if is_space c then [1, 0] else [0] | [] \<Rightarrow> [0])"

definition phone_match :: "char option \<Rightarrow> string \<Rightarrow> nat option" where
  "phone_match prev s =
     (if (case prev of None \<Rightarrow> False | Some c \<Rightarrow> is_digit c) then None
      else map_option (\<lambda>n. n + 10)
        (find (\<lambda>n. ten_digits (drop n s)) (concat (map (\<lambda>p. map (\<lambda>n. p + n) (space_options (drop p s))) (phone_prefixes s)))))"

definition redact :: "string \<Rightarrow> string \<times> bool" where
  "redact text =
     (let redacted = re_sub phone_match None 0 (re_sub email_match None 0 text) in (redacted, redacted \<noteq> text))"

section \<open>Budgets and health\<close>

type_synonym budget_ledger = "(string \<times> string, int) dict"

definition budget_remaining :: "string \<Rightarrow> string \<Rightarrow> int \<Rightarrow> budget_ledger \<Rightarrow> int" where
  "budget_remaining tenant_id task_alias limit spent = limit - dict_get_or 0 spent (tenant_id, task_alias)"

definition budget_charge :: "string \<Rightarrow> string \<Rightarrow> int \<Rightarrow> budget_ledger \<Rightarrow> budget_ledger" where
  "budget_charge tenant_id task_alias units spent =
     dict_set (tenant_id, task_alias) (dict_get_or 0 spent (tenant_id, task_alias) + units) spent"

text \<open>\<open>ProviderHealth\<close> is the set of the unhealthy names.\<close>

definition health_allow :: "string set \<Rightarrow> string \<Rightarrow> bool" where
  "health_allow unhealthy name = (name \<notin> unhealthy)"

definition mark_failure :: "string \<Rightarrow> string set \<Rightarrow> string set" where
  "mark_failure name unhealthy = insert name unhealthy"

definition mark_healthy :: "string \<Rightarrow> string set \<Rightarrow> string set" where
  "mark_healthy name unhealthy = unhealthy - {name}"

section \<open>Requests\<close>

text \<open>The cost limit is checked at run time, so it is kept as the value it is.\<close>

record model_request =
  mr_tenant_id :: string
  mr_task_alias :: string
  mr_prompt :: string
  mr_data_classification :: string
  mr_max_cost_units :: json
  mr_expected_schema :: "string list"
  mr_run_id :: "string option"
  mr_correlation_id :: "string option"
  mr_prompt_version :: string

definition uuid_field_ok :: "string option \<Rightarrow> bool" where
  "uuid_field_ok v = (case v of None \<Rightarrow> True | Some s \<Rightarrow> uuid_ok s)"

definition request_post_init :: "model_request \<Rightarrow> model_request res" where
  "request_post_init q =
     (if \<not> uuid_field_ok (mr_run_id q) then raise ValueError ''MODEL_RUN_ID_INVALID''
      else if \<not> uuid_field_ok (mr_correlation_id q) then raise ValueError ''MODEL_CORRELATION_ID_INVALID''
      else Inr q)"

record model_response =
  mp_provider :: string
  mp_model_id :: string
  mp_output :: json
  mp_redaction_applied :: bool
  mp_cost_units :: int

record 'w provider =
  pv_name :: string
  pv_model_id :: string
  pv_complete :: "string \<Rightarrow> int \<Rightarrow> 'w \<Rightarrow> (json \<times> int) res \<times> 'w"

record 'w model_gateway =
  mg_providers :: "'w provider list"
  mg_restricted_allowlist :: "string set"
  mg_policy_max_cost_units :: int

record 'w gateway_state =
  gs_spent :: budget_ledger
  gs_unhealthy :: "string set"
  gs_world :: 'w

definition gateway_init :: "'w provider list \<Rightarrow> string set \<Rightarrow> int \<Rightarrow> 'w model_gateway res" where
  "gateway_init providers allowlist policy_max =
     (if policy_max < 1 then raise ProviderError ''MODEL_BUDGET_POLICY_INVALID''
      else Inr \<lparr>mg_providers = providers, mg_restricted_allowlist = allowlist, mg_policy_max_cost_units = policy_max\<rparr>)"

text \<open>\<open>key in output\<close> and the list of the missing keys.\<close>

definition contains_text :: "string \<Rightarrow> string \<Rightarrow> bool" where
  "contains_text p s = list_ex (\<lambda>n. starts_with (drop n s) p) [0..<Suc (length s)]"

fun json_in :: "string \<Rightarrow> json \<Rightarrow> bool res" where
  "json_in k (JObj kvs) = Inr (has_key kvs k)"
| "json_in k (JList vs) = Inr (JStr k \<in> set vs)"
| "json_in k (JStr s) = Inr (contains_text k s)"
| "json_in k _ = raise TypeError ''argument is not iterable''"

fun missing_keys :: "string list \<Rightarrow> json \<Rightarrow> string list res" where
  "missing_keys [] output = Inr []"
| "missing_keys (k # ks) output =
     rbind (json_in k output) (\<lambda>present. rbind (missing_keys ks output) (\<lambda>rest. Inr (if present then rest else k # rest)))"

section \<open>Completion\<close>

definition minimum_output_units :: int where
  "minimum_output_units = 16"

definition protocol_overhead_units :: int where
  "protocol_overhead_units = 64"

text \<open>The body of the \<open>try\<close>: one call of a provider.\<close>

definition attempt ::
  "model_request \<Rightarrow> int \<Rightarrow> string \<Rightarrow> bool \<Rightarrow> int \<Rightarrow> 'w provider \<Rightarrow> 'w gateway_state \<Rightarrow> model_response res \<times> 'w gateway_state" where
  "attempt q limit prompt redacted max_output p s =
     (case pv_complete p prompt max_output (gs_world s) of
        (Inl x, w) \<Rightarrow> (Inl x, s\<lparr>gs_world := w\<rparr>)
      | (Inr (output, cost), w) \<Rightarrow>
          (let s1 = s\<lparr>gs_world := w\<rparr> in
           if budget_remaining (mr_tenant_id q) (mr_task_alias q) limit (gs_spent s1) < cost
           then (raise ProviderError ''BUDGET_EXCEEDED'', s1)
           else (case missing_keys (mr_expected_schema q) output of
                   Inl x \<Rightarrow> (Inl x, s1)
                 | Inr missing \<Rightarrow>
                     if missing \<noteq> [] then (raise ProviderError ''INVALID_STRUCTURED_OUTPUT'', s1)
                     else (Inr \<lparr>mp_provider = pv_name p, mp_model_id = pv_model_id p, mp_output = output,
                                mp_redaction_applied = redacted, mp_cost_units = cost\<rparr>,
                           s1\<lparr>gs_spent := budget_charge (mr_tenant_id q) (mr_task_alias q) cost (gs_spent s1),
                              gs_unhealthy := mark_healthy (pv_name p) (gs_unhealthy s1)\<rparr>))))"

definition approved :: "string set \<Rightarrow> model_request \<Rightarrow> 'w provider \<Rightarrow> bool" where
  "approved allowlist q p = (mr_data_classification q \<noteq> ''RESTRICTED'' \<or> pv_name p \<in> allowlist)"

text \<open>The loop over the providers, with the errors so far.\<close>

fun try_providers ::
  "string set \<Rightarrow> model_request \<Rightarrow> int \<Rightarrow> string \<Rightarrow> bool \<Rightarrow> int \<Rightarrow> 'w provider list \<Rightarrow> string list \<Rightarrow> 'w gateway_state
    \<Rightarrow> model_response res \<times> 'w gateway_state" where
  "try_providers allowlist q limit prompt redacted max_output [] errors s =
     (raise ProviderError (''NO_APPROVED_PROVIDER:'' @ py_join '','' errors), s)"
| "try_providers allowlist q limit prompt redacted max_output (p # ps) errors s =
     (if \<not> health_allow (gs_unhealthy s) (pv_name p) \<or> \<not> approved allowlist q p
      then try_providers allowlist q limit prompt redacted max_output ps errors s
      else if budget_remaining (mr_tenant_id q) (mr_task_alias q) limit (gs_spent s) \<le> 0
      then (raise ProviderError ''BUDGET_EXCEEDED'', s)
      else (case attempt q limit prompt redacted max_output p s of
              (Inr response, s1) \<Rightarrow> (Inr response, s1)
            | (Inl x, s1) \<Rightarrow>
                if exn_cls x \<noteq> ProviderError then (Inl x, s1)
                else try_providers allowlist q limit prompt redacted max_output ps (errors @ [exn_msg x])
                       (if contains_text ''BUDGET'' (exn_msg x) \<or> contains_text ''INVALID_STRUCTURED'' (exn_msg x) then s1
                        else s1\<lparr>gs_unhealthy := mark_failure (pv_name p) (gs_unhealthy s1)\<rparr>)))"

text \<open>The checks of \<open>complete\<close> before the loop: the limit, and what it leaves for the output.\<close>

definition cost_limit :: "int \<Rightarrow> json \<Rightarrow> string \<Rightarrow> (int \<times> int) res" where
  "cost_limit policy_max units prompt =
     (case units of
        JInt limit \<Rightarrow>
          (if limit < 1 then raise ProviderError ''BUDGET_INVALID''
           else if policy_max < limit then raise ProviderError ''BUDGET_POLICY_LIMIT_EXCEEDED''
           else (let max_output = limit - (int (length prompt) + protocol_overhead_units) in
             if max_output < minimum_output_units then raise ProviderError ''BUDGET_EXCEEDED_PRECALL''
             else Inr (limit, max_output)))
      | _ \<Rightarrow> raise ProviderError ''BUDGET_INVALID'')"

definition gateway_complete ::
  "'w model_gateway \<Rightarrow> model_request \<Rightarrow> 'w gateway_state \<Rightarrow> model_response res \<times> 'w gateway_state" where
  "gateway_complete g q s =
     (case redact (mr_prompt q) of (prompt, redacted) \<Rightarrow>
        (case cost_limit (mg_policy_max_cost_units g) (mr_max_cost_units q) prompt of
           Inl x \<Rightarrow> (Inl x, s)
         | Inr (limit, max_output) \<Rightarrow>
             try_providers (mg_restricted_allowlist g) q limit prompt redacted max_output (mg_providers g) [] s))"

section \<open>Provider adapters\<close>

record openai_provider =
  op_name :: string
  op_base_url :: string
  op_model_id :: string
  op_api_key :: string
  op_extra_headers :: "(string, string) dict"
  op_limit_parameter :: string

definition header_value_ok :: "string \<Rightarrow> bool" where
  "header_value_ok v \<longleftrightarrow> v \<noteq> [] \<and> CHR 0x0A \<notin> set v \<and> CHR 0x0D \<notin> set v"

definition openai_init ::
  "(string \<Rightarrow> parsed_url option) \<Rightarrow> string \<Rightarrow> string \<Rightarrow> string \<Rightarrow> string \<Rightarrow> string \<Rightarrow> (string, string) dict \<Rightarrow> openai_provider res" where
  "openai_init urlparse limit_parameter name base_url model_id api_key extra_headers =
     (if model_id = [] \<or> model_id = ''UNSET'' \<or> api_key = []
      then raise ProviderError (py_upper name @ ''_NOT_CONFIGURED'')
      else (case urlparse base_url of
              None \<Rightarrow> raise ProviderError (py_upper name @ ''_BASE_URL_INVALID'')
            | Some u \<Rightarrow>
                if pu_scheme u \<notin> {''http'', ''https''} \<or> \<not> given (pu_hostname u)
                then raise ProviderError (py_upper name @ ''_BASE_URL_INVALID'')
                else Inr \<lparr>op_name = name, op_base_url = rstrip_slash base_url, op_model_id = model_id, op_api_key = api_key,
                       op_extra_headers = filter (\<lambda>(k, v). header_value_ok v) extra_headers,
                       op_limit_parameter = limit_parameter\<rparr>))"

definition openrouter_url_ok :: "parsed_url \<Rightarrow> bool" where
  "openrouter_url_ok u \<longleftrightarrow>
     pu_scheme u = ''https'' \<and> pu_hostname u = Some ''openrouter.ai'' \<and> \<not> given (pu_username u) \<and> \<not> given (pu_password u) \<and>
     (case pu_port u of None \<Rightarrow> True | Some n \<Rightarrow> n = 0) \<and> rstrip_slash (pu_path u) = ''/api/v1'' \<and>
     pu_query u = [] \<and> pu_fragment u = []"

text \<open>\<open>OpenRouterProvider.__init__\<close>; a referer \<open>urlparse\<close> refuses is a \<open>ValueError\<close>.\<close>

definition referer_header :: "(string \<Rightarrow> parsed_url option) \<Rightarrow> string \<Rightarrow> (string, string) dict res" where
  "referer_header urlparse http_referer =
     (if http_referer = [] then Inr []
      else (case urlparse http_referer of
              None \<Rightarrow> raise ValueError ''URL''
            | Some u \<Rightarrow>
                if pu_scheme u \<noteq> ''https'' \<or> \<not> given (pu_hostname u)
                then raise ProviderError ''OPENROUTER_HTTP_REFERER_INVALID''
                else Inr [(''HTTP-Referer'', http_referer)]))"

definition openrouter_init ::
  "(string \<Rightarrow> parsed_url option) \<Rightarrow> string \<Rightarrow> string \<Rightarrow> string \<Rightarrow> string \<Rightarrow> string \<Rightarrow> openai_provider res" where
  "openrouter_init urlparse model_id api_key base_url http_referer app_title =
     (case urlparse base_url of
        None \<Rightarrow> raise ProviderError ''OPENROUTER_BASE_URL_NOT_ALLOWED''
      | Some u \<Rightarrow>
          if \<not> openrouter_url_ok u then raise ProviderError ''OPENROUTER_BASE_URL_NOT_ALLOWED''
          else if py_lower (py_strip model_id) = ''openrouter/auto''
          then raise ProviderError ''OPENROUTER_MUTABLE_MODEL_NOT_ALLOWED''
          else rbind (referer_header urlparse http_referer) (\<lambda>referer.
            openai_init urlparse ''max_completion_tokens'' ''openrouter'' base_url model_id api_key
              (referer @ (if app_title = [] then [] else [(''X-OpenRouter-Title'', app_title)]))))"

text \<open>\<open>raw[key]\<close> and \<open>raw[0]\<close>.\<close>

fun json_item :: "string \<Rightarrow> json \<Rightarrow> json res" where
  "json_item k (JObj kvs) = of_option (Exn KeyError k) (map_of kvs k)"
| "json_item k _ = raise TypeError ''indices''"

fun json_first :: "json \<Rightarrow> json res" where
  "json_first (JList []) = raise IndexError ''list index out of range''"
| "json_first (JList (v # _)) = Inr v"
| "json_first (JStr []) = raise IndexError ''string index out of range''"
| "json_first (JStr (c # _)) = Inr (JStr [c])"
| "json_first (JObj _) = raise KeyError ''0''"
| "json_first _ = raise TypeError ''not subscriptable''"

text \<open>
  The body of the \<open>try\<close> after the response is read, and what its \<open>except\<close> catches.
  \<open>float_int\<close> is \<open>int\<close> of a float.
\<close>

definition completion_of :: "(string \<Rightarrow> int res) \<Rightarrow> string \<Rightarrow> json \<Rightarrow> (json \<times> int) res" where
  "completion_of float_int name raw =
     rbind (json_item ''choices'' raw) (\<lambda>choices.
     rbind (json_first choices) (\<lambda>choice.
     rbind (json_item ''message'' choice) (\<lambda>message.
     rbind (json_item ''content'' message) (\<lambda>content.
       case json_get_or (JObj []) raw ''usage'' of
         JObj usage \<Rightarrow>
           rbind (json_to_int float_int (dict_get_or (JInt 0) usage ''total_tokens'')) (\<lambda>total.
             if total < 1 then raise ProviderError (py_upper name @ ''_USAGE_MISSING'')
             else (case content of
                     JStr text \<Rightarrow> (case json_loads text of None \<Rightarrow> raise ValueError ''JSON_DECODE_ERROR'' | Some v \<Rightarrow> Inr (v, total))
                   | _ \<Rightarrow> raise TypeError ''the JSON object must be str''))
       | _ \<Rightarrow> raise AttributeError ''get''))))"

definition provider_failure :: "string \<Rightarrow> 'a res \<Rightarrow> 'a res" where
  "provider_failure name r =
     (case r of
        Inl x \<Rightarrow>
          if exn_cls x \<in> {URLError, TimeoutError, KeyError} \<or> is_value_error x
          then raise ProviderError (py_upper name @ ''_FAILURE'') else Inl x
      | Inr a \<Rightarrow> Inr a)"

record model_http_request =
  mh_url :: string
  mh_body :: json
  mh_headers :: "(string, string) dict"

definition completion_request :: "openai_provider \<Rightarrow> string \<Rightarrow> int \<Rightarrow> model_http_request" where
  "completion_request p prompt max_output =
     \<lparr>mh_url = op_base_url p @ ''/chat/completions'',
      mh_body = JObj [(''model'', JStr (op_model_id p)),
        (''messages'', JList [JObj [(''role'', JStr ''user''), (''content'', JStr prompt)]]),
        (''response_format'', JObj [(''type'', JStr ''json_object'')]),
        (op_limit_parameter p, JInt max_output)],
      mh_headers = fold (\<lambda>(k, v) d. dict_set k v d) (op_extra_headers p)
        [(''Authorization'', ''Bearer '' @ op_api_key p), (''Content-Type'', ''application/json'')]\<rparr>"

text \<open>\<open>complete\<close>; \<open>urlopen\<close> is the call with the reading of its JSON response, or what it raises.\<close>

definition openai_complete ::
  "(string \<Rightarrow> int res) \<Rightarrow> (model_http_request \<Rightarrow> 'w \<Rightarrow> json res \<times> 'w) \<Rightarrow> openai_provider \<Rightarrow> string \<Rightarrow> int \<Rightarrow> 'w
    \<Rightarrow> (json \<times> int) res \<times> 'w" where
  "openai_complete float_int urlopen p prompt max_output w =
     (if max_output < 1 then (raise ProviderError ''BUDGET_EXCEEDED_PRECALL'', w)
      else (case urlopen (completion_request p prompt max_output) w of
              (raw, w') \<Rightarrow> (provider_failure (op_name p) (rbind raw (completion_of float_int (op_name p))), w')))"

definition as_provider ::
  "(string \<Rightarrow> int res) \<Rightarrow> (model_http_request \<Rightarrow> 'w \<Rightarrow> json res \<times> 'w) \<Rightarrow> openai_provider \<Rightarrow> 'w provider" where
  "as_provider float_int urlopen p =
     \<lparr>pv_name = op_name p, pv_model_id = op_model_id p, pv_complete = openai_complete float_int urlopen p\<rparr>"

section \<open>Configuration\<close>

definition configured_secret :: "(string \<Rightarrow> string res) \<Rightarrow> environ \<Rightarrow> string \<Rightarrow> string res" where
  "configured_secret read_text env name =
     (case env (name @ ''_FILE'') of
        Some file_name \<Rightarrow>
          (if file_name \<noteq> [] then rbind (read_text file_name) (\<lambda>text. Inr (py_strip text)) else Inr (getenv env name []))
      | None \<Rightarrow> Inr (getenv env name []))"

text \<open>\<open>except ProviderError: pass\<close> around one adapter.\<close>

definition optional_provider :: "openai_provider res \<Rightarrow> (string, openai_provider) dict \<Rightarrow> (string, openai_provider) dict res" where
  "optional_provider r available =
     (case r of
        Inr p \<Rightarrow> Inr (dict_set (op_name p) p available)
      | Inl x \<Rightarrow> if exn_cls x = ProviderError then Inr available else Inl x)"

definition compatible_provider ::
  "(string \<Rightarrow> parsed_url option) \<Rightarrow> (string \<Rightarrow> string res) \<Rightarrow> environ \<Rightarrow> string \<Rightarrow> openai_provider res" where
  "compatible_provider urlparse read_text env name =
     rbind (configured_secret read_text env (name @ ''_API_KEY'')) (\<lambda>key.
       openai_init urlparse ''max_tokens'' (py_lower name) (getenv env (name @ ''_BASE_URL'') [])
         (getenv env (name @ ''_MODEL_ID'') ''UNSET'') key [])"

definition openrouter_provider ::
  "(string \<Rightarrow> parsed_url option) \<Rightarrow> (string \<Rightarrow> string res) \<Rightarrow> environ \<Rightarrow> openai_provider res" where
  "openrouter_provider urlparse read_text env =
     rbind (configured_secret read_text env ''OPENROUTER_API_KEY'') (\<lambda>key.
       openrouter_init urlparse (getenv env ''OPENROUTER_MODEL_ID'' ''UNSET'') key
         (getenv env ''OPENROUTER_BASE_URL'' ''https://openrouter.ai/api/v1'')
         (getenv env ''OPENROUTER_HTTP_REFERER'' []) (getenv env ''OPENROUTER_APP_TITLE'' ''Atlantis Autonomous Sales''))"

text \<open>A comma-separated list of names: stripped, in lower case, without the empty ones.\<close>

definition name_list :: "string \<Rightarrow> string list" where
  "name_list text = map (\<lambda>s. py_lower (py_strip s)) (filter (\<lambda>s. py_strip s \<noteq> []) (split_all (CHR '','') text))"

fun first_occurrences :: "'a list \<Rightarrow> 'a list" where
  "first_occurrences [] = []"
| "first_occurrences (x # xs) = x # filter (\<lambda>y. y \<noteq> x) (first_occurrences xs)"

definition configured_providers ::
  "(string \<Rightarrow> parsed_url option) \<Rightarrow> (string \<Rightarrow> string res) \<Rightarrow> environ \<Rightarrow> openai_provider list res" where
  "configured_providers urlparse read_text env =
     rbind (optional_provider (openrouter_provider urlparse read_text env) []) (\<lambda>a1.
     rbind (optional_provider (compatible_provider urlparse read_text env ''KIMI'') a1) (\<lambda>a2.
     rbind (optional_provider (compatible_provider urlparse read_text env ''DEEPSEEK'') a2) (\<lambda>available.
       Inr (List.map_filter (map_of available)
         (first_occurrences (name_list (getenv env ''ATLANTIS_MODEL_PROVIDER_ORDER'' ''openrouter,kimi,deepseek'')))))))"

section \<open>The loop over the providers\<close>

lemma attempt_world:
  assumes "attempt q limit prompt red out p s = (Inl x, s')"
  shows "gs_spent s' = gs_spent s" "gs_unhealthy s' = gs_unhealthy s"
  using assms by (auto simp: attempt_def Let_def split: prod.splits sum.splits if_splits)

lemma attempt_Inr:
  assumes "attempt q limit prompt red out p s = (Inr response, s')"
  shows "mp_provider response = pv_name p" "mp_redaction_applied response = red"
    "missing_keys (mr_expected_schema q) (mp_output response) = Inr []"
    "mp_cost_units response \<le> budget_remaining (mr_tenant_id q) (mr_task_alias q) limit (gs_spent s)"
    "gs_spent s' = budget_charge (mr_tenant_id q) (mr_task_alias q) (mp_cost_units response) (gs_spent s)"
    "\<exists>w'. pv_complete p prompt out (gs_world s) = (Inr (mp_output response, mp_cost_units response), w')"
  using assms by (auto simp: attempt_def Let_def split: prod.splits sum.splits if_splits)

text \<open>A charge is the cost of the response, and an error charges nothing.\<close>

definition charged_within :: "int \<Rightarrow> model_request \<Rightarrow> model_response res \<Rightarrow> budget_ledger \<Rightarrow> budget_ledger \<Rightarrow> bool" where
  "charged_within limit q r d d' \<longleftrightarrow>
     (case r of
        Inl _ \<Rightarrow> d' = d
      | Inr response \<Rightarrow>
          mp_cost_units response \<le> budget_remaining (mr_tenant_id q) (mr_task_alias q) limit d \<and>
          d' = budget_charge (mr_tenant_id q) (mr_task_alias q) (mp_cost_units response) d)"

lemma try_providers_charge:
  "try_providers allowlist q limit prompt red out ps errors s = (r, s') \<Longrightarrow> charged_within limit q r (gs_spent s) (gs_spent s')"
proof (induction ps arbitrary: errors s)
  case Nil
  then show ?case by (auto simp: charged_within_def)
next
  case (Cons p ps)
  obtain r1 s1 where a: "attempt q limit prompt red out p s = (r1, s1)" by fastforce
  show ?case
  proof (cases r1)
    case (Inl x)
    note w = attempt_world [OF a [unfolded Inl]]
    show ?thesis using Cons.prems a Inl w Cons.IH
      by (auto simp: charged_within_def split: if_splits dest!: Cons.IH)
  next
    case (Inr response)
    note w = attempt_Inr [OF a [unfolded Inr]]
    show ?thesis using Cons.prems a Inr w(4,5)
      by (auto simp: charged_within_def split: if_splits dest!: Cons.IH)
  qed
qed

lemma try_providers_Inr:
  "try_providers allowlist q limit prompt red out ps errors s = (Inr response, s') \<Longrightarrow>
    \<exists>p w w'. p \<in> set ps \<and> approved allowlist q p \<and> pv_name p = mp_provider response \<and>
      pv_complete p prompt out w = (Inr (mp_output response, mp_cost_units response), w') \<and>
      missing_keys (mr_expected_schema q) (mp_output response) = Inr [] \<and> mp_redaction_applied response = red"
proof (induction ps arbitrary: errors s)
  case (Cons p ps)
  obtain r1 s1 where a: "attempt q limit prompt red out p s = (r1, s1)" by fastforce
  show ?case
  proof (cases "\<not> health_allow (gs_unhealthy s) (pv_name p) \<or> \<not> approved allowlist q p")
    case True
    then show ?thesis using Cons.prems by (auto dest!: Cons.IH)
  next
    case False
    show ?thesis
    proof (cases r1)
      case (Inl x)
      then show ?thesis using Cons.prems a False by (auto split: if_splits dest!: Cons.IH)
    next
      case (Inr r)
      then have "r = response" using Cons.prems a False by (auto split: if_splits)
      then show ?thesis using attempt_Inr [OF a [unfolded Inr]] False by auto
    qed
  qed
qed simp

lemma gateway_complete_cost:
  assumes "gateway_complete g q s = (Inr response, s')"
  shows "\<exists>limit. mr_max_cost_units q = JInt limit \<and>
    mp_cost_units response \<le> budget_remaining (mr_tenant_id q) (mr_task_alias q) limit (gs_spent s)"
proof -
  obtain prompt red limit out where "cost_limit (mg_policy_max_cost_units g) (mr_max_cost_units q) prompt = Inr (limit, out)"
    and t: "try_providers (mg_restricted_allowlist g) q limit prompt red out (mg_providers g) [] s = (Inr response, s')"
    using assms by (auto simp: gateway_complete_def split: sum.splits prod.splits)
  then have "mr_max_cost_units q = JInt limit" by (auto simp: cost_limit_def Let_def split: json.splits if_splits)
  then show ?thesis using try_providers_charge [OF t] by (simp add: charged_within_def)
qed

lemma try_providers_approved:
  "try_providers allowlist q limit prompt red out (filter (approved allowlist q) ps) errors s =
    try_providers allowlist q limit prompt red out ps errors s"
  by (induction ps arbitrary: errors s) (auto split: prod.split sum.split)

section \<open>Properties\<close>

text \<open>A request, and a provider that answers at a cost of 5 and leaves its name in the world.\<close>

definition example_completion :: model_request where
  "example_completion = \<lparr>mr_tenant_id = ''t'', mr_task_alias = ''draft'', mr_prompt = ''Hello'',
     mr_data_classification = ''INTERNAL'', mr_max_cost_units = JInt 100, mr_expected_schema = [], mr_run_id = None,
     mr_correlation_id = None, mr_prompt_version = ''inline@1''\<rparr>"

definition example_provider :: "string \<Rightarrow> string list provider" where
  "example_provider name = \<lparr>pv_name = name, pv_model_id = ''m'', pv_complete = (\<lambda>prompt n w. (Inr (JObj [], 5), w @ [name]))\<rparr>"

definition example_gateway :: "string list model_gateway" where
  "example_gateway = \<lparr>mg_providers = [example_provider ''vetted''], mg_restricted_allowlist = {''vetted''},
     mg_policy_max_cost_units = 4000\<rparr>"

lemma example_fields:
  "mr_tenant_id example_completion = ''t''" "mr_task_alias example_completion = ''draft''"
  "mr_prompt example_completion = ''Hello''" "mr_max_cost_units example_completion = JInt 100"
  "mr_expected_schema example_completion = []" "mr_data_classification example_completion = ''INTERNAL''"
  by (simp_all add: example_completion_def)

lemma redact_hello: "redact ''Hello'' = (''Hello'', False)"
  by code_simp

lemma example_complete:
  "gateway_complete example_gateway example_completion \<lparr>gs_spent = [], gs_unhealthy = {}, gs_world = []\<rparr> =
    (Inr \<lparr>mp_provider = ''vetted'', mp_model_id = ''m'', mp_output = JObj [], mp_redaction_applied = False, mp_cost_units = 5\<rparr>,
     \<lparr>gs_spent = [((''t'', ''draft''), 5)], gs_unhealthy = {}, gs_world = [''vetted'']\<rparr>)"
  by (simp add: example_gateway_def example_provider_def gateway_complete_def redact_hello example_fields
      cost_limit_def protocol_overhead_units_def minimum_output_units_def health_allow_def approved_def mark_healthy_def
      budget_remaining_def dict_get_or_def attempt_def budget_charge_def)

text \<open>
  Within one ledger a tenant never spends more on a task than the limit of its requests, other
  tenants and tasks are not charged, and what is charged is exactly the cost of the response.
\<close>

theorem model_budget_kept:
  assumes "gateway_complete g q s = (r, s')" "mr_max_cost_units q = JInt limit"
    and "0 \<le> budget_remaining (mr_tenant_id q) (mr_task_alias q) limit (gs_spent s)"
  shows "0 \<le> budget_remaining (mr_tenant_id q) (mr_task_alias q) limit (gs_spent s') \<and>
    (\<forall>k. k \<noteq> (mr_tenant_id q, mr_task_alias q) \<longrightarrow> map_of (gs_spent s') k = map_of (gs_spent s) k) \<and>
    budget_remaining (mr_tenant_id q) (mr_task_alias q) limit (gs_spent s') =
      budget_remaining (mr_tenant_id q) (mr_task_alias q) limit (gs_spent s) -
      (case r of Inl _ \<Rightarrow> 0 | Inr response \<Rightarrow> mp_cost_units response)"
proof -
  have "charged_within limit q r (gs_spent s) (gs_spent s')"
    using assms(1,2) try_providers_charge
    by (fastforce simp: gateway_complete_def cost_limit_def charged_within_def Let_def split: prod.splits if_splits)
  then show ?thesis using assms(3)
    by (cases r) (auto simp: charged_within_def budget_charge_def budget_remaining_def dict_get_or_def dict_simps)
qed

theorem model_budget_kept_witness:
  "let s = \<lparr>gs_spent = [], gs_unhealthy = {}, gs_world = []\<rparr>;
       s' = snd (gateway_complete example_gateway example_completion s)
   in budget_remaining ''t'' ''draft'' 100 (gs_spent s) = 100 \<and> budget_remaining ''t'' ''draft'' 100 (gs_spent s') = 95"
  using model_budget_kept [OF example_complete, of 100]
  by (simp add: Let_def example_complete budget_remaining_def dict_get_or_def example_fields)

text \<open>
  C33: restricted data reaches approved providers only: the completion of a restricted request is
  the same as with the other providers taken out of the list, the calls included.
\<close>

theorem restricted_data_stays:
  assumes "mr_data_classification q = ''RESTRICTED''"
  shows "gateway_complete g q s =
    gateway_complete (g\<lparr>mg_providers := filter (\<lambda>p. pv_name p \<in> mg_restricted_allowlist g) (mg_providers g)\<rparr>) q s"
proof -
  have "approved (mg_restricted_allowlist g) q = (\<lambda>p. pv_name p \<in> mg_restricted_allowlist g)"
    using assms by (auto simp: approved_def)
  note same = try_providers_approved [of "mg_restricted_allowlist g" q, unfolded this]
  show ?thesis by (simp add: gateway_complete_def same split: prod.split sum.split)
qed

theorem restricted_data_stays_witness:
  "let q = example_completion\<lparr>mr_data_classification := ''RESTRICTED''\<rparr>;
       g = example_gateway\<lparr>mg_providers := [example_provider ''open'', example_provider ''vetted'']\<rparr>;
       s = \<lparr>gs_spent = [], gs_unhealthy = {}, gs_world = []\<rparr>
   in gs_world (snd (gateway_complete g q s)) = [''vetted'']"
proof -
  let ?q = "example_completion\<lparr>mr_data_classification := ''RESTRICTED''\<rparr>"
  let ?g = "example_gateway\<lparr>mg_providers := [example_provider ''open'', example_provider ''vetted'']\<rparr>"
  let ?s = "\<lparr>gs_spent = [], gs_unhealthy = {}, gs_world = []\<rparr>"
  have "gs_world (snd (gateway_complete (?g\<lparr>mg_providers := filter (\<lambda>p. pv_name p \<in> mg_restricted_allowlist ?g) (mg_providers ?g)\<rparr>)
      ?q ?s)) = [''vetted'']"
    by (simp add: example_gateway_def example_provider_def gateway_complete_def redact_hello example_fields cost_limit_def
        protocol_overhead_units_def minimum_output_units_def health_allow_def approved_def budget_remaining_def
        dict_get_or_def attempt_def)
  moreover have "gateway_complete ?g ?q ?s =
      gateway_complete (?g\<lparr>mg_providers := filter (\<lambda>p. pv_name p \<in> mg_restricted_allowlist ?g) (mg_providers ?g)\<rparr>) ?q ?s"
    by (rule restricted_data_stays) simp
  ultimately show ?thesis unfolding Let_def by (simp only:)
qed

text \<open>
  A response is what a configured provider answered to the redacted prompt, with an output
  allowance that, with the prompt and the overhead, stays in the limit; every key of the
  expected schema is in it, and its cost is within the limit.
\<close>

theorem model_response_sound:
  assumes "gateway_complete g q s = (Inr response, s')"
  shows "\<exists>p limit out w w'. p \<in> set (mg_providers g) \<and> approved (mg_restricted_allowlist g) q p \<and>
    pv_name p = mp_provider response \<and> mr_max_cost_units q = JInt limit \<and> limit \<le> mg_policy_max_cost_units g \<and>
    pv_complete p (fst (redact (mr_prompt q))) out w = (Inr (mp_output response, mp_cost_units response), w') \<and>
    16 \<le> out \<and> int (length (fst (redact (mr_prompt q)))) + 64 + out = limit \<and>
    missing_keys (mr_expected_schema q) (mp_output response) = Inr [] \<and>
    mp_cost_units response \<le> budget_remaining (mr_tenant_id q) (mr_task_alias q) limit (gs_spent s)"
proof -
  obtain prompt red where r: "redact (mr_prompt q) = (prompt, red)" by fastforce
  obtain limit out where c: "cost_limit (mg_policy_max_cost_units g) (mr_max_cost_units q) prompt = Inr (limit, out)"
    and t: "try_providers (mg_restricted_allowlist g) q limit prompt red out (mg_providers g) [] s = (Inr response, s')"
    using assms r by (auto simp: gateway_complete_def split: sum.splits prod.splits)
  have l: "mr_max_cost_units q = JInt limit" "limit \<le> mg_policy_max_cost_units g" "16 \<le> out"
    "int (length prompt) + 64 + out = limit"
    using c by (auto simp: cost_limit_def Let_def minimum_output_units_def protocol_overhead_units_def
        split: json.splits if_splits)
  from try_providers_Inr [OF t] obtain p w w' where p: "p \<in> set (mg_providers g)" "approved (mg_restricted_allowlist g) q p"
    "pv_name p = mp_provider response"
    "pv_complete p prompt out w = (Inr (mp_output response, mp_cost_units response), w')"
    "missing_keys (mr_expected_schema q) (mp_output response) = Inr []" by (elim exE conjE) (rule that)
  moreover have "mp_cost_units response \<le> budget_remaining (mr_tenant_id q) (mr_task_alias q) limit (gs_spent s)"
    using gateway_complete_cost [OF assms] l(1) by simp
  ultimately show ?thesis using l r by auto
qed

theorem model_response_sound_witness:
  "\<exists>p out. p \<in> set (mg_providers example_gateway) \<and> pv_name p = ''vetted'' \<and> 16 \<le> (out :: int) \<and> 5 + 64 + out = 100"
  using model_response_sound [OF example_complete] by (auto simp: redact_hello example_fields)

text \<open>
  A response without choices is an IndexError, which the adapter does not turn into a
  ProviderError: the gateway stops there and the providers after it are not tried.
\<close>

theorem empty_choices_stop_fallback:
  "gateway_complete \<lparr>mg_providers = [as_provider float_int (\<lambda>q w. (Inr (JObj [(''choices'', JList [])]), w)) p, backup],
      mg_restricted_allowlist = {}, mg_policy_max_cost_units = 4000\<rparr>
    \<lparr>mr_tenant_id = tenant, mr_task_alias = alias, mr_prompt = ''Hello'', mr_data_classification = ''INTERNAL'',
      mr_max_cost_units = JInt 100, mr_expected_schema = [], mr_run_id = None, mr_correlation_id = None,
      mr_prompt_version = ''inline@1''\<rparr> \<lparr>gs_spent = [], gs_unhealthy = {}, gs_world = w\<rparr> =
   (raise IndexError ''list index out of range'', \<lparr>gs_spent = [], gs_unhealthy = {}, gs_world = w\<rparr>)"
proof -
  have r: "redact ''Hello'' = (''Hello'', False)" by code_simp
  show ?thesis
    by (simp add: gateway_complete_def r cost_limit_def protocol_overhead_units_def minimum_output_units_def health_allow_def
        approved_def budget_remaining_def dict_get_or_def attempt_def as_provider_def openai_complete_def completion_of_def
        provider_failure_def is_value_error_def)
qed

text \<open>
  An OpenRouter adapter talks TLS to openrouter.ai only, with a pinned model and a key, and no
  header value of it can start another header.
\<close>

theorem openrouter_trust_boundary:
  assumes "openrouter_init urlparse model_id api_key base_url referer title = Inr p"
  shows "(\<exists>u. urlparse base_url = Some u \<and> pu_scheme u = ''https'' \<and> pu_hostname u = Some ''openrouter.ai'' \<and>
      pu_username u \<in> {None, Some []} \<and> rstrip_slash (pu_path u) = ''/api/v1'') \<and>
    mh_url (completion_request p prompt n) = rstrip_slash base_url @ ''/chat/completions'' \<and>
    api_key \<noteq> [] \<and> model_id \<noteq> [] \<and> py_lower (py_strip model_id) \<noteq> ''openrouter/auto'' \<and>
    (\<forall>(k, v) \<in> set (op_extra_headers p). CHR 0x0A \<notin> set v \<and> CHR 0x0D \<notin> set v)"
  using assms
  by (auto simp: openrouter_init_def openai_init_def rbind_Inr_iff completion_request_def openrouter_url_ok_def given_def
      header_value_ok_def split: option.splits if_splits)

theorem openrouter_trust_boundary_witness:
  "let u = \<lparr>pu_scheme = ''https'', pu_hostname = Some ''openrouter.ai'', pu_username = None, pu_password = None,
             pu_port = None, pu_path = ''/api/v1/'', pu_query = [], pu_fragment = []\<rparr>
   in \<exists>p. openrouter_init (\<lambda>_. Some u) ''vendor/model'' ''key'' ''https://openrouter.ai/api/v1/'' [] ''title'' = Inr p \<and>
        mh_url (completion_request p ''hi'' 16) = ''https://openrouter.ai/api/v1/chat/completions''"
proof -
  let ?u = "\<lparr>pu_scheme = ''https'', pu_hostname = Some ''openrouter.ai'', pu_username = None, pu_password = None,
             pu_port = None, pu_path = ''/api/v1/'', pu_query = [], pu_fragment = []\<rparr>"
  have e: "py_lower (py_strip ''vendor/model'') = ''vendor/model''" by code_simp
  have r: "rstrip_slash ''https://openrouter.ai/api/v1/'' = ''https://openrouter.ai/api/v1''"
    "rstrip_slash ''/api/v1/'' = ''/api/v1''" by (simp_all add: rstrip_slash_def)
  obtain p where p: "openrouter_init (\<lambda>_. Some ?u) ''vendor/model'' ''key'' ''https://openrouter.ai/api/v1/'' [] ''title'' = Inr p"
    by (simp add: openrouter_init_def openrouter_url_ok_def given_def e r referer_header_def openai_init_def)
  from openrouter_trust_boundary [OF p, of "''hi''" 16] p r show ?thesis by (simp add: Let_def)
qed

end
