(* ===== verification/Redaction.thy ===== *)
theory Redaction
  imports Gateway
begin

text \<open>
  What the redaction of gateway.py achieves: no e-mail address and no isolated number of ten digits
  is left in the text that goes to a provider, neither from the original nor put together from
  what is around a replacement.
\<close>

section \<open>Specification\<close>

text \<open>Somewhere in the text: a character of a local part, an at sign, a host label, a dot, one more.\<close>

definition email_in :: "string \<Rightarrow> bool" where
  "email_in s \<longleftrightarrow> (\<exists>a c h d b. s = a @ c # CHR ''@'' # h @ CHR ''.'' # d # b \<and>
     local_char c \<and> h \<noteq> [] \<and> list_all host_char h \<and> tail_char d)"

definition ends_in_digit :: "char option \<Rightarrow> bool" where
  "ends_in_digit prev = (case prev of None \<Rightarrow> False | Some c \<Rightarrow> is_digit c)"

text \<open>Ten digits with no digit before (where \<open>prev\<close> is what precedes the text) and none after.\<close>

definition phone_in :: "char option \<Rightarrow> string \<Rightarrow> bool" where
  "phone_in prev s \<longleftrightarrow> (\<exists>a b. s = a @ b \<and> ten_digits b \<and> \<not> ends_in_digit (if a = [] then prev else Some (last a)))"

section \<open>Substitution\<close>

lemma char_classes [simp]:
  "\<not> local_char (CHR '']'')" "\<not> local_char (CHR ''@'')" "\<not> host_char (CHR ''['')" "\<not> host_char (CHR ''.'')"
  "\<not> tail_char (CHR ''['')" "\<not> is_digit (CHR ''['')" "\<not> is_digit (CHR '']'')"
  by (simp_all add: local_char_def host_char_def tail_char_def is_word_def is_digit_def)

text \<open>A character of the result that is not the mark's first is a character of the text, unmatched.\<close>

lemma re_sub_Cons:
  assumes "re_sub m prev 0 s = c # out" "c \<noteq> CHR ''[''"
  shows "\<exists>cs. s = c # cs \<and> out = re_sub m (Some c) 0 cs \<and> (m prev s = None \<or> m prev s = Some 0)"
proof (cases s)
  case (Cons x xs)
  then show ?thesis using assms by (auto simp: redaction_mark_def split: option.splits nat.splits)
qed (use assms in simp)

lemma re_sub_prefix:
  assumes "re_sub m prev 0 s = xs @ out" "CHR ''['' \<notin> set xs"
  shows "\<exists>rest. s = xs @ rest \<and> out = re_sub m (if xs = [] then prev else Some (last xs)) 0 rest"
  using assms
proof (induction xs arbitrary: prev s)
  case (Cons x xs)
  then have "re_sub m prev 0 s = x # (xs @ out)" "x \<noteq> CHR ''[''" by auto
  from re_sub_Cons [OF this] obtain cs where cs: "s = x # cs" "xs @ out = re_sub m (Some x) 0 cs" by auto
  then have "re_sub m (Some x) 0 cs = xs @ out" by simp
  from Cons.IH [OF this] Cons.prems(2) cs(1) show ?case by auto
qed simp

lemma re_sub_Nil: "re_sub m prev 0 s = [] \<Longrightarrow> s = []"
  by (cases s) (auto simp: redaction_mark_def split: option.splits nat.splits)

section \<open>E-mail addresses\<close>

lemma email_in_Cons: "email_in s \<Longrightarrow> email_in (c # s)"
  unfolding email_in_def by (metis append_Cons)

text \<open>An address in \<open>c # out\<close> is in \<open>out\<close> or starts at \<open>c\<close>.\<close>

lemma email_in_ConsE:
  assumes "email_in (c # out)" "\<not> email_in out"
  shows "\<exists>h d b. out = CHR ''@'' # h @ CHR ''.'' # d # b \<and> local_char c \<and> h \<noteq> [] \<and> list_all host_char h \<and> tail_char d"
proof -
  obtain a x h d b where e: "c # out = a @ x # CHR ''@'' # h @ CHR ''.'' # d # b" "local_char x" "h \<noteq> []"
    "list_all host_char h" "tail_char d" using assms(1) unfolding email_in_def by blast
  have "a = []"
  proof (rule ccontr)
    assume "a \<noteq> []"
    then have "out = tl a @ x # CHR ''@'' # h @ CHR ''.'' # d # b" using e(1) by (cases a) auto
    then have "email_in out" unfolding email_in_def using e(2-5) by blast
    then show False using assms(2) by simp
  qed
  then show ?thesis using e by auto
qed

lemma email_in_mark: "email_in (redaction_mark @ out) \<Longrightarrow> email_in out"
proof (rule ccontr)
  assume m: "email_in (redaction_mark @ out)" "\<not> email_in out"
  have step: "email_in (xs @ out) \<Longrightarrow> CHR ''@'' \<notin> set (tl xs) \<Longrightarrow> \<not> local_char (last xs) \<Longrightarrow> xs \<noteq> [] \<Longrightarrow> False" for xs
  proof (induction xs)
    case (Cons x xs)
    show ?case
    proof (cases "email_in (xs @ out)")
      case True
      then show False
      proof (cases "xs = []")
        case False
        then show ?thesis using Cons True by (cases xs) auto
      qed (use m True in simp)
    next
      case False
      from email_in_ConsE [OF _ this, of x] Cons.prems(1) obtain t where "xs @ out = CHR ''@'' # t" "local_char x" by auto
      then show False using Cons.prems by (cases xs) auto
    qed
  qed simp
  show False by (rule step [OF m(1)]) (simp_all add: redaction_mark_def)
qed

text \<open>What an address after \<open>c\<close> in the result is in the text.\<close>

lemma email_at:
  assumes "re_sub m prev 0 s = CHR ''@'' # h @ CHR ''.'' # d # b" "list_all host_char h" "tail_char d"
  shows "\<exists>rest. s = CHR ''@'' # h @ CHR ''.'' # d # rest"
proof -
  have r: "re_sub m prev 0 s = (CHR ''@'' # h @ [CHR ''.'', d]) @ b" using assms(1) by simp
  have "CHR ''['' \<notin> set (CHR ''@'' # h @ [CHR ''.'', d])"
    using assms(2,3) char_classes(3,5) by (auto simp: list_all_iff)
  from re_sub_prefix [OF r this] show ?thesis by auto
qed

lemma email_match_here:
  assumes "local_char c" "h \<noteq> []" "list_all host_char h" "tail_char d"
  shows "\<exists>n. email_match prev (c # CHR ''@'' # h @ CHR ''.'' # d # rest) = Some (Suc n)"
proof -
  have "takeWhile host_char (h @ CHR ''.'' # d # rest) = h" "dropWhile host_char (h @ CHR ''.'' # d # rest) = CHR ''.'' # d # rest"
    using assms(3) by (auto simp: list_all_iff takeWhile_append2 dropWhile_append2)
  then show ?thesis using assms by (simp add: email_match_def Let_def)
qed

lemma no_email_left: "\<not> email_in (re_sub email_match prev k s)"
proof (induction s arbitrary: prev k)
  case Nil
  show ?case by (simp add: email_in_def)
next
  case (Cons c cs)
  show ?case
  proof (cases k)
    case (Suc n)
    then show ?thesis using Cons.IH by simp
  next
    case 0
    show ?thesis
    proof (cases "\<exists>n. email_match prev (c # cs) = Some (Suc n)")
      case True
      then show ?thesis using 0 Cons.IH by (auto dest!: email_in_mark)
    next
      case False
      then have r: "re_sub email_match prev 0 (c # cs) = c # re_sub email_match (Some c) 0 cs"
        by (auto split: option.split nat.split)
      have "\<not> email_in (c # re_sub email_match (Some c) 0 cs)"
      proof
        assume "email_in (c # re_sub email_match (Some c) 0 cs)"
        from email_in_ConsE [OF this Cons.IH] obtain h d b where
          e: "re_sub email_match (Some c) 0 cs = CHR ''@'' # h @ CHR ''.'' # d # b" "local_char c" "h \<noteq> []"
            "list_all host_char h" "tail_char d" by blast
        from email_at [OF e(1,4,5)] email_match_here [OF e(2-5)] False show False by blast
      qed
      then show ?thesis using 0 r by simp
    qed
  qed
qed

lemma re_sub_no_new_email: "email_in (re_sub m prev k s) \<Longrightarrow> email_in s"
proof (induction s arbitrary: prev k)
  case (Cons c cs)
  show ?case
  proof (cases k)
    case (Suc n)
    then show ?thesis using Cons email_in_Cons by simp
  next
    case 0
    show ?thesis
    proof (cases "\<exists>n. m prev (c # cs) = Some (Suc n)")
      case True
      then show ?thesis using 0 Cons email_in_mark email_in_Cons by (auto dest!: email_in_mark)
    next
      case False
      then have r: "re_sub m prev 0 (c # cs) = c # re_sub m (Some c) 0 cs" by (auto split: option.split nat.split)
      show ?thesis
      proof (cases "email_in (re_sub m (Some c) 0 cs)")
        case True
        then show ?thesis using Cons.IH email_in_Cons by blast
      next
        case False
        have "email_in (c # re_sub m (Some c) 0 cs)" using Cons.prems 0 r by simp
        from email_in_ConsE [OF this False] obtain h d b where
          e: "re_sub m (Some c) 0 cs = CHR ''@'' # h @ CHR ''.'' # d # b" "local_char c" "h \<noteq> []"
            "list_all host_char h" "tail_char d" by blast
        from email_at [OF e(1,4,5)] obtain rest where "cs = CHR ''@'' # h @ CHR ''.'' # d # rest" by blast
        then have "c # cs = [] @ c # CHR ''@'' # h @ CHR ''.'' # d # rest" by simp
        then show ?thesis unfolding email_in_def using e(2-5) by blast
      qed
    qed
  qed
qed simp

section \<open>Telephone numbers\<close>

lemma phone_match_here:
  assumes "ten_digits s" "\<not> ends_in_digit prev"
  shows "\<exists>n. phone_match prev s = Some (Suc n)"
proof -
  let ?ns = "concat (map (\<lambda>p. map (\<lambda>n. p + n) (space_options (drop p s))) (phone_prefixes s))"
  have "0 \<in> set (phone_prefixes s)" by (simp add: phone_prefixes_def)
  moreover have "0 \<in> set (space_options (drop 0 s))" by (simp add: space_options_def split: list.split)
  ultimately have "0 \<in> set ?ns" by force
  then have "\<exists>n \<in> set ?ns. ten_digits (drop n s)" using assms(1) by (intro bexI [of _ 0]) simp_all
  then obtain n where "find (\<lambda>n. ten_digits (drop n s)) ?ns = Some n"
    by (cases "find (\<lambda>n. ten_digits (drop n s)) ?ns") (auto simp: find_None_iff)
  then show ?thesis using assms(2) by (simp add: phone_match_def ends_in_digit_def)
qed

lemma phone_match_digit: "is_digit c \<Longrightarrow> phone_match (Some c) s = None"
  by (simp add: phone_match_def)

text \<open>What follows a match does not start with a digit, and its last character is one.\<close>

lemma phone_match_end:
  assumes "phone_match prev s = Some n"
  shows "\<exists>x rest. drop (n - 1) s = x # rest \<and> 0 < n \<and> is_digit x \<and> (rest = [] \<or> \<not> is_digit (hd rest))"
proof -
  obtain k where k: "ten_digits (drop k s)" "n = k + 10"
    using assms by (auto simp: phone_match_def find_Some_iff split: if_splits)
  then have len: "k + 10 \<le> length s" and digits: "\<forall>c \<in> set (take 10 (drop k s)). is_digit c"
    by (auto simp: ten_digits_def list_all_iff)
  have d: "drop (k + 9) s = s ! (k + 9) # drop (k + 10) s" using Cons_nth_drop_Suc [of "k + 9" s] len by (simp add: add.commute)
  have "s ! (k + 9) \<in> set (take 10 (drop k s))" using len by (auto simp: in_set_conv_nth intro!: exI [of _ 9])
  then have "is_digit (s ! (k + 9))" using digits by blast
  moreover have "drop (k + 10) s = [] \<or> \<not> is_digit (hd (drop (k + 10) s))"
    using k(1) by (auto simp: ten_digits_def add.commute split: list.splits)
  moreover have "n - 1 = k + 9" "0 < n" using k(2) by simp_all
  ultimately show ?thesis using d by (intro exI [of _ "s ! (k + 9)"] exI [of _ "drop (k + 10) s"]) simp
qed

lemma re_sub_skip:
  "k \<le> length s \<Longrightarrow> re_sub m prev k s = re_sub m (if k = 0 then prev else Some (last (take k s))) 0 (drop k s)"
proof (induction k arbitrary: prev s)
  case (Suc k)
  then obtain c cs where s: "s = c # cs" by (cases s) auto
  have "re_sub m (Some c) k cs = re_sub m (if k = 0 then Some c else Some (last (take k cs))) 0 (drop k cs)"
    using Suc.IH [of cs "Some c"] Suc.prems s by simp
  then show ?case using s Suc.prems by (auto simp: last_ConsR)
qed simp

lemma ten_digits_text:
  assumes "ten_digits (re_sub phone_match prev 0 s)"
  shows "ten_digits s"
proof -
  let ?out = "re_sub phone_match prev 0 s"
  have t: "10 \<le> length ?out" "\<forall>c \<in> set (take 10 ?out). is_digit c" "drop 10 ?out = [] \<or> \<not> is_digit (hd (drop 10 ?out))"
    using assms by (auto simp: ten_digits_def list_all_iff split: list.splits)
  have ne: "take 10 ?out \<noteq> []" using t(1) by (cases ?out) auto
  have "CHR ''['' \<notin> set (take 10 ?out)" using t(2) char_classes(6) by blast
  from re_sub_prefix [OF append_take_drop_id [symmetric] this] obtain rest where
    rest: "s = take 10 ?out @ rest" "drop 10 ?out = re_sub phone_match (Some (last (take 10 ?out))) 0 rest" using ne by auto
  have "is_digit (last (take 10 ?out))" using t(2) last_in_set [OF ne] by blast
  then have "rest = [] \<or> (\<exists>y ys. rest = y # ys \<and> hd (drop 10 ?out) = y \<and> drop 10 ?out \<noteq> [])"
    using rest(2) by (cases rest) (simp_all add: phone_match_digit)
  then have "case rest of [] \<Rightarrow> True | c # _ \<Rightarrow> \<not> is_digit c" using t(3) by (auto split: list.split)
  moreover have "length (take 10 ?out) = 10" using t(1) by simp
  ultimately have "ten_digits (take 10 ?out @ rest)" using t(2) by (simp add: ten_digits_def list_all_iff)
  then show ?thesis using rest(1) by simp
qed

lemma phone_in_ConsE: "phone_in prev (c # out) \<Longrightarrow> ten_digits (c # out) \<and> \<not> ends_in_digit prev \<or> phone_in (Some c) out"
proof -
  assume "phone_in prev (c # out)"
  then obtain a b where e: "c # out = a @ b" "ten_digits b" "\<not> ends_in_digit (if a = [] then prev else Some (last a))"
    unfolding phone_in_def by blast
  show ?thesis
  proof (cases a)
    case (Cons x xs)
    then have "out = xs @ b" "\<not> ends_in_digit (if xs = [] then Some c else Some (last xs))" using e by (auto split: if_splits)
    then show ?thesis unfolding phone_in_def using e(2) by blast
  qed (use e in auto)
qed

lemma ten_digits_Cons: "ten_digits (c # out) \<Longrightarrow> is_digit c"
  by (simp add: ten_digits_def)

lemma phone_in_mark:
  assumes "phone_in prev (redaction_mark @ out)"
  shows "phone_in (Some (CHR '']'')) out"
proof -
  have step: "phone_in p (x # xs) \<Longrightarrow> \<not> is_digit x \<Longrightarrow> phone_in (Some x) xs" for p x xs
    using phone_in_ConsE ten_digits_Cons by blast
  show ?thesis using assms unfolding redaction_mark_def
    by (simp only: append_Cons append_Nil) (drule step, simp add: is_digit_def)+
qed

lemma no_phone_left: "\<not> phone_in prev (re_sub phone_match prev 0 s)"
proof (induction "length s" arbitrary: s prev rule: less_induct)
  case less
  show ?case
  proof (cases s)
    case Nil
    then show ?thesis by (simp add: phone_in_def ten_digits_def)
  next
    case (Cons c cs)
    show ?thesis
    proof (cases "\<exists>n. phone_match prev s = Some (Suc n)")
      case True
      then obtain n where n: "phone_match prev s = Some (Suc n)" by blast
      from phone_match_end [OF n] obtain x rest where x: "drop n s = x # rest" "is_digit x" "rest = [] \<or> \<not> is_digit (hd rest)"
        by auto
      then have len: "n < length s" using drop_eq_Nil [of n s] by (metis leI list.distinct(1))
      have take: "take (Suc n) s = take n s @ [x]" using x(1) by (simp add: take_Suc_conv_app_nth len nth_via_drop)
      have "re_sub phone_match (Some c) n cs = re_sub phone_match prev (Suc n) s" using Cons by simp
      also have "\<dots> = re_sub phone_match (Some x) 0 (drop (Suc n) s)"
        using re_sub_skip [of "Suc n" s phone_match prev] len take by simp
      also have "drop (Suc n) s = rest" using x(1) by (metis drop_Suc list.sel(3) tl_drop)
      finally have r: "re_sub phone_match prev 0 s = redaction_mark @ re_sub phone_match (Some x) 0 rest"
        using Cons n by simp
      let ?out = "re_sub phone_match (Some x) 0 rest"
      have short: "length rest < length s" using x(1) len by (metis Suc_leI length_drop length_Cons lessI less_le_trans diff_le_self)
      have IH: "\<not> phone_in (Some x) ?out" using less short by blast
      show ?thesis
      proof
        assume "phone_in prev (re_sub phone_match prev 0 s)"
        then have "phone_in (Some (CHR '']'')) ?out" using r phone_in_mark by simp
        then obtain a b where e: "?out = a @ b" "ten_digits b" "\<not> ends_in_digit (if a = [] then Some (CHR '']'') else Some (last a))"
          unfolding phone_in_def by blast
        show False
        proof (cases "a = []")
          case True
          then have "ten_digits ?out" using e by simp
          then have "ten_digits rest" by (rule ten_digits_text)
          then show False using x(3) ten_digits_Cons by (cases rest) (auto simp: ten_digits_def)
        next
          case False
          then have "phone_in (Some x) ?out" unfolding phone_in_def using e by auto
          then show False using IH by simp
        qed
      qed
    next
      case False
      then have r: "re_sub phone_match prev 0 s = c # re_sub phone_match (Some c) 0 cs"
        using Cons by (auto split: option.split nat.split)
      have "\<not> phone_in (Some c) (re_sub phone_match (Some c) 0 cs)" using less Cons by simp
      moreover have "\<not> (ten_digits (re_sub phone_match prev 0 s) \<and> \<not> ends_in_digit prev)"
        using False ten_digits_text phone_match_here by blast
      ultimately show ?thesis using r phone_in_ConsE by metis
    qed
  qed
qed

text \<open>
  C34: no e-mail address and no isolated ten-digit number is left in a redacted prompt, wherever
  they stood and whatever was replaced around them.
\<close>

theorem redacted_prompt_clean:
  "\<not> email_in (fst (redact text)) \<and> \<not> phone_in None (fst (redact text))"
  using no_email_left re_sub_no_new_email no_phone_left by (fastforce simp: redact_def Let_def)

end
