(* ===== verification/ModelUsage.thy ===== *)
theory ModelUsage
  imports Gateway
begin

text \<open>
  services/model\_gateway/app/postgres\_usage.py and the completion handler of server.py: budget
  reservations before a call, their settlement after it, and the bound on what a tenant spends a
  day. The tables are model\_budget\_daily, model\_budget\_reservation and model\_call (the columns
  that are read or hold an outcome), graph\_run as the runs that exist, and the audit events.
\<close>

section \<open>Tables\<close>

record usage_reservation =
  ur_id :: string
  ur_tenant_id :: string
  ur_date :: int
  ur_task_alias :: string
  ur_units :: int
  ur_actual :: "int option"
  ur_status :: string
  ur_expires_at :: real

record model_call_row =
  mc_id :: string
  mc_tenant_id :: string
  mc_run_id :: "string option"
  mc_task_alias :: string
  mc_provider :: string
  mc_model_id :: string
  mc_prompt_version :: string
  mc_data_classification :: string
  mc_cost_units :: int
  mc_latency_ms :: int
  mc_outcome :: string
  mc_redaction_applied :: bool
  mc_correlation_id :: string

text \<open>\<open>ud_daily\<close> maps a tenant and a date to the reserved and the spent units.\<close>

record usage_db =
  ud_daily :: "(string \<times> int, int \<times> int) dict"
  ud_reservations :: "usage_reservation list"
  ud_calls :: "model_call_row list"
  ud_audit :: "pg_audit list"
  ud_runs :: "(string \<times> string) list"

text \<open>\<open>UPDATE model_budget_daily SET ... WHERE tenant_id=%s AND budget_date=%s\<close>.\<close>

definition update_daily :: "string \<times> int \<Rightarrow> (int \<times> int \<Rightarrow> int \<times> int) \<Rightarrow> (string \<times> int, int \<times> int) dict \<Rightarrow> (string \<times> int, int \<times> int) dict" where
  "update_daily day f daily = map (\<lambda>(k, v). (k, if k = day then f v else v)) daily"

definition release_units :: "int \<Rightarrow> int \<times> int \<Rightarrow> int \<times> int" where
  "release_units n v = (max 0 (fst v - n), snd v)"

text \<open>An open reservation of the tenant whose time is up; only those of the current date are looked at.\<close>

definition stale_reservation :: "string \<Rightarrow> int \<Rightarrow> real \<Rightarrow> usage_reservation \<Rightarrow> bool" where
  "stale_reservation tenant today now r \<longleftrightarrow>
     ur_tenant_id r = tenant \<and> ur_date r = today \<and> ur_status r = ''RESERVED'' \<and> ur_expires_at r \<le> now"

text \<open>The statements that give back what stale reservations hold, with the row of the day made first.\<close>

definition expire_reservations :: "string \<Rightarrow> int \<Rightarrow> real \<Rightarrow> usage_db \<Rightarrow> usage_db" where
  "expire_reservations tenant today now db =
     (let stale = stale_reservation tenant today now;
          expired = sum_list (map ur_units (filter stale (ud_reservations db)));
          daily = (if has_key (ud_daily db) (tenant, today) then ud_daily db else ud_daily db @ [((tenant, today), (0, 0))])
      in db\<lparr>ud_daily := update_daily (tenant, today) (release_units expired) daily,
            ud_reservations := map (\<lambda>r. if stale r then r\<lparr>ur_status := ''RELEASED''\<rparr> else r) (ud_reservations db)\<rparr>)"

definition day_units :: "usage_db \<Rightarrow> string \<times> int \<Rightarrow> int \<times> int" where
  "day_units db day = dict_get_or (0, 0) (ud_daily db) day"

definition insert_reservation :: "pg_env \<Rightarrow> int \<Rightarrow> string \<Rightarrow> string \<Rightarrow> string \<Rightarrow> int \<Rightarrow> usage_db \<Rightarrow> usage_db" where
  "insert_reservation e today reservation_id tenant task_alias units db =
     db\<lparr>ud_daily := update_daily (tenant, today) (\<lambda>v. (fst v + units, snd v)) (ud_daily db),
        ud_reservations := ud_reservations db @
          [\<lparr>ur_id = reservation_id, ur_tenant_id = tenant, ur_date = today, ur_task_alias = task_alias, ur_units = units,
            ur_actual = None, ur_status = ''RESERVED'', ur_expires_at = pg_now e + 120\<rparr>]\<rparr>"

definition reserve_body :: "pg_env \<Rightarrow> int \<Rightarrow> string \<Rightarrow> string \<Rightarrow> string \<Rightarrow> int \<Rightarrow> int \<Rightarrow> string option \<Rightarrow> usage_db \<Rightarrow> string res \<times> usage_db" where
  "reserve_body e today reservation_id tenant task_alias units daily_limit run_id db =
     (if given run_id \<and> (tenant, the run_id) \<notin> set (ud_runs db)
      then (raise ModelBudgetError ''MODEL_RUN_NOT_FOUND_PRECALL'', db)
      else
        (let db1 = expire_reservations tenant today (pg_now e) db;
             day = day_units db1 (tenant, today)
         in if daily_limit < fst day + snd day + units
            then (raise ModelBudgetError ''DAILY_BUDGET_EXCEEDED_PRECALL'', db1)
            else if reservation_id \<in> ur_id ` set (ud_reservations db1)
            then (raise DatabaseError ''UNIQUE_VIOLATION'', db1)
            else (Inr reservation_id, insert_reservation e today reservation_id tenant task_alias units db1)))"

definition usage_reserve ::
  "pg_env \<Rightarrow> int \<Rightarrow> string \<Rightarrow> string \<Rightarrow> string \<Rightarrow> int \<Rightarrow> int \<Rightarrow> string option \<Rightarrow> usage_db \<Rightarrow> string res \<times> usage_db" where
  "usage_reserve e today reservation_id tenant task_alias units daily_limit run_id db =
     (if units < 1 \<or> daily_limit < 1 \<or> daily_limit < units
      then (raise ModelBudgetError ''DAILY_BUDGET_EXCEEDED_PRECALL'', db)
      else pg_run e (reserve_body e today reservation_id tenant task_alias units daily_limit run_id) db)"

section \<open>Settlement\<close>

definition or_else :: "string option \<Rightarrow> string option \<Rightarrow> string option" where
  "or_else a b = (if given a then a else b)"

definition settled_correlation :: "model_request \<Rightarrow> string \<Rightarrow> string" where
  "settled_correlation q call_id =
     (case uuid_text (the (or_else (mr_correlation_id q) (or_else (mr_run_id q) (Some call_id)))) of
        None \<Rightarrow> call_id | Some u \<Rightarrow> u)"

definition settled_run :: "string option \<Rightarrow> string option res" where
  "settled_run run_id =
     (case run_id of
        None \<Rightarrow> Inr None
      | Some r \<Rightarrow>
          if r = [] then Inr (Some r)
          else (case uuid_text r of None \<Rightarrow> raise ModelBudgetError ''MODEL_RUN_ID_INVALID'' | Some u \<Rightarrow> Inr (Some u)))"

text \<open>What the caller reports of the call.\<close>

record call_outcome =
  co_actual_units :: int
  co_provider :: string
  co_model_id :: string
  co_latency_ms :: int
  co_outcome :: string
  co_redaction_applied :: bool

definition call_row :: "string \<Rightarrow> model_request \<Rightarrow> string option \<Rightarrow> int \<Rightarrow> call_outcome \<Rightarrow> model_call_row" where
  "call_row call_id q run charged c =
     \<lparr>mc_id = call_id, mc_tenant_id = mr_tenant_id q, mc_run_id = run, mc_task_alias = mr_task_alias q,
      mc_provider = co_provider c, mc_model_id = co_model_id c, mc_prompt_version = mr_prompt_version q,
      mc_data_classification = mr_data_classification q, mc_cost_units = charged, mc_latency_ms = co_latency_ms c,
      mc_outcome = co_outcome c, mc_redaction_applied = co_redaction_applied c,
      mc_correlation_id = settled_correlation q call_id\<rparr>"

definition call_audit :: "string \<Rightarrow> model_request \<Rightarrow> call_outcome \<Rightarrow> pg_audit" where
  "call_audit call_id q c =
     \<lparr>pa_tenant_id = mr_tenant_id q, pa_actor_type = ''SERVICE'', pa_actor_id = ''model-gateway'',
      pa_action = (if co_outcome c = ''SUCCESS'' then ''MODEL_CALL_COMPLETED'' else ''MODEL_CALL_FAILED''),
      pa_resource_type = ''MODEL_CALL'', pa_resource_id = call_id, pa_decision_id = None,
      pa_reason_codes = reason_json [co_outcome c, co_provider c, co_model_id c],
      pa_correlation_id = settled_correlation q call_id\<rparr>"

definition find_reservation :: "string \<Rightarrow> string \<Rightarrow> usage_reservation list \<Rightarrow> usage_reservation option" where
  "find_reservation tenant i rows = find (\<lambda>r. ur_tenant_id r = tenant \<and> ur_id r = i) rows"

text \<open>The updates of the day and of the reservation.\<close>

definition settle_reservation :: "usage_reservation \<Rightarrow> int \<Rightarrow> string \<Rightarrow> usage_db \<Rightarrow> usage_db" where
  "settle_reservation row charged outcome db =
     db\<lparr>ud_daily := update_daily (ur_tenant_id row, ur_date row) (\<lambda>v. (max 0 (fst v - ur_units row), snd v + charged)) (ud_daily db),
        ud_reservations := map (\<lambda>r. if ur_tenant_id r = ur_tenant_id row \<and> ur_id r = ur_id row
            then r\<lparr>ur_actual := Some charged, ur_status := if outcome = ''SUCCESS'' then ''SETTLED'' else ''RELEASED''\<rparr> else r)
          (ud_reservations db)\<rparr>"

definition settle_body ::
  "string \<Rightarrow> model_request \<Rightarrow> string option \<Rightarrow> call_outcome \<Rightarrow> usage_db \<Rightarrow> string res \<times> usage_db" where
  "settle_body reservation_id q run c db =
     (case find_reservation (mr_tenant_id q) reservation_id (ud_reservations db) of
        None \<Rightarrow> (raise ModelBudgetError ''MODEL_BUDGET_RESERVATION_INVALID'', db)
      | Some row \<Rightarrow>
          if ur_status row \<noteq> ''RESERVED''
          then (raise ModelBudgetError ''MODEL_BUDGET_RESERVATION_INVALID'', db)
          else
            (let charged = max 0 (co_actual_units c);
                 db1 = settle_reservation row charged (co_outcome c) db in
             if reservation_id \<in> mc_id ` set (ud_calls db)
             then (raise DatabaseError ''UNIQUE_VIOLATION'', db1)
             else (Inr reservation_id,
               db1\<lparr>ud_calls := ud_calls db1 @ [call_row reservation_id q run charged c],
                   ud_audit := ud_audit db1 @ [call_audit reservation_id q c]\<rparr>)))"

definition usage_settle ::
  "pg_env \<Rightarrow> string \<Rightarrow> model_request \<Rightarrow> call_outcome \<Rightarrow> usage_db \<Rightarrow> string res \<times> usage_db" where
  "usage_settle e reservation_id q c db =
     (case settled_run (mr_run_id q) of
        Inl x \<Rightarrow> (Inl x, db)
      | Inr run \<Rightarrow> pg_run e (settle_body reservation_id q run c) db)"

section \<open>The completion handler\<close>

definition request_field_names :: "string list" where
  "request_field_names = [''tenant_id'', ''task_alias'', ''prompt'', ''data_classification'', ''max_cost_units'',
     ''expected_schema'', ''run_id'', ''correlation_id'', ''prompt_version'']"

text \<open>
  \<open>ModelRequest(**body)\<close>: the fields of the class, the first three required. A value of another
  type than annotated is refused here with the same TypeError; the limit is any value.
\<close>

definition text_field :: "(string \<times> json) list \<Rightarrow> string \<Rightarrow> string option \<Rightarrow> string res" where
  "text_field body k d =
     (case map_of body k of
        None \<Rightarrow> of_option (Exn TypeError k) d
      | Some v \<Rightarrow> of_option (Exn TypeError k) (json_str v))"

definition optional_field :: "(string \<times> json) list \<Rightarrow> string \<Rightarrow> string option res" where
  "optional_field body k =
     (case map_of body k of
        None \<Rightarrow> Inr None
      | Some JNull \<Rightarrow> Inr None
      | Some (JStr s) \<Rightarrow> Inr (Some s)
      | _ \<Rightarrow> raise TypeError k)"

fun text_list :: "json list \<Rightarrow> string list option" where
  "text_list [] = Some []"
| "text_list (JStr s # vs) = map_option ((#) s) (text_list vs)"
| "text_list (_ # vs) = None"

definition schema_field :: "(string \<times> json) list \<Rightarrow> string list res" where
  "schema_field body =
     (case map_of body ''expected_schema'' of
        None \<Rightarrow> Inr []
      | Some (JList vs) \<Rightarrow> of_option (Exn TypeError ''expected_schema'') (text_list vs)
      | _ \<Rightarrow> raise TypeError ''expected_schema'')"

definition model_request_of :: "(string \<times> json) list \<Rightarrow> model_request res" where
  "model_request_of body =
     (if \<not> set (map fst body) \<subseteq> set request_field_names then raise TypeError ''ModelRequest''
      else
        rbind (text_field body ''tenant_id'' None) (\<lambda>tenant.
        rbind (text_field body ''task_alias'' None) (\<lambda>alias.
        rbind (text_field body ''prompt'' None) (\<lambda>prompt.
        rbind (text_field body ''data_classification'' (Some ''INTERNAL'')) (\<lambda>classification.
        rbind (schema_field body) (\<lambda>schema.
        rbind (optional_field body ''run_id'') (\<lambda>run.
        rbind (optional_field body ''correlation_id'') (\<lambda>correlation.
        rbind (text_field body ''prompt_version'' (Some ''inline@1'')) (\<lambda>version.
          request_post_init
            \<lparr>mr_tenant_id = tenant, mr_task_alias = alias, mr_prompt = prompt, mr_data_classification = classification,
             mr_max_cost_units = dict_get_or (JInt 100) body ''max_cost_units'', mr_expected_schema = schema,
             mr_run_id = run, mr_correlation_id = correlation, mr_prompt_version = version\<rparr>)))))))))"

text \<open>The comparison \<open>units < 1\<close> and the bigint column: an integer, or an exception.\<close>

definition reserve_units :: "json \<Rightarrow> int res" where
  "reserve_units v = (case v of JInt n \<Rightarrow> Inr n | _ \<Rightarrow> raise TypeError ''max_cost_units'')"

definition restricted_names :: "environ \<Rightarrow> string set" where
  "restricted_names env = set (name_list (getenv env ''RESTRICTED_PROVIDER_ALLOWLIST'' []))"

definition response_dict :: "model_response \<Rightarrow> (string \<times> json) list" where
  "response_dict r =
     [(''provider'', JStr (mp_provider r)), (''model_id'', JStr (mp_model_id r)), (''output'', mp_output r),
      (''redaction_applied'', JBool (mp_redaction_applied r)), (''cost_units'', JInt (mp_cost_units r))]"

text \<open>What the process is configured with, and the moments of one call.\<close>

record 'w model_config =
  cf_urlparse :: "string \<Rightarrow> parsed_url option"
  cf_read_text :: "string \<Rightarrow> string res"
  cf_float_int :: "string \<Rightarrow> int res"
  cf_urlopen :: "model_http_request \<Rightarrow> 'w \<Rightarrow> json res \<times> 'w"
  cf_environ :: environ

record call_env =
  ce_reserve :: pg_env
  ce_today :: int
  ce_settle :: pg_env
  ce_fail :: pg_env
  ce_latency_ms :: int
  ce_reservation_id :: string

text \<open>A gateway is built for each request, so its ledger is empty and every provider healthy.\<close>

definition run_gateway :: "'w model_config \<Rightarrow> int \<Rightarrow> model_request \<Rightarrow> 'w \<Rightarrow> model_response res \<times> 'w" where
  "run_gateway cf policy_max q w =
     (case rbind (configured_providers (cf_urlparse cf) (cf_read_text cf) (cf_environ cf)) (\<lambda>ps.
             gateway_init (map (as_provider (cf_float_int cf) (cf_urlopen cf)) ps) (restricted_names (cf_environ cf)) policy_max) of
        Inl x \<Rightarrow> (Inl x, w)
      | Inr g \<Rightarrow>
          (case gateway_complete g q \<lparr>gs_spent = [], gs_unhealthy = {}, gs_world = w\<rparr> of (r, s) \<Rightarrow> (r, gs_world s)))"

definition handled :: "exn \<Rightarrow> bool" where
  "handled x = (exn_cls x \<in> {ProviderError, ModelBudgetError} \<or> is_value_error x)"

definition refusal :: "exn \<Rightarrow> (int \<times> reply_body) res" where
  "refusal x = (if handled x then Inr (503, error_body (exn_msg x)) else Inl x)"

text \<open>The \<open>except\<close> clause after a reservation.\<close>

definition fail_call :: "call_env \<Rightarrow> model_request \<Rightarrow> exn \<Rightarrow> usage_db \<Rightarrow> (int \<times> reply_body) res \<times> usage_db" where
  "fail_call ce q x db =
     (if \<not> handled x then (Inl x, db)
      else (case usage_settle (ce_fail ce) (ce_reservation_id ce) q
                   \<lparr>co_actual_units = 0, co_provider = ''none'', co_model_id = ''none'', co_latency_ms = ce_latency_ms ce,
                    co_outcome = take 128 (exn_msg x), co_redaction_applied = False\<rparr> db of
              (Inl y, db') \<Rightarrow> (Inl y, db')
            | (Inr _, db') \<Rightarrow> (refusal x, db')))"

definition success_outcome :: "call_env \<Rightarrow> model_response \<Rightarrow> call_outcome" where
  "success_outcome ce r =
     \<lparr>co_actual_units = mp_cost_units r, co_provider = mp_provider r, co_model_id = mp_model_id r,
      co_latency_ms = ce_latency_ms ce, co_outcome = ''SUCCESS'', co_redaction_applied = mp_redaction_applied r\<rparr>"

definition finish_call :: "call_env \<Rightarrow> model_request \<Rightarrow> model_response res \<Rightarrow> usage_db \<Rightarrow> (int \<times> reply_body) res \<times> usage_db" where
  "finish_call ce q r db =
     (case r of
        Inl x \<Rightarrow> fail_call ce q x db
      | Inr response \<Rightarrow>
          (case usage_settle (ce_settle ce) (ce_reservation_id ce) q (success_outcome ce response) db of
             (Inl x, db') \<Rightarrow> fail_call ce q x db'
           | (Inr call, db') \<Rightarrow> (Inr (200, JsonBody (JObj (response_dict response @ [(''model_call_id'', JStr call)]))), db')))"

definition prepare_call :: "environ \<Rightarrow> (string \<times> json) list \<Rightarrow> (model_request \<times> int) res" where
  "prepare_call env body =
     rbind (model_request_of body) (\<lambda>q.
     rbind (env_int env ''ATLANTIS_MODEL_MAX_COST_UNITS_PER_REQUEST'' ''4000'') (\<lambda>policy_max. Inr (q, policy_max)))"

definition reserve_call :: "environ \<Rightarrow> call_env \<Rightarrow> model_request \<Rightarrow> usage_db \<Rightarrow> string res \<times> usage_db" where
  "reserve_call env ce q db =
     (case rbind (env_int env ''ATLANTIS_MODEL_DAILY_BUDGET_UNITS'' ''100000'') (\<lambda>daily.
             rbind (reserve_units (mr_max_cost_units q)) (\<lambda>units. Inr (daily, units))) of
        Inl x \<Rightarrow> (Inl x, db)
      | Inr (daily, units) \<Rightarrow>
          usage_reserve (ce_reserve ce) (ce_today ce) (ce_reservation_id ce) (mr_tenant_id q) (mr_task_alias q) units daily
            (mr_run_id q) db)"

text \<open>
  \<open>complete(body)\<close> with and without a repository; \<open>meanwhile\<close> is what other requests do to the
  tables between the reservation and the settlement.
\<close>

definition durable_completion ::
  "'w model_config \<Rightarrow> call_env \<Rightarrow> (usage_db \<Rightarrow> usage_db) \<Rightarrow> (string \<times> json) list \<Rightarrow> usage_db \<Rightarrow> 'w
    \<Rightarrow> (int \<times> reply_body) res \<times> usage_db \<times> 'w" where
  "durable_completion cf ce meanwhile body db w =
     (case prepare_call (cf_environ cf) body of
        Inl x \<Rightarrow> (refusal x, db, w)
      | Inr (q, policy_max) \<Rightarrow>
          (case reserve_call (cf_environ cf) ce q db of
             (Inl x, db1) \<Rightarrow> (refusal x, db1, w)
           | (Inr _, db1) \<Rightarrow>
               (case run_gateway cf policy_max q w of
                  (r, w1) \<Rightarrow> (case finish_call ce q r (meanwhile db1) of (reply, db2) \<Rightarrow> (reply, db2, w1)))))"

definition memory_completion ::
  "'w model_config \<Rightarrow> (string \<times> json) list \<Rightarrow> 'w \<Rightarrow> (int \<times> reply_body) res \<times> 'w" where
  "memory_completion cf body w =
     (case prepare_call (cf_environ cf) body of
        Inl x \<Rightarrow> (refusal x, w)
      | Inr (q, policy_max) \<Rightarrow>
          (case run_gateway cf policy_max q w of
             (Inl x, w1) \<Rightarrow> (refusal x, w1)
           | (Inr response, w1) \<Rightarrow> (Inr (200, JsonBody (JObj (response_dict response))), w1)))"

section \<open>The invariant\<close>

definition open_units :: "usage_reservation list \<Rightarrow> string \<times> int \<Rightarrow> int" where
  "open_units rows day =
     sum_list (map ur_units (filter (\<lambda>r. ur_status r = ''RESERVED'' \<and> (ur_tenant_id r, ur_date r) = day) rows))"

text \<open>What is reserved on a day is what its open reservations hold.\<close>

definition usage_ok :: "usage_db \<Rightarrow> bool" where
  "usage_ok db \<longleftrightarrow> dict_wf (ud_daily db) \<and> distinct (map ur_id (ud_reservations db)) \<and>
     (\<forall>r \<in> set (ud_reservations db). 0 < ur_units r) \<and>
     (\<forall>day. fst (day_units db day) = open_units (ud_reservations db) day)"

definition within_daily :: "int \<Rightarrow> usage_db \<Rightarrow> bool" where
  "within_daily limit db \<longleftrightarrow> (\<forall>day. fst (day_units db day) + snd (day_units db day) \<le> limit)"

text \<open>No statement changes which reservations there are but for the insert, nor what they hold.\<close>

definition reservation_key :: "usage_reservation \<Rightarrow> string \<times> string \<times> int" where
  "reservation_key r = (ur_id r, ur_tenant_id r, ur_units r)"

lemma map_of_update_daily:
  "map_of (update_daily day f d) k = map_option (\<lambda>v. if k = day then f v else v) (map_of d k)"
  by (induction d) (auto simp: update_daily_def)

lemma update_daily_keys [simp]: "map fst (update_daily day f d) = map fst d"
  by (induction d) (auto simp: update_daily_def)

lemma open_units_Cons [simp]:
  "open_units [] day = 0"
  "open_units (r # rows) day =
    (if ur_status r = ''RESERVED'' \<and> (ur_tenant_id r, ur_date r) = day then ur_units r else 0) + open_units rows day"
  by (simp_all add: open_units_def)

lemma open_units_append [simp]: "open_units (xs @ ys) day = open_units xs day + open_units ys day"
  by (simp add: open_units_def)

lemma open_units_nonneg: "\<forall>r \<in> set rows. 0 < ur_units r \<Longrightarrow> 0 \<le> open_units rows day"
  by (induction rows) auto

text \<open>Taking some open reservations of a day out of it.\<close>

lemma open_units_close:
  assumes "\<And>r. P r \<Longrightarrow> ur_status r = ''RESERVED'' \<and> (ur_tenant_id r, ur_date r) = day"
    and "\<And>r. ur_status (f r) \<noteq> ''RESERVED''"
  shows "open_units (map (\<lambda>r. if P r then f r else r) rows) day' =
    (if day' = day then open_units rows day - sum_list (map ur_units (filter P rows)) else open_units rows day')"
proof (induction rows)
  case (Cons r rows)
  then show ?case using assms(1) [of r] assms(2) by auto
qed simp

lemma filter_open_le: "\<forall>r \<in> set rows. 0 < ur_units r \<Longrightarrow>
    (\<And>r. P r \<Longrightarrow> ur_status r = ''RESERVED'' \<and> (ur_tenant_id r, ur_date r) = day) \<Longrightarrow>
    0 \<le> sum_list (map ur_units (filter P rows)) \<and> sum_list (map ur_units (filter P rows)) \<le> open_units rows day"
proof (induction rows)
  case (Cons r rows)
  then have IH: "0 \<le> sum_list (map ur_units (filter P rows)) \<and> sum_list (map ur_units (filter P rows)) \<le> open_units rows day" by auto
  then show ?case using Cons.prems by auto
qed simp

lemma filter_id:
  assumes "distinct (map ur_id rows)" "row \<in> set rows"
  shows "filter (\<lambda>r. ur_tenant_id r = ur_tenant_id row \<and> ur_id r = ur_id row) rows = [row]"
  using assms
proof (induction rows)
  case (Cons r rows)
  show ?case
  proof (cases "r = row")
    case True
    then have "filter (\<lambda>r. ur_tenant_id r = ur_tenant_id row \<and> ur_id r = ur_id row) rows = []"
      using Cons.prems by (auto simp: filter_empty_conv rev_image_eqI)
    then show ?thesis using True by simp
  next
    case False
    then have "ur_id r \<noteq> ur_id row" using Cons.prems by (auto simp: rev_image_eqI)
    then show ?thesis using Cons False by auto
  qed
qed simp

section \<open>The operations keep it\<close>

lemma expire_units_ok:
  assumes "usage_ok db"
  shows "usage_ok (expire_reservations tenant today now db)"
    "snd (day_units (expire_reservations tenant today now db) day) = snd (day_units db day)"
    "fst (day_units (expire_reservations tenant today now db) day) \<le> fst (day_units db day)"
    "has_key (ud_daily (expire_reservations tenant today now db)) (tenant, today)"
    "map reservation_key (ud_reservations (expire_reservations tenant today now db)) = map reservation_key (ud_reservations db)"
proof -
  let ?db = "expire_reservations tenant today now db"
  let ?stale = "stale_reservation tenant today now"
  let ?n = "sum_list (map ur_units (filter ?stale (ud_reservations db)))"
  let ?d = "if has_key (ud_daily db) (tenant, today) then ud_daily db else ud_daily db @ [((tenant, today), (0, 0))]"
  have d: "ud_daily ?db = update_daily (tenant, today) (release_units ?n) ?d"
    "ud_reservations ?db = map (\<lambda>r. if ?stale r then r\<lparr>ur_status := ''RELEASED''\<rparr> else r) (ud_reservations db)"
    by (simp_all add: expire_reservations_def Let_def)
  have look: "dict_get_or (0, 0) ?d day = day_units db day" for day
    by (auto simp: day_units_def dict_get_or_def has_key_def map_add_def split: option.splits)
  have st: "ur_status r = ''RESERVED'' \<and> (ur_tenant_id r, ur_date r) = (tenant, today)" if "?stale r" for r
    using that by (simp add: stale_reservation_def)
  have pos: "\<forall>r \<in> set (ud_reservations db). 0 < ur_units r" using assms by (simp add: usage_ok_def)
  note le = filter_open_le [OF pos st]
  have fst0: "fst (day_units db day) = open_units (ud_reservations db) day" for day using assms unfolding usage_ok_def by blast
  have key: "has_key ?d (tenant, today)" by (auto simp: has_key_def map_add_def split: option.split)
  then show "has_key (ud_daily ?db) (tenant, today)" by (simp only: d(1) has_key_def map_of_update_daily option.map_disc_iff not_False_eq_True)
  have du: "day_units ?db day = (if day = (tenant, today) then release_units ?n (day_units db day) else day_units db day)" for day
    using look [of day] key unfolding day_units_def d(1)
    by (auto simp: dict_get_or_def map_of_update_daily has_key_def split: option.splits)
  show s: "snd (day_units ?db day) = snd (day_units db day)" for day by (simp add: du release_units_def)
  show "fst (day_units ?db day) \<le> fst (day_units db day)"
    using le fst0 [of "(tenant, today)"] by (auto simp: du release_units_def)
  have "open_units (ud_reservations ?db) day = (if day = (tenant, today)
      then open_units (ud_reservations db) (tenant, today) - ?n else open_units (ud_reservations db) day)" for day
    unfolding d(2) by (rule open_units_close) (use st in auto)
  then have "fst (day_units ?db day) = open_units (ud_reservations ?db) day" for day
    using le fst0 by (auto simp: du release_units_def)
  moreover have "dict_wf ?d" using assms by (auto simp: usage_ok_def has_key_def)
  moreover have "map ur_id (ud_reservations ?db) = map ur_id (ud_reservations db)" by (simp add: d(2))
  moreover have "\<forall>r \<in> set (ud_reservations ?db). 0 < ur_units r" using pos by (auto simp: d(2))
  ultimately show "usage_ok ?db" using assms d(1) by (simp add: usage_ok_def)
  show "map reservation_key (ud_reservations ?db) = map reservation_key (ud_reservations db)"
    by (simp add: d(2) reservation_key_def)
qed

lemma insert_ok:
  assumes "usage_ok db" "has_key (ud_daily db) (tenant, today)" "0 < units" "i \<notin> ur_id ` set (ud_reservations db)"
  shows "usage_ok (insert_reservation e today i tenant alias units db)"
    "day_units (insert_reservation e today i tenant alias units db) day =
      (if day = (tenant, today) then (fst (day_units db day) + units, snd (day_units db day)) else day_units db day)"
proof -
  let ?db = "insert_reservation e today i tenant alias units db"
  show du: "day_units ?db day =
      (if day = (tenant, today) then (fst (day_units db day) + units, snd (day_units db day)) else day_units db day)" for day
    using assms(2) by (auto simp: insert_reservation_def day_units_def dict_get_or_def map_of_update_daily has_key_def split: option.splits)
  have "fst (day_units ?db day) = open_units (ud_reservations ?db) day" for day
  proof -
    have "fst (day_units db day) = open_units (ud_reservations db) day" using assms(1) unfolding usage_ok_def by blast
    moreover have "open_units (ud_reservations ?db) day =
        open_units (ud_reservations db) day + (if day = (tenant, today) then units else 0)"
      by (auto simp: insert_reservation_def)
    ultimately show ?thesis by (auto simp: du)
  qed
  then show "usage_ok ?db" using assms by (auto simp: usage_ok_def insert_reservation_def)
qed

lemma reserve_ok:
  assumes "usage_reserve e today i tenant alias units limit run db = (Inr j, db')" "usage_ok db"
  shows "usage_ok db'" "within_daily limit db \<Longrightarrow> within_daily limit db'" "j = i"
    "\<exists>row \<in> set (ud_reservations db'). reservation_key row = (i, tenant, units)"
    "\<forall>row \<in> set (ud_reservations db'). ur_id row = i \<longrightarrow> reservation_key row = (i, tenant, units)"
    "reservation_key ` set (ud_reservations db) \<subseteq> reservation_key ` set (ud_reservations db')"
proof -
  let ?db1 = "expire_reservations tenant today (pg_now e) db"
  have u: "0 < units" and b: "reserve_body e today i tenant alias units limit run db = (Inr j, db')"
    using assms(1) by (simp_all add: usage_reserve_def pg_run_Inr split: if_splits)
  have f: "fst (day_units ?db1 (tenant, today)) + snd (day_units ?db1 (tenant, today)) + units \<le> limit"
    "i \<notin> ur_id ` set (ud_reservations ?db1)" "db' = insert_reservation e today i tenant alias units ?db1" "j = i"
    using b unfolding reserve_body_def Let_def by (auto split: if_splits)
  note x = expire_units_ok [OF assms(2), of tenant today "pg_now e"]
  note n = insert_ok [OF x(1,4) u f(2), of e "alias"]
  show "usage_ok db'" "j = i" using n(1) f(3,4) by simp_all
  show "within_daily limit db \<Longrightarrow> within_daily limit db'"
    unfolding within_daily_def
  proof
    fix day assume w: "\<forall>day. fst (day_units db day) + snd (day_units db day) \<le> limit"
    show "fst (day_units db' day) + snd (day_units db' day) \<le> limit"
    proof (cases "day = (tenant, today)")
      case True
      then show ?thesis using f(1) by (simp add: f(3) n(2))
    next
      case False
      have "fst (day_units ?db1 day) + snd (day_units ?db1 day) \<le> fst (day_units db day) + snd (day_units db day)"
        using x(2,3) [of day] by simp
      also have "\<dots> \<le> limit" using w by blast
      finally show ?thesis using False by (simp add: f(3) n(2))
    qed
  qed
  have r: "ud_reservations db' = ud_reservations ?db1 @
      [\<lparr>ur_id = i, ur_tenant_id = tenant, ur_date = today, ur_task_alias = alias, ur_units = units,
        ur_actual = None, ur_status = ''RESERVED'', ur_expires_at = pg_now e + 120\<rparr>]"
    by (simp add: f(3) insert_reservation_def)
  show "\<exists>row \<in> set (ud_reservations db'). reservation_key row = (i, tenant, units)" by (simp add: r reservation_key_def)
  show "\<forall>row \<in> set (ud_reservations db'). ur_id row = i \<longrightarrow> reservation_key row = (i, tenant, units)"
    using f(2) by (auto simp: r reservation_key_def)
  have "reservation_key ` set (ud_reservations ?db1) = reservation_key ` set (ud_reservations db)"
    using arg_cong [OF x(5), of set] by simp
  then show "reservation_key ` set (ud_reservations db) \<subseteq> reservation_key ` set (ud_reservations db')" by (auto simp: r)
qed

lemma settle_reservation_ok:
  assumes "usage_ok db" "row \<in> set (ud_reservations db)" "ur_status row = ''RESERVED''"
  shows "usage_ok (settle_reservation row charged outcome db)"
    "day_units (settle_reservation row charged outcome db) day =
      (if day = (ur_tenant_id row, ur_date row) then (fst (day_units db day) - ur_units row, snd (day_units db day) + charged)
       else day_units db day)"
    "map reservation_key (ud_reservations (settle_reservation row charged outcome db)) = map reservation_key (ud_reservations db)"
proof -
  let ?day = "(ur_tenant_id row, ur_date row)"
  let ?P = "\<lambda>r. ur_tenant_id r = ur_tenant_id row \<and> ur_id r = ur_id row"
  let ?f = "\<lambda>r. r\<lparr>ur_actual := Some charged, ur_status := if outcome = ''SUCCESS'' then ''SETTLED'' else ''RELEASED''\<rparr>"
  let ?db = "settle_reservation row charged outcome db"
  have u: "dict_wf (ud_daily db)" "distinct (map ur_id (ud_reservations db))" "\<forall>r \<in> set (ud_reservations db). 0 < ur_units r"
    "\<And>day. fst (day_units db day) = open_units (ud_reservations db) day" using assms(1) unfolding usage_ok_def by blast+
  note flt = filter_id [OF u(2) assms(2)]
  have only: "?P r \<Longrightarrow> r \<in> set (ud_reservations db) \<Longrightarrow> r = row" for r
    using u(2) assms(2) by (auto simp: distinct_map inj_on_def)
  have rows: "ud_reservations ?db = map (\<lambda>r. if ?P r then ?f r else r) (ud_reservations db)"
    by (simp add: settle_reservation_def)
  have meq: "map (\<lambda>r. if ?P r then ?f r else r) (ud_reservations db) = map (\<lambda>r. if r = row then ?f r else r) (ud_reservations db)"
    using only by (intro map_cong) auto
  have feq: "filter (\<lambda>r. r = row) (ud_reservations db) = filter ?P (ud_reservations db)"
    using only by (intro filter_cong) auto
  have ou: "open_units (ud_reservations ?db) day =
      (if day = ?day then open_units (ud_reservations db) day - ur_units row else open_units (ud_reservations db) day)" for day
  proof -
    have "open_units (ud_reservations ?db) day = (if day = ?day
        then open_units (ud_reservations db) ?day - sum_list (map ur_units (filter (\<lambda>r. r = row) (ud_reservations db)))
        else open_units (ud_reservations db) day)"
      unfolding rows meq by (rule open_units_close) (use assms(3) in auto)
    then show ?thesis by (simp add: feq flt)
  qed
  have le: "ur_units row \<le> open_units (ud_reservations db) ?day"
    using filter_open_le [OF u(3), of "\<lambda>r. r = row" ?day] assms(3) by (simp add: feq flt)
  have "map_of (ud_daily db) ?day \<noteq> None"
  proof
    assume "map_of (ud_daily db) ?day = None"
    then have "open_units (ud_reservations db) ?day = 0" using u(4) [of ?day] by (simp add: day_units_def dict_get_or_def)
    then show False using le u(3) assms(2) by fastforce
  qed
  then show du: "day_units ?db day =
      (if day = ?day then (fst (day_units db day) - ur_units row, snd (day_units db day) + charged) else day_units db day)" for day
    using le u(4) [of ?day]
    by (auto simp: settle_reservation_def day_units_def dict_get_or_def map_of_update_daily split: option.splits)
  have "fst (day_units ?db day) = open_units (ud_reservations ?db) day" for day by (simp add: du ou u(4))
  moreover have "map ur_id (ud_reservations ?db) = map ur_id (ud_reservations db)" by (simp add: rows)
  moreover have "dict_wf (ud_daily ?db)" using u(1) by (simp add: settle_reservation_def)
  moreover have "\<forall>r \<in> set (ud_reservations ?db). 0 < ur_units r" using u(3) by (auto simp: rows)
  ultimately show "usage_ok ?db" using u(2) by (simp add: usage_ok_def)
  show "map reservation_key (ud_reservations ?db) = map reservation_key (ud_reservations db)"
    by (simp add: rows reservation_key_def)
qed

lemma find_reservation_Some:
  "find_reservation tenant i rows = Some row \<Longrightarrow> row \<in> set rows \<and> ur_tenant_id row = tenant \<and> ur_id row = i"
  unfolding find_reservation_def by (induction rows) (auto split: if_splits)

lemma settle_Inr:
  assumes "usage_settle e i q c db = (Inr j, db')"
  shows "\<exists>row run. find_reservation (mr_tenant_id q) i (ud_reservations db) = Some row \<and> ur_status row = ''RESERVED'' \<and> j = i \<and>
    db' = settle_reservation row (max 0 (co_actual_units c)) (co_outcome c) db
      \<lparr>ud_calls := ud_calls db @ [call_row i q run (max 0 (co_actual_units c)) c], ud_audit := ud_audit db @ [call_audit i q c]\<rparr>"
proof -
  obtain run where run: "settle_body i q run c db = (Inr j, db')"
    using assms by (auto simp: usage_settle_def pg_run_Inr split: sum.splits)
  obtain row where row: "find_reservation (mr_tenant_id q) i (ud_reservations db) = Some row" "ur_status row = ''RESERVED''"
    using run by (auto simp: settle_body_def split: option.splits if_splits)
  then show ?thesis using run
    by (auto simp: settle_body_def Let_def settle_reservation_def split: if_splits)
qed

lemma settle_ok:
  assumes "usage_settle e i q c db = (Inr j, db')" "usage_ok db"
  shows "usage_ok db'"
    "within_daily limit db \<Longrightarrow> (\<And>row. row \<in> set (ud_reservations db) \<Longrightarrow> ur_id row = i \<Longrightarrow> co_actual_units c \<le> ur_units row) \<Longrightarrow>
      within_daily limit db'"
    "map reservation_key (ud_reservations db') = map reservation_key (ud_reservations db)"
proof -
  let ?charged = "max 0 (co_actual_units c)"
  obtain row run where f: "find_reservation (mr_tenant_id q) i (ud_reservations db) = Some row"
    and st: "ur_status row = ''RESERVED''"
    and db': "db' = settle_reservation row ?charged (co_outcome c) db
      \<lparr>ud_calls := ud_calls db @ [call_row i q run ?charged c], ud_audit := ud_audit db @ [call_audit i q c]\<rparr>"
    using settle_Inr [OF assms(1)] by blast
  have row: "row \<in> set (ud_reservations db)" "ur_id row = i" "ur_status row = ''RESERVED''"
    using find_reservation_Some [OF f] st by simp_all
  have d: "ud_daily db' = ud_daily (settle_reservation row ?charged (co_outcome c) db)"
      "ud_reservations db' = ud_reservations (settle_reservation row ?charged (co_outcome c) db)" by (simp_all add: db')
  note n = settle_reservation_ok [OF assms(2) row(1,3), of ?charged "co_outcome c"]
  have du: "day_units db' = day_units (settle_reservation row ?charged (co_outcome c) db)" by (simp add: day_units_def d fun_eq_iff)
  show "usage_ok db'" using n(1) unfolding usage_ok_def d du .
  show "map reservation_key (ud_reservations db') = map reservation_key (ud_reservations db)" using n(3) by (simp add: d)
  have pos: "0 < ur_units row" using assms(2) row(1) by (simp add: usage_ok_def)
  show "within_daily limit db'" if w: "within_daily limit db"
    and le: "\<And>row. row \<in> set (ud_reservations db) \<Longrightarrow> ur_id row = i \<Longrightarrow> co_actual_units c \<le> ur_units row"
    unfolding within_daily_def
  proof
    fix day
    have "fst (day_units db day) + snd (day_units db day) \<le> limit" using w unfolding within_daily_def by blast
    moreover have "?charged \<le> ur_units row" using le [OF row(1,2)] pos by simp
    ultimately show "fst (day_units db' day) + snd (day_units db' day) \<le> limit" by (auto simp: du n(2))
  qed
qed

section \<open>The accounts\<close>

text \<open>What the reservations of a day say: what their settlements charged, and what they charged above what was reserved.\<close>

definition day_sum :: "(usage_reservation \<Rightarrow> int) \<Rightarrow> usage_reservation list \<Rightarrow> string \<times> int \<Rightarrow> int" where
  "day_sum f rows day = sum_list (map f (filter (\<lambda>r. (ur_tenant_id r, ur_date r) = day) rows))"

definition charged :: "usage_reservation \<Rightarrow> int" where
  "charged r = (case ur_actual r of None \<Rightarrow> 0 | Some a \<Rightarrow> a)"

definition overrun :: "usage_reservation \<Rightarrow> int" where
  "overrun r = (case ur_actual r of None \<Rightarrow> 0 | Some a \<Rightarrow> max 0 (a - ur_units r))"

definition accounts_ok :: "int \<Rightarrow> usage_db \<Rightarrow> bool" where
  "accounts_ok limit db \<longleftrightarrow>
     (\<forall>r \<in> set (ud_reservations db). ur_status r = ''RESERVED'' \<longrightarrow> ur_actual r = None) \<and>
     (\<forall>day. snd (day_units db day) = day_sum charged (ud_reservations db) day \<and>
       fst (day_units db day) + snd (day_units db day) \<le> limit + day_sum overrun (ud_reservations db) day)"

lemma day_sum_Cons: "day_sum f (r # rows) day = (if (ur_tenant_id r, ur_date r) = day then f r else 0) + day_sum f rows day"
  by (simp add: day_sum_def)

lemma day_sum_append: "day_sum f (xs @ ys) day = day_sum f xs day + day_sum f ys day"
  by (simp add: day_sum_def)

lemma day_sum_kept:
  assumes "\<And>r. f (h r) = f r \<and> ur_tenant_id (h r) = ur_tenant_id r \<and> ur_date (h r) = ur_date r"
  shows "day_sum f (map h rows) day = day_sum f rows day"
  using assms by (induction rows) (simp_all add: day_sum_def)

lemma day_sum_changed:
  assumes "distinct rows" "row \<in> set rows" "ur_tenant_id (h row) = ur_tenant_id row" "ur_date (h row) = ur_date row"
  shows "day_sum f (map (\<lambda>r. if r = row then h r else r) rows) day =
    day_sum f rows day + (if day = (ur_tenant_id row, ur_date row) then f (h row) - f row else 0)"
  using assms(1,2)
proof (induction rows)
  case (Cons r rows)
  show ?case
  proof (cases "r = row")
    case True
    then have "map (\<lambda>r. if r = row then h r else r) rows = rows" using Cons.prems(1) by (intro map_idI) auto
    then have "map (\<lambda>r. if r = row then h r else r) (r # rows) = h row # rows" using True by simp
    moreover have "day = (ur_tenant_id row, ur_date row) \<longleftrightarrow> (ur_tenant_id row, ur_date row) = day" by auto
    ultimately show ?thesis using True assms(3,4) by (simp only: day_sum_Cons if_True if_False split: if_split) simp
  next
    case False
    then have "day_sum f (map (\<lambda>r. if r = row then h r else r) rows) day =
        day_sum f rows day + (if day = (ur_tenant_id row, ur_date row) then f (h row) - f row else 0)" using Cons by simp
    moreover have "map (\<lambda>r. if r = row then h r else r) (r # rows) = r # map (\<lambda>r. if r = row then h r else r) rows"
      using False by simp
    ultimately show ?thesis by (simp only: day_sum_Cons add.assoc)
  qed
qed simp

lemma overrun_nonneg: "0 \<le> day_sum overrun rows day"
  by (induction rows) (auto simp: day_sum_def overrun_def split: option.split)

lemma expire_accounts:
  assumes "usage_ok db" "accounts_ok limit db"
  shows "accounts_ok limit (expire_reservations tenant today now db)"
proof -
  let ?db = "expire_reservations tenant today now db"
  have r: "ud_reservations ?db =
      map (\<lambda>r. if stale_reservation tenant today now r then r\<lparr>ur_status := ''RELEASED''\<rparr> else r) (ud_reservations db)"
    by (simp add: expire_reservations_def Let_def)
  have k: "day_sum charged (ud_reservations ?db) day = day_sum charged (ud_reservations db) day"
    "day_sum overrun (ud_reservations ?db) day = day_sum overrun (ud_reservations db) day" for day
    unfolding r by (rule day_sum_kept, simp add: charged_def overrun_def split: option.split)+
  note x = expire_units_ok(2,3) [OF assms(1), of tenant today now]
  show ?thesis unfolding accounts_ok_def
  proof (intro conjI allI ballI impI)
    fix row assume "row \<in> set (ud_reservations ?db)" "ur_status row = ''RESERVED''"
    then show "ur_actual row = None" using assms(2) by (auto simp: r accounts_ok_def split: if_splits)
  next
    fix day
    have a: "snd (day_units db day) = day_sum charged (ud_reservations db) day"
      "fst (day_units db day) + snd (day_units db day) \<le> limit + day_sum overrun (ud_reservations db) day"
      using assms(2) unfolding accounts_ok_def by blast+
    show "snd (day_units ?db day) = day_sum charged (ud_reservations ?db) day" using a(1) by (simp add: x(1) k(1))
    show "fst (day_units ?db day) + snd (day_units ?db day) \<le> limit + day_sum overrun (ud_reservations ?db) day"
      using a(2) x(2) [of day] by (simp add: x(1) k(2))
  qed
qed

lemma reserve_accounts:
  assumes "usage_reserve e today i tenant alias units limit run db = (Inr j, db')" "usage_ok db" "accounts_ok limit db"
  shows "accounts_ok limit db'"
proof -
  let ?db1 = "expire_reservations tenant today (pg_now e) db"
  have u: "0 < units" and b: "reserve_body e today i tenant alias units limit run db = (Inr j, db')"
    using assms(1) by (simp_all add: usage_reserve_def pg_run_Inr split: if_splits)
  have f: "fst (day_units ?db1 (tenant, today)) + snd (day_units ?db1 (tenant, today)) + units \<le> limit"
    "i \<notin> ur_id ` set (ud_reservations ?db1)" "db' = insert_reservation e today i tenant alias units ?db1"
    using b unfolding reserve_body_def Let_def by (auto split: if_splits)
  note x = expire_units_ok(1,4) [OF assms(2), of tenant today "pg_now e"]
  note du = insert_ok(2) [OF x u f(2), of e "alias", folded f(3)]
  have a: "accounts_ok limit ?db1" by (rule expire_accounts [OF assms(2,3)])
  have r: "ud_reservations db' = ud_reservations ?db1 @
      [\<lparr>ur_id = i, ur_tenant_id = tenant, ur_date = today, ur_task_alias = alias, ur_units = units,
        ur_actual = None, ur_status = ''RESERVED'', ur_expires_at = pg_now e + 120\<rparr>]"
    by (simp add: f(3) insert_reservation_def)
  have k: "day_sum charged (ud_reservations db') day = day_sum charged (ud_reservations ?db1) day"
    "day_sum overrun (ud_reservations db') day = day_sum overrun (ud_reservations ?db1) day" for day
    unfolding r day_sum_append by (simp_all add: day_sum_def charged_def overrun_def)
  show ?thesis unfolding accounts_ok_def
  proof (intro conjI allI ballI impI)
    fix row assume "row \<in> set (ud_reservations db')" "ur_status row = ''RESERVED''"
    then show "ur_actual row = None" using a by (auto simp: r accounts_ok_def)
  next
    fix day
    have a': "snd (day_units ?db1 day) = day_sum charged (ud_reservations ?db1) day"
      "fst (day_units ?db1 day) + snd (day_units ?db1 day) \<le> limit + day_sum overrun (ud_reservations ?db1) day"
      using a unfolding accounts_ok_def by blast+
    show "snd (day_units db' day) = day_sum charged (ud_reservations db') day" using a'(1) by (auto simp: du k)
    show "fst (day_units db' day) + snd (day_units db' day) \<le> limit + day_sum overrun (ud_reservations db') day"
      using a'(2) f(1) overrun_nonneg [of "ud_reservations ?db1" day] unfolding k(2) by (auto simp: du)
  qed
qed

lemma settle_accounts:
  assumes "usage_settle e i q c db = (Inr j, db')" "usage_ok db" "accounts_ok limit db"
  shows "accounts_ok limit db'"
proof -
  let ?n = "max 0 (co_actual_units c)"
  let ?h = "\<lambda>r. r\<lparr>ur_actual := Some ?n, ur_status := if co_outcome c = ''SUCCESS'' then ''SETTLED'' else ''RELEASED''\<rparr>"
  obtain row run where f: "find_reservation (mr_tenant_id q) i (ud_reservations db) = Some row" "ur_status row = ''RESERVED''"
    and db': "db' = settle_reservation row ?n (co_outcome c) db
      \<lparr>ud_calls := ud_calls db @ [call_row i q run ?n c], ud_audit := ud_audit db @ [call_audit i q c]\<rparr>"
    using settle_Inr [OF assms(1)] by blast
  have row: "row \<in> set (ud_reservations db)" using find_reservation_Some [OF f(1)] by simp
  have ids: "distinct (map ur_id (ud_reservations db))" using assms(2) by (simp add: usage_ok_def)
  have "(ur_tenant_id r = ur_tenant_id row \<and> ur_id r = ur_id row) = (r = row)" if "r \<in> set (ud_reservations db)" for r
    using ids row that by (auto simp: distinct_map inj_on_def)
  then have r: "ud_reservations db' = map (\<lambda>r. if r = row then ?h r else r) (ud_reservations db)"
    by (simp add: db' settle_reservation_def cong: map_cong)
  have rows: "distinct (ud_reservations db)" using ids by (simp add: distinct_map)
  have none: "ur_actual row = None" using assms(3) row f(2) by (simp add: accounts_ok_def)
  have k: "day_sum charged (ud_reservations db') day =
      day_sum charged (ud_reservations db) day + (if day = (ur_tenant_id row, ur_date row) then ?n else 0)"
    "day_sum overrun (ud_reservations db') day =
      day_sum overrun (ud_reservations db) day + (if day = (ur_tenant_id row, ur_date row) then max 0 (?n - ur_units row) else 0)" for day
    unfolding r using none by (subst day_sum_changed [OF rows row]; simp add: charged_def overrun_def)+
  have du: "day_units db' day = (if day = (ur_tenant_id row, ur_date row)
      then (fst (day_units db day) - ur_units row, snd (day_units db day) + ?n) else day_units db day)" for day
    using settle_reservation_ok(2) [OF assms(2) row f(2), of ?n "co_outcome c" day] by (simp add: db' day_units_def)
  show ?thesis unfolding accounts_ok_def
  proof (intro conjI allI ballI impI)
    fix r' assume "r' \<in> set (ud_reservations db')" "ur_status r' = ''RESERVED''"
    then show "ur_actual r' = None" using assms(3) by (auto simp: r accounts_ok_def split: if_splits)
  next
    fix day
    have a: "snd (day_units db day) = day_sum charged (ud_reservations db) day"
      "fst (day_units db day) + snd (day_units db day) \<le> limit + day_sum overrun (ud_reservations db) day"
      using assms(3) unfolding accounts_ok_def by blast+
    show "snd (day_units db' day) = day_sum charged (ud_reservations db') day" using a(1) by (auto simp: du k(1))
    show "fst (day_units db' day) + snd (day_units db' day) \<le> limit + day_sum overrun (ud_reservations db') day"
      using a(2) by (auto simp: du k(2))
  qed
qed

section \<open>Runs of the operations\<close>

text \<open>
  What the processes of the service do to the tables: reservations under one daily limit,
  settlements of whatever was spent, and runs the orchestrator adds.
\<close>

inductive usage_step :: "int \<Rightarrow> usage_db \<Rightarrow> usage_db \<Rightarrow> bool" for limit where
  reserve: "usage_reserve e today i tenant task units limit run db = (Inr j, db') \<Longrightarrow> usage_step limit db db'"
| settle: "usage_settle e i q c db = (Inr j, db') \<Longrightarrow> usage_step limit db db'"
| runs: "usage_step limit db (db\<lparr>ud_runs := rs\<rparr>)"

lemma usage_step_ok:
  assumes "usage_step limit db db'" "usage_ok db"
  shows "usage_ok db' \<and> (accounts_ok limit db \<longrightarrow> accounts_ok limit db')"
  using assms
proof (cases rule: usage_step.cases)
  case (reserve e today i tenant task units run j)
  then show ?thesis using reserve_ok(1) [OF reserve assms(2)] reserve_accounts [OF reserve assms(2)] by blast
next
  case (settle e i q c j)
  then show ?thesis using settle_ok(1) [OF settle assms(2)] settle_accounts [OF settle assms(2)] by blast
next
  case (runs rs)
  moreover have "day_units (db\<lparr>ud_runs := rs\<rparr>) = day_units db" by (simp add: day_units_def fun_eq_iff)
  ultimately have "usage_ok db' = usage_ok db" "accounts_ok limit db' = accounts_ok limit db"
    by (simp_all add: usage_ok_def accounts_ok_def)
  then show ?thesis using assms(2) by blast
qed

lemma usage_steps_ok:
  assumes "(usage_step limit)\<^sup>*\<^sup>* db db'" "usage_ok db"
  shows "usage_ok db' \<and> (accounts_ok limit db \<longrightarrow> accounts_ok limit db')"
  using assms
proof (induction rule: rtranclp_induct)
  case (step y z)
  from usage_step_ok [OF step.hyps(2)] step.IH step.prems show ?case by blast
qed simp

text \<open>The steps in which no settlement exceeds what was reserved, the only ones a completion request takes.\<close>

inductive priced_step :: "int \<Rightarrow> usage_db \<Rightarrow> usage_db \<Rightarrow> bool" for limit where
  reserve: "usage_reserve e today i tenant task units limit run db = (Inr j, db') \<Longrightarrow> priced_step limit db db'"
| settle: "usage_settle e i q c db = (Inr j, db') \<Longrightarrow>
    (\<And>row. row \<in> set (ud_reservations db) \<Longrightarrow> ur_id row = i \<Longrightarrow> co_actual_units c \<le> ur_units row) \<Longrightarrow> priced_step limit db db'"
| runs: "priced_step limit db (db\<lparr>ud_runs := rs\<rparr>)"

lemma priced_step_ok:
  assumes "priced_step limit db db'" "usage_ok db"
  shows "usage_ok db' \<and> (within_daily limit db \<longrightarrow> within_daily limit db') \<and>
    reservation_key ` set (ud_reservations db) \<subseteq> reservation_key ` set (ud_reservations db')"
  using assms
proof (cases rule: priced_step.cases)
  case (reserve e today i tenant task units run j)
  then show ?thesis using reserve_ok [OF reserve assms(2)] by blast
next
  case (settle e i q c j)
  note k = settle_ok [OF settle(1) assms(2)]
  have "reservation_key ` set (ud_reservations db') = reservation_key ` set (ud_reservations db)"
    using arg_cong [OF k(3), of set] by simp
  then show ?thesis using k(1,2) settle(2) by blast
next
  case (runs rs)
  then show ?thesis using assms(2) by (simp add: usage_ok_def within_daily_def day_units_def)
qed

lemma priced_steps_ok:
  assumes "(priced_step limit)\<^sup>*\<^sup>* db db'" "usage_ok db"
  shows "usage_ok db' \<and> (within_daily limit db \<longrightarrow> within_daily limit db') \<and>
    reservation_key ` set (ud_reservations db) \<subseteq> reservation_key ` set (ud_reservations db')"
  using assms
proof (induction rule: rtranclp_induct)
  case (step y z)
  from priced_step_ok [OF step.hyps(2)] step.IH step.prems show ?case by blast
qed simp

text \<open>A reservation keeps its units, whatever happens.\<close>

lemma reserved_units_stay:
  assumes "(priced_step limit)\<^sup>*\<^sup>* db db'" "usage_ok db" "reservation_key row \<in> reservation_key ` set (ud_reservations db)"
    and "row' \<in> set (ud_reservations db')" "ur_id row' = ur_id row"
  shows "ur_units row' = ur_units row"
proof -
  have s: "usage_ok db'" "reservation_key row \<in> reservation_key ` set (ud_reservations db')"
    using priced_steps_ok [OF assms(1,2)] assms(3) by blast+
  then obtain r where r: "r \<in> set (ud_reservations db')" "reservation_key r = reservation_key row" by auto
  moreover have "inj_on ur_id (set (ud_reservations db'))" using s(1) by (simp add: usage_ok_def distinct_map)
  ultimately have "r = row'" using assms(4,5) by (auto simp: reservation_key_def inj_on_def)
  then show ?thesis using r(2) by (simp add: reservation_key_def)
qed

lemma usage_settle_Inl: "usage_settle e i q c db = (Inl x, db') \<Longrightarrow> db' = db"
  by (auto simp: usage_settle_def split: sum.splits dest: pg_run_Inl)

lemma usage_reserve_Inl: "usage_reserve e today i tenant task units limit run db = (Inl x, db') \<Longrightarrow> db' = db"
  by (auto simp: usage_reserve_def split: if_splits dest: pg_run_Inl)

lemma fail_call_steps:
  assumes "usage_ok db"
  shows "(priced_step limit)\<^sup>*\<^sup>* db (snd (fail_call ce q x db))"
proof -
  let ?c = "\<lparr>co_actual_units = 0, co_provider = ''none'', co_model_id = ''none'', co_latency_ms = ce_latency_ms ce,
      co_outcome = take 128 (exn_msg x), co_redaction_applied = False\<rparr>"
  obtain r db' where s: "usage_settle (ce_fail ce) (ce_reservation_id ce) q ?c db = (r, db')" by fastforce
  have "(priced_step limit)\<^sup>*\<^sup>* db db'"
  proof (cases r)
    case (Inl y)
    then show ?thesis using usage_settle_Inl s by blast
  next
    case (Inr j)
    have "priced_step limit db db'"
      by (rule priced_step.settle [OF s [unfolded Inr]]) (use assms in \<open>auto simp: usage_ok_def less_imp_le\<close>)
    then show ?thesis by blast
  qed
  then show ?thesis using s by (auto simp: fail_call_def split: sum.splits)
qed

lemma run_gateway_cost:
  assumes "run_gateway cf policy_max q w = (Inr response, w')"
  shows "\<exists>n. mr_max_cost_units q = JInt n \<and> mp_cost_units response \<le> n"
proof -
  obtain g s where "gateway_complete g q \<lparr>gs_spent = [], gs_unhealthy = {}, gs_world = w\<rparr> = (Inr response, s)"
    using assms by (auto simp: run_gateway_def split: sum.splits prod.splits)
  from gateway_complete_cost [OF this] show ?thesis by (auto simp: budget_remaining_def dict_get_or_def)
qed

lemma finish_call_steps:
  assumes "usage_ok db"
    and "\<And>response row. r = Inr response \<Longrightarrow> row \<in> set (ud_reservations db) \<Longrightarrow> ur_id row = ce_reservation_id ce \<Longrightarrow>
      mp_cost_units response \<le> ur_units row"
  shows "(priced_step limit)\<^sup>*\<^sup>* db (snd (finish_call ce q r db))"
proof (cases r)
  case (Inl x)
  then show ?thesis using fail_call_steps [OF assms(1)] by (simp add: finish_call_def)
next
  case (Inr response)
  obtain t db' where s: "usage_settle (ce_settle ce) (ce_reservation_id ce) q (success_outcome ce response) db = (t, db')" by fastforce
  show ?thesis
  proof (cases t)
    case (Inl y)
    then have "db' = db" using usage_settle_Inl s by blast
    then show ?thesis using s Inr Inl fail_call_steps [OF assms(1)] by (simp add: finish_call_def)
  next
    case t: (Inr j)
    have "priced_step limit db db'"
      by (rule priced_step.settle [OF s [unfolded t]]) (use assms(2) [OF Inr] in \<open>simp add: success_outcome_def\<close>)
    then show ?thesis using s Inr t by (simp add: finish_call_def r_into_rtranclp)
  qed
qed

section \<open>Properties\<close>

text \<open>
  C14: the daily limit of a tenant over any sequence of reservations, settlements and expiries. What is reserved for a day is
  what its open reservations hold and what is spent is what its settlements charged; together they stay within the limit,
  and exceed it by no more than what settlements of that day charged above their own reservation.
\<close>

theorem daily_budget_holds:
  assumes "0 \<le> limit"
    and "(usage_step limit)\<^sup>*\<^sup>* \<lparr>ud_daily = [], ud_reservations = [], ud_calls = [], ud_audit = [], ud_runs = rs\<rparr> db"
  shows "fst (day_units db (tenant, date)) = open_units (ud_reservations db) (tenant, date) \<and>
    snd (day_units db (tenant, date)) = day_sum charged (ud_reservations db) (tenant, date) \<and>
    fst (day_units db (tenant, date)) + snd (day_units db (tenant, date)) \<le> limit + day_sum overrun (ud_reservations db) (tenant, date)"
proof -
  let ?db0 = "\<lparr>ud_daily = [], ud_reservations = [], ud_calls = [], ud_audit = [], ud_runs = rs\<rparr>"
  have "usage_ok ?db0" "accounts_ok limit ?db0"
    using assms(1) by (simp_all add: usage_ok_def accounts_ok_def day_sum_def day_units_def dict_get_or_def)
  then have "usage_ok db" "accounts_ok limit db" using usage_steps_ok [OF assms(2)] by blast+
  then show ?thesis unfolding usage_ok_def accounts_ok_def by blast
qed

theorem daily_budget_holds_witness:
  "\<exists>db. (usage_step 100)\<^sup>*\<^sup>* \<lparr>ud_daily = [], ud_reservations = [], ud_calls = [], ud_audit = [], ud_runs = []\<rparr> db \<and>
    day_units db (''t'', 1) = (60, 0) \<and>
    fst (day_units db (''t'', 1)) + snd (day_units db (''t'', 1)) \<le> 100 + day_sum overrun (ud_reservations db) (''t'', 1)"
proof -
  let ?db0 = "\<lparr>ud_daily = [], ud_reservations = [], ud_calls = [], ud_audit = [], ud_runs = []\<rparr>"
  obtain db where r: "usage_reserve \<lparr>pg_now = 0, pg_fault = None\<rparr> 1 ''r'' ''t'' ''draft'' 60 100 None ?db0 = (Inr ''r'', db)"
    and u: "day_units db (''t'', 1) = (60, 0)"
    by (simp add: usage_reserve_def pg_run_def reserve_body_def given_def expire_reservations_def has_key_def update_daily_def
        release_units_def day_units_def dict_get_or_def insert_reservation_def Let_def)
  have s: "(usage_step 100)\<^sup>*\<^sup>* ?db0 db" using usage_step.reserve [OF r] by blast
  show ?thesis using daily_budget_holds [OF _ s, of "''t''" 1] s u by auto
qed

text \<open>
  A completion request moves the tables by priced steps only, also when the provider, a
  settlement or the database fails and whatever other requests do meanwhile: what it settles
  never exceeds what it reserved, so it keeps the daily limit.
\<close>

theorem completion_keeps_daily_budget:
  assumes "durable_completion cf ce meanwhile body db w = (reply, db', w')"
    and "env_int (cf_environ cf) ''ATLANTIS_MODEL_DAILY_BUDGET_UNITS'' ''100000'' = Inr limit"
    and "usage_ok db" "\<And>d. (priced_step limit)\<^sup>*\<^sup>* d (meanwhile d)"
  shows "(priced_step limit)\<^sup>*\<^sup>* db db' \<and> usage_ok db' \<and> (within_daily limit db \<longrightarrow> within_daily limit db')"
proof -
  have "(priced_step limit)\<^sup>*\<^sup>* db db'"
  proof (cases "prepare_call (cf_environ cf) body")
    case (Inl x)
    then show ?thesis using assms(1) by (simp add: durable_completion_def)
  next
    case (Inr qp)
    obtain q policy_max where qp: "qp = (q, policy_max)" by fastforce
    obtain r1 db1 where res: "reserve_call (cf_environ cf) ce q db = (r1, db1)" by fastforce
    show ?thesis
    proof (cases r1)
      case (Inl x)
      then have "db1 = db" using res by (auto simp: reserve_call_def split: sum.splits dest: usage_reserve_Inl)
      then show ?thesis using assms(1) Inr qp res Inl by (simp add: durable_completion_def)
    next
      case r1: (Inr j)
      obtain n where n: "mr_max_cost_units q = JInt n"
        and rv: "usage_reserve (ce_reserve ce) (ce_today ce) (ce_reservation_id ce) (mr_tenant_id q) (mr_task_alias q) n limit
          (mr_run_id q) db = (Inr j, db1)"
        using res r1 assms(2) by (auto simp: reserve_call_def reserve_units_def split: json.splits)
      note k = reserve_ok [OF rv assms(3)]
      obtain row where row: "row \<in> set (ud_reservations db1)" "reservation_key row = (ce_reservation_id ce, mr_tenant_id q, n)"
        using k(4) by blast
      obtain r w1 where g: "run_gateway cf policy_max q w = (r, w1)" by fastforce
      have db': "db' = snd (finish_call ce q r (meanwhile db1))"
        using assms(1) Inr qp res r1 g by (auto simp: durable_completion_def split: prod.splits)
      have "(priced_step limit)\<^sup>*\<^sup>* (meanwhile db1) (snd (finish_call ce q r (meanwhile db1)))"
      proof (rule finish_call_steps)
        show "usage_ok (meanwhile db1)" using priced_steps_ok [OF assms(4) k(1)] by blast
        fix response row'
        assume "r = Inr response" "row' \<in> set (ud_reservations (meanwhile db1))" "ur_id row' = ce_reservation_id ce"
        moreover from this have "ur_units row' = n"
          using reserved_units_stay [OF assms(4) k(1), of row row'] row by (simp add: reservation_key_def)
        moreover have "mp_cost_units response \<le> n" using run_gateway_cost g n calculation(1) by fastforce
        ultimately show "mp_cost_units response \<le> ur_units row'" by simp
      qed
      moreover have "priced_step limit db db1" using rv by (rule priced_step.reserve)
      ultimately show ?thesis using assms(4) [of db1] db'
        by (meson converse_rtranclp_into_rtranclp rtranclp_trans)
    qed
  qed
  with priced_steps_ok [OF this assms(3)] show ?thesis by blast
qed

theorem completion_keeps_daily_budget_witness:
  "\<exists>db'. durable_completion \<lparr>cf_urlparse = \<lambda>_. None, cf_read_text = \<lambda>_. Inr [], cf_float_int = \<lambda>_. Inr 0,
        cf_urlopen = \<lambda>q w. (Inr JNull, w), cf_environ = \<lambda>_. None\<rparr>
      \<lparr>ce_reserve = \<lparr>pg_now = 0, pg_fault = None\<rparr>, ce_today = 1, ce_settle = \<lparr>pg_now = 1, pg_fault = None\<rparr>,
        ce_fail = \<lparr>pg_now = 1, pg_fault = None\<rparr>, ce_latency_ms = 5, ce_reservation_id = ''r''\<rparr> (\<lambda>d. d)
      [(''tenant_id'', JStr ''t''), (''task_alias'', JStr ''draft''), (''prompt'', JStr ''Hello'')]
      \<lparr>ud_daily = [], ud_reservations = [], ud_calls = [], ud_audit = [], ud_runs = []\<rparr> () =
        (Inr (503, error_body ''NO_APPROVED_PROVIDER:''), db', ()) \<and> within_daily 100000 db'"
proof -
  let ?cf = "\<lparr>cf_urlparse = \<lambda>_. None, cf_read_text = \<lambda>_. Inr [], cf_float_int = \<lambda>_. Inr 0,
        cf_urlopen = \<lambda>q w. (Inr JNull, w), cf_environ = \<lambda>_. None\<rparr> :: unit model_config"
  let ?ce = "\<lparr>ce_reserve = \<lparr>pg_now = 0, pg_fault = None\<rparr>, ce_today = 1, ce_settle = \<lparr>pg_now = 1, pg_fault = None\<rparr>,
        ce_fail = \<lparr>pg_now = 1, pg_fault = None\<rparr>, ce_latency_ms = 5, ce_reservation_id = ''r''\<rparr>"
  let ?body = "[(''tenant_id'', JStr ''t''), (''task_alias'', JStr ''draft''), (''prompt'', JStr ''Hello'')]"
  let ?db0 = "\<lparr>ud_daily = [], ud_reservations = [], ud_calls = [], ud_audit = [], ud_runs = []\<rparr>"
  have "digit_char 4 = CHR ''4''" "digit_char 1 = CHR ''1''" "digit_char 0 = CHR ''0''" by code_simp+
  then have "int_dec 4000 = ''4000''" "int_dec 100000 = ''100000''" by (simp_all add: int_dec_def nat_dec.simps)
  then have i: "py_int ''4000'' = Some 4000" "py_int ''100000'' = Some 100000" using py_int_dec by metis+
  have p: "prepare_call (cf_environ ?cf) ?body = Inr (example_completion, 4000)"
    by (simp add: prepare_call_def model_request_of_def request_field_names_def text_field_def schema_field_def
        optional_field_def request_post_init_def uuid_field_ok_def env_int_def getenv_def i example_completion_def dict_get_or_def)
  obtain db1 where r: "reserve_call (cf_environ ?cf) ?ce example_completion ?db0 = (Inr ''r'', db1)"
    and f: "find_reservation ''t'' ''r'' (ud_reservations db1) = Some \<lparr>ur_id = ''r'', ur_tenant_id = ''t'', ur_date = 1,
      ur_task_alias = ''draft'', ur_units = 100, ur_actual = None, ur_status = ''RESERVED'', ur_expires_at = 120\<rparr>"
    and c: "ud_calls db1 = []"
    by (simp add: reserve_call_def env_int_def getenv_def i reserve_units_def example_completion_def usage_reserve_def pg_run_def
        reserve_body_def given_def expire_reservations_def has_key_def update_daily_def release_units_def day_units_def
        dict_get_or_def insert_reservation_def Let_def find_reservation_def)
  have g: "run_gateway ?cf 4000 example_completion () = (raise ProviderError ''NO_APPROVED_PROVIDER:'', ())"
    by (simp add: run_gateway_def configured_providers_def openrouter_provider_def configured_secret_def getenv_def
        openrouter_init_def optional_provider_def compatible_provider_def openai_init_def gateway_init_def gateway_complete_def
        redact_hello example_fields cost_limit_def protocol_overhead_units_def minimum_output_units_def map_filter_def)
  obtain db2 where fc: "finish_call ?ce example_completion (raise ProviderError ''NO_APPROVED_PROVIDER:'') db1 =
      (Inr (503, error_body ''NO_APPROVED_PROVIDER:''), db2)"
    by (simp add: finish_call_def fail_call_def handled_def usage_settle_def settled_run_def
        example_completion_def pg_run_def settle_body_def Let_def f c refusal_def)
  have d: "durable_completion ?cf ?ce (\<lambda>d. d) ?body ?db0 () = (Inr (503, error_body ''NO_APPROVED_PROVIDER:''), db2, ())"
    by (simp add: durable_completion_def p [simplified] r [simplified] g [simplified] fc [simplified])
  have e: "env_int (cf_environ ?cf) ''ATLANTIS_MODEL_DAILY_BUDGET_UNITS'' ''100000'' = Inr 100000"
    by (simp add: env_int_def getenv_def i)
  have "usage_ok ?db0" "within_daily 100000 ?db0" by (simp_all add: usage_ok_def within_daily_def day_units_def dict_get_or_def)
  with completion_keeps_daily_budget [OF d e] d show ?thesis by blast
qed

text \<open>
  A call that outlives its reservation of two minutes is not charged: once another request has
  released it, its settlement is refused and the tables keep no trace of what it spent.
\<close>

theorem late_call_not_charged:
  "let db0 = \<lparr>ud_daily = [], ud_reservations = [], ud_calls = [], ud_audit = [], ud_runs = []\<rparr>;
       env = (\<lambda>t. \<lparr>pg_now = t, pg_fault = None\<rparr>);
       db1 = snd (usage_reserve (env 0) 1 ''a'' ''t'' ''draft'' 100 1000 None db0);
       db2 = snd (usage_reserve (env 120) 1 ''b'' ''t'' ''draft'' 100 1000 None db1);
       spent = \<lparr>co_actual_units = 90, co_provider = ''kimi'', co_model_id = ''m'', co_latency_ms = 121000,
                co_outcome = ''SUCCESS'', co_redaction_applied = False\<rparr>
   in usage_settle (env 121) ''a'' example_completion spent db2 =
        (raise ModelBudgetError ''MODEL_BUDGET_RESERVATION_INVALID'', db2) \<and>
      day_units db2 (''t'', 1) = (100, 0) \<and> ud_calls db2 = []"
proof -
  let ?db0 = "\<lparr>ud_daily = [], ud_reservations = [], ud_calls = [], ud_audit = [], ud_runs = []\<rparr>"
  let ?row = "\<lambda>i st t. \<lparr>ur_id = i, ur_tenant_id = ''t'', ur_date = 1, ur_task_alias = ''draft'', ur_units = 100,
    ur_actual = None, ur_status = st, ur_expires_at = t\<rparr>"
  let ?db1 = "?db0\<lparr>ud_daily := [((''t'', 1), (100, 0))], ud_reservations := [?row ''a'' ''RESERVED'' 120]\<rparr>"
  let ?db2 = "?db1\<lparr>ud_reservations := [?row ''a'' ''RELEASED'' 120, ?row ''b'' ''RESERVED'' 240]\<rparr>"
  note reserve_defs = usage_reserve_def pg_run_def reserve_body_def given_def expire_reservations_def has_key_def
    update_daily_def release_units_def day_units_def dict_get_or_def insert_reservation_def stale_reservation_def
  have 1: "snd (usage_reserve \<lparr>pg_now = 0, pg_fault = None\<rparr> 1 ''a'' ''t'' ''draft'' 100 1000 None ?db0) = ?db1"
    by (simp add: reserve_defs)
  have 2: "snd (usage_reserve \<lparr>pg_now = 120, pg_fault = None\<rparr> 1 ''b'' ''t'' ''draft'' 100 1000 None ?db1) = ?db2"
    by (simp add: reserve_defs)
  show ?thesis unfolding Let_def 1 2
    by (simp add: usage_settle_def settled_run_def example_completion_def settle_body_def find_reservation_def pg_run_def
        day_units_def dict_get_or_def)
qed

end
