(* ===== verification/Providers.thy ===== *)
theory Providers
  imports Client
begin

text \<open>
  services/channel\_adapters/app/base.py, the transports of voice.py and whatsapp.py, and
  marketia.py: the calls to the providers. A transport posts to one host, fixed when the process
  starts. The connection is a parameter that works on the state \<open>'w\<close> of the world outside; an answer
  that is a redirect is a RuntimeError of it.
\<close>

section \<open>Encodings\<close>

text \<open>\<open>json.dumps(value)\<close>: the keys in the order they were inserted.\<close>

fun json_dumps :: "json \<Rightarrow> string" where
  "json_dumps JNull = ''null''"
| "json_dumps (JBool b) = (if b then ''true'' else ''false'')"
| "json_dumps (JInt i) = int_dec i"
| "json_dumps (JFloat s) = s"
| "json_dumps (JStr s) = ascii_quote s"
| "json_dumps (JList vs) = ''['' @ py_join '', '' (map json_dumps vs) @ '']''"
| "json_dumps (JObj kvs) = ''{'' @ py_join '', '' (map (\<lambda>(k, v). ascii_quote k @ '': '' @ json_dumps v) kvs) @ ''}''"

text \<open>\<open>urlencode(body)\<close>: the text of every value, a space as a plus sign. \<open>repr\<close> is that of containers.\<close>

definition quote_plus :: "string \<Rightarrow> string" where
  "quote_plus s = concat (map (\<lambda>c. if c = CHR '' '' then ''+'' else url_quote [c]) s)"

definition urlencode :: "(json \<Rightarrow> string) \<Rightarrow> (string \<times> json) list \<Rightarrow> string" where
  "urlencode repr body = py_join ''&'' (map (\<lambda>(k, v). quote_plus k @ ''='' @ quote_plus (py_str repr v)) body)"

text \<open>\<open>bytes.decode()\<close> accepts well-formed UTF-8: no overlong form, no surrogate, nothing above U+10FFFF.\<close>

definition utf8_tail_ok :: "nat \<Rightarrow> nat \<Rightarrow> bool" where
  "utf8_tail_ok lead n \<longleftrightarrow> n div 64 = 2 \<and> (lead = 224 \<longrightarrow> 160 \<le> n) \<and> (lead = 237 \<longrightarrow> n < 160) \<and>
     (lead = 240 \<longrightarrow> 144 \<le> n) \<and> (lead = 244 \<longrightarrow> n < 144)"

function utf8_ok :: "bytes \<Rightarrow> bool" where
  "utf8_ok [] = True"
| "utf8_ok (c # cs) =
     (let k = utf8_length (code c); tail = map code (take k cs) in
      (code c < 128 \<or> 194 \<le> code c \<and> code c < 245) \<and> length tail = k \<and> list_all (\<lambda>n. n div 64 = 2) tail \<and>
      (k = 0 \<or> utf8_tail_ok (code c) (hd tail)) \<and> utf8_ok (drop k cs))"
  by pat_completeness auto

termination
  by (relation "measure length") auto

section \<open>base.py: posts to allow-listed hosts\<close>

record 'w network =
  nw_urlparse :: "string \<Rightarrow> parsed_url option"
  nw_open :: "service_request \<Rightarrow> 'w \<Rightarrow> bytes res \<times> 'w"
  nw_repr :: "json \<Rightarrow> string"

text \<open>\<open>HttpTransport\<close> is its set of hosts; \<open>None\<close> is the host of an address without one.\<close>

type_synonym allowed_hosts = "string option set"

definition validate_url :: "'w network \<Rightarrow> allowed_hosts \<Rightarrow> string \<Rightarrow> unit res" where
  "validate_url net hosts url =
     (case nw_urlparse net url of
        None \<Rightarrow> raise ValueError ''URL''
      | Some u \<Rightarrow>
          if pu_scheme u \<noteq> ''https'' \<or> pu_hostname u \<notin> hosts \<or> given (pu_username u) \<or> given (pu_password u)
          then raise RuntimeError ''PROVIDER_URL_NOT_ALLOWLISTED'' else Inr ())"

definition provider_request :: "string \<Rightarrow> string \<Rightarrow> bytes \<Rightarrow> (string, string) dict \<Rightarrow> service_request" where
  "provider_request content_type url payload headers =
     \<lparr>sq_url = url, sq_body = payload, sq_headers = fold (\<lambda>(k, v). dict_set k v) headers [(''Content-Type'', content_type)]\<rparr>"

definition post_json ::
  "'w network \<Rightarrow> allowed_hosts \<Rightarrow> string \<Rightarrow> (string \<times> json) list \<Rightarrow> (string, string) dict \<Rightarrow> 'w \<Rightarrow> json res \<times> 'w" where
  "post_json net hosts url body headers w =
     (case validate_url net hosts url of
        Inl x \<Rightarrow> (Inl x, w)
      | Inr _ \<Rightarrow>
          (case nw_open net (provider_request ''application/json'' url (json_dumps (JObj body)) headers) w of
             (r, w') \<Rightarrow>
               (case rbind r (\<lambda>raw. of_option (Exn ValueError ''JSON_DECODE_ERROR'') (json_loads raw)) of
                  Inr j \<Rightarrow> (Inr j, w')
                | Inl x \<Rightarrow>
                    (if exn_cls x = URLError \<or> is_value_error x then raise RuntimeError ''PROVIDER_TRANSPORT_FAILURE'' else Inl x, w'))))"

definition post_form ::
  "'w network \<Rightarrow> allowed_hosts \<Rightarrow> string \<Rightarrow> (string \<times> json) list \<Rightarrow> (string, string) dict \<Rightarrow> 'w \<Rightarrow> json res \<times> 'w" where
  "post_form net hosts url body headers w =
     (case validate_url net hosts url of
        Inl x \<Rightarrow> (Inl x, w)
      | Inr _ \<Rightarrow>
          (case nw_open net (provider_request ''application/x-www-form-urlencoded'' url (urlencode (nw_repr net) body) headers) w of
             (Inl x, w') \<Rightarrow> (if exn_cls x = URLError then raise RuntimeError ''PROVIDER_TRANSPORT_FAILURE'' else Inl x, w')
           | (Inr raw, w') \<Rightarrow>
               (if \<not> utf8_ok raw then raise ValueError ''UNICODE_DECODE_ERROR''
                else Inr (case json_loads raw of Some j \<Rightarrow> j | None \<Rightarrow> JObj [(''raw'', JStr raw)]), w')))"

section \<open>The transports\<close>

definition accepted_by :: "string \<Rightarrow> json res \<times> 'w \<Rightarrow> json res \<times> 'w" where
  "accepted_by provider rw =
     (case rw of
        (Inl x, w) \<Rightarrow> (Inl x, w)
      | (Inr result, w) \<Rightarrow>
          (Inr (JObj [(''status'', JStr ''ACCEPTED''), (''provider'', JStr provider), (''provider_response'', result)]), w))"

definition bearer :: "string \<Rightarrow> string \<times> string" where
  "bearer token = (''Authorization'', ''Bearer '' @ token)"

record vicidial_transport =
  vi_hosts :: allowed_hosts
  vi_api_url :: string
  vi_user :: string
  vi_password :: string
  vi_source :: string

definition vicidial_init :: "allowed_hosts \<Rightarrow> string \<Rightarrow> string \<Rightarrow> string \<Rightarrow> vicidial_transport res" where
  "vicidial_init hosts api_url user password =
     (if api_url = [] \<or> user = [] \<or> password = [] then raise RuntimeError ''VICIDIAL_NOT_CONFIGURED''
      else Inr \<lparr>vi_hosts = hosts, vi_api_url = api_url, vi_user = user, vi_password = password, vi_source = ''atlantis''\<rparr>)"

definition vicidial_originate ::
  "'w network \<Rightarrow> vicidial_transport \<Rightarrow> (string \<times> json) list \<Rightarrow> string \<Rightarrow> 'w \<Rightarrow> json res \<times> 'w" where
  "vicidial_originate net t command token w =
     (case body_item command ''recipient_e164'' of
        Inl x \<Rightarrow> (Inl x, w)
      | Inr recipient \<Rightarrow>
          accepted_by ''vicidial'' (post_form net (vi_hosts t) (vi_api_url t)
            [(''source'', JStr (vi_source t)), (''user'', JStr (vi_user t)), (''pass'', JStr (vi_password t)),
             (''function'', JStr ''external_dial''), (''value'', recipient),
             (''phone_code'', dict_get_or (JStr ''52'') command ''phone_code''), (''search'', JStr ''YES''),
             (''preview'', JStr ''NO''), (''focus'', JStr ''YES''), (''atlantis_authorization'', JStr token)] [] w))"

record neobot_transport =
  nb_hosts :: allowed_hosts
  nb_endpoint :: string
  nb_api_token :: string

definition neobot_init :: "allowed_hosts \<Rightarrow> string \<Rightarrow> string \<Rightarrow> neobot_transport res" where
  "neobot_init hosts endpoint api_token =
     (if endpoint = [] \<or> api_token = [] then raise RuntimeError ''NEOBOT_NOT_CONFIGURED''
      else Inr \<lparr>nb_hosts = hosts, nb_endpoint = endpoint, nb_api_token = api_token\<rparr>)"

definition neobot_originate ::
  "'w network \<Rightarrow> neobot_transport \<Rightarrow> (string \<times> json) list \<Rightarrow> string \<Rightarrow> 'w \<Rightarrow> json res \<times> 'w" where
  "neobot_originate net t command token w =
     accepted_by ''atlantis-neobot'' (post_json net (nb_hosts t) (nb_endpoint t)
       (dict_set ''outbound_authorization'' (JStr token) command) [bearer (nb_api_token t)] w)"

record meta_transport =
  mt_hosts :: allowed_hosts
  mt_url :: string
  mt_access_token :: string

definition meta_init :: "allowed_hosts \<Rightarrow> string \<Rightarrow> string \<Rightarrow> string \<Rightarrow> string \<Rightarrow> meta_transport res" where
  "meta_init hosts graph_base_url graph_version phone_number_id access_token =
     (if graph_version = [] \<or> graph_version = ''UNSET'' \<or> phone_number_id = [] \<or> access_token = []
      then raise RuntimeError ''META_CLOUD_API_NOT_CONFIGURED''
      else Inr \<lparr>mt_hosts = hosts,
        mt_url = rstrip_slash graph_base_url @ ''/'' @ graph_version @ ''/'' @ phone_number_id @ ''/messages'',
        mt_access_token = access_token\<rparr>)"

definition meta_message :: "(string \<times> json) list \<Rightarrow> (string \<times> json) list res" where
  "meta_message command =
     rbind (body_item command ''recipient_e164'') (\<lambda>recipient.
       (case map_of command ''template'' of
          Some template \<Rightarrow>
            Inr [(''messaging_product'', JStr ''whatsapp''), (''to'', recipient), (''type'', JStr ''template''), (''template'', template)]
        | None \<Rightarrow>
            rbind (body_item command ''text'') (\<lambda>txt.
              Inr [(''messaging_product'', JStr ''whatsapp''), (''to'', recipient), (''type'', JStr ''text''),
                (''text'', JObj [(''body'', txt), (''preview_url'', JBool False)])])))"

definition meta_send ::
  "'w network \<Rightarrow> meta_transport \<Rightarrow> (string \<times> json) list \<Rightarrow> string \<Rightarrow> 'w \<Rightarrow> json res \<times> 'w" where
  "meta_send net t command token w =
     (case meta_message command of
        Inl x \<Rightarrow> (Inl x, w)
      | Inr message \<Rightarrow>
          accepted_by ''meta-cloud'' (post_json net (mt_hosts t) (mt_url t) message
            [bearer (mt_access_token t), (''X-Atlantis-Authorization-Id'', take 32 (before (CHR ''.'') token))] w))"

section \<open>marketia.py\<close>

definition protected_fields :: "string set" where
  "protected_fields = {''consent'', ''consent_active'', ''suppression'', ''suppressed'', ''contactable'',
     ''policy_decision'', ''repep_status'', ''campaign_approved'', ''outbound_authorization''}"

definition allowed_fields :: "string set" where
  "allowed_fields = {''marketia_ref'', ''utm_source'', ''utm_campaign'', ''attribution'', ''creative_ref'', ''engagement_score''}"

text \<open>The characters of a text: a byte with the continuation bytes after it.\<close>

fun utf8_chars :: "string \<Rightarrow> string list" where
  "utf8_chars [] = []"
| "utf8_chars (c # cs) =
     (case utf8_chars cs of
        [] \<Rightarrow> [[c]]
      | x # xs \<Rightarrow> if code (hd x) div 64 = 2 then (c # x) # xs else [c] # x # xs)"

text \<open>
  What a payload iterates over, as \<open>intersection\<close> and \<open>set\<close> do it; an element that cannot be hashed is a TypeError.
  \<open>sorted\<close> and \<open>join\<close> of unknown elements that are not all texts are one, too.
\<close>

definition hashable :: "json \<Rightarrow> bool" where
  "hashable j = (case j of JList _ \<Rightarrow> False | JObj _ \<Rightarrow> False | _ \<Rightarrow> True)"

definition payload_elements :: "json \<Rightarrow> json list res" where
  "payload_elements payload =
     (case payload of
        JObj kvs \<Rightarrow> Inr (map (\<lambda>(k, v). JStr k) kvs)
      | JStr s \<Rightarrow> Inr (map JStr (utf8_chars s))
      | JList vs \<Rightarrow> if list_all hashable vs then Inr vs else raise TypeError ''unhashable type''
      | _ \<Rightarrow> raise TypeError ''not iterable'')"

definition text_of :: "json \<Rightarrow> string option" where
  "text_of j = (case j of JStr s \<Rightarrow> Some s | _ \<Rightarrow> None)"

text \<open>\<open>dict(payload)\<close> of elements that are all allowed: an object, or nothing at all.\<close>

definition payload_dict :: "json \<Rightarrow> (string \<times> json) list res" where
  "payload_dict payload =
     (case payload of
        JObj kvs \<Rightarrow> Inr kvs
      | _ \<Rightarrow> if payload_elements payload = Inr [] then Inr [] else raise ValueError ''dictionary update sequence'')"

definition marketia_ingest :: "json \<Rightarrow> json \<Rightarrow> (string \<times> json) list res" where
  "marketia_ingest payload contract_version =
     (if contract_version \<noteq> JStr ''marketia@1'' then raise ValueError ''UNSUPPORTED_MARKETIA_CONTRACT''
      else rbind (payload_elements payload) (\<lambda>elements.
        if list_ex (\<lambda>j. j \<in> JStr ` protected_fields) elements
        then raise PermissionError ''MARKETIA_CANNOT_OVERRIDE_COMPLIANCE''
        else
          (let unknown = filter (\<lambda>j. j \<notin> JStr ` allowed_fields) elements in
           if unknown = [] then payload_dict payload
           else if list_ex (\<lambda>j. text_of j = None) unknown then raise TypeError ''UNKNOWN_MARKETIA_FIELDS''
           else raise ValueError (''UNKNOWN_MARKETIA_FIELDS:'' @ py_join '','' (sort (remdups (map (the \<circ> text_of) unknown)))))))"

record marketia_transport =
  mk_hosts :: allowed_hosts
  mk_base_url :: string
  mk_api_token :: string

definition marketia_init :: "allowed_hosts \<Rightarrow> string \<Rightarrow> string \<Rightarrow> marketia_transport res" where
  "marketia_init hosts base_url api_token =
     (if base_url = [] \<or> api_token = [] then raise RuntimeError ''MARKETIA_NOT_CONFIGURED''
      else Inr \<lparr>mk_hosts = hosts, mk_base_url = rstrip_slash base_url, mk_api_token = api_token\<rparr>)"

definition marketia_push ::
  "'w network \<Rightarrow> marketia_transport \<Rightarrow> json \<Rightarrow> json \<Rightarrow> json \<Rightarrow> json \<Rightarrow> 'w \<Rightarrow> json res \<times> 'w" where
  "marketia_push net t entity_type entity_id version payload w =
     (case marketia_ingest payload (JStr ''marketia@1'') of
        Inl x \<Rightarrow> (Inl x, w)
      | Inr clean \<Rightarrow>
          post_json net (mk_hosts t)
            (mk_base_url t @ ''/v1/sync/'' @ py_str (nw_repr net) entity_type @ ''/'' @ py_str (nw_repr net) entity_id)
            [(''version'', version), (''payload'', JObj clean)] [bearer (mk_api_token t)] w)"

section \<open>Properties\<close>

text \<open>A post that reaches the network goes by TLS to a host of the transport, without credentials in the address.\<close>

definition url_pinned :: "'w network \<Rightarrow> allowed_hosts \<Rightarrow> string \<Rightarrow> bool" where
  "url_pinned net hosts url \<longleftrightarrow>
     (\<exists>u. nw_urlparse net url = Some u \<and> pu_scheme u = ''https'' \<and> pu_hostname u \<in> hosts \<and>
       \<not> given (pu_username u) \<and> \<not> given (pu_password u))"

lemma validate_url_Inr: "validate_url net hosts url = Inr () \<longleftrightarrow> url_pinned net hosts url"
  by (auto simp: validate_url_def url_pinned_def split: option.splits)

lemma post_pinned:
  "snd (post_json net hosts url body headers w) \<noteq> w \<Longrightarrow> url_pinned net hosts url"
  "snd (post_form net hosts url body headers w) \<noteq> w \<Longrightarrow> url_pinned net hosts url"
  by (auto simp: post_json_def post_form_def validate_url_Inr [symmetric] split: sum.splits)

lemma accepted_by_world [simp]: "snd (accepted_by provider rw) = snd rw"
  by (auto simp: accepted_by_def split: prod.splits sum.splits)

lemma accepted_by_Inr:
  "accepted_by provider rw = (Inr j, w) \<longleftrightarrow>
     (\<exists>result. rw = (Inr result, w) \<and>
       j = JObj [(''status'', JStr ''ACCEPTED''), (''provider'', JStr provider), (''provider_response'', result)])"
  by (auto simp: accepted_by_def split: prod.splits sum.splits)

lemma marketia_ingest_Inr:
  "marketia_ingest payload version = Inr clean \<longleftrightarrow>
    version = JStr ''marketia@1'' \<and> fst ` set clean \<subseteq> allowed_fields \<and>
    (payload = JObj clean \<or> clean = [] \<and> payload \<in> {JList [], JStr []})"
proof -
  have d: "allowed_fields \<inter> protected_fields = {}" by (simp add: allowed_fields_def protected_fields_def)
  have c: "utf8_chars s = [] \<longleftrightarrow> s = []" for s
    by (cases s) (auto split: list.split)
  show ?thesis
  proof (cases payload)
    case (JObj kvs)
    have "filter (\<lambda>j. j \<notin> JStr ` allowed_fields) (map (\<lambda>(k, v). JStr k) kvs) = [] \<longleftrightarrow> fst ` set kvs \<subseteq> allowed_fields"
      by (auto simp: filter_empty_conv)
    moreover have "fst ` set kvs \<subseteq> allowed_fields \<Longrightarrow> \<not> list_ex (\<lambda>j. j \<in> JStr ` protected_fields) (map (\<lambda>(k, v). JStr k) kvs)"
      using d by (fastforce simp: list_ex_iff)
    ultimately show ?thesis
      using JObj by (auto simp: marketia_ingest_def payload_elements_def payload_dict_def Let_def simp del: filter.simps)
  qed (auto simp: marketia_ingest_def payload_elements_def payload_dict_def Let_def c split: if_splits)
qed

text \<open>What Marketia sends never names a field of compliance, and what it may send passes unchanged, also twice.\<close>

lemma marketia_ingest_again:
  "marketia_ingest payload version = Inr clean \<Longrightarrow> marketia_ingest (JObj clean) version = Inr clean"
  unfolding marketia_ingest_Inr by blast

lemma marketia_fields_clean:
  "marketia_ingest payload version = Inr clean \<Longrightarrow> fst ` set clean \<inter> protected_fields = {}"
  unfolding marketia_ingest_Inr by (auto simp: allowed_fields_def protected_fields_def)

end
