(* ===== verification/Webhook.thy ===== *)
theory Webhook
  imports PgStores Security
begin

text \<open>
  shared/atlantis_contracts/webhook.py: signed provider events, and the inbox that makes each
  of them be taken once. The inbox is the locale \<open>event_inbox\<close>; the PostgreSQL inbox and the
  bounded set the channel adapters use in shadow mode interpret it.
\<close>

record verified_webhook =
  vw_provider :: string
  vw_event_id :: string
  vw_body_hash :: string
  vw_received_at :: int

definition webhook_secret :: "(string, bytes) dict \<Rightarrow> string \<Rightarrow> bytes res" where
  "webhook_secret secrets provider =
     (case map_of secrets provider of
        None \<Rightarrow> raise WebhookError ''WEBHOOK_SECRET_NOT_CONFIGURED''
      | Some secret \<Rightarrow>
          if length secret < 32 then raise WebhookError ''WEBHOOK_SECRET_NOT_CONFIGURED'' else Inr secret)"

definition webhook_accept ::
  "(string \<Rightarrow> string \<Rightarrow> string \<Rightarrow> 's \<Rightarrow> bool res \<times> 's) \<Rightarrow> string \<Rightarrow> string \<Rightarrow> bytes \<Rightarrow> int \<Rightarrow> 's
    \<Rightarrow> verified_webhook res \<times> 's" where
  "webhook_accept remember provider event_id body now s =
     (if event_id = [] then (raise WebhookError ''WEBHOOK_EVENT_ID_REQUIRED'', s)
      else (case remember provider event_id (sha256_hexdigest body) s of
              (Inl e, s') \<Rightarrow> (Inl e, s')
            | (Inr False, s') \<Rightarrow> (raise WebhookError ''DUPLICATE_WEBHOOK'', s')
            | (Inr True, s') \<Rightarrow>
                (Inr \<lparr>vw_provider = provider, vw_event_id = event_id, vw_body_hash = sha256_hexdigest body,
                  vw_received_at = now\<rparr>, s')))"

text \<open>What \<open>verify_meta\<close> and \<open>verify_generic\<close> check before the inbox is asked.\<close>

definition meta_check :: "(string, bytes) dict \<Rightarrow> bytes \<Rightarrow> string \<Rightarrow> unit res" where
  "meta_check secrets raw_body signature =
     rbind (webhook_secret secrets ''meta'') (\<lambda>secret.
     rbind (compare_digest signature (''sha256='' @ hmac_hexdigest secret raw_body)) (\<lambda>same.
       if same then Inr () else raise WebhookError ''INVALID_META_SIGNATURE''))"

definition verify_meta ::
  "(string \<Rightarrow> string \<Rightarrow> string \<Rightarrow> 's \<Rightarrow> bool res \<times> 's) \<Rightarrow> (string, bytes) dict \<Rightarrow> int \<Rightarrow> bytes \<Rightarrow> string \<Rightarrow> string \<Rightarrow> 's
    \<Rightarrow> verified_webhook res \<times> 's" where
  "verify_meta remember secrets clock raw_body signature event_id s =
     (case meta_check secrets raw_body signature of
        Inl e \<Rightarrow> (Inl e, s)
      | Inr _ \<Rightarrow> webhook_accept remember ''meta'' event_id raw_body clock s)"

definition generic_check :: "(string, bytes) dict \<Rightarrow> int \<Rightarrow> int \<Rightarrow> string \<Rightarrow> bytes \<Rightarrow> string \<Rightarrow> string \<Rightarrow> unit res" where
  "generic_check secrets max_skew clock provider raw_body signature timestamp =
     (case py_int timestamp of
        None \<Rightarrow> raise WebhookError ''INVALID_WEBHOOK_TIMESTAMP''
      | Some signed_at \<Rightarrow>
          if max_skew < \<bar>clock - signed_at\<bar> then raise WebhookError ''STALE_WEBHOOK''
          else rbind (webhook_secret secrets provider) (\<lambda>secret.
               rbind (compare_digest signature (hmac_hexdigest secret (timestamp @ ''.'' @ raw_body))) (\<lambda>same.
                 if same then Inr () else raise WebhookError ''INVALID_WEBHOOK_SIGNATURE'')))"

definition verify_generic ::
  "(string \<Rightarrow> string \<Rightarrow> string \<Rightarrow> 's \<Rightarrow> bool res \<times> 's) \<Rightarrow> (string, bytes) dict \<Rightarrow> int \<Rightarrow> int \<Rightarrow> string \<Rightarrow> bytes \<Rightarrow> string
    \<Rightarrow> string \<Rightarrow> string \<Rightarrow> 's \<Rightarrow> verified_webhook res \<times> 's" where
  "verify_generic remember secrets max_skew clock provider raw_body signature timestamp event_id s =
     (case generic_check secrets max_skew clock provider raw_body signature timestamp of
        Inl e \<Rightarrow> (Inl e, s)
      | Inr _ \<Rightarrow> webhook_accept remember provider event_id raw_body clock s)"

section \<open>The interface of an inbox\<close>

locale event_inbox =
  fixes remember :: "'e \<Rightarrow> string \<Rightarrow> string \<Rightarrow> string \<Rightarrow> 's \<Rightarrow> bool res \<times> 's"
    and ok :: "'s \<Rightarrow> bool"
    and seen :: "'e \<Rightarrow> 's \<Rightarrow> string \<times> string \<Rightarrow> bool"
    and covers :: "'e \<Rightarrow> 'e \<Rightarrow> bool"
  assumes ok_remember: "ok s \<Longrightarrow> ok (snd (remember e p i h s))"
    and accept_seen: "ok s \<Longrightarrow> remember e p i h s = (Inr True, s') \<Longrightarrow> covers e e' \<Longrightarrow> seen e' s' (p, i)"
    and seen_refused: "ok s \<Longrightarrow> seen e s (p, i) \<Longrightarrow> fst (remember e p i h s) \<noteq> Inr True"
    and new_accepted: "ok s \<Longrightarrow> \<not> seen e s (p, i) \<Longrightarrow> remember e p i h s = (Inr b, s') \<Longrightarrow> b"
begin

lemma accept_verified:
  assumes "webhook_accept (remember e) p i body now s = (Inr v, s')"
  shows "remember e p i (sha256_hexdigest body) s = (Inr True, s')" "i \<noteq> []"
    "v = \<lparr>vw_provider = p, vw_event_id = i, vw_body_hash = sha256_hexdigest body, vw_received_at = now\<rparr>"
  using assms by (auto simp: webhook_accept_def split: prod.splits sum.splits bool.splits if_splits)

lemma duplicate_refused:
  assumes "ok s" "webhook_accept (remember e) p i body now s = (Inr v, s')" "covers e e'"
  shows "fst (webhook_accept (remember e') p i body' now' s') \<noteq> Inr v'"
proof
  assume r: "fst (webhook_accept (remember e') p i body' now' s') = Inr v'"
  then obtain s'' where "webhook_accept (remember e') p i body' now' s' = (Inr v', s'')" by (metis prod.collapse)
  then have "remember e' p i (sha256_hexdigest body') s' = (Inr True, s'')" by (rule accept_verified)
  moreover have a: "remember e p i (sha256_hexdigest body) s = (Inr True, s')" using assms(2) by (rule accept_verified)
  have "ok s'" using ok_remember [OF assms(1), of e p i "sha256_hexdigest body"] a by simp
  moreover have "seen e' s' (p, i)" using assms(1) a assms(3) by (rule accept_seen)
  ultimately show False using seen_refused [of s' e' p i "sha256_hexdigest body'"] by simp
qed

end

section \<open>The inboxes\<close>

definition receipt_known :: "string \<Rightarrow> receipt_row list \<Rightarrow> string \<times> string \<Rightarrow> bool" where
  "receipt_known tenant rows k \<longleftrightarrow>
     (\<exists>row \<in> set rows. wr_tenant_id row = tenant \<and> wr_provider row = fst k \<and> wr_event_id row = snd k)"

interpretation pg_inbox: event_inbox "pg_inbox_remember tenant" "\<lambda>_. True" "\<lambda>_. receipt_known tenant" "\<lambda>_ _. True"
  for tenant
proof unfold_locales
  fix e p i h s s' b
  show "pg_inbox_remember tenant e p i h s = (Inr True, s') \<Longrightarrow> receipt_known tenant s' (p, i)"
    by (auto simp: pg_inbox_remember_def pg_run_Inr receipt_known_def split: prod.splits if_splits)
  show "receipt_known tenant s (p, i) \<Longrightarrow> fst (pg_inbox_remember tenant e p i h s) \<noteq> Inr True"
    by (auto simp: pg_inbox_remember_def pg_run_def receipt_known_def split: prod.splits option.splits if_splits)
  show "\<not> receipt_known tenant s (p, i) \<Longrightarrow> pg_inbox_remember tenant e p i h s = (Inr b, s') \<Longrightarrow> b"
    by (auto simp: pg_inbox_remember_def pg_run_Inr receipt_known_def split: prod.splits if_splits)
qed auto

text \<open>The shadow inbox of the channel adapters: \<open>event_ids.remember((provider, event_id))\<close>.\<close>

definition ttl_inbox ::
  "real \<times> real \<Rightarrow> string \<Rightarrow> string \<Rightarrow> string \<Rightarrow> (string \<times> string, unit) ttl_map \<Rightarrow> bool res \<times> (string \<times> string, unit) ttl_map" where
  "ttl_inbox clocks provider event_id body_hash m = ttl_remember (fst clocks) (snd clocks) (provider, event_id) m"

definition ttl_seen :: "real \<times> real \<Rightarrow> (string \<times> string, unit) ttl_map \<Rightarrow> string \<times> string \<Rightarrow> bool" where
  "ttl_seen clocks m k \<longleftrightarrow> fst (ttl_get (fst clocks) k m) \<noteq> None"

definition ttl_is :: "real \<Rightarrow> ('k, 'v) ttl_map \<Rightarrow> bool" where
  "ttl_is ttl m \<longleftrightarrow> ttl_ok m \<and> tm_ttl_seconds m = ttl"

lemma ttl_fixed:
  "tm_ttl_seconds (snd (ttl_get now k m)) = tm_ttl_seconds m"
  "tm_ttl_seconds (snd (ttl_set now k v m)) = tm_ttl_seconds m"
  by (auto simp: ttl_get_def ttl_set_def Let_def split: sum.splits)

lemma ttl_remember_True:
  assumes "ttl_remember now1 now2 k m = (Inr True, m')"
  shows "\<exists>m1. ttl_get now1 k m = (None, m1) \<and> ttl_set now2 k () m1 = (Inr (), m')"
  using assms by (auto simp: ttl_remember_def split: prod.splits option.splits sum.splits)

lemma ttl_remember_is: "ttl_is ttl m \<Longrightarrow> ttl_is ttl (snd (ttl_remember now1 now2 k m))"
proof -
  assume m: "ttl_is ttl m"
  obtain r m1 where g: "ttl_get now1 k m = (r, m1)" by fastforce
  have m1: "ttl_ok m1" "tm_ttl_seconds m1 = ttl"
    using m ttl_get_ok [of m now1 k] ttl_fixed(1) [of now1 k m] g by (auto simp: ttl_is_def)
  obtain r' m2 where s: "ttl_set now2 k () m1 = (r', m2)" by fastforce
  have "ttl_ok m2" "tm_ttl_seconds m2 = ttl"
    using m1 ttl_set_ok [of m1 now2 k "()"] ttl_fixed(2) [of now2 k "()" m1] s by auto
  with m1 g s show ?thesis by (auto simp: ttl_remember_def ttl_is_def split: option.splits sum.splits)
qed

interpretation ttl_inbox: event_inbox ttl_inbox "ttl_is ttl" ttl_seen "\<lambda>e e'. fst e' < snd e + ttl"
  for ttl
proof unfold_locales
  fix e e' :: "real \<times> real" and p i h :: string and s s' :: "(string \<times> string, unit) ttl_map" and b
  show "ttl_is ttl s \<Longrightarrow> ttl_is ttl (snd (ttl_inbox e p i h s))"
    by (simp add: ttl_inbox_def ttl_remember_is)
  show "ttl_is ttl s \<Longrightarrow> ttl_inbox e p i h s = (Inr True, s') \<Longrightarrow> fst e' < snd e + ttl \<Longrightarrow> ttl_seen e' s' (p, i)"
  proof -
    assume s: "ttl_is ttl s" and r: "ttl_inbox e p i h s = (Inr True, s')" and w: "fst e' < snd e + ttl"
    then obtain m1 where m1: "ttl_get (fst e) (p, i) s = (None, m1)" "ttl_set (snd e) (p, i) () m1 = (Inr (), s')"
      using ttl_remember_True [of "fst e" "snd e" "(p, i)" s s'] by (auto simp: ttl_inbox_def)
    then have "ttl_ok m1" "tm_ttl_seconds m1 = ttl"
      using s ttl_get_ok [of s "fst e" "(p, i)"] ttl_fixed(1) [of "fst e" "(p, i)" s] by (auto simp: ttl_is_def)
    then show "ttl_seen e' s' (p, i)" using ttl_set_get [OF _ m1(2)] w by (simp add: ttl_seen_def)
  qed
  show "ttl_seen e s (p, i) \<Longrightarrow> fst (ttl_inbox e p i h s) \<noteq> Inr True"
    by (auto simp: ttl_seen_def ttl_inbox_def ttl_remember_def split: prod.splits option.splits)
  show "\<not> ttl_seen e s (p, i) \<Longrightarrow> ttl_inbox e p i h s = (Inr b, s') \<Longrightarrow> b"
    by (auto simp: ttl_seen_def ttl_inbox_def ttl_remember_def split: prod.splits option.splits sum.splits)
qed

section \<open>Properties\<close>

lemma verify_generic_Inr:
  "verify_generic remember secrets max_skew clock p body sig ts i s = (Inr v, s') \<longleftrightarrow>
     generic_check secrets max_skew clock p body sig ts = Inr () \<and> webhook_accept remember p i body clock s = (Inr v, s')"
  by (auto simp: verify_generic_def split: sum.splits)

lemma verify_meta_Inr:
  "verify_meta remember secrets clock body sig i s = (Inr v, s') \<longleftrightarrow>
     meta_check secrets body sig = Inr () \<and> webhook_accept remember ''meta'' i body clock s = (Inr v, s')"
  by (auto simp: verify_meta_def split: sum.splits)

lemma pg_accept_known:
  "webhook_accept (pg_inbox_remember tenant e) p i body now s = (Inr v, s') \<Longrightarrow> receipt_known tenant s' (p, i)"
  using pg_inbox.accept_verified(1) pg_inbox.accept_seen by blast

text \<open>
  An event of a provider is taken at most once: after an acceptance every later delivery of
  the same event identifier is refused, whatever its body, signature and time stamp, on the
  inbox as it is at any later time (receipts are only added).
\<close>

theorem webhook_taken_once:
  assumes "verify_generic (pg_inbox_remember tenant e) secrets skew clock p body sig ts i rows = (Inr v, rows1)"
    and "set rows1 \<subseteq> set rows2"
  shows "fst (verify_generic (pg_inbox_remember tenant e') secrets' skew' clock' p body' sig' ts' i rows2) \<noteq> Inr v'"
proof
  assume "fst (verify_generic (pg_inbox_remember tenant e') secrets' skew' clock' p body' sig' ts' i rows2) = Inr v'"
  then obtain rows3 where "webhook_accept (pg_inbox_remember tenant e') p i body' clock' rows2 = (Inr v', rows3)"
    by (metis prod.collapse verify_generic_Inr)
  then have "pg_inbox_remember tenant e' p i (sha256_hexdigest body') rows2 = (Inr True, rows3)"
    by (rule pg_inbox.accept_verified)
  moreover have "receipt_known tenant rows1 (p, i)" using assms(1) unfolding verify_generic_Inr by (blast intro: pg_accept_known)
  then have "receipt_known tenant rows2 (p, i)" using assms(2) by (auto simp: receipt_known_def)
  ultimately show False using pg_inbox.seen_refused by (metis fst_conv)
qed

theorem webhook_taken_once_witness:
  "let secret = replicate 32 (CHR ''w''); sig = hmac_hexdigest secret ''100.{}'';
       env = (\<lparr>pg_now = 100, pg_fault = None\<rparr>, ''r1'', ''c1'');
       first = verify_generic (pg_inbox_remember ''t'' env) [(''vicidial'', secret)] 300 120 ''vicidial'' ''{}'' sig ''100'' ''e1'' []
   in fst first = Inr \<lparr>vw_provider = ''vicidial'', vw_event_id = ''e1'', vw_body_hash = sha256_hexdigest ''{}'', vw_received_at = 120\<rparr> \<and>
      (\<forall>v. fst (verify_generic (pg_inbox_remember ''t'' env) [(''vicidial'', secret)] 300 130 ''vicidial'' ''{}'' sig ''100'' ''e1'' (snd first)) \<noteq> Inr v)"
proof -
  let ?secret = "replicate 32 (CHR ''w'')"
  let ?sig = "hmac_hexdigest ?secret ''100.{}''"
  let ?env = "(\<lparr>pg_now = 100, pg_fault = None\<rparr>, ''r1'', ''c1'')"
  let ?v = "\<lparr>vw_provider = ''vicidial'', vw_event_id = ''e1'', vw_body_hash = sha256_hexdigest ''{}'', vw_received_at = 120\<rparr>"
  have ts: "py_int ''100'' = Some 100" by code_simp
  obtain rows where first: "verify_generic (pg_inbox_remember ''t'' ?env) [(''vicidial'', ?secret)] 300 120 ''vicidial'' ''{}'' ?sig ''100'' ''e1'' []
      = (Inr ?v, rows)"
    by (simp add: verify_generic_def generic_check_def ts webhook_secret_def webhook_accept_def pg_inbox_remember_def pg_run_def)
  from webhook_taken_once [OF first subset_refl] first show ?thesis by (simp add: Let_def)
qed

text \<open>
  The event identifier is not signed: whoever holds one signed Meta delivery can deliver the
  same body with the same signature again under any identifier the inbox has not seen, and it is
  accepted as a new event.
\<close>

theorem webhook_event_id_not_signed:
  assumes "verify_meta (pg_inbox_remember tenant e) secrets clock body sig i rows = (Inr v, rows1)"
    and "j \<noteq> []" "\<not> receipt_known tenant rows1 (''meta'', j)" "pg_fault (fst e') = None"
  shows "fst (verify_meta (pg_inbox_remember tenant e') secrets clock' body sig j rows1) =
    Inr \<lparr>vw_provider = ''meta'', vw_event_id = j, vw_body_hash = vw_body_hash v, vw_received_at = clock'\<rparr>"
proof -
  have "meta_check secrets body sig = Inr ()" "vw_body_hash v = sha256_hexdigest body"
    using assms(1) by (auto simp: verify_meta_Inr dest: pg_inbox.accept_verified)
  moreover have "fst (pg_inbox_remember tenant e' ''meta'' j (sha256_hexdigest body) rows1) = Inr True"
    using assms(3,4) by (cases e') (auto simp: pg_inbox_remember_def pg_run_def receipt_known_def)
  ultimately show ?thesis using assms(2)
    by (auto simp: verify_meta_def webhook_accept_def split: prod.splits sum.splits bool.splits)
qed

theorem webhook_event_id_not_signed_witness:
  "let secret = replicate 32 (CHR ''w''); sig = ''sha256='' @ hmac_hexdigest secret ''{}'';
       env = (\<lparr>pg_now = 100, pg_fault = None\<rparr>, ''r1'', ''c1'');
       first = verify_meta (pg_inbox_remember ''t'' env) [(''meta'', secret)] 120 ''{}'' sig ''e1'' []
   in fst (verify_meta (pg_inbox_remember ''t'' env) [(''meta'', secret)] 130 ''{}'' sig ''e2'' (snd first)) =
      Inr \<lparr>vw_provider = ''meta'', vw_event_id = ''e2'', vw_body_hash = sha256_hexdigest ''{}'', vw_received_at = 130\<rparr>"
proof -
  let ?secret = "replicate 32 (CHR ''w'')"
  let ?sig = "''sha256='' @ hmac_hexdigest ?secret ''{}''"
  let ?env = "(\<lparr>pg_now = 100, pg_fault = None\<rparr>, ''r1'', ''c1'')"
  let ?v = "\<lparr>vw_provider = ''meta'', vw_event_id = ''e1'', vw_body_hash = sha256_hexdigest ''{}'', vw_received_at = 120\<rparr>"
  let ?row = "\<lparr>wr_id = ''r1'', wr_tenant_id = ''t'', wr_provider = ''meta'', wr_event_id = ''e1'',
    wr_body_hash = sha256_hexdigest ''{}'', wr_correlation_id = ''c1''\<rparr>"
  have "compare_digest ?sig ?sig = Inr True" using hexdigest_ascii [of ?secret "''{}''"] by (simp add: compare_digest_def)
  then have first: "verify_meta (pg_inbox_remember ''t'' ?env) [(''meta'', ?secret)] 120 ''{}'' ?sig ''e1'' [] = (Inr ?v, [?row])"
    by (simp add: verify_meta_def meta_check_def webhook_secret_def webhook_accept_def pg_inbox_remember_def pg_run_def)
  have "fst (verify_meta (pg_inbox_remember ''t'' ?env) [(''meta'', ?secret)] 130 ''{}'' ?sig ''e2'' [?row]) =
      Inr \<lparr>vw_provider = ''meta'', vw_event_id = ''e2'', vw_body_hash = vw_body_hash ?v, vw_received_at = 130\<rparr>"
    by (rule webhook_event_id_not_signed [OF first]) (simp_all add: receipt_known_def)
  then show ?thesis using first by (simp add: Let_def)
qed

end
