(* ===== verification/PolicyServer.thy ===== *)
theory PolicyServer
  imports Authorization PgStores Client
begin

text \<open>
  services/policy\_gateway/app/server.py, evidence.py and decision\_repository.py: the two endpoints
  that decide on a contact and authorize it, the evidence taken from the CRM, the record of a
  decision, and what the process is started with.
\<close>

section \<open>Evidence\<close>

text \<open>The fields the evidence sets, their names in it, and what stands for one that is missing.\<close>

definition evidence_fields :: "(string \<times> string \<times> json) list" where
  "evidence_fields =
     [(''campaign_approved'', ''campaign_approved'', JBool False), (''approved_content_hash'', ''approved_content_hash'', JNull),
      (''internally_suppressed'', ''suppressed'', JBool True), (''consent_active'', ''consent_active'', JBool False),
      (''repep_snapshot_valid'', ''repep_snapshot_valid'', JBool False), (''repep_listed'', ''repep_listed'', JNull),
      (''repep_enabled'', ''repep_enabled'', JBool False), (''repep_exemption_type'', ''repep_exemption_type'', JNull),
      (''repep_exemption_approved'', ''repep_exemption_approved'', JBool False),
      (''repep_exemption_evidence_ref'', ''repep_exemption_evidence_ref'', JNull)]"

definition apply_evidence :: "(string \<times> json) list \<Rightarrow> (string \<times> json) list \<Rightarrow> (string \<times> json) list" where
  "apply_evidence evidence body = fold (\<lambda>(field, name, d). dict_set field (dict_get_or d evidence name)) evidence_fields body"

definition evidence_resolve ::
  "(string \<Rightarrow> (string \<times> json) list \<Rightarrow> 'w \<Rightarrow> json res \<times> 'w) \<Rightarrow> (string \<times> json) list \<Rightarrow> 'w \<Rightarrow> (string \<times> json) list res \<times> 'w" where
  "evidence_resolve post body w =
     (case body_items body [''tenant_id'', ''contact_id'', ''campaign_version_id'', ''channel'', ''purpose''] of
        Inl x \<Rightarrow> (Inl x, w)
      | Inr required \<Rightarrow>
          (case post ''/v1/contactability-evidence'' (required @ [(''phone_token'', dict_get_or JNull body ''phone_token'')]) w of
             (Inl x, w') \<Rightarrow> (Inl x, w')
           | (Inr (JObj evidence), w') \<Rightarrow> (Inr (apply_evidence evidence body), w')
           | (Inr _, w') \<Rightarrow> (raise AttributeError ''get'', w')))"

section \<open>The request\<close>

definition contact_fields :: "string list" where
  "contact_fields = [''tenant_id'', ''contact_id'', ''campaign_version_id'', ''purpose'', ''channel'', ''content_hash'', ''requested_at'',
     ''campaign_approved'', ''approved_content_hash'', ''internally_suppressed'', ''frequency_exhausted'', ''kill_switch'',
     ''consent_active'', ''template_approved'', ''conversation_window_open'', ''repep_snapshot_valid'', ''repep_listed'',
     ''repep_enabled'', ''repep_exemption_type'', ''repep_exemption_approved'', ''repep_exemption_evidence_ref'', ''local_hour'',
     ''metadata'']"

text \<open>
  What the policy sees of a field of any type: the truth value where it tests that, an exact
  \<open>True\<close> or \<open>False\<close> where it tests \<open>is\<close>. A text or number of another type is a TypeError here.
\<close>

definition truth_field :: "(string \<times> json) list \<Rightarrow> string \<Rightarrow> bool" where
  "truth_field body k = truthy (dict_get_or (JBool False) body k)"

definition exact_field :: "(string \<times> json) list \<Rightarrow> string \<Rightarrow> bool option" where
  "exact_field body k = (case map_of body k of Some (JBool b) \<Rightarrow> Some b | _ \<Rightarrow> None)"

definition string_field :: "(string \<times> json) list \<Rightarrow> string \<Rightarrow> string res" where
  "string_field body k = (case map_of body k of Some (JStr s) \<Rightarrow> Inr s | _ \<Rightarrow> raise TypeError k)"

definition maybe_int :: "(string \<times> json) list \<Rightarrow> string \<Rightarrow> int option res" where
  "maybe_int body k =
     (case map_of body k of
        None \<Rightarrow> Inr None | Some JNull \<Rightarrow> Inr None | Some (JInt i) \<Rightarrow> Inr (Some i) | _ \<Rightarrow> raise TypeError k)"

definition object_field :: "(string \<times> json) list \<Rightarrow> string \<Rightarrow> (string \<times> json) list res" where
  "object_field body k =
     (case map_of body k of None \<Rightarrow> Inr [] | Some (JObj kvs) \<Rightarrow> Inr kvs | _ \<Rightarrow> raise TypeError k)"

text \<open>The statements from \<open>Channel(body["channel"])\<close> to \<open>ContactabilityRequest(**body)\<close>.\<close>

definition channel_field :: "(string \<times> json) list \<Rightarrow> channel res" where
  "channel_field body =
     rbind (body_item body ''channel'') (\<lambda>v.
       of_option (Exn ValueError ''not a valid Channel'') (case v of JStr s \<Rightarrow> channel_of s | _ \<Rightarrow> None))"

definition moment_field :: "(string \<Rightarrow> datetime option) \<Rightarrow> (string \<times> json) list \<Rightarrow> datetime res" where
  "moment_field fromisoformat body =
     rbind (body_item body ''requested_at'') (\<lambda>v.
       case v of JStr s \<Rightarrow> of_option (Exn ValueError ''Invalid isoformat string'') (fromisoformat s)
       | _ \<Rightarrow> raise TypeError ''fromisoformat'')"

definition contact_request_of ::
  "(string \<Rightarrow> datetime option) \<Rightarrow> (string \<times> json) list \<Rightarrow> contact_request res" where
  "contact_request_of fromisoformat body =
     rbind (channel_field body) (\<lambda>channel.
     rbind (moment_field fromisoformat body) (\<lambda>requested_at.
       if \<not> set (map fst body) \<subseteq> set contact_fields then raise TypeError ''ContactabilityRequest''
       else
         rbind (string_field body ''tenant_id'') (\<lambda>tenant.
         rbind (string_field body ''contact_id'') (\<lambda>contact.
         rbind (string_field body ''campaign_version_id'') (\<lambda>version.
         rbind (string_field body ''purpose'') (\<lambda>purpose.
         rbind (string_field body ''content_hash'') (\<lambda>content_hash.
         rbind (maybe_string body ''approved_content_hash'') (\<lambda>approved.
         rbind (maybe_string body ''repep_exemption_type'') (\<lambda>exemption.
         rbind (maybe_string body ''repep_exemption_evidence_ref'') (\<lambda>ref.
         rbind (maybe_int body ''local_hour'') (\<lambda>hour.
         rbind (object_field body ''metadata'') (\<lambda>metadata.
           Inr \<lparr>cr_tenant_id = tenant, cr_contact_id = contact, cr_campaign_version_id = version, cr_purpose = purpose,
             cr_channel = channel, cr_content_hash = content_hash, cr_requested_at = requested_at,
             cr_campaign_approved = truth_field body ''campaign_approved'', cr_approved_content_hash = approved,
             cr_internally_suppressed = truth_field body ''internally_suppressed'',
             cr_frequency_exhausted = truth_field body ''frequency_exhausted'', cr_kill_switch = truth_field body ''kill_switch'',
             cr_consent_active = exact_field body ''consent_active'', cr_template_approved = exact_field body ''template_approved'',
             cr_conversation_window_open = exact_field body ''conversation_window_open'',
             cr_repep_snapshot_valid = exact_field body ''repep_snapshot_valid'', cr_repep_listed = exact_field body ''repep_listed'',
             cr_repep_enabled = truth_field body ''repep_enabled'', cr_repep_exemption_type = exemption,
             cr_repep_exemption_approved = exact_field body ''repep_exemption_approved'',
             cr_repep_exemption_evidence_ref = ref, cr_local_hour = hour, cr_metadata = metadata\<rparr>))))))))))))"

section \<open>The record of a decision\<close>

record intent_row =
  in_id :: string
  in_tenant_id :: string
  in_contact_id :: string
  in_campaign_version_id :: string
  in_purpose :: string
  in_channel :: string
  in_content_hash :: string
  in_workflow_version :: string
  in_status :: string
  in_requested_at :: datetime

record decision_row =
  dr_id :: string
  dr_tenant_id :: string
  dr_contact_id :: string
  dr_campaign_version_id :: string
  dr_channel :: string
  dr_purpose :: string
  dr_result :: string
  dr_reason_codes :: string
  dr_evidence_ids :: json
  dr_policy_version :: string
  dr_content_hash :: string
  dr_decided_at :: datetime
  dr_expires_at :: datetime
  dr_action_intent_id :: string

record decision_db =
  dd_intents :: "intent_row list"
  dd_decisions :: "decision_row list"
  dd_audit :: "pg_audit list"

fun intent_status :: "decision_outcome \<Rightarrow> string" where
  "intent_status ALLOW = ''ALLOWED''"
| "intent_status DENY = ''DENIED''"
| "intent_status REVIEW = ''REVIEW''"

text \<open>\<open>uuid5\<close> is the name-based identifier in the URL name space.\<close>

definition action_intent_id :: "(string \<Rightarrow> string) \<Rightarrow> string \<Rightarrow> string" where
  "action_intent_id uuid5 decision_id = uuid5 (''atlantis:action-intent:'' @ decision_id)"

definition insert_intent :: "(string \<Rightarrow> string) \<Rightarrow> decision \<Rightarrow> contact_request \<Rightarrow> intent_row list \<Rightarrow> intent_row list" where
  "insert_intent uuid5 d r rows =
     (let i = action_intent_id uuid5 (de_decision_id d) in
      if i \<in> in_id ` set rows then rows
      else rows @ [\<lparr>in_id = i, in_tenant_id = cr_tenant_id r, in_contact_id = cr_contact_id r,
        in_campaign_version_id = cr_campaign_version_id r, in_purpose = cr_purpose r, in_channel = channel_value (cr_channel r),
        in_content_hash = cr_content_hash r, in_workflow_version = ''sales-graph@1'', in_status = intent_status (de_outcome d),
        in_requested_at = cr_requested_at r\<rparr>])"

definition insert_decision :: "(string \<Rightarrow> string) \<Rightarrow> decision \<Rightarrow> contact_request \<Rightarrow> decision_row list \<Rightarrow> decision_row list" where
  "insert_decision uuid5 d r rows =
     (if de_decision_id d \<in> dr_id ` set rows then rows
      else rows @ [\<lparr>dr_id = de_decision_id d, dr_tenant_id = cr_tenant_id r, dr_contact_id = cr_contact_id r,
        dr_campaign_version_id = cr_campaign_version_id r, dr_channel = channel_value (cr_channel r), dr_purpose = cr_purpose r,
        dr_result = outcome_value (de_outcome d), dr_reason_codes = reason_json (de_reason_codes d),
        dr_evidence_ids = dict_get_or (JList []) (de_evidence d) ''evidence_ids'', dr_policy_version = de_policy_version d,
        dr_content_hash = cr_content_hash r, dr_decided_at = de_decided_at d, dr_expires_at = de_decided_at d + 300000000,
        dr_action_intent_id = action_intent_id uuid5 (de_decision_id d)\<rparr>])"

definition decision_correlation :: "(json \<Rightarrow> string) \<Rightarrow> decision \<Rightarrow> contact_request \<Rightarrow> string" where
  "decision_correlation repr d r =
     (let v = dict_get_or JNull (cr_metadata r) ''correlation_id'' in
      case uuid_text (if truthy v then py_str repr v else de_decision_id d) of None \<Rightarrow> de_decision_id d | Some u \<Rightarrow> u)"

text \<open>\<open>persist\<close>, one transaction.\<close>

definition persist_decision ::
  "(string \<Rightarrow> string) \<Rightarrow> (json \<Rightarrow> string) \<Rightarrow> pg_env \<Rightarrow> decision \<Rightarrow> contact_request \<Rightarrow> decision_db \<Rightarrow> string res \<times> decision_db" where
  "persist_decision uuid5 repr e d r = pg_run e (\<lambda>db.
     (Inr (action_intent_id uuid5 (de_decision_id d)),
      db\<lparr>dd_intents := insert_intent uuid5 d r (dd_intents db),
         dd_decisions := insert_decision uuid5 d r (dd_decisions db),
         dd_audit := dd_audit db @
           [\<lparr>pa_tenant_id = cr_tenant_id r, pa_actor_type = ''SERVICE'', pa_actor_id = ''policy-gateway'',
             pa_action = ''POLICY_DECIDED'', pa_resource_type = ''CONTACTABILITY_DECISION'', pa_resource_id = de_decision_id d,
             pa_decision_id = Some (de_decision_id d), pa_reason_codes = reason_json (de_reason_codes d),
             pa_correlation_id = decision_correlation repr d r\<rparr>]\<rparr>))"

section \<open>The endpoints\<close>

text \<open>
  What the process is configured with: the policy, the CRM call (outside shadow mode always
  there), whether decisions are recorded, the issuer and the ledger's operation.
\<close>

record ('l, 'w) policy_config =
  pc_engine :: policy_engine
  pc_evidence :: "(string \<Rightarrow> (string \<times> json) list \<Rightarrow> 'w \<Rightarrow> json res \<times> 'w) option"
  pc_durable :: bool
  pc_issuer :: auth_issuer
  pc_register :: "pg_env \<Rightarrow> claims \<Rightarrow> string \<Rightarrow> 'l \<Rightarrow> unit res \<times> 'l"
  pc_fromisoformat :: "string \<Rightarrow> datetime option"
  pc_uuid5 :: "string \<Rightarrow> string"
  pc_repr :: "json \<Rightarrow> string"
  pc_float_int :: "string \<Rightarrow> int res"

record ('l, 'w) policy_state =
  ps_contexts :: context_store
  ps_ledger :: 'l
  ps_decisions :: decision_db
  ps_world :: 'w

text \<open>The moment of a request: the database, the two clocks, and what \<open>uuid4\<close> gives.\<close>

record policy_env =
  pm_pg :: pg_env
  pm_now :: datetime
  pm_clock :: real
  pm_fresh :: string

definition resolve_body ::
  "('l, 'w) policy_config \<Rightarrow> (string \<times> json) list \<Rightarrow> ('l, 'w) policy_state \<Rightarrow> (string \<times> json) list res \<times> ('l, 'w) policy_state" where
  "resolve_body cf body st =
     (case pc_evidence cf of
        None \<Rightarrow> (Inr body, st)
      | Some post \<Rightarrow> (case evidence_resolve post body (ps_world st) of (r, w) \<Rightarrow> (r, st\<lparr>ps_world := w\<rparr>)))"

definition record_decision ::
  "('l, 'w) policy_config \<Rightarrow> policy_env \<Rightarrow> decision \<Rightarrow> contact_request \<Rightarrow> ('l, 'w) policy_state
    \<Rightarrow> (int \<times> decision) res \<times> ('l, 'w) policy_state" where
  "record_decision cf e d r st =
     (let keep = (\<lambda>s. s\<lparr>ps_contexts := context_put (pm_clock e) d r (ps_contexts s)\<rparr>) in
      if pc_durable cf
      then (case persist_decision (pc_uuid5 cf) (pc_repr cf) (pm_pg e) d r (ps_decisions st) of
              (Inl x, db) \<Rightarrow> (Inl x, st\<lparr>ps_decisions := db\<rparr>)
            | (Inr _, db) \<Rightarrow> (Inr (200, d), keep (st\<lparr>ps_decisions := db\<rparr>)))
      else (Inr (200, d), keep st))"

definition decide_handler ::
  "('l, 'w) policy_config \<Rightarrow> policy_env \<Rightarrow> (string \<times> json) list \<Rightarrow> ('l, 'w) policy_state
    \<Rightarrow> (int \<times> decision) res \<times> ('l, 'w) policy_state" where
  "decide_handler cf e body st =
     (case resolve_body cf body st of
        (Inl x, st1) \<Rightarrow> (Inl x, st1)
      | (Inr body1, st1) \<Rightarrow>
          (case contact_request_of (pc_fromisoformat cf) body1 of
             Inl x \<Rightarrow> (Inl x, st1)
           | Inr r \<Rightarrow> record_decision cf e (decide (pc_engine cf) (pm_fresh e) (pm_now e) r) r st1))"

text \<open>
  \<open>decision_contexts.take(decision_id, body["tenant_id"])\<close>: a tenant that is no string differs from
  that of every request, an identifier that is none is not found.
\<close>

definition take_context ::
  "real \<Rightarrow> json \<Rightarrow> json \<Rightarrow> context_store \<Rightarrow> (decision \<times> contact_request) option res \<times> context_store" where
  "take_context now decision_id tenant s =
     (case (decision_id, tenant) of
        (JStr i, JStr t) \<Rightarrow> context_take now i t s
      | (JStr i, _) \<Rightarrow> (if has_key (cs_values s) i then (raise PermissionError ''DECISION_TENANT_MISMATCH'', s) else (Inr None, s))
      | (JList _, _) \<Rightarrow> (raise TypeError ''unhashable'', s)
      | (JObj _, _) \<Rightarrow> (raise TypeError ''unhashable'', s)
      | _ \<Rightarrow> (Inr None, s))"

definition issue_for ::
  "('l, 'w) policy_config \<Rightarrow> policy_env \<Rightarrow> (string \<times> json) list \<Rightarrow> decision \<Rightarrow> contact_request \<Rightarrow> 'l \<Rightarrow> string res \<times> 'l" where
  "issue_for cf e body d r l =
     (case rbind (body_item body ''audience'') (\<lambda>audience.
           rbind (json_to_int (pc_float_int cf) (dict_get_or (JInt 120) body ''ttl_seconds'')) (\<lambda>ttl.
             Inr (case audience of JStr a \<Rightarrow> a | _ \<Rightarrow> [], ttl))) of
        Inl x \<Rightarrow> (Inl x, l)
      | Inr (audience, ttl) \<Rightarrow>
          issue_token (pc_register cf (pm_pg e)) (pc_issuer cf) d r audience ttl \<lfloor>pm_clock e\<rfloor> (pm_fresh e) l)"

definition denied_reply :: "exn \<Rightarrow> (int \<times> reply_body) res" where
  "denied_reply x =
     (if is_permission_error x then Inr (403, error_body (exn_msg x))
      else if is_value_error x then Inr (400, error_body (exn_msg x)) else Inl x)"

definition authorize_handler ::
  "('l, 'w) policy_config \<Rightarrow> policy_env \<Rightarrow> (string \<times> json) list \<Rightarrow> ('l, 'w) policy_state
    \<Rightarrow> (int \<times> reply_body) res \<times> ('l, 'w) policy_state" where
  "authorize_handler cf e body st =
     (case body_item body ''decision_id'' of
        Inl x \<Rightarrow> (Inl x, st)
      | Inr decision_id \<Rightarrow>
          (case body_item body ''tenant_id'' of
             Inl x \<Rightarrow> (denied_reply x, st)
           | Inr tenant \<Rightarrow>
               (case take_context (pm_clock e) decision_id tenant (ps_contexts st) of
                  (Inl x, cs) \<Rightarrow> (denied_reply x, st\<lparr>ps_contexts := cs\<rparr>)
                | (Inr None, cs) \<Rightarrow> (Inr (404, error_body ''DECISION_CONTEXT_NOT_FOUND''), st\<lparr>ps_contexts := cs\<rparr>)
                | (Inr (Some (d, r)), cs) \<Rightarrow>
                    (case issue_for cf e body d r (ps_ledger st) of
                       (Inl x, l) \<Rightarrow> (denied_reply x, st\<lparr>ps_contexts := cs, ps_ledger := l\<rparr>)
                     | (Inr token, l) \<Rightarrow>
                         (Inr (201, JsonBody (JObj [(''token'', JStr token), (''decision_id'', decision_id)])),
                          st\<lparr>ps_contexts := cs, ps_ledger := l\<rparr>)))))"

section \<open>Start of the process\<close>

text \<open>\<open>bytes.strip()\<close>.\<close>

definition bytes_strip :: "bytes \<Rightarrow> bytes" where
  "bytes_strip s =
     (let space = (\<lambda>c. 9 \<le> code c \<and> code c \<le> 13 \<or> code c = 32) in rev (dropWhile space (rev (dropWhile space s))))"

definition load_secret :: "(string \<Rightarrow> bytes res) \<Rightarrow> environ \<Rightarrow> bytes res" where
  "load_secret read_bytes env =
     (if given (env ''ATLANTIS_JIT_SECRET_FILE'')
      then rbind (read_bytes (the (env ''ATLANTIS_JIT_SECRET_FILE''))) (\<lambda>raw. Inr (bytes_strip raw))
      else if given (env ''ATLANTIS_JIT_SECRET'') then Inr (the (env ''ATLANTIS_JIT_SECRET''))
      else if development env \<and> env_true env ''ATLANTIS_SHADOW_MODE'' ''true''
      then Inr ''development-secret-change-me-000000''
      else raise RuntimeError ''JIT_SECRET_REQUIRED'')"

record policy_startup =
  su_issuer :: auth_issuer
  su_evidence :: "service_client option"
  su_dsn :: string
  su_contexts :: context_store

text \<open>The clear-text hosts the evidence call may use: none outside shadow mode.\<close>

definition http_hosts :: "environ \<Rightarrow> string set" where
  "http_hosts env =
     (if env_true env ''ATLANTIS_SHADOW_MODE'' ''true''
      then set (filter (\<lambda>s. s \<noteq> []) (split_all (CHR '','') (getenv env ''ATLANTIS_SHADOW_HTTP_ALLOWLIST'' [])))
      else {})"

definition evidence_startup ::
  "(string \<Rightarrow> parsed_url option) \<Rightarrow> (string \<Rightarrow> bytes res) \<Rightarrow> environ \<Rightarrow> service_client option res" where
  "evidence_startup urlparse read_bytes env =
     (if given (env ''ATLANTIS_CRM_EVIDENCE_URL'')
      then
        (if \<not> given (env ''ATLANTIS_EVIDENCE_WORKLOAD_SECRET_FILE'')
         then raise RuntimeError ''SEPARATE_EVIDENCE_WORKLOAD_SECRET_REQUIRED''
         else
           rbind (read_bytes (the (env ''ATLANTIS_EVIDENCE_WORKLOAD_SECRET_FILE''))) (\<lambda>raw.
           rbind (client_init urlparse (the (env ''ATLANTIS_CRM_EVIDENCE_URL'')) ''policy-gateway'' (bytes_strip raw) (http_hosts env))
             (\<lambda>sc. Inr (Some sc))))
      else if \<not> env_true env ''ATLANTIS_SHADOW_MODE'' ''true''
      then raise RuntimeError ''CRM_EVIDENCE_SERVICE_REQUIRED_OUTSIDE_SHADOW_MODE''
      else Inr None)"

definition policy_start ::
  "(string \<Rightarrow> parsed_url option) \<Rightarrow> (string \<Rightarrow> bytes res) \<Rightarrow> (environ \<Rightarrow> string res) \<Rightarrow> environ \<Rightarrow> policy_startup res" where
  "policy_start urlparse read_bytes dsn_of env =
     rbind (load_secret read_bytes env) (\<lambda>secret.
     rbind (dsn_of env) (\<lambda>dsn.
     rbind (evidence_startup urlparse read_bytes env) (\<lambda>evidence.
       if dsn = [] \<and> \<not> env_true env ''ATLANTIS_SHADOW_MODE'' ''true''
       then raise RuntimeError ''POSTGRES_AUTHORIZATION_LEDGER_REQUIRED''
       else
         rbind (env_int env ''ATLANTIS_DECISION_MAX_AGE_SECONDS'' ''120'') (\<lambda>max_age.
         rbind (issuer_init secret ''atlantis-policy-gateway'' max_age) (\<lambda>issuer.
         rbind (env_int env ''ATLANTIS_DECISION_CONTEXT_MAX_ENTRIES'' ''10000'') (\<lambda>max_entries.
           Inr \<lparr>su_issuer = issuer, su_evidence = evidence, su_dsn = dsn,
             su_contexts = \<lparr>cs_ttl_seconds = of_int max_age, cs_max_entries = nat max_entries, cs_values = []\<rparr>\<rparr>))))))"

section \<open>Runs of the process\<close>

text \<open>
  The state with what has happened: the decisions taken with their requests, and the tokens given
  out with their decisions. Other processes change the ledger and the world.
\<close>

record ('l, 'w) policy_run =
  gh_state :: "('l, 'w) policy_state"
  gh_decided :: "(decision \<times> contact_request) list"
  gh_issued :: "(string \<times> string) list"

inductive policy_step :: "('l, 'w) policy_config \<Rightarrow> ('l, 'w) policy_run \<Rightarrow> ('l, 'w) policy_run \<Rightarrow> bool" for cf where
  decided: "resolve_body cf body (gh_state g) = (Inr body1, st1) \<Longrightarrow> contact_request_of (pc_fromisoformat cf) body1 = Inr r \<Longrightarrow>
    decide_handler cf e body (gh_state g) = (Inr (n, d), st) \<Longrightarrow> pm_fresh e \<notin> (de_decision_id \<circ> fst) ` set (gh_decided g) \<Longrightarrow>
    policy_step cf g \<lparr>gh_state = st, gh_decided = gh_decided g @ [(d, r)], gh_issued = gh_issued g\<rparr>"
| undecided: "decide_handler cf e body (gh_state g) = (Inl x, st) \<Longrightarrow> policy_step cf g (g\<lparr>gh_state := st\<rparr>)"
| authorized: "authorize_handler cf e body (gh_state g) =
      (Inr (201, JsonBody (JObj [(''token'', JStr t), (''decision_id'', JStr i)])), st) \<Longrightarrow>
    policy_step cf g (g\<lparr>gh_state := st, gh_issued := gh_issued g @ [(i, t)]\<rparr>)"
| unauthorized: "authorize_handler cf e body (gh_state g) = (r, st) \<Longrightarrow> (\<And>b. r \<noteq> Inr (201, b)) \<Longrightarrow>
    policy_step cf g (g\<lparr>gh_state := st\<rparr>)"
| outside: "policy_step cf g (g\<lparr>gh_state := (gh_state g)\<lparr>ps_ledger := l, ps_world := w\<rparr>\<rparr>)"

inductive policy_reachable :: "('l, 'w) policy_config \<Rightarrow> ('l, 'w) policy_run \<Rightarrow> bool" for cf where
  start: "cs_values (ps_contexts st) = [] \<Longrightarrow> policy_reachable cf \<lparr>gh_state = st, gh_decided = [], gh_issued = []\<rparr>"
| step: "policy_reachable cf g \<Longrightarrow> policy_step cf g g' \<Longrightarrow> policy_reachable cf g'"

text \<open>A token for a decision: signed claims of its request, as \<open>issue\<close> makes them.\<close>

definition token_for :: "auth_issuer \<Rightarrow> decision \<Rightarrow> contact_request \<Rightarrow> string \<Rightarrow> bool" where
  "token_for ai d r t \<longleftrightarrow> de_outcome d = ALLOW \<and>
     (\<exists>ttl issued_at jti. 1 \<le> ttl \<and> ttl \<le> 300 \<and> issued_at - epoch_seconds (de_decided_at d) \<le> ai_max_decision_age_seconds ai \<and>
        t = sign_claims (ai_secret ai) (issued_claims ai d r (adapter_audience (cr_channel r)) ttl issued_at jti))"

definition contexts_ok :: "(string, decision \<times> contact_request \<times> real) dict \<Rightarrow> (decision \<times> contact_request) list
    \<Rightarrow> (string \<times> string) list \<Rightarrow> bool" where
  "contexts_ok vs decided issued \<longleftrightarrow> dict_wf vs \<and>
     (\<forall>i d r t. (i, d, r, t) \<in> set vs \<longrightarrow> de_decision_id d = i \<and> (d, r) \<in> set decided \<and> i \<notin> fst ` set issued)"

definition policy_run_ok :: "('l, 'w) policy_config \<Rightarrow> ('l, 'w) policy_run \<Rightarrow> bool" where
  "policy_run_ok cf g \<longleftrightarrow>
     contexts_ok (cs_values (ps_contexts (gh_state g))) (gh_decided g) (gh_issued g) \<and>
     (\<forall>d r. (d, r) \<in> set (gh_decided g) \<longrightarrow> (\<exists>now. d = decide (pc_engine cf) (de_decision_id d) now r)) \<and>
     (\<forall>i t. (i, t) \<in> set (gh_issued g) \<longrightarrow>
        (\<exists>d r. (d, r) \<in> set (gh_decided g) \<and> de_decision_id d = i \<and> token_for (pc_issuer cf) d r t)) \<and>
     distinct (map fst (gh_issued g))"

lemma contexts_ok_sub: "contexts_ok vs decided issued \<Longrightarrow> set vs' \<subseteq> set vs \<Longrightarrow> dict_wf vs' \<Longrightarrow> contexts_ok vs' decided issued"
  unfolding contexts_ok_def by blast

lemma context_put_subset:
  "set (cs_values (context_put now d r s)) \<subseteq> insert (de_decision_id d, d, r, now + cs_ttl_seconds s) (set (cs_values s))"
proof
  fix x assume "x \<in> set (cs_values (context_put now d r s))"
  then have "x \<in> set (dict_pop (de_decision_id d) (context_prune now (cs_values s)) @ [(de_decision_id d, (d, r, now + cs_ttl_seconds s))])"
    unfolding context_put_values Let_def by (rule in_set_dropD)
  then show "x \<in> insert (de_decision_id d, d, r, now + cs_ttl_seconds s) (set (cs_values s))"
    using dict_pop_subset [of "de_decision_id d" "context_prune now (cs_values s)"] by (auto simp: context_prune_def)
qed

lemma context_put_dict_wf: "dict_wf (cs_values s) \<Longrightarrow> dict_wf (cs_values (context_put now d r s))"
  unfolding context_put_values Let_def by (rule dict_wf_drop [OF context_put_wf])

lemma take_context_subset:
  "set (cs_values (snd (take_context now i t s))) \<subseteq> set (cs_values s)"
  "dict_wf (cs_values s) \<Longrightarrow> dict_wf (cs_values (snd (take_context now i t s)))"
  by (auto simp: take_context_def context_take_def Let_def split: json.splits option.splits if_splits
      dest!: dict_pop_subset [THEN subsetD])

lemma take_context_Some:
  assumes "take_context now i t s = (Inr (Some (d, r)), s')"
  shows "\<exists>j e. i = JStr j \<and> t = JStr (cr_tenant_id r) \<and> map_of (cs_values s) j = Some (d, r, e) \<and> map_of (cs_values s') j = None"
proof -
  obtain j u where ju: "i = JStr j" "t = JStr u"
    using assms by (auto simp: take_context_def split: json.splits if_splits)
  then have "context_take now j u s = (Inr (Some (d, r)), s')" using assms by (simp add: take_context_def)
  from context_take_Some [OF this] show ?thesis using ju by auto
qed

lemma issue_for_token:
  assumes "issue_for cf e body d r l = (Inr t, l')"
  shows "token_for (pc_issuer cf) d r t"
  using assms unfolding issue_for_def token_for_def
  by (auto simp: issue_token_Inr split: sum.splits prod.splits json.splits)

lemma resolve_body_contexts: "resolve_body cf body st = (x, st1) \<Longrightarrow> ps_contexts st1 = ps_contexts st"
  by (auto simp: resolve_body_def split: option.splits prod.splits)

lemma record_decision_contexts:
  "record_decision cf e d r st = (Inr (n, d'), st') \<Longrightarrow> d' = d \<and> ps_contexts st' = context_put (pm_clock e) d r (ps_contexts st)"
  "record_decision cf e d r st = (Inl x, st') \<Longrightarrow> ps_contexts st' = ps_contexts st"
  by (auto simp: record_decision_def Let_def split: prod.splits sum.splits if_splits)

lemma decide_handler_failed: "decide_handler cf e body st = (Inl x, st') \<Longrightarrow> ps_contexts st' = ps_contexts st"
  by (auto simp: decide_handler_def split: prod.splits sum.splits dest!: resolve_body_contexts record_decision_contexts)

lemma decide_handler_made:
  assumes "decide_handler cf e body st = (Inr (n, d), st')" "resolve_body cf body st = (Inr body1, st1)"
    and "contact_request_of (pc_fromisoformat cf) body1 = Inr r"
  shows "d = decide (pc_engine cf) (pm_fresh e) (pm_now e) r"
    "ps_contexts st' = context_put (pm_clock e) d r (ps_contexts st)"
  using assms resolve_body_contexts [OF assms(2)]
  by (auto simp: decide_handler_def dest!: record_decision_contexts)

lemma authorize_contexts:
  assumes "authorize_handler cf e body st = (r, st')" "dict_wf (cs_values (ps_contexts st))"
  shows "set (cs_values (ps_contexts st')) \<subseteq> set (cs_values (ps_contexts st)) \<and> dict_wf (cs_values (ps_contexts st'))"
proof -
  have "ps_contexts st' = ps_contexts st \<or> (\<exists>i t. ps_contexts st' = snd (take_context (pm_clock e) i t (ps_contexts st)))"
    using assms(1) unfolding authorize_handler_def
    by (auto split: sum.splits prod.splits option.splits) (metis snd_conv)+
  then show ?thesis using take_context_subset assms(2) by fastforce
qed

lemma authorize_issued:
  assumes "authorize_handler cf e body st = (Inr (201, JsonBody (JObj [(''token'', JStr t), (''decision_id'', JStr i)])), st')"
  shows "\<exists>d r exp. map_of (cs_values (ps_contexts st)) i = Some (d, r, exp) \<and> map_of (cs_values (ps_contexts st')) i = None \<and>
    token_for (pc_issuer cf) d r t"
proof -
  have denied: "denied_reply x \<noteq> Inr (201, b)" for x b by (simp add: denied_reply_def)
  obtain j tenant where b: "body_item body ''decision_id'' = Inr j" "body_item body ''tenant_id'' = Inr tenant"
    using assms denied by (cases "body_item body ''decision_id''"; cases "body_item body ''tenant_id''")
      (auto simp: authorize_handler_def)
  obtain x cs where x: "take_context (pm_clock e) j tenant (ps_contexts st) = (x, cs)" by fastforce
  obtain d r where dr: "x = Inr (Some (d, r))"
    using assms denied b x by (cases x) (auto simp: authorize_handler_def split: option.splits)
  obtain y l where y: "issue_for cf e body d r (ps_ledger st) = (y, l)" by fastforce
  have "y = Inr t \<and> j = JStr i \<and> st' = st\<lparr>ps_contexts := cs, ps_ledger := l\<rparr>"
    using assms denied b x dr y by (cases y) (auto simp: authorize_handler_def)
  then show ?thesis using take_context_Some [OF x [unfolded dr]] issue_for_token y by fastforce
qed

lemma contexts_ok_put:
  assumes "contexts_ok (cs_values s) decided issued" "de_decision_id d \<notin> fst ` set issued"
  shows "contexts_ok (cs_values (context_put now d r s)) (decided @ [(d, r)]) issued"
proof -
  have "dict_wf (cs_values (context_put now d r s))" using assms(1) by (simp add: contexts_ok_def context_put_dict_wf)
  moreover have "de_decision_id d' = i \<and> (d', r') \<in> set (decided @ [(d, r)]) \<and> i \<notin> fst ` set issued"
    if "(i, d', r', t) \<in> set (cs_values (context_put now d r s))" for i d' r' t
    using context_put_subset [THEN subsetD, OF that]
  proof (rule insertE)
    assume "(i, d', r', t) \<in> set (cs_values s)"
    then have "de_decision_id d' = i \<and> (d', r') \<in> set decided \<and> i \<notin> fst ` set issued"
      using assms(1) unfolding contexts_ok_def by blast
    then show ?thesis by simp
  qed (use assms(2) in simp)
  ultimately show ?thesis unfolding contexts_ok_def by blast
qed

lemma contexts_ok_taken:
  assumes "contexts_ok vs decided issued" "set vs' \<subseteq> set vs" "dict_wf vs'" "map_of vs' i = None"
  shows "contexts_ok vs' decided (issued @ [(i, t)])"
proof -
  have "i \<notin> fst ` set vs'" using assms(4) by (simp add: map_of_eq_None_iff)
  then have "j \<noteq> i" if "(j, d, r, t) \<in> set vs'" for j d r t using that by (force simp: rev_image_eqI)
  then show ?thesis using contexts_ok_sub [OF assms(1-3)] unfolding contexts_ok_def by auto
qed

lemma policy_step_ok:
  assumes "policy_step cf g g'" "policy_run_ok cf g"
  shows "policy_run_ok cf g'"
  using assms(1)
proof (cases rule: policy_step.cases)
  case (decided body body1 st1 r e n d st)
  note ok = assms(2) [unfolded policy_run_ok_def]
  note m = decide_handler_made [OF decided(4,2,3)]
  have fresh: "de_decision_id d = pm_fresh e" by (simp add: m(1) decide_def Let_def)
  have new: "de_decision_id d \<notin> fst ` set (gh_issued g)"
  proof
    assume "de_decision_id d \<in> fst ` set (gh_issued g)"
    then obtain t where "(de_decision_id d, t) \<in> set (gh_issued g)" by auto
    then obtain d' r' where "(d', r') \<in> set (gh_decided g)" "de_decision_id d' = de_decision_id d" using ok by blast
    then show False using decided(5) fresh by (force simp: rev_image_eqI)
  qed
  have "d = decide (pc_engine cf) (de_decision_id d) (pm_now e) r" using m(1) fresh by simp
  then have "\<exists>now. d' = decide (pc_engine cf) (de_decision_id d') now r'" if "(d', r') \<in> set (gh_decided g @ [(d, r)])" for d' r'
    using ok that by auto
  moreover have "contexts_ok (cs_values (ps_contexts st)) (gh_decided g @ [(d, r)]) (gh_issued g)"
    using contexts_ok_put ok new by (simp add: m(2))
  moreover have "\<exists>d' r'. (d', r') \<in> set (gh_decided g @ [(d, r)]) \<and> de_decision_id d' = i \<and> token_for (pc_issuer cf) d' r' t"
    if "(i, t) \<in> set (gh_issued g)" for i t using ok that by (metis Un_iff set_append)
  ultimately show ?thesis using ok unfolding policy_run_ok_def decided(1) by simp
next
  case (undecided e body x st)
  then show ?thesis using assms(2) decide_handler_failed [OF undecided(2)] by (simp add: policy_run_ok_def)
next
  case (authorized e body t i st)
  note ok = assms(2) [unfolded policy_run_ok_def]
  have wf: "dict_wf (cs_values (ps_contexts (gh_state g)))" using ok by (simp add: contexts_ok_def)
  note sub = authorize_contexts [OF authorized(2) wf]
  obtain d r x where i: "map_of (cs_values (ps_contexts (gh_state g))) i = Some (d, r, x)"
    "map_of (cs_values (ps_contexts st)) i = None" "token_for (pc_issuer cf) d r t"
    using authorize_issued [OF authorized(2)] by blast
  have mem: "(i, d, r, x) \<in> set (cs_values (ps_contexts (gh_state g)))" using i(1) by (rule map_of_SomeD)
  then have d: "de_decision_id d = i" "(d, r) \<in> set (gh_decided g)" "i \<notin> fst ` set (gh_issued g)"
    using ok unfolding contexts_ok_def by blast+
  have "contexts_ok (cs_values (ps_contexts st)) (gh_decided g) (gh_issued g @ [(i, t)])"
    using contexts_ok_taken ok sub i(2) by blast
  moreover have "\<exists>d r. (d, r) \<in> set (gh_decided g) \<and> de_decision_id d = j \<and> token_for (pc_issuer cf) d r u"
    if "(j, u) \<in> set (gh_issued g @ [(i, t)])" for j u using that d i(3) ok by auto
  moreover have "distinct (map fst (gh_issued g @ [(i, t)]))" using ok d(3) by simp
  ultimately show ?thesis using ok unfolding policy_run_ok_def authorized(1) by simp
next
  case (unauthorized e body r st)
  have "dict_wf (cs_values (ps_contexts (gh_state g)))" using assms(2) by (simp add: policy_run_ok_def contexts_ok_def)
  note sub = authorize_contexts [OF unauthorized(2) this]
  then show ?thesis using assms(2) contexts_ok_sub unfolding policy_run_ok_def unauthorized(1) by auto
next
  case (outside l w)
  then show ?thesis using assms(2) by (simp add: policy_run_ok_def)
qed

lemma policy_reachable_ok: "policy_reachable cf g \<Longrightarrow> policy_run_ok cf g"
proof (induction rule: policy_reachable.induct)
  case (start st)
  then show ?case by (simp add: policy_run_ok_def contexts_ok_def)
next
  case (step g g')
  then show ?case by (blast intro: policy_step_ok)
qed

section \<open>Properties\<close>

text \<open>What an issued token says is what was decided.\<close>

lemma issued_token_decided:
  assumes "policy_reachable cf g" "(i, t) \<in> set (gh_issued g)" "decode_token (ai_secret (pc_issuer cf)) t = Inr c"
  shows "\<exists>d r. (d, r) \<in> set (gh_decided g) \<and> de_decision_id d = i \<and> de_outcome d = ALLOW \<and> contactable (pc_engine cf) r \<and>
      cl_decision_id c = i \<and> cl_tenant_id c = cr_tenant_id r \<and> cl_contact_id c = cr_contact_id r \<and>
      cl_campaign_version_id c = cr_campaign_version_id r \<and>
      cl_content_hash c = cr_content_hash r \<and> cl_channel c = channel_value (cr_channel r) \<and>
      cl_aud c = adapter_audience (cr_channel r) \<and> cl_exp c \<le> cl_iat c + 300 \<and>
      cl_iat c \<le> epoch_seconds (de_decided_at d) + ai_max_decision_age_seconds (pc_issuer cf)"
proof -
  note ok = policy_reachable_ok [OF assms(1), unfolded policy_run_ok_def]
  obtain d r where d: "(d, r) \<in> set (gh_decided g)" "de_decision_id d = i" "token_for (pc_issuer cf) d r t"
    using ok assms(2) by blast
  obtain now where now: "d = decide (pc_engine cf) (de_decision_id d) now r" using ok d(1) by blast
  have allow: "de_outcome d = ALLOW" using d(3) by (simp add: token_for_def)
  have con: "contactable (pc_engine cf) r"
    using allow decide_outcome [of "pc_engine cf" "de_decision_id d" now r] now by (auto split: if_splits)
  obtain ttl iat jti where t: "ttl \<le> 300" "iat - epoch_seconds (de_decided_at d) \<le> ai_max_decision_age_seconds (pc_issuer cf)"
    "t = sign_claims (ai_secret (pc_issuer cf)) (issued_claims (pc_issuer cf) d r (adapter_audience (cr_channel r)) ttl iat jti)"
    using d(3) by (auto simp: token_for_def)
  have c: "c = issued_claims (pc_issuer cf) d r (adapter_audience (cr_channel r)) ttl iat jti"
    using assms(3) by (simp add: t(3) decode_signed)
  have "cl_decision_id c = i" "cl_tenant_id c = cr_tenant_id r" "cl_contact_id c = cr_contact_id r"
    "cl_campaign_version_id c = cr_campaign_version_id r"
    "cl_content_hash c = cr_content_hash r" "cl_channel c = channel_value (cr_channel r)"
    "cl_aud c = adapter_audience (cr_channel r)" "cl_exp c \<le> cl_iat c + 300"
    "cl_iat c \<le> epoch_seconds (de_decided_at d) + ai_max_decision_age_seconds (pc_issuer cf)"
    using t(1,2) d(2) by (simp_all add: c issued_claims_def)
  then show ?thesis using d(1,2) allow con by blast
qed

text \<open>
  C5: what a token of this gateway is worth. When a channel adapter that has the gateway's secret accepts a token the gateway gave out,
  the token belongs to one decision that the policy took and that allows contact: its request is
  contactable, the claims are those of the request (tenant, contact, content, channel), it is
  used by the adapter of that channel and within its five minutes. No decision gave two tokens.
\<close>

theorem accepted_token_authorized:
  assumes "policy_reachable cf g" "(i, t) \<in> set (gh_issued g)"
    and "verify_and_consume consume (ai_secret (pc_issuer cf)) issuer t audience expected clock s = (Inr c, s')"
  shows "(\<exists>d r. (d, r) \<in> set (gh_decided g) \<and> de_decision_id d = i \<and> de_outcome d = ALLOW \<and> contactable (pc_engine cf) r \<and>
      cl_decision_id c = i \<and> cl_tenant_id c = cr_tenant_id r \<and> cl_contact_id c = cr_contact_id r \<and>
      cl_content_hash c = cr_content_hash r \<and> cl_channel c = channel_value (cr_channel r) \<and>
      audience = adapter_audience (cr_channel r) \<and> clock < cl_iat c + 300 \<and>
      cl_iat c \<le> epoch_seconds (de_decided_at d) + ai_max_decision_age_seconds (pc_issuer cf)) \<and>
    (\<forall>t'. (i, t') \<in> set (gh_issued g) \<longrightarrow> t' = t)"
proof -
  have v: "decode_token (ai_secret (pc_issuer cf)) t = Inr c" "cl_aud c = audience" "clock < cl_exp c"
    using assms(3) by (auto simp: verify_accepted_iff check_claims_ok_iff)
  have "\<forall>t'. (i, t') \<in> set (gh_issued g) \<longrightarrow> t' = t"
    using policy_reachable_ok [OF assms(1), unfolded policy_run_ok_def] assms(2) by (meson eq_key_imp_eq_value)
  then show ?thesis using issued_token_decided [OF assms(1,2) v(1)] v(2,3) by fastforce
qed

text \<open>A configuration of the development mode, a request to decide and one to authorize.\<close>

definition example_policy :: "(mem_ledger, unit) policy_config" where
  "example_policy = \<lparr>pc_engine = default_engine, pc_evidence = None, pc_durable = False,
     pc_issuer = \<lparr>ai_secret = replicate 32 (CHR ''k''), ai_issuer = ''atlantis-policy-gateway'', ai_max_decision_age_seconds = 120\<rparr>,
     pc_register = (\<lambda>e. mem_register), pc_fromisoformat = (\<lambda>_. Some 0), pc_uuid5 = (\<lambda>s. s), pc_repr = (\<lambda>_. []),
     pc_float_int = (\<lambda>_. Inr 0)\<rparr>"

definition example_body :: "(string \<times> json) list" where
  "example_body = [(''tenant_id'', JStr ''t''), (''contact_id'', JStr ''c''), (''campaign_version_id'', JStr ''v''),
     (''purpose'', JStr ''SERVICE''), (''channel'', JStr ''VOICE''), (''content_hash'', JStr ''h''), (''requested_at'', JStr ''2026''),
     (''campaign_approved'', JBool True), (''approved_content_hash'', JStr ''h''), (''local_hour'', JInt 10)]"

definition example_contact :: contact_request where
  "example_contact = \<lparr>cr_tenant_id = ''t'', cr_contact_id = ''c'', cr_campaign_version_id = ''v'', cr_purpose = ''SERVICE'',
     cr_channel = VOICE, cr_content_hash = ''h'', cr_requested_at = 0, cr_campaign_approved = True,
     cr_approved_content_hash = Some ''h'', cr_internally_suppressed = False, cr_frequency_exhausted = False,
     cr_kill_switch = False, cr_consent_active = None, cr_template_approved = None, cr_conversation_window_open = None,
     cr_repep_snapshot_valid = None, cr_repep_listed = None, cr_repep_enabled = False, cr_repep_exemption_type = None,
     cr_repep_exemption_approved = None, cr_repep_exemption_evidence_ref = None, cr_local_hour = Some 10, cr_metadata = []\<rparr>"

lemma example_contact_of: "contact_request_of (\<lambda>_. Some 0) example_body = Inr example_contact"
  by (simp add: contact_request_of_def channel_field_def moment_field_def body_item_def example_body_def contact_fields_def
      channel_of_def string_field_def maybe_string_def maybe_int_def object_field_def truth_field_def exact_field_def
      dict_get_or_def example_contact_def)

lemma example_contactable: "contactable default_engine example_contact"
proof -
  have "py_upper ''SERVICE'' = ''SERVICE''" by code_simp
  then show ?thesis by (simp add: contactable_def default_engine_def example_contact_def promotional_def)
qed

lemma example_token:
  "\<exists>g t. policy_reachable example_policy g \<and> gh_issued g = [(''d'', t)] \<and>
    t = sign_claims (replicate 32 (CHR ''k'')) (issued_claims (pc_issuer example_policy) (decide default_engine ''d'' 0 example_contact)
      example_contact ''voice-adapter'' 120 0 ''j'')"
proof -
  let ?st = "\<lparr>ps_contexts = \<lparr>cs_ttl_seconds = 120, cs_max_entries = 10, cs_values = []\<rparr>, ps_ledger = ledger_init,
    ps_decisions = \<lparr>dd_intents = [], dd_decisions = [], dd_audit = []\<rparr>, ps_world = ()\<rparr>"
  let ?e = "\<lambda>i. \<lparr>pm_pg = \<lparr>pg_now = 0, pg_fault = None\<rparr>, pm_now = 0, pm_clock = 0, pm_fresh = i\<rparr>"
  let ?d = "decide default_engine ''d'' 0 example_contact"
  let ?ctx = "\<lparr>cs_ttl_seconds = 120, cs_max_entries = 10, cs_values = [(''d'', ?d, example_contact, 120 :: real)]\<rparr>"
  have a: "adapter_audience VOICE = ''voice-adapter''" by code_simp
  have cfg: "pc_fromisoformat example_policy = (\<lambda>_. Some 0)" "pc_evidence example_policy = None" "pc_durable example_policy = False"
    "pc_engine example_policy = default_engine" "pc_register example_policy = (\<lambda>e. mem_register)"
    by (simp_all add: example_policy_def)
  have i: "de_decision_id ?d = ''d''" "de_decided_at ?d = 0" by (simp_all add: decide_def Let_def)
  have put: "context_put 0 ?d example_contact \<lparr>cs_ttl_seconds = 120, cs_max_entries = 10, cs_values = []\<rparr> = ?ctx"
    by (simp add: context_put_def Let_def context_prune_def i)
  have res: "resolve_body example_policy example_body ?st = (Inr example_body, ?st)" by (simp add: resolve_body_def cfg)
  have con: "contact_request_of (pc_fromisoformat example_policy) example_body = Inr example_contact" by (simp add: cfg example_contact_of)
  have dec: "decide_handler example_policy (?e ''d'') example_body ?st = (Inr (200, ?d), ?st\<lparr>ps_contexts := ?ctx\<rparr>)"
    by (simp add: decide_handler_def res example_contact_of record_decision_def cfg put)
  have allow: "de_outcome ?d = ALLOW" by (simp add: decide_outcome example_contactable)
  let ?t = "sign_claims (replicate 32 (CHR ''k'')) (issued_claims (pc_issuer example_policy) ?d example_contact ''voice-adapter'' 120 0 ''j'')"
  let ?auth = "[(''decision_id'', JStr ''d''), (''tenant_id'', JStr ''t''), (''audience'', JStr ''voice-adapter'')]"
  have "issue_token mem_register (pc_issuer example_policy) ?d example_contact ''voice-adapter'' 120 0 ''j'' ledger_init =
      (Inr ?t, ledger_register ''j'' ledger_init)"
    unfolding issue_token_Inr using allow i a
    by (simp add: epoch_seconds_def mem_register_def issued_claims_def) (simp add: example_policy_def example_contact_def a)
  then have tok: "issue_for example_policy (?e ''j'') ?auth ?d example_contact ledger_init =
      (Inr ?t, ledger_register ''j'' ledger_init)"
    by (simp add: issue_for_def body_item_def dict_get_or_def cfg)
  have take: "take_context 0 (JStr ''d'') (JStr ''t'') ?ctx = (Inr (Some (?d, example_contact)), ?ctx\<lparr>cs_values := []\<rparr>)"
    by (simp add: take_context_def context_take_def Let_def example_contact_def)
  let ?g = "\<lparr>gh_state = ?st\<lparr>ps_contexts := ?ctx\<rparr>, gh_decided = [(?d, example_contact)], gh_issued = []\<rparr>"
  obtain st where auth: "authorize_handler example_policy (?e ''j'') ?auth (gh_state ?g) =
      (Inr (201, JsonBody (JObj [(''token'', JStr ?t), (''decision_id'', JStr ''d'')])), st)"
    by (simp add: authorize_handler_def body_item_def take tok)
  have "policy_reachable example_policy \<lparr>gh_state = ?st, gh_decided = [], gh_issued = []\<rparr>"
    by (rule policy_reachable.start) simp
  moreover have "policy_step example_policy \<lparr>gh_state = ?st, gh_decided = [], gh_issued = []\<rparr> ?g"
    using policy_step.decided [of example_policy example_body "\<lparr>gh_state = ?st, gh_decided = [], gh_issued = []\<rparr>" example_body ?st
        example_contact "?e ''d''" 200 ?d "?st\<lparr>ps_contexts := ?ctx\<rparr>"] res con dec by simp
  ultimately have "policy_reachable example_policy ?g" by (rule policy_reachable.step)
  moreover have "policy_step example_policy ?g (?g\<lparr>gh_state := st, gh_issued := gh_issued ?g @ [(''d'', ?t)]\<rparr>)"
    using auth by (rule policy_step.authorized)
  ultimately have "policy_reachable example_policy (?g\<lparr>gh_state := st, gh_issued := gh_issued ?g @ [(''d'', ?t)]\<rparr>)"
    by (rule policy_reachable.step)
  then show ?thesis by (intro exI [of _ "?g\<lparr>gh_state := st, gh_issued := gh_issued ?g @ [(''d'', ?t)]\<rparr>"] exI [of _ ?t]) simp
qed

theorem accepted_token_authorized_witness:
  "\<exists>g t c s'. policy_reachable example_policy g \<and> (''d'', t) \<in> set (gh_issued g) \<and>
    verify_and_consume (\<lambda>c s. (Inr True, s)) (replicate 32 (CHR ''k'')) ''atlantis-policy-gateway'' t ''voice-adapter'' [] 60 () =
      (Inr c, s') \<and> cl_contact_id c = ''c'' \<and>
    (\<exists>r. contactable default_engine r \<and> cr_contact_id r = ''c'')"
proof -
  obtain g t where g: "policy_reachable example_policy g" "gh_issued g = [(''d'', t)]"
    "t = sign_claims (replicate 32 (CHR ''k'')) (issued_claims (pc_issuer example_policy) (decide default_engine ''d'' 0 example_contact)
      example_contact ''voice-adapter'' 120 0 ''j'')"
    using example_token by blast
  let ?c = "issued_claims (pc_issuer example_policy) (decide default_engine ''d'' 0 example_contact) example_contact ''voice-adapter'' 120 0 ''j''"
  have secret: "ai_secret (pc_issuer example_policy) = replicate 32 (CHR ''k'')" "ai_issuer (pc_issuer example_policy) = ''atlantis-policy-gateway''"
    "pc_engine example_policy = default_engine" by (simp_all add: example_policy_def)
  have v: "verify_and_consume (\<lambda>c s. (Inr True, s)) (replicate 32 (CHR ''k'')) ''atlantis-policy-gateway'' t ''voice-adapter'' [] 60 () =
      (Inr ?c, ())"
    by (simp add: verify_accepted_iff g(3) decode_signed check_claims_ok_iff issued_claims_def secret)
  have "cl_contact_id ?c = ''c''" by (simp add: issued_claims_def example_contact_def)
  moreover obtain r where "contactable default_engine r" "cl_contact_id ?c = cr_contact_id r"
    using accepted_token_authorized [OF g(1), of "''d''" t "\<lambda>c s. (Inr True, s)" "''atlantis-policy-gateway''" "''voice-adapter''" "[]" 60 "()" ?c "()"]
      v g(2) secret by auto
  moreover have "(''d'', t) \<in> set (gh_issued g)" using g(2) by simp
  ultimately show ?thesis using g(1) v by metis
qed

text \<open>
  With an evidence service, what the caller says of approval, suppression, consent and the
  registry does not matter: those fields of the request are the CRM's, and one the CRM does not
  give counts against contact.
\<close>

theorem evidence_overrides_caller:
  assumes "evidence_resolve post body w = (Inr body', w')" "contact_request_of parse_moment body' = Inr r"
  shows "\<exists>evidence. fst (post ''/v1/contactability-evidence''
        ([(k, the (map_of body k)). k \<leftarrow> [''tenant_id'', ''contact_id'', ''campaign_version_id'', ''channel'', ''purpose'']] @
          [(''phone_token'', dict_get_or JNull body ''phone_token'')]) w) = Inr (JObj evidence) \<and>
    cr_campaign_approved r = truthy (dict_get_or (JBool False) evidence ''campaign_approved'') \<and>
    cr_internally_suppressed r = truthy (dict_get_or (JBool True) evidence ''suppressed'') \<and>
    (cr_consent_active r = Some True \<longleftrightarrow> map_of evidence ''consent_active'' = Some (JBool True)) \<and>
    cr_repep_enabled r = truthy (dict_get_or (JBool False) evidence ''repep_enabled'') \<and>
    (cr_repep_snapshot_valid r = Some True \<longleftrightarrow> map_of evidence ''repep_snapshot_valid'' = Some (JBool True)) \<and>
    (cr_repep_listed r = Some False \<longleftrightarrow> map_of evidence ''repep_listed'' = Some (JBool False)) \<and>
    (\<forall>h. cr_approved_content_hash r = Some h \<longleftrightarrow> map_of evidence ''approved_content_hash'' = Some (JStr h))"
proof -
  obtain required evidence w1 where q:
    "body_items body [''tenant_id'', ''contact_id'', ''campaign_version_id'', ''channel'', ''purpose''] = Inr required"
    "post ''/v1/contactability-evidence'' (required @ [(''phone_token'', dict_get_or JNull body ''phone_token'')]) w = (Inr (JObj evidence), w1)"
    "body' = apply_evidence evidence body"
    using assms(1) by (auto simp: evidence_resolve_def split: sum.splits prod.splits json.splits)
  have required: "required = [(k, the (map_of body k)). k \<leftarrow> [''tenant_id'', ''contact_id'', ''campaign_version_id'', ''channel'', ''purpose'']]"
    using q(1) by (auto simp: rbind_Inr_iff body_item_def)
  have m: "map_of body' ''campaign_approved'' = Some (dict_get_or (JBool False) evidence ''campaign_approved'')"
    "map_of body' ''internally_suppressed'' = Some (dict_get_or (JBool True) evidence ''suppressed'')"
    "map_of body' ''consent_active'' = Some (dict_get_or (JBool False) evidence ''consent_active'')"
    "map_of body' ''repep_enabled'' = Some (dict_get_or (JBool False) evidence ''repep_enabled'')"
    "map_of body' ''repep_snapshot_valid'' = Some (dict_get_or (JBool False) evidence ''repep_snapshot_valid'')"
    "map_of body' ''repep_listed'' = Some (dict_get_or JNull evidence ''repep_listed'')"
    "map_of body' ''approved_content_hash'' = Some (dict_get_or JNull evidence ''approved_content_hash'')"
    by (simp_all add: q(3) apply_evidence_def evidence_fields_def dict_simps)
  have exact: "exact_field body' k = Some b \<longleftrightarrow> map_of evidence n = Some (JBool b)"
    if "map_of body' k = Some (dict_get_or v evidence n)" "v \<noteq> JBool b" for k n v b
    using that by (auto simp: exact_field_def dict_get_or_def split: option.splits json.splits)
  obtain approved where r: "maybe_string body' ''approved_content_hash'' = Inr approved" "cr_approved_content_hash r = approved"
    "cr_campaign_approved r = truth_field body' ''campaign_approved''"
    "cr_internally_suppressed r = truth_field body' ''internally_suppressed''" "cr_repep_enabled r = truth_field body' ''repep_enabled''"
    "cr_consent_active r = exact_field body' ''consent_active''" "cr_repep_snapshot_valid r = exact_field body' ''repep_snapshot_valid''"
    "cr_repep_listed r = exact_field body' ''repep_listed''"
    using assms(2) by (auto simp: contact_request_of_def rbind_Inr_iff split: if_splits)
  have "(\<forall>h. approved = Some h \<longleftrightarrow> map_of evidence ''approved_content_hash'' = Some (JStr h))"
    using r(1) m(7) by (auto simp: maybe_string_def dict_get_or_def split: option.splits json.splits)
  then show ?thesis using q(2) required r exact [OF m(3)] exact [OF m(5)] exact [OF m(6)] m
    by (intro exI [of _ evidence]) (simp add: truth_field_def dict_get_or_def)
qed

theorem evidence_overrides_caller_witness:
  "\<exists>r. contact_request_of (\<lambda>_. Some 0) (apply_evidence [] example_body) = Inr r \<and> truth_field example_body ''campaign_approved'' \<and>
    \<not> cr_campaign_approved r \<and> cr_internally_suppressed r \<and> cr_approved_content_hash r = None"
proof -
  let ?post = "\<lambda>path required w :: unit. (Inr (JObj []) :: json res, w)"
  have e: "evidence_resolve ?post example_body () = (Inr (apply_evidence [] example_body), ())"
    by (simp add: evidence_resolve_def body_item_def example_body_def)
  obtain r where r: "contact_request_of (\<lambda>_. Some 0) (apply_evidence [] example_body) = Inr r"
    by (simp add: contact_request_of_def channel_field_def moment_field_def body_item_def example_body_def contact_fields_def
        channel_of_def string_field_def maybe_string_def maybe_int_def object_field_def apply_evidence_def evidence_fields_def
        dict_get_or_def)
  have "truth_field example_body ''campaign_approved''" by (simp add: truth_field_def example_body_def dict_get_or_def)
  then show ?thesis using r evidence_overrides_caller [OF e r] by (auto simp: dict_get_or_def)
qed

text \<open>
  C39: the evidence call reads \<open>phone_token\<close> from the request, but a request that carries one is not
  a \<open>ContactabilityRequest\<close>: the decision fails with an exception, for every body and every evidence,
  and nothing is decided or kept.
\<close>

theorem phone_token_never_decided:
  assumes "map_of body ''phone_token'' = Some v"
  shows "\<exists>x st'. decide_handler cf e body st = (Inl x, st') \<and> ps_contexts st' = ps_contexts st \<and> ps_decisions st' = ps_decisions st"
proof -
  have kept: "map_of body1 ''phone_token'' = Some v" if e: "evidence_resolve post body w = (Inr body1, w')" for post w w' body1
  proof -
    obtain evidence where "body1 = apply_evidence evidence body"
      using e by (auto simp: evidence_resolve_def split: sum.splits prod.splits json.splits)
    then show ?thesis using assms by (simp add: apply_evidence_def evidence_fields_def dict_simps)
  qed
  obtain b st1 where res: "resolve_body cf body st = (b, st1)" by fastforce
  have st1: "ps_contexts st1 = ps_contexts st" "ps_decisions st1 = ps_decisions st"
    using res by (auto simp: resolve_body_def split: option.splits prod.splits)
  show ?thesis
  proof (cases b)
    case (Inl x)
    then show ?thesis using res st1 by (simp add: decide_handler_def)
  next
    case (Inr body1)
    then have "map_of body1 ''phone_token'' = Some v"
      using res assms kept by (auto simp: resolve_body_def split: option.splits prod.splits)
    then have key: "''phone_token'' \<in> set (map fst body1)" by (metis map_of_eq_None_iff option.distinct(1) set_map)
    have "''phone_token'' \<notin> set contact_fields" by (simp add: contact_fields_def)
    then have "\<not> set (map fst body1) \<subseteq> set contact_fields" using key by blast
    then have "\<exists>x. contact_request_of (pc_fromisoformat cf) body1 = Inl x"
      unfolding contact_request_of_def by (cases "channel_field body1"; cases "moment_field (pc_fromisoformat cf) body1") auto
    then show ?thesis using res st1 Inr by (auto simp: decide_handler_def)
  qed
qed

theorem phone_token_never_decided_witness:
  "\<exists>x st. decide_handler example_policy \<lparr>pm_pg = \<lparr>pg_now = 0, pg_fault = None\<rparr>, pm_now = 0, pm_clock = 0, pm_fresh = ''d''\<rparr>
      (example_body @ [(''phone_token'', JStr ''p'')]) st = (Inl x, st)"
proof -
  let ?st = "\<lparr>ps_contexts = \<lparr>cs_ttl_seconds = 120, cs_max_entries = 10, cs_values = []\<rparr>, ps_ledger = ledger_init,
    ps_decisions = \<lparr>dd_intents = [], dd_decisions = [], dd_audit = []\<rparr>, ps_world = ()\<rparr>"
  have "map_of (example_body @ [(''phone_token'', JStr ''p'')]) ''phone_token'' = Some (JStr ''p'')" by (simp add: example_body_def)
  from phone_token_never_decided [OF this, of example_policy "\<lparr>pm_pg = \<lparr>pg_now = 0, pg_fault = None\<rparr>, pm_now = 0, pm_clock = 0, pm_fresh = ''d''\<rparr>" ?st] obtain x st'
    where st: "decide_handler example_policy \<lparr>pm_pg = \<lparr>pg_now = 0, pg_fault = None\<rparr>, pm_now = 0, pm_clock = 0, pm_fresh = ''d''\<rparr>
      (example_body @ [(''phone_token'', JStr ''p'')]) ?st = (Inl x, st')" by blast
  have "st' = ?st"
    using st by (auto simp: decide_handler_def resolve_body_def example_policy_def record_decision_def Let_def split: sum.splits)
  then show ?thesis using st by blast
qed

text \<open>
  Outside shadow mode the gateway starts only with a signing secret of at least 32 bytes that was
  configured, a PostgreSQL ledger, and an HTTPS connection to the CRM's evidence with a secret of its
  own; contexts are kept no longer than the issuer accepts decisions.
\<close>

theorem policy_start_fails_closed:
  assumes "policy_start urlparse read_bytes dsn_of env = Inr su" "\<not> env_true env ''ATLANTIS_SHADOW_MODE'' ''true''"
  shows "su_dsn su \<noteq> [] \<and> dsn_of env = Inr (su_dsn su) \<and> 32 \<le> length (ai_secret (su_issuer su)) \<and>
    (given (env ''ATLANTIS_JIT_SECRET_FILE'') \<or> given (env ''ATLANTIS_JIT_SECRET'')) \<and>
    (\<exists>sc u. su_evidence su = Some sc \<and> urlparse (the (env ''ATLANTIS_CRM_EVIDENCE_URL'')) = Some u \<and> pu_scheme u = ''https'' \<and>
      sv_service_id sc = ''policy-gateway'' \<and> 32 \<le> length (sv_secret sc)) \<and>
    cs_ttl_seconds (su_contexts su) = of_int (ai_max_decision_age_seconds (su_issuer su)) \<and>
    1 \<le> ai_max_decision_age_seconds (su_issuer su) \<and> ai_max_decision_age_seconds (su_issuer su) \<le> 300"
proof -
  obtain secret evidence where p: "load_secret read_bytes env = Inr secret" "dsn_of env = Inr (su_dsn su)"
    "evidence_startup urlparse read_bytes env = Inr evidence" "su_dsn su \<noteq> []" "su_evidence su = evidence"
    "ai_secret (su_issuer su) = secret" "32 \<le> length secret"
    "cs_ttl_seconds (su_contexts su) = of_int (ai_max_decision_age_seconds (su_issuer su))"
    "1 \<le> ai_max_decision_age_seconds (su_issuer su)" "ai_max_decision_age_seconds (su_issuer su) \<le> 300"
    using assms by (auto simp: policy_start_def rbind_Inr_iff issuer_init_def split: if_splits)
  have "given (env ''ATLANTIS_JIT_SECRET_FILE'') \<or> given (env ''ATLANTIS_JIT_SECRET'')"
    using p(1) assms(2) by (auto simp: load_secret_def split: if_splits)
  moreover have "\<exists>sc u. evidence = Some sc \<and> urlparse (the (env ''ATLANTIS_CRM_EVIDENCE_URL'')) = Some u \<and> pu_scheme u = ''https'' \<and>
      sv_service_id sc = ''policy-gateway'' \<and> 32 \<le> length (sv_secret sc)"
    using p(3) assms(2)
    by (auto simp: evidence_startup_def rbind_Inr_iff client_init_def Let_def http_hosts_def split: if_splits option.splits)
  ultimately show ?thesis using p by blast
qed

text \<open>A production environment, and what its evidence address is parsed to.\<close>

definition example_env :: environ where
  "example_env = [''ATLANTIS_ENV'' \<mapsto> ''production'', ''ATLANTIS_SHADOW_MODE'' \<mapsto> ''false'',
     ''ATLANTIS_JIT_SECRET_FILE'' \<mapsto> ''f'', ''ATLANTIS_CRM_EVIDENCE_URL'' \<mapsto> ''u'',
     ''ATLANTIS_EVIDENCE_WORKLOAD_SECRET_FILE'' \<mapsto> ''f'']"

theorem policy_start_fails_closed_witness:
  "let url = \<lparr>pu_scheme = ''https'', pu_hostname = Some ''crm'', pu_username = None, pu_password = None, pu_port = None,
        pu_path = [], pu_query = [], pu_fragment = []\<rparr>;
       read = (\<lambda>_. Inr (replicate 32 (CHR ''s''))) in
   (\<exists>su. policy_start (\<lambda>_. Some url) read (\<lambda>_. Inr ''dsn'') example_env = Inr su \<and> su_evidence su \<noteq> None \<and> su_dsn su \<noteq> []) \<and>
   policy_start (\<lambda>_. Some url) read (\<lambda>_. Inr []) example_env = raise RuntimeError ''POSTGRES_AUTHORIZATION_LEDGER_REQUIRED''"
proof -
  let ?url = "\<lparr>pu_scheme = ''https'', pu_hostname = Some ''crm'', pu_username = None, pu_password = None, pu_port = None,
        pu_path = [], pu_query = [], pu_fragment = []\<rparr>"
  let ?read = "\<lambda>_ :: string. Inr (replicate 32 (CHR ''s'')) :: bytes res"
  have t: "py_lower ''false'' = ''false''" "py_int ''120'' = Some 120" "py_int ''10000'' = Some 10000"
    "bytes_strip (replicate 32 (CHR ''s'')) = replicate 32 (CHR ''s'')" by code_simp+
  have shadow: "\<not> env_true example_env ''ATLANTIS_SHADOW_MODE'' ''true''" by (simp add: env_true_def getenv_def example_env_def t)
  have g: "given (example_env ''ATLANTIS_JIT_SECRET_FILE'')" "given (example_env ''ATLANTIS_CRM_EVIDENCE_URL'')"
    "given (example_env ''ATLANTIS_EVIDENCE_WORKLOAD_SECRET_FILE'')" by (simp_all add: given_def example_env_def)
  have n: "env_int example_env ''ATLANTIS_DECISION_MAX_AGE_SECONDS'' ''120'' = Inr 120"
    "env_int example_env ''ATLANTIS_DECISION_CONTEXT_MAX_ENTRIES'' ''10000'' = Inr 10000"
    by (simp_all add: env_int_def getenv_def example_env_def t)
  have ev: "\<exists>sc. evidence_startup (\<lambda>_. Some ?url) ?read example_env = Inr (Some sc)"
    using g by (simp add: evidence_startup_def t client_init_def given_def)
  obtain su where su: "policy_start (\<lambda>_. Some ?url) ?read (\<lambda>_. Inr ''dsn'') example_env = Inr su"
    using ev g by (auto simp: policy_start_def load_secret_def t n issuer_init_def)
  have "policy_start (\<lambda>_. Some ?url) ?read (\<lambda>_. Inr []) example_env = raise RuntimeError ''POSTGRES_AUTHORIZATION_LEDGER_REQUIRED''"
    using ev g shadow by (auto simp: policy_start_def load_secret_def t)
  then show ?thesis using su policy_start_fails_closed [OF su shadow] by (auto simp: Let_def)
qed

end
