(* ===== verification/ChannelServer.thy ===== *)
theory ChannelServer
  imports Providers Webhook PolicyServer
begin

text \<open>
  services/channel\_adapters/app: the voice and WhatsApp adapters of voice.py and whatsapp.py and the
  process of server.py with its three modes. An adapter hands a command to the provider only after
  the token verifier has consumed an authorization for it; a webhook is taken only after its
  signature was verified and its event was new. What a request reads besides its body (clocks,
  database, fresh identifiers) is the record \<open>channel_env\<close>, what the process reads from outside
  (environment, files, network) the record \<open>channel_host\<close>.
\<close>

section \<open>State and configuration\<close>

text \<open>The ledger of the token consumer: the database, or the identifiers seen in shadow mode.\<close>

record channel_tokens =
  kt_db :: auth_db
  kt_seen :: "string set"

definition channel_consume :: "bool \<Rightarrow> pg_env \<Rightarrow> claims \<Rightarrow> channel_tokens \<Rightarrow> bool res \<times> channel_tokens" where
  "channel_consume durable e c k =
     (if durable then (case pg_token_consume e c (kt_db k) of (r, db) \<Rightarrow> (r, k\<lparr>kt_db := db\<rparr>))
      else (case shadow_consume (cl_jti c) (kt_seen k) of (r, seen) \<Rightarrow> (r, k\<lparr>kt_seen := seen\<rparr>)))"

definition channel_spent :: "bool \<Rightarrow> channel_tokens \<Rightarrow> string \<Rightarrow> bool" where
  "channel_spent durable k j \<longleftrightarrow> (if durable then nonce_spent (kt_db k) j else j \<in> kt_seen k)"

lemma channel_consume_simps:
  "channel_consume True e c k = (fst (pg_token_consume e c (kt_db k)), k\<lparr>kt_db := snd (pg_token_consume e c (kt_db k))\<rparr>)"
  "channel_consume False e c k = (fst (shadow_consume (cl_jti c) (kt_seen k)), k\<lparr>kt_seen := snd (shadow_consume (cl_jti c) (kt_seen k))\<rparr>)"
  by (simp_all add: channel_consume_def split: prod.splits)

interpretation channel_ledger: single_use "channel_consume durable" "\<lambda>k. auth_db_ok (kt_db k)" "channel_spent durable"
  for durable
  by (unfold_locales; cases durable)
    (simp_all add: channel_consume_simps channel_spent_def pg_token.ok_consume pg_token.consume_spends pg_token.spent_refused
      pg_token.spent_stays shadow.consume_spends shadow.spent_refused shadow.spent_stays)

datatype channel_provider =
    VicidialProvider vicidial_transport
  | NeobotProvider neobot_transport
  | MetaProvider meta_transport

text \<open>\<open>transport.originate\<close> and \<open>transport.send\<close>.\<close>

fun provider_contact ::
  "'w network \<Rightarrow> channel_provider \<Rightarrow> (string \<times> json) list \<Rightarrow> string \<Rightarrow> 'w \<Rightarrow> json res \<times> 'w" where
  "provider_contact net (VicidialProvider t) = vicidial_originate net t"
| "provider_contact net (NeobotProvider t) = neobot_originate net t"
| "provider_contact net (MetaProvider t) = meta_send net t"

record channel_config =
  cc_mode :: string
  cc_shadow :: bool
  cc_dsn :: string
  cc_secret :: bytes
  cc_issuer :: string
  cc_inbox_tenant :: "string option"
  cc_provider :: "channel_provider option"
  cc_marketia :: "marketia_transport option"
  cc_event_ttl :: int
  cc_event_max :: int
  cc_workload :: "((string, bytes) dict \<times> store_choice) option"
  cc_rate_limit :: int
  cc_port :: int

record 'w channel_state =
  ks_tokens :: channel_tokens
  ks_receipts :: "receipt_row list"
  ks_event_ids :: "(string \<times> string, unit) ttl_map"
  ks_world :: 'w

record channel_env =
  ce_pg :: pg_env
  ce_fresh :: "string \<times> string"
  ce_clock :: int
  ce_monotonic :: "real \<times> real"

record 'w channel_host =
  ch_net :: "'w network"
  ch_env :: environ
  ch_read_text :: "string \<Rightarrow> string res"
  ch_read_bytes :: "string \<Rightarrow> bytes res"

section \<open>The adapters\<close>

definition claim_keys :: "string list" where
  "claim_keys = [''tenant_id'', ''contact_id'', ''campaign_version_id'', ''content_hash'']"

text \<open>A token that is no text fails inside the \<open>try\<close> block of the verifier.\<close>

definition verify_token ::
  "channel_config \<Rightarrow> channel_env \<Rightarrow> json \<Rightarrow> string \<Rightarrow> (string \<times> json) list \<Rightarrow> channel_tokens
    \<Rightarrow> claims res \<times> channel_tokens" where
  "verify_token cf e token audience expected k =
     (case token of
        JStr t \<Rightarrow> verify_and_consume (channel_consume (cc_dsn cf \<noteq> []) (ce_pg e)) (cc_secret cf) (cc_issuer cf) t audience expected
          (ce_clock e) k
      | _ \<Rightarrow> (raise TokenError ''MALFORMED_TOKEN'', k))"

definition shadow_accepted :: "claims \<Rightarrow> json" where
  "shadow_accepted c = JObj [(''status'', JStr ''SHADOW_ACCEPTED''), (''jti'', JStr (cl_jti c))]"

text \<open>What \<open>VoiceAdapter.originate\<close> and \<open>WhatsAppAdapter.send\<close> share.\<close>

definition guarded_contact ::
  "string \<Rightarrow> string \<Rightarrow> 'w channel_host \<Rightarrow> channel_config \<Rightarrow> channel_env \<Rightarrow> json \<Rightarrow> (string \<times> json) list \<Rightarrow> 'w channel_state
    \<Rightarrow> json res \<times> 'w channel_state" where
  "guarded_contact audience chan h cf e token command st =
     (case body_items command claim_keys of
        Inl x \<Rightarrow> (Inl x, st)
      | Inr expected \<Rightarrow>
          (case verify_token cf e token audience expected (ks_tokens st) of
             (Inl x, k) \<Rightarrow> (Inl x, st\<lparr>ks_tokens := k\<rparr>)
           | (Inr c, k) \<Rightarrow>
               (let st1 = st\<lparr>ks_tokens := k\<rparr> in
                if cl_channel c \<noteq> chan then (raise PermissionError ''CHANNEL_MISMATCH'', st1)
                else if cc_shadow cf then (Inr (shadow_accepted c), st1)
                else (case (cc_provider cf, token) of
                        (Some p, JStr t) \<Rightarrow>
                          (case provider_contact (ch_net h) p command t (ks_world st) of (r, w) \<Rightarrow> (r, st1\<lparr>ks_world := w\<rparr>))
                      | _ \<Rightarrow> (raise AttributeError ''NoneType'', st1)))))"

definition voice_originate ::
  "'w channel_host \<Rightarrow> channel_config \<Rightarrow> channel_env \<Rightarrow> json \<Rightarrow> (string \<times> json) list \<Rightarrow> 'w channel_state
    \<Rightarrow> json res \<times> 'w channel_state" where
  "voice_originate = guarded_contact ''voice-adapter'' ''VOICE''"

definition whatsapp_send ::
  "'w channel_host \<Rightarrow> channel_config \<Rightarrow> channel_env \<Rightarrow> json \<Rightarrow> (string \<times> json) list \<Rightarrow> 'w channel_state
    \<Rightarrow> json res \<times> 'w channel_state" where
  "whatsapp_send = guarded_contact ''whatsapp-adapter'' ''WHATSAPP''"

section \<open>The endpoints\<close>

text \<open>\<open>except TokenError\<close>.\<close>

definition token_reply :: "exn \<Rightarrow> (int \<times> reply_body) res" where
  "token_reply x =
     (if exn_cls x = TokenError then Inr (if exn_msg x = ''TOKEN_REPLAY'' then 409 else 403, error_body (exn_msg x)) else Inl x)"

definition contact_endpoint_of ::
  "(json \<Rightarrow> (string \<times> json) list \<Rightarrow> 'w channel_state \<Rightarrow> json res \<times> 'w channel_state) \<Rightarrow> (string \<times> json) list \<Rightarrow> 'w channel_state
    \<Rightarrow> (int \<times> reply_body) res \<times> 'w channel_state" where
  "contact_endpoint_of contact body st =
     (case body_item body ''authorization_token'' of
        Inl x \<Rightarrow> (Inl x, st)
      | Inr token \<Rightarrow>
          (case contact token (dict_pop ''authorization_token'' body) st of
             (Inl x, st1) \<Rightarrow> (token_reply x, st1)
           | (Inr j, st1) \<Rightarrow> (Inr (202, JsonBody j), st1)))"

definition voice_call ::
  "'w channel_host \<Rightarrow> channel_config \<Rightarrow> channel_env \<Rightarrow> (string \<times> json) list \<Rightarrow> 'w channel_state
    \<Rightarrow> (int \<times> reply_body) res \<times> 'w channel_state" where
  "voice_call h cf e = contact_endpoint_of (voice_originate h cf e)"

definition whatsapp_message ::
  "'w channel_host \<Rightarrow> channel_config \<Rightarrow> channel_env \<Rightarrow> (string \<times> json) list \<Rightarrow> 'w channel_state
    \<Rightarrow> (int \<times> reply_body) res \<times> 'w channel_state" where
  "whatsapp_message h cf e = contact_endpoint_of (whatsapp_send h cf e)"

definition marketia_sync ::
  "'w channel_host \<Rightarrow> channel_config \<Rightarrow> (string \<times> json) list \<Rightarrow> 'w channel_state \<Rightarrow> (int \<times> reply_body) res \<times> 'w channel_state" where
  "marketia_sync h cf body st =
     (case rbind (body_item body ''payload'') (\<lambda>p. rbind (body_item body ''contract_version'') (marketia_ingest p)) of
        Inl x \<Rightarrow> (Inl x, st)
      | Inr clean \<Rightarrow>
          (if cc_shadow cf then (Inr (202, JsonBody (JObj [(''status'', JStr ''SHADOW_ACCEPTED''), (''payload'', JObj clean)])), st)
           else (case cc_marketia cf of
               None \<Rightarrow> (raise AttributeError ''push'', st)
             | Some t \<Rightarrow>
                 (case rbind (body_item body ''entity_type'') (\<lambda>a. rbind (body_item body ''entity_id'') (\<lambda>b.
                         rbind (body_item body ''version'') (\<lambda>v. Inr (a, b, v)))) of
                    Inl x \<Rightarrow> (Inl x, st)
                  | Inr (a, b, v) \<Rightarrow>
                      (case marketia_push (ch_net h) t a b v (JObj clean) (ks_world st) of
                         (Inl x, w) \<Rightarrow> (Inl x, st\<lparr>ks_world := w\<rparr>)
                       | (Inr j, w) \<Rightarrow> (Inr (202, JsonBody j), st\<lparr>ks_world := w\<rparr>))))))"

subsection \<open>Webhooks\<close>

definition channel_secret :: "'w channel_host \<Rightarrow> string \<Rightarrow> bool \<Rightarrow> bytes res" where
  "channel_secret h name required =
     (let file = ch_env h (name @ ''_FILE'') in
      rbind (if given file then rbind (ch_read_bytes h (the file)) (\<lambda>raw. Inr (bytes_strip raw)) else Inr (getenv (ch_env h) name []))
        (\<lambda>secret. if required \<and> length secret < 32 then raise RuntimeError (name @ ''_REQUIRED'') else Inr secret))"

definition channel_text_secret :: "'w channel_host \<Rightarrow> string \<Rightarrow> string res" where
  "channel_text_secret h name =
     (let file = ch_env h (name @ ''_FILE'') in
      if given file then rbind (ch_read_text h (the file)) (\<lambda>raw. Inr (py_strip raw)) else Inr (getenv (ch_env h) name []))"

text \<open>\<open>remember\<close>: the inbox, or in shadow mode the bounded set.\<close>

definition channel_remember ::
  "channel_config \<Rightarrow> channel_env \<Rightarrow> string \<Rightarrow> string \<Rightarrow> string \<Rightarrow> 'w channel_state \<Rightarrow> bool res \<times> 'w channel_state" where
  "channel_remember cf e provider event_id body_hash st =
     (case cc_inbox_tenant cf of
        Some tenant \<Rightarrow>
          (case pg_inbox_remember tenant (ce_pg e, ce_fresh e) provider event_id body_hash (ks_receipts st) of
             (r, rows) \<Rightarrow> (r, st\<lparr>ks_receipts := rows\<rparr>))
      | None \<Rightarrow>
          (if \<not> cc_shadow cf then (raise RuntimeError ''POSTGRES_WEBHOOK_INBOX_REQUIRED'', st)
           else (case ttl_inbox (ce_monotonic e) provider event_id body_hash (ks_event_ids st) of
                   (r, m) \<Rightarrow> (r, st\<lparr>ks_event_ids := m\<rparr>))))"

definition receipt_json :: "verified_webhook \<Rightarrow> json" where
  "receipt_json v = JObj [(''provider'', JStr (vw_provider v)), (''event_id'', JStr (vw_event_id v)),
     (''body_hash'', JStr (vw_body_hash v)), (''received_at'', JInt (vw_received_at v))]"

text \<open>\<open>except WebhookError\<close>.\<close>

definition webhook_reply :: "verified_webhook res \<times> 's \<Rightarrow> (int \<times> reply_body) res \<times> 's" where
  "webhook_reply rs =
     (case rs of
        (Inl x, s) \<Rightarrow> (if exn_cls x = WebhookError then Inr (401, error_body (exn_msg x)) else Inl x, s)
      | (Inr v, s) \<Rightarrow> (Inr (202, JsonBody (receipt_json v)), s))"

definition meta_webhook ::
  "'w channel_host \<Rightarrow> channel_config \<Rightarrow> channel_env \<Rightarrow> request_context \<Rightarrow> 'w channel_state \<Rightarrow> (int \<times> reply_body) res \<times> 'w channel_state" where
  "meta_webhook h cf e request st =
     (case channel_secret h ''META_APP_SECRET'' True of
        Inl x \<Rightarrow> (Inl x, st)
      | Inr secret \<Rightarrow>
          webhook_reply (verify_meta (channel_remember cf e) [(''meta'', secret)] (ce_clock e) (rq_body request)
            (dict_get_or [] (rq_headers request) ''x-hub-signature-256'') (dict_get_or [] (rq_headers request) ''x-meta-event-id'') st))"

definition webhook_secret_name :: "string \<Rightarrow> string" where
  "webhook_secret_name provider = map (\<lambda>c. if c = CHR ''-'' then CHR ''_'' else c) (py_upper provider) @ ''_WEBHOOK_SECRET''"

definition generic_webhook ::
  "string \<Rightarrow> 'w channel_host \<Rightarrow> channel_config \<Rightarrow> channel_env \<Rightarrow> request_context \<Rightarrow> 'w channel_state
    \<Rightarrow> (int \<times> reply_body) res \<times> 'w channel_state" where
  "generic_webhook provider h cf e request st =
     (case channel_secret h (webhook_secret_name provider) True of
        Inl x \<Rightarrow> (Inl x, st)
      | Inr secret \<Rightarrow>
          (let hs = rq_headers request in
           webhook_reply (verify_generic (channel_remember cf e) [(provider, secret)] 300 (ce_clock e) provider (rq_body request)
             (dict_get_or [] hs ''x-webhook-signature'') (dict_get_or [] hs ''x-webhook-timestamp'')
             (dict_get_or [] hs ''x-webhook-event-id'') st)))"

text \<open>\<open>query.get(name, [""])[0]\<close>; \<open>parse_qs\<close> gives no empty list.\<close>

definition query_first :: "(string, string list) dict \<Rightarrow> string \<Rightarrow> string res" where
  "query_first query name =
     (case dict_get_or [[]] query name of [] \<Rightarrow> raise IndexError ''list index out of range'' | v # vs \<Rightarrow> Inr v)"

definition meta_challenge ::
  "'w channel_host \<Rightarrow> request_context \<Rightarrow> 'w channel_state \<Rightarrow> (int \<times> reply_body) res \<times> 'w channel_state" where
  "meta_challenge h request st =
     (rbind (channel_text_secret h ''META_WEBHOOK_VERIFY_TOKEN'') (\<lambda>expected.
      rbind (query_first (rq_query request) ''hub.verify_token'') (\<lambda>supplied.
      rbind (query_first (rq_query request) ''hub.mode'') (\<lambda>hub_mode.
        if hub_mode \<noteq> ''subscribe'' \<or> expected = [] \<or> supplied \<noteq> expected
        then Inr (403, error_body ''WEBHOOK_CHALLENGE_DENIED'')
        else rbind (query_first (rq_query request) ''hub.challenge'') (\<lambda>challenge.
          Inr (200, RawBody challenge ''text/plain; charset=utf-8''))))), st)"

definition channel_health :: "channel_config \<Rightarrow> (string \<times> json) list \<Rightarrow> 's \<Rightarrow> (int \<times> reply_body) res \<times> 's" where
  "channel_health cf body st =
     (Inr (200, JsonBody (JObj [(''status'', JStr ''ok''), (''service'', JStr (cc_mode cf @ ''-adapter'')),
        (''shadow_mode'', JBool (cc_shadow cf))])), st)"

section \<open>The router\<close>

definition webhook_paths :: "string set" where
  "webhook_paths = {''/v1/webhooks/meta/whatsapp'', ''/v1/webhooks/vicidial'', ''/v1/webhooks/atlantis-neobot'', ''/v1/webhooks/marketia''}"

definition register_generic_webhook ::
  "'w channel_host \<Rightarrow> channel_config \<Rightarrow> channel_env \<Rightarrow> string \<Rightarrow> 'w channel_state router \<Rightarrow> 'w channel_state router" where
  "register_generic_webhook h cf e provider =
     route ''POST'' (''/v1/webhooks/'' @ provider) (RawHandler (generic_webhook provider h cf e))"

definition channel_routes ::
  "'w channel_host \<Rightarrow> channel_config \<Rightarrow> channel_env \<Rightarrow> 'w channel_state router \<Rightarrow> 'w channel_state router" where
  "channel_routes h cf e =
     (if cc_mode cf = ''voice''
      then register_generic_webhook h cf e ''atlantis-neobot'' \<circ> register_generic_webhook h cf e ''vicidial'' \<circ>
        route ''POST'' ''/v1/voice/calls'' (PlainHandler (voice_call h cf e))
      else if cc_mode cf = ''whatsapp''
      then route ''POST'' ''/v1/webhooks/meta/whatsapp'' (RawHandler (meta_webhook h cf e)) \<circ>
        route ''GET'' ''/v1/webhooks/meta/whatsapp'' (RawHandler (meta_challenge h)) \<circ>
        route ''POST'' ''/v1/whatsapp/messages'' (PlainHandler (whatsapp_message h cf e))
      else if cc_mode cf = ''marketia''
      then register_generic_webhook h cf e ''marketia'' \<circ> route ''POST'' ''/v1/marketia/sync'' (PlainHandler (marketia_sync h cf))
      else (\<lambda>r. r)) \<circ>
     route ''GET'' ''/health'' (PlainHandler (channel_health cf)) \<circ>
     require_idempotency [''/v1/voice/calls'', ''/v1/whatsapp/messages'', ''/v1/marketia/sync'']"

section \<open>Start of the process\<close>

definition environ_item :: "environ \<Rightarrow> string \<Rightarrow> string res" where
  "environ_item env name = of_option (Exn KeyError name) (env name)"

text \<open>\<open>{urlparse(url).hostname}\<close>.\<close>

definition hosts_of :: "'w channel_host \<Rightarrow> string \<Rightarrow> allowed_hosts res" where
  "hosts_of h url = of_option (Exn ValueError ''URL'') (map_option (\<lambda>u. {pu_hostname u}) (nw_urlparse (ch_net h) url))"

definition voice_provider :: "'w channel_host \<Rightarrow> channel_provider res" where
  "voice_provider h =
     (let env = ch_env h; name = getenv env ''VOICE_PROVIDER'' ''vicidial'' in
      if name = ''vicidial'' then
        rbind (environ_item env ''VICIDIAL_API_URL'') (\<lambda>endpoint.
        rbind (hosts_of h endpoint) (\<lambda>hosts.
        rbind (environ_item env ''VICIDIAL_API_USER'') (\<lambda>user.
        rbind (channel_text_secret h ''VICIDIAL_API_PASSWORD'') (\<lambda>password.
        rbind (vicidial_init hosts endpoint user password) (\<lambda>t. Inr (VicidialProvider t))))))
      else if name = ''atlantis-neobot'' then
        rbind (environ_item env ''NEOBOT_API_URL'') (\<lambda>endpoint.
        rbind (hosts_of h endpoint) (\<lambda>hosts.
        rbind (channel_text_secret h ''NEOBOT_API_TOKEN'') (\<lambda>api_token.
        rbind (neobot_init hosts endpoint api_token) (\<lambda>t. Inr (NeobotProvider t)))))
      else raise RuntimeError ''VOICE_PROVIDER_NOT_APPROVED'')"

definition whatsapp_provider :: "'w channel_host \<Rightarrow> channel_provider res" where
  "whatsapp_provider h =
     (let env = ch_env h in
      rbind (environ_item env ''META_GRAPH_BASE_URL'') (\<lambda>base_url.
      rbind (hosts_of h base_url) (\<lambda>hosts.
      rbind (environ_item env ''META_GRAPH_VERSION'') (\<lambda>version.
      rbind (environ_item env ''META_PHONE_NUMBER_ID'') (\<lambda>number.
      rbind (channel_text_secret h ''META_ACCESS_TOKEN'') (\<lambda>token.
      rbind (meta_init hosts base_url version number token) (\<lambda>t. Inr (MetaProvider t))))))))"

definition marketia_start :: "'w channel_host \<Rightarrow> marketia_transport res" where
  "marketia_start h =
     rbind (environ_item (ch_env h) ''MARKETIA_BASE_URL'') (\<lambda>base_url.
     rbind (hosts_of h base_url) (\<lambda>hosts.
     rbind (channel_text_secret h ''MARKETIA_API_TOKEN'') (\<lambda>token. marketia_init hosts base_url token)))"

text \<open>The transport of the mode: \<open>None\<close> in shadow mode and in the other modes.\<close>

definition started_for :: "bool \<Rightarrow> 'a res \<Rightarrow> 'a option res" where
  "started_for needed r = (if needed then rbind r (\<lambda>a. Inr (Some a)) else Inr None)"

definition mode_port :: "'w channel_host \<Rightarrow> string \<Rightarrow> int res" where
  "mode_port h mode =
     rbind (of_option (Exn KeyError mode) (map_of [(''voice'', ''8085''), (''whatsapp'', ''8086''), (''marketia'', ''8087'')] mode))
       (env_int (ch_env h) ''PORT'')"

definition channel_transports :: "'w channel_host \<Rightarrow> string \<Rightarrow> bool \<Rightarrow> (channel_provider option \<times> marketia_transport option) res" where
  "channel_transports h mode shadow =
     rbind (started_for (mode = ''voice'' \<and> \<not> shadow) (voice_provider h)) (\<lambda>voice.
     rbind (started_for (mode = ''whatsapp'' \<and> \<not> shadow) (whatsapp_provider h)) (\<lambda>whatsapp.
     rbind (started_for (mode = ''marketia'' \<and> \<not> shadow) (marketia_start h)) (\<lambda>marketia.
       Inr (if mode = ''voice'' then voice else whatsapp, marketia))))"

text \<open>The bounds of the set of events, and what the middlewares are started with.\<close>

definition channel_settings ::
  "(environ \<Rightarrow> string res) \<Rightarrow> 'w channel_host \<Rightarrow> (int \<times> int \<times> ((string, bytes) dict \<times> store_choice) option \<times> int) res" where
  "channel_settings dsn_of h =
     rbind (env_int (ch_env h) ''ATLANTIS_WEBHOOK_DEDUP_TTL_SECONDS'' ''86400'') (\<lambda>ttl.
     rbind (env_int (ch_env h) ''ATLANTIS_WEBHOOK_DEDUP_MAX_ENTRIES'' ''20000'') (\<lambda>max_entries.
     rbind (configure_workload_auth (ch_read_text h) dsn_of (ch_env h)) (\<lambda>workload.
     rbind (configure_rate_limit (ch_env h)) (\<lambda>limit. Inr (ttl, max_entries, workload, limit)))))"

definition channel_verifier_secret :: "'w channel_host \<Rightarrow> string \<Rightarrow> bytes res" where
  "channel_verifier_secret h mode =
     rbind (channel_secret h ''ATLANTIS_JIT_SECRET'' (mode \<in> {''voice'', ''whatsapp''})) (\<lambda>jit_secret.
     rbind (if jit_secret = [] then Inr () else token_verifier_init jit_secret) (\<lambda>_. Inr jit_secret))"

definition inbox_tenant :: "environ \<Rightarrow> string \<Rightarrow> string option" where
  "inbox_tenant env dsn =
     (if dsn \<noteq> [] \<and> given (env ''ATLANTIS_WEBHOOK_TENANT_ID'') then env ''ATLANTIS_WEBHOOK_TENANT_ID'' else None)"

definition channel_start :: "(environ \<Rightarrow> string res) \<Rightarrow> 'w channel_host \<Rightarrow> channel_config res" where
  "channel_start dsn_of h =
     (let env = ch_env h; mode = getenv env ''ADAPTER_MODE'' ''marketia''; shadow = env_true env ''ATLANTIS_SHADOW_MODE'' ''true'' in
      rbind (dsn_of env) (\<lambda>dsn.
        if \<not> shadow \<and> dsn = [] then raise RuntimeError ''POSTGRES_REQUIRED_OUTSIDE_SHADOW_MODE''
        else
          rbind (channel_verifier_secret h mode) (\<lambda>jit_secret.
          rbind (channel_settings dsn_of h) (\<lambda>(ttl, max_entries, workload, limit).
          rbind (channel_transports h mode shadow) (\<lambda>(provider, marketia).
          rbind (mode_port h mode) (\<lambda>port.
            Inr \<lparr>cc_mode = mode, cc_shadow = shadow, cc_dsn = dsn, cc_secret = jit_secret,
              cc_issuer = getenv env ''ATLANTIS_TOKEN_ISSUER'' ''atlantis-policy-gateway'',
              cc_inbox_tenant = inbox_tenant env dsn, cc_provider = provider, cc_marketia = marketia, cc_event_ttl = ttl,
              cc_event_max = max_entries, cc_workload = workload, cc_rate_limit = limit, cc_port = port\<rparr>))))))"

end
