(* ===== verification/ChannelContacts.thy ===== *)
theory ChannelContacts
  imports ChannelServer
begin

text \<open>
  What the channel adapters guarantee: a provider is reached under an authorization only and once
  for each, by TLS at the configured host; webhooks are authentic and taken once; a process outside
  shadow mode starts with all of its protection. \<open>'w\<close> is any type of worlds: that a request reached
  the network is that it changed the world.
\<close>

section \<open>What a contact needs\<close>

lemma body_items_Inr:
  "body_items body ks = Inr kvs \<Longrightarrow> map fst kvs = ks \<and> (\<forall>(k, v) \<in> set kvs. map_of body k = Some v)"
  by (induction ks arbitrary: kvs) (auto simp: rbind_Inr_iff body_item_def of_option_def split: option.splits)

text \<open>The command names what the claims name.\<close>

definition command_claims :: "claims \<Rightarrow> (string \<times> json) list \<Rightarrow> bool" where
  "command_claims c command \<longleftrightarrow>
     map_of command ''tenant_id'' = Some (JStr (cl_tenant_id c)) \<and> map_of command ''contact_id'' = Some (JStr (cl_contact_id c)) \<and>
     map_of command ''campaign_version_id'' = Some (JStr (cl_campaign_version_id c)) \<and>
     map_of command ''content_hash'' = Some (JStr (cl_content_hash c))"

lemma expected_claims:
  assumes "body_items command claim_keys = Inr expected" "\<forall>(k, v) \<in> set expected. claim_attr c k = v"
  shows "command_claims c command"
proof -
  have e: "map fst expected = claim_keys" "\<forall>(k, v) \<in> set expected. map_of command k = Some v"
    using body_items_Inr [OF assms(1)] by blast+
  have "map_of command k = Some (claim_attr c k)" if "k \<in> set claim_keys" for k
    using that e assms(2) unfolding e(1) [symmetric] by fastforce
  then show ?thesis by (simp add: command_claims_def claim_keys_def claim_attr_def claims_dict_def)
qed

fun contact_handler ::
  "channel \<Rightarrow> 'w channel_host \<Rightarrow> channel_config \<Rightarrow> channel_env \<Rightarrow> (string \<times> json) list \<Rightarrow> 'w channel_state
    \<Rightarrow> (int \<times> reply_body) res \<times> 'w channel_state" where
  "contact_handler VOICE = voice_call"
| "contact_handler WHATSAPP = whatsapp_message"

lemma contact_handler_eq:
  "contact_handler chan h cf e = contact_endpoint_of (guarded_contact (adapter_audience chan) (channel_value chan) h cf e)"
proof -
  have "adapter_audience VOICE = ''voice-adapter''" "adapter_audience WHATSAPP = ''whatsapp-adapter''" by code_simp+
  then show ?thesis by (cases chan) (simp_all add: voice_call_def voice_originate_def whatsapp_message_def whatsapp_send_def)
qed

fun provider_hosts :: "channel_provider \<Rightarrow> allowed_hosts" where
  "provider_hosts (VicidialProvider t) = vi_hosts t"
| "provider_hosts (NeobotProvider t) = nb_hosts t"
| "provider_hosts (MetaProvider t) = mt_hosts t"

fun provider_url :: "channel_provider \<Rightarrow> string" where
  "provider_url (VicidialProvider t) = vi_api_url t"
| "provider_url (NeobotProvider t) = nb_endpoint t"
| "provider_url (MetaProvider t) = mt_url t"

lemma provider_pinned:
  "snd (provider_contact net p command t w) \<noteq> w \<Longrightarrow> url_pinned net (provider_hosts p) (provider_url p)"
  by (cases p) (auto simp: vicidial_originate_def neobot_originate_def meta_send_def post_pinned split: sum.splits)

abbreviation channel_verify ::
  "channel_config \<Rightarrow> channel_env \<Rightarrow> string \<Rightarrow> string \<Rightarrow> (string \<times> json) list \<Rightarrow> channel_tokens \<Rightarrow> claims res \<times> channel_tokens" where
  "channel_verify cf e t audience expected \<equiv>
     verify_and_consume (channel_consume (cc_dsn cf \<noteq> []) (ce_pg e)) (cc_secret cf) (cc_issuer cf) t audience expected (ce_clock e)"

text \<open>The ledger moves by the verifier alone, and the world only after it has accepted.\<close>

lemma guarded_contact_tokens:
  assumes "guarded_contact audience chan h cf e token command st = (r, st')"
  shows "ks_tokens st' = ks_tokens st \<or>
    (\<exists>t expected. ks_tokens st' = snd (channel_verify cf e t audience expected (ks_tokens st)))"
  using assms unfolding guarded_contact_def verify_token_def
  by (auto simp: Let_def split: sum.splits prod.splits json.splits if_splits option.splits) (metis snd_conv)+

lemma guarded_contact_world:
  assumes "guarded_contact audience chan h cf e token command st = (r, st')" "ks_world st' \<noteq> ks_world st"
  shows "\<exists>t expected c p. token = JStr t \<and> body_items command claim_keys = Inr expected \<and>
    channel_verify cf e t audience expected (ks_tokens st) = (Inr c, ks_tokens st') \<and> cl_channel c = chan \<and> \<not> cc_shadow cf \<and>
    cc_provider cf = Some p \<and> ks_world st' = snd (provider_contact (ch_net h) p command t (ks_world st))"
  using assms unfolding guarded_contact_def verify_token_def
  by (auto simp: Let_def split: sum.splits prod.splits json.splits if_splits option.splits)

lemma guarded_contact_accepted:
  assumes "body_items command claim_keys = Inr expected" "channel_verify cf e t audience expected (ks_tokens st) = (Inr c, k)"
    and "cl_channel c = chan" "\<not> cc_shadow cf" "cc_provider cf = Some p"
  shows "guarded_contact audience chan h cf e (JStr t) command st =
    (fst (provider_contact (ch_net h) p command t (ks_world st)),
     st\<lparr>ks_tokens := k, ks_world := snd (provider_contact (ch_net h) p command t (ks_world st))\<rparr>)"
  using assms(3-5) by (simp add: guarded_contact_def verify_token_def assms(1,2) split: prod.splits)

lemma contact_endpoint_state:
  "map_of body ''authorization_token'' = Some token \<Longrightarrow>
     snd (contact_endpoint_of contact body st) = snd (contact token (dict_pop ''authorization_token'' body) st)"
  by (simp add: contact_endpoint_of_def body_item_def split: prod.splits sum.splits)

lemma contact_handler_cases:
  assumes "contact_handler chan h cf e body st = (r, st')"
  obtains "st' = st" | token r' where "map_of body ''authorization_token'' = Some token"
    "guarded_contact (adapter_audience chan) (channel_value chan) h cf e token (dict_pop ''authorization_token'' body) st = (r', st')"
  using assms unfolding contact_handler_eq contact_endpoint_of_def body_item_def
  by (auto simp: of_option_def split: option.splits sum.splits prod.splits)

lemma pop_keeps_claims: "command_claims c (dict_pop ''authorization_token'' body) = command_claims c body"
  by (simp add: command_claims_def dict_simps)

lemma contact_handler_world:
  assumes "contact_handler chan h cf e body st = (r, st')" "ks_world st' \<noteq> ks_world st"
  shows "\<exists>t expected c p. map_of body ''authorization_token'' = Some (JStr t) \<and>
    body_items (dict_pop ''authorization_token'' body) claim_keys = Inr expected \<and>
    channel_verify cf e t (adapter_audience chan) expected (ks_tokens st) = (Inr c, ks_tokens st') \<and>
    cl_channel c = channel_value chan \<and> command_claims c body \<and> \<not> cc_shadow cf \<and> cc_provider cf = Some p \<and>
    ks_world st' = snd (provider_contact (ch_net h) p (dict_pop ''authorization_token'' body) t (ks_world st))"
  using assms(1)
proof (cases rule: contact_handler_cases)
  case 1
  then show ?thesis using assms(2) by simp
next
  case (2 token r')
  obtain t expected c p where c: "token = JStr t" "body_items (dict_pop ''authorization_token'' body) claim_keys = Inr expected"
    "channel_verify cf e t (adapter_audience chan) expected (ks_tokens st) = (Inr c, ks_tokens st')"
    "cl_channel c = channel_value chan" "\<not> cc_shadow cf" "cc_provider cf = Some p"
    "ks_world st' = snd (provider_contact (ch_net h) p (dict_pop ''authorization_token'' body) t (ks_world st))"
    using guarded_contact_world [OF 2(2) assms(2)] by blast
  have "command_claims c (dict_pop ''authorization_token'' body)"
    using c(3) by (intro expected_claims [OF c(2)]) (simp add: verify_accepted_iff check_claims_ok_iff expected_mismatch_None)
  then show ?thesis using 2(1) c unfolding pop_keeps_claims by blast
qed

text \<open>
  C4: a provider is called only under an authorization: a call or message that reaches the network
  comes with a token that has this deployment's signature, names this adapter, channel, tenant, contact,
  campaign version and content hash, has not expired and was not used before, and that is used up
  by it; it goes by TLS to the host the process was started with, and never in shadow mode.
\<close>

theorem contact_needs_authorization:
  assumes "contact_handler chan h cf e body st = (r, st')" "ks_world st' \<noteq> ks_world st" "auth_db_ok (kt_db (ks_tokens st))"
  shows "\<not> cc_shadow cf \<and>
    (\<exists>t c p. map_of body ''authorization_token'' = Some (JStr t) \<and> decode_token (cc_secret cf) t = Inr c \<and>
      cl_iss c = cc_issuer cf \<and> cl_aud c = adapter_audience chan \<and> cl_channel c = channel_value chan \<and> ce_clock e < cl_exp c \<and>
      command_claims c body \<and> \<not> channel_spent (cc_dsn cf \<noteq> []) (ks_tokens st) (cl_jti c) \<and>
      channel_spent (cc_dsn cf \<noteq> []) (ks_tokens st') (cl_jti c) \<and>
      cc_provider cf = Some p \<and> url_pinned (ch_net h) (provider_hosts p) (provider_url p))"
proof -
  obtain t expected c p where c: "map_of body ''authorization_token'' = Some (JStr t)"
    "channel_verify cf e t (adapter_audience chan) expected (ks_tokens st) = (Inr c, ks_tokens st')"
    "cl_channel c = channel_value chan" "command_claims c body" "\<not> cc_shadow cf" "cc_provider cf = Some p"
    "ks_world st' = snd (provider_contact (ch_net h) p (dict_pop ''authorization_token'' body) t (ks_world st))"
    using contact_handler_world [OF assms(1,2)] by blast
  have "decode_token (cc_secret cf) t = Inr c" "cl_iss c = cc_issuer cf" "cl_aud c = adapter_audience chan" "ce_clock e < cl_exp c"
    using c(2) by (simp_all add: verify_accepted_iff check_claims_ok_iff)
  moreover note channel_ledger.accepted_fresh [OF assms(3) c(2)]
  moreover have "url_pinned (ch_net h) (provider_hosts p) (provider_url p)"
    by (rule provider_pinned) (use assms(2) c(7) in simp)
  ultimately show ?thesis using c(1,3-6) by blast
qed

section \<open>One contact for one authorization\<close>

text \<open>The token identifier a request presents.\<close>

definition authorization_of :: "channel_config \<Rightarrow> (string \<times> json) list \<Rightarrow> string option" where
  "authorization_of cf body =
     (case map_of body ''authorization_token'' of
        Some (JStr t) \<Rightarrow> (case decode_token (cc_secret cf) t of Inr c \<Rightarrow> Some (cl_jti c) | Inl _ \<Rightarrow> None)
      | _ \<Rightarrow> None)"

text \<open>A sequence of requests, and for each that reached a provider the authorization it presented.\<close>

fun contact_run ::
  "'w channel_host \<Rightarrow> channel_config \<Rightarrow> (channel_env \<times> channel \<times> (string \<times> json) list) list \<Rightarrow> 'w channel_state
    \<Rightarrow> string option list \<times> 'w channel_state" where
  "contact_run h cf [] st = ([], st)"
| "contact_run h cf ((e, chan, body) # rest) st =
     (case contact_handler chan h cf e body st of
        (_, st1) \<Rightarrow>
          (case contact_run h cf rest st1 of
             (js, st2) \<Rightarrow> (if ks_world st1 = ks_world st then js else authorization_of cf body # js, st2)))"

lemma contact_handler_tokens:
  assumes "contact_handler chan h cf e body st = (r, st')"
  shows "ks_tokens st' = ks_tokens st \<or>
    (\<exists>t expected. ks_tokens st' = snd (channel_verify cf e t (adapter_audience chan) expected (ks_tokens st)))"
  using assms by (cases rule: contact_handler_cases) (auto dest: guarded_contact_tokens)

lemma contact_handler_ledger:
  assumes "contact_handler chan h cf e body st = (r, st')" "auth_db_ok (kt_db (ks_tokens st))"
  shows "auth_db_ok (kt_db (ks_tokens st'))"
    "channel_spent (cc_dsn cf \<noteq> []) (ks_tokens st) j \<Longrightarrow> channel_spent (cc_dsn cf \<noteq> []) (ks_tokens st') j"
  using contact_handler_tokens [OF assms(1)] channel_ledger.verify_ok [OF assms(2)] channel_ledger.verify_spent_stays [OF assms(2)] assms(2)
  by (metis prod.collapse)+

lemma contact_spends:
  assumes "contact_handler chan h cf e body st = (r, st')" "ks_world st' \<noteq> ks_world st" "auth_db_ok (kt_db (ks_tokens st))"
  shows "\<exists>j. authorization_of cf body = Some j \<and> \<not> channel_spent (cc_dsn cf \<noteq> []) (ks_tokens st) j \<and>
    channel_spent (cc_dsn cf \<noteq> []) (ks_tokens st') j"
proof -
  obtain t expected c where c: "map_of body ''authorization_token'' = Some (JStr t)"
    "channel_verify cf e t (adapter_audience chan) expected (ks_tokens st) = (Inr c, ks_tokens st')"
    using contact_handler_world [OF assms(1,2)] by blast
  have "authorization_of cf body = Some (cl_jti c)" using c by (simp add: authorization_of_def verify_accepted_iff)
  then show ?thesis using channel_ledger.accepted_fresh [OF assms(3) c(2)] by blast
qed

lemma contact_run_spent:
  assumes "auth_db_ok (kt_db (ks_tokens st))" "contact_run h cf reqs st = (js, st')"
  shows "None \<notin> set js \<and> distinct js \<and> (\<forall>j. channel_spent (cc_dsn cf \<noteq> []) (ks_tokens st) j \<longrightarrow> Some j \<notin> set js)"
  using assms
proof (induction reqs arbitrary: st js)
  case (Cons q reqs)
  obtain e chan body where q: "q = (e, chan, body)" using prod_cases3 by blast
  obtain r st1 where s: "contact_handler chan h cf e body st = (r, st1)" by fastforce
  obtain ks where k: "contact_run h cf reqs st1 = (ks, st')" using Cons.prems(2) q s by (auto split: prod.splits)
  note IH = Cons.IH [OF contact_handler_ledger(1) [OF s Cons.prems(1)] k]
  have stay: "channel_spent (cc_dsn cf \<noteq> []) (ks_tokens st) j \<Longrightarrow> channel_spent (cc_dsn cf \<noteq> []) (ks_tokens st1) j" for j
    by (rule contact_handler_ledger(2) [OF s Cons.prems(1)])
  show ?case
  proof (cases "ks_world st1 = ks_world st")
    case True
    then have "js = ks" using Cons.prems(2) q s k by simp
    then show ?thesis using IH stay by blast
  next
    case False
    then have js: "js = authorization_of cf body # ks" using Cons.prems(2) q s k by simp
    obtain j where j: "authorization_of cf body = Some j" "\<not> channel_spent (cc_dsn cf \<noteq> []) (ks_tokens st) j"
      "channel_spent (cc_dsn cf \<noteq> []) (ks_tokens st1) j"
      using contact_spends [OF s False Cons.prems(1)] by blast
    then show ?thesis using IH stay js by auto
  qed
qed simp

text \<open>
  C3: one authorization, one contact, at the provider: over any sequence of voice and WhatsApp requests, at
  any times and with any faults of the database, the requests that reached a provider presented
  authorizations that are pairwise different, with the database and with the shadow consumer.
\<close>

theorem one_contact_per_authorization:
  assumes "auth_db_ok (kt_db (ks_tokens st))" "contact_run h cf reqs st = (js, st')"
  shows "distinct js \<and> None \<notin> set js"
  using contact_run_spent [OF assms] by blast

text \<open>
  C1: the two services together: who reaches a provider with a token the policy gateway gave out
  contacts the tenant's contact, on the channel, for the campaign version and the content hash of
  a decision that the policy took and that allows contact, and soon after it.
\<close>

theorem contact_was_allowed:
  assumes "policy_reachable pc g" "(i, t) \<in> set (gh_issued g)" "cc_secret cf = ai_secret (pc_issuer pc)"
    and "contact_handler chan h cf e body st = (r, st')" "ks_world st' \<noteq> ks_world st"
    and "map_of body ''authorization_token'' = Some (JStr t)"
  shows "\<exists>d q. (d, q) \<in> set (gh_decided g) \<and> de_outcome d = ALLOW \<and> contactable (pc_engine pc) q \<and> cr_channel q = chan \<and>
    map_of body ''tenant_id'' = Some (JStr (cr_tenant_id q)) \<and> map_of body ''contact_id'' = Some (JStr (cr_contact_id q)) \<and>
    map_of body ''campaign_version_id'' = Some (JStr (cr_campaign_version_id q)) \<and>
    map_of body ''content_hash'' = Some (JStr (cr_content_hash q)) \<and>
    ce_clock e < epoch_seconds (de_decided_at d) + ai_max_decision_age_seconds (pc_issuer pc) + 300"
proof -
  obtain expected c where c: "channel_verify cf e t (adapter_audience chan) expected (ks_tokens st) = (Inr c, ks_tokens st')"
    "cl_channel c = channel_value chan" "command_claims c body"
    using contact_handler_world [OF assms(4,5)] assms(6) by auto
  have v: "decode_token (ai_secret (pc_issuer pc)) t = Inr c" "ce_clock e < cl_exp c"
    using c(1) by (simp_all add: verify_accepted_iff check_claims_ok_iff assms(3))
  obtain d q where d: "(d, q) \<in> set (gh_decided g)" "de_outcome d = ALLOW" "contactable (pc_engine pc) q"
    "cl_tenant_id c = cr_tenant_id q" "cl_contact_id c = cr_contact_id q" "cl_campaign_version_id c = cr_campaign_version_id q"
    "cl_content_hash c = cr_content_hash q" "cl_channel c = channel_value (cr_channel q)" "cl_exp c \<le> cl_iat c + 300"
    "cl_iat c \<le> epoch_seconds (de_decided_at d) + ai_max_decision_age_seconds (pc_issuer pc)"
    using issued_token_decided [OF assms(1,2) v(1)] by blast
  have "cr_channel q = chan" using d(8) c(2) by (cases "cr_channel q"; cases chan) simp_all
  moreover have "map_of body ''tenant_id'' = Some (JStr (cr_tenant_id q))" "map_of body ''contact_id'' = Some (JStr (cr_contact_id q))"
    "map_of body ''campaign_version_id'' = Some (JStr (cr_campaign_version_id q))"
    "map_of body ''content_hash'' = Some (JStr (cr_content_hash q))"
    using c(3) by (simp_all add: command_claims_def d(4-7))
  moreover have "ce_clock e < epoch_seconds (de_decided_at d) + ai_max_decision_age_seconds (pc_issuer pc) + 300"
    using v(2) d(9,10) by linarith
  ultimately show ?thesis using d(1-3) by blast
qed

section \<open>An example call\<close>

definition example_url :: parsed_url where
  "example_url = \<lparr>pu_scheme = ''https'', pu_hostname = Some ''dial'', pu_username = None, pu_password = None, pu_port = None,
     pu_path = ''/api'', pu_query = [], pu_fragment = []\<rparr>"

text \<open>A provider that counts the requests it gets.\<close>

definition example_channel_host :: "nat channel_host" where
  "example_channel_host =
     \<lparr>ch_net = \<lparr>nw_urlparse = (\<lambda>_. Some example_url), nw_open = (\<lambda>_ n. (Inr ''{}'', Suc n)), nw_repr = (\<lambda>_. [])\<rparr>,
      ch_env = [''ADAPTER_MODE'' \<mapsto> ''voice'', ''ATLANTIS_SHADOW_MODE'' \<mapsto> ''false'', ''VICIDIAL_API_URL'' \<mapsto> ''https://dial/api'',
        ''VICIDIAL_API_USER'' \<mapsto> ''u'', ''VICIDIAL_API_PASSWORD'' \<mapsto> ''p'', ''ATLANTIS_JIT_SECRET'' \<mapsto> replicate 32 (CHR ''k''),
        ''ATLANTIS_REQUIRE_WORKLOAD_AUTH'' \<mapsto> ''false''],
      ch_read_text = (\<lambda>_. raise OSError []), ch_read_bytes = (\<lambda>_. raise OSError [])\<rparr>"

definition example_provider :: channel_provider where
  "example_provider = VicidialProvider \<lparr>vi_hosts = {Some ''dial''}, vi_api_url = ''https://dial/api'', vi_user = ''u'',
     vi_password = ''p'', vi_source = ''atlantis''\<rparr>"

definition example_channel :: channel_config where
  "example_channel = \<lparr>cc_mode = ''voice'', cc_shadow = False, cc_dsn = ''dsn'', cc_secret = replicate 32 (CHR ''k''),
     cc_issuer = ''atlantis-policy-gateway'', cc_inbox_tenant = None, cc_provider = Some example_provider, cc_marketia = None,
     cc_event_ttl = 86400, cc_event_max = 20000, cc_workload = None, cc_rate_limit = 600, cc_port = 8085\<rparr>"

definition example_claims :: claims where
  "example_claims = issued_claims (pc_issuer example_policy) (decide default_engine ''d'' 0 example_contact) example_contact
     ''voice-adapter'' 120 0 ''j''"

definition example_channel_env :: channel_env where
  "example_channel_env = \<lparr>ce_pg = \<lparr>pg_now = 60, pg_fault = None\<rparr>, ce_fresh = (''r'', ''s''), ce_clock = 60, ce_monotonic = (1, 1)\<rparr>"

definition example_channel_state :: "nat channel_state" where
  "example_channel_state =
     \<lparr>ks_tokens = \<lparr>kt_db = snd (pg_register \<lparr>pg_now = 0, pg_fault = None\<rparr> example_claims []
        \<lparr>ad_rows = [], ad_audit = []\<rparr>), kt_seen = {}\<rparr>,
      ks_receipts = [], ks_event_ids = \<lparr>tm_ttl_seconds = 86400, tm_max_entries = 20000, tm_values = []\<rparr>, ks_world = 0\<rparr>"

definition example_call :: "(string \<times> json) list" where
  "example_call = [(''authorization_token'', JStr (sign_claims (replicate 32 (CHR ''k'')) example_claims)), (''tenant_id'', JStr ''t''),
     (''contact_id'', JStr ''c''), (''campaign_version_id'', JStr ''v''), (''content_hash'', JStr ''h''),
     (''recipient_e164'', JStr ''+525512345678'')]"

lemma example_claims_eq:
  "cl_jti example_claims = ''j''" "cl_iss example_claims = ''atlantis-policy-gateway''" "cl_aud example_claims = ''voice-adapter''"
  "cl_tenant_id example_claims = ''t''" "cl_contact_id example_claims = ''c''" "cl_campaign_version_id example_claims = ''v''"
  "cl_content_hash example_claims = ''h''" "cl_channel example_claims = ''VOICE''" "cl_iat example_claims = 0" "cl_exp example_claims = 120"
  by (simp_all add: example_claims_def issued_claims_def example_policy_def example_contact_def)

lemma example_ledger_ok: "auth_db_ok (kt_db (ks_tokens example_channel_state))"
  unfolding example_channel_state_def by simp (rule pg_register_ok, simp add: auth_db_ok_def)

lemma example_consumed: "\<exists>k. channel_consume True (ce_pg example_channel_env) example_claims (ks_tokens example_channel_state) = (Inr True, k)"
  by (simp add: channel_consume_simps pg_token_consume_def pg_register_def pg_run_def update_consumed_def consumable_def Let_def
      example_channel_env_def example_channel_state_def example_claims_eq)

lemma example_verified:
  "\<exists>k expected. body_items (dict_pop ''authorization_token'' example_call) claim_keys = Inr expected \<and>
     channel_verify example_channel example_channel_env (sign_claims (replicate 32 (CHR ''k'')) example_claims) ''voice-adapter'' expected
       (ks_tokens example_channel_state) = (Inr example_claims, k)"
proof -
  let ?expected = "[(''tenant_id'', JStr ''t''), (''contact_id'', JStr ''c''), (''campaign_version_id'', JStr ''v''), (''content_hash'', JStr ''h'')]"
  have b: "body_items (dict_pop ''authorization_token'' example_call) claim_keys = Inr ?expected"
    by (simp add: example_call_def claim_keys_def body_item_def)
  have m: "expected_mismatch example_claims ?expected = None"
    by (simp add: claim_attr_def claims_dict_def example_claims_eq)
  have c: "check_claims ''atlantis-policy-gateway'' ''voice-adapter'' ?expected 60 example_claims = Inr ()"
    unfolding check_claims_ok_iff using m by (simp add: example_claims_eq)
  show ?thesis
    using b example_consumed c by (simp add: verify_accepted_iff decode_signed example_channel_def example_channel_env_def)
qed

lemma example_answer:
  "ks_world (snd (contact_handler VOICE example_channel_host example_channel example_channel_env example_call example_channel_state)) = 1"
proof -
  let ?t = "sign_claims (replicate 32 (CHR ''k'')) example_claims"
  obtain k expected where v: "body_items (dict_pop ''authorization_token'' example_call) claim_keys = Inr expected"
    "channel_verify example_channel example_channel_env ?t ''voice-adapter'' expected (ks_tokens example_channel_state) = (Inr example_claims, k)"
    using example_verified by blast
  have t: "map_of example_call ''authorization_token'' = Some (JStr ?t)" by (simp add: example_call_def)
  have r: "body_item (dict_pop ''authorization_token'' example_call) ''recipient_e164'' = Inr (JStr ''+525512345678'')"
    by (simp add: example_call_def body_item_def)
  have u: "utf8_ok ''{}''" "json_loads ''{}'' = Some (JObj [])" by code_simp+
  have c: "cc_provider example_channel = Some example_provider" "\<not> cc_shadow example_channel"
    by (simp_all add: example_channel_def)
  have "snd (provider_contact (ch_net example_channel_host) example_provider (dict_pop ''authorization_token'' example_call) ?t 0) = 1"
    unfolding example_provider_def provider_contact.simps vicidial_originate_def r
    by (simp add: example_channel_host_def post_form_def validate_url_def example_url_def given_def u)
  then show ?thesis
    using guarded_contact_accepted [OF v example_claims_eq(8) c(2,1), of example_channel_host]
    by (simp add: voice_call_def voice_originate_def contact_endpoint_state [OF t]) (simp add: example_channel_state_def)
qed

theorem contact_needs_authorization_witness:
  "let st' = snd (contact_handler VOICE example_channel_host example_channel example_channel_env example_call example_channel_state) in
   ks_world st' = 1 \<and> (\<exists>j. channel_spent True (ks_tokens st') j \<and> \<not> channel_spent True (ks_tokens example_channel_state) j)"
proof -
  let ?run = "contact_handler VOICE example_channel_host example_channel example_channel_env example_call example_channel_state"
  have d: "(cc_dsn example_channel \<noteq> []) = True" by (simp add: example_channel_def)
  have w: "ks_world (snd ?run) \<noteq> ks_world example_channel_state" by (simp only: example_answer) (simp add: example_channel_state_def)
  show ?thesis
    using contact_needs_authorization [OF prod.collapse [symmetric] w example_ledger_ok, unfolded d]
    unfolding Let_def example_answer by blast
qed

theorem one_contact_per_authorization_witness:
  "\<exists>js st'. contact_run example_channel_host example_channel (replicate 2 (example_channel_env, VOICE, example_call)) example_channel_state =
      (js, st') \<and> Some ''j'' \<in> set js \<and> distinct js"
proof -
  let ?h = "contact_handler VOICE example_channel_host example_channel example_channel_env example_call"
  obtain r st1 where s: "?h example_channel_state = (r, st1)" by fastforce
  have w: "ks_world st1 \<noteq> ks_world example_channel_state" using example_answer s by (simp add: example_channel_state_def)
  have a: "authorization_of example_channel example_call = Some ''j''"
    by (simp add: authorization_of_def example_call_def example_channel_def decode_signed example_claims_eq)
  obtain js st' where run: "contact_run example_channel_host example_channel (replicate 2 (example_channel_env, VOICE, example_call))
      example_channel_state = (js, st')" by fastforce
  have "Some ''j'' \<in> set js" using run s w a by (auto simp: numeral_2_eq_2 split: prod.splits)
  then show ?thesis using run one_contact_per_authorization [OF example_ledger_ok run] by blast
qed

theorem contact_was_allowed_witness:
  "\<exists>g. policy_reachable example_policy g \<and> (''d'', sign_claims (replicate 32 (CHR ''k'')) example_claims) \<in> set (gh_issued g) \<and>
    (\<exists>d q. (d, q) \<in> set (gh_decided g) \<and> de_outcome d = ALLOW \<and> cr_contact_id q = ''c'')"
proof -
  let ?t = "sign_claims (replicate 32 (CHR ''k'')) example_claims"
  obtain g where g: "policy_reachable example_policy g" "(''d'', ?t) \<in> set (gh_issued g)"
    using example_token by (auto simp: example_claims_def)
  have k: "cc_secret example_channel = ai_secret (pc_issuer example_policy)" by (simp add: example_channel_def example_policy_def)
  have m: "map_of example_call ''authorization_token'' = Some (JStr ?t)" "map_of example_call ''contact_id'' = Some (JStr ''c'')"
    by (simp_all add: example_call_def)
  have w: "ks_world (snd (contact_handler VOICE example_channel_host example_channel example_channel_env example_call example_channel_state))
      \<noteq> ks_world example_channel_state" by (simp only: example_answer) (simp add: example_channel_state_def)
  obtain d q where "(d, q) \<in> set (gh_decided g)" "de_outcome d = ALLOW" "Some (JStr ''c'') = Some (JStr (cr_contact_id q))"
    using contact_was_allowed [OF g k prod.collapse [symmetric] w m(1)] unfolding m(2) by blast
  moreover from this have "cr_contact_id q = ''c''" by simp
  ultimately show ?thesis using g by blast
qed

section \<open>Marketia\<close>

text \<open>
  C29: what passes between the system and Marketia is the agreed contract and nothing of compliance. When anything is sent or
  answered with success, the payload has fields of the contract only, none of them a consent, a suppression, an
  approval or an authorization. In shadow mode nothing changes and the answer is exactly that payload with its status; otherwise
  what is posted is exactly the version the request names, passed on as it is, and that payload, it goes by TLS to a host of the
  transport, the answer is Marketia's own, and nothing but the world outside changes.
\<close>

theorem marketia_never_compliance:
  assumes "marketia_sync h cf body st = (r, st')" "ks_world st' \<noteq> ks_world st \<or> (\<exists>a. r = Inr a)"
  shows "\<exists>clean. fst ` set clean \<subseteq> allowed_fields \<and> fst ` set clean \<inter> protected_fields = {} \<and>
    map_of body ''contract_version'' = Some (JStr ''marketia@1'') \<and>
    (map_of body ''payload'' = Some (JObj clean) \<or> clean = [] \<and> map_of body ''payload'' \<in> {Some (JList []), Some (JStr [])}) \<and>
    (if cc_shadow cf
     then st' = st \<and> r = Inr (202, JsonBody (JObj [(''status'', JStr ''SHADOW_ACCEPTED''), (''payload'', JObj clean)]))
     else \<exists>t url version. cc_marketia cf = Some t \<and> map_of body ''version'' = Some version \<and>
       (let posted = post_json (ch_net h) (mk_hosts t) (mk_base_url t @ ''/v1/sync/'' @ url)
          [(''version'', version), (''payload'', JObj clean)] [bearer (mk_api_token t)] (ks_world st) in
        st' = st\<lparr>ks_world := snd posted\<rparr> \<and> r = rbind (fst posted) (\<lambda>j. Inr (202, JsonBody j)) \<and>
        (snd posted \<noteq> ks_world st \<longrightarrow> url_pinned (ch_net h) (mk_hosts t) (mk_base_url t @ ''/v1/sync/'' @ url))))"
proof -
  obtain clean where c: "rbind (body_item body ''payload'') (\<lambda>p. rbind (body_item body ''contract_version'') (marketia_ingest p)) = Inr clean"
    using assms by (cases "rbind (body_item body ''payload'') (\<lambda>p. rbind (body_item body ''contract_version'') (marketia_ingest p))")
      (auto simp: marketia_sync_def)
  then obtain p v where p: "map_of body ''payload'' = Some p" "map_of body ''contract_version'' = Some v" "marketia_ingest p v = Inr clean"
    by (auto simp: rbind_Inr_iff body_item_def of_option_def split: option.splits)
  have clean: "fst ` set clean \<subseteq> allowed_fields" "fst ` set clean \<inter> protected_fields = {}" "v = JStr ''marketia@1''"
    "p = JObj clean \<or> clean = [] \<and> p \<in> {JList [], JStr []}"
    using p(3) marketia_fields_clean [OF p(3)] unfolding marketia_ingest_Inr by blast+
  have "if cc_shadow cf
     then st' = st \<and> r = Inr (202, JsonBody (JObj [(''status'', JStr ''SHADOW_ACCEPTED''), (''payload'', JObj clean)]))
     else \<exists>t url version. cc_marketia cf = Some t \<and> map_of body ''version'' = Some version \<and>
       (let posted = post_json (ch_net h) (mk_hosts t) (mk_base_url t @ ''/v1/sync/'' @ url)
          [(''version'', version), (''payload'', JObj clean)] [bearer (mk_api_token t)] (ks_world st) in
        st' = st\<lparr>ks_world := snd posted\<rparr> \<and> r = rbind (fst posted) (\<lambda>j. Inr (202, JsonBody j)) \<and>
        (snd posted \<noteq> ks_world st \<longrightarrow> url_pinned (ch_net h) (mk_hosts t) (mk_base_url t @ ''/v1/sync/'' @ url)))"
  proof (cases "cc_shadow cf")
    case True
    then show ?thesis using assms(1) by (simp add: marketia_sync_def c)
  next
    case False
    let ?items = "rbind (body_item body ''entity_type'') (\<lambda>a. rbind (body_item body ''entity_id'') (\<lambda>b.
      rbind (body_item body ''version'') (\<lambda>v. Inr (a, b, v))))"
    obtain t where t: "cc_marketia cf = Some t"
      using assms False by (cases "cc_marketia cf") (auto simp: marketia_sync_def c)
    obtain a b u where i: "?items = Inr (a, b, u)"
      using assms False t by (cases ?items) (auto simp: marketia_sync_def c)
    have u: "map_of body ''version'' = Some u"
      using i by (auto simp: rbind_Inr_iff body_item_def of_option_def split: option.splits)
    let ?url = "py_str (nw_repr (ch_net h)) a @ ''/'' @ py_str (nw_repr (ch_net h)) b"
    let ?posted = "post_json (ch_net h) (mk_hosts t) (mk_base_url t @ ''/v1/sync/'' @ ?url)
          [(''version'', u), (''payload'', JObj clean)] [bearer (mk_api_token t)] (ks_world st)"
    have push: "marketia_push (ch_net h) t a b u (JObj clean) (ks_world st) = ?posted"
      using marketia_ingest_again [OF p(3)] clean(3) by (simp add: marketia_push_def)
    have "st' = st\<lparr>ks_world := snd ?posted\<rparr> \<and> r = rbind (fst ?posted) (\<lambda>j. Inr (202, JsonBody j))"
      using assms(1) False by (cases "fst ?posted"; cases ?posted) (simp_all add: marketia_sync_def c t i push)
    moreover have "snd ?posted \<noteq> ks_world st \<longrightarrow> url_pinned (ch_net h) (mk_hosts t) (mk_base_url t @ ''/v1/sync/'' @ ?url)"
      by (intro impI post_pinned(1))
    ultimately show ?thesis unfolding if_not_P [OF False] Let_def using t u
      by (intro exI [of _ t] exI [of _ ?url] exI [of _ u] conjI) simp_all
  qed
  then show ?thesis using p(1,2) clean by (intro exI [of _ clean]) auto
qed

theorem marketia_never_compliance_witness:
  "let cf = example_channel\<lparr>cc_mode := ''marketia'', cc_shadow := True\<rparr>;
       body = [(''payload'', JObj [(''utm_source'', JStr ''x'')]), (''contract_version'', JStr ''marketia@1'')]
   in fst (marketia_sync example_channel_host cf body example_channel_state) =
        Inr (202, JsonBody (JObj [(''status'', JStr ''SHADOW_ACCEPTED''), (''payload'', JObj [(''utm_source'', JStr ''x'')])])) \<and>
      fst ` set [(''utm_source'', JStr ''x'')] \<inter> protected_fields = {}"
proof -
  let ?cf = "example_channel\<lparr>cc_mode := ''marketia'', cc_shadow := True\<rparr>"
  let ?body = "[(''payload'', JObj [(''utm_source'', JStr ''x'')]), (''contract_version'', JStr ''marketia@1'')]"
  let ?r = "Inr (202, JsonBody (JObj [(''status'', JStr ''SHADOW_ACCEPTED''), (''payload'', JObj [(''utm_source'', JStr ''x'')])]))"
  have i: "marketia_ingest (JObj [(''utm_source'', JStr ''x'')]) (JStr ''marketia@1'') = Inr [(''utm_source'', JStr ''x'')]"
    by (simp add: marketia_ingest_Inr allowed_fields_def)
  have s: "marketia_sync example_channel_host ?cf ?body example_channel_state = (?r, example_channel_state)"
    by (simp add: marketia_sync_def body_item_def i)
  have "\<exists>kvs. JObj [(''utm_source'', JStr ''x'')] = JObj kvs \<and> fst ` set kvs \<inter> protected_fields = {}"
    using marketia_never_compliance [OF s] by auto
  then show ?thesis using s by (simp add: Let_def)
qed

section \<open>Start of the process\<close>

lemma channel_secret_required: "channel_secret h name True = Inr s \<Longrightarrow> 32 \<le> length s"
  by (auto simp: channel_secret_def Let_def rbind_Inr_iff split: if_splits)

lemma started_for_Inr: "started_for needed r = Inr x \<longleftrightarrow> (if needed then \<exists>a. r = Inr a \<and> x = Some a else x = None)"
  by (auto simp: started_for_def rbind_Inr_iff)

lemma hosts_of_Inr: "hosts_of h url = Inr hosts \<longleftrightarrow> (\<exists>u. nw_urlparse (ch_net h) url = Some u \<and> hosts = {pu_hostname u})"
  by (auto simp: hosts_of_def of_option_def split: option.splits)

text \<open>A transport whose hosts are the one of a configured address.\<close>

definition pinned_by :: "'w channel_host \<Rightarrow> string list \<Rightarrow> allowed_hosts \<Rightarrow> bool" where
  "pinned_by h names hosts \<longleftrightarrow>
     (\<exists>name \<in> set names. \<exists>url u. ch_env h name = Some url \<and> nw_urlparse (ch_net h) url = Some u \<and> hosts = {pu_hostname u})"

lemma environ_item_Inr: "environ_item env name = Inr v \<longleftrightarrow> env name = Some v"
  by (auto simp: environ_item_def of_option_def split: option.splits)

lemma voice_provider_pinned:
  "voice_provider h = Inr p \<Longrightarrow> pinned_by h [''VICIDIAL_API_URL'', ''NEOBOT_API_URL''] (provider_hosts p)"
  by (auto simp: voice_provider_def Let_def rbind_Inr_iff environ_item_Inr hosts_of_Inr vicidial_init_def neobot_init_def pinned_by_def
      split: if_splits)

lemma whatsapp_provider_pinned: "whatsapp_provider h = Inr p \<Longrightarrow> pinned_by h [''META_GRAPH_BASE_URL''] (provider_hosts p)"
  by (auto simp: whatsapp_provider_def Let_def rbind_Inr_iff environ_item_Inr hosts_of_Inr meta_init_def pinned_by_def
      split: if_splits)

lemma marketia_start_pinned: "marketia_start h = Inr t \<Longrightarrow> pinned_by h [''MARKETIA_BASE_URL''] (mk_hosts t)"
  by (auto simp: marketia_start_def Let_def rbind_Inr_iff environ_item_Inr hosts_of_Inr marketia_init_def pinned_by_def
      split: if_splits)

lemma channel_transports_pinned:
  assumes "channel_transports h mode False = Inr (provider, marketia)"
  shows "mode \<in> {''voice'', ''whatsapp''} \<Longrightarrow>
      \<exists>p. provider = Some p \<and> pinned_by h [''VICIDIAL_API_URL'', ''NEOBOT_API_URL'', ''META_GRAPH_BASE_URL''] (provider_hosts p)"
    and "mode = ''marketia'' \<Longrightarrow> \<exists>t. marketia = Some t \<and> pinned_by h [''MARKETIA_BASE_URL''] (mk_hosts t)"
proof -
  obtain voice whatsapp where t: "started_for (mode = ''voice'') (voice_provider h) = Inr voice"
    "started_for (mode = ''whatsapp'') (whatsapp_provider h) = Inr whatsapp" "started_for (mode = ''marketia'') (marketia_start h) = Inr marketia"
    "provider = (if mode = ''voice'' then voice else whatsapp)"
    using assms by (auto simp: channel_transports_def rbind_Inr_iff)
  show "\<exists>p. provider = Some p \<and> pinned_by h [''VICIDIAL_API_URL'', ''NEOBOT_API_URL'', ''META_GRAPH_BASE_URL''] (provider_hosts p)"
    if "mode \<in> {''voice'', ''whatsapp''}"
    using that t(1,2,4) voice_provider_pinned [of h] whatsapp_provider_pinned [of h] by (auto simp: started_for_Inr pinned_by_def)
  show "\<exists>t. marketia = Some t \<and> pinned_by h [''MARKETIA_BASE_URL''] (mk_hosts t)" if "mode = ''marketia''"
    using that t(3) marketia_start_pinned [of h] by (auto simp: started_for_Inr)
qed

text \<open>
  An adapter process outside shadow mode starts with PostgreSQL only, so every authorization it
  consumes and every event it takes is on record; voice and WhatsApp need a signing secret of at least 32 bytes and
  an approved provider, and the host of each transport is the one of its configured address.
\<close>

theorem channel_start_fails_closed:
  assumes "channel_start dsn_of h = Inr cf" "\<not> env_true (ch_env h) ''ATLANTIS_SHADOW_MODE'' ''true''"
  shows "\<not> cc_shadow cf \<and> cc_dsn cf \<noteq> [] \<and> cc_mode cf \<in> {''voice'', ''whatsapp'', ''marketia''} \<and>
    (cc_mode cf \<in> {''voice'', ''whatsapp''} \<longrightarrow> 32 \<le> length (cc_secret cf) \<and>
      (\<exists>p. cc_provider cf = Some p \<and>
        pinned_by h [''VICIDIAL_API_URL'', ''NEOBOT_API_URL'', ''META_GRAPH_BASE_URL''] (provider_hosts p))) \<and>
    (cc_mode cf = ''marketia'' \<longrightarrow> (\<exists>t. cc_marketia cf = Some t \<and> pinned_by h [''MARKETIA_BASE_URL''] (mk_hosts t)))"
proof -
  let ?mode = "getenv (ch_env h) ''ADAPTER_MODE'' ''marketia''"
  obtain dsn where d: "dsn_of (ch_env h) = Inr dsn" using assms(1) by (cases "dsn_of (ch_env h)") (simp_all add: channel_start_def)
  have n: "dsn \<noteq> []" using assms by (cases dsn) (simp_all add: channel_start_def d)
  obtain secret where c1: "channel_verifier_secret h ?mode = Inr secret"
    using assms n by (cases "channel_verifier_secret h ?mode") (simp_all add: channel_start_def d Let_def)
  obtain ttl max_entries workload limit where c2: "channel_settings dsn_of h = Inr (ttl, max_entries, workload, limit)"
    using assms n by (cases "channel_settings dsn_of h") (auto simp: channel_start_def d Let_def c1)
  obtain provider marketia where c3: "channel_transports h ?mode False = Inr (provider, marketia)"
    using assms n by (cases "channel_transports h ?mode False") (auto simp: channel_start_def d Let_def c1 c2)
  obtain port where c4: "mode_port h ?mode = Inr port"
    using assms n by (cases "mode_port h ?mode") (simp_all add: channel_start_def d Let_def c1 c2 c3)
  have "cc_mode cf = ?mode \<and> \<not> cc_shadow cf \<and> cc_dsn cf = dsn \<and> cc_secret cf = secret \<and> cc_provider cf = provider \<and> cc_marketia cf = marketia"
    using assms n by (auto simp: channel_start_def d Let_def c1 c2 c3 c4)
  note c = c1 c3 c4 this n
  have m: "?mode \<in> {''voice'', ''whatsapp'', ''marketia''}"
    using c(3) by (auto simp: mode_port_def rbind_Inr_iff of_option_def split: option.splits if_splits)
  have "32 \<le> length secret" if "?mode \<in> {''voice'', ''whatsapp''}"
    using c(1) that by (auto simp: channel_verifier_secret_def rbind_Inr_iff dest: channel_secret_required)
  moreover note channel_transports_pinned [OF c(2)]
  ultimately show ?thesis using c(4,5) m by auto
qed

theorem channel_start_fails_closed_witness:
  "channel_start (\<lambda>_. Inr ''dsn'') example_channel_host = Inr example_channel \<and> cc_dsn example_channel \<noteq> [] \<and>
   channel_start (\<lambda>_. Inr []) example_channel_host = raise RuntimeError ''POSTGRES_REQUIRED_OUTSIDE_SHADOW_MODE''"
proof -
  have dg: "digit_char 0 = CHR ''0''" "digit_char 2 = CHR ''2''" "digit_char 4 = CHR ''4''" "digit_char 5 = CHR ''5''"
    "digit_char 6 = CHR ''6''" "digit_char 8 = CHR ''8''" by code_simp+
  have "int_dec 86400 = ''86400''" "int_dec 20000 = ''20000''" "int_dec 600 = ''600''" "int_dec 8085 = ''8085''"
    by (simp_all add: int_dec_def nat_dec.simps dg)
  then have i: "py_int ''86400'' = Some 86400" "py_int ''20000'' = Some 20000" "py_int ''600'' = Some 600" "py_int ''8085'' = Some 8085"
    using py_int_dec [of 86400] py_int_dec [of 20000] py_int_dec [of 600] py_int_dec [of 8085] by simp_all
  have "py_lower ''false'' = ''false''" by code_simp
  note n = this i
  have s: "\<not> env_true (ch_env example_channel_host) ''ATLANTIS_SHADOW_MODE'' ''true''"
    by (simp add: example_channel_host_def env_true_def getenv_def n)
  let ?h = example_channel_host
  have e: "getenv (ch_env ?h) ''ADAPTER_MODE'' ''marketia'' = ''voice''"
    "getenv (ch_env ?h) ''ATLANTIS_TOKEN_ISSUER'' ''atlantis-policy-gateway'' = ''atlantis-policy-gateway''"
    "inbox_tenant (ch_env ?h) ''dsn'' = None"
    by (simp_all add: example_channel_host_def getenv_def inbox_tenant_def given_def)
  have v: "channel_verifier_secret ?h ''voice'' = Inr (replicate 32 (CHR ''k''))"
    by (simp add: channel_verifier_secret_def channel_secret_def example_channel_host_def given_def getenv_def token_verifier_init_def)
  have g: "channel_settings dsn_of ?h = Inr (86400, 20000, None, 600)" for dsn_of
    by (simp add: channel_settings_def example_channel_host_def env_int_def env_true_def getenv_def n configure_workload_auth_def
        configure_rate_limit_def)
  have t: "channel_transports ?h ''voice'' False = Inr (Some example_provider, None)"
    by (simp add: channel_transports_def started_for_def voice_provider_def example_channel_host_def getenv_def environ_item_def
        hosts_of_def example_url_def channel_text_secret_def given_def vicidial_init_def example_provider_def)
  have p: "mode_port ?h ''voice'' = Inr 8085"
    by (simp add: mode_port_def env_int_def example_channel_host_def getenv_def n)
  have a: "channel_start (\<lambda>_. Inr ''dsn'') ?h = Inr example_channel"
    using s by (simp add: channel_start_def Let_def e v g t p) (simp add: example_channel_def)
  have "channel_start (\<lambda>_. Inr []) example_channel_host = raise RuntimeError ''POSTGRES_REQUIRED_OUTSIDE_SHADOW_MODE''"
    using s by (simp add: channel_start_def Let_def)
  then show ?thesis using a channel_start_fails_closed [OF a s] by blast
qed

section \<open>What the token does not bind\<close>

lemma body_items_cong: "\<forall>k \<in> set ks. map_of body k = map_of body' k \<Longrightarrow> body_items body ks = body_items body' ks"
  by (induction ks) (auto simp: body_item_def)

text \<open>
  C38: the rest of the command is not bound to the authorization. The adapter compares the content hash
  of the command with that of the token, but neither computes it from the message nor looks at
  the recipient: with any other recipient, text or template in place of the command's own the same
  token is accepted, and the provider gets the changed command.
\<close>

theorem command_not_bound:
  assumes "contact_handler chan h cf e body st = (r, st')" "ks_world st' \<noteq> ks_world st"
    and "k \<notin> set (''authorization_token'' # claim_keys)"
  shows "\<exists>t p. map_of body ''authorization_token'' = Some (JStr t) \<and> cc_provider cf = Some p \<and>
    (let st1 = snd (contact_handler chan h cf e (dict_set k v body) st); command = dict_pop ''authorization_token'' (dict_set k v body) in
     ks_tokens st1 = ks_tokens st' \<and> map_of command k = Some v \<and>
     ks_world st1 = snd (provider_contact (ch_net h) p command t (ks_world st)))"
proof -
  let ?command = "dict_pop ''authorization_token'' (dict_set k v body)"
  obtain t expected c p where c: "map_of body ''authorization_token'' = Some (JStr t)"
    "body_items (dict_pop ''authorization_token'' body) claim_keys = Inr expected"
    "channel_verify cf e t (adapter_audience chan) expected (ks_tokens st) = (Inr c, ks_tokens st')"
    "cl_channel c = channel_value chan" "\<not> cc_shadow cf" "cc_provider cf = Some p"
    using contact_handler_world [OF assms(1,2)] by blast
  have b: "body_items ?command claim_keys = Inr expected"
    using assms(3) unfolding c(2) [symmetric] by (intro body_items_cong) (auto simp: dict_simps)
  have t: "map_of (dict_set k v body) ''authorization_token'' = Some (JStr t)" using c(1) assms(3) by (auto simp: dict_simps)
  note g = guarded_contact_accepted [OF b c(3-6), of h]
  have "map_of ?command k = Some v" using assms(3) by (simp add: dict_simps)
  then show ?thesis
    using c(1,6) by (intro exI [of _ t] exI [of _ p]) (simp add: contact_handler_eq contact_endpoint_state [OF t] g Let_def)
qed

theorem command_not_bound_witness:
  "\<exists>t p. cc_provider example_channel = Some p \<and>
    ks_world (snd (contact_handler VOICE example_channel_host example_channel example_channel_env
      (dict_set ''recipient_e164'' (JStr ''+15550000000'') example_call) example_channel_state)) =
    snd (provider_contact (ch_net example_channel_host) p
      (dict_pop ''authorization_token'' (dict_set ''recipient_e164'' (JStr ''+15550000000'') example_call)) t 0)"
proof -
  have w: "ks_world (snd (contact_handler VOICE example_channel_host example_channel example_channel_env example_call example_channel_state))
      \<noteq> ks_world example_channel_state" by (simp only: example_answer) (simp add: example_channel_state_def)
  have k: "''recipient_e164'' \<notin> set (''authorization_token'' # claim_keys)" by (simp add: claim_keys_def)
  have s: "ks_world example_channel_state = 0" by (simp add: example_channel_state_def)
  show ?thesis
    using command_not_bound [OF prod.collapse [symmetric] w k, of "JStr ''+15550000000''"] unfolding Let_def s by blast
qed

end
