(* ===== verification/ChannelInbox.thy ===== *)
theory ChannelInbox
  imports ChannelContacts
begin

text \<open>
  The webhooks of the channel adapters over time: the bounded set of event identifiers and the inbox while other
  requests come in, and what an accepted delivery shows.
\<close>

section \<open>The bounded set over time\<close>

text \<open>With a clock that does not run back the entries stand in the order of their expiry, the oldest first.\<close>

definition ttl_sorted :: "real \<Rightarrow> ('k, 'v) ttl_map \<Rightarrow> bool" where
  "ttl_sorted now m \<longleftrightarrow> ttl_ok m \<and> sorted (map (\<lambda>x. snd (snd x)) (tm_values m)) \<and>
     (\<forall>x \<in> set (tm_values m). snd (snd x) \<le> now + tm_ttl_seconds m)"

text \<open>An entry with a given expiry and at most \<open>n\<close> entries after it.\<close>

definition entry_at :: "nat \<Rightarrow> real \<Rightarrow> 'k \<Rightarrow> ('k, 'v \<times> real) dict \<Rightarrow> bool" where
  "entry_at n x k d \<longleftrightarrow> (\<exists>pre v post. d = pre @ (k, v, x) # post \<and> length post \<le> n)"

lemma entry_at_prune: "entry_at n x k d \<Longrightarrow> now < x \<Longrightarrow> entry_at n x k (ttl_prune now d)"
proof -
  assume "entry_at n x k d" "now < x"
  then obtain pre v post where d: "d = pre @ (k, v, x) # post" "length post \<le> n" by (auto simp: entry_at_def)
  then have "ttl_prune now d = ttl_prune now pre @ (k, v, x) # ttl_prune now post" using \<open>now < x\<close> by (simp add: ttl_prune_def)
  then show ?thesis using d(2) ttl_prune_length [of now post] le_trans unfolding entry_at_def by blast
qed

lemma entry_at_tl:
  assumes "entry_at n x k d" "Suc n < length d"
  shows "entry_at n x k (tl d)"
proof -
  obtain pre v post where d: "d = pre @ (k, v, x) # post" "length post \<le> n" using assms(1) by (auto simp: entry_at_def)
  then have "tl d = tl pre @ (k, v, x) # post" using assms(2) by (cases pre) auto
  with d(2) show ?thesis by (auto simp: entry_at_def)
qed

lemma entry_at_snoc: "entry_at n x k d \<Longrightarrow> entry_at (Suc n) x k (d @ [y])"
  by (force simp: entry_at_def)

lemma entry_at_seen: "ttl_ok m \<Longrightarrow> entry_at n x k (tm_values m) \<Longrightarrow> now < x \<Longrightarrow> fst (ttl_get now k m) \<noteq> None"
proof -
  assume m: "ttl_ok m" "entry_at n x k (tm_values m)" "now < x"
  then obtain pre v post where "tm_values m = pre @ (k, v, x) # post" by (auto simp: entry_at_def)
  then have "(k, v, x) \<in> set (tm_values m)" by simp
  then have "map_of (tm_values m) k = Some (v, x)" using m(1) by (simp add: ttl_ok_def)
  then show ?thesis using m(1,3) by (simp add: ttl_get_def Let_def ttl_ok_def ttl_prune_get del: map_of_eq_Some_iff)
qed

lemma evict_oldest:
  assumes "sorted (map (\<lambda>x. snd (snd x)) d)" "dict_wf d" "d \<noteq> []"
  shows "evict snd d = Inr (tl d)"
proof -
  obtain k v xs where d: "d = (k, v) # xs" using assms(3) by (cases d) auto
  have "min_entry snd (k, v) xs = (k, v)" using assms(1) d by (intro min_entry_first) auto
  moreover have "k \<notin> fst ` set xs" using assms(2) d by auto
  ultimately show ?thesis using d by (simp add: evict_def min_key_def AList.delete_id)
qed

lemma prune_sorted: "sorted (map (\<lambda>x. snd (snd x)) d) \<Longrightarrow> sorted (map (\<lambda>x. snd (snd x)) (ttl_prune now d))"
  by (simp add: ttl_prune_def sorted_filter)

text \<open>What \<open>remember\<close> does to such a set.\<close>

lemma ttl_remember_values:
  assumes "ttl_ok m" "sorted (map (\<lambda>x. snd (snd x)) (tm_values m))" "ttl_remember now1 now2 k m = (r, m')"
  shows "if r = Inr True
      then let d = ttl_prune now2 (ttl_prune now1 (tm_values m)) in
        tm_values m' = (if tm_max_entries m \<le> length d then tl d else d) @ [(k, (), now2 + tm_ttl_seconds m)]
      else tm_values m' = ttl_prune now1 (tm_values m) \<or> tm_values m' = ttl_prune now2 (ttl_prune now1 (tm_values m))"
    "tm_max_entries m' = tm_max_entries m" "tm_ttl_seconds m' = tm_ttl_seconds m"
proof -
  let ?d1 = "ttl_prune now1 (tm_values m)"
  let ?d = "ttl_prune now2 ?d1"
  have w: "dict_wf ?d1" "dict_wf ?d" "sorted (map (\<lambda>x. snd (snd x)) ?d)"
    using assms(1,2) by (simp_all add: ttl_ok_def prune_sorted)
  show f: "tm_max_entries m' = tm_max_entries m" "tm_ttl_seconds m' = tm_ttl_seconds m"
    using assms(3) by (auto simp: ttl_remember_def ttl_get_def ttl_set_def Let_def split: option.splits sum.splits if_splits)
  show "if r = Inr True
      then let d = ?d in tm_values m' = (if tm_max_entries m \<le> length d then tl d else d) @ [(k, (), now2 + tm_ttl_seconds m)]
      else tm_values m' = ?d1 \<or> tm_values m' = ?d"
  proof (cases "map_of ?d1 k")
    case (Some v)
    then show ?thesis using assms(3) by (auto simp: ttl_remember_def ttl_get_def Let_def)
  next
    case None
    then have k: "k \<notin> fst ` set ?d1" by (simp add: map_of_eq_None_iff)
    then have kd: "k \<notin> fst ` set ?d" by (auto simp: ttl_prune_def)
    then have nk: "\<not> has_key ?d k" by (simp add: has_key_iff)
    have g: "ttl_remember now1 now2 k m =
        (case ttl_set now2 k () (m\<lparr>tm_values := ?d1\<rparr>) of (Inl e, m'') \<Rightarrow> (Inl e, m'') | (Inr _, m'') \<Rightarrow> (Inr True, m''))"
      using None by (simp add: ttl_remember_def ttl_get_def Let_def)
    show ?thesis
    proof (cases "tm_max_entries m \<le> length ?d")
      case True
      show ?thesis
      proof (cases "?d = []")
        case d: True
        then have "evict snd ?d = raise ValueError ''min() iterable argument is empty''" by (simp add: evict_def min_key_def)
        then show ?thesis using assms(3) True nk unfolding g by (auto simp: ttl_set_def Let_def)
      next
        case False
        have "k \<notin> fst ` set (tl ?d)" using kd by (cases ?d) auto
        then show ?thesis using assms(3) True nk evict_oldest [OF w(3,2) False] unfolding g
          by (auto simp: ttl_set_def Let_def dict_set_fresh)
      qed
    next
      case False
      then show ?thesis using assms(3) nk kd unfolding g by (auto simp: ttl_set_def Let_def dict_set_fresh)
    qed
  qed
qed

lemma ttl_remember_new:
  assumes "ttl_prune now (tm_values m) = tm_values m" "k \<notin> fst ` set (tm_values m)" "length (tm_values m) < tm_max_entries m"
  shows "ttl_remember now now k m = (Inr True, m\<lparr>tm_values := tm_values m @ [(k, (), now + tm_ttl_seconds m)]\<rparr>)"
proof -
  have "map_of (tm_values m) k = None" "\<not> has_key (tm_values m) k" using assms(2) by (simp_all add: map_of_eq_None_iff has_key_iff)
  then show ?thesis using assms by (simp add: ttl_remember_def ttl_get_def ttl_set_def Let_def dict_set_fresh)
qed

lemma ttl_sorted_step:
  assumes "ttl_sorted now0 m" "now0 \<le> now1" "now1 \<le> now2" "ttl_remember now1 now2 k m = (r, m')"
  shows "ttl_sorted now2 m'"
proof -
  have m: "ttl_ok m" "sorted (map (\<lambda>x. snd (snd x)) (tm_values m))" "\<forall>x \<in> set (tm_values m). snd (snd x) \<le> now2 + tm_ttl_seconds m"
    using assms(1-3) by (auto simp: ttl_sorted_def)
  let ?d1 = "ttl_prune now1 (tm_values m)"
  let ?d = "ttl_prune now2 ?d1"
  have d: "sorted (map (\<lambda>x. snd (snd x)) ?d1)" "sorted (map (\<lambda>x. snd (snd x)) ?d)" "\<forall>x \<in> set ?d1. snd (snd x) \<le> now2 + tm_ttl_seconds m"
    "\<forall>x \<in> set ?d. snd (snd x) \<le> now2 + tm_ttl_seconds m"
    using m by (auto simp: prune_sorted) (auto simp: ttl_prune_def)
  then have tl: "sorted (map (\<lambda>x. snd (snd x)) (tl ?d))" "\<forall>x \<in> set (tl ?d). snd (snd x) \<le> now2 + tm_ttl_seconds m"
    by (cases ?d; simp)+
  note v = ttl_remember_values [OF m(1,2) assms(4)]
  have ok: "ttl_ok m'"
    using ttl_remember_is [of "tm_ttl_seconds m" m now1 now2 k] m(1) assms(4) by (simp add: ttl_is_def)
  show ?thesis
  proof (cases "r = Inr True")
    case True
    then show ?thesis using v ok d tl by (auto simp: ttl_sorted_def Let_def sorted_append split: if_splits)
  next
    case False
    then show ?thesis using v ok d by (auto simp: ttl_sorted_def)
  qed
qed

lemma entry_at_step:
  assumes "ttl_sorted now0 m" "now1 \<le> now2" "now2 < x" "entry_at n x k (tm_values m)" "ttl_remember now1 now2 j m = (r, m')"
    and "r = Inr True \<Longrightarrow> Suc n < tm_max_entries m"
  shows "entry_at (if r = Inr True then Suc n else n) x k (tm_values m')"
proof -
  have m: "ttl_ok m" "sorted (map (\<lambda>x. snd (snd x)) (tm_values m))" using assms(1) by (simp_all add: ttl_sorted_def)
  have e: "entry_at n x k (ttl_prune now1 (tm_values m))" using assms(2-4) by (intro entry_at_prune) auto
  then have d: "entry_at n x k (ttl_prune now2 (ttl_prune now1 (tm_values m)))" using assms(3) by (rule entry_at_prune)
  note v = ttl_remember_values(1) [OF m assms(5)]
  show ?thesis
  proof (cases "r = Inr True")
    case True
    then show ?thesis using v d entry_at_tl [OF d] assms(6) by (auto simp: Let_def intro: entry_at_snoc split: if_splits)
  next
    case False
    then show ?thesis using v e d by auto
  qed
qed

section \<open>Webhooks\<close>

text \<open>\<open>remember\<close> is an inbox, whichever store the process was started with.\<close>

definition channel_seen :: "channel_config \<Rightarrow> channel_env \<Rightarrow> 'w channel_state \<Rightarrow> string \<times> string \<Rightarrow> bool" where
  "channel_seen cf e st k =
     (case cc_inbox_tenant cf of
        Some tenant \<Rightarrow> receipt_known tenant (ks_receipts st) k
      | None \<Rightarrow> cc_shadow cf \<and> ttl_seen (ce_monotonic e) (ks_event_ids st) k)"

definition channel_covers :: "channel_config \<Rightarrow> real \<Rightarrow> channel_env \<Rightarrow> channel_env \<Rightarrow> bool" where
  "channel_covers cf ttl e e' \<longleftrightarrow> cc_inbox_tenant cf \<noteq> None \<or> fst (ce_monotonic e') < snd (ce_monotonic e) + ttl"

lemma channel_remember_cases:
  "cc_inbox_tenant cf = Some tenant \<Longrightarrow> channel_remember cf e p i h st =
     (fst (pg_inbox_remember tenant (ce_pg e, ce_fresh e) p i h (ks_receipts st)),
      st\<lparr>ks_receipts := snd (pg_inbox_remember tenant (ce_pg e, ce_fresh e) p i h (ks_receipts st))\<rparr>)"
  "cc_inbox_tenant cf = None \<Longrightarrow> cc_shadow cf \<Longrightarrow> channel_remember cf e p i h st =
     (fst (ttl_inbox (ce_monotonic e) p i h (ks_event_ids st)),
      st\<lparr>ks_event_ids := snd (ttl_inbox (ce_monotonic e) p i h (ks_event_ids st))\<rparr>)"
  "cc_inbox_tenant cf = None \<Longrightarrow> \<not> cc_shadow cf \<Longrightarrow> channel_remember cf e p i h st =
     (raise RuntimeError ''POSTGRES_WEBHOOK_INBOX_REQUIRED'', st)"
  by (simp_all add: channel_remember_def split: prod.splits)

interpretation channel_inbox: event_inbox "channel_remember cf" "\<lambda>st. ttl_is ttl (ks_event_ids st)" "channel_seen cf" "channel_covers cf ttl"
  for cf ttl
proof unfold_locales
  fix e e' p i h b
  fix s s' :: "'a channel_state"
  show "ttl_is ttl (ks_event_ids s) \<Longrightarrow> ttl_is ttl (ks_event_ids (snd (channel_remember cf e p i h s)))"
    using ttl_inbox.ok_remember [of ttl "ks_event_ids s" "ce_monotonic e" p i h]
    by (cases "cc_inbox_tenant cf"; cases "cc_shadow cf") (simp_all add: channel_remember_cases)
  show "ttl_is ttl (ks_event_ids s) \<Longrightarrow> channel_remember cf e p i h s = (Inr True, s') \<Longrightarrow> channel_covers cf ttl e e' \<Longrightarrow>
      channel_seen cf e' s' (p, i)"
    using ttl_inbox.accept_seen [of ttl "ks_event_ids s" "ce_monotonic e" p i h "ks_event_ids s'" "ce_monotonic e'"]
      pg_inbox.accept_seen [where tenant = "the (cc_inbox_tenant cf)" and e = "(ce_pg e, ce_fresh e)" and p = p and i = i and h = h
        and s = "ks_receipts s" and s' = "ks_receipts s'"]
    by (cases "cc_inbox_tenant cf"; cases "cc_shadow cf")
      (auto simp: channel_remember_cases channel_seen_def channel_covers_def prod_eq_iff)
  show "ttl_is ttl (ks_event_ids s) \<Longrightarrow> channel_seen cf e s (p, i) \<Longrightarrow> fst (channel_remember cf e p i h s) \<noteq> Inr True"
    using ttl_inbox.seen_refused [of ttl "ks_event_ids s" "ce_monotonic e" p i h]
      pg_inbox.seen_refused [where tenant = "the (cc_inbox_tenant cf)" and e = "(ce_pg e, ce_fresh e)" and p = p and i = i and h = h
        and s = "ks_receipts s"]
    by (cases "cc_inbox_tenant cf"; cases "cc_shadow cf") (simp_all add: channel_remember_cases channel_seen_def)
  show "ttl_is ttl (ks_event_ids s) \<Longrightarrow> \<not> channel_seen cf e s (p, i) \<Longrightarrow> channel_remember cf e p i h s = (Inr b, s') \<Longrightarrow> b"
    using ttl_inbox.new_accepted [of ttl "ks_event_ids s" "ce_monotonic e" p i h b "ks_event_ids s'"]
      pg_inbox.new_accepted [where tenant = "the (cc_inbox_tenant cf)" and e = "(ce_pg e, ce_fresh e)" and p = p and i = i and h = h
        and s = "ks_receipts s" and s' = "ks_receipts s'" and b = b]
    by (cases "cc_inbox_tenant cf"; cases "cc_shadow cf") (auto simp: channel_remember_cases channel_seen_def prod_eq_iff)
qed

lemma generic_webhook_202:
  assumes "generic_webhook provider h cf e request st = (Inr (202, b), st')"
  shows "\<exists>secret v. channel_secret h (webhook_secret_name provider) True = Inr secret \<and>
    generic_check [(provider, secret)] 300 (ce_clock e) provider (rq_body request)
      (dict_get_or [] (rq_headers request) ''x-webhook-signature'') (dict_get_or [] (rq_headers request) ''x-webhook-timestamp'') = Inr () \<and>
    webhook_accept (channel_remember cf e) provider (dict_get_or [] (rq_headers request) ''x-webhook-event-id'') (rq_body request)
      (ce_clock e) st = (Inr v, st')"
  using assms
  by (auto simp: generic_webhook_def webhook_reply_def Let_def verify_generic_Inr split: sum.splits prod.splits if_splits)

section \<open>The adapters over time\<close>

text \<open>The requests that the handlers of an adapter take, and what one of them does.\<close>

datatype channel_event =
  ContactEvent channel "(string \<times> json) list"
| SyncEvent "(string \<times> json) list"
| HookEvent string request_context
| MetaEvent request_context

fun channel_serve ::
  "'w channel_host \<Rightarrow> channel_config \<Rightarrow> channel_env \<Rightarrow> channel_event \<Rightarrow> 'w channel_state \<Rightarrow> (int \<times> reply_body) res \<times> 'w channel_state" where
  "channel_serve h cf e (ContactEvent chan body) st = contact_handler chan h cf e body st"
| "channel_serve h cf e (SyncEvent body) st = marketia_sync h cf body st"
| "channel_serve h cf e (HookEvent provider request) st = generic_webhook provider h cf e request st"
| "channel_serve h cf e (MetaEvent request) st = meta_webhook h cf e request st"

fun delivery_accepted :: "channel_event \<Rightarrow> (int \<times> reply_body) res \<Rightarrow> bool" where
  "delivery_accepted (HookEvent _ _) (Inr (n, _)) = (n = 202)"
| "delivery_accepted (MetaEvent _) (Inr (n, _)) = (n = 202)"
| "delivery_accepted _ _ = False"

text \<open>A sequence of requests: how many deliveries were accepted, and the state after it.\<close>

type_synonym 'w channel_request = "'w channel_host \<times> channel_env \<times> channel_event"

fun channel_served :: "channel_config \<Rightarrow> 'w channel_request list \<Rightarrow> 'w channel_state \<Rightarrow> nat \<times> 'w channel_state" where
  "channel_served cf [] st = (0, st)"
| "channel_served cf ((h, e, ev) # rest) st =
     (case channel_serve h cf e ev st of
        (r, st1) \<Rightarrow> (case channel_served cf rest st1 of
          (n, st2) \<Rightarrow> (if delivery_accepted ev r then Suc n else n, st2)))"

text \<open>The readings of the monotonic clock in the order they are taken.\<close>

definition clock_readings :: "'w channel_request list \<Rightarrow> real list" where
  "clock_readings reqs = concat (map (\<lambda>(h, e, ev). [fst (ce_monotonic e), snd (ce_monotonic e)]) reqs)"

lemma contact_handler_inbox:
  assumes "contact_handler chan h cf e body st = (r, st')"
  shows "ks_receipts st' = ks_receipts st \<and> ks_event_ids st' = ks_event_ids st"
  using assms
proof (cases rule: contact_handler_cases)
  case (2 token r')
  then show ?thesis unfolding guarded_contact_def verify_token_def
    by (auto simp: Let_def split: sum.splits prod.splits json.splits if_splits option.splits)
qed simp_all

lemma marketia_sync_inbox:
  "marketia_sync h cf body st = (r, st') \<Longrightarrow> ks_receipts st' = ks_receipts st \<and> ks_event_ids st' = ks_event_ids st"
  by (auto simp: marketia_sync_def split: sum.splits prod.splits if_splits option.splits)

lemma webhook_reply_accept:
  assumes "webhook_reply (webhook_accept remember p i body now st) = (r, st')"
  shows "st' = st \<and> (\<forall>b. r \<noteq> Inr (202, b)) \<or>
    (\<exists>x. remember p i (sha256_hexdigest body) st = (x, st') \<and> ((\<exists>b. r = Inr (202, b)) \<longleftrightarrow> x = Inr True))"
  using assms by (auto simp: webhook_reply_def webhook_accept_def split: sum.splits prod.splits bool.splits if_splits)

text \<open>A request leaves the inbox as it is, or asks it once; it is asked with success exactly when a delivery is accepted.\<close>

lemma channel_serve_inbox:
  assumes "channel_serve h cf e ev st = (r, st')"
  shows "ks_receipts st' = ks_receipts st \<and> ks_event_ids st' = ks_event_ids st \<and> \<not> delivery_accepted ev r \<or>
    (\<exists>p i hash x. channel_remember cf e p i hash st = (x, st') \<and> (delivery_accepted ev r \<longleftrightarrow> x = Inr True))"
proof (cases ev)
  case (ContactEvent chan body)
  then show ?thesis using assms contact_handler_inbox by fastforce
next
  case (SyncEvent body)
  then show ?thesis using assms marketia_sync_inbox by fastforce
next
  case (HookEvent p q)
  have a: "delivery_accepted ev r \<longleftrightarrow> (\<exists>b. r = Inr (202, b))" using HookEvent by (cases r) auto
  from HookEvent assms have "st' = st \<and> (\<forall>b. r \<noteq> Inr (202, b)) \<or>
      (\<exists>i body. webhook_reply (webhook_accept (channel_remember cf e) p i body (ce_clock e) st) = (r, st'))"
    by (auto simp: generic_webhook_def verify_generic_def Let_def webhook_reply_def split: sum.splits if_splits)
  then show ?thesis unfolding a using webhook_reply_accept [of "channel_remember cf e" p] by blast
next
  case (MetaEvent q)
  have a: "delivery_accepted ev r \<longleftrightarrow> (\<exists>b. r = Inr (202, b))" using MetaEvent by (cases r) auto
  from MetaEvent assms have "st' = st \<and> (\<forall>b. r \<noteq> Inr (202, b)) \<or>
      (\<exists>i body. webhook_reply (webhook_accept (channel_remember cf e) ''meta'' i body (ce_clock e) st) = (r, st'))"
    by (auto simp: meta_webhook_def verify_meta_def webhook_reply_def split: sum.splits if_splits)
  then show ?thesis unfolding a using webhook_reply_accept [of "channel_remember cf e" "''meta''"] by blast
qed

text \<open>Receipts are only added.\<close>

lemma channel_served_receipts:
  assumes "channel_served cf reqs st = (n, st')" "receipt_known tenant (ks_receipts st) k"
  shows "receipt_known tenant (ks_receipts st') k"
  using assms
proof (induction reqs arbitrary: st n)
  case (Cons q reqs)
  obtain h e ev where q: "q = (h, e, ev)" using prod_cases3 by blast
  obtain r st1 where s: "channel_serve h cf e ev st = (r, st1)" by fastforce
  obtain m where m: "channel_served cf reqs st1 = (m, st')" using Cons.prems(1) q s by (auto split: prod.splits)
  have "set (ks_receipts st) \<subseteq> set (ks_receipts st1)" if "channel_remember cf e p i hash st = (x, st1)" for p i hash x
    using that by (auto simp: channel_remember_def pg_inbox_remember_def pg_run_def split: prod.splits option.splits if_splits)
  then have "set (ks_receipts st) \<subseteq> set (ks_receipts st1)" using channel_serve_inbox [OF s] by (metis order_refl)
  then have "receipt_known tenant (ks_receipts st1) k" using Cons.prems(2) by (auto simp: receipt_known_def)
  then show ?case by (rule Cons.IH [OF m])
qed simp

text \<open>In shadow mode the set stays sorted, and an entry stays while fewer deliveries than there is room for are accepted.\<close>

lemma channel_serve_ids:
  assumes "channel_serve h cf e ev st = (r, st')" "cc_inbox_tenant cf = None"
  shows "ks_event_ids st' = ks_event_ids st \<and> \<not> delivery_accepted ev r \<or>
    (\<exists>k x. ttl_remember (fst (ce_monotonic e)) (snd (ce_monotonic e)) k (ks_event_ids st) = (x, ks_event_ids st') \<and>
      (delivery_accepted ev r \<longleftrightarrow> x = Inr True))"
proof (cases "ks_receipts st' = ks_receipts st \<and> ks_event_ids st' = ks_event_ids st \<and> \<not> delivery_accepted ev r")
  case False
  then obtain p i hash x where r: "channel_remember cf e p i hash st = (x, st')" "delivery_accepted ev r \<longleftrightarrow> x = Inr True"
    using channel_serve_inbox [OF assms(1)] by blast
  obtain y m where y: "ttl_remember (fst (ce_monotonic e)) (snd (ce_monotonic e)) (p, i) (ks_event_ids st) = (y, m)" by fastforce
  show ?thesis
  proof (cases "cc_shadow cf")
    case True
    then have "x = y" "ks_event_ids st' = m" using r(1) assms(2) y by (auto simp: channel_remember_def ttl_inbox_def)
    then show ?thesis using y r(2) by blast
  next
    case False
    then show ?thesis using r assms(2) by (auto simp: channel_remember_def)
  qed
qed simp

lemma ttl_remember_fixed:
  "ttl_remember now1 now2 k m = (r, m') \<Longrightarrow> tm_max_entries m' = tm_max_entries m \<and> tm_ttl_seconds m' = tm_ttl_seconds m"
  by (auto simp: ttl_remember_def ttl_get_def ttl_set_def Let_def split: option.splits sum.splits if_splits)

lemma channel_served_sorted:
  assumes "channel_served cf reqs st = (n, st')" "cc_inbox_tenant cf = None" "sorted (now # clock_readings reqs)"
    and "ttl_sorted now (ks_event_ids st)"
  shows "ttl_sorted (last (now # clock_readings reqs)) (ks_event_ids st') \<and>
    tm_max_entries (ks_event_ids st') = tm_max_entries (ks_event_ids st) \<and>
    tm_ttl_seconds (ks_event_ids st') = tm_ttl_seconds (ks_event_ids st)"
  using assms(1,3,4)
proof (induction reqs arbitrary: st n now)
  case (Cons q reqs)
  obtain h e ev where q: "q = (h, e, ev)" using prod_cases3 by blast
  obtain r st1 where s: "channel_serve h cf e ev st = (r, st1)" by fastforce
  obtain m where m: "channel_served cf reqs st1 = (m, st')" using Cons.prems(1) q s by (auto split: prod.splits)
  let ?a = "fst (ce_monotonic e)" and ?b = "snd (ce_monotonic e)"
  have c: "clock_readings (q # reqs) = ?a # ?b # clock_readings reqs" by (simp add: clock_readings_def q)
  have le: "now \<le> ?a" "?a \<le> ?b" "sorted (?b # clock_readings reqs)" using Cons.prems(2) unfolding c by auto
  have late: "ttl_sorted ?b (ks_event_ids st)" using Cons.prems(3) le(1,2) by (auto simp: ttl_sorted_def)
  have "ttl_sorted ?b (ks_event_ids st1) \<and> tm_max_entries (ks_event_ids st1) = tm_max_entries (ks_event_ids st) \<and>
      tm_ttl_seconds (ks_event_ids st1) = tm_ttl_seconds (ks_event_ids st)"
    using channel_serve_ids [OF s assms(2)] late ttl_sorted_step [OF Cons.prems(3) le(1,2)] ttl_remember_fixed by metis
  then show ?case using Cons.IH [OF m le(3)] unfolding c by auto
qed (simp add: clock_readings_def)

lemma channel_served_keeps:
  assumes "channel_served cf reqs st = (m, st')" "cc_inbox_tenant cf = None" "sorted (now # clock_readings reqs)"
    and "ttl_sorted now (ks_event_ids st)" "entry_at n x k (tm_values (ks_event_ids st))"
    and "\<forall>t \<in> set (clock_readings reqs). t < x" "n + m < tm_max_entries (ks_event_ids st)"
  shows "entry_at (n + m) x k (tm_values (ks_event_ids st'))"
  using assms(1,3-7)
proof (induction reqs arbitrary: st n m now)
  case (Cons q reqs)
  obtain h e ev where q: "q = (h, e, ev)" using prod_cases3 by blast
  obtain r st1 where s: "channel_serve h cf e ev st = (r, st1)" by fastforce
  obtain m' where m: "channel_served cf reqs st1 = (m', st')" "m = (if delivery_accepted ev r then Suc m' else m')"
    using Cons.prems(1) q s by (auto split: prod.splits)
  let ?a = "fst (ce_monotonic e)" and ?b = "snd (ce_monotonic e)"
  let ?n = "if delivery_accepted ev r then Suc n else n"
  have c: "clock_readings (q # reqs) = ?a # ?b # clock_readings reqs" by (simp add: clock_readings_def q)
  have le: "now \<le> ?a" "?a \<le> ?b" "sorted (?b # clock_readings reqs)" "?b < x" "\<forall>t \<in> set (clock_readings reqs). t < x"
    using Cons.prems(2,5) unfolding c by auto
  have one: "channel_served cf [q] st = (if delivery_accepted ev r then 1 else 0, st1)" by (simp add: q s)
  have s1: "ttl_sorted ?b (ks_event_ids st1)" "tm_max_entries (ks_event_ids st1) = tm_max_entries (ks_event_ids st)"
    using channel_served_sorted [OF one assms(2), of now] Cons.prems(3) le(1,2) by (simp_all add: clock_readings_def q)
  have "entry_at ?n x k (tm_values (ks_event_ids st1))"
  proof (cases "ks_event_ids st1 = ks_event_ids st \<and> \<not> delivery_accepted ev r")
    case True
    then show ?thesis using Cons.prems(4) by simp
  next
    case False
    then obtain j y where y: "ttl_remember ?a ?b j (ks_event_ids st) = (y, ks_event_ids st1)" "delivery_accepted ev r \<longleftrightarrow> y = Inr True"
      using channel_serve_ids [OF s assms(2)] by blast
    show ?thesis using entry_at_step [OF Cons.prems(3) le(2,4) Cons.prems(4) y(1)] Cons.prems(6) m(2) y(2) by (simp split: if_splits)
  qed
  moreover have room: "?n + m' < tm_max_entries (ks_event_ids st1)" using Cons.prems(6) m(2) s1(2) by (simp split: if_splits)
  ultimately have "entry_at (?n + m') x k (tm_values (ks_event_ids st'))"
    by (intro Cons.IH [OF m(1) le(3) s1(1) _ le(5)])
  moreover have "?n + m' = n + m" using m(2) by simp
  ultimately show ?case by argo
qed simp

section \<open>What an accepted delivery shows\<close>

lemma generic_webhook_accepted:
  assumes "generic_webhook provider h cf e request st = (Inr (202, b), st1)"
  shows "\<exists>hash. channel_remember cf e provider (dict_get_or [] (rq_headers request) ''x-webhook-event-id'') hash st = (Inr True, st1)"
  using generic_webhook_202 [OF assms] channel_inbox.accept_verified by blast

lemma channel_remember_stored:
  assumes "channel_remember cf e p i hash st = (Inr True, st1)"
  shows "case cc_inbox_tenant cf of
      Some tenant \<Rightarrow> receipt_known tenant (ks_receipts st1) (p, i)
    | None \<Rightarrow> cc_shadow cf \<and>
        ttl_remember (fst (ce_monotonic e)) (snd (ce_monotonic e)) (p, i) (ks_event_ids st) = (Inr True, ks_event_ids st1)"
proof (cases "cc_inbox_tenant cf")
  case None
  then show ?thesis using assms by (cases "cc_shadow cf") (auto simp: channel_remember_cases ttl_inbox_def prod_eq_iff)
next
  case (Some tenant)
  have "pg_inbox_remember tenant (ce_pg e, ce_fresh e) p i hash (ks_receipts st) = (Inr True, ks_receipts st1)"
    using assms Some by (auto simp: channel_remember_cases prod_eq_iff)
  from pg_inbox.accept_seen [OF TrueI this TrueI] show ?thesis using Some by simp
qed

text \<open>A known event is not taken, by any host, at any time the set still holds it.\<close>

lemma channel_known_refused:
  assumes "case cc_inbox_tenant cf of
      Some tenant \<Rightarrow> receipt_known tenant (ks_receipts st) (p, i)
    | None \<Rightarrow> ttl_ok (ks_event_ids st) \<and> entry_at n x (p, i) (tm_values (ks_event_ids st)) \<and> fst (ce_monotonic e) < x"
  shows "fst (channel_remember cf e p i hash st) \<noteq> Inr True"
proof (cases "cc_inbox_tenant cf")
  case None
  then obtain v where "fst (ttl_get (fst (ce_monotonic e)) (p, i) (ks_event_ids st)) = Some v"
    using assms entry_at_seen by fastforce
  then show ?thesis using None
    by (cases "cc_shadow cf") (auto simp: channel_remember_cases ttl_inbox_def ttl_remember_def split: prod.splits option.splits)
next
  case (Some tenant)
  then show ?thesis using assms pg_inbox.seen_refused [OF TrueI, of tenant "ks_receipts st" p i]
    by (simp add: channel_remember_cases)
qed

lemma ttl_sorted_empty: "tm_values m = [] \<Longrightarrow> ttl_sorted now m"
  by (simp add: ttl_sorted_def ttl_ok_def)

lemma clock_readings_append: "clock_readings (xs @ ys) = clock_readings xs @ clock_readings ys"
  by (simp add: clock_readings_def)

text \<open>In shadow mode: a delivery after a start with an empty set is still in the set when the next one comes.\<close>

lemma shadow_delivery_kept:
  assumes "channel_served cf earlier st0 = (n0, st)" "cc_inbox_tenant cf = None" "tm_values (ks_event_ids st0) = []"
    and "channel_remember cf e p i hash st = (Inr True, st1)" "channel_served cf meanwhile st1 = (n, st2)"
    and "sorted (clock_readings (earlier @ (h, e, ev) # meanwhile @ [(h', e', ev')]))"
    and "fst (ce_monotonic e') < snd (ce_monotonic e) + tm_ttl_seconds (ks_event_ids st0)"
    and "n < tm_max_entries (ks_event_ids st0)"
  shows "ttl_ok (ks_event_ids st2) \<and>
    entry_at n (snd (ce_monotonic e) + tm_ttl_seconds (ks_event_ids st0)) (p, i) (tm_values (ks_event_ids st2))"
proof -
  let ?a = "fst (ce_monotonic e)" and ?b = "snd (ce_monotonic e)" and ?c = "fst (ce_monotonic e')"
  define t0 where "t0 = hd (clock_readings earlier @ [?a])"
  have c: "clock_readings (earlier @ (h, e, ev) # meanwhile @ [(h', e', ev')]) =
      clock_readings earlier @ ?a # ?b # clock_readings meanwhile @ [?c, snd (ce_monotonic e')]"
    by (simp add: clock_readings_def)
  note s = assms(6) [unfolded c]
  have t0: "sorted (t0 # clock_readings earlier)" "last (t0 # clock_readings earlier) \<le> ?a"
    using s unfolding t0_def by (cases "clock_readings earlier"; auto simp: sorted_append)+
  have sb: "?a \<le> ?b" "sorted (?b # clock_readings meanwhile)" "\<forall>t \<in> set (clock_readings meanwhile). t \<le> ?c"
    using s by (auto simp: sorted_append)
  have b4: "ttl_sorted (last (t0 # clock_readings earlier)) (ks_event_ids st)"
    "tm_max_entries (ks_event_ids st) = tm_max_entries (ks_event_ids st0)" "tm_ttl_seconds (ks_event_ids st) = tm_ttl_seconds (ks_event_ids st0)"
    using channel_served_sorted [OF assms(1,2) t0(1) ttl_sorted_empty [OF assms(3)]] by auto
  have m: "ttl_remember ?a ?b (p, i) (ks_event_ids st) = (Inr True, ks_event_ids st1)"
    using channel_remember_stored [OF assms(4)] assms(2) by simp
  have v: "ttl_ok (ks_event_ids st)" "sorted (map (\<lambda>x. snd (snd x)) (tm_values (ks_event_ids st)))"
    using b4(1) by (simp_all add: ttl_sorted_def)
  have new: "ttl_sorted ?b (ks_event_ids st1)" by (rule ttl_sorted_step [OF b4(1) t0(2) sb(1) m])
  have "entry_at 0 (?b + tm_ttl_seconds (ks_event_ids st0)) (p, i) (tm_values (ks_event_ids st1))"
    using ttl_remember_values(1) [OF v m] b4(3) unfolding entry_at_def by (force simp: Let_def)
  moreover have "\<forall>t \<in> set (clock_readings meanwhile). t < ?b + tm_ttl_seconds (ks_event_ids st0)" using sb(3) assms(7) by fastforce
  moreover have "0 + n < tm_max_entries (ks_event_ids st1)" using ttl_remember_fixed [OF m] b4(2) assms(8) by simp
  ultimately have "entry_at (0 + n) (?b + tm_ttl_seconds (ks_event_ids st0)) (p, i) (tm_values (ks_event_ids st2))"
    by (intro channel_served_keeps [OF assms(5,2) sb(2) new])
  moreover have "ttl_ok (ks_event_ids st2)"
    using channel_served_sorted [OF assms(5,2) sb(2) new] by (simp add: ttl_sorted_def)
  ultimately show ?thesis by simp
qed

text \<open>
  C28: the webhooks, which carry no service signature, are authentic and taken once: what a generic webhook accepts was signed
  over its body and time stamp with the provider's configured secret of at least 32 bytes, within five minutes. A second
  delivery with the same event identifier is then not accepted, whatever requests (contact commands, lead synchronisation,
  webhooks of every provider) the adapter serves in between: with the PostgreSQL inbox for good; in shadow mode, where the
  identifiers are in a bounded set that starts empty and drops its oldest entry when full, as long as the set's time to live
  has not passed on a clock that does not run back and fewer deliveries than the set has room for were accepted in between.
\<close>

theorem channel_webhook_authentic:
  assumes "channel_served cf earlier st0 = (n0, st)" "tm_values (ks_event_ids st0) = []"
    and "generic_webhook provider h cf e request st = (Inr (202, b), st1)"
  shows "(cc_inbox_tenant cf \<noteq> None \<or> cc_shadow cf) \<and>
    (\<exists>secret signed_at. channel_secret h (webhook_secret_name provider) True = Inr secret \<and> 32 \<le> length secret \<and>
      dict_get_or [] (rq_headers request) ''x-webhook-signature'' =
        hmac_hexdigest secret (dict_get_or [] (rq_headers request) ''x-webhook-timestamp'' @ ''.'' @ rq_body request) \<and>
      py_int (dict_get_or [] (rq_headers request) ''x-webhook-timestamp'') = Some signed_at \<and> \<bar>ce_clock e - signed_at\<bar> \<le> 300) \<and>
    (\<forall>meanwhile n st2 h' e' request' b'. channel_served cf meanwhile st1 = (n, st2) \<and>
      dict_get_or [] (rq_headers request') ''x-webhook-event-id'' = dict_get_or [] (rq_headers request) ''x-webhook-event-id'' \<and>
      (cc_inbox_tenant cf \<noteq> None \<or>
        sorted (clock_readings (earlier @ (h, e, HookEvent provider request) # meanwhile @ [(h', e', HookEvent provider request')])) \<and>
        fst (ce_monotonic e') < snd (ce_monotonic e) + tm_ttl_seconds (ks_event_ids st0) \<and>
        n < tm_max_entries (ks_event_ids st0)) \<longrightarrow>
      fst (generic_webhook provider h' cf e' request' st2) \<noteq> Inr (202, b'))"
proof -
  let ?i = "dict_get_or [] (rq_headers request) ''x-webhook-event-id''"
  obtain secret where w: "channel_secret h (webhook_secret_name provider) True = Inr secret"
    "generic_check [(provider, secret)] 300 (ce_clock e) provider (rq_body request)
      (dict_get_or [] (rq_headers request) ''x-webhook-signature'') (dict_get_or [] (rq_headers request) ''x-webhook-timestamp'') = Inr ()"
    using generic_webhook_202 [OF assms(3)] by blast
  obtain hash where r: "channel_remember cf e provider ?i hash st = (Inr True, st1)" using generic_webhook_accepted [OF assms(3)] by blast
  have "cc_inbox_tenant cf \<noteq> None \<or> cc_shadow cf" using channel_remember_stored [OF r] by (cases "cc_inbox_tenant cf") simp_all
  moreover obtain signed_at where "py_int (dict_get_or [] (rq_headers request) ''x-webhook-timestamp'') = Some signed_at"
    "\<bar>ce_clock e - signed_at\<bar> \<le> 300"
    "dict_get_or [] (rq_headers request) ''x-webhook-signature'' =
        hmac_hexdigest secret (dict_get_or [] (rq_headers request) ''x-webhook-timestamp'' @ ''.'' @ rq_body request)"
    using w(2) by (auto simp: generic_check_def webhook_secret_def rbind_Inr_iff compare_digest_def split: option.splits if_splits)
  moreover have "fst (generic_webhook provider h' cf e' request' st2) \<noteq> Inr (202, b')"
    if served: "channel_served cf meanwhile st1 = (n, st2)"
      and same: "dict_get_or [] (rq_headers request') ''x-webhook-event-id'' = ?i"
      and kept: "cc_inbox_tenant cf \<noteq> None \<or>
        sorted (clock_readings (earlier @ (h, e, HookEvent provider request) # meanwhile @ [(h', e', HookEvent provider request')])) \<and>
        fst (ce_monotonic e') < snd (ce_monotonic e) + tm_ttl_seconds (ks_event_ids st0) \<and> n < tm_max_entries (ks_event_ids st0)"
    for meanwhile n st2 h' e' request' b'
  proof
    assume "fst (generic_webhook provider h' cf e' request' st2) = Inr (202, b')"
    then have "\<exists>hash. fst (channel_remember cf e' provider ?i hash st2) = Inr True"
      using generic_webhook_accepted same by (metis prod.collapse fst_conv)
    moreover have "case cc_inbox_tenant cf of
      Some tenant \<Rightarrow> receipt_known tenant (ks_receipts st2) (provider, ?i)
    | None \<Rightarrow> ttl_ok (ks_event_ids st2) \<and>
        entry_at n (snd (ce_monotonic e) + tm_ttl_seconds (ks_event_ids st0)) (provider, ?i) (tm_values (ks_event_ids st2)) \<and>
        fst (ce_monotonic e') < snd (ce_monotonic e) + tm_ttl_seconds (ks_event_ids st0)"
    proof (cases "cc_inbox_tenant cf")
      case None
      then have "sorted (clock_readings (earlier @ (h, e, HookEvent provider request) # meanwhile @
            [(h', e', HookEvent provider request')]))"
        "fst (ce_monotonic e') < snd (ce_monotonic e) + tm_ttl_seconds (ks_event_ids st0)" "n < tm_max_entries (ks_event_ids st0)"
        using kept by simp_all
      then show ?thesis using shadow_delivery_kept [OF assms(1) None assms(2) r served] None by simp
    next
      case (Some tenant)
      then show ?thesis using channel_remember_stored [OF r] channel_served_receipts [OF served] by simp
    qed
    ultimately show False using channel_known_refused by blast
  qed
  ultimately show ?thesis using w(1) channel_secret_required [OF w(1)] by blast
qed

theorem channel_webhook_authentic_witness:
  "let secret = replicate 32 (CHR ''w'');
       h = example_channel_host\<lparr>ch_env := [''VICIDIAL_WEBHOOK_SECRET'' \<mapsto> secret]\<rparr>;
       cf = example_channel\<lparr>cc_shadow := True\<rparr>;
       q = (\<lambda>i. \<lparr>rq_body = ''{}'', rq_json = [], rq_headers = [(''x-webhook-signature'', hmac_hexdigest secret ''100.{}''),
             (''x-webhook-timestamp'', ''100''), (''x-webhook-event-id'', i)], rq_query = [], rq_method = ''POST'',
             rq_path = ''/v1/webhooks/vicidial'', rq_client_ip = []\<rparr>);
       ev = (\<lambda>i. (h, example_channel_env, HookEvent ''vicidial'' (q i)));
       st = snd (channel_served cf [ev ''e0''] example_channel_state);
       first = generic_webhook ''vicidial'' h cf example_channel_env (q ''e1'') st;
       second = channel_served cf [ev ''e2'', (h, example_channel_env, SyncEvent [])] (snd first)
   in (\<exists>b. fst first = Inr (202, b)) \<and> fst second = 1 \<and>
      (\<forall>b. fst (generic_webhook ''vicidial'' h cf example_channel_env (q ''e1'') (snd second)) \<noteq> Inr (202, b))"
proof -
  let ?secret = "replicate 32 (CHR ''w'')"
  let ?h = "example_channel_host\<lparr>ch_env := [''VICIDIAL_WEBHOOK_SECRET'' \<mapsto> ?secret]\<rparr>"
  let ?cf = "example_channel\<lparr>cc_shadow := True\<rparr>"
  let ?q = "\<lambda>i. \<lparr>rq_body = ''{}'', rq_json = [], rq_headers = [(''x-webhook-signature'', hmac_hexdigest ?secret ''100.{}''),
             (''x-webhook-timestamp'', ''100''), (''x-webhook-event-id'', i)], rq_query = [], rq_method = ''POST'',
             rq_path = ''/v1/webhooks/vicidial'', rq_client_ip = []\<rparr>"
  let ?ev = "\<lambda>i. (?h, example_channel_env, HookEvent ''vicidial'' (?q i))"
  let ?ids = "\<lambda>is. example_channel_state\<lparr>ks_event_ids :=
      \<lparr>tm_ttl_seconds = 86400, tm_max_entries = 20000, tm_values = map (\<lambda>i. ((''vicidial'', i), (), 86401)) is\<rparr>\<rparr>"
  have n: "webhook_secret_name ''vicidial'' = ''VICIDIAL_WEBHOOK_SECRET''" "py_int ''100'' = Some 100" by code_simp+
  have k: "channel_secret ?h ''VICIDIAL_WEBHOOK_SECRET'' True = Inr ?secret"
    by (simp add: channel_secret_def given_def getenv_def)
  have hook: "\<exists>b. generic_webhook ''vicidial'' ?h ?cf example_channel_env (?q i) (?ids is) = (Inr (202, b), ?ids (is @ [i]))"
    if "i \<notin> set is" "i \<noteq> []" "length is < 3" for i "is"
  proof -
    let ?d = "map (\<lambda>i. ((''vicidial'', i), (), 86401)) is :: ((string \<times> string) \<times> unit \<times> real) list"
    have "ttl_prune 1 ?d = ?d" by (simp add: ttl_prune_def filter_map comp_def)
    moreover have "(''vicidial'', i) \<notin> fst ` set ?d" using that(1) by auto
    ultimately have "ttl_remember 1 1 (''vicidial'', i) (ks_event_ids (?ids is)) = (Inr True, ks_event_ids (?ids (is @ [i])))"
      using that(3) by (subst ttl_remember_new) simp_all
    then have "channel_remember ?cf example_channel_env ''vicidial'' i hash (?ids is) = (Inr True, ?ids (is @ [i]))" for hash
      by (simp add: channel_remember_def example_channel_def ttl_inbox_def example_channel_env_def)
    then show ?thesis using that(2) unfolding generic_webhook_def n k
      by (simp add: dict_get_or_def verify_generic_def generic_check_def n webhook_secret_def example_channel_env_def
        webhook_accept_def webhook_reply_def)
  qed
  have start: "example_channel_state = ?ids []" by (simp add: example_channel_state_def)
  obtain b0 where h0: "generic_webhook ''vicidial'' ?h ?cf example_channel_env (?q ''e0'') (?ids []) = (Inr (202, b0), ?ids [''e0''])"
    using hook [of "''e0''" "[]"] by auto
  obtain b1 where h1: "generic_webhook ''vicidial'' ?h ?cf example_channel_env (?q ''e1'') (?ids [''e0'']) = (Inr (202, b1), ?ids [''e0'', ''e1''])"
    using hook [of "''e1''" "[''e0'']"] by auto
  obtain b2 where h2: "generic_webhook ''vicidial'' ?h ?cf example_channel_env (?q ''e2'') (?ids [''e0'', ''e1'']) =
      (Inr (202, b2), ?ids [''e0'', ''e1'', ''e2''])"
    using hook [of "''e2''" "[''e0'', ''e1'']"] by auto
  obtain x where sync: "marketia_sync ?h ?cf [] (?ids [''e0'', ''e1'', ''e2'']) = (x, ?ids [''e0'', ''e1'', ''e2''])"
    by (simp add: marketia_sync_def example_channel_def body_item_def split: prod.splits sum.splits)
  have first: "channel_served ?cf [?ev ''e0''] (?ids []) = (1, ?ids [''e0''])" using h0 by simp
  have second: "channel_served ?cf [?ev ''e2'', (?h, example_channel_env, SyncEvent [])] (?ids [''e0'', ''e1'']) = (1, ?ids [''e0'', ''e1'', ''e2''])"
    using h2 sync by simp
  have kept: "fst (generic_webhook ''vicidial'' ?h ?cf example_channel_env (?q ''e1'') (?ids [''e0'', ''e1'', ''e2''])) \<noteq> Inr (202, b)" for b
    by (rule channel_webhook_authentic [OF first _ h1, THEN conjunct2, THEN conjunct2, rule_format,
          where meanwhile = "[?ev ''e2'', (?h, example_channel_env, SyncEvent [])]" and n = 1])
      (use second in \<open>simp_all add: example_channel_env_def clock_readings_def example_channel_state_def\<close>)
  have served: "channel_served ?cf [?ev ''e0''] example_channel_state = (1, ?ids [''e0''])"
    using first by (simp only: start [symmetric])
  show ?thesis unfolding Let_def served snd_conv h1 second fst_conv using kept by blast
qed

end
