(* ===== verification/PgWorkflow.thy ===== *)
theory PgWorkflow
  imports PgStores Workflow
begin

text \<open>
  services/orchestrator/app/postgres_workflow.py: the runs of the orchestrator in PostgreSQL.
  A method is one transaction over the tables graph_run, graph_checkpoint, workflow_event and
  human_action and the audit trail; a raised error undoes it. A \<open>jsonb\<close> column keeps the value
  it is given up to the order of the keys, which no code that reads it sees: it is modelled by
  the value in key order, \<^const>\<open>json_canon\<close>.
\<close>

record graph_run_row =
  gr_id :: string
  gr_tenant_id :: string
  gr_contact_id :: string
  gr_campaign_version_id :: string
  gr_stage :: string
  gr_status :: string
  gr_schema_version :: int
  gr_workflow_version :: string
  gr_version :: int

record checkpoint_row =
  gc_run_id :: string
  gc_checkpoint_no :: int
  gc_tenant_id :: string
  gc_state :: json
  gc_state_hash :: string
  gc_workflow_version :: string

record action_row =
  hr_id :: string
  hr_tenant_id :: string
  hr_run_id :: string
  hr_subject_id :: string
  hr_subject_hash :: string
  hr_status :: string
  hr_expires_at :: datetime
  hr_decision_comment :: "string option"
  hr_decided_by :: "string option"

record pgwf =
  pw_runs :: "graph_run_row list"
  pw_checkpoints :: "checkpoint_row list"
  pw_events :: "(string \<times> string \<times> string) list"
  pw_actions :: "action_row list"
  pw_audit :: "pg_audit list"

section \<open>The steps of a transaction\<close>

definition pw_set_tenant :: "string \<Rightarrow> pgwf \<Rightarrow> unit res \<times> pgwf" where
  "pw_set_tenant tenant = tx_lift (if tenant = [] then raise ValueError ''TENANT_REQUIRED'' else Inr ())"

definition state_row :: "run_state \<Rightarrow> checkpoint_row" where
  "state_row s =
     \<lparr>gc_run_id = rn_run_id s, gc_checkpoint_no = rn_checkpoint_no s, gc_tenant_id = rn_tenant_id s,
      gc_state = json_canon (JObj (run_dict s)), gc_state_hash = sha256_hex (JObj (run_dict s)),
      gc_workflow_version = rn_workflow_version s\<rparr>"

text \<open>\<open>_checkpoint\<close>; (run_id, checkpoint_no) is the primary key.\<close>

definition pw_checkpoint :: "run_state \<Rightarrow> pgwf \<Rightarrow> run_state res \<times> pgwf" where
  "pw_checkpoint s db =
     (let s' = s\<lparr>rn_checkpoint_no := rn_checkpoint_no s + 1\<rparr> in
      if \<exists>c \<in> set (pw_checkpoints db). gc_run_id c = rn_run_id s' \<and> gc_checkpoint_no c = rn_checkpoint_no s'
      then (raise DatabaseError ''UNIQUE_VIOLATION'', db)
      else (Inr s', db\<lparr>
        pw_checkpoints := pw_checkpoints db @ [state_row s'],
        pw_runs := map (\<lambda>r. if gr_tenant_id r = rn_tenant_id s' \<and> gr_id r = rn_run_id s'
          then r\<lparr>gr_stage := stage_value (rn_stage s'), gr_status := rn_status s', gr_workflow_version := rn_workflow_version s',
                 gr_schema_version := rn_schema_version s', gr_version := gr_version r + 1\<rparr>
          else r) (pw_runs db)\<rparr>))"

text \<open>The newest checkpoint of a run: \<open>ORDER BY checkpoint_no DESC LIMIT 1\<close>.\<close>

definition newest_checkpoint :: "string \<Rightarrow> string \<Rightarrow> checkpoint_row list \<Rightarrow> checkpoint_row option" where
  "newest_checkpoint tenant run_id rows =
     (case filter (\<lambda>c. gc_tenant_id c = tenant \<and> gc_run_id c = run_id) rows of
        [] \<Rightarrow> None
      | cs \<Rightarrow> Some (last (sort_key gc_checkpoint_no cs)))"

definition pw_locked_state :: "string \<Rightarrow> string \<Rightarrow> pgwf \<Rightarrow> run_state res \<times> pgwf" where
  "pw_locked_state tenant run_id db = tx_lift
     (if \<not> (\<exists>r \<in> set (pw_runs db). gr_tenant_id r = tenant \<and> gr_id r = run_id) then raise ValueError ''RUN_NOT_FOUND''
      else (case newest_checkpoint tenant run_id (pw_checkpoints db) of
              None \<Rightarrow> raise ValueError ''RUN_NOT_FOUND''
            | Some c \<Rightarrow>
                if sha256_hex (gc_state c) \<noteq> gc_state_hash c then raise ValueError ''CHECKPOINT_HASH_INVALID''
                else rbind (of_option (Exn TypeError ''dict'') (json_obj (gc_state c))) run_of)) db"

definition pw_audited ::
  "string \<Rightarrow> string \<Rightarrow> string \<Rightarrow> string \<Rightarrow> string \<Rightarrow> string \<Rightarrow> string \<Rightarrow> string list \<Rightarrow> pgwf \<Rightarrow> unit res \<times> pgwf" where
  "pw_audited tenant actor_type actor action resource_type resource correlation reasons db =
     (Inr (), db\<lparr>pw_audit := pw_audit db @
        [\<lparr>pa_tenant_id = tenant, pa_actor_type = actor_type, pa_actor_id = actor, pa_action = action,
          pa_resource_type = resource_type, pa_resource_id = resource, pa_decision_id = None,
          pa_reason_codes = reason_json reasons, pa_correlation_id = correlation\<rparr>]\<rparr>)"

definition pw_insert_run :: "run_state \<Rightarrow> pgwf \<Rightarrow> unit res \<times> pgwf" where
  "pw_insert_run s db =
     (if \<exists>r \<in> set (pw_runs db). gr_id r = rn_run_id s then (raise DatabaseError ''UNIQUE_VIOLATION'', db)
      else (Inr (), db\<lparr>pw_runs := pw_runs db @
        [\<lparr>gr_id = rn_run_id s, gr_tenant_id = rn_tenant_id s, gr_contact_id = rn_contact_id s,
          gr_campaign_version_id = rn_campaign_version_id s, gr_stage = stage_value (rn_stage s),
          gr_status = rn_status s, gr_schema_version = rn_schema_version s,
          gr_workflow_version = rn_workflow_version s, gr_version = 1\<rparr>]\<rparr>))"

text \<open>\<open>INSERT INTO workflow_event ... ON CONFLICT DO NOTHING RETURNING event_id\<close>.\<close>

definition pw_insert_event :: "string \<times> string \<times> string \<Rightarrow> pgwf \<Rightarrow> bool res \<times> pgwf" where
  "pw_insert_event k db =
     (if k \<in> set (pw_events db) then (Inr False, db) else (Inr True, db\<lparr>pw_events := pw_events db @ [k]\<rparr>))"

definition pw_insert_action :: "action_row \<Rightarrow> pgwf \<Rightarrow> unit res \<times> pgwf" where
  "pw_insert_action a db =
     (if \<exists>x \<in> set (pw_actions db). hr_id x = hr_id a then (raise DatabaseError ''UNIQUE_VIOLATION'', db)
      else (Inr (), db\<lparr>pw_actions := pw_actions db @ [a]\<rparr>))"

definition pw_update_action :: "string \<Rightarrow> string \<Rightarrow> (action_row \<Rightarrow> action_row) \<Rightarrow> pgwf \<Rightarrow> unit res \<times> pgwf" where
  "pw_update_action tenant action_id f db =
     (Inr (), db\<lparr>pw_actions := map (\<lambda>a. if hr_tenant_id a = tenant \<and> hr_id a = action_id then f a else a) (pw_actions db)\<rparr>)"

section \<open>The operations\<close>

definition pw_start :: "pg_env \<Rightarrow> string \<Rightarrow> string \<Rightarrow> string \<Rightarrow> string \<Rightarrow> pgwf \<Rightarrow> run_state res \<times> pgwf" where
  "pw_start e run_id tenant campaign_version_id contact_id =
     (let s = new_run tenant run_id campaign_version_id contact_id in
      pg_run e
        (tx_bind (pw_set_tenant tenant) (\<lambda>_.
         tx_bind (pw_insert_run s) (\<lambda>_.
         tx_bind (pw_checkpoint s) (\<lambda>s'.
         tx_bind (pw_audited tenant ''SERVICE'' ''orchestrator'' ''RUN_STARTED'' ''GRAPH_RUN'' run_id run_id []) (\<lambda>_.
           tx_lift (Inr s')))))))"

definition pw_get :: "pg_env \<Rightarrow> string \<Rightarrow> string \<Rightarrow> pgwf \<Rightarrow> run_state res \<times> pgwf" where
  "pw_get e tenant run_id = pg_run e (tx_bind (pw_set_tenant tenant) (\<lambda>_. pw_locked_state tenant run_id))"

text \<open>The branch of \<open>transition\<close> for a new event of a running run: the state before its checkpoint.\<close>

definition pw_advance ::
  "(json \<Rightarrow> string) \<Rightarrow> string \<Rightarrow> datetime \<Rightarrow> run_state \<Rightarrow> string \<Rightarrow> string \<Rightarrow> string \<Rightarrow> json \<Rightarrow> pgwf
    \<Rightarrow> run_state res \<times> pgwf" where
  "pw_advance repr action_id now s tenant run_id event_id payload =
     (if rn_stage s = APPROVE
      then
        tx_bind (tx_lift (payload_get payload ''subject_hash'' (JStr []))) (\<lambda>given_hash.
        (let subject_hash = py_str repr given_hash in
         if length subject_hash \<noteq> 64 then tx_lift (raise ValueError ''HUMAN_ACTION_SUBJECT_HASH_REQUIRED'')
         else
           tx_bind (pw_insert_action
             \<lparr>hr_id = action_id, hr_tenant_id = tenant, hr_run_id = run_id, hr_subject_id = rn_campaign_version_id s,
              hr_subject_hash = subject_hash, hr_status = ''PENDING'', hr_expires_at = now + day_us,
              hr_decision_comment = None, hr_decided_by = None\<rparr>) (\<lambda>_.
           tx_bind (pw_audited tenant ''SERVICE'' ''orchestrator'' ''HUMAN_ACTION_CREATED'' ''HUMAN_ACTION'' action_id run_id []) (\<lambda>_.
             tx_lift (Inr (s\<lparr>rn_status := ''WAITING_HUMAN'', rn_pending_human_action_id := Some action_id,
               rn_last_event_id := Some event_id\<rparr>))))))
      else tx_lift (Inr (s\<lparr>rn_stage := next_stage (rn_stage s), rn_last_event_id := Some event_id\<rparr>)))"

text \<open>\<open>transition\<close> on the state it has locked.\<close>

definition pw_take_event ::
  "(json \<Rightarrow> string) \<Rightarrow> string \<Rightarrow> datetime \<Rightarrow> string \<Rightarrow> string \<Rightarrow> string \<Rightarrow> json \<Rightarrow> run_state \<Rightarrow> pgwf
    \<Rightarrow> run_state res \<times> pgwf" where
  "pw_take_event repr action_id now tenant run_id event_id payload s =
     tx_bind (pw_insert_event (tenant, run_id, event_id)) (\<lambda>new.
       if \<not> new then tx_lift (Inr s)
       else if rn_status s \<noteq> ''RUNNING'' then tx_lift (raise ValueError ''RUN_NOT_ACTIVE'')
       else
         tx_bind (pw_advance repr action_id now s tenant run_id event_id payload) (\<lambda>s1.
         tx_bind (pw_checkpoint s1) (\<lambda>s'.
         tx_bind (pw_audited tenant ''SERVICE'' ''orchestrator'' ''RUN_TRANSITIONED'' ''GRAPH_RUN'' run_id run_id
                    [stage_value (rn_stage s'), rn_status s']) (\<lambda>_.
           tx_lift (Inr s')))))"

definition pw_transition ::
  "(json \<Rightarrow> string) \<Rightarrow> pg_env \<Rightarrow> string \<Rightarrow> datetime \<Rightarrow> string \<Rightarrow> string \<Rightarrow> string \<Rightarrow> json \<Rightarrow> pgwf
    \<Rightarrow> run_state res \<times> pgwf" where
  "pw_transition repr e action_id now tenant run_id event_id payload =
     pg_run e (tx_bind (pw_set_tenant tenant) (\<lambda>_. tx_bind (pw_locked_state tenant run_id)
       (pw_take_event repr action_id now tenant run_id event_id payload)))"

definition find_action :: "string \<Rightarrow> string \<Rightarrow> string \<Rightarrow> pgwf \<Rightarrow> action_row option" where
  "find_action tenant action_id run_id db =
     find (\<lambda>a. hr_tenant_id a = tenant \<and> hr_id a = action_id \<and> hr_run_id a = run_id) (pw_actions db)"

text \<open>\<open>decide_human_action\<close> on the state it has locked: expiry first, then the hash, then the decision.\<close>

definition pw_resolve ::
  "datetime \<Rightarrow> string \<Rightarrow> string \<Rightarrow> string \<Rightarrow> bool \<Rightarrow> string \<Rightarrow> string \<Rightarrow> string option \<Rightarrow> run_state \<Rightarrow> pgwf
    \<Rightarrow> run_state res \<times> pgwf" where
  "pw_resolve now tenant run_id action_id approved actor subject_hash comment s db =
     (case find_action tenant action_id run_id db of
        None \<Rightarrow> tx_lift (raise ValueError ''HUMAN_ACTION_NOT_PENDING'') db
      | Some a \<Rightarrow>
          if hr_status a \<noteq> ''PENDING'' then tx_lift (raise ValueError ''HUMAN_ACTION_NOT_PENDING'') db
          else if hr_expires_at a \<le> now then
            tx_bind (pw_update_action tenant action_id (\<lambda>a. a\<lparr>hr_status := ''EXPIRED''\<rparr>)) (\<lambda>_.
            tx_bind (pw_checkpoint (s\<lparr>rn_status := ''BLOCKED'', rn_pending_human_action_id := None\<rparr>)) (\<lambda>s'.
            tx_bind (pw_audited tenant ''SYSTEM'' ''orchestrator'' ''HUMAN_ACTION_EXPIRED'' ''HUMAN_ACTION'' action_id run_id []) (\<lambda>_.
              tx_lift (Inr s')))) db
          else if hr_subject_hash a \<noteq> subject_hash then tx_lift (raise ValueError ''HUMAN_ACTION_HASH_MISMATCH'') db
          else
            (let decision = (if approved then ''APPROVED'' else ''REJECTED'');
                 s1 = (if approved then s\<lparr>rn_status := ''RUNNING'', rn_stage := CONTACT, rn_pending_human_action_id := None\<rparr>
                       else s\<lparr>rn_status := ''BLOCKED'', rn_pending_human_action_id := None\<rparr>)
             in tx_bind (pw_update_action tenant action_id
                  (\<lambda>a. a\<lparr>hr_status := decision, hr_decision_comment := comment, hr_decided_by := Some actor\<rparr>)) (\<lambda>_.
                tx_bind (pw_checkpoint s1) (\<lambda>s'.
                tx_bind (pw_audited tenant ''USER'' actor (''HUMAN_ACTION_'' @ decision) ''HUMAN_ACTION'' action_id run_id []) (\<lambda>_.
                  tx_lift (Inr s')))) db))"

definition pw_decide ::
  "pg_env \<Rightarrow> datetime \<Rightarrow> string \<Rightarrow> string \<Rightarrow> string \<Rightarrow> bool \<Rightarrow> string \<Rightarrow> string \<Rightarrow> string option \<Rightarrow> pgwf
    \<Rightarrow> run_state res \<times> pgwf" where
  "pw_decide e now tenant run_id action_id approved actor subject_hash comment =
     pg_run e (tx_bind (pw_set_tenant tenant) (\<lambda>_. tx_bind (pw_locked_state tenant run_id)
       (pw_resolve now tenant run_id action_id approved actor subject_hash comment)))"

section \<open>Reading back a checkpoint\<close>

text \<open>The engine never fills these fields of a run.\<close>

definition plain_run :: "run_state \<Rightarrow> bool" where
  "plain_run s \<longleftrightarrow> rn_facts s = [] \<and> rn_attempts s = [] \<and> rn_next_action s = []"

lemma distinct_run_dict: "distinct (map fst (run_dict s))"
  unfolding run_dict_keys by (simp add: run_fields_def)

lemma plain_values: "plain_run s \<Longrightarrow> map (\<lambda>(k, v). (k, json_canon v)) (run_dict s) = run_dict s"
  by (simp add: run_dict_def plain_run_def str_or_null_def split: option.splits)

lemma plain_canon: "plain_run s \<Longrightarrow> json_canon (JObj (run_dict s)) = JObj (sort_key fst (run_dict s))"
  by (simp only: json_canon.simps plain_values)

lemma run_of_cong: "map_of kvs = map_of kvs' \<Longrightarrow> run_of kvs = run_of kvs'"
proof -
  assume m: "map_of kvs = map_of kvs'"
  then have "set (map fst kvs) = set (map fst kvs')" by (metis dom_map_of_conv_image_fst set_map)
  then show ?thesis by (simp only: run_of_def m)
qed

lemma map_of_sort_key: "distinct (map fst kvs) \<Longrightarrow> map_of (sort_key fst kvs) = map_of kvs"
  by (intro map_of_inject_set [THEN iffD2]) (simp_all add: distinct_map)

lemma run_of_stored:
  assumes "plain_run s"
  shows "rbind (of_option x (json_obj (gc_state (state_row s)))) run_of = Inr s"
    "sha256_hex (gc_state (state_row s)) = gc_state_hash (state_row s)"
proof -
  have "run_of (sort_key fst (run_dict s)) = Inr s"
    using run_of_cong [OF map_of_sort_key [OF distinct_run_dict]] run_of_dict by simp
  then show "rbind (of_option x (json_obj (gc_state (state_row s)))) run_of = Inr s"
    by (simp add: state_row_def plain_canon assms del: json_canon.simps)
  show "sha256_hex (gc_state (state_row s)) = gc_state_hash (state_row s)"
    using canonical_key_order [of "run_dict s" "sort_key fst (run_dict s)"]
    by (simp add: state_row_def plain_canon assms sha256_hex_def distinct_run_dict del: json_canon.simps canonical_json.simps)
qed

section \<open>The invariant of the tables\<close>

definition run_approved :: "action_row list \<Rightarrow> string \<Rightarrow> string \<Rightarrow> bool" where
  "run_approved as tenant run_id \<longleftrightarrow>
     (\<exists>a \<in> set as. hr_tenant_id a = tenant \<and> hr_run_id a = run_id \<and> hr_status a = ''APPROVED'')"

definition state_ok :: "action_row list \<Rightarrow> run_state \<Rightarrow> bool" where
  "state_ok as s \<longleftrightarrow> plain_run s \<and> (past_approval (rn_stage s) \<longrightarrow> run_approved as (rn_tenant_id s) (rn_run_id s))"

definition pgwf_ok :: "pgwf \<Rightarrow> bool" where
  "pgwf_ok db \<longleftrightarrow> (\<forall>c \<in> set (pw_checkpoints db). \<exists>s. c = state_row s \<and> state_ok (pw_actions db) s) \<and>
     distinct (map hr_id (pw_actions db))"

lemma newest_checkpoint_mem:
  "newest_checkpoint tenant run_id rows = Some c \<Longrightarrow> c \<in> set rows \<and> gc_tenant_id c = tenant \<and> gc_run_id c = run_id"
proof -
  assume n: "newest_checkpoint tenant run_id rows = Some c"
  let ?f = "filter (\<lambda>c. gc_tenant_id c = tenant \<and> gc_run_id c = run_id) rows"
  have "?f \<noteq> []" "c = last (sort_key gc_checkpoint_no ?f)"
    using n by (auto simp: newest_checkpoint_def split: list.splits)
  then have "c \<in> set (sort_key gc_checkpoint_no ?f)" by (metis last_in_set set_empty set_sort)
  then show ?thesis by simp
qed

lemma locked_state_same: "pw_locked_state tenant run_id db = (x, db') \<Longrightarrow> db' = db"
  by (simp add: pw_locked_state_def tx_lift_def)

lemma locked_state_ok:
  assumes "pgwf_ok db" "pw_locked_state tenant run_id db = (Inr s, db')"
  shows "db' = db" "state_ok (pw_actions db) s" "rn_tenant_id s = tenant" "rn_run_id s = run_id"
    "newest_checkpoint tenant run_id (pw_checkpoints db) = Some (state_row s)"
proof -
  show "db' = db" using assms(2) by (simp add: pw_locked_state_def)
  obtain c where c: "newest_checkpoint tenant run_id (pw_checkpoints db) = Some c"
    "rbind (of_option (Exn TypeError ''dict'') (json_obj (gc_state c))) run_of = Inr s"
    using assms(2) by (auto simp: pw_locked_state_def split: if_splits option.splits)
  note m = newest_checkpoint_mem [OF c(1)]
  then obtain t where t: "c = state_row t" "state_ok (pw_actions db) t" using assms(1) by (auto simp: pgwf_ok_def)
  then have "plain_run t" by (simp add: state_ok_def)
  then have "t = s" using run_of_stored(1) [of t] c(2) t(1) by simp
  then show "state_ok (pw_actions db) s" "rn_tenant_id s = tenant" "rn_run_id s = run_id"
    "newest_checkpoint tenant run_id (pw_checkpoints db) = Some (state_row s)"
    using t m c(1) by (auto simp: state_row_def)
qed

lemma pw_checkpoint_ok:
  assumes "pgwf_ok db" "state_ok (pw_actions db) s" "pw_checkpoint s db = (Inr s', db')"
  shows "pgwf_ok db'" "s' = s\<lparr>rn_checkpoint_no := rn_checkpoint_no s + 1\<rparr>" "pw_actions db' = pw_actions db"
    "pw_events db' = pw_events db"
proof -
  show s': "s' = s\<lparr>rn_checkpoint_no := rn_checkpoint_no s + 1\<rparr>" and a: "pw_actions db' = pw_actions db"
    and "pw_events db' = pw_events db"
    using assms(3) by (auto simp: pw_checkpoint_def Let_def split: if_splits)
  have "state_ok (pw_actions db) s'" using assms(2) s' by (simp add: state_ok_def plain_run_def)
  moreover have "pw_checkpoints db' = pw_checkpoints db @ [state_row s']"
    using assms(3) by (auto simp: pw_checkpoint_def Let_def split: if_splits)
  ultimately show "pgwf_ok db'" using assms(1) a by (auto simp: pgwf_ok_def)
qed

text \<open>What leaves the checkpoints alone and forgets no approval keeps the invariant.\<close>

lemma pgwf_ok_actions:
  assumes "pgwf_ok db" "pw_checkpoints db' = pw_checkpoints db" "distinct (map hr_id (pw_actions db'))"
    and "\<And>t r. run_approved (pw_actions db) t r \<Longrightarrow> run_approved (pw_actions db') t r"
  shows "pgwf_ok db'"
  using assms unfolding pgwf_ok_def state_ok_def by metis

lemma run_approved_append: "run_approved as t r \<Longrightarrow> run_approved (as @ bs) t r"
  by (auto simp: run_approved_def)

lemma run_approved_update:
  assumes "run_approved as t r" "\<And>a. a \<in> set as \<Longrightarrow> P a \<Longrightarrow> hr_status a \<noteq> ''APPROVED''"
  shows "run_approved (map (\<lambda>a. if P a then f a else a) as) t r"
proof -
  obtain a where a: "a \<in> set as" "hr_tenant_id a = t" "hr_run_id a = r" "hr_status a = ''APPROVED''"
    using assms(1) by (auto simp: run_approved_def)
  then have "\<not> P a" using assms(2) by blast
  then have "a \<in> set (map (\<lambda>a. if P a then f a else a) as)" using a(1) by force
  with a show ?thesis by (auto simp: run_approved_def)
qed

lemma find_action_row:
  "find_action tenant action_id run_id db = Some a \<Longrightarrow>
    a \<in> set (pw_actions db) \<and> hr_tenant_id a = tenant \<and> hr_id a = action_id \<and> hr_run_id a = run_id"
  by (auto simp: find_action_def find_Some_iff)

lemma unique_action:
  "distinct (map hr_id as) \<Longrightarrow> a \<in> set as \<Longrightarrow> b \<in> set as \<Longrightarrow> hr_id a = hr_id b \<Longrightarrow> a = b"
  by (metis distinct_map inj_onD)

lemma update_action_ok:
  assumes "pgwf_ok db" "find_action tenant action_id run_id db = Some a" "hr_status a \<noteq> ''APPROVED''"
    and "pw_update_action tenant action_id f db = (Inr (), db')" "\<And>x. hr_id (f x) = hr_id x"
  shows "pgwf_ok db'" "pw_actions db' = map (\<lambda>a. if hr_tenant_id a = tenant \<and> hr_id a = action_id then f a else a) (pw_actions db)"
proof -
  let ?P = "\<lambda>a. hr_tenant_id a = tenant \<and> hr_id a = action_id"
  have d: "distinct (map hr_id (pw_actions db))" using assms(1) by (simp add: pgwf_ok_def)
  show u: "pw_actions db' = map (\<lambda>a. if ?P a then f a else a) (pw_actions db)"
    using assms(4) by (auto simp: pw_update_action_def)
  have "map hr_id (pw_actions db') = map hr_id (pw_actions db)" using assms(5) u by simp
  then have d': "distinct (map hr_id (pw_actions db'))" using d by (simp only:)
  have p: "hr_status b \<noteq> ''APPROVED''" if "b \<in> set (pw_actions db)" "?P b" for b
  proof -
    have "b = a" using unique_action [OF d that(1), of a] find_action_row [OF assms(2)] that(2) by simp
    then show ?thesis using assms(3) by simp
  qed
  have c: "pw_checkpoints db' = pw_checkpoints db" using assms(4) by (auto simp: pw_update_action_def)
  show "pgwf_ok db'"
  proof (rule pgwf_ok_actions [OF assms(1) c d'])
    show "run_approved (pw_actions db) t r \<Longrightarrow> run_approved (pw_actions db') t r" for t r
      unfolding u by (rule run_approved_update) (use p in auto)
  qed
qed

lemma audited_ok: "pw_audited t aty a ac rt r co rs db = (x, db') \<Longrightarrow> pgwf_ok db \<Longrightarrow> pgwf_ok db' \<and> pw_actions db' = pw_actions db"
  by (auto simp: pw_audited_def pgwf_ok_def)

lemma set_tenant_same: "pw_set_tenant t db = (Inr u, db') \<longleftrightarrow> t \<noteq> [] \<and> db' = db"
  by (auto simp: pw_set_tenant_def)

lemma tx_locked:
  assumes "pg_run e (tx_bind (pw_set_tenant tenant) (\<lambda>_. tx_bind (pw_locked_state tenant run_id) f)) db = (Inr x, db')"
  shows "\<exists>s. pw_locked_state tenant run_id db = (Inr s, db) \<and> f s db = (Inr x, db') \<and> pg_fault e = None"
proof -
  obtain s db1 where "pw_locked_state tenant run_id db = (Inr s, db1)" "f s db1 = (Inr x, db')" "pg_fault e = None"
    using assms unfolding pg_run_Inr tx_bind_Inr set_tenant_same by blast
  then show ?thesis using locked_state_same by blast
qed

lemma pw_start_ok: "pgwf_ok db \<Longrightarrow> pw_start e run_id tenant version contact db = (Inr s, db') \<Longrightarrow> pgwf_ok db'"
proof -
  assume ok: "pgwf_ok db" and r: "pw_start e run_id tenant version contact db = (Inr s, db')"
  let ?n = "new_run tenant run_id version contact"
  obtain db1 db2 where d: "pw_insert_run ?n db = (Inr (), db1)" "pw_checkpoint ?n db1 = (Inr s, db2)"
    "pw_audited tenant ''SERVICE'' ''orchestrator'' ''RUN_STARTED'' ''GRAPH_RUN'' run_id run_id [] db2 = (Inr (), db')"
    using r by (auto simp: pw_start_def Let_def pg_run_Inr tx_bind_Inr set_tenant_same)
  have "pgwf_ok db1" using ok d(1) by (auto simp: pw_insert_run_def pgwf_ok_def split: if_splits)
  moreover have "state_ok (pw_actions db1) ?n" by (simp add: state_ok_def plain_run_def new_run_def past_approval_def)
  ultimately show "pgwf_ok db'" using pw_checkpoint_ok(1) d(2) audited_ok [OF d(3)] by blast
qed

lemma pw_advance_ok:
  assumes "pgwf_ok db" "state_ok (pw_actions db) s"
    and r: "pw_advance repr action_id now s tenant run_id event payload db = (Inr s1, db1)"
  shows "pgwf_ok db1 \<and> state_ok (pw_actions db1) s1"
proof (cases "rn_stage s = APPROVE")
  case True
  obtain a db2 where d: "pw_insert_action a db = (Inr (), db2)"
    "pw_audited tenant ''SERVICE'' ''orchestrator'' ''HUMAN_ACTION_CREATED'' ''HUMAN_ACTION'' action_id run_id [] db2 = (Inr (), db1)"
    "s1 = s\<lparr>rn_status := ''WAITING_HUMAN'', rn_pending_human_action_id := Some action_id, rn_last_event_id := Some event\<rparr>"
    using r True by (auto simp: pw_advance_def Let_def tx_bind_Inr split: if_splits)
  have "pgwf_ok db2"
    by (rule pgwf_ok_actions [OF assms(1)])
      (use d(1) assms(1) in \<open>force simp: pw_insert_action_def pgwf_ok_def intro: run_approved_append split: if_splits\<close>)+
  then show ?thesis using audited_ok [OF d(2)] assms(2) d(3) True by (simp add: state_ok_def plain_run_def past_approval_def)
next
  case False
  then show ?thesis using r assms next_stage_past [OF False] by (auto simp: pw_advance_def state_ok_def plain_run_def)
qed

lemma pw_transition_ok:
  assumes "pgwf_ok db" "pw_transition repr e action_id now tenant run_id event payload db = (Inr s', db')"
  shows "pgwf_ok db'"
proof -
  obtain s where l: "pw_locked_state tenant run_id db = (Inr s, db)"
    and r: "pw_take_event repr action_id now tenant run_id event payload s db = (Inr s', db')"
    using tx_locked [OF assms(2) [unfolded pw_transition_def]] by blast
  obtain new db1 where d: "pw_insert_event (tenant, run_id, event) db = (Inr new, db1)"
    by (cases "pw_insert_event (tenant, run_id, event) db") (auto simp: pw_insert_event_def split: if_splits)
  note r = r [unfolded pw_take_event_def tx_bind_def [of "pw_insert_event _"] d, simplified]
  have db1: "pgwf_ok db1" "pw_actions db1 = pw_actions db"
    using d assms(1) by (auto simp: pw_insert_event_def pgwf_ok_def split: if_splits)
  have s: "state_ok (pw_actions db1) s" using locked_state_ok(2) [OF assms(1) l] db1(2) by simp
  show ?thesis
  proof (cases "new \<and> rn_status s = ''RUNNING''")
    case True
    then obtain s1 db2 db3 where t: "pw_advance repr action_id now s tenant run_id event payload db1 = (Inr s1, db2)"
      "pw_checkpoint s1 db2 = (Inr s', db3)"
      "pw_audited tenant ''SERVICE'' ''orchestrator'' ''RUN_TRANSITIONED'' ''GRAPH_RUN'' run_id run_id
         [stage_value (rn_stage s'), rn_status s'] db3 = (Inr (), db')"
      using r by (auto simp: tx_bind_Inr)
    note a = pw_advance_ok [OF db1(1) s t(1)]
    show ?thesis using pw_checkpoint_ok(1) [OF _ _ t(2)] a audited_ok [OF t(3)] by blast
  next
    case False
    then show ?thesis using r db1(1) by (auto split: if_splits)
  qed
qed

lemma pw_decide_ok:
  assumes "pgwf_ok db" "pw_decide e now tenant run_id action_id approved actor hash comment db = (Inr s', db')"
  shows "pgwf_ok db'"
proof -
  obtain s where s: "pw_locked_state tenant run_id db = (Inr s, db)"
    and r: "pw_resolve now tenant run_id action_id approved actor hash comment s db = (Inr s', db')"
    using tx_locked [OF assms(2) [unfolded pw_decide_def]] by blast
  obtain a where a: "find_action tenant action_id run_id db = Some a" "hr_status a = ''PENDING''"
    using r by (auto simp: pw_resolve_def split: option.splits if_splits)
  note sok = locked_state_ok(2-4) [OF assms(1) s]
  note ids = find_action_row [OF a(1)]
  have step: "pgwf_ok db'"
    if u: "pw_update_action tenant action_id f db = (Inr (), db1)" and c: "pw_checkpoint s1 db1 = (Inr s', db2)"
      and au: "pw_audited tenant aty ac w ''HUMAN_ACTION'' action_id run_id [] db2 = (Inr (), db')"
      and f: "\<And>x. hr_id (f x) = hr_id x"
      and s1: "state_ok (pw_actions db1) s1" for f s1 db1 db2 aty ac w
  proof -
    have "pgwf_ok db1" using update_action_ok(1) [OF assms(1) a(1) _ u f] a(2) by simp
    then show ?thesis using pw_checkpoint_ok(1) [OF _ s1 c] audited_ok [OF au] by blast
  qed
  have keep: "state_ok (pw_actions db1) s"
    if "pw_update_action tenant action_id f db = (Inr (), db1)" "\<And>x. hr_id (f x) = hr_id x" for f db1
  proof -
    have u: "pw_actions db1 = map (\<lambda>a. if hr_tenant_id a = tenant \<and> hr_id a = action_id then f a else a) (pw_actions db)"
      using update_action_ok(2) [OF assms(1) a(1) _ that] a(2) by simp
    have p: "hr_status b \<noteq> ''APPROVED''" if "b \<in> set (pw_actions db)" "hr_tenant_id b = tenant \<and> hr_id b = action_id" for b
    proof -
      have "b = a" using unique_action [OF _ that(1), of a] ids that(2) assms(1) by (simp add: pgwf_ok_def)
      then show ?thesis using a(2) by simp
    qed
    have "run_approved (pw_actions db) t r \<Longrightarrow> run_approved (pw_actions db1) t r" for t r
      unfolding u by (rule run_approved_update) (use p in auto)
    then show ?thesis using sok(1) by (simp add: state_ok_def)
  qed
  show ?thesis
  proof (cases "hr_expires_at a \<le> now")
    case True
    let ?f = "\<lambda>a. a\<lparr>hr_status := ''EXPIRED''\<rparr>"
    obtain db1 db2 where t: "pw_update_action tenant action_id ?f db = (Inr (), db1)"
      "pw_checkpoint (s\<lparr>rn_status := ''BLOCKED'', rn_pending_human_action_id := None\<rparr>) db1 = (Inr s', db2)"
      "pw_audited tenant ''SYSTEM'' ''orchestrator'' ''HUMAN_ACTION_EXPIRED'' ''HUMAN_ACTION'' action_id run_id [] db2 = (Inr (), db')"
      using r a True unfolding pw_resolve_def by (auto simp: tx_bind_Inr)
    show ?thesis using keep [OF t(1)] by (intro step [OF t]) (auto simp: state_ok_def plain_run_def)
  next
    case False
    let ?d = "if approved then ''APPROVED'' else ''REJECTED''"
    let ?s1 = "if approved then s\<lparr>rn_status := ''RUNNING'', rn_stage := CONTACT, rn_pending_human_action_id := None\<rparr>
      else s\<lparr>rn_status := ''BLOCKED'', rn_pending_human_action_id := None\<rparr>"
    let ?f = "\<lambda>a. a\<lparr>hr_status := ?d, hr_decision_comment := comment, hr_decided_by := Some actor\<rparr>"
    obtain db1 db2 where t: "pw_update_action tenant action_id ?f db = (Inr (), db1)"
      "pw_checkpoint ?s1 db1 = (Inr s', db2)"
      "pw_audited tenant ''USER'' actor (''HUMAN_ACTION_'' @ ?d) ''HUMAN_ACTION'' action_id run_id [] db2 = (Inr (), db')"
      using r a False unfolding pw_resolve_def Let_def by (auto simp: tx_bind_Inr split: if_splits)
    have "approved \<Longrightarrow> run_approved (pw_actions db1) tenant run_id"
      using update_action_ok(2) [OF assms(1) a(1) _ t(1)] ids a(2)
      by (auto simp: run_approved_def intro!: bexI [of _ "?f a"] rev_image_eqI [of a])
    then have "state_ok (pw_actions db1) ?s1"
      using keep [OF t(1)] sok(2,3) by (auto simp: state_ok_def plain_run_def)
    then show ?thesis by (intro step [OF t]) auto
  qed
qed

section \<open>Properties\<close>

text \<open>The databases the operations can produce from empty tables, faults included.\<close>

inductive pw_reachable :: "pgwf \<Rightarrow> bool" where
  init: "pw_reachable \<lparr>pw_runs = [], pw_checkpoints = [], pw_events = [], pw_actions = [], pw_audit = []\<rparr>"
| start: "pw_reachable db \<Longrightarrow> pw_start e run_id tenant version contact db = (r, db') \<Longrightarrow> pw_reachable db'"
| transition: "pw_reachable db \<Longrightarrow> pw_transition repr e action_id now tenant run_id event payload db = (r, db') \<Longrightarrow> pw_reachable db'"
| decide: "pw_reachable db \<Longrightarrow> pw_decide e now tenant run_id action_id approved actor hash comment db = (r, db') \<Longrightarrow> pw_reachable db'"

lemma pw_reachable_ok: "pw_reachable db \<Longrightarrow> pgwf_ok db"
proof (induction rule: pw_reachable.induct)
  case init
  then show ?case by (simp add: pgwf_ok_def)
next
  case (start db e run_id tenant version contact r db')
  then show ?case by (cases r) (auto simp: pw_start_def Let_def dest: pg_run_Inl intro: pw_start_ok [unfolded pw_start_def Let_def])
next
  case (transition db repr e action_id now tenant run_id event payload r db')
  then show ?case by (cases r) (auto simp: pw_transition_def dest: pg_run_Inl intro: pw_transition_ok [unfolded pw_transition_def])
next
  case (decide db e now tenant run_id action_id approved actor hash comment r db')
  then show ?case by (cases r) (auto simp: pw_decide_def dest: pg_run_Inl intro: pw_decide_ok [unfolded pw_decide_def])
qed

lemma state_row_sel [simp]:
  "gc_run_id (state_row s) = rn_run_id s" "gc_checkpoint_no (state_row s) = rn_checkpoint_no s"
  "gc_tenant_id (state_row s) = rn_tenant_id s"
  by (simp_all add: state_row_def)

lemma locked_state_newest:
  assumes "\<exists>r \<in> set (pw_runs db). gr_tenant_id r = tenant \<and> gr_id r = run_id"
    and "newest_checkpoint tenant run_id (pw_checkpoints db) = Some (state_row s)" "plain_run s"
  shows "pw_locked_state tenant run_id db = (Inr s, db)"
  using assms(1,2) run_of_stored [OF assms(3)] by (simp add: pw_locked_state_def tx_lift_def)

text \<open>Progress: the run that is locked, and its checkpoint numbers.\<close>

definition current :: "pgwf \<Rightarrow> string \<Rightarrow> string \<Rightarrow> run_state \<Rightarrow> bool" where
  "current db tenant run_id s \<longleftrightarrow>
     pw_locked_state tenant run_id db = (Inr s, db) \<and> plain_run s \<and> rn_tenant_id s = tenant \<and> rn_run_id s = run_id \<and>
     (\<exists>r \<in> set (pw_runs db). gr_tenant_id r = tenant \<and> gr_id r = run_id) \<and>
     (\<forall>c \<in> set (pw_checkpoints db). gc_run_id c = run_id \<longrightarrow> gc_checkpoint_no c \<le> rn_checkpoint_no s)"

lemma last_sort_key:
  assumes "c \<in> set ys" "\<And>y. y \<in> set ys \<Longrightarrow> y \<noteq> c \<Longrightarrow> f y < f c"
  shows "last (sort_key f ys) = c"
proof (rule ccontr)
  let ?zs = "sort_key f ys"
  assume n: "last ?zs \<noteq> c"
  have c: "c \<in> set ?zs" using assms(1) by simp
  then have ne: "?zs \<noteq> []" by force
  then have "last ?zs \<in> set ys" using last_in_set [OF ne] by simp
  then have less: "f (last ?zs) < f c" using n assms(2) by blast
  obtain i where i: "i < length ?zs" "?zs ! i = c" using c unfolding in_set_conv_nth by blast
  then have "map f ?zs ! i \<le> map f ?zs ! (length ?zs - 1)" by (intro sorted_nth_mono) auto
  then show False using i ne less by (simp add: last_conv_nth)
qed

lemma newest_snoc:
  assumes "gc_tenant_id c = tenant" "gc_run_id c = run_id"
    and "\<forall>x \<in> set rows. gc_run_id x = run_id \<longrightarrow> gc_checkpoint_no x < gc_checkpoint_no c"
  shows "newest_checkpoint tenant run_id (rows @ [c]) = Some c"
proof -
  let ?f = "filter (\<lambda>c. gc_tenant_id c = tenant \<and> gc_run_id c = run_id) (rows @ [c])"
  have "last (sort_key gc_checkpoint_no ?f) = c" by (rule last_sort_key) (use assms in auto)
  moreover obtain z zs where "?f = z # zs" using assms by (cases ?f) auto
  ultimately show ?thesis by (simp add: newest_checkpoint_def)
qed

lemma checkpoint_current:
  assumes "\<exists>r \<in> set (pw_runs db). gr_tenant_id r = rn_tenant_id s \<and> gr_id r = rn_run_id s" "plain_run s"
    and b: "\<forall>c \<in> set (pw_checkpoints db). gc_run_id c = rn_run_id s \<longrightarrow> gc_checkpoint_no c \<le> rn_checkpoint_no s"
  shows "\<exists>db'. pw_checkpoint s db = (Inr (s\<lparr>rn_checkpoint_no := rn_checkpoint_no s + 1\<rparr>), db') \<and>
    current (db'\<lparr>pw_audit := x\<rparr>) (rn_tenant_id s) (rn_run_id s) (s\<lparr>rn_checkpoint_no := rn_checkpoint_no s + 1\<rparr>) \<and>
    pw_events db' = pw_events db \<and> pw_actions db' = pw_actions db"
proof -
  let ?s = "s\<lparr>rn_checkpoint_no := rn_checkpoint_no s + 1\<rparr>"
  let ?f = "\<lambda>r. if gr_tenant_id r = rn_tenant_id ?s \<and> gr_id r = rn_run_id ?s
    then r\<lparr>gr_stage := stage_value (rn_stage ?s), gr_status := rn_status ?s, gr_workflow_version := rn_workflow_version ?s,
           gr_schema_version := rn_schema_version ?s, gr_version := gr_version r + 1\<rparr> else r"
  define db' where "db' = db\<lparr>pw_checkpoints := pw_checkpoints db @ [state_row ?s], pw_runs := map ?f (pw_runs db)\<rparr>"
  have "\<not> (\<exists>c \<in> set (pw_checkpoints db). gc_run_id c = rn_run_id ?s \<and> gc_checkpoint_no c = rn_checkpoint_no ?s)"
    using b by auto
  then have "pw_checkpoint s db = (Inr ?s, db')" by (simp add: pw_checkpoint_def Let_def db'_def)
  then have c: "pw_checkpoint s db = (Inr ?s, db')" "pw_checkpoints db' = pw_checkpoints db @ [state_row ?s]"
    "pw_events db' = pw_events db" "pw_actions db' = pw_actions db"
    "map (\<lambda>r. (gr_tenant_id r, gr_id r)) (pw_runs db') = map (\<lambda>r. (gr_tenant_id r, gr_id r)) (pw_runs db)"
    by (simp_all add: db'_def)
  have "(rn_tenant_id s, rn_run_id s) \<in> set (map (\<lambda>r. (gr_tenant_id r, gr_id r)) (pw_runs db'))"
    unfolding c(5) using assms(1) by force
  then have k: "\<exists>r \<in> set (pw_runs (db'\<lparr>pw_audit := x\<rparr>)). gr_tenant_id r = rn_tenant_id s \<and> gr_id r = rn_run_id s" by force
  have n: "newest_checkpoint (rn_tenant_id s) (rn_run_id s) (pw_checkpoints (db'\<lparr>pw_audit := x\<rparr>)) = Some (state_row ?s)"
    using b by (simp add: c(2)) (rule newest_snoc, auto)
  have p: "plain_run ?s" using assms(2) by (simp add: plain_run_def)
  have "current (db'\<lparr>pw_audit := x\<rparr>) (rn_tenant_id s) (rn_run_id s) ?s"
    using locked_state_newest [OF k n p] k p b by (auto simp: current_def c(2))
  then show ?thesis using c by blast
qed

lemma pw_audited_eq: "pw_audited t aty a ac rt r co rs db = (Inr (), db\<lparr>pw_audit := pw_audit (snd (pw_audited t aty a ac rt r co rs db))\<rparr>)"
  by (simp add: pw_audited_def)

lemma transition_current:
  assumes "current db tenant run_id s" "tenant \<noteq> []" "(tenant, run_id, event) \<notin> set (pw_events db)"
    and "rn_status s = ''RUNNING''" "rn_stage s \<noteq> APPROVE" "pg_fault e = None"
  shows "\<exists>s' db'. pw_transition repr e action_id now tenant run_id event payload db = (Inr s', db') \<and>
    current db' tenant run_id s' \<and> rn_stage s' = next_stage (rn_stage s) \<and> rn_status s' = ''RUNNING'' \<and>
    pw_events db' = pw_events db @ [(tenant, run_id, event)] \<and> pw_actions db' = pw_actions db"
proof -
  let ?s1 = "s\<lparr>rn_stage := next_stage (rn_stage s), rn_last_event_id := Some event\<rparr>"
  let ?s' = "?s1\<lparr>rn_checkpoint_no := rn_checkpoint_no s + 1\<rparr>"
  let ?db1 = "db\<lparr>pw_events := pw_events db @ [(tenant, run_id, event)]\<rparr>"
  let ?x = "pw_audit db @ [\<lparr>pa_tenant_id = tenant, pa_actor_type = ''SERVICE'', pa_actor_id = ''orchestrator'',
    pa_action = ''RUN_TRANSITIONED'', pa_resource_type = ''GRAPH_RUN'', pa_resource_id = run_id, pa_decision_id = None,
    pa_reason_codes = reason_json [stage_value (rn_stage ?s'), rn_status ?s'], pa_correlation_id = run_id\<rparr>]"
  obtain db2 where c: "pw_checkpoint ?s1 ?db1 = (Inr ?s', db2)" "current (db2\<lparr>pw_audit := ?x\<rparr>) tenant run_id ?s'"
    "pw_events db2 = pw_events ?db1" "pw_actions db2 = pw_actions ?db1"
    using checkpoint_current [of ?db1 ?s1 ?x] assms(1) by (auto simp: current_def plain_run_def)
  have "pw_audit db2 = pw_audit db" using c(1) by (auto simp: pw_checkpoint_def Let_def split: if_splits)
  then have "pw_transition repr e action_id now tenant run_id event payload db = (Inr ?s', db2\<lparr>pw_audit := ?x\<rparr>)"
    using assms c(1) by (simp add: pw_transition_def pg_run_def pw_set_tenant_def tx_bind_def tx_lift_def current_def
      pw_take_event_def pw_insert_event_def pw_advance_def pw_audited_def)
  then show ?thesis using c assms(4) by simp
qed

lemma pw_checkpoint_audit: "pw_checkpoint s db = (Inr s', db') \<Longrightarrow> pw_audit db' = pw_audit db"
  by (auto simp: pw_checkpoint_def Let_def split: if_splits)

lemma request_current:
  assumes "current db tenant run_id s" "tenant \<noteq> []" "(tenant, run_id, event) \<notin> set (pw_events db)" "pw_actions db = []"
    and "rn_status s = ''RUNNING''" "rn_stage s = APPROVE" "pg_fault e = None" "length hash = 64"
  shows "\<exists>s' db'. pw_transition repr e action_id now tenant run_id event (JObj [(''subject_hash'', JStr hash)]) db = (Inr s', db') \<and>
    current db' tenant run_id s' \<and> rn_stage s' = APPROVE \<and>
    (\<exists>a. pw_actions db' = [a] \<and> hr_id a = action_id \<and> hr_tenant_id a = tenant \<and> hr_run_id a = run_id \<and>
      hr_status a = ''PENDING'' \<and> hr_subject_hash a = hash \<and> hr_expires_at a = now + day_us)"
proof -
  let ?s1 = "s\<lparr>rn_status := ''WAITING_HUMAN'', rn_pending_human_action_id := Some action_id, rn_last_event_id := Some event\<rparr>"
  let ?s' = "?s1\<lparr>rn_checkpoint_no := rn_checkpoint_no s + 1\<rparr>"
  let ?a = "\<lparr>hr_id = action_id, hr_tenant_id = tenant, hr_run_id = run_id, hr_subject_id = rn_campaign_version_id s,
    hr_subject_hash = hash, hr_status = ''PENDING'', hr_expires_at = now + day_us,
    hr_decision_comment = None, hr_decided_by = None\<rparr>"
  let ?db1 = "snd (pw_audited tenant ''SERVICE'' ''orchestrator'' ''HUMAN_ACTION_CREATED'' ''HUMAN_ACTION'' action_id run_id []
    (db\<lparr>pw_events := pw_events db @ [(tenant, run_id, event)], pw_actions := [?a]\<rparr>))"
  let ?x = "pw_audit ?db1 @ [\<lparr>pa_tenant_id = tenant, pa_actor_type = ''SERVICE'', pa_actor_id = ''orchestrator'',
    pa_action = ''RUN_TRANSITIONED'', pa_resource_type = ''GRAPH_RUN'', pa_resource_id = run_id, pa_decision_id = None,
    pa_reason_codes = reason_json [stage_value (rn_stage ?s'), rn_status ?s'], pa_correlation_id = run_id\<rparr>]"
  obtain db2 where c: "pw_checkpoint ?s1 ?db1 = (Inr ?s', db2)" "current (db2\<lparr>pw_audit := ?x\<rparr>) tenant run_id ?s'"
    "pw_actions db2 = pw_actions ?db1"
    using checkpoint_current [of ?db1 ?s1 ?x] assms(1) by (auto simp: current_def plain_run_def pw_audited_def)
  have "pw_transition repr e action_id now tenant run_id event (JObj [(''subject_hash'', JStr hash)]) db = (Inr ?s', db2\<lparr>pw_audit := ?x\<rparr>)"
    using assms c(1) pw_checkpoint_audit [OF c(1)]
    by (simp add: pw_transition_def pg_run_def pw_set_tenant_def tx_bind_def tx_lift_def current_def
      pw_take_event_def pw_insert_event_def pw_advance_def payload_get_def pw_insert_action_def Let_def pw_audited_def)
  then show ?thesis using c assms(6) by (simp add: pw_audited_def)
qed

lemma decide_current:
  assumes "current db tenant run_id s" "tenant \<noteq> []" "pw_actions db = [a]" "hr_id a = action_id" "hr_tenant_id a = tenant"
    and "hr_run_id a = run_id" "hr_status a = ''PENDING''" "hr_subject_hash a = hash" "now < hr_expires_at a" "pg_fault e = None"
  shows "\<exists>s' db'. pw_decide e now tenant run_id action_id True actor hash comment db = (Inr s', db') \<and>
    current db' tenant run_id s' \<and> rn_stage s' = CONTACT"
proof -
  let ?s1 = "s\<lparr>rn_status := ''RUNNING'', rn_stage := CONTACT, rn_pending_human_action_id := None\<rparr>"
  let ?s' = "?s1\<lparr>rn_checkpoint_no := rn_checkpoint_no s + 1\<rparr>"
  let ?db1 = "db\<lparr>pw_actions := [a\<lparr>hr_status := ''APPROVED'', hr_decision_comment := comment, hr_decided_by := Some actor\<rparr>]\<rparr>"
  let ?x = "pw_audit db @ [\<lparr>pa_tenant_id = tenant, pa_actor_type = ''USER'', pa_actor_id = actor,
    pa_action = ''HUMAN_ACTION_APPROVED'', pa_resource_type = ''HUMAN_ACTION'', pa_resource_id = action_id, pa_decision_id = None,
    pa_reason_codes = reason_json [], pa_correlation_id = run_id\<rparr>]"
  obtain db2 where c: "pw_checkpoint ?s1 ?db1 = (Inr ?s', db2)" "current (db2\<lparr>pw_audit := ?x\<rparr>) tenant run_id ?s'"
    using checkpoint_current [of ?db1 ?s1 ?x] assms(1) by (auto simp: current_def plain_run_def)
  have "pw_decide e now tenant run_id action_id True actor hash comment db = (Inr ?s', db2\<lparr>pw_audit := ?x\<rparr>)"
    using assms c(1) pw_checkpoint_audit [OF c(1)]
    by (simp add: pw_decide_def pg_run_def pw_set_tenant_def tx_bind_def tx_lift_def current_def
      pw_resolve_def find_action_def pw_update_action_def pw_audited_def)
  then show ?thesis using c by simp
qed

lemma start_current:
  "\<exists>s db. pw_start \<lparr>pg_now = 0, pg_fault = None\<rparr> ''r'' ''t'' ''v'' ''c''
      \<lparr>pw_runs = [], pw_checkpoints = [], pw_events = [], pw_actions = [], pw_audit = []\<rparr> = (Inr s, db) \<and>
    current db ''t'' ''r'' s \<and> rn_stage s = QUALIFY \<and> rn_status s = ''RUNNING'' \<and> pw_events db = [] \<and> pw_actions db = []"
proof -
  let ?n = "new_run ''t'' ''r'' ''v'' ''c''"
  let ?s = "?n\<lparr>rn_checkpoint_no := 1\<rparr>"
  let ?db = "\<lparr>pw_runs = [], pw_checkpoints = [], pw_events = [], pw_actions = [], pw_audit = []\<rparr>"
  let ?db1 = "snd (pw_insert_run ?n ?db)"
  let ?x = "[\<lparr>pa_tenant_id = ''t'', pa_actor_type = ''SERVICE'', pa_actor_id = ''orchestrator'',
    pa_action = ''RUN_STARTED'', pa_resource_type = ''GRAPH_RUN'', pa_resource_id = ''r'', pa_decision_id = None,
    pa_reason_codes = reason_json [], pa_correlation_id = ''r''\<rparr>]"
  obtain db2 where c: "pw_checkpoint ?n ?db1 = (Inr ?s, db2)" "current (db2\<lparr>pw_audit := ?x\<rparr>) ''t'' ''r'' ?s"
    "pw_events db2 = []" "pw_actions db2 = []"
    using checkpoint_current [of ?db1 ?n ?x] by (auto simp: pw_insert_run_def new_run_def plain_run_def)
  have "pw_start \<lparr>pg_now = 0, pg_fault = None\<rparr> ''r'' ''t'' ''v'' ''c'' ?db = (Inr ?s, db2\<lparr>pw_audit := ?x\<rparr>)"
    using c(1) pw_checkpoint_audit [OF c(1)]
    by (simp add: pw_start_def Let_def pg_run_def pw_set_tenant_def tx_bind_def tx_lift_def pw_insert_run_def pw_audited_def)
  then show ?thesis using c by (auto simp: new_run_def)
qed

text \<open>A run that waits for its approval, and goes on after it.\<close>

lemma some_pg_run_path:
  "\<exists>s1 d1 s2 d2 s3 d3 s4 d4 a. pw_start \<lparr>pg_now = 0, pg_fault = None\<rparr> ''r'' ''t'' ''v'' ''c''
      \<lparr>pw_runs = [], pw_checkpoints = [], pw_events = [], pw_actions = [], pw_audit = []\<rparr> = (Inr s1, d1) \<and>
    pw_transition (\<lambda>_. []) \<lparr>pg_now = 0, pg_fault = None\<rparr> ''a'' 0 ''t'' ''r'' ''1'' JNull d1 = (Inr s2, d2) \<and>
    pw_transition (\<lambda>_. []) \<lparr>pg_now = 0, pg_fault = None\<rparr> ''a'' 0 ''t'' ''r'' ''2'' JNull d2 = (Inr s3, d3) \<and>
    pw_transition (\<lambda>_. []) \<lparr>pg_now = 0, pg_fault = None\<rparr> ''a'' 0 ''t'' ''r'' ''3''
      (JObj [(''subject_hash'', JStr (replicate 64 (CHR ''a'')))]) d3 = (Inr s4, d4) \<and>
    current d4 ''t'' ''r'' s4 \<and> pw_actions d4 = [a] \<and> hr_id a = ''a'' \<and> hr_tenant_id a = ''t'' \<and>
    hr_run_id a = ''r'' \<and> hr_status a = ''PENDING'' \<and> hr_subject_hash a = replicate 64 (CHR ''a'') \<and> hr_expires_at a = 0 + day_us"
proof -
  let ?e = "\<lparr>pg_now = 0, pg_fault = None\<rparr>"
  obtain s1 d1 where 1: "pw_start ?e ''r'' ''t'' ''v'' ''c''
      \<lparr>pw_runs = [], pw_checkpoints = [], pw_events = [], pw_actions = [], pw_audit = []\<rparr> = (Inr s1, d1)"
    "current d1 ''t'' ''r'' s1" "rn_stage s1 = QUALIFY" "rn_status s1 = ''RUNNING''" "pw_events d1 = []" "pw_actions d1 = []"
    using start_current by blast
  obtain s2 d2 where 2: "pw_transition (\<lambda>_. []) ?e ''a'' 0 ''t'' ''r'' ''1'' JNull d1 = (Inr s2, d2)" "current d2 ''t'' ''r'' s2"
    "rn_stage s2 = PREPARE" "rn_status s2 = ''RUNNING''" "pw_events d2 = [(''t'', ''r'', ''1'')]" "pw_actions d2 = []"
    using transition_current [OF 1(2), of "''1''" ?e "\<lambda>_. []" "''a''" 0 JNull] 1 by (auto simp: next_stage_def stage_index_def stage_order_def)
  obtain s3 d3 where 3: "pw_transition (\<lambda>_. []) ?e ''a'' 0 ''t'' ''r'' ''2'' JNull d2 = (Inr s3, d3)" "current d3 ''t'' ''r'' s3"
    "rn_stage s3 = APPROVE" "rn_status s3 = ''RUNNING''" "pw_events d3 = [(''t'', ''r'', ''1''), (''t'', ''r'', ''2'')]" "pw_actions d3 = []"
    using transition_current [OF 2(2), of "''2''" ?e "\<lambda>_. []" "''a''" 0 JNull] 2 by (auto simp: next_stage_def stage_index_def stage_order_def)
  obtain s4 d4 a where 4: "pw_transition (\<lambda>_. []) ?e ''a'' 0 ''t'' ''r'' ''3''
      (JObj [(''subject_hash'', JStr (replicate 64 (CHR ''a'')))]) d3 = (Inr s4, d4)" "current d4 ''t'' ''r'' s4"
    "pw_actions d4 = [a]" "hr_id a = ''a''" "hr_tenant_id a = ''t''" "hr_run_id a = ''r''" "hr_status a = ''PENDING''"
    "hr_subject_hash a = replicate 64 (CHR ''a'')" "hr_expires_at a = 0 + day_us"
  proof -
    have "\<exists>s' db'. pw_transition (\<lambda>_. []) ?e ''a'' 0 ''t'' ''r'' ''3'' (JObj [(''subject_hash'', JStr (replicate 64 (CHR ''a'')))]) d3
        = (Inr s', db') \<and> current db' ''t'' ''r'' s' \<and> rn_stage s' = APPROVE \<and>
      (\<exists>a. pw_actions db' = [a] \<and> hr_id a = ''a'' \<and> hr_tenant_id a = ''t'' \<and> hr_run_id a = ''r'' \<and> hr_status a = ''PENDING'' \<and>
        hr_subject_hash a = replicate 64 (CHR ''a'') \<and> hr_expires_at a = 0 + day_us)"
      by (rule request_current [OF 3(2) _ _ 3(6,4,3)]) (simp_all add: 3(5))
    then show thesis by (elim exE conjE) (rule that)
  qed
  show ?thesis using 1(1) 2(1) 3(1) 4 by (intro exI conjI)
qed

lemma some_pg_run_waits:
  "\<exists>db s a. pw_reachable db \<and> current db ''t'' ''r'' s \<and> pw_actions db = [a] \<and> hr_id a = ''a'' \<and> hr_tenant_id a = ''t'' \<and>
    hr_run_id a = ''r'' \<and> hr_status a = ''PENDING'' \<and> hr_subject_hash a = replicate 64 (CHR ''a'') \<and> hr_expires_at a = 0 + day_us"
  using some_pg_run_path by (metis pw_reachable.init pw_reachable.start pw_reachable.transition)

lemma some_pg_run_decided:
  "\<exists>db0 db s. pw_reachable db0 \<and> current db ''t'' ''r'' s \<and> rn_stage s = CONTACT \<and>
    pw_decide \<lparr>pg_now = 0, pg_fault = None\<rparr> 1 ''t'' ''r'' ''a'' True ''u'' (replicate 64 (CHR ''a'')) None db0 = (Inr s, db)"
proof -
  let ?e = "\<lparr>pg_now = 0, pg_fault = None\<rparr>"
  obtain d4 s4 a where 4: "pw_reachable d4" "current d4 ''t'' ''r'' s4"
    "pw_actions d4 = [a]" "hr_id a = ''a''" "hr_tenant_id a = ''t''" "hr_run_id a = ''r''" "hr_status a = ''PENDING''"
    "hr_subject_hash a = replicate 64 (CHR ''a'')" "hr_expires_at a = 0 + day_us"
    using some_pg_run_waits by blast
  show ?thesis
    using decide_current [OF 4(2) _ 4(3-8), of 1 ?e "''u''" None] 4(1,9) by (auto simp: day_us_def)
qed

text \<open>
  In PostgreSQL mode a run is past its approval stage only when a human action that belongs to
  this run and this tenant has been approved, whatever sequence of requests, faults and retries
  produced the tables; and the run that is read back is the one last written.
\<close>

theorem pg_contact_needs_own_approval:
  assumes "pw_reachable db" "pw_get e tenant run_id db = (Inr s, db')"
  shows "newest_checkpoint tenant run_id (pw_checkpoints db) = Some (state_row s) \<and>
    (past_approval (rn_stage s) \<longrightarrow> (\<exists>a \<in> set (pw_actions db).
       hr_tenant_id a = tenant \<and> hr_run_id a = run_id \<and> hr_status a = ''APPROVED''))"
proof -
  have ok: "pgwf_ok db" using assms(1) by (rule pw_reachable_ok)
  have l: "pw_locked_state tenant run_id db = (Inr s, db')"
    using assms(2) unfolding pw_get_def pg_run_Inr tx_bind_Inr set_tenant_same by blast
  show ?thesis using locked_state_ok(2-5) [OF ok l] by (auto simp: state_ok_def run_approved_def)
qed

theorem pg_contact_needs_own_approval_witness:
  "\<exists>db a. pw_reachable db \<and> a \<in> set (pw_actions db) \<and> hr_tenant_id a = ''t'' \<and> hr_run_id a = ''r'' \<and> hr_status a = ''APPROVED''"
proof -
  obtain db0 db s where d: "pw_reachable db0" "current db ''t'' ''r'' s" "rn_stage s = CONTACT"
    "pw_decide \<lparr>pg_now = 0, pg_fault = None\<rparr> 1 ''t'' ''r'' ''a'' True ''u'' (replicate 64 (CHR ''a'')) None db0 = (Inr s, db)"
    using some_pg_run_decided by blast
  have r: "pw_reachable db" "pw_get \<lparr>pg_now = 0, pg_fault = None\<rparr> ''t'' ''r'' db = (Inr s, db)" "rn_stage s = CONTACT"
    using d pw_reachable.decide by (auto simp: pw_get_def pg_run_def tx_bind_def pw_set_tenant_def tx_lift_def current_def)
  then have "past_approval (rn_stage s)" by (simp add: past_approval_def)
  then show ?thesis using pg_contact_needs_own_approval [OF r(1,2)] r(1) by blast
qed

text \<open>
  A decision is taken only on a pending action of the same run and tenant; it moves the run to
  the contact stage only if it approves, the action has not expired and the hash is the one the
  action was created for; an expired action blocks the run whatever the decision.
\<close>

theorem pg_decision_sound:
  assumes "pw_decide e now tenant run_id action_id approved actor hash comment db = (Inr s', db')"
  shows "\<exists>a s. pw_locked_state tenant run_id db = (Inr s, db) \<and> a \<in> set (pw_actions db) \<and> hr_id a = action_id \<and>
    hr_tenant_id a = tenant \<and> hr_run_id a = run_id \<and> hr_status a = ''PENDING'' \<and>
    (if hr_expires_at a \<le> now then rn_status s' = ''BLOCKED'' \<and> rn_stage s' = rn_stage s
     else hr_subject_hash a = hash \<and>
       (if approved then rn_status s' = ''RUNNING'' \<and> rn_stage s' = CONTACT
        else rn_status s' = ''BLOCKED'' \<and> rn_stage s' = rn_stage s))"
proof -
  obtain s where s: "pw_locked_state tenant run_id db = (Inr s, db)"
    and r: "pw_resolve now tenant run_id action_id approved actor hash comment s db = (Inr s', db')"
    using tx_locked [OF assms [unfolded pw_decide_def]] by blast
  obtain a where a: "find_action tenant action_id run_id db = Some a" "hr_status a = ''PENDING''"
    using r by (auto simp: pw_resolve_def split: option.splits if_splits)
  have p: "pw_checkpoint t d = (Inr t', d') \<Longrightarrow> rn_status t' = rn_status t \<and> rn_stage t' = rn_stage t" for t t' d d'
    by (auto simp: pw_checkpoint_def Let_def split: if_splits)
  have "if hr_expires_at a \<le> now then rn_status s' = ''BLOCKED'' \<and> rn_stage s' = rn_stage s
     else hr_subject_hash a = hash \<and>
       (if approved then rn_status s' = ''RUNNING'' \<and> rn_stage s' = CONTACT
        else rn_status s' = ''BLOCKED'' \<and> rn_stage s' = rn_stage s)"
    using r a by (auto simp: pw_resolve_def Let_def tx_bind_Inr dest: p split: if_splits)
  then show ?thesis using s a find_action_row [OF a(1)] by blast
qed

theorem pg_decision_sound_witness:
  "\<exists>db0 (s :: run_state) db a. pw_decide \<lparr>pg_now = 0, pg_fault = None\<rparr> 1 ''t'' ''r'' ''a'' True ''u'' (replicate 64 (CHR ''a'')) None db0
      = (Inr s, db) \<and> rn_stage s = CONTACT \<and> a \<in> set (pw_actions db0) \<and> hr_run_id a = ''r'' \<and> hr_status a = ''PENDING''"
proof -
  obtain db0 db s where d: "rn_stage s = CONTACT"
    "pw_decide \<lparr>pg_now = 0, pg_fault = None\<rparr> 1 ''t'' ''r'' ''a'' True ''u'' (replicate 64 (CHR ''a'')) None db0 = (Inr s, db)"
    using some_pg_run_decided by blast
  from pg_decision_sound [OF d(2)] d show ?thesis by blast
qed

end
