(* ===== verification/Crm.thy ===== *)
theory Crm
  imports Http
begin

text \<open>
  services/crm\_api/app/domain.py: the in-memory repository of contacts, campaigns, suppressions,
  consents, interactions, opportunities and memory facts, with its outbox and the hash chain of
  audit events. Identifiers the callers give are JSON values (numbers compared by their text);
  \<open>deepcopy\<close> is the identity on values. \<open>legal_holds\<close> is never used.
\<close>

section \<open>State\<close>

type_synonym object = "(string \<times> json) list"

record campaign_row =
  cg_id :: string
  cg_tenant_id :: string
  cg_campaign_id :: string
  cg_manifest :: json
  cg_manifest_hash :: string
  cg_status :: string
  cg_approved_hash :: "string option"
  cg_version :: int
  cg_approval :: "(string \<times> string \<times> json) option"

record crm =
  cm_contacts :: "(string \<times> json, object) dict"
  cm_campaigns :: "(string \<times> json, campaign_row) dict"
  cm_suppressions :: "(string \<times> json, json) dict"
  cm_consents :: "(string \<times> string \<times> string, string) dict"
  cm_interactions :: "(string \<times> json, object) dict"
  cm_opportunities :: "(string \<times> json, object) dict"
  cm_memory_facts :: "(string \<times> json, object) dict"
  cm_data_requests :: "(string \<times> json, object) dict"
  cm_outbox :: "object list"
  cm_audit :: "object list"
  cm_heads :: "(string, object) dict"

definition crm_init :: crm where
  "crm_init = \<lparr>cm_contacts = [], cm_campaigns = [], cm_suppressions = [], cm_consents = [], cm_interactions = [],
     cm_opportunities = [], cm_memory_facts = [], cm_data_requests = [], cm_outbox = [], cm_audit = [], cm_heads = []\<rparr>"

text \<open>
  Arithmetic on floats by their \<open>repr\<close>: \<open>repr(float(s))\<close> of a text and \<open>repr(x + 1)\<close>.
\<close>

record float_ops =
  fl_of_text :: "string \<Rightarrow> string res"
  fl_add_one :: "string \<Rightarrow> string"

text \<open>The two \<open>uuid4\<close> an operation draws, for the record and for the event, and the time it sees.\<close>

record crm_env =
  ce_id :: string
  ce_event_id :: string
  ce_now :: string

text \<open>\<open>{**a, **b}\<close>.\<close>

definition dict_merge :: "object \<Rightarrow> object \<Rightarrow> object" where
  "dict_merge a b = fold (\<lambda>(k, v). dict_set k v) b a"

fun hashable :: "json \<Rightarrow> bool" where
  "hashable (JList _) = False"
| "hashable (JObj _) = False"
| "hashable _ = True"

definition crm_key :: "string \<Rightarrow> json \<Rightarrow> (string \<times> json) res" where
  "crm_key tenant item =
     (if tenant = [] then raise ValueError ''TENANT_REQUIRED''
      else if \<not> hashable item then raise TypeError ''unhashable'' else Inr (tenant, item))"

section \<open>The outbox and the audit chain\<close>

definition crm_event_body :: "crm_env \<Rightarrow> string \<Rightarrow> string \<Rightarrow> string \<Rightarrow> json \<Rightarrow> json \<Rightarrow> object" where
  "crm_event_body e tenant event_type aggregate_type aggregate_id payload =
     [(''id'', JStr (ce_event_id e)), (''tenant_id'', JStr tenant), (''event_type'', JStr event_type),
      (''aggregate_type'', JStr aggregate_type), (''aggregate_id'', aggregate_id), (''payload'', payload),
      (''occurred_at'', JStr (ce_now e))]"

definition chain_next :: "object option \<Rightarrow> object \<Rightarrow> object" where
  "chain_next head event =
     (let previous = (case head of None \<Rightarrow> JNull | Some h \<Rightarrow> dict_get_or JNull h ''event_hash'');
          sequence = (case head of None \<Rightarrow> 1 | Some h \<Rightarrow> (case map_of h ''sequence_no'' of Some (JInt n) \<Rightarrow> n + 1 | _ \<Rightarrow> 1));
          audit_body = [(''sequence_no'', JInt sequence), (''previous_hash'', previous)] @ event
      in audit_body @ [(''event_hash'', JStr (sha256_hex (JObj audit_body)))])"

definition crm_event :: "crm_env \<Rightarrow> string \<Rightarrow> string \<Rightarrow> string \<Rightarrow> json \<Rightarrow> json \<Rightarrow> crm \<Rightarrow> crm" where
  "crm_event e tenant event_type aggregate_type aggregate_id payload st =
     (let event = crm_event_body e tenant event_type aggregate_type aggregate_id payload;
          audit_body = chain_next (map_of (cm_heads st) tenant) event
      in st\<lparr>cm_outbox := cm_outbox st @ [event], cm_audit := cm_audit st @ [audit_body],
            cm_heads := dict_set tenant audit_body (cm_heads st)\<rparr>)"

definition export_audit :: "string \<Rightarrow> crm \<Rightarrow> object list" where
  "export_audit tenant st = filter (\<lambda>event. map_of event ''tenant_id'' = Some (JStr tenant)) (cm_audit st)"

text \<open>Whether a JSON value equals an integer in Python; \<open>True\<close> is 1.\<close>

fun equals_int :: "json \<Rightarrow> int \<Rightarrow> bool" where
  "equals_int (JInt i) n = (i = n)"
| "equals_int (JBool b) n = ((if b then 1 else 0) = n)"
| "equals_int (JFloat s) n = (s = int_dec n @ ''.0'')"
| "equals_int _ n = False"

fun verify_from :: "int \<Rightarrow> json \<Rightarrow> object list \<Rightarrow> bool" where
  "verify_from n previous [] = True"
| "verify_from n previous (event # events) =
     (let supplied_hash = dict_get_or JNull event ''event_hash''; body = dict_pop ''event_hash'' event in
      if \<not> equals_int (dict_get_or JNull body ''sequence_no'') n \<or> dict_get_or JNull body ''previous_hash'' \<noteq> previous then False
      else if supplied_hash \<noteq> JStr (sha256_hex (JObj body)) then False
      else verify_from (n + 1) supplied_hash events)"

definition verify_audit :: "object list \<Rightarrow> bool" where
  "verify_audit events = verify_from 1 JNull events"

section \<open>Operations\<close>

definition create_contact :: "crm_env \<Rightarrow> string \<Rightarrow> object \<Rightarrow> crm \<Rightarrow> json res \<times> crm" where
  "create_contact e tenant data st =
     (let contact_id = dict_get_or (JStr (ce_id e)) data ''id'';
          contact = dict_merge [(''id'', contact_id), (''tenant_id'', JStr tenant), (''version'', JInt 1)] data in
      case crm_key tenant contact_id of
        Inl x \<Rightarrow> (Inl x, st)
      | Inr k \<Rightarrow> (Inr (JObj contact), crm_event e tenant ''contact.created'' ''contact'' contact_id (JObj contact)
          (st\<lparr>cm_contacts := dict_set k contact (cm_contacts st)\<rparr>)))"

text \<open>A campaign version as the dictionary the code keeps.\<close>

definition campaign_json :: "campaign_row \<Rightarrow> json" where
  "campaign_json c = JObj
     ([(''id'', JStr (cg_id c)), (''tenant_id'', JStr (cg_tenant_id c)), (''campaign_id'', JStr (cg_campaign_id c)),
       (''manifest'', cg_manifest c), (''manifest_hash'', JStr (cg_manifest_hash c)), (''status'', JStr (cg_status c)),
       (''approved_hash'', case cg_approved_hash c of None \<Rightarrow> JNull | Some h \<Rightarrow> JStr h), (''version'', JInt (cg_version c))] @
      (case cg_approval c of None \<Rightarrow> []
       | Some (by_id, role, note) \<Rightarrow> [(''approved_by'', JStr by_id), (''approver_role'', JStr role), (''approval_comment'', note)]))"

definition create_campaign_version :: "crm_env \<Rightarrow> string \<Rightarrow> string \<Rightarrow> json \<Rightarrow> crm \<Rightarrow> json res \<times> crm" where
  "create_campaign_version e tenant campaign_id manifest st =
     (let row = \<lparr>cg_id = ce_id e, cg_tenant_id = tenant, cg_campaign_id = campaign_id, cg_manifest = manifest,
        cg_manifest_hash = sha256_hex manifest, cg_status = ''PENDING_APPROVAL'', cg_approved_hash = None, cg_version = 1,
        cg_approval = None\<rparr> in
      case crm_key tenant (JStr (ce_id e)) of
        Inl x \<Rightarrow> (Inl x, st)
      | Inr k \<Rightarrow> (Inr (campaign_json row), crm_event e tenant ''campaign.version.created'' ''campaign_version'' (JStr (ce_id e))
          (JObj [(''canonical'', JStr (canonical_json manifest))]) (st\<lparr>cm_campaigns := dict_set k row (cm_campaigns st)\<rparr>)))"

text \<open>\<open>self.campaigns[self._key(tenant_id, version_id)]\<close>.\<close>

definition campaign_at :: "string \<Rightarrow> string \<Rightarrow> crm \<Rightarrow> ((string \<times> json) \<times> campaign_row) res" where
  "campaign_at tenant version_id st =
     rbind (crm_key tenant (JStr version_id)) (\<lambda>k.
       of_option (Exn KeyError version_id) (map_option (\<lambda>row. (k, row)) (map_of (cm_campaigns st) k)))"

definition approve_campaign ::
  "crm_env \<Rightarrow> string \<Rightarrow> string \<Rightarrow> string \<Rightarrow> string \<Rightarrow> string \<Rightarrow> json \<Rightarrow> crm \<Rightarrow> json res \<times> crm" where
  "approve_campaign e tenant version_id approver_id subject_hash approver_role note st =
     (case campaign_at tenant version_id st of
        Inl x \<Rightarrow> (Inl x, st)
      | Inr (k, row) \<Rightarrow>
          if cg_manifest_hash row \<noteq> subject_hash then (raise ValueError ''APPROVAL_HASH_MISMATCH'', st)
          else
            (let row' = row\<lparr>cg_status := ''APPROVED'', cg_approved_hash := Some subject_hash,
               cg_approval := Some (approver_id, approver_role, note)\<rparr> in
             (Inr (campaign_json row'), crm_event e tenant ''campaign.version.approved'' ''campaign_version'' (JStr version_id)
               (JObj [(''approver_id'', JStr approver_id)]) (st\<lparr>cm_campaigns := dict_set k row' (cm_campaigns st)\<rparr>))))"

definition amend_campaign :: "crm_env \<Rightarrow> string \<Rightarrow> string \<Rightarrow> json \<Rightarrow> crm \<Rightarrow> json res \<times> crm" where
  "amend_campaign e tenant version_id manifest st =
     (case campaign_at tenant version_id st of
        Inl x \<Rightarrow> (Inl x, st)
      | Inr (k, row) \<Rightarrow>
          (let row' = row\<lparr>cg_manifest := manifest, cg_manifest_hash := sha256_hex manifest, cg_status := ''PENDING_APPROVAL'',
             cg_approved_hash := None, cg_version := cg_version row + 1\<rparr> in
           (Inr (campaign_json row'), crm_event e tenant ''campaign.version.amended'' ''campaign_version'' (JStr version_id)
             (JObj []) (st\<lparr>cm_campaigns := dict_set k row' (cm_campaigns st)\<rparr>))))"

definition crm_suppress :: "crm_env \<Rightarrow> string \<Rightarrow> string \<Rightarrow> json \<Rightarrow> crm \<Rightarrow> json res \<times> crm" where
  "crm_suppress e tenant contact_id reason st =
     (case crm_key tenant (JStr contact_id) of
        Inl x \<Rightarrow> (Inl x, st)
      | Inr k \<Rightarrow> (Inr JNull, crm_event e tenant ''contact.suppressed'' ''contact'' (JStr contact_id) (JObj [(''reason'', reason)])
          (st\<lparr>cm_suppressions := dict_set k reason (cm_suppressions st)\<rparr>)))"

definition grant_consent :: "crm_env \<Rightarrow> string \<Rightarrow> string \<Rightarrow> string \<Rightarrow> string \<Rightarrow> crm \<Rightarrow> json res \<times> crm" where
  "grant_consent e tenant contact_id channel evidence_hash st =
     (Inr JNull, crm_event e tenant ''consent.granted'' ''contact'' (JStr contact_id) (JObj [(''channel'', JStr channel)])
        (st\<lparr>cm_consents := dict_set (tenant, contact_id, channel) evidence_hash (cm_consents st)\<rparr>))"

definition require_contact :: "string \<Rightarrow> string \<Rightarrow> crm \<Rightarrow> object res" where
  "require_contact tenant contact_id st =
     rbind (crm_key tenant (JStr contact_id)) (\<lambda>k.
       of_option (Exn KeyError ''CONTACT_NOT_FOUND_IN_TENANT'') (map_of (cm_contacts st) k))"

definition record_interaction :: "crm_env \<Rightarrow> string \<Rightarrow> string \<Rightarrow> object \<Rightarrow> crm \<Rightarrow> json res \<times> crm" where
  "record_interaction e tenant contact_id data st =
     (let interaction_id = dict_get_or (JStr (ce_id e)) data ''id'';
          new = dict_merge [(''id'', interaction_id), (''tenant_id'', JStr tenant), (''contact_id'', JStr contact_id),
            (''created_at'', JStr (ce_now e))] data in
      case rbind (require_contact tenant contact_id st) (\<lambda>_. crm_key tenant interaction_id) of
        Inl x \<Rightarrow> (Inl x, st)
      | Inr k \<Rightarrow>
          (case map_of (cm_interactions st) k of
             Some old \<Rightarrow> (Inr (JObj old), st)
           | None \<Rightarrow> (Inr (JObj new), crm_event e tenant ''interaction.recorded'' ''interaction'' interaction_id
               (JObj [(''contact_id'', JStr contact_id)]) (st\<lparr>cm_interactions := dict_set k new (cm_interactions st)\<rparr>))))"

text \<open>\<open>previous.get("version", 0) + 1\<close>: a version that is no number is a TypeError.\<close>

definition next_version :: "float_ops \<Rightarrow> object option \<Rightarrow> json res" where
  "next_version tf previous =
     (case dict_get_or (JInt 0) (case previous of None \<Rightarrow> [] | Some p \<Rightarrow> p) ''version'' of
        JInt n \<Rightarrow> Inr (JInt (n + 1)) | JBool b \<Rightarrow> Inr (JInt (if b then 2 else 1))
      | JFloat f \<Rightarrow> Inr (JFloat (fl_add_one tf f)) | _ \<Rightarrow> raise TypeError ''version'')"

definition upsert_opportunity :: "float_ops \<Rightarrow> crm_env \<Rightarrow> string \<Rightarrow> string \<Rightarrow> object \<Rightarrow> crm \<Rightarrow> json res \<times> crm" where
  "upsert_opportunity tf e tenant contact_id data st =
     (let opportunity_id = dict_get_or (JStr (ce_id e)) data ''id'' in
      case rbind (require_contact tenant contact_id st) (\<lambda>_. rbind (crm_key tenant opportunity_id) (\<lambda>k.
             rbind (next_version tf (map_of (cm_opportunities st) k)) (\<lambda>v. Inr (k, v)))) of
        Inl x \<Rightarrow> (Inl x, st)
      | Inr (k, v) \<Rightarrow>
          (let new = dict_merge [(''id'', opportunity_id), (''tenant_id'', JStr tenant), (''contact_id'', JStr contact_id),
             (''version'', v)] data in
           (Inr (JObj new), crm_event e tenant ''opportunity.upserted'' ''opportunity'' opportunity_id
             (JObj [(''stage'', dict_get_or JNull new ''stage'')]) (st\<lparr>cm_opportunities := dict_set k new (cm_opportunities st)\<rparr>))))"

text \<open>
  \<open>0 <= float(x) <= 1\<close>, for a float read off its \<open>repr\<close>.
\<close>

definition float_in_unit :: "string \<Rightarrow> bool" where
  "float_in_unit s = (s \<in> {''-0.0'', ''1.0''} \<or> starts_with s ''0.'' \<or>
     (s \<noteq> [] \<and> hd s \<noteq> CHR ''-'' \<and> (case split_once (CHR ''e'') s of None \<Rightarrow> False | Some (_, x) \<Rightarrow> starts_with x ''-'')))"

fun in_unit :: "float_ops \<Rightarrow> json \<Rightarrow> bool res" where
  "in_unit tf (JInt i) = Inr (0 \<le> i \<and> i \<le> 1)"
| "in_unit tf (JBool b) = Inr True"
| "in_unit tf (JFloat s) = Inr (float_in_unit s)"
| "in_unit tf (JStr s) = rbind (fl_of_text tf s) (\<lambda>f. Inr (float_in_unit f))"
| "in_unit tf _ = raise TypeError ''float() argument''"

definition fact_ok :: "float_ops \<Rightarrow> object \<Rightarrow> unit res" where
  "fact_ok tf facts =
     (let kind = dict_get_or JNull facts ''fact_kind'' in
      if \<not> hashable kind then raise TypeError ''unhashable''
      else if kind \<notin> {JStr ''DECLARED'', JStr ''OBSERVED'', JStr ''INFERRED''} then raise ValueError ''MEMORY_FACT_KIND_INVALID''
      else rbind (in_unit tf (dict_get_or (JInt (-1)) facts ''confidence'')) (\<lambda>b.
        if b then Inr () else raise ValueError ''MEMORY_CONFIDENCE_INVALID''))"

definition add_memory_fact ::
  "float_ops \<Rightarrow> crm_env \<Rightarrow> string \<Rightarrow> string \<Rightarrow> object \<Rightarrow> crm \<Rightarrow> json res \<times> crm" where
  "add_memory_fact tf e tenant contact_id facts st =
     (let new = dict_merge [(''id'', JStr (ce_id e)), (''tenant_id'', JStr tenant), (''contact_id'', JStr contact_id)] facts in
      case rbind (require_contact tenant contact_id st) (\<lambda>_. rbind (fact_ok tf facts) (\<lambda>_. crm_key tenant (JStr (ce_id e)))) of
        Inl x \<Rightarrow> (Inl x, st)
      | Inr k \<Rightarrow> (Inr (JObj new), crm_event e tenant ''memory.fact.added'' ''memory_fact'' (JStr (ce_id e))
          (JObj [(''predicate'', dict_get_or JNull facts ''predicate'')]) (st\<lparr>cm_memory_facts := dict_set k new (cm_memory_facts st)\<rparr>)))"

definition arco_types :: "string list" where
  "arco_types = [''ACCESS'', ''RECTIFICATION'', ''CANCELLATION'', ''OPPOSITION'', ''REVOCATION'', ''PORTABILITY'']"

definition request_arco :: "crm_env \<Rightarrow> string \<Rightarrow> string \<Rightarrow> string \<Rightarrow> string \<Rightarrow> crm \<Rightarrow> json res \<times> crm" where
  "request_arco e tenant contact_id request_type verification_ref st =
     (let new = [(''id'', JStr (ce_id e)), (''tenant_id'', JStr tenant), (''contact_id'', JStr contact_id),
        (''request_type'', JStr request_type), (''identity_verification_ref'', JStr verification_ref), (''status'', JStr ''OPEN'')] in
      case rbind (require_contact tenant contact_id st) (\<lambda>_.
             if request_type \<notin> set arco_types then raise ValueError ''ARCO_TYPE_INVALID'' else crm_key tenant (JStr (ce_id e))) of
        Inl x \<Rightarrow> (Inl x, st)
      | Inr k \<Rightarrow> (Inr (JObj new), crm_event e tenant ''privacy.request.opened'' ''data_subject_request'' (JStr (ce_id e))
          (JObj [(''type'', JStr request_type)]) (st\<lparr>cm_data_requests := dict_set k new (cm_data_requests st)\<rparr>)))"

section \<open>Queries\<close>

definition contact_rows :: "string \<Rightarrow> string \<Rightarrow> (string \<times> json, object) dict \<Rightarrow> json" where
  "contact_rows tenant contact_id rows =
     JList [JObj v. ((t, _), v) \<leftarrow> rows, t = tenant \<and> map_of v ''contact_id'' = Some (JStr contact_id)]"

definition consent_json :: "string \<Rightarrow> json" where
  "consent_json evidence_hash = JObj [(''active'', JBool True), (''evidence_hash'', JStr evidence_hash)]"

definition export_contact :: "string \<Rightarrow> string \<Rightarrow> crm \<Rightarrow> json res" where
  "export_contact tenant contact_id st =
     rbind (require_contact tenant contact_id st) (\<lambda>contact. Inr (JObj
       [(''contact'', JObj contact), (''interactions'', contact_rows tenant contact_id (cm_interactions st)),
        (''opportunities'', contact_rows tenant contact_id (cm_opportunities st)),
        (''memory_facts'', contact_rows tenant contact_id (cm_memory_facts st)),
        (''consents'', JList [consent_json h. ((t, c, _), h) \<leftarrow> cm_consents st, t = tenant \<and> c = contact_id]),
        (''suppression'', case map_of (cm_suppressions st) (tenant, JStr contact_id) of None \<Rightarrow> JNull
           | Some reason \<Rightarrow> JObj [(''active'', JBool True), (''reason'', reason)])]))"

text \<open>A value whose \<open>get\<close> is called.\<close>

fun as_object :: "json \<Rightarrow> object res" where
  "as_object (JObj kvs) = Inr kvs"
| "as_object _ = raise AttributeError ''get''"

definition contactability_evidence :: "string \<Rightarrow> string \<Rightarrow> string \<Rightarrow> string \<Rightarrow> crm \<Rightarrow> json res" where
  "contactability_evidence tenant contact_id channel campaign_version_id st =
     rbind (require_contact tenant contact_id st) (\<lambda>_.
     rbind (crm_key tenant (JStr campaign_version_id)) (\<lambda>k.
       (let campaign = map_of (cm_campaigns st) k in
        rbind (as_object (case campaign of None \<Rightarrow> JObj [] | Some row \<Rightarrow> cg_manifest row)) (\<lambda>manifest.
        rbind (as_object (dict_get_or (JObj []) manifest ''content_hashes'')) (\<lambda>content_hashes.
        rbind (as_object (dict_get_or (JObj []) manifest ''repep'')) (\<lambda>repep.
          Inr (JObj
            [(''suppressed'', JBool (has_key (cm_suppressions st) (tenant, JStr contact_id))),
             (''consent_active'', JBool (has_key (cm_consents st) (tenant, contact_id, channel))),
             (''campaign_approved'', JBool (case campaign of None \<Rightarrow> False
                | Some row \<Rightarrow> cg_status row = ''APPROVED'' \<and> cg_approved_hash row \<notin> {None, Some []})),
             (''approved_content_hash'', dict_get_or JNull content_hashes (py_lower channel)),
             (''repep_snapshot_valid'', JBool False), (''repep_listed'', JNull),
             (''repep_enabled'', JBool (truthy (dict_get_or (JBool False) repep ''enabled''))),
             (''repep_exemption_type'', dict_get_or JNull repep ''exemption_type''),
             (''repep_exemption_approved'', JBool (truthy (dict_get_or (JBool False) repep ''exemption_approved''))),
             (''repep_exemption_evidence_ref'', dict_get_or JNull repep ''exemption_evidence_ref'')])))))))"

section \<open>Runs of the repository\<close>

datatype crm_op =
    CreateContact string object
  | CreateCampaign string string json
  | ApproveCampaign string string string string string json
  | AmendCampaign string string json
  | Suppress string string json
  | GrantConsent string string string string
  | RecordInteraction string string object
  | UpsertOpportunity string string object
  | AddMemoryFact string string object
  | RequestArco string string string string

fun op_tenant :: "crm_op \<Rightarrow> string" where
  "op_tenant (CreateContact t _) = t"
| "op_tenant (CreateCampaign t _ _) = t"
| "op_tenant (ApproveCampaign t _ _ _ _ _) = t"
| "op_tenant (AmendCampaign t _ _) = t"
| "op_tenant (Suppress t _ _) = t"
| "op_tenant (GrantConsent t _ _ _) = t"
| "op_tenant (RecordInteraction t _ _) = t"
| "op_tenant (UpsertOpportunity t _ _) = t"
| "op_tenant (AddMemoryFact t _ _) = t"
| "op_tenant (RequestArco t _ _ _) = t"

fun crm_do :: "float_ops \<Rightarrow> crm_env \<Rightarrow> crm_op \<Rightarrow> crm \<Rightarrow> json res \<times> crm" where
  "crm_do tf e (CreateContact t d) st = create_contact e t d st"
| "crm_do tf e (CreateCampaign t c m) st = create_campaign_version e t c m st"
| "crm_do tf e (ApproveCampaign t v a h r n) st = approve_campaign e t v a h r n st"
| "crm_do tf e (AmendCampaign t v m) st = amend_campaign e t v m st"
| "crm_do tf e (Suppress t c r) st = crm_suppress e t c r st"
| "crm_do tf e (GrantConsent t c ch h) st = grant_consent e t c ch h st"
| "crm_do tf e (RecordInteraction t c d) st = record_interaction e t c d st"
| "crm_do tf e (UpsertOpportunity t c d) st = upsert_opportunity tf e t c d st"
| "crm_do tf e (AddMemoryFact t c d) st = add_memory_fact tf e t c d st"
| "crm_do tf e (RequestArco t c k v) st = request_arco e t c k v st"

definition crm_exec :: "float_ops \<Rightarrow> (crm_env \<times> crm_op) list \<Rightarrow> crm \<Rightarrow> crm" where
  "crm_exec tf ops st = foldl (\<lambda>st (e, p). snd (crm_do tf e p st)) st ops"

lemma crm_exec_simps [simp]:
  "crm_exec tf [] st = st"
  "crm_exec tf (ops @ [(e, p)]) st = snd (crm_do tf e p (crm_exec tf ops st))"
  by (simp_all add: crm_exec_def)

lemmas crm_op_defs = create_contact_def create_campaign_version_def approve_campaign_def amend_campaign_def crm_suppress_def
  grant_consent_def record_interaction_def upsert_opportunity_def add_memory_fact_def request_arco_def

lemma crm_event_simps [simp]:
  "cm_contacts (crm_event e t a b i p st) = cm_contacts st"
  "cm_campaigns (crm_event e t a b i p st) = cm_campaigns st"
  "cm_suppressions (crm_event e t a b i p st) = cm_suppressions st"
  "cm_consents (crm_event e t a b i p st) = cm_consents st"
  "cm_interactions (crm_event e t a b i p st) = cm_interactions st"
  "cm_opportunities (crm_event e t a b i p st) = cm_opportunities st"
  "cm_memory_facts (crm_event e t a b i p st) = cm_memory_facts st"
  "cm_data_requests (crm_event e t a b i p st) = cm_data_requests st"
  by (simp_all add: crm_event_def Let_def)

section \<open>The audit chain\<close>

lemma export_audit_fields [simp]:
  "export_audit t (st\<lparr>cm_contacts := a\<rparr>) = export_audit t st"
  "export_audit t (st\<lparr>cm_campaigns := b\<rparr>) = export_audit t st"
  "export_audit t (st\<lparr>cm_suppressions := c\<rparr>) = export_audit t st"
  "export_audit t (st\<lparr>cm_consents := d\<rparr>) = export_audit t st"
  "export_audit t (st\<lparr>cm_interactions := f\<rparr>) = export_audit t st"
  "export_audit t (st\<lparr>cm_opportunities := g\<rparr>) = export_audit t st"
  "export_audit t (st\<lparr>cm_memory_facts := h\<rparr>) = export_audit t st"
  "export_audit t (st\<lparr>cm_data_requests := i\<rparr>) = export_audit t st"
  by (simp_all add: export_audit_def)

definition chain_head :: "object list \<Rightarrow> json" where
  "chain_head events = (if events = [] then JNull else dict_get_or JNull (last events) ''event_hash'')"

lemma chain_head_simps [simp]: "chain_head [] = JNull" "chain_head (xs @ [x]) = dict_get_or JNull x ''event_hash''"
  by (simp_all add: chain_head_def)

lemma verify_from_append:
  "verify_from n p (xs @ ys) \<longleftrightarrow> verify_from n p xs \<and>
     verify_from (n + int (length xs)) (if xs = [] then p else chain_head xs) ys"
  by (induction xs arbitrary: n p) (auto simp: Let_def chain_head_def add.assoc add.commute [of 1])

lemma verify_audit_snoc:
  "verify_audit (xs @ [x]) \<longleftrightarrow> verify_audit xs \<and> verify_from (int (length xs) + 1) (chain_head xs) [x]"
  by (simp add: verify_audit_def verify_from_append add.commute chain_head_def)

text \<open>Every tenant's events verify, and its head is the last of them.\<close>

definition audit_ok :: "crm \<Rightarrow> bool" where
  "audit_ok st \<longleftrightarrow> (\<forall>t. verify_audit (export_audit t st) \<and>
     map_of (cm_heads st) t = (if export_audit t st = [] then None else Some (last (export_audit t st))) \<and>
     (export_audit t st \<noteq> [] \<longrightarrow> map_of (last (export_audit t st)) ''sequence_no'' = Some (JInt (int (length (export_audit t st))))))"

lemma chain_next_facts:
  assumes "event = crm_event_body e t a b i p"
  shows "map_of (chain_next h event) ''tenant_id'' = Some (JStr t)"
    "dict_pop ''event_hash'' (chain_next h event) =
      [(''sequence_no'', the (map_of (chain_next h event) ''sequence_no'')),
       (''previous_hash'', the (map_of (chain_next h event) ''previous_hash''))] @ event"
    "map_of (chain_next h event) ''event_hash'' = Some (JStr (sha256_hex (JObj (dict_pop ''event_hash'' (chain_next h event)))))"
    "map_of (chain_next h event) ''previous_hash'' = Some (case h of None \<Rightarrow> JNull | Some h \<Rightarrow> dict_get_or JNull h ''event_hash'')"
    "map_of (chain_next h event) ''sequence_no'' = Some (JInt (case h of None \<Rightarrow> 1
       | Some h \<Rightarrow> (case map_of h ''sequence_no'' of Some (JInt n) \<Rightarrow> n + 1 | _ \<Rightarrow> 1)))"
  by (simp_all add: assms chain_next_def Let_def crm_event_body_def)

lemma export_audit_event:
  "export_audit t (crm_event e u a b i p st) =
     export_audit t st @ (if t = u then [chain_next (map_of (cm_heads st) u) (crm_event_body e u a b i p)] else [])"
  by (simp add: export_audit_def crm_event_def Let_def chain_next_facts(1) [OF refl])

lemma audit_ok_event:
  assumes "audit_ok st"
  shows "audit_ok (crm_event e u a b i p st)"
proof -
  let ?x = "chain_next (map_of (cm_heads st) u) (crm_event_body e u a b i p)"
  note x = chain_next_facts [OF refl, of "map_of (cm_heads st) u" e u a b i p]
  let ?xs = "export_audit u st"
  have ok: "verify_audit ?xs" "map_of (cm_heads st) u = (if ?xs = [] then None else Some (last ?xs))"
    "?xs \<noteq> [] \<longrightarrow> map_of (last ?xs) ''sequence_no'' = Some (JInt (int (length ?xs)))"
    using assms by (simp_all add: audit_ok_def)
  have seq: "map_of ?x ''sequence_no'' = Some (JInt (int (length ?xs) + 1))" using ok(2,3) x(5) by (cases "?xs = []") auto
  have prev: "map_of ?x ''previous_hash'' = Some (chain_head ?xs)" using ok(2) x(4) by (simp add: chain_head_def)
  have "verify_from (int (length ?xs) + 1) (chain_head ?xs) [?x]"
    using seq prev x(3) by (simp add: Let_def dict_get_or_def x(2))
  then have "verify_audit (?xs @ [?x])" using ok(1) by (simp add: verify_audit_snoc)
  moreover have "map_of (cm_heads (crm_event e u a b i p st)) t = (if t = u then Some ?x else map_of (cm_heads st) t)" for t
    by (simp add: crm_event_def Let_def dict_simps)
  ultimately have "verify_audit (export_audit t (crm_event e u a b i p st)) \<and>
     map_of (cm_heads (crm_event e u a b i p st)) t = (if export_audit t (crm_event e u a b i p st) = [] then None
       else Some (last (export_audit t (crm_event e u a b i p st)))) \<and>
     (export_audit t (crm_event e u a b i p st) \<noteq> [] \<longrightarrow>
       map_of (last (export_audit t (crm_event e u a b i p st))) ''sequence_no'' =
         Some (JInt (int (length (export_audit t (crm_event e u a b i p st))))))" for t
    using assms seq unfolding export_audit_event by (cases "t = u") (simp_all add: audit_ok_def add.commute)
  then show ?thesis unfolding audit_ok_def by blast
qed

lemma audit_ok_eq: "audit_ok st \<Longrightarrow> cm_audit st' = cm_audit st \<Longrightarrow> cm_heads st' = cm_heads st \<Longrightarrow> audit_ok st'"
  by (simp add: audit_ok_def export_audit_def)

lemma crm_do_audit: "audit_ok st \<Longrightarrow> audit_ok (snd (crm_do tf e p st))"
  by (cases p) (auto simp: crm_op_defs Let_def split: sum.splits option.splits intro!: audit_ok_event elim!: audit_ok_eq)

lemma crm_exec_audit: "audit_ok (crm_exec tf ops crm_init)"
proof (induction ops rule: rev_induct)
  case Nil
  show ?case by (simp add: audit_ok_def export_audit_def crm_init_def verify_audit_def)
next
  case (snoc x ops)
  then show ?case by (cases x) (simp add: crm_do_audit)
qed

text \<open>
  C10: whatever operations of whatever tenants have run, the audit events a tenant exports form a
  chain its verifier accepts, and extending the history never invalidates an export.
\<close>

theorem exported_audit_verifies:
  "verify_audit (export_audit t (crm_exec tf ops crm_init)) \<and>
   (\<exists>later. export_audit t (crm_exec tf (ops @ further) crm_init) = export_audit t (crm_exec tf ops crm_init) @ later)"
proof -
  have "\<exists>later. export_audit t (crm_exec tf (ops @ further) crm_init) = export_audit t (crm_exec tf ops crm_init) @ later"
  proof (induction further rule: rev_induct)
    case (snoc x further)
    obtain e p where x: "x = (e, p)" by fastforce
    have step: "\<exists>later. export_audit t (snd (crm_do tf e p st)) = export_audit t st @ later" for st
      by (cases p) (auto simp: crm_op_defs Let_def export_audit_event split: sum.splits option.splits)
    have "crm_exec tf (ops @ further @ [x]) crm_init = snd (crm_do tf e p (crm_exec tf (ops @ further) crm_init))"
      using crm_exec_simps(2) [of tf "ops @ further" e p crm_init] by (simp add: x)
    then show ?case using snoc step [of "crm_exec tf (ops @ further) crm_init"] by auto
  qed simp
  then show ?thesis using crm_exec_audit [of tf ops] by (simp add: audit_ok_def)
qed

lemma verified_hash:
  assumes "verify_from n p [x]"
  shows "map_of x ''event_hash'' = Some (JStr (sha256_hex (JObj (dict_pop ''event_hash'' x))))"
    "dict_get_or JNull (dict_pop ''event_hash'' x) ''previous_hash'' = p"
  using assms by (simp_all add: Let_def dict_get_or_def split: if_splits option.splits)

lemma chain_head_text:
  assumes "verify_audit xs"
  shows "chain_head xs = JNull \<and> xs = [] \<or> (\<exists>h. chain_head xs = JStr h)"
  using assms by (cases xs rule: rev_cases) (auto simp: verify_audit_snoc dict_get_or_def simp del: verify_from.simps dest!: verified_hash(1))

lemma canon_text:
  assumes "map_option json_canon a = map_option json_canon b"
    and "(case a of None \<Rightarrow> JNull | Some v \<Rightarrow> v) \<in> insert JNull (range JStr)"
    and "(case b of None \<Rightarrow> JNull | Some v \<Rightarrow> v) \<in> insert JNull (range JStr)"
  shows "(case a of None \<Rightarrow> JNull | Some v \<Rightarrow> v) = (case b of None \<Rightarrow> JNull | Some v \<Rightarrow> v)"
  using assms by (auto split: option.splits)

lemma chain_equal:
  assumes "verify_audit xs" "verify_audit ys" "chain_head xs = chain_head ys"
    and "\<forall>x \<in> set xs. \<forall>y \<in> set ys. sha256_hex (JObj (dict_pop ''event_hash'' x)) = sha256_hex (JObj (dict_pop ''event_hash'' y)) \<longrightarrow>
      canonical_json (JObj (dict_pop ''event_hash'' x)) = canonical_json (JObj (dict_pop ''event_hash'' y))"
    and "\<forall>x \<in> set xs \<union> set ys. json_wf (JObj (dict_pop ''event_hash'' x))"
  shows "list_all2 (\<lambda>x y. map_of x ''event_hash'' = map_of y ''event_hash'' \<and>
    json_canon (JObj (dict_pop ''event_hash'' x)) = json_canon (JObj (dict_pop ''event_hash'' y))) xs ys"
  using assms
proof (induction xs arbitrary: ys rule: rev_induct)
  case Nil
  then show ?case using chain_head_text [OF Nil(2)] by auto
next
  case (snoc x xs)
  let ?b = "\<lambda>x. dict_pop ''event_hash'' x"
  have x: "verify_audit xs" "verify_from (int (length xs) + 1) (chain_head xs) [x]"
    using snoc.prems(1) by (simp_all add: verify_audit_snoc del: verify_from.simps)
  note vx = verified_hash [OF x(2)]
  obtain ys' y where ys: "ys = ys' @ [y]"
    using snoc.prems(3) vx(1) by (cases ys rule: rev_cases) (auto simp: dict_get_or_def)
  have y: "verify_audit ys'" "verify_from (int (length ys') + 1) (chain_head ys') [y]"
    using snoc.prems(2) by (simp_all add: ys verify_audit_snoc del: verify_from.simps)
  note vy = verified_hash [OF y(2)]
  have "sha256_hex (JObj (?b x)) = sha256_hex (JObj (?b y))" using snoc.prems(3) vx(1) vy(1) by (simp add: ys dict_get_or_def)
  then have "canonical_json (JObj (?b x)) = canonical_json (JObj (?b y))" using snoc.prems(4) by (simp add: ys)
  moreover have wf: "json_wf (JObj (?b x))" "json_wf (JObj (?b y))" using snoc.prems(5) by (simp_all add: ys)
  ultimately have c: "json_canon (JObj (?b x)) = json_canon (JObj (?b y))" using canonical_determines by blast
  have "distinct (map fst (?b x))" "distinct (map fst (?b y))" using wf by simp_all
  note mc = map_of_canon [OF this(1)] map_of_canon [OF this(2)]
  have canon: "map_option json_canon (map_of (?b x) k) = map_option json_canon (map_of (?b y) k)" for k
    using c mc(1) [of k] mc(2) [of k] by simp
  have "chain_head xs = chain_head ys'"
    using canon_text [OF canon [of "''previous_hash''"]] vx(2) vy(2) chain_head_text [OF x(1)] chain_head_text [OF y(1)]
    unfolding dict_get_or_def by (metis insertI1 insertI2 rangeI)
  from snoc.IH [OF x(1) y(1) this] have "list_all2 (\<lambda>x y. map_of x ''event_hash'' = map_of y ''event_hash'' \<and>
    json_canon (JObj (?b x)) = json_canon (JObj (?b y))) xs ys'"
    using snoc.prems(4,5) by (simp add: ys)
  moreover have "map_of x ''event_hash'' = map_of y ''event_hash''" using vx(1) vy(1) c \<open>sha256_hex (JObj (?b x)) = _\<close> by simp
  ultimately show ?case using c by (simp add: ys list_all2_appendI)
qed

text \<open>
  C9: the chain is tamper-evident. Whoever presents events that verify and end in the hash of a
  tenant's export presents the exported events, in number, order and content (up to the order of
  keys), unless two different event bodies among them have one SHA-256 value.
\<close>

theorem audit_tamper_evident:
  assumes "xs = export_audit t (crm_exec tf ops crm_init)" "verify_audit ys" "chain_head ys = chain_head xs"
    and "\<forall>y \<in> set ys. \<forall>x \<in> set xs. sha256_hex (JObj (dict_pop ''event_hash'' y)) = sha256_hex (JObj (dict_pop ''event_hash'' x)) \<longrightarrow>
      canonical_json (JObj (dict_pop ''event_hash'' y)) = canonical_json (JObj (dict_pop ''event_hash'' x))"
    and "\<forall>x \<in> set ys \<union> set xs. json_wf (JObj (dict_pop ''event_hash'' x))"
  shows "list_all2 (\<lambda>y x. map_of y ''event_hash'' = map_of x ''event_hash'' \<and>
    json_canon (JObj (dict_pop ''event_hash'' y)) = json_canon (JObj (dict_pop ''event_hash'' x))) ys xs"
proof -
  have "verify_audit xs" using crm_exec_audit [of tf ops] assms(1) by (simp add: audit_ok_def)
  then show ?thesis using assms by (intro chain_equal)
qed

definition example_crm_env :: crm_env where
  "example_crm_env = \<lparr>ce_id = ''i'', ce_event_id = ''e'', ce_now = ''2026''\<rparr>"

definition example_floats :: float_ops where
  "example_floats = \<lparr>fl_of_text = (\<lambda>_. raise ValueError ''float''), fl_add_one = id\<rparr>"

theorem audit_tamper_evident_witness:
  "\<exists>xs. export_audit ''t'' (crm_exec example_floats [(example_crm_env, GrantConsent ''t'' ''c'' ''VOICE'' ''h'')] crm_init) = xs \<and>
    length xs = 1 \<and> verify_audit (map rev xs) \<and> list_all2 (\<lambda>y x. map_of y ''event_hash'' = map_of x ''event_hash'') (map rev xs) xs"
proof -
  let ?xs = "export_audit ''t'' (crm_exec example_floats [(example_crm_env, GrantConsent ''t'' ''c'' ''VOICE'' ''h'')] crm_init)"
  let ?b = "[(''sequence_no'', JInt 1), (''previous_hash'', JNull), (''id'', JStr ''e''), (''tenant_id'', JStr ''t''),
      (''event_type'', JStr ''consent.granted''), (''aggregate_type'', JStr ''contact''), (''aggregate_id'', JStr ''c''),
      (''payload'', JObj [(''channel'', JStr ''VOICE'')]), (''occurred_at'', JStr ''2026'')]"
  let ?x = "?b @ [(''event_hash'', JStr (sha256_hex (JObj ?b)))]"
  have xs: "?xs = [?x]"
    using crm_exec_simps(2) [of example_floats "[]" example_crm_env]
    by (simp add: grant_consent_def crm_init_def export_audit_def crm_event_def Let_def chain_next_def crm_event_body_def
        example_crm_env_def)
  have pop: "dict_pop ''event_hash'' ?x = ?b" "dict_pop ''event_hash'' (rev ?x) = rev ?b" by simp_all
  have canon: "canonical_json (JObj (rev ?b)) = canonical_json (JObj ?b)" by (rule canonical_key_order) simp_all
  then have hash: "sha256_hex (JObj (rev ?b)) = sha256_hex (JObj ?b)" by (simp add: sha256_hex_def)
  have v: "verify_audit [rev ?x]"
    using hash by (simp add: verify_audit_def Let_def dict_get_or_def)
  have h: "chain_head [rev ?x] = chain_head [?x]" by (simp add: chain_head_def dict_get_or_def)
  have wf: "json_wf (JObj ?b)" "json_wf (JObj (rev ?b))" by simp_all
  have "list_all2 (\<lambda>y x. map_of y ''event_hash'' = map_of x ''event_hash'' \<and>
    json_canon (JObj (dict_pop ''event_hash'' y)) = json_canon (JObj (dict_pop ''event_hash'' x))) [rev ?x] [?x]"
  proof (rule audit_tamper_evident [OF xs [symmetric] v h])
    show "\<forall>y \<in> set [rev ?x]. \<forall>x \<in> set [?x].
        sha256_hex (JObj (dict_pop ''event_hash'' y)) = sha256_hex (JObj (dict_pop ''event_hash'' x)) \<longrightarrow>
        canonical_json (JObj (dict_pop ''event_hash'' y)) = canonical_json (JObj (dict_pop ''event_hash'' x))"
      using canon pop by simp
    show "\<forall>x \<in> set [rev ?x] \<union> set [?x]. json_wf (JObj (dict_pop ''event_hash'' x))" using wf pop by simp
  qed
  then show ?thesis using xs v by simp
qed

section \<open>What the evidence rests on\<close>

lemma campaign_at_Inr:
  "campaign_at t v st = Inr (k, row) \<longleftrightarrow> t \<noteq> [] \<and> k = (t, JStr v) \<and> map_of (cm_campaigns st) k = Some row"
  by (auto simp: campaign_at_def crm_key_def rbind_Inr_iff)

definition hash_approved :: "(crm_env \<times> crm_op) list \<Rightarrow> string \<Rightarrow> string \<Rightarrow> string \<Rightarrow> bool" where
  "hash_approved ops t v h \<longleftrightarrow> (\<exists>e a r n. (e, ApproveCampaign t v a h r n) \<in> set ops)"

lemma hash_approved_simps [simp]:
  "hash_approved (ops @ ops2) t v h \<longleftrightarrow> hash_approved ops t v h \<or> hash_approved ops2 t v h"
  "hash_approved [(e, p)] t v h \<longleftrightarrow> (\<exists>a r n. p = ApproveCampaign t v a h r n)"
  unfolding hash_approved_def set_append by (blast, auto)

definition campaign_ok :: "(crm_env \<times> crm_op) list \<Rightarrow> string \<times> json \<Rightarrow> campaign_row \<Rightarrow> bool" where
  "campaign_ok ops k row \<longleftrightarrow> cg_manifest_hash row = sha256_hex (cg_manifest row) \<and>
     (cg_status row = ''APPROVED'' \<longrightarrow> cg_approved_hash row = Some (cg_manifest_hash row) \<and>
       (\<exists>v. snd k = JStr v \<and> hash_approved ops (fst k) v (cg_manifest_hash row)))"

lemma crm_campaigns_do:
  assumes "map_of (cm_campaigns (snd (crm_do tf e p st))) k = Some row" "\<forall>row. map_of (cm_campaigns st) k = Some row \<longrightarrow> campaign_ok ops k row"
  shows "campaign_ok (ops @ [(e, p)]) k row"
proof (cases "map_of (cm_campaigns st) k = Some row")
  case True
  then show ?thesis using assms(2) by (auto simp: campaign_ok_def)
next
  case False
  then show ?thesis using assms
    by (cases p) (auto simp: crm_op_defs Let_def campaign_at_Inr crm_key_def dict_simps campaign_ok_def split: sum.splits option.splits if_splits)
qed

lemma crm_campaigns_ok: "map_of (cm_campaigns (crm_exec tf ops crm_init)) k = Some row \<Longrightarrow> campaign_ok ops k row"
proof (induction ops arbitrary: row rule: rev_induct)
  case Nil
  then show ?case by (simp add: crm_init_def)
next
  case (snoc x ops)
  obtain e p where "x = (e, p)" by fastforce
  then show ?case using snoc crm_campaigns_do by (metis crm_exec_simps(2))
qed

lemma has_key_set: "has_key (dict_set k v d) k' \<longleftrightarrow> k' = k \<or> has_key d k'"
  by (simp add: has_key_def dict_simps)

lemma crm_suppressed_iff:
  "has_key (cm_suppressions (crm_exec tf ops crm_init)) (t, JStr c) \<longleftrightarrow> t \<noteq> [] \<and> (\<exists>e r. (e, Suppress t c r) \<in> set ops)"
proof (induction ops rule: rev_induct)
  case Nil
  show ?case by (simp add: crm_init_def has_key_def)
next
  case (snoc x ops)
  obtain e p where x: "x = (e, p)" by fastforce
  have "has_key (cm_suppressions (snd (crm_do tf e p st))) (t, JStr c) \<longleftrightarrow>
      has_key (cm_suppressions st) (t, JStr c) \<or> (t \<noteq> [] \<and> (\<exists>r. p = Suppress t c r))" for st
    by (cases p) (auto simp: crm_op_defs Let_def has_key_set crm_key_def split: sum.splits option.splits)
  then show ?case using snoc by (auto simp: x)
qed

lemma crm_consent_iff:
  "has_key (cm_consents (crm_exec tf ops crm_init)) (t, c, ch) \<longleftrightarrow> (\<exists>e h. (e, GrantConsent t c ch h) \<in> set ops)"
proof (induction ops rule: rev_induct)
  case Nil
  show ?case by (simp add: crm_init_def has_key_def)
next
  case (snoc x ops)
  obtain e p where x: "x = (e, p)" by fastforce
  have "has_key (cm_consents (snd (crm_do tf e p st))) (t, c, ch) \<longleftrightarrow>
      has_key (cm_consents st) (t, c, ch) \<or> (\<exists>h. p = GrantConsent t c ch h)" for st
    by (cases p) (auto simp: crm_op_defs Let_def has_key_set split: sum.splits option.splits)
  then show ?case using snoc by (auto simp: x)
qed

text \<open>
  C11: in the repository in memory, the one of shadow mode, the evidence is what the history of the tenant says. A contact is
  suppressed exactly when it was ever suppressed, nothing lifts it; consent is active exactly when it was ever granted
  for the channel; a campaign counts as approved only when the very manifest that is now in the row of the version was
  approved by its hash, and the content hash handed out is the one in that manifest.
\<close>

theorem evidence_follows_history:
  assumes "contactability_evidence t c ch v (crm_exec tf ops crm_init) = Inr (JObj evidence)"
  shows "(map_of evidence ''suppressed'' = Some (JBool True) \<longleftrightarrow> (\<exists>e r. (e, Suppress t c r) \<in> set ops)) \<and>
    (map_of evidence ''consent_active'' = Some (JBool True) \<longleftrightarrow> (\<exists>e h. (e, GrantConsent t c ch h) \<in> set ops)) \<and>
    (map_of evidence ''campaign_approved'' = Some (JBool True) \<longrightarrow>
      (\<exists>row manifest content_hashes e a r n. map_of (cm_campaigns (crm_exec tf ops crm_init)) (t, JStr v) = Some row \<and>
        cg_manifest row = JObj manifest \<and> (e, ApproveCampaign t v a (sha256_hex (JObj manifest)) r n) \<in> set ops \<and>
        dict_get_or (JObj []) manifest ''content_hashes'' = JObj content_hashes \<and>
        map_of evidence ''approved_content_hash'' = Some (dict_get_or JNull content_hashes (py_lower ch))))"
proof -
  let ?st = "crm_exec tf ops crm_init"
  have t: "t \<noteq> []" using assms by (auto simp: contactability_evidence_def require_contact_def crm_key_def rbind_Inr_iff)
  obtain manifest content_hashes where m: "as_object (case map_of (cm_campaigns ?st) (t, JStr v) of None \<Rightarrow> JObj []
      | Some row \<Rightarrow> cg_manifest row) = Inr manifest" "as_object (dict_get_or (JObj []) manifest ''content_hashes'') = Inr content_hashes"
    "map_of evidence ''approved_content_hash'' = Some (dict_get_or JNull content_hashes (py_lower ch))"
    "map_of evidence ''suppressed'' = Some (JBool (has_key (cm_suppressions ?st) (t, JStr c)))"
    "map_of evidence ''consent_active'' = Some (JBool (has_key (cm_consents ?st) (t, c, ch)))"
    "map_of evidence ''campaign_approved'' = Some (JBool (case map_of (cm_campaigns ?st) (t, JStr v) of None \<Rightarrow> False
                | Some row \<Rightarrow> cg_status row = ''APPROVED'' \<and> cg_approved_hash row \<notin> {None, Some []}))"
    using assms t by (auto simp: contactability_evidence_def crm_key_def rbind_Inr_iff Let_def)
  have obj: "as_object j = Inr kvs \<Longrightarrow> j = JObj kvs" for j kvs by (cases j) simp_all
  have "\<exists>row manifest content_hashes e a r n. map_of (cm_campaigns ?st) (t, JStr v) = Some row \<and>
        cg_manifest row = JObj manifest \<and> (e, ApproveCampaign t v a (sha256_hex (JObj manifest)) r n) \<in> set ops \<and>
        dict_get_or (JObj []) manifest ''content_hashes'' = JObj content_hashes \<and>
        map_of evidence ''approved_content_hash'' = Some (dict_get_or JNull content_hashes (py_lower ch))"
    if approved: "map_of evidence ''campaign_approved'' = Some (JBool True)"
  proof -
    obtain row where row: "map_of (cm_campaigns ?st) (t, JStr v) = Some row" "cg_status row = ''APPROVED''"
      using approved m(6) by (auto split: option.splits)
    from crm_campaigns_ok [OF row(1)] row(2) obtain e a r n where
      "(e, ApproveCampaign t v a (sha256_hex (cg_manifest row)) r n) \<in> set ops"
      by (auto simp: campaign_ok_def hash_approved_def)
    moreover have "cg_manifest row = JObj manifest" using m(1) row(1) obj by simp
    ultimately show ?thesis using m(2,3) obj row(1) by metis
  qed
  then show ?thesis using m(4,5) t by (auto simp: crm_suppressed_iff crm_consent_iff)
qed

theorem evidence_follows_history_witness:
  "let e = example_crm_env; manifest = [(''content_hashes'', JObj [(''voice'', JStr ''h'')])];
       ops = [(e, CreateContact ''t'' [(''id'', JStr ''c'')]), (e, CreateCampaign ''t'' ''g'' (JObj manifest)),
         (e, ApproveCampaign ''t'' ''i'' ''a'' (sha256_hex (JObj manifest)) ''r'' JNull), (e, Suppress ''t'' ''c'' JNull)]
   in \<exists>evidence. contactability_evidence ''t'' ''c'' ''VOICE'' ''i'' (crm_exec example_floats ops crm_init) = Inr (JObj evidence) \<and>
        map_of evidence ''suppressed'' = Some (JBool True) \<and> map_of evidence ''consent_active'' \<noteq> Some (JBool True) \<and>
        map_of evidence ''campaign_approved'' = Some (JBool True)"
proof -
  let ?e = example_crm_env
  let ?m = "[(''content_hashes'', JObj [(''voice'', JStr ''h'')])]"
  let ?ops = "[(?e, CreateContact ''t'' [(''id'', JStr ''c'')]), (?e, CreateCampaign ''t'' ''g'' (JObj ?m)),
         (?e, ApproveCampaign ''t'' ''i'' ''a'' (sha256_hex (JObj ?m)) ''r'' JNull), (?e, Suppress ''t'' ''c'' JNull)]"
  let ?st = "crm_exec example_floats ?ops crm_init"
  have id: "ce_id ?e = ''i''" by (simp add: example_crm_env_def)
  have h: "sha256_hex j \<noteq> []" for j using length_sha256_hexdigest [of "canonical_json j"] by (auto simp: sha256_hex_def)
  have st: "map_of (cm_contacts ?st) (''t'', JStr ''c'') \<noteq> None" "map_of (cm_campaigns ?st) (''t'', JStr ''i'') =
     Some \<lparr>cg_id = ''i'', cg_tenant_id = ''t'', cg_campaign_id = ''g'', cg_manifest = JObj ?m, cg_manifest_hash = sha256_hex (JObj ?m),
       cg_status = ''APPROVED'', cg_approved_hash = Some (sha256_hex (JObj ?m)), cg_version = 1, cg_approval = Some (''a'', ''r'', JNull)\<rparr>"
    by (simp_all add: crm_exec_def create_contact_def create_campaign_version_def approve_campaign_def crm_suppress_def Let_def id
        dict_get_or_def crm_key_def campaign_at_def crm_init_def dict_merge_def)
  obtain evidence where ev: "contactability_evidence ''t'' ''c'' ''VOICE'' ''i'' ?st = Inr (JObj evidence)"
    "map_of evidence ''campaign_approved'' = Some (JBool True)"
    using st h by (auto simp: contactability_evidence_def require_contact_def crm_key_def dict_get_or_def Let_def)
  have "\<not> (\<exists>e h. (e, GrantConsent ''t'' ''c'' ''VOICE'' h) \<in> set ?ops)" "\<exists>e r. (e, Suppress ''t'' ''c'' r) \<in> set ?ops" by auto
  then show ?thesis using ev evidence_follows_history [OF ev(1)] by (auto simp: Let_def)
qed

section \<open>Tenants do not see each other\<close>

text \<open>The part of the repository one tenant's operations and queries can reach.\<close>

definition tenant_rows :: "string \<Rightarrow> (string \<times> 'k, 'v) dict \<Rightarrow> (string \<times> 'k, 'v) dict" where
  "tenant_rows t d = filter (\<lambda>((u, _), _). u = t) d"

definition tenant_events :: "string \<Rightarrow> object list \<Rightarrow> object list" where
  "tenant_events t = filter (\<lambda>event. map_of event ''tenant_id'' = Some (JStr t))"

definition crm_view :: "string \<Rightarrow> crm \<Rightarrow> crm" where
  "crm_view t st = \<lparr>cm_contacts = tenant_rows t (cm_contacts st), cm_campaigns = tenant_rows t (cm_campaigns st),
     cm_suppressions = tenant_rows t (cm_suppressions st), cm_consents = tenant_rows t (cm_consents st),
     cm_interactions = tenant_rows t (cm_interactions st), cm_opportunities = tenant_rows t (cm_opportunities st),
     cm_memory_facts = tenant_rows t (cm_memory_facts st), cm_data_requests = tenant_rows t (cm_data_requests st),
     cm_outbox = tenant_events t (cm_outbox st), cm_audit = tenant_events t (cm_audit st),
     cm_heads = filter (\<lambda>(u, _). u = t) (cm_heads st)\<rparr>"

lemma tenant_rows_set: "tenant_rows t (dict_set (u, i) v d) = (if u = t then dict_set (u, i) v (tenant_rows t d) else tenant_rows t d)"
  by (induction d) (auto simp: tenant_rows_def)

lemma tenant_rows_get: "map_of (tenant_rows t d) (t, i) = map_of d (t, i)"
  by (induction d) (auto simp: tenant_rows_def)

lemma heads_set:
  "filter (\<lambda>(u, _). u = t) (dict_set u v d) = (if u = t then dict_set u v (filter (\<lambda>(u, _). u = t) d) else filter (\<lambda>(u, _). u = t) d)"
  by (induction d) auto

lemma heads_get: "map_of (filter (\<lambda>(u, _). u = t) d) t = map_of d t"
  by (induction d) auto

lemma crm_view_fields [simp]:
  "cm_contacts (crm_view t st) = tenant_rows t (cm_contacts st)" "cm_campaigns (crm_view t st) = tenant_rows t (cm_campaigns st)"
  "cm_suppressions (crm_view t st) = tenant_rows t (cm_suppressions st)" "cm_consents (crm_view t st) = tenant_rows t (cm_consents st)"
  "cm_interactions (crm_view t st) = tenant_rows t (cm_interactions st)"
  "cm_opportunities (crm_view t st) = tenant_rows t (cm_opportunities st)"
  "cm_memory_facts (crm_view t st) = tenant_rows t (cm_memory_facts st)"
  "cm_data_requests (crm_view t st) = tenant_rows t (cm_data_requests st)"
  by (simp_all add: crm_view_def)

lemma crm_view_event_own: "crm_view t (crm_event e t a b i p st) = crm_event e t a b i p (crm_view t st)"
  by (simp add: crm_view_def crm_event_def Let_def heads_get heads_set tenant_events_def chain_next_facts(1) [OF refl])
    (simp add: crm_event_body_def)

lemma crm_view_event_other: "u \<noteq> t \<Longrightarrow> crm_view t (crm_event e u a b i p st) = crm_view t st"
  by (simp add: crm_view_def crm_event_def Let_def heads_set tenant_events_def chain_next_facts(1) [OF refl])
    (simp add: crm_event_body_def)

lemma crm_view_set:
  "crm_view t (st\<lparr>cm_contacts := dict_set (u, i) c (cm_contacts st)\<rparr>) =
     (if u = t then (crm_view t st)\<lparr>cm_contacts := dict_set (u, i) c (cm_contacts (crm_view t st))\<rparr> else crm_view t st)"
  "crm_view t (st\<lparr>cm_campaigns := dict_set (u, i) row (cm_campaigns st)\<rparr>) =
     (if u = t then (crm_view t st)\<lparr>cm_campaigns := dict_set (u, i) row (cm_campaigns (crm_view t st))\<rparr> else crm_view t st)"
  "crm_view t (st\<lparr>cm_suppressions := dict_set (u, i) j (cm_suppressions st)\<rparr>) =
     (if u = t then (crm_view t st)\<lparr>cm_suppressions := dict_set (u, i) j (cm_suppressions (crm_view t st))\<rparr> else crm_view t st)"
  "crm_view t (st\<lparr>cm_consents := dict_set (u, x) h (cm_consents st)\<rparr>) =
     (if u = t then (crm_view t st)\<lparr>cm_consents := dict_set (u, x) h (cm_consents (crm_view t st))\<rparr> else crm_view t st)"
  "crm_view t (st\<lparr>cm_interactions := dict_set (u, i) c (cm_interactions st)\<rparr>) =
     (if u = t then (crm_view t st)\<lparr>cm_interactions := dict_set (u, i) c (cm_interactions (crm_view t st))\<rparr> else crm_view t st)"
  "crm_view t (st\<lparr>cm_opportunities := dict_set (u, i) c (cm_opportunities st)\<rparr>) =
     (if u = t then (crm_view t st)\<lparr>cm_opportunities := dict_set (u, i) c (cm_opportunities (crm_view t st))\<rparr> else crm_view t st)"
  "crm_view t (st\<lparr>cm_memory_facts := dict_set (u, i) c (cm_memory_facts st)\<rparr>) =
     (if u = t then (crm_view t st)\<lparr>cm_memory_facts := dict_set (u, i) c (cm_memory_facts (crm_view t st))\<rparr> else crm_view t st)"
  "crm_view t (st\<lparr>cm_data_requests := dict_set (u, i) c (cm_data_requests st)\<rparr>) =
     (if u = t then (crm_view t st)\<lparr>cm_data_requests := dict_set (u, i) c (cm_data_requests (crm_view t st))\<rparr> else crm_view t st)"
  by (simp_all add: crm_view_def tenant_rows_set)

lemma crm_key_Inr: "crm_key t i = Inr k \<longleftrightarrow> t \<noteq> [] \<and> hashable i \<and> k = (t, i)"
  by (auto simp: crm_key_def)

lemma crm_lookups_view:
  "require_contact t c (crm_view t st) = require_contact t c st"
  "campaign_at t v (crm_view t st) = campaign_at t v st"
  by (simp_all add: require_contact_def campaign_at_def crm_key_def tenant_rows_get)

lemma crm_do_other: "op_tenant p \<noteq> t \<Longrightarrow> crm_view t (snd (crm_do tf e p st)) = crm_view t st"
  by (cases p) (auto simp: crm_op_defs Let_def crm_view_event_other crm_view_set crm_key_Inr campaign_at_Inr rbind_Inr_iff
      split: sum.splits option.splits if_splits)

lemma view_create_contact: "crm_view t (snd (create_contact e t d st)) = snd (create_contact e t d (crm_view t st))"
  by (simp add: create_contact_def Let_def crm_view_event_own crm_view_set crm_lookups_view tenant_rows_get crm_key_def split: sum.split option.split)

lemma view_create_campaign_version: "crm_view t (snd (create_campaign_version e t c m st)) = snd (create_campaign_version e t c m (crm_view t st))"
  by (simp add: create_campaign_version_def Let_def crm_view_event_own crm_view_set crm_lookups_view tenant_rows_get crm_key_def split: sum.split option.split)

lemma view_crm_suppress: "crm_view t (snd (crm_suppress e t c r st)) = snd (crm_suppress e t c r (crm_view t st))"
  by (simp add: crm_suppress_def Let_def crm_view_event_own crm_view_set crm_lookups_view tenant_rows_get crm_key_def split: sum.split option.split)

lemma view_grant_consent: "crm_view t (snd (grant_consent e t c ch h st)) = snd (grant_consent e t c ch h (crm_view t st))"
  by (simp add: grant_consent_def Let_def crm_view_event_own crm_view_set crm_lookups_view tenant_rows_get crm_key_def split: sum.split option.split)

lemma view_add_memory_fact: "crm_view t (snd (add_memory_fact tf e t c d st)) = snd (add_memory_fact tf e t c d (crm_view t st))"
proof (cases "rbind (require_contact t c st) (\<lambda>_. rbind (fact_ok tf d) (\<lambda>_. crm_key t (JStr (ce_id e))))")
  case (Inr x)
  then have "x = (t, JStr (ce_id e))" by (auto simp: rbind_Inr_iff crm_key_Inr)
  then show ?thesis using Inr by (simp add: add_memory_fact_def Let_def crm_view_event_own crm_view_set crm_lookups_view)
qed (simp add: add_memory_fact_def Let_def crm_view_event_own crm_view_set crm_lookups_view)

lemma view_approve_campaign: "crm_view t (snd (approve_campaign e t v a h r n st)) = snd (approve_campaign e t v a h r n (crm_view t st))"
proof (cases "campaign_at t v st")
  case (Inr x)
  then obtain row where "x = ((t, JStr v), row)" by (cases x) (auto simp: campaign_at_Inr)
  then show ?thesis using Inr by (simp add: approve_campaign_def Let_def crm_view_event_own crm_view_set crm_lookups_view)
qed (simp add: approve_campaign_def crm_view_event_own crm_view_set crm_lookups_view)

lemma view_amend_campaign: "crm_view t (snd (amend_campaign e t v m st)) = snd (amend_campaign e t v m (crm_view t st))"
proof (cases "campaign_at t v st")
  case (Inr x)
  then obtain row where "x = ((t, JStr v), row)" by (cases x) (auto simp: campaign_at_Inr)
  then show ?thesis using Inr by (simp add: amend_campaign_def Let_def crm_view_event_own crm_view_set crm_lookups_view)
qed (simp add: amend_campaign_def crm_view_event_own crm_view_set crm_lookups_view)

lemma view_record_interaction: "crm_view t (snd (record_interaction e t c d st)) = snd (record_interaction e t c d (crm_view t st))"
proof (cases "rbind (require_contact t c st) (\<lambda>_. crm_key t (dict_get_or (JStr (ce_id e)) d ''id''))")
  case (Inr k)
  then have "k = (t, dict_get_or (JStr (ce_id e)) d ''id'')" by (auto simp: rbind_Inr_iff crm_key_Inr)
  then show ?thesis using Inr
    by (simp add: record_interaction_def Let_def crm_view_event_own crm_view_set crm_lookups_view tenant_rows_get split: option.split)
qed (simp add: record_interaction_def Let_def crm_view_event_own crm_view_set crm_lookups_view)

lemma view_upsert_opportunity: "crm_view t (snd (upsert_opportunity tf e t c d st)) = snd (upsert_opportunity tf e t c d (crm_view t st))"
proof -
  let ?i = "dict_get_or (JStr (ce_id e)) d ''id''"
  let ?m = "\<lambda>st. rbind (require_contact t c st) (\<lambda>_. rbind (crm_key t ?i) (\<lambda>k.
             rbind (next_version tf (map_of (cm_opportunities st) k)) (\<lambda>v. Inr (k, v))))"
  have m: "?m (crm_view t st) = ?m st" by (simp add: crm_key_def crm_lookups_view tenant_rows_get)
  show ?thesis
  proof (cases "?m st")
    case (Inl x)
    then show ?thesis using m by (simp only: upsert_opportunity_def Let_def sum.case snd_conv)
  next
    case (Inr x)
    then obtain v where "x = ((t, ?i), v)" by (auto simp: rbind_Inr_iff crm_key_Inr)
    then show ?thesis using Inr m
      by (simp only: upsert_opportunity_def Let_def sum.case snd_conv prod.case crm_view_event_own crm_view_set if_True simp_thms)
  qed
qed

lemma view_request_arco: "crm_view t (snd (request_arco e t c k v st)) = snd (request_arco e t c k v (crm_view t st))"
proof (cases "rbind (require_contact t c st) (\<lambda>_.
             if k \<notin> set arco_types then raise ValueError ''ARCO_TYPE_INVALID'' else crm_key t (JStr (ce_id e)))")
  case (Inr x)
  then have "x = (t, JStr (ce_id e))" by (auto simp: rbind_Inr_iff crm_key_Inr split: if_splits)
  then show ?thesis using Inr by (simp add: request_arco_def Let_def crm_view_event_own crm_view_set crm_lookups_view del: not_None_eq)
qed (simp add: request_arco_def Let_def crm_view_event_own crm_view_set crm_lookups_view)

lemma crm_do_own: "op_tenant p = t \<Longrightarrow> crm_view t (snd (crm_do tf e p st)) = snd (crm_do tf e p (crm_view t st))"
  by (cases p) (simp_all add: view_create_contact view_create_campaign_version view_crm_suppress view_grant_consent
      view_add_memory_fact view_approve_campaign view_amend_campaign view_record_interaction view_upsert_opportunity view_request_arco)

lemma crm_view_exec:
  "crm_view t (crm_exec tf ops st) = crm_exec tf (filter (\<lambda>(e, p). op_tenant p = t) ops) (crm_view t st)"
proof (induction ops rule: rev_induct)
  case (snoc x ops)
  obtain e p where "x = (e, p)" by fastforce
  then show ?case using snoc by (simp add: crm_do_own crm_do_other)
qed simp

lemma contact_rows_view: "contact_rows t c (tenant_rows t d) = contact_rows t c d"
  by (induction d) (auto simp: contact_rows_def tenant_rows_def)

lemma consents_view:
  "[f h. ((u, c', _), h) \<leftarrow> tenant_rows t d, u = t \<and> c' = c] = [f h. ((u, c', _), h) \<leftarrow> d, u = t \<and> c' = c]"
  by (induction d) (auto simp: tenant_rows_def)

lemma export_audit_view: "export_audit t (crm_view t st) = export_audit t st"
  by (simp add: export_audit_def crm_view_def tenant_events_def)

lemma evidence_view: "contactability_evidence t c ch v (crm_view t st) = contactability_evidence t c ch v st"
  by (simp add: contactability_evidence_def crm_key_def crm_lookups_view tenant_rows_get has_key_def)

lemma export_contact_view: "export_contact t c (crm_view t st) = export_contact t c st"
  by (simp add: export_contact_def crm_lookups_view contact_rows_view consents_view tenant_rows_get)

definition own_ops :: "string \<Rightarrow> (crm_env \<times> crm_op) list \<Rightarrow> (crm_env \<times> crm_op) list" where
  "own_ops t ops = filter (\<lambda>(e, p). op_tenant p = t) ops"

text \<open>
  C8: tenants are isolated. What a tenant can export of its contacts and its audit, and the evidence
  it is given, are the same as if the operations of every other tenant had not happened.
\<close>

theorem tenants_isolated:
  "export_contact t c (crm_exec tf ops crm_init) = export_contact t c (crm_exec tf (own_ops t ops) crm_init) \<and>
    contactability_evidence t c ch v (crm_exec tf ops crm_init) = contactability_evidence t c ch v (crm_exec tf (own_ops t ops) crm_init) \<and>
    export_audit t (crm_exec tf ops crm_init) = export_audit t (crm_exec tf (own_ops t ops) crm_init)"
proof -
  have "crm_view t crm_init = crm_init" by (simp add: crm_view_def crm_init_def tenant_rows_def tenant_events_def)
  then have "crm_view t (crm_exec tf ops crm_init) = crm_exec tf (own_ops t ops) crm_init"
    using crm_view_exec [of t tf ops crm_init] by (simp add: own_ops_def)
  then show ?thesis by (metis export_contact_view evidence_view export_audit_view)
qed

end
