(* ===== verification/CrmPg.thy ===== *)
theory CrmPg
  imports Crm
begin

text \<open>
  services/crm\_api/app/postgres.py: the repository over PostgreSQL. An operation is one
  transaction over lists of rows; a column keeps the JSON value it was given, an identifier that
  is no text is refused. Uniqueness and row-level security are modelled where the code relies on
  them, any other refusal of the database is a fault of the transaction. The text of a JSON value,
  its reading as boolean and the moment it denotes are the database's: parameters.
\<close>

section \<open>Tables\<close>

record contact_rec =
  cc_id :: string
  cc_tenant_id :: string
  cc_display_name :: json
  cc_company_name :: json
  cc_phone_token :: json
  cc_lifecycle_stage :: json
  cc_version :: int

record campaign_rec =
  ca_id :: string
  ca_tenant_id :: string
  ca_name :: json
  ca_owner_user_id :: json

record version_rec =
  cv_id :: string
  cv_tenant_id :: string
  cv_campaign_id :: string
  cv_version_no :: int
  cv_status :: string
  cv_purpose :: json
  cv_definition :: json
  cv_artifact_hash :: string
  cv_created_by :: json

record artifact_rec =
  at_id :: string
  at_tenant_id :: string
  at_campaign_version_id :: string
  at_canonical_manifest :: json
  at_artifact_hash :: string

record approval_rec =
  ap_id :: string
  ap_tenant_id :: string
  ap_subject_id :: string
  ap_subject_hash :: string
  ap_decision :: string
  ap_approver_user_id :: string
  ap_approver_role :: string
  ap_comment :: json

record consent_rec =
  ct_id :: string
  ct_tenant_id :: string
  ct_contact_id :: json
  ct_channel :: json
  ct_purpose :: json
  ct_status :: string
  ct_valid_until :: json
  ct_evidence_hash :: json
  ct_capture :: object

record suppression_rec =
  sp_id :: string
  sp_tenant_id :: "string option"
  sp_contact_id :: json
  sp_phone_token :: json
  sp_channel :: json
  sp_purpose :: json
  sp_scope :: json
  sp_reason :: json
  sp_source :: json
  sp_expires_at :: json

record repep_rec =
  rk_tenant_id :: string
  rk_phone_token :: string
  rk_result :: string
  rk_checked_at :: real
  rk_valid_until :: real

record interaction_rec =
  ix_id :: string
  ix_tenant_id :: string
  ix_contact_id :: string
  ix_channel :: json
  ix_provider :: json
  ix_provider_ref :: json
  ix_direction :: json
  ix_status :: json
  ix_ended_at :: json
  ix_correlation_id :: json
  ix_content :: object

record opportunity_rec =
  op_id :: string
  op_tenant_id :: string
  op_contact_id :: string
  op_stage :: json
  op_amount :: json
  op_currency :: json
  op_sensitivity :: json
  op_owner_user_id :: json
  op_version :: int

record fact_rec =
  mf_id :: string
  mf_tenant_id :: string
  mf_contact_id :: string
  mf_fields :: object

record request_rec =
  dq_id :: string
  dq_tenant_id :: string
  dq_contact_id :: string
  dq_request_type :: string
  dq_identity_verification_ref :: string
  dq_status :: string
  dq_due_at :: real

record crm_db =
  cd_contacts :: "contact_rec list"
  cd_campaigns :: "campaign_rec list"
  cd_versions :: "version_rec list"
  cd_artifacts :: "artifact_rec list"
  cd_approvals :: "approval_rec list"
  cd_consents :: "consent_rec list"
  cd_suppressions :: "suppression_rec list"
  cd_repep_checks :: "repep_rec list"
  cd_interactions :: "interaction_rec list"
  cd_opportunities :: "opportunity_rec list"
  cd_facts :: "fact_rec list"
  cd_requests :: "request_rec list"
  cd_audit :: "pg_audit list"

text \<open>\<open>_cursor\<close>: a transaction of a tenant.\<close>

definition crm_tx :: "pg_env \<Rightarrow> string \<Rightarrow> (crm_db \<Rightarrow> 'a res \<times> crm_db) \<Rightarrow> crm_db \<Rightarrow> 'a res \<times> crm_db" where
  "crm_tx e tenant body db = (if tenant = [] then (raise ValueError ''TENANT_REQUIRED'', db) else pg_run e body db)"

definition crm_audit :: "string \<Rightarrow> string \<Rightarrow> string \<Rightarrow> string \<Rightarrow> string \<Rightarrow> string \<Rightarrow> string \<Rightarrow> crm_db \<Rightarrow> crm_db" where
  "crm_audit tenant actor_type actor_id action resource_type resource_id correlation_id db =
     db\<lparr>cd_audit := cd_audit db @
       [\<lparr>pa_tenant_id = tenant, pa_actor_type = actor_type, pa_actor_id = actor_id, pa_action = action,
         pa_resource_type = resource_type, pa_resource_id = resource_id, pa_decision_id = None,
         pa_reason_codes = reason_json [], pa_correlation_id = correlation_id\<rparr>]\<rparr>"

abbreviation service_audit :: "string \<Rightarrow> string \<Rightarrow> string \<Rightarrow> string \<Rightarrow> string \<Rightarrow> crm_db \<Rightarrow> crm_db" where
  "service_audit tenant \<equiv> crm_audit tenant ''SERVICE'' ''crm-api''"

text \<open>\<open>data.get("id", str(uuid4()))\<close> as the key of a row.\<close>

definition row_id :: "string \<Rightarrow> object \<Rightarrow> string res" where
  "row_id fresh data =
     (case dict_get_or (JStr fresh) data ''id'' of JStr i \<Rightarrow> Inr i | _ \<Rightarrow> raise DatabaseError ''IDENTIFIER'')"

text \<open>SQL equality: not true when one side is NULL.\<close>

definition sql_eq :: "json \<Rightarrow> json \<Rightarrow> bool" where
  "sql_eq a b \<longleftrightarrow> a \<noteq> JNull \<and> a = b"

abbreviation field_or_null :: "object \<Rightarrow> string \<Rightarrow> json" where
  "field_or_null \<equiv> dict_get_or JNull"

text \<open>\<open>str(x or y)\<close>.\<close>

definition or_text :: "(json \<Rightarrow> string) \<Rightarrow> json \<Rightarrow> string \<Rightarrow> string" where
  "or_text repr v d = (if truthy v then py_str repr v else d)"

section \<open>Operations\<close>

definition pg_create_contact :: "pg_env \<Rightarrow> string \<Rightarrow> string \<Rightarrow> object \<Rightarrow> crm_db \<Rightarrow> json res \<times> crm_db" where
  "pg_create_contact e fresh tenant data = crm_tx e tenant (\<lambda>db.
     case row_id fresh data of
       Inl x \<Rightarrow> (Inl x, db)
     | Inr i \<Rightarrow>
         (let row = \<lparr>cc_id = i, cc_tenant_id = tenant, cc_display_name = field_or_null data ''display_name'',
            cc_company_name = field_or_null data ''company_name'', cc_phone_token = field_or_null data ''phone_token'',
            cc_lifecycle_stage = dict_get_or (JStr ''DISCOVERED'') data ''lifecycle_stage'', cc_version = 1\<rparr> in
          if \<exists>r \<in> set (cd_contacts db). cc_id r = i \<or>
               (cc_tenant_id r = tenant \<and> sql_eq (cc_phone_token r) (cc_phone_token row))
          then (raise DatabaseError ''UNIQUE_VIOLATION'', db)
          else (Inr (JObj [(''id'', JStr i), (''tenant_id'', JStr tenant), (''display_name'', cc_display_name row),
                   (''company_name'', cc_company_name row), (''phone_token'', cc_phone_token row),
                   (''lifecycle_stage'', cc_lifecycle_stage row), (''version'', JInt 1)]),
                service_audit tenant ''CONTACT_CREATED'' ''CONTACT'' i i (db\<lparr>cd_contacts := cd_contacts db @ [row]\<rparr>))))"

text \<open>A campaign version as \<open>RETURNING\<close> gives it.\<close>

definition version_json :: "version_rec \<Rightarrow> json" where
  "version_json v = JObj
     [(''id'', JStr (cv_id v)), (''tenant_id'', JStr (cv_tenant_id v)), (''campaign_id'', JStr (cv_campaign_id v)),
      (''version_no'', JInt (cv_version_no v)), (''status'', JStr (cv_status v)), (''purpose'', cv_purpose v),
      (''manifest_hash'', JStr (cv_artifact_hash v)), (''created_by'', cv_created_by v)]"

text \<open>The next \<open>version_no\<close>: \<open>COALESCE(MAX(version_no), 0) + 1\<close>.\<close>

definition next_version_no :: "string \<Rightarrow> string \<Rightarrow> version_rec list \<Rightarrow> int" where
  "next_version_no tenant campaign_id rows =
     foldr max [cv_version_no v. v \<leftarrow> rows, cv_campaign_id v = campaign_id \<and> cv_tenant_id v = tenant] 0 + 1"

definition add_campaign :: "string \<Rightarrow> string \<Rightarrow> json \<Rightarrow> json \<Rightarrow> campaign_rec list \<Rightarrow> campaign_rec list" where
  "add_campaign tenant campaign_id name owner rows =
     (if campaign_id \<in> ca_id ` set rows then rows
      else rows @ [\<lparr>ca_id = campaign_id, ca_tenant_id = tenant, ca_name = name, ca_owner_user_id = owner\<rparr>])"

definition or_value :: "json \<Rightarrow> json \<Rightarrow> json" where
  "or_value v d = (if truthy v then v else d)"

definition new_version :: "string \<Rightarrow> string \<Rightarrow> string \<Rightarrow> object \<Rightarrow> json \<Rightarrow> version_rec list \<Rightarrow> version_rec" where
  "new_version version_id tenant campaign_id m owner rows =
     \<lparr>cv_id = version_id, cv_tenant_id = tenant, cv_campaign_id = campaign_id,
      cv_version_no = next_version_no tenant campaign_id rows, cv_status = ''PENDING_APPROVAL'',
      cv_purpose = dict_get_or (JStr ''PROMOTIONAL'') m ''purpose'', cv_definition = JObj m,
      cv_artifact_hash = sha256_hex (JObj m), cv_created_by = or_value (field_or_null m ''created_by'') owner\<rparr>"

definition create_version_body :: "string \<times> string \<Rightarrow> string \<Rightarrow> string \<Rightarrow> object \<Rightarrow> json \<Rightarrow> crm_db \<Rightarrow> json res \<times> crm_db" where
  "create_version_body ids tenant campaign_id m owner db =
     (let campaigns = add_campaign tenant campaign_id (dict_get_or (JStr ''Atlantis campaign'') m ''name'') owner (cd_campaigns db);
          version = new_version (fst ids) tenant campaign_id m owner (cd_versions db)
      in if \<not> (\<exists>c \<in> set campaigns. ca_id c = campaign_id \<and> ca_tenant_id c = tenant)
         then (raise PermissionError ''CAMPAIGN_TENANT_MISMATCH'', db)
         else if \<exists>v \<in> set (cd_versions db). cv_id v = fst ids \<or>
              (cv_campaign_id v = campaign_id \<and> cv_artifact_hash v = cv_artifact_hash version)
         then (raise DatabaseError ''UNIQUE_VIOLATION'', db)
         else (Inr (version_json version),
           service_audit tenant ''CAMPAIGN_VERSION_CREATED'' ''CAMPAIGN_VERSION'' (fst ids) (fst ids)
             (db\<lparr>cd_campaigns := campaigns, cd_versions := cd_versions db @ [version],
                 cd_artifacts := cd_artifacts db @
                   [\<lparr>at_id = snd ids, at_tenant_id = tenant, at_campaign_version_id = fst ids,
                     at_canonical_manifest = JObj m, at_artifact_hash = cv_artifact_hash version\<rparr>]\<rparr>)))"

text \<open>The fresh identifiers: the version and the artifact, and the owner.\<close>

definition pg_create_version ::
  "pg_env \<Rightarrow> string \<times> string \<Rightarrow> string \<Rightarrow> string \<Rightarrow> string \<Rightarrow> json \<Rightarrow> crm_db \<Rightarrow> json res \<times> crm_db" where
  "pg_create_version e ids fresh_owner tenant campaign_id manifest db =
     (case as_object manifest of
        Inl x \<Rightarrow> (Inl x, db)
      | Inr m \<Rightarrow>
          crm_tx e tenant (create_version_body ids tenant campaign_id m (or_value (field_or_null m ''owner_user_id'') (JStr fresh_owner))) db)"

definition pg_approve_campaign ::
  "pg_env \<Rightarrow> string \<Rightarrow> string \<Rightarrow> string \<Rightarrow> string \<Rightarrow> string \<Rightarrow> string \<Rightarrow> json \<Rightarrow> crm_db \<Rightarrow> json res \<times> crm_db" where
  "pg_approve_campaign e fresh tenant version_id approver_id subject_hash approver_role note = crm_tx e tenant (\<lambda>db.
     let mine = (\<lambda>v. cv_id v = version_id \<and> cv_tenant_id v = tenant) in
     case find mine (cd_versions db) of
       None \<Rightarrow> (raise ValueError ''CAMPAIGN_VERSION_NOT_FOUND'', db)
     | Some v \<Rightarrow>
         if cv_artifact_hash v \<noteq> subject_hash then (raise ValueError ''APPROVAL_HASH_MISMATCH'', db)
         else (Inr (version_json (v\<lparr>cv_status := ''APPROVED''\<rparr>)),
           crm_audit tenant ''USER'' approver_id ''CAMPAIGN_VERSION_APPROVED'' ''CAMPAIGN_VERSION'' version_id version_id
             (db\<lparr>cd_approvals := cd_approvals db @
                   [\<lparr>ap_id = fresh, ap_tenant_id = tenant, ap_subject_id = version_id, ap_subject_hash = subject_hash,
                     ap_decision = ''APPROVE'', ap_approver_user_id = approver_id, ap_approver_role = approver_role,
                     ap_comment = note\<rparr>],
                 cd_versions := map (\<lambda>v. if mine v \<and> cv_artifact_hash v = subject_hash then v\<lparr>cv_status := ''APPROVED''\<rparr> else v)
                   (cd_versions db)\<rparr>)))"

definition pg_grant_consent ::
  "(json \<Rightarrow> string) \<Rightarrow> pg_env \<Rightarrow> string \<Rightarrow> string \<Rightarrow> object \<Rightarrow> crm_db \<Rightarrow> json res \<times> crm_db" where
  "pg_grant_consent repr e fresh tenant data = crm_tx e tenant (\<lambda>db.
     case body_items data [''contact_id'', ''channel'', ''purpose'', ''capture_source'', ''evidence_hash'', ''captured_at''] of
       Inl x \<Rightarrow> (Inl x, db)
     | Inr items \<Rightarrow>
         (let row = \<lparr>ct_id = fresh, ct_tenant_id = tenant, ct_contact_id = field_or_null data ''contact_id'',
            ct_channel = field_or_null data ''channel'', ct_purpose = field_or_null data ''purpose'', ct_status = ''GRANTED'',
            ct_valid_until = field_or_null data ''valid_until'', ct_evidence_hash = field_or_null data ''evidence_hash'',
            ct_capture = map (\<lambda>k. (k, field_or_null data k)) [''capture_source'', ''notice_version'', ''evidence_uri'', ''captured_at'']\<rparr> in
          (Inr (JObj [(''id'', JStr fresh), (''tenant_id'', JStr tenant), (''contact_id'', ct_contact_id row),
                (''channel'', ct_channel row), (''purpose'', ct_purpose row), (''status'', JStr ''GRANTED''),
                (''evidence_hash'', ct_evidence_hash row)]),
           service_audit tenant ''CONSENT_GRANTED'' ''CONSENT'' fresh (or_text repr (field_or_null data ''correlation_id'') fresh)
             (db\<lparr>cd_consents := cd_consents db @ [row]\<rparr>))))"

text \<open>\<open>effective_at\<close> is the transaction's time.\<close>

definition pg_suppress ::
  "(json \<Rightarrow> string) \<Rightarrow> (real \<Rightarrow> json) \<Rightarrow> pg_env \<Rightarrow> string \<Rightarrow> string \<Rightarrow> object \<Rightarrow> crm_db \<Rightarrow> json res \<times> crm_db" where
  "pg_suppress repr moment e fresh tenant data db =
     (let scope = dict_get_or (JStr ''TENANT'') data ''scope'' in
      if scope = JStr ''GLOBAL'' then (raise PermissionError ''GLOBAL_SUPPRESSION_REQUIRES_ADMIN_ROLE'', db)
      else crm_tx e tenant (\<lambda>db.
        let row = \<lparr>sp_id = fresh, sp_tenant_id = Some tenant, sp_contact_id = field_or_null data ''contact_id'',
              sp_phone_token = field_or_null data ''phone_token'', sp_channel = field_or_null data ''channel'',
              sp_purpose = field_or_null data ''purpose'', sp_scope = scope,
              sp_reason = dict_get_or (JStr ''OPT_OUT'') data ''reason'', sp_source = dict_get_or (JStr ''API'') data ''source'',
              sp_expires_at = field_or_null data ''expires_at''\<rparr>
        in (Inr (JObj [(''id'', JStr fresh), (''tenant_id'', JStr tenant), (''contact_id'', sp_contact_id row),
                 (''channel'', sp_channel row), (''purpose'', sp_purpose row), (''scope'', scope), (''reason'', sp_reason row),
                 (''effective_at'', moment (pg_now e))]),
            service_audit tenant ''SUPPRESSION_CREATED'' ''SUPPRESSION'' fresh (or_text repr (field_or_null data ''correlation_id'') fresh)
              (db\<lparr>cd_suppressions := cd_suppressions db @ [row]\<rparr>))) db)"

definition interaction_json :: "interaction_rec \<Rightarrow> json" where
  "interaction_json i = JObj
     [(''id'', JStr (ix_id i)), (''tenant_id'', JStr (ix_tenant_id i)), (''contact_id'', JStr (ix_contact_id i)),
      (''channel'', ix_channel i), (''provider'', ix_provider i), (''provider_ref'', ix_provider_ref i),
      (''direction'', ix_direction i), (''status'', ix_status i), (''correlation_id'', ix_correlation_id i)]"

text \<open>The row the insertion conflicts with: one delivery of a provider.\<close>

definition same_delivery :: "interaction_rec \<Rightarrow> interaction_rec \<Rightarrow> bool" where
  "same_delivery a b \<longleftrightarrow> ix_tenant_id a = ix_tenant_id b \<and> sql_eq (ix_provider a) (ix_provider b) \<and>
     sql_eq (ix_provider_ref a) (ix_provider_ref b)"

definition pg_record_interaction ::
  "(json \<Rightarrow> string) \<Rightarrow> pg_env \<Rightarrow> string \<Rightarrow> string \<Rightarrow> string \<Rightarrow> object \<Rightarrow> crm_db \<Rightarrow> json res \<times> crm_db" where
  "pg_record_interaction repr e fresh tenant contact_id data = crm_tx e tenant (\<lambda>db.
     case rbind (body_items data [''channel'', ''provider'', ''direction'', ''status'', ''correlation_id'']) (\<lambda>_. row_id fresh data) of
       Inl x \<Rightarrow> (Inl x, db)
     | Inr i \<Rightarrow>
         (let new = \<lparr>ix_id = i, ix_tenant_id = tenant, ix_contact_id = contact_id, ix_channel = field_or_null data ''channel'',
            ix_provider = field_or_null data ''provider'', ix_provider_ref = field_or_null data ''provider_ref'',
            ix_direction = field_or_null data ''direction'', ix_status = field_or_null data ''status'',
            ix_ended_at = field_or_null data ''ended_at'', ix_correlation_id = field_or_null data ''correlation_id'',
            ix_content = map (\<lambda>k. (k, field_or_null data k)) [''campaign_version_id'', ''content_uri'', ''content_hash'', ''started_at'']\<rparr>;
              update = (\<lambda>r. r\<lparr>ix_status := ix_status new, ix_ended_at := ix_ended_at new\<rparr>);
              audit = service_audit tenant ''INTERACTION_RECORDED'' ''INTERACTION'' i (py_str repr (field_or_null data ''correlation_id''))
          in case find (same_delivery new) (cd_interactions db) of
               Some old \<Rightarrow> (Inr (interaction_json (update old)),
                 audit (db\<lparr>cd_interactions := map (\<lambda>r. if same_delivery new r then update r else r) (cd_interactions db)\<rparr>))
             | None \<Rightarrow>
                 if i \<in> ix_id ` set (cd_interactions db) then (raise DatabaseError ''UNIQUE_VIOLATION'', db)
                 else (Inr (interaction_json new), audit (db\<lparr>cd_interactions := cd_interactions db @ [new]\<rparr>))))"

definition opportunity_json :: "opportunity_rec \<Rightarrow> json" where
  "opportunity_json r = JObj
     [(''id'', JStr (op_id r)), (''tenant_id'', JStr (op_tenant_id r)), (''contact_id'', JStr (op_contact_id r)),
      (''stage'', op_stage r), (''amount'', op_amount r), (''currency'', op_currency r), (''sensitivity'', op_sensitivity r),
      (''version'', JInt (op_version r))]"

text \<open>A conflicting row of another tenant is out of the policy's sight: the update is refused.\<close>

definition pg_upsert_opportunity ::
  "(json \<Rightarrow> string) \<Rightarrow> pg_env \<Rightarrow> string \<Rightarrow> string \<Rightarrow> string \<Rightarrow> object \<Rightarrow> crm_db \<Rightarrow> json res \<times> crm_db" where
  "pg_upsert_opportunity repr e fresh tenant contact_id data = crm_tx e tenant (\<lambda>db.
     case rbind (body_item data ''stage'') (\<lambda>stage. rbind (row_id fresh data) (\<lambda>i. Inr (stage, i))) of
       Inl x \<Rightarrow> (Inl x, db)
     | Inr (stage, i) \<Rightarrow>
         (let new = \<lparr>op_id = i, op_tenant_id = tenant, op_contact_id = contact_id, op_stage = stage,
            op_amount = field_or_null data ''amount'', op_currency = field_or_null data ''currency'',
            op_sensitivity = dict_get_or (JObj []) data ''sensitivity'',
            op_owner_user_id = field_or_null data ''owner_user_id'', op_version = 1\<rparr>;
              update = (\<lambda>r. r\<lparr>op_stage := op_stage new, op_amount := op_amount new, op_currency := op_currency new,
                op_sensitivity := op_sensitivity new, op_version := op_version r + 1\<rparr>);
              audit = service_audit tenant ''OPPORTUNITY_UPSERTED'' ''OPPORTUNITY'' i (or_text repr (field_or_null data ''correlation_id'') i)
          in case find (\<lambda>r. op_id r = i) (cd_opportunities db) of
               None \<Rightarrow> (Inr (opportunity_json new), audit (db\<lparr>cd_opportunities := cd_opportunities db @ [new]\<rparr>))
             | Some old \<Rightarrow>
                 if op_tenant_id old \<noteq> tenant then (raise DatabaseError ''ROW_LEVEL_SECURITY'', db)
                 else (Inr (opportunity_json (update old)),
                   audit (db\<lparr>cd_opportunities := map (\<lambda>r. if op_id r = i then update r else r) (cd_opportunities db)\<rparr>))))"

definition pg_add_memory_fact ::
  "(json \<Rightarrow> string) \<Rightarrow> pg_env \<Rightarrow> string \<Rightarrow> string \<Rightarrow> string \<Rightarrow> object \<Rightarrow> crm_db \<Rightarrow> json res \<times> crm_db" where
  "pg_add_memory_fact repr e fresh tenant contact_id facts = crm_tx e tenant (\<lambda>db.
     case body_items facts [''predicate'', ''value'', ''fact_kind'', ''confidence'', ''classification'', ''valid_from''] of
       Inl x \<Rightarrow> (Inl x, db)
     | Inr items \<Rightarrow>
         if field_or_null facts ''fact_kind'' \<notin> {JStr ''DECLARED'', JStr ''OBSERVED'', JStr ''INFERRED''}
         then (raise DatabaseError ''CHECK_VIOLATION'', db)
         else
           (let fields = items @ [(''valid_until'', field_or_null facts ''valid_until'')];
                source = field_or_null facts ''source_interaction_id'' in
            (Inr (JObj ([(''id'', JStr fresh), (''tenant_id'', JStr tenant), (''contact_id'', JStr contact_id)] @ fields)),
             service_audit tenant ''MEMORY_FACT_ADDED'' ''MEMORY_FACT'' fresh
               (or_text repr (field_or_null facts ''correlation_id'') (or_text repr source fresh))
               (db\<lparr>cd_facts := cd_facts db @ [\<lparr>mf_id = fresh, mf_tenant_id = tenant, mf_contact_id = contact_id,
                  mf_fields = fields @ [(''source_interaction_id'', source)]\<rparr>]\<rparr>))))"

text \<open>Due after twenty days.\<close>

definition pg_request_arco ::
  "(real \<Rightarrow> json) \<Rightarrow> pg_env \<Rightarrow> string \<Rightarrow> string \<Rightarrow> string \<Rightarrow> string \<Rightarrow> string \<Rightarrow> crm_db \<Rightarrow> json res \<times> crm_db" where
  "pg_request_arco moment e fresh tenant contact_id request_type verification_ref = crm_tx e tenant (\<lambda>db.
     let due = pg_now e + 20 * 86400 in
     if request_type \<notin> set arco_types then (raise DatabaseError ''CHECK_VIOLATION'', db)
     else (Inr (JObj [(''id'', JStr fresh), (''tenant_id'', JStr tenant), (''contact_id'', JStr contact_id),
        (''request_type'', JStr request_type), (''status'', JStr ''OPEN''), (''due_at'', moment due)]),
      service_audit tenant ''PRIVACY_REQUEST_CREATED'' ''DATA_SUBJECT_REQUEST'' fresh fresh
        (db\<lparr>cd_requests := cd_requests db @ [\<lparr>dq_id = fresh, dq_tenant_id = tenant, dq_contact_id = contact_id,
           dq_request_type = request_type, dq_identity_verification_ref = verification_ref, dq_status = ''OPEN'', dq_due_at = due\<rparr>]\<rparr>)))"

section \<open>Evidence\<close>

text \<open>
  The operators of the database on JSON: \<open>->\<close>, \<open>->>\<close> (where \<open>pj_text\<close> is the text of a value
  that is no string), the cast to boolean, and the moment of a stored time.
\<close>

record pg_json =
  pj_text :: "json \<Rightarrow> string"
  pj_boolean :: "string \<Rightarrow> bool option"
  pj_time :: "json \<Rightarrow> real"

definition jb_get :: "json option \<Rightarrow> string \<Rightarrow> json option" where
  "jb_get j k = (case j of Some (JObj kvs) \<Rightarrow> map_of kvs k | _ \<Rightarrow> None)"

definition jb_text :: "pg_json \<Rightarrow> json option \<Rightarrow> string option" where
  "jb_text pj j = (case j of None \<Rightarrow> None | Some JNull \<Rightarrow> None | Some (JStr s) \<Rightarrow> Some s | Some v \<Rightarrow> Some (pj_text pj v))"

definition jb_bool :: "pg_json \<Rightarrow> json option \<Rightarrow> bool res" where
  "jb_bool pj j =
     (case jb_text pj j of None \<Rightarrow> Inr False | Some s \<Rightarrow> of_option (Exn DatabaseError ''INVALID_TEXT_REPRESENTATION'') (pj_boolean pj s))"

definition open_ended :: "pg_json \<Rightarrow> real \<Rightarrow> json \<Rightarrow> bool" where
  "open_ended pj now v \<longleftrightarrow> v = JNull \<or> now < pj_time pj v"

definition suppresses :: "pg_json \<Rightarrow> real \<Rightarrow> string \<Rightarrow> string \<Rightarrow> json \<Rightarrow> suppression_rec \<Rightarrow> bool" where
  "suppresses pj now tenant contact_id phone_token s \<longleftrightarrow>
     (sp_tenant_id s = Some tenant \<or> sp_tenant_id s = None) \<and>
     (sql_eq (sp_contact_id s) (JStr contact_id) \<or> sql_eq (sp_phone_token s) phone_token) \<and>
     open_ended pj now (sp_expires_at s)"

definition consents :: "pg_json \<Rightarrow> real \<Rightarrow> string \<Rightarrow> string \<Rightarrow> string \<Rightarrow> string \<Rightarrow> consent_rec \<Rightarrow> bool" where
  "consents pj now tenant contact_id channel purpose c \<longleftrightarrow>
     ct_tenant_id c = tenant \<and> ct_contact_id c = JStr contact_id \<and> ct_channel c = JStr channel \<and> ct_purpose c = JStr purpose \<and>
     ct_status c = ''GRANTED'' \<and> open_ended pj now (ct_valid_until c)"

definition version_approved :: "string \<Rightarrow> string \<Rightarrow> crm_db \<Rightarrow> bool" where
  "version_approved tenant version_id db \<longleftrightarrow>
     (\<exists>v \<in> set (cd_versions db). \<exists>a \<in> set (cd_approvals db).
        ap_tenant_id a = cv_tenant_id v \<and> ap_subject_id a = cv_id v \<and> ap_subject_hash a = cv_artifact_hash v \<and>
        ap_decision a = ''APPROVE'' \<and> cv_tenant_id v = tenant \<and> cv_id v = version_id \<and> cv_status v \<in> {''APPROVED'', ''RUNNING''})"

text \<open>The newest manifest of a version: the rows are in the order of their creation.\<close>

definition newest_manifest :: "string \<Rightarrow> string \<Rightarrow> crm_db \<Rightarrow> json option" where
  "newest_manifest tenant version_id db =
     map_option at_canonical_manifest
       (find (\<lambda>a. at_tenant_id a = tenant \<and> at_campaign_version_id a = version_id) (rev (cd_artifacts db)))"

fun newer_check :: "repep_rec \<Rightarrow> repep_rec option \<Rightarrow> repep_rec option" where
  "newer_check r None = Some r"
| "newer_check r (Some s) = Some (if rk_checked_at s < rk_checked_at r then r else s)"

definition latest_check :: "real \<Rightarrow> string \<Rightarrow> json \<Rightarrow> repep_rec list \<Rightarrow> repep_rec option" where
  "latest_check now tenant phone_token rows =
     fold newer_check
       (filter (\<lambda>r. rk_tenant_id r = tenant \<and> sql_eq (JStr (rk_phone_token r)) phone_token \<and> now < rk_valid_until r) rows) None"

definition pg_evidence ::
  "pg_json \<Rightarrow> pg_env \<Rightarrow> string \<Rightarrow> string \<Rightarrow> json \<Rightarrow> string \<Rightarrow> string \<Rightarrow> string \<Rightarrow> crm_db \<Rightarrow> object res \<times> crm_db" where
  "pg_evidence pj e tenant contact_id phone_token channel purpose version_id = crm_tx e tenant (\<lambda>db.
     let manifest = newest_manifest tenant version_id db;
         repep = jb_get manifest ''repep'';
         text = (\<lambda>j. case jb_text pj j of None \<Rightarrow> JNull | Some s \<Rightarrow> JStr s);
         check = latest_check (pg_now e) tenant phone_token (cd_repep_checks db)
     in (rbind (jb_bool pj (jb_get repep ''enabled'')) (\<lambda>enabled.
         rbind (jb_bool pj (jb_get repep ''exemption_approved'')) (\<lambda>exemption_approved.
           Inr [(''suppressed'', JBool (\<exists>s \<in> set (cd_suppressions db). suppresses pj (pg_now e) tenant contact_id phone_token s)),
                (''consent_active'', JBool (\<exists>c \<in> set (cd_consents db). consents pj (pg_now e) tenant contact_id channel purpose c)),
                (''campaign_approved'', JBool (version_approved tenant version_id db)),
                (''approved_content_hash'', text (jb_get (jb_get manifest ''content_hashes'') (py_lower channel))),
                (''repep_enabled'', JBool enabled), (''repep_exemption_type'', text (jb_get repep ''exemption_type'')),
                (''repep_exemption_approved'', JBool exemption_approved),
                (''repep_exemption_evidence_ref'', text (jb_get repep ''exemption_evidence_ref'')),
                (''repep_snapshot_valid'', JBool (check \<noteq> None)),
                (''repep_listed'', case check of None \<Rightarrow> JNull | Some r \<Rightarrow> JBool (rk_result r \<noteq> ''NOT_LISTED''))])), db))"

section \<open>Runs of the repository\<close>

inductive crm_db_step :: "crm_db \<Rightarrow> crm_db \<Rightarrow> bool" where
  contact: "pg_create_contact e i t d db = (r, db') \<Longrightarrow> crm_db_step db db'"
| version: "pg_create_version e ids o' t c m db = (r, db') \<Longrightarrow> crm_db_step db db'"
| approve: "pg_approve_campaign e i t v a h role note db = (r, db') \<Longrightarrow> crm_db_step db db'"
| consent: "pg_grant_consent repr e i t d db = (r, db') \<Longrightarrow> crm_db_step db db'"
| suppress: "pg_suppress repr moment e i t d db = (r, db') \<Longrightarrow> crm_db_step db db'"
| interaction: "pg_record_interaction repr e i t c d db = (r, db') \<Longrightarrow> crm_db_step db db'"
| opportunity: "pg_upsert_opportunity repr e i t c d db = (r, db') \<Longrightarrow> crm_db_step db db'"
| memory: "pg_add_memory_fact repr e i t c d db = (r, db') \<Longrightarrow> crm_db_step db db'"
| arco: "pg_request_arco moment e i t c k v db = (r, db') \<Longrightarrow> crm_db_step db db'"
| checked: "crm_db_step db (db\<lparr>cd_repep_checks := checks\<rparr>)"

definition crm_db_init :: crm_db where
  "crm_db_init = \<lparr>cd_contacts = [], cd_campaigns = [], cd_versions = [], cd_artifacts = [], cd_approvals = [], cd_consents = [],
     cd_suppressions = [], cd_repep_checks = [], cd_interactions = [], cd_opportunities = [], cd_facts = [], cd_requests = [],
     cd_audit = []\<rparr>"

lemma crm_tx_cases:
  assumes "crm_tx e t body db = (r, db')"
  shows "db' = db \<or> (t \<noteq> [] \<and> pg_fault e = None \<and> (\<exists>a. r = Inr a \<and> body db = (Inr a, db')))"
  using assms by (auto simp: crm_tx_def pg_run_def split: if_splits option.splits prod.splits sum.splits)

lemma crm_audit_fields [simp]:
  "cd_versions (crm_audit t k a n y i c db) = cd_versions db" "cd_artifacts (crm_audit t k a n y i c db) = cd_artifacts db"
  "cd_approvals (crm_audit t k a n y i c db) = cd_approvals db" "cd_suppressions (crm_audit t k a n y i c db) = cd_suppressions db"
  "cd_consents (crm_audit t k a n y i c db) = cd_consents db" "cd_campaigns (crm_audit t k a n y i c db) = cd_campaigns db"
  by (simp_all add: crm_audit_def)

text \<open>The rows evidence is read from, after each operation.\<close>

lemma contact_frame:
  assumes "pg_create_contact e i t d db = (r, db')"
  shows "cd_versions db' = cd_versions db" "cd_artifacts db' = cd_artifacts db" "cd_approvals db' = cd_approvals db"
    "cd_suppressions db' = cd_suppressions db"
  using crm_tx_cases [OF assms [unfolded pg_create_contact_def]] by (auto simp: Let_def split: sum.splits if_splits)

lemma consent_frame:
  assumes "pg_grant_consent repr e i t d db = (r, db')"
  shows "cd_versions db' = cd_versions db" "cd_artifacts db' = cd_artifacts db" "cd_approvals db' = cd_approvals db"
    "cd_suppressions db' = cd_suppressions db"
  using crm_tx_cases [OF assms [unfolded pg_grant_consent_def]] by (auto simp: Let_def split: sum.splits if_splits)

lemma interaction_frame:
  assumes "pg_record_interaction repr e i t c d db = (r, db')"
  shows "cd_versions db' = cd_versions db" "cd_artifacts db' = cd_artifacts db" "cd_approvals db' = cd_approvals db"
    "cd_suppressions db' = cd_suppressions db"
  using crm_tx_cases [OF assms [unfolded pg_record_interaction_def]] by (auto simp: Let_def split: sum.splits if_splits option.splits)

lemma opportunity_frame:
  assumes "pg_upsert_opportunity repr e i t c d db = (r, db')"
  shows "cd_versions db' = cd_versions db" "cd_artifacts db' = cd_artifacts db" "cd_approvals db' = cd_approvals db"
    "cd_suppressions db' = cd_suppressions db"
  using crm_tx_cases [OF assms [unfolded pg_upsert_opportunity_def]]
  by (auto simp: Let_def split: sum.splits if_splits option.splits prod.splits)

lemma memory_frame:
  assumes "pg_add_memory_fact repr e i t c d db = (r, db')"
  shows "cd_versions db' = cd_versions db" "cd_artifacts db' = cd_artifacts db" "cd_approvals db' = cd_approvals db"
    "cd_suppressions db' = cd_suppressions db"
  using crm_tx_cases [OF assms [unfolded pg_add_memory_fact_def]] by (auto simp: Let_def split: sum.splits if_splits)

lemma arco_frame:
  assumes "pg_request_arco moment e i t c k v db = (r, db')"
  shows "cd_versions db' = cd_versions db" "cd_artifacts db' = cd_artifacts db" "cd_approvals db' = cd_approvals db"
    "cd_suppressions db' = cd_suppressions db"
  using crm_tx_cases [OF assms [unfolded pg_request_arco_def]] by (auto simp: Let_def split: if_splits)

lemma suppress_rows:
  assumes "pg_suppress repr moment e i t d db = (r, db')"
  shows "cd_versions db' = cd_versions db" "cd_artifacts db' = cd_artifacts db" "cd_approvals db' = cd_approvals db"
    "set (cd_suppressions db) \<subseteq> set (cd_suppressions db')"
    "r = Inr a \<Longrightarrow> \<exists>s \<in> set (cd_suppressions db'). sp_tenant_id s = Some t \<and> sp_contact_id s = field_or_null d ''contact_id'' \<and>
      sp_phone_token s = field_or_null d ''phone_token'' \<and> sp_expires_at s = field_or_null d ''expires_at''"
  using assms by (auto simp: pg_suppress_def crm_tx_def pg_run_def Let_def split: if_splits option.splits)

lemma approve_rows:
  assumes "pg_approve_campaign e i t v a h role note db = (r, db')"
  shows "cd_artifacts db' = cd_artifacts db" "set (cd_approvals db) \<subseteq> set (cd_approvals db')" "cd_suppressions db' = cd_suppressions db"
    "\<exists>approved. cd_versions db' = map (\<lambda>x. if approved x then x\<lparr>cv_status := ''APPROVED''\<rparr> else x) (cd_versions db)"
proof -
  note c = crm_tx_cases [OF assms [unfolded pg_approve_campaign_def]]
  show "cd_artifacts db' = cd_artifacts db" "set (cd_approvals db) \<subseteq> set (cd_approvals db')" "cd_suppressions db' = cd_suppressions db"
    using c by (auto simp: Let_def split: option.splits if_splits)
  have "db' = db \<or> cd_versions db' = map (\<lambda>x. if (cv_id x = v \<and> cv_tenant_id x = t) \<and> cv_artifact_hash x = h
      then x\<lparr>cv_status := ''APPROVED''\<rparr> else x) (cd_versions db)"
    using c by (auto simp: Let_def split: option.splits if_splits)
  then show "\<exists>approved. cd_versions db' = map (\<lambda>x. if approved x then x\<lparr>cv_status := ''APPROVED''\<rparr> else x) (cd_versions db)"
  proof
    assume "db' = db"
    then show ?thesis by (intro exI [of _ "\<lambda>_. False"]) simp
  next
    assume "cd_versions db' = map (\<lambda>x. if (cv_id x = v \<and> cv_tenant_id x = t) \<and> cv_artifact_hash x = h
      then x\<lparr>cv_status := ''APPROVED''\<rparr> else x) (cd_versions db)"
    then show ?thesis by (rule exI [of _ "\<lambda>x. (cv_id x = v \<and> cv_tenant_id x = t) \<and> cv_artifact_hash x = h"])
  qed
qed

lemma version_body_rows:
  assumes "create_version_body ids t c m w db = (Inr r, db')"
  shows "cd_approvals db' = cd_approvals db" "cd_suppressions db' = cd_suppressions db"
    "cd_versions db' = cd_versions db @ [new_version (fst ids) t c m w (cd_versions db)]"
    "\<exists>a. cd_artifacts db' = cd_artifacts db @ [a] \<and> at_campaign_version_id a = fst ids \<and> at_tenant_id a = t \<and> at_canonical_manifest a = JObj m"
    "fst ids \<notin> cv_id ` set (cd_versions db)"
proof -
  let ?b = "\<exists>v \<in> set (cd_versions db). cv_id v = fst ids \<or>
      (cv_campaign_id v = c \<and> cv_artifact_hash v = cv_artifact_hash (new_version (fst ids) t c m w (cd_versions db)))"
  have no: "\<not> ?b" using assms by (auto simp: create_version_body_def Let_def split: if_splits)
  then show "fst ids \<notin> cv_id ` set (cd_versions db)" by (metis imageE)
  obtain campaigns art where "db' = service_audit t ''CAMPAIGN_VERSION_CREATED'' ''CAMPAIGN_VERSION'' (fst ids) (fst ids)
      (db\<lparr>cd_campaigns := campaigns, cd_versions := cd_versions db @ [new_version (fst ids) t c m w (cd_versions db)],
          cd_artifacts := cd_artifacts db @ [\<lparr>at_id = snd ids, at_tenant_id = t, at_campaign_version_id = fst ids,
            at_canonical_manifest = JObj m, at_artifact_hash = art\<rparr>]\<rparr>)"
    using assms no unfolding create_version_body_def Let_def by (auto split: if_splits)
  then show "cd_approvals db' = cd_approvals db" "cd_suppressions db' = cd_suppressions db"
    "cd_versions db' = cd_versions db @ [new_version (fst ids) t c m w (cd_versions db)]"
    "\<exists>a. cd_artifacts db' = cd_artifacts db @ [a] \<and> at_campaign_version_id a = fst ids \<and> at_tenant_id a = t \<and> at_canonical_manifest a = JObj m"
    by simp_all
qed

lemma version_rows:
  assumes "pg_create_version e ids o' t c m db = (r, db')"
  shows "db' = db \<or> (\<exists>j r' w. create_version_body ids t c j w db = (Inr r', db'))"
  using assms by (auto simp: pg_create_version_def split: sum.splits dest!: crm_tx_cases)

lemma find_member: "find P xs = Some y \<Longrightarrow> y \<in> set xs \<and> P y"
  by (auto simp: find_Some_iff)

text \<open>
  What a transaction leaves: suppressions only grow; versions, artifacts and approvals belong
  together and a version's status is approved only with an approval of its hash.
\<close>

definition crm_db_ok :: "crm_db \<Rightarrow> bool" where
  "crm_db_ok db \<longleftrightarrow> distinct (map cv_id (cd_versions db)) \<and> distinct (map at_campaign_version_id (cd_artifacts db)) \<and>
     (\<forall>v \<in> set (cd_versions db). cv_artifact_hash v = sha256_hex (cv_definition v) \<and>
        (\<exists>a \<in> set (cd_artifacts db). at_campaign_version_id a = cv_id v \<and> at_tenant_id a = cv_tenant_id v \<and>
           at_canonical_manifest a = cv_definition v)) \<and>
     at_campaign_version_id ` set (cd_artifacts db) \<subseteq> cv_id ` set (cd_versions db)"

lemma crm_db_ok_approved:
  assumes "crm_db_ok db" "cd_versions db' = map (\<lambda>x. if approved x then x\<lparr>cv_status := ''APPROVED''\<rparr> else x) (cd_versions db)"
    and "cd_artifacts db' = cd_artifacts db"
  shows "crm_db_ok db'"
proof -
  have ids: "map cv_id (cd_versions db') = map cv_id (cd_versions db)" by (simp add: assms(2))
  have image: "cv_id ` set (cd_versions db') = cv_id ` set (cd_versions db)" using ids by (metis set_map)
  have "cv_artifact_hash v = sha256_hex (cv_definition v) \<and> (\<exists>a \<in> set (cd_artifacts db). at_campaign_version_id a = cv_id v \<and>
      at_tenant_id a = cv_tenant_id v \<and> at_canonical_manifest a = cv_definition v)" if v: "v \<in> set (cd_versions db')" for v
  proof -
    obtain x where "x \<in> set (cd_versions db)" "v = (if approved x then x\<lparr>cv_status := ''APPROVED''\<rparr> else x)" using v assms(2) by auto
    then show ?thesis using assms(1) by (simp add: crm_db_ok_def)
  qed
  then show ?thesis using assms(1) unfolding crm_db_ok_def ids image assms(3) by blast
qed

lemma crm_db_ok_added:
  assumes "crm_db_ok db" "create_version_body ids t c m w db = (Inr r, db')"
  shows "crm_db_ok db'"
proof -
  note v = version_body_rows [OF assms(2)]
  obtain a where a: "cd_artifacts db' = cd_artifacts db @ [a]" "at_campaign_version_id a = fst ids" "at_tenant_id a = t"
    "at_canonical_manifest a = JObj m" using v(4) by blast
  show ?thesis using assms(1) v(5) unfolding crm_db_ok_def v(3) a(1) by (auto simp: new_version_def a(2-4))
qed

lemma crm_db_same:
  assumes "cd_versions db' = cd_versions db" "cd_artifacts db' = cd_artifacts db" "cd_suppressions db' = cd_suppressions db"
  shows "set (cd_suppressions db) \<subseteq> set (cd_suppressions db') \<and> (crm_db_ok db \<longrightarrow> crm_db_ok db')"
  using assms by (simp add: crm_db_ok_def)

lemma crm_db_step_facts:
  assumes "crm_db_step db db'"
  shows "set (cd_suppressions db) \<subseteq> set (cd_suppressions db') \<and> (crm_db_ok db \<longrightarrow> crm_db_ok db')"
  using assms
proof (cases rule: crm_db_step.cases)
  case (version e ids o' t c m r)
  from version_rows [OF version] show ?thesis
  proof (elim disjE exE)
    fix j r' w
    assume body: "create_version_body ids t c j w db = (Inr r', db')"
    show ?thesis using crm_db_ok_added [OF _ body] version_body_rows(2) [OF body] by simp
  qed simp
next
  case (approve e i t v a h role "note" r)
  obtain approved where v: "cd_versions db' = map (\<lambda>x. if approved x then x\<lparr>cv_status := ''APPROVED''\<rparr> else x) (cd_versions db)"
    using approve_rows(4) [OF approve] by blast
  show ?thesis using crm_db_ok_approved [OF _ v approve_rows(1) [OF approve]] approve_rows(3) [OF approve] by simp
next
  case (suppress repr moment e i t d r)
  from suppress_rows [OF suppress] show ?thesis by (simp add: crm_db_ok_def)
next
  case (contact e i t d r)
  then show ?thesis by (intro crm_db_same contact_frame(1,2,4))
next
  case (consent repr e i t d r)
  then show ?thesis by (intro crm_db_same consent_frame(1,2,4))
next
  case (interaction repr e i t c d r)
  then show ?thesis by (intro crm_db_same interaction_frame(1,2,4))
next
  case (opportunity repr e i t c d r)
  then show ?thesis by (intro crm_db_same opportunity_frame(1,2,4))
next
  case (memory repr e i t c d r)
  then show ?thesis by (intro crm_db_same memory_frame(1,2,4))
next
  case (arco moment e i t c k v r)
  then show ?thesis by (intro crm_db_same arco_frame(1,2,4))
qed (simp add: crm_db_ok_def)

lemma crm_db_steps_facts:
  assumes "crm_db_step\<^sup>*\<^sup>* db db'"
  shows "set (cd_suppressions db) \<subseteq> set (cd_suppressions db') \<and> (crm_db_ok db \<longrightarrow> crm_db_ok db')"
  using assms
proof (induction rule: rtranclp_induct)
  case (step y z)
  then show ?case using crm_db_step_facts [OF step(2)] by blast
qed simp

lemma pg_evidence_Inr:
  assumes "pg_evidence pj e t c p ch pu v db = (Inr ev, db')"
  shows "map_of ev ''suppressed'' = Some (JBool (\<exists>s \<in> set (cd_suppressions db). suppresses pj (pg_now e) t c p s))"
    "map_of ev ''campaign_approved'' = Some (JBool (version_approved t v db))"
    "map_of ev ''approved_content_hash'' = Some (case jb_text pj (jb_get (jb_get (newest_manifest t v db) ''content_hashes'') (py_lower ch)) of
        None \<Rightarrow> JNull | Some s \<Rightarrow> JStr s)"
    "t \<noteq> []"
  using assms by (auto simp: pg_evidence_def crm_tx_def pg_run_def Let_def rbind_Inr_iff split: if_splits option.splits sum.splits)

lemma open_suppression_in_force:
  assumes "pg_suppress repr moment e i t d db = (Inr r, db1)" "map_of d ''contact_id'' = Some (JStr c)"
    and "dict_get_or JNull d ''expires_at'' = JNull" "crm_db_step\<^sup>*\<^sup>* db1 db2" "pg_evidence pj e' t c p ch pu v db2 = (Inr ev, db3)"
  shows "map_of ev ''suppressed'' = Some (JBool True)"
proof -
  obtain s where s: "s \<in> set (cd_suppressions db1)" "sp_tenant_id s = Some t" "sp_contact_id s = JStr c" "sp_expires_at s = JNull"
    using suppress_rows(5) [OF assms(1)] assms(2,3) by (auto simp: dict_get_or_def)
  then have "suppresses pj (pg_now e') t c p s" by (simp add: suppresses_def sql_eq_def open_ended_def)
  moreover have "s \<in> set (cd_suppressions db2)" using crm_db_steps_facts [OF assms(4)] s(1) by blast
  ultimately show ?thesis using pg_evidence_Inr(1) [OF assms(5)] by auto
qed

text \<open>
  C12: in PostgreSQL mode a suppression without an end holds for good: whatever transactions of the
  repository follow, of any tenant and whether they fail or not, every later evidence for that contact
  says suppressed, for any channel, purpose, campaign and phone.
\<close>

theorem pg_suppression_stays:
  assumes "pg_suppress repr moment e i t d db = (Inr r, db1)" "map_of d ''contact_id'' = Some (JStr c)" "map_of d ''expires_at'' = None"
    and "crm_db_step\<^sup>*\<^sup>* db1 db2" "pg_evidence pj e' t c p ch pu v db2 = (Inr ev, db3)"
  shows "map_of ev ''suppressed'' = Some (JBool True)"
  by (rule open_suppression_in_force [OF assms(1,2) _ assms(4,5)]) (simp add: dict_get_or_def assms(3))

theorem pg_suppression_stays_witness:
  "\<exists>r db1 ev db3. pg_suppress (\<lambda>_. []) (\<lambda>_. JNull) \<lparr>pg_now = 0, pg_fault = None\<rparr> ''i'' ''t'' [(''contact_id'', JStr ''c'')] crm_db_init = (Inr r, db1) \<and>
    pg_evidence \<lparr>pj_text = \<lambda>_. [], pj_boolean = \<lambda>_. None, pj_time = \<lambda>_. 0\<rparr> \<lparr>pg_now = 9, pg_fault = None\<rparr> ''t'' ''c'' JNull ''VOICE'' ''SERVICE'' ''v'' db1 =
      (Inr ev, db3) \<and> map_of ev ''suppressed'' = Some (JBool True)"
proof -
  let ?pj = "\<lparr>pj_text = \<lambda>_. [], pj_boolean = \<lambda>_. None, pj_time = \<lambda>_. 0 :: real\<rparr>"
  obtain r db1 where s: "pg_suppress (\<lambda>_. []) (\<lambda>_. JNull) \<lparr>pg_now = 0, pg_fault = None\<rparr> ''i'' ''t'' [(''contact_id'', JStr ''c'')] crm_db_init = (Inr r, db1)"
    by (simp add: pg_suppress_def crm_tx_def pg_run_def Let_def dict_get_or_def)
  then have "cd_artifacts db1 = []" using suppress_rows(2) [OF s] by (simp add: crm_db_init_def)
  then obtain ev db3 where ev: "pg_evidence ?pj \<lparr>pg_now = 9, pg_fault = None\<rparr> ''t'' ''c'' JNull ''VOICE'' ''SERVICE'' ''v'' db1 = (Inr ev, db3)"
    by (simp add: pg_evidence_def crm_tx_def pg_run_def Let_def newest_manifest_def jb_get_def jb_bool_def jb_text_def)
  have "map_of ev ''suppressed'' = Some (JBool True)"
    using pg_suppression_stays [OF s _ _ rtranclp.rtrancl_refl ev] by simp
  then show ?thesis using s ev by blast
qed

text \<open>
  C13: in PostgreSQL mode a campaign counts as approved only when someone approved the SHA-256 of the
  very manifest the content hash is taken from.
\<close>

theorem pg_campaign_evidence_sound:
  assumes "crm_db_step\<^sup>*\<^sup>* crm_db_init db" "pg_evidence pj e t c p ch pu v db = (Inr ev, db')"
    and "map_of ev ''campaign_approved'' = Some (JBool True)"
  shows "\<exists>m a. newest_manifest t v db = Some m \<and> a \<in> set (cd_approvals db) \<and> ap_tenant_id a = t \<and> ap_subject_id a = v \<and>
    ap_decision a = ''APPROVE'' \<and> ap_subject_hash a = sha256_hex m \<and>
    map_of ev ''approved_content_hash'' = Some (case jb_text pj (jb_get (jb_get (Some m) ''content_hashes'') (py_lower ch)) of
        None \<Rightarrow> JNull | Some s \<Rightarrow> JStr s)"
proof -
  have "crm_db_ok crm_db_init" by (simp add: crm_db_ok_def crm_db_init_def)
  then have ok: "crm_db_ok db" using crm_db_steps_facts [OF assms(1)] by blast
  obtain x a where x: "x \<in> set (cd_versions db)" "a \<in> set (cd_approvals db)" "ap_tenant_id a = t" "ap_subject_id a = v"
    "ap_subject_hash a = cv_artifact_hash x" "ap_decision a = ''APPROVE''" "cv_tenant_id x = t" "cv_id x = v"
    using pg_evidence_Inr(2) [OF assms(2)] assms(3) by (auto simp: version_approved_def)
  have "\<exists>a \<in> set (cd_artifacts db). at_campaign_version_id a = cv_id x \<and> at_tenant_id a = cv_tenant_id x \<and>
      at_canonical_manifest a = cv_definition x" using ok x(1) by (simp add: crm_db_ok_def)
  then obtain m where m: "m \<in> set (cd_artifacts db)" "at_campaign_version_id m = v" "at_tenant_id m = t" "at_canonical_manifest m = cv_definition x"
    unfolding x(7,8) by blast
  have "\<exists>y. find (\<lambda>a. at_tenant_id a = t \<and> at_campaign_version_id a = v) (rev (cd_artifacts db)) = Some y"
  proof (cases "find (\<lambda>a. at_tenant_id a = t \<and> at_campaign_version_id a = v) (rev (cd_artifacts db))")
    case None
    then have "m \<notin> set (rev (cd_artifacts db))" using m(2,3) unfolding find_None_iff by blast
    then show ?thesis using m(1) by simp
  qed simp
  then obtain y where y: "find (\<lambda>a. at_tenant_id a = t \<and> at_campaign_version_id a = v) (rev (cd_artifacts db)) = Some y" by blast
  then have "y \<in> set (cd_artifacts db)" "at_campaign_version_id y = v" by (auto dest: find_member)
  moreover have "distinct (map at_campaign_version_id (cd_artifacts db))" using ok by (simp add: crm_db_ok_def)
  ultimately have "y = m" using m(1,2) by (metis distinct_map inj_onD)
  then have n: "newest_manifest t v db = Some (cv_definition x)" using y m(4) by (simp add: newest_manifest_def)
  have "cv_artifact_hash x = sha256_hex (cv_definition x)" using ok x(1) by (simp add: crm_db_ok_def)
  then show ?thesis using x n pg_evidence_Inr(3) [OF assms(2)] by auto
qed

theorem pg_campaign_evidence_sound_witness:
  "\<exists>db ev a. crm_db_step\<^sup>*\<^sup>* crm_db_init db \<and>
    fst (pg_evidence \<lparr>pj_text = \<lambda>_. [], pj_boolean = \<lambda>_. None, pj_time = \<lambda>_. 0\<rparr> \<lparr>pg_now = 9, pg_fault = None\<rparr>
      ''t'' ''c'' JNull ''VOICE'' ''SERVICE'' ''v'' db) = Inr ev \<and>
    map_of ev ''campaign_approved'' = Some (JBool True) \<and> a \<in> set (cd_approvals db) \<and> ap_subject_id a = ''v''"
proof -
  let ?e = "\<lparr>pg_now = 0, pg_fault = None\<rparr>"
  let ?pj = "\<lparr>pj_text = \<lambda>_. [], pj_boolean = \<lambda>_. None, pj_time = \<lambda>_. 0 :: real\<rparr>"
  let ?m = "[(''content_hashes'', JObj [(''voice'', JStr ''h'')])]"
  let ?db1 = "snd (pg_create_version ?e (''v'', ''a'') ''o'' ''t'' ''g'' (JObj ?m) crm_db_init)"
  let ?db2 = "snd (pg_approve_campaign ?e ''i'' ''t'' ''v'' ''u'' (sha256_hex (JObj ?m)) ''r'' JNull ?db1)"
  have s1: "crm_db_step crm_db_init ?db1" by (rule crm_db_step.version [OF surjective_pairing])
  have s2: "crm_db_step ?db1 ?db2" by (rule crm_db_step.approve [OF surjective_pairing])
  have r: "crm_db_step\<^sup>*\<^sup>* crm_db_init ?db2" using s1 s2 by (meson rtranclp.rtrancl_into_rtrancl rtranclp.rtrancl_refl)
  have v: "cd_versions ?db2 = [\<lparr>cv_id = ''v'', cv_tenant_id = ''t'', cv_campaign_id = ''g'', cv_version_no = 1, cv_status = ''APPROVED'',
      cv_purpose = JStr ''PROMOTIONAL'', cv_definition = JObj ?m, cv_artifact_hash = sha256_hex (JObj ?m), cv_created_by = JStr ''o''\<rparr>]"
    "cd_approvals ?db2 = [\<lparr>ap_id = ''i'', ap_tenant_id = ''t'', ap_subject_id = ''v'', ap_subject_hash = sha256_hex (JObj ?m),
      ap_decision = ''APPROVE'', ap_approver_user_id = ''u'', ap_approver_role = ''r'', ap_comment = JNull\<rparr>]"
    "cd_artifacts ?db2 = [\<lparr>at_id = ''a'', at_tenant_id = ''t'', at_campaign_version_id = ''v'', at_canonical_manifest = JObj ?m,
      at_artifact_hash = sha256_hex (JObj ?m)\<rparr>]"
    by (simp_all add: pg_create_version_def create_version_body_def crm_tx_def pg_run_def Let_def add_campaign_def crm_db_init_def
        new_version_def next_version_no_def or_value_def dict_get_or_def pg_approve_campaign_def)
  have m: "newest_manifest ''t'' ''v'' ?db2 = Some (JObj ?m)" by (simp add: newest_manifest_def v(3))
  have a: "version_approved ''t'' ''v'' ?db2" by (simp add: version_approved_def v)
  obtain ev where ev: "pg_evidence ?pj \<lparr>pg_now = 9, pg_fault = None\<rparr> ''t'' ''c'' JNull ''VOICE'' ''SERVICE'' ''v'' ?db2 = (Inr ev, ?db2)"
    "map_of ev ''campaign_approved'' = Some (JBool True)"
    by (simp add: pg_evidence_def crm_tx_def pg_run_def m a jb_get_def jb_bool_def jb_text_def Let_def)
  from pg_campaign_evidence_sound [OF r ev] obtain a where "a \<in> set (cd_approvals ?db2)" "ap_subject_id a = ''v''" by blast
  then show ?thesis using r ev by (metis fst_conv)
qed

end
