(* ===== verification/CrmServer.thy ===== *)
theory CrmServer
  imports CrmPg Client
begin

text \<open>
  services/crm\_api/app/server.py: the endpoints of the CRM over either repository, and what the
  process is started with. A repository is the record of its methods on a state; a tenant or contact
  of a request that is no text is a TypeError.
\<close>

section \<open>The repository behind the endpoints\<close>

record 's crm_store =
  so_create_contact :: "string \<Rightarrow> object \<Rightarrow> 's \<Rightarrow> json res \<times> 's"
  so_create_version :: "string \<Rightarrow> string \<Rightarrow> json \<Rightarrow> 's \<Rightarrow> json res \<times> 's"
  so_approve :: "string \<Rightarrow> string \<Rightarrow> string \<Rightarrow> string \<Rightarrow> string \<Rightarrow> json \<Rightarrow> 's \<Rightarrow> json res \<times> 's"
  so_suppress :: "string \<Rightarrow> object \<Rightarrow> 's \<Rightarrow> json res \<times> 's"
  so_interaction :: "string \<Rightarrow> string \<Rightarrow> object \<Rightarrow> 's \<Rightarrow> json res \<times> 's"
  so_opportunity :: "string \<Rightarrow> string \<Rightarrow> object \<Rightarrow> 's \<Rightarrow> json res \<times> 's"
  so_memory_fact :: "string \<Rightarrow> string \<Rightarrow> object \<Rightarrow> 's \<Rightarrow> json res \<times> 's"
  so_arco :: "string \<Rightarrow> string \<Rightarrow> string \<Rightarrow> string \<Rightarrow> 's \<Rightarrow> json res \<times> 's"
  so_evidence :: "string \<Rightarrow> string \<Rightarrow> json \<Rightarrow> string \<Rightarrow> string \<Rightarrow> string \<Rightarrow> 's \<Rightarrow> json res \<times> 's"

text \<open>In memory mode the handler reads the fields of a suppression itself.\<close>

definition memory_suppress :: "crm_env \<Rightarrow> string \<Rightarrow> object \<Rightarrow> crm \<Rightarrow> json res \<times> crm" where
  "memory_suppress e tenant body st =
     (case text_item body ''contact_id'' of
        Inl x \<Rightarrow> (Inl x, st)
      | Inr contact_id \<Rightarrow>
          (case crm_suppress e tenant contact_id (dict_get_or (JStr ''OPT_OUT'') body ''reason'') st of
             (Inl x, st') \<Rightarrow> (Inl x, st')
           | (Inr _, st') \<Rightarrow> (Inr (JObj [(''status'', JStr ''ACTIVE'')]), st')))"

definition memory_store :: "float_ops \<Rightarrow> crm_env \<Rightarrow> crm crm_store" where
  "memory_store tf e =
     \<lparr>so_create_contact = create_contact e, so_create_version = create_campaign_version e, so_approve = approve_campaign e,
      so_suppress = memory_suppress e, so_interaction = record_interaction e, so_opportunity = upsert_opportunity tf e,
      so_memory_fact = add_memory_fact tf e, so_arco = request_arco e,
      so_evidence = (\<lambda>tenant contact_id phone_token channel purpose version_id st.
        (contactability_evidence tenant contact_id channel version_id st, st))\<rparr>"

text \<open>The database calls of one request: the transaction, the fresh identifiers, and the parameters of the model.\<close>

record crm_pg_env =
  cp_env :: pg_env
  cp_fresh :: string
  cp_fresh2 :: string
  cp_owner :: string
  cp_repr :: "json \<Rightarrow> string"
  cp_moment :: "real \<Rightarrow> json"
  cp_json :: pg_json

definition postgres_store :: "crm_pg_env \<Rightarrow> crm_db crm_store" where
  "postgres_store c =
     \<lparr>so_create_contact = pg_create_contact (cp_env c) (cp_fresh c),
      so_create_version = pg_create_version (cp_env c) (cp_fresh c, cp_fresh2 c) (cp_owner c),
      so_approve = pg_approve_campaign (cp_env c) (cp_fresh c),
      so_suppress = pg_suppress (cp_repr c) (cp_moment c) (cp_env c) (cp_fresh c),
      so_interaction = pg_record_interaction (cp_repr c) (cp_env c) (cp_fresh c),
      so_opportunity = pg_upsert_opportunity (cp_repr c) (cp_env c) (cp_fresh c),
      so_memory_fact = pg_add_memory_fact (cp_repr c) (cp_env c) (cp_fresh c),
      so_arco = pg_request_arco (cp_moment c) (cp_env c) (cp_fresh c),
      so_evidence = (\<lambda>tenant contact_id phone_token channel purpose version_id db.
        case pg_evidence (cp_json c) (cp_env c) tenant contact_id phone_token channel purpose version_id db of
          (Inl x, db') \<Rightarrow> (Inl x, db') | (Inr ev, db') \<Rightarrow> (Inr (JObj ev), db'))\<rparr>"

section \<open>The endpoints\<close>

definition replied :: "int \<Rightarrow> json res \<times> 's \<Rightarrow> (int \<times> reply_body) res \<times> 's" where
  "replied n rs = (case rs of (Inl x, s) \<Rightarrow> (Inl x, s) | (Inr j, s) \<Rightarrow> (Inr (n, JsonBody j), s))"

text \<open>\<open>body.pop(k)\<close> of a text.\<close>

definition pop_text :: "string \<Rightarrow> object \<Rightarrow> (string \<times> object) res" where
  "pop_text k body = rbind (text_item body k) (\<lambda>t. Inr (t, dict_pop k body))"

definition pop_contact :: "object \<Rightarrow> (string \<times> string \<times> object) res" where
  "pop_contact body = rbind (pop_text ''tenant_id'' body) (\<lambda>(tenant, rest).
     rbind (pop_text ''contact_id'' rest) (\<lambda>(contact, data). Inr (tenant, contact, data)))"

definition contact_endpoint :: "'s crm_store \<Rightarrow> object \<Rightarrow> 's \<Rightarrow> (int \<times> reply_body) res \<times> 's" where
  "contact_endpoint so body s =
     (case pop_text ''tenant_id'' body of
        Inl x \<Rightarrow> (Inl x, s) | Inr (tenant, data) \<Rightarrow> replied 201 (so_create_contact so tenant data s))"

definition campaign_endpoint :: "'s crm_store \<Rightarrow> object \<Rightarrow> 's \<Rightarrow> (int \<times> reply_body) res \<times> 's" where
  "campaign_endpoint so body s =
     (case rbind (text_item body ''tenant_id'') (\<lambda>t. rbind (text_item body ''campaign_id'') (\<lambda>c.
           rbind (body_item body ''manifest'') (\<lambda>m. Inr (t, c, m)))) of
        Inl x \<Rightarrow> (Inl x, s) | Inr (t, c, m) \<Rightarrow> replied 201 (so_create_version so t c m s))"

definition subject_text :: "principal \<Rightarrow> string" where
  "subject_text p = (case pr_subject p of JStr s \<Rightarrow> s | _ \<Rightarrow> [])"

definition approver_role :: "environ \<Rightarrow> string" where
  "approver_role env = getenv env ''ATLANTIS_OIDC_CAMPAIGN_APPROVER_ROLE'' ''CAMPAIGN_APPROVER''"

definition approve_endpoint ::
  "(rs256_verifier \<Rightarrow> string \<Rightarrow> principal res) \<Rightarrow> human_oidc \<Rightarrow> environ \<Rightarrow> 's crm_store \<Rightarrow> request_context \<Rightarrow> 's
    \<Rightarrow> (int \<times> reply_body) res \<times> 's" where
  "approve_endpoint verify human env so request s =
     (let body = rq_json request in
      case rbind (text_item body ''tenant_id'') (\<lambda>t. rbind (maybe_string body ''approver_id'') (\<lambda>shadow.
           rbind (human_authenticate verify human (rq_headers request) t shadow) (\<lambda>p.
           rbind (text_item body ''campaign_version_id'') (\<lambda>v. rbind (text_item body ''subject_hash'') (\<lambda>h. Inr (t, p, v, h)))))) of
        Inl x \<Rightarrow> (Inl x, s)
      | Inr (t, p, v, h) \<Rightarrow>
          replied 200 (so_approve so t v (subject_text p) h (approver_role env) (dict_get_or JNull body ''comment'') s))"

definition suppress_endpoint :: "'s crm_store \<Rightarrow> object \<Rightarrow> 's \<Rightarrow> (int \<times> reply_body) res \<times> 's" where
  "suppress_endpoint so body s =
     (case pop_text ''tenant_id'' body of
        Inl x \<Rightarrow> (Inl x, s) | Inr (tenant, data) \<Rightarrow> replied 201 (so_suppress so tenant data s))"

definition contact_data_endpoint ::
  "(string \<Rightarrow> string \<Rightarrow> object \<Rightarrow> 's \<Rightarrow> json res \<times> 's) \<Rightarrow> object \<Rightarrow> 's \<Rightarrow> (int \<times> reply_body) res \<times> 's" where
  "contact_data_endpoint operation body s =
     (case pop_contact body of Inl x \<Rightarrow> (Inl x, s) | Inr (tenant, contact, data) \<Rightarrow> replied 201 (operation tenant contact data s))"

definition privacy_endpoint :: "'s crm_store \<Rightarrow> object \<Rightarrow> 's \<Rightarrow> (int \<times> reply_body) res \<times> 's" where
  "privacy_endpoint so body s =
     (case rbind (text_item body ''tenant_id'') (\<lambda>t. rbind (text_item body ''contact_id'') (\<lambda>c.
           rbind (text_item body ''request_type'') (\<lambda>k. rbind (text_item body ''identity_verification_ref'') (\<lambda>v.
             Inr (t, c, k, v))))) of
        Inl x \<Rightarrow> (Inl x, s) | Inr (t, c, k, v) \<Rightarrow> replied 201 (so_arco so t c k v s))"

definition evidence_endpoint :: "'s crm_store \<Rightarrow> object \<Rightarrow> 's \<Rightarrow> (int \<times> reply_body) res \<times> 's" where
  "evidence_endpoint so body s =
     (case rbind (text_item body ''tenant_id'') (\<lambda>t. rbind (text_item body ''contact_id'') (\<lambda>c.
           rbind (text_item body ''channel'') (\<lambda>ch. rbind (text_item body ''purpose'') (\<lambda>pu.
           rbind (text_item body ''campaign_version_id'') (\<lambda>v. Inr (t, c, ch, pu, v)))))) of
        Inl x \<Rightarrow> (Inl x, s)
      | Inr (t, c, ch, pu, v) \<Rightarrow> replied 200 (so_evidence so t c (dict_get_or JNull body ''phone_token'') ch pu v s))"

definition crm_routes ::
  "(rs256_verifier \<Rightarrow> string \<Rightarrow> principal res) \<Rightarrow> human_oidc \<Rightarrow> environ \<Rightarrow> 's crm_store \<Rightarrow> 's router \<Rightarrow> 's router" where
  "crm_routes verify human env so =
     route ''POST'' ''/v1/contactability-evidence'' (PlainHandler (evidence_endpoint so)) \<circ>
     route ''POST'' ''/v1/privacy/requests'' (PlainHandler (privacy_endpoint so)) \<circ>
     route ''POST'' ''/v1/memory-facts'' (PlainHandler (contact_data_endpoint (so_memory_fact so))) \<circ>
     route ''POST'' ''/v1/opportunities'' (PlainHandler (contact_data_endpoint (so_opportunity so))) \<circ>
     route ''POST'' ''/v1/interactions'' (PlainHandler (contact_data_endpoint (so_interaction so))) \<circ>
     route ''POST'' ''/v1/suppressions'' (PlainHandler (suppress_endpoint so)) \<circ>
     route ''POST'' ''/v1/campaign-versions/approve'' (RawHandler (approve_endpoint verify human env so)) \<circ>
     route ''POST'' ''/v1/campaign-versions'' (PlainHandler (campaign_endpoint so)) \<circ>
     route ''POST'' ''/v1/contacts'' (PlainHandler (contact_endpoint so)) \<circ>
     require_idempotency [''/v1/contacts'', ''/v1/campaign-versions'', ''/v1/campaign-versions/approve'', ''/v1/suppressions'',
       ''/v1/interactions'', ''/v1/opportunities'', ''/v1/memory-facts'', ''/v1/privacy/requests'', ''/v1/contactability-evidence'']"

section \<open>Start of the process\<close>

datatype crm_storage = PostgresStorage string | MemoryStorage

definition crm_storage_of :: "(environ \<Rightarrow> string res) \<Rightarrow> environ \<Rightarrow> crm_storage res" where
  "crm_storage_of dsn_of env =
     (let mode = getenv env ''ATLANTIS_CRM_STORAGE'' (if development env then ''memory'' else ''postgres'') in
      rbind (dsn_of env) (\<lambda>dsn.
        if mode = ''postgres''
        then (if dsn = [] then raise RuntimeError ''ATLANTIS_DATABASE_URL_REQUIRED'' else Inr (PostgresStorage dsn))
        else if mode = ''memory'' \<and> env_true env ''ATLANTIS_SHADOW_MODE'' ''true'' then Inr MemoryStorage
        else raise RuntimeError ''POSTGRES_CRM_REQUIRED_OUTSIDE_SHADOW_MODE''))"

definition crm_start ::
  "(environ \<Rightarrow> string res) \<Rightarrow> (string \<Rightarrow> (string, bytes) dict option) \<Rightarrow> environ \<Rightarrow> (crm_storage \<times> human_oidc) res" where
  "crm_start dsn_of read_keys env =
     rbind (crm_storage_of dsn_of env) (\<lambda>storage.
     rbind (human_from_environment read_keys env ''campaign:approve'' (approver_role env) (env_true env ''ATLANTIS_SHADOW_MODE'' ''true''))
       (\<lambda>human. Inr (storage, human)))"

section \<open>Properties\<close>

lemma text_item_Inr: "text_item b k = Inr s \<longleftrightarrow> map_of b k = Some (JStr s)"
proof (cases "map_of b k")
  case (Some v)
  then show ?thesis by (cases v) (simp_all add: text_item_def body_item_def)
qed (simp add: text_item_def body_item_def)

text \<open>
  C27: outside shadow mode a CRM process keeps its data in PostgreSQL, and a campaign is approved only
  by a human: an approval that succeeds came with a bearer token the configured verifier accepted, for
  the request's tenant and with the approver role, and the approval row names that person.
\<close>

theorem campaign_approval_by_verified_human:
  assumes "crm_start dsn_of read_keys env = Inr (storage, human)" "\<not> env_true env ''ATLANTIS_SHADOW_MODE'' ''true''"
    and "approve_endpoint verify human env (postgres_store c) request db = (Inr (n, reply), db')" "approver_role env \<noteq> []"
  shows "(\<exists>dsn. storage = PostgresStorage dsn \<and> dsn \<noteq> []) \<and>
    (\<exists>v token p subject tenant version. ho_verifier human = Some v \<and> bearer_token (rq_headers request) = Inr token \<and>
      verify v token = Inr p \<and> approver_role env \<in> pr_roles p \<and> pr_tenant_id p = JStr tenant \<and> pr_subject p = JStr subject \<and>
      map_of (rq_json request) ''tenant_id'' = Some (JStr tenant) \<and>
      map_of (rq_json request) ''campaign_version_id'' = Some (JStr version) \<and>
      (\<exists>a \<in> set (cd_approvals db'). ap_tenant_id a = tenant \<and> ap_subject_id a = version \<and> ap_approver_user_id a = subject))"
proof -
  have storage: "\<exists>dsn. storage = PostgresStorage dsn \<and> dsn \<noteq> []"
    using assms(1,2) by (auto simp: crm_start_def crm_storage_of_def Let_def rbind_Inr_iff split: if_splits)
  have human: "human_from_environment read_keys env ''campaign:approve'' (approver_role env) False = Inr human"
    using assms(1,2) by (auto simp: crm_start_def rbind_Inr_iff)
  obtain t shadow p v h j where r: "map_of (rq_json request) ''tenant_id'' = Some (JStr t)"
    "human_authenticate verify human (rq_headers request) t shadow = Inr p"
    "map_of (rq_json request) ''campaign_version_id'' = Some (JStr v)"
    "pg_approve_campaign (cp_env c) (cp_fresh c) t v (subject_text p) h (approver_role env)
       (dict_get_or JNull (rq_json request) ''comment'') db = (Inr j, db')"
    using assms(3)
    by (auto simp: approve_endpoint_def Let_def replied_def postgres_store_def rbind_Inr_iff text_item_Inr split: sum.splits prod.splits)
  obtain ver token subject where p: "ho_verifier human = Some ver" "bearer_token (rq_headers request) = Inr token" "verify ver token = Inr p"
    "approver_role env \<in> pr_roles p" "pr_tenant_id p = JStr t" "pr_subject p = JStr subject"
    using human_from_environment_verified [OF human r(2) assms(4)] by blast
  have "\<exists>a \<in> set (cd_approvals db'). ap_tenant_id a = t \<and> ap_subject_id a = v \<and> ap_approver_user_id a = subject_text p"
    using r(4) by (auto simp: pg_approve_campaign_def crm_tx_def pg_run_def Let_def crm_audit_def split: if_splits option.splits)
  then show ?thesis using storage p r(1,3) by (auto simp: subject_text_def)
qed

text \<open>A CRM in PostgreSQL mode with an identity provider, and one version to approve.\<close>

definition example_crm_environ :: environ where
  "example_crm_environ = [''ATLANTIS_SHADOW_MODE'' \<mapsto> ''false'', ''ATLANTIS_CRM_STORAGE'' \<mapsto> ''postgres'',
     ''ATLANTIS_OIDC_ISSUER'' \<mapsto> ''i'', ''ATLANTIS_OIDC_AUDIENCE'' \<mapsto> ''a'', ''ATLANTIS_OIDC_PUBLIC_KEYS_FILE'' \<mapsto> ''f'']"

definition example_crm_db :: crm_db where
  "example_crm_db = crm_db_init\<lparr>cd_versions := [\<lparr>cv_id = ''v'', cv_tenant_id = ''t'', cv_campaign_id = ''g'', cv_version_no = 1,
     cv_status = ''PENDING_APPROVAL'', cv_purpose = JNull, cv_definition = JObj [], cv_artifact_hash = ''h'', cv_created_by = JNull\<rparr>]\<rparr>"

theorem campaign_approval_by_verified_human_witness:
  "\<exists>storage human j db' a. crm_start (\<lambda>_. Inr ''dsn'') (\<lambda>_. Some [(''k'', ''pem'')]) example_crm_environ = Inr (storage, human) \<and>
    approve_endpoint (\<lambda>_ _. Inr \<lparr>pr_subject = JStr ''00000000-0000-0000-0000-000000000001'', pr_tenant_id = JStr ''t'',
        pr_roles = {''CAMPAIGN_APPROVER''}, pr_scopes = {''campaign:approve''}\<rparr>) human example_crm_environ
      (postgres_store \<lparr>cp_env = \<lparr>pg_now = 0, pg_fault = None\<rparr>, cp_fresh = ''i'', cp_fresh2 = [], cp_owner = [], cp_repr = \<lambda>_. [],
         cp_moment = \<lambda>_. JNull, cp_json = \<lparr>pj_text = \<lambda>_. [], pj_boolean = \<lambda>_. None, pj_time = \<lambda>_. 0\<rparr>\<rparr>)
      \<lparr>rq_body = [], rq_json = [(''tenant_id'', JStr ''t''), (''campaign_version_id'', JStr ''v''), (''subject_hash'', JStr ''h'')],
         rq_headers = [(''authorization'', ''Bearer tok'')], rq_query = [], rq_method = ''POST'', rq_path = [], rq_client_ip = []\<rparr>
      example_crm_db = (Inr (200, j), db') \<and>
    a \<in> set (cd_approvals db') \<and> ap_approver_user_id a = ''00000000-0000-0000-0000-000000000001''"
proof -
  let ?env = example_crm_environ
  let ?p = "\<lparr>pr_subject = JStr ''00000000-0000-0000-0000-000000000001'', pr_tenant_id = JStr ''t'',
        pr_roles = {''CAMPAIGN_APPROVER''}, pr_scopes = {''campaign:approve''}\<rparr>"
  let ?h = "\<lparr>ho_verifier = Some \<lparr>rv_issuer = ''i'', rv_audience = ''a'', rv_public_keys = [(''k'', ''pem'')], rv_clock_skew = 30, rv_max_token_age = 3600\<rparr>,
    ho_scope = ''campaign:approve'', ho_role = ''CAMPAIGN_APPROVER'', ho_allow_shadow_identity = False\<rparr>"
  let ?c = "\<lparr>cp_env = \<lparr>pg_now = 0, pg_fault = None\<rparr>, cp_fresh = ''i'', cp_fresh2 = [], cp_owner = [], cp_repr = \<lambda>_. [],
         cp_moment = \<lambda>_. JNull, cp_json = \<lparr>pj_text = \<lambda>_. [], pj_boolean = \<lambda>_. None, pj_time = \<lambda>_. 0\<rparr>\<rparr>"
  let ?q = "\<lparr>rq_body = [], rq_json = [(''tenant_id'', JStr ''t''), (''campaign_version_id'', JStr ''v''), (''subject_hash'', JStr ''h'')],
         rq_headers = [(''authorization'', ''Bearer tok'')], rq_query = [], rq_method = ''POST'', rq_path = [], rq_client_ip = []\<rparr>"
  have t: "py_lower ''false'' = ''false''" "py_lower ''true'' = ''true''" by code_simp+
  have role: "approver_role ?env = ''CAMPAIGN_APPROVER''" by (simp add: approver_role_def getenv_def example_crm_environ_def)
  have shadow: "\<not> env_true ?env ''ATLANTIS_SHADOW_MODE'' ''true''" by (simp add: env_true_def getenv_def example_crm_environ_def t)
  have human: "human_from_environment (\<lambda>_. Some [(''k'', ''pem'')]) ?env ''campaign:approve'' ''CAMPAIGN_APPROVER'' False = Inr ?h"
    by (simp add: human_from_environment_def Let_def getenv_def py_strip_def is_space_def example_crm_environ_def t)
  have start: "crm_start (\<lambda>_. Inr ''dsn'') (\<lambda>_. Some [(''k'', ''pem'')]) ?env = Inr (PostgresStorage ''dsn'', ?h)"
    using shadow human by (simp add: crm_start_def crm_storage_of_def Let_def role) (simp add: getenv_def example_crm_environ_def)
  have u: "uuid_ok ''00000000-0000-0000-0000-000000000001''" by code_simp
  have b: "bearer_token [(''authorization'', ''Bearer tok'')] = Inr ''tok''" by code_simp
  have auth: "human_authenticate (\<lambda>_ _. Inr ?p) ?h (rq_headers ?q) ''t'' None = Inr ?p"
    using u b by (simp add: human_authenticate_def identity_check_def principal_require_def)
  have items: "text_item (rq_json ?q) ''tenant_id'' = Inr ''t''" "text_item (rq_json ?q) ''campaign_version_id'' = Inr ''v''"
    "text_item (rq_json ?q) ''subject_hash'' = Inr ''h''" "maybe_string (rq_json ?q) ''approver_id'' = Inr None"
    by (simp_all add: text_item_def body_item_def maybe_string_def)
  obtain j db' where r: "approve_endpoint (\<lambda>_ _. Inr ?p) ?h ?env (postgres_store ?c) ?q example_crm_db = (Inr (200, j), db')"
    using items auth by (simp add: approve_endpoint_def Let_def role replied_def postgres_store_def pg_approve_campaign_def crm_tx_def
        pg_run_def example_crm_db_def)
  have "\<exists>a \<in> set (cd_approvals db'). ap_approver_user_id a = ''00000000-0000-0000-0000-000000000001''"
    using campaign_approval_by_verified_human [OF start shadow r] role by auto
  then show ?thesis using start r by blast
qed

end
