(* ===== verification/OrchServer.thy ===== *)
theory OrchServer
  imports PgWorkflow CrmServer
begin

text \<open>
  services/orchestrator/app/server.py: the endpoints of the orchestrator over the engine in memory or
  the PostgreSQL repository, with the bounded map of the runs seen last, and the start of the process.
  Composed with the durable workflow and the human identities: whatever requests a process has
  served, a run is past its approval only on the word of an authenticated reviewer.
\<close>

section \<open>State\<close>

record orch_config =
  oc_durable :: bool
  oc_human :: human_oidc
  oc_workload :: "((string, bytes) dict \<times> store_choice) option"
  oc_rate_limit :: int
  oc_port :: int

record orchestrator =
  og_engine :: wf_engine
  og_db :: pgwf
  og_runs :: "(string, run_state) ttl_map"

text \<open>The moment of a request: the database, what \<open>uuid4\<close> gives, the date and the two readings of the map's clock.\<close>

record orch_env =
  oe_pg :: pg_env
  oe_fresh :: string
  oe_now :: datetime
  oe_clocks :: "real \<times> real"
  oe_repr :: "json \<Rightarrow> string"

section \<open>The endpoints\<close>

text \<open>\<open>runs[updated.run_id] = updated\<close> and the answer.\<close>

definition keep_run :: "int \<Rightarrow> orch_env \<Rightarrow> run_state \<Rightarrow> orchestrator \<Rightarrow> (int \<times> reply_body) res \<times> orchestrator" where
  "keep_run status e s st =
     (case ttl_set (snd (oe_clocks e)) (rn_run_id s) s (og_runs st) of
        (Inl x, m) \<Rightarrow> (Inl x, st\<lparr>og_runs := m\<rparr>)
      | (Inr _, m) \<Rightarrow> (Inr (status, JsonBody (JObj (run_dict s))), st\<lparr>og_runs := m\<rparr>))"

text \<open>What a repository call answers, and the tables it leaves.\<close>

definition durable_run :: "int \<Rightarrow> orch_env \<Rightarrow> run_state res \<times> pgwf \<Rightarrow> orchestrator \<Rightarrow> (int \<times> reply_body) res \<times> orchestrator" where
  "durable_run status e rd st =
     (case rd of
        (Inl x, db) \<Rightarrow> (Inl x, st\<lparr>og_db := db\<rparr>)
      | (Inr s, db) \<Rightarrow> keep_run status e s (st\<lparr>og_db := db\<rparr>))"

definition engine_run :: "int \<Rightarrow> orch_env \<Rightarrow> run_state res \<times> wf_engine \<Rightarrow> orchestrator \<Rightarrow> (int \<times> reply_body) res \<times> orchestrator" where
  "engine_run status e rg st =
     (case rg of
        (Inl x, g) \<Rightarrow> (Inl x, st\<lparr>og_engine := g\<rparr>)
      | (Inr s, g) \<Rightarrow> keep_run status e s (st\<lparr>og_engine := g\<rparr>))"

definition start_endpoint ::
  "orch_config \<Rightarrow> orch_env \<Rightarrow> object \<Rightarrow> orchestrator \<Rightarrow> (int \<times> reply_body) res \<times> orchestrator" where
  "start_endpoint cf e body st =
     (case rbind (text_item body ''tenant_id'') (\<lambda>t. rbind (text_item body ''campaign_version_id'') (\<lambda>v.
           rbind (text_item body ''contact_id'') (\<lambda>c. Inr (t, v, c)))) of
        Inl x \<Rightarrow> (Inl x, st)
      | Inr (t, v, c) \<Rightarrow>
          (if oc_durable cf then durable_run 201 e (pw_start (oe_pg e) (oe_fresh e) t v c (og_db st)) st
           else (case wf_start (oe_fresh e) t v c (og_engine st) of (s, g) \<Rightarrow> engine_run 201 e (Inr s, g) st)))"

text \<open>The event and its payload, which \<open>transition\<close> takes as it is.\<close>

definition event_of :: "object \<Rightarrow> (string \<times> json) res" where
  "event_of body = rbind (text_item body ''event_id'') (\<lambda>i. Inr (i, dict_get_or JNull body ''payload''))"

definition transition_endpoint ::
  "orch_config \<Rightarrow> orch_env \<Rightarrow> object \<Rightarrow> orchestrator \<Rightarrow> (int \<times> reply_body) res \<times> orchestrator" where
  "transition_endpoint cf e body st =
     (case text_item body ''run_id'' of
        Inl x \<Rightarrow> (Inl x, st)
      | Inr run_id \<Rightarrow>
          (case ttl_get (fst (oe_clocks e)) run_id (og_runs st) of
             (state, m) \<Rightarrow>
               (let st1 = st\<lparr>og_runs := m\<rparr> in
                if oc_durable cf then
                  (case rbind (text_item body ''tenant_id'') (\<lambda>t. rbind (event_of body) (\<lambda>(i, p). Inr (t, i, p))) of
                     Inl x \<Rightarrow> (Inl x, st1)
                   | Inr (t, i, p) \<Rightarrow>
                       durable_run 200 e (pw_transition (oe_repr e) (oe_pg e) (oe_fresh e) (oe_now e) t run_id i p (og_db st1)) st1)
                else
                  (case state of
                     None \<Rightarrow> (raise ValueError ''RUN_NOT_FOUND'', st1)
                   | Some s \<Rightarrow>
                       (case event_of body of
                          Inl x \<Rightarrow> (Inl x, st1)
                        | Inr (i, p) \<Rightarrow> engine_run 200 e (wf_transition (oe_fresh e) (oe_now e) s i p (og_engine st1)) st1)))))"

definition decide_fields :: "object \<Rightarrow> (string \<times> bool \<times> json) res" where
  "decide_fields body =
     rbind (text_item body ''human_action_id'') (\<lambda>a. rbind (body_item body ''approved'') (\<lambda>ok.
     rbind (body_item body ''subject_hash'') (\<lambda>h. Inr (a, truthy ok, h))))"

definition decide_endpoint ::
  "(rs256_verifier \<Rightarrow> string \<Rightarrow> principal res) \<Rightarrow> orch_config \<Rightarrow> orch_env \<Rightarrow> request_context \<Rightarrow> orchestrator
    \<Rightarrow> (int \<times> reply_body) res \<times> orchestrator" where
  "decide_endpoint verify cf e request st =
     (let body = rq_json request in
      case rbind (text_item body ''tenant_id'') (\<lambda>t. rbind (maybe_string body ''actor_id'') (\<lambda>shadow.
           rbind (human_authenticate verify (oc_human cf) (rq_headers request) t shadow) (\<lambda>p.
           rbind (text_item body ''run_id'') (\<lambda>r. Inr (t, p, r))))) of
        Inl x \<Rightarrow> (Inl x, st)
      | Inr (t, p, run_id) \<Rightarrow>
          (case ttl_get (fst (oe_clocks e)) run_id (og_runs st) of
             (state, m) \<Rightarrow>
               (let st1 = st\<lparr>og_runs := m\<rparr> in
                if oc_durable cf then
                  (case rbind (decide_fields body) (\<lambda>(a, ok, h).
                        (case h of JStr hash \<Rightarrow> rbind (maybe_string body ''comment'') (\<lambda>c. Inr (a, ok, hash, c))
                         | _ \<Rightarrow> raise TypeError ''subject_hash'')) of
                     Inl x \<Rightarrow> (Inl x, st1)
                   | Inr (a, ok, hash, c) \<Rightarrow>
                       durable_run 200 e (pw_decide (oe_pg e) (oe_now e) t run_id a ok (subject_text p) hash c (og_db st1)) st1)
                else
                  (case state of
                     None \<Rightarrow> (raise ValueError ''RUN_NOT_FOUND'', st1)
                   | Some s \<Rightarrow>
                       (case decide_fields body of
                          Inl x \<Rightarrow> (Inl x, st1)
                        | Inr (a, ok, h) \<Rightarrow>
                            engine_run 200 e (wf_decide_human_action s a ok (subject_text p) h (og_engine st1)) st1)))))"

definition orch_health :: "orch_config \<Rightarrow> object \<Rightarrow> 's \<Rightarrow> (int \<times> reply_body) res \<times> 's" where
  "orch_health cf body st =
     (Inr (200, JsonBody (JObj [(''status'', JStr ''ok''), (''service'', JStr ''orchestrator''),
        (''runtime'', JStr (if oc_durable cf then ''postgres'' else ''memory-dev'')),
        (''human_identity'', JStr (if ho_verifier (oc_human cf) = None then ''shadow-simulated'' else ''oidc''))])), st)"

definition orch_routes ::
  "(rs256_verifier \<Rightarrow> string \<Rightarrow> principal res) \<Rightarrow> orch_config \<Rightarrow> orch_env \<Rightarrow> orchestrator router \<Rightarrow> orchestrator router" where
  "orch_routes verify cf e =
     route ''POST'' ''/v1/human-actions/decide'' (RawHandler (decide_endpoint verify cf e)) \<circ>
     route ''POST'' ''/v1/runs/transition'' (PlainHandler (transition_endpoint cf e)) \<circ>
     route ''POST'' ''/v1/runs'' (PlainHandler (start_endpoint cf e)) \<circ>
     route ''GET'' ''/health'' (PlainHandler (orch_health cf)) \<circ>
     require_idempotency [''/v1/runs'', ''/v1/runs/transition'', ''/v1/human-actions/decide'']"

section \<open>Start of the process\<close>

definition reviewer_role :: "environ \<Rightarrow> string" where
  "reviewer_role env = getenv env ''ATLANTIS_OIDC_HUMAN_REVIEWER_ROLE'' ''HUMAN_REVIEWER''"

definition orch_start ::
  "(string \<Rightarrow> string res) \<Rightarrow> (environ \<Rightarrow> string res) \<Rightarrow> (string \<Rightarrow> (string, bytes) dict option) \<Rightarrow> environ
    \<Rightarrow> (orch_config \<times> (string, run_state) ttl_map) res" where
  "orch_start read_text dsn_of read_keys env =
     rbind (dsn_of env) (\<lambda>dsn.
       if dsn = [] \<and> env_true env ''ATLANTIS_REQUIRE_DURABLE_STATE'' ''false''
       then raise RuntimeError ''POSTGRES_WORKFLOW_STORE_REQUIRED''
       else
         rbind (human_from_environment read_keys env ''human-action:decide'' (reviewer_role env) (env_true env ''ATLANTIS_SHADOW_MODE'' ''true''))
           (\<lambda>human.
         rbind (env_int env ''ATLANTIS_RUN_CONTEXT_TTL_SECONDS'' ''86400'') (\<lambda>ttl.
         rbind (env_int env ''ATLANTIS_RUN_CONTEXT_MAX_ENTRIES'' ''10000'') (\<lambda>max_entries.
         rbind (configure_workload_auth read_text dsn_of env) (\<lambda>workload.
         rbind (configure_rate_limit env) (\<lambda>limit.
         rbind (env_int env ''PORT'' ''8083'') (\<lambda>port.
           Inr (\<lparr>oc_durable = (dsn \<noteq> []), oc_human = human, oc_workload = workload, oc_rate_limit = limit, oc_port = port\<rparr>,
                \<lparr>tm_ttl_seconds = of_int ttl, tm_max_entries = nat max_entries, tm_values = []\<rparr>))))))))"

section \<open>Runs of the service\<close>

lemma keep_run_state [simp]:
  "og_db (snd (keep_run n e s st)) = og_db st" "og_engine (snd (keep_run n e s st)) = og_engine st"
  by (auto simp: keep_run_def split: prod.splits sum.splits)

lemma durable_run_db [simp]: "og_db (snd (durable_run n e rd st)) = snd rd"
  by (cases rd; cases "fst rd") (auto simp: durable_run_def)

lemma engine_run_db [simp]: "og_db (snd (engine_run n e rg st)) = og_db st"
  by (cases rg; cases "fst rg") (auto simp: engine_run_def)

text \<open>The principals a request proves: those the verifier accepts its bearer token for.\<close>

definition proven :: "(rs256_verifier \<Rightarrow> string \<Rightarrow> principal res) \<Rightarrow> orch_config \<Rightarrow> request_context \<Rightarrow> principal set" where
  "proven verify cf request =
     (case (ho_verifier (oc_human cf), bearer_token (rq_headers request)) of
        (Some v, Inr token) \<Rightarrow> (case verify v token of Inr p \<Rightarrow> {p} | Inl _ \<Rightarrow> {})
      | _ \<Rightarrow> {})"

text \<open>The states a process can reach, from empty tables, and the principals that have proven who they are.\<close>

inductive orch_reachable :: "orch_config \<Rightarrow> orchestrator \<Rightarrow> principal set \<Rightarrow> bool" for cf where
  init: "orch_reachable cf \<lparr>og_engine = engine_init,
      og_db = \<lparr>pw_runs = [], pw_checkpoints = [], pw_events = [], pw_actions = [], pw_audit = []\<rparr>, og_runs = runs\<rparr> {}"
| start: "orch_reachable cf st ps \<Longrightarrow> start_endpoint cf e body st = (r, st') \<Longrightarrow> orch_reachable cf st' ps"
| transition: "orch_reachable cf st ps \<Longrightarrow> transition_endpoint cf e body st = (r, st') \<Longrightarrow> orch_reachable cf st' ps"
| decide: "orch_reachable cf st ps \<Longrightarrow> decide_endpoint verify cf e request st = (r, st') \<Longrightarrow>
    orch_reachable cf st' (ps \<union> proven verify cf request)"
| restart: "orch_reachable cf st ps \<Longrightarrow> orch_reachable cf (st\<lparr>og_engine := engine_init, og_runs := runs\<rparr>) ps"

text \<open>What an endpoint does to the tables.\<close>

lemma start_endpoint_db:
  assumes "start_endpoint cf e body st = (r, st')"
  shows "og_db st' = og_db st \<or> (\<exists>t v c. og_db st' = snd (pw_start (oe_pg e) (oe_fresh e) t v c (og_db st)))"
  using assms by (auto simp: start_endpoint_def split: sum.splits prod.splits if_splits) (metis durable_run_db snd_conv engine_run_db)+

lemma transition_endpoint_db:
  assumes "transition_endpoint cf e body st = (r, st')"
  shows "og_db st' = og_db st \<or>
    (\<exists>t run_id i p. og_db st' = snd (pw_transition (oe_repr e) (oe_pg e) (oe_fresh e) (oe_now e) t run_id i p (og_db st)))"
  using assms
  by (auto simp: transition_endpoint_def Let_def split: sum.splits prod.splits if_splits option.splits)
    (metis (no_types, lifting) durable_run_db snd_conv engine_run_db orchestrator.select_convs(2) orchestrator.surjective orchestrator.update_convs(3))+

lemma decide_endpoint_db:
  assumes "decide_endpoint verify cf e request st = (r, st')"
  shows "og_db st' = og_db st \<or>
    (\<exists>t shadow p run_id a ok h c. human_authenticate verify (oc_human cf) (rq_headers request) t shadow = Inr p \<and>
       og_db st' = snd (pw_decide (oe_pg e) (oe_now e) t run_id a ok (subject_text p) h c (og_db st)))"
proof (cases "rbind (text_item (rq_json request) ''tenant_id'') (\<lambda>t. rbind (maybe_string (rq_json request) ''actor_id'') (\<lambda>shadow.
           rbind (human_authenticate verify (oc_human cf) (rq_headers request) t shadow) (\<lambda>p.
           rbind (text_item (rq_json request) ''run_id'') (\<lambda>r. Inr (t, p, r)))))")
  case (Inl x)
  then show ?thesis using assms by (simp add: decide_endpoint_def)
next
  case (Inr x)
  obtain t p run_id where x: "x = (t, p, run_id)" using prod_cases3 by blast
  obtain shadow where a: "human_authenticate verify (oc_human cf) (rq_headers request) t shadow = Inr p"
    using Inr by (auto simp: x rbind_Inr_iff)
  obtain s m where g: "ttl_get (fst (oe_clocks e)) run_id (og_runs st) = (s, m)" by fastforce
  show ?thesis
    using assms a
    by (auto simp: decide_endpoint_def Inr x g Let_def split: sum.splits prod.splits if_splits option.splits)
      (metis (no_types, lifting) durable_run_db snd_conv engine_run_db orchestrator.select_convs(2) orchestrator.surjective orchestrator.update_convs(3))+
qed

text \<open>Rows of approved actions appear by a decision only, and name who took it.\<close>

lemma checkpoint_actions: "pw_checkpoint s db = (r, db') \<Longrightarrow> pw_actions db' = pw_actions db"
  by (auto simp: pw_checkpoint_def Let_def split: if_splits)

lemma audited_actions: "pw_audited t aty a ac rt i co rs db = (r, db') \<Longrightarrow> pw_actions db' = pw_actions db"
  by (auto simp: pw_audited_def)

lemma pw_start_actions: "pw_start e run_id t v c db = (r, db') \<Longrightarrow> pw_actions db' = pw_actions db"
  by (cases r) (auto simp: pw_start_def Let_def pg_run_Inr tx_bind_Inr set_tenant_same pw_insert_run_def
      dest: pg_run_Inl dest!: checkpoint_actions audited_actions split: if_splits)

lemma pw_advance_actions:
  "pw_advance repr action_id now s t run_id i p db = (Inr s', db') \<Longrightarrow> x \<in> set (pw_actions db') \<Longrightarrow>
     hr_status x = ''APPROVED'' \<Longrightarrow> x \<in> set (pw_actions db)"
  by (auto simp: pw_advance_def Let_def tx_bind_Inr pw_insert_action_def dest!: audited_actions split: if_splits)

lemma pw_transition_actions:
  assumes "pw_transition repr e action_id now t run_id i p db = (r, db')" "x \<in> set (pw_actions db')" "hr_status x = ''APPROVED''"
  shows "x \<in> set (pw_actions db)"
proof (cases r)
  case (Inl y)
  then show ?thesis using assms by (auto simp: pw_transition_def dest: pg_run_Inl)
next
  case (Inr s)
  then obtain s0 where k: "pw_take_event repr action_id now t run_id i p s0 db = (Inr s, db')"
    using tx_locked [OF assms(1) [unfolded pw_transition_def Inr]] by blast
  then show ?thesis using assms(2,3)
    by (auto simp: pw_take_event_def tx_bind_Inr pw_insert_event_def dest!: checkpoint_actions audited_actions dest: pw_advance_actions
        split: if_splits)
qed

lemma pw_decide_actions:
  assumes "pw_decide e now t run_id a ok actor h c db = (r, db')" "x \<in> set (pw_actions db')" "hr_status x = ''APPROVED''"
  shows "x \<in> set (pw_actions db) \<or> hr_decided_by x = Some actor \<and> hr_tenant_id x = t"
proof (cases r)
  case (Inl y)
  then show ?thesis using assms by (auto simp: pw_decide_def dest: pg_run_Inl)
next
  case (Inr s)
  then obtain s0 where k: "pw_resolve now t run_id a ok actor h c s0 db = (Inr s, db')"
    using tx_locked [OF assms(1) [unfolded pw_decide_def Inr]] by blast
  then show ?thesis using assms(2,3)
    by (auto simp: pw_resolve_def Let_def tx_bind_Inr pw_update_action_def dest!: checkpoint_actions audited_actions
        split: if_splits option.splits)
qed

definition approvals_proven :: "pgwf \<Rightarrow> principal set \<Rightarrow> bool" where
  "approvals_proven db ps \<longleftrightarrow>
     (\<forall>x \<in> set (pw_actions db). hr_status x = ''APPROVED'' \<longrightarrow>
        (\<exists>p \<in> ps. \<exists>subject. hr_decided_by x = Some subject \<and> pr_subject p = JStr subject \<and> pr_tenant_id p = JStr (hr_tenant_id x)))"

lemma authenticated_proven:
  assumes "human_authenticate verify (oc_human cf) (rq_headers request) t shadow = Inr p" "ho_verifier (oc_human cf) \<noteq> None"
  shows "p \<in> proven verify cf request" "pr_tenant_id p = JStr t" "pr_subject p = JStr (subject_text p)"
  using assms by (auto simp: human_authenticate_Inr proven_def subject_text_def split: option.splits)

lemma orch_reachable_proven:
  assumes "orch_reachable cf st ps" "ho_verifier (oc_human cf) \<noteq> None"
  shows "pw_reachable (og_db st) \<and> approvals_proven (og_db st) ps"
  using assms(1)
proof (induction rule: orch_reachable.induct)
  case (init runs)
  then show ?case by (simp add: approvals_proven_def pw_reachable.init)
next
  case (start st ps e body r st')
  then consider "og_db st' = og_db st" | t v c x where "pw_start (oe_pg e) (oe_fresh e) t v c (og_db st) = (x, og_db st')"
    using start_endpoint_db [OF start.hyps(2)] by (metis prod.collapse)
  then show ?case
    by cases (use start.IH in \<open>auto simp: approvals_proven_def dest: pw_start_actions intro: pw_reachable.start\<close>)
next
  case (transition st ps e body r st')
  then consider "og_db st' = og_db st" | t run_id i p x where
    "pw_transition (oe_repr e) (oe_pg e) (oe_fresh e) (oe_now e) t run_id i p (og_db st) = (x, og_db st')"
    using transition_endpoint_db [OF transition.hyps(2)] by (metis prod.collapse)
  then show ?case
    by cases (use transition.IH in \<open>auto simp: approvals_proven_def dest: pw_transition_actions intro: pw_reachable.transition\<close>)
next
  case (decide st ps verify e request r st')
  from decide_endpoint_db [OF decide.hyps(2)] show ?case
  proof (elim disjE exE conjE)
    assume "og_db st' = og_db st"
    then show ?thesis using decide.IH by (fastforce simp: approvals_proven_def)
  next
    fix t shadow p run_id a ok h c
    assume p: "human_authenticate verify (oc_human cf) (rq_headers request) t shadow = Inr p"
      and "og_db st' = snd (pw_decide (oe_pg e) (oe_now e) t run_id a ok (subject_text p) h c (og_db st))"
    then obtain y where d: "pw_decide (oe_pg e) (oe_now e) t run_id a ok (subject_text p) h c (og_db st) = (y, og_db st')"
      by (metis prod.collapse)
    note q = authenticated_proven [OF p assms(2)]
    have "pw_reachable (og_db st')" using decide.IH d by (blast intro: pw_reachable.decide)
    moreover have "approvals_proven (og_db st') (ps \<union> proven verify cf request)"
      unfolding approvals_proven_def
    proof (intro ballI impI)
      fix x assume x: "x \<in> set (pw_actions (og_db st'))" "hr_status x = ''APPROVED''"
      show "\<exists>p \<in> ps \<union> proven verify cf request. \<exists>subject. hr_decided_by x = Some subject \<and> pr_subject p = JStr subject \<and>
          pr_tenant_id p = JStr (hr_tenant_id x)"
        using pw_decide_actions [OF d x]
      proof
        assume "x \<in> set (pw_actions (og_db st))"
        then show ?thesis using decide.IH x(2) by (fastforce simp: approvals_proven_def)
      next
        assume "hr_decided_by x = Some (subject_text p) \<and> hr_tenant_id x = t"
        then show ?thesis using q by blast
      qed
    qed
    ultimately show ?thesis by blast
  qed
next
  case (restart st ps runs)
  then show ?case by simp
qed

text \<open>
  C7: the orchestrator with PostgreSQL and verified identities: whatever requests processes have
  served, with restarts and database faults in between, a run that is read back past its approval
  stage has an approved action of its own, and the person named on it has presented a bearer
  token the configured verifier accepted, for the run's tenant.
\<close>

theorem contact_needs_proven_reviewer:
  assumes "orch_reachable cf st ps" "ho_verifier (oc_human cf) \<noteq> None"
    and "pw_get e tenant run_id (og_db st) = (Inr s, db')" "past_approval (rn_stage s)"
  shows "\<exists>x \<in> set (pw_actions (og_db st)). hr_tenant_id x = tenant \<and> hr_run_id x = run_id \<and> hr_status x = ''APPROVED'' \<and>
    (\<exists>p \<in> ps. \<exists>subject. hr_decided_by x = Some subject \<and> pr_subject p = JStr subject \<and> pr_tenant_id p = JStr tenant)"
proof -
  note r = orch_reachable_proven [OF assms(1,2)]
  have ok: "pgwf_ok (og_db st)" using r pw_reachable_ok by blast
  have l: "pw_locked_state tenant run_id (og_db st) = (Inr s, db')"
    using assms(3) unfolding pw_get_def pg_run_Inr tx_bind_Inr set_tenant_same by blast
  obtain x where x: "x \<in> set (pw_actions (og_db st))" "hr_tenant_id x = tenant" "hr_run_id x = run_id" "hr_status x = ''APPROVED''"
    using locked_state_ok(2-5) [OF ok l] assms(4) by (auto simp: state_ok_def run_approved_def)
  then show ?thesis using r unfolding approvals_proven_def by blast
qed

definition example_reviewer :: principal where
  "example_reviewer = \<lparr>pr_subject = JStr ''00000000-0000-0000-0000-000000000001'', pr_tenant_id = JStr ''t'',
     pr_roles = {''HUMAN_REVIEWER''}, pr_scopes = {''human-action:decide''}\<rparr>"

definition example_orch :: orch_config where
  "example_orch = \<lparr>oc_durable = True,
     oc_human = \<lparr>ho_verifier = Some \<lparr>rv_issuer = ''i'', rv_audience = ''a'', rv_public_keys = [(''k'', ''pem'')], rv_clock_skew = 30,
         rv_max_token_age = 3600\<rparr>, ho_scope = ''human-action:decide'', ho_role = ''HUMAN_REVIEWER'', ho_allow_shadow_identity = False\<rparr>,
     oc_workload = None, oc_rate_limit = 600, oc_port = 8083\<rparr>"

definition example_orch_env :: "string \<Rightarrow> datetime \<Rightarrow> orch_env" where
  "example_orch_env fresh now = \<lparr>oe_pg = \<lparr>pg_now = 0, pg_fault = None\<rparr>, oe_fresh = fresh, oe_now = now, oe_clocks = (0, 0), oe_repr = \<lambda>_. []\<rparr>"

definition example_decision :: request_context where
  "example_decision = \<lparr>rq_body = [], rq_json = [(''tenant_id'', JStr ''t''), (''run_id'', JStr ''r''), (''human_action_id'', JStr ''a''),
       (''approved'', JBool True), (''subject_hash'', JStr (replicate 64 (CHR ''a'')))],
     rq_headers = [(''authorization'', ''Bearer tok'')], rq_query = [], rq_method = ''POST'', rq_path = [], rq_client_ip = []\<rparr>"

lemma example_transition:
  assumes "pw_transition (\<lambda>_. []) \<lparr>pg_now = 0, pg_fault = None\<rparr> ''a'' 0 ''t'' ''r'' i p (og_db st) = (Inr s, d)"
  shows "og_db (snd (transition_endpoint example_orch (example_orch_env ''a'' 0)
    [(''tenant_id'', JStr ''t''), (''run_id'', JStr ''r''), (''event_id'', JStr i), (''payload'', p)] st)) = d"
  using assms by (simp add: transition_endpoint_def text_item_Inr text_item_def body_item_def event_of_def dict_get_or_def
      Let_def example_orch_def example_orch_env_def split: prod.splits)

lemma example_run_decided:
  "\<exists>st ps s db'. orch_reachable example_orch st ps \<and> pw_get \<lparr>pg_now = 0, pg_fault = None\<rparr> ''t'' ''r'' (og_db st) = (Inr s, db') \<and>
     rn_stage s = CONTACT \<and> ps = {example_reviewer}"
proof -
  let ?pg = "\<lparr>pg_now = 0, pg_fault = None\<rparr>"
  let ?db0 = "\<lparr>pw_runs = [], pw_checkpoints = [], pw_events = [], pw_actions = [], pw_audit = []\<rparr>"
  obtain s1 d1 s2 d2 s3 d3 s4 d4 a where p: "pw_start ?pg ''r'' ''t'' ''v'' ''c'' ?db0 = (Inr s1, d1)"
    "pw_transition (\<lambda>_. []) ?pg ''a'' 0 ''t'' ''r'' ''1'' JNull d1 = (Inr s2, d2)"
    "pw_transition (\<lambda>_. []) ?pg ''a'' 0 ''t'' ''r'' ''2'' JNull d2 = (Inr s3, d3)"
    "pw_transition (\<lambda>_. []) ?pg ''a'' 0 ''t'' ''r'' ''3'' (JObj [(''subject_hash'', JStr (replicate 64 (CHR ''a'')))]) d3 = (Inr s4, d4)"
    "current d4 ''t'' ''r'' s4" "pw_actions d4 = [a]" "hr_id a = ''a''" "hr_tenant_id a = ''t''"
    "hr_run_id a = ''r''" "hr_status a = ''PENDING''" "hr_subject_hash a = replicate 64 (CHR ''a'')" "hr_expires_at a = 0 + day_us"
    using some_pg_run_path by blast
  let ?u = "''00000000-0000-0000-0000-000000000001''"
  obtain s5 d5 where d5: "pw_decide ?pg 1 ''t'' ''r'' ''a'' True ?u (replicate 64 (CHR ''a'')) None d4 = (Inr s5, d5)"
    "current d5 ''t'' ''r'' s5" "rn_stage s5 = CONTACT"
    using decide_current [OF p(5) _ p(6-11), of 1 ?pg ?u None] p(12) by (auto simp: day_us_def)
  let ?m = "\<lparr>tm_ttl_seconds = 1, tm_max_entries = 1, tm_values = []\<rparr>"
  let ?st0 = "\<lparr>og_engine = engine_init, og_db = ?db0, og_runs = ?m\<rparr>"
  let ?body = "[(''tenant_id'', JStr ''t''), (''campaign_version_id'', JStr ''v''), (''contact_id'', JStr ''c'')]"
  obtain st1 where 1: "orch_reachable example_orch st1 {}" "og_db st1 = d1"
  proof -
    let ?r = "start_endpoint example_orch (example_orch_env ''r'' 0) ?body ?st0"
    have "og_db (snd ?r) = d1"
      using p(1) by (simp add: start_endpoint_def text_item_def body_item_def example_orch_def example_orch_env_def)
    moreover have "orch_reachable example_orch (snd ?r) {}"
      by (rule orch_reachable.start [OF orch_reachable.init prod.collapse [symmetric]])
    ultimately show thesis using that by blast
  qed
  obtain st2 where 2: "orch_reachable example_orch st2 {}" "og_db st2 = d2"
    using orch_reachable.transition [OF 1(1) prod.collapse [symmetric]] example_transition [of "''1''" JNull st1] p(2) 1(2) by metis
  obtain st3 where 3: "orch_reachable example_orch st3 {}" "og_db st3 = d3"
    using orch_reachable.transition [OF 2(1) prod.collapse [symmetric]] example_transition [of "''2''" JNull st2] p(3) 2(2) by metis
  obtain st4 where 4: "orch_reachable example_orch st4 {}" "og_db st4 = d4"
    using orch_reachable.transition [OF 3(1) prod.collapse [symmetric]]
      example_transition [of "''3''" "JObj [(''subject_hash'', JStr (replicate 64 (CHR ''a'')))]" st3] p(4) 3(2) by metis
  have b: "bearer_token [(''authorization'', ''Bearer tok'')] = Inr ''tok''" by code_simp
  have v: "proven (\<lambda>_ _. Inr example_reviewer) example_orch example_decision = {example_reviewer}"
    by (simp add: proven_def example_orch_def example_decision_def b)
  have "uuid_ok ?u" by code_simp
  then have h: "human_authenticate (\<lambda>_ _. Inr example_reviewer) (oc_human example_orch) (rq_headers example_decision) ''t'' None = Inr example_reviewer"
    by (simp add: human_authenticate_Inr example_orch_def example_decision_def b) (simp add: example_reviewer_def principal_require_def)
  have "og_db (snd (decide_endpoint (\<lambda>_ _. Inr example_reviewer) example_orch (example_orch_env [] 1) example_decision st4)) = d5"
    using d5(1) h 4(2)
    by (simp add: decide_endpoint_def Let_def text_item_def body_item_def maybe_string_def decide_fields_def example_decision_def split: prod.splits)
      (simp add: example_orch_def example_orch_env_def subject_text_def example_reviewer_def)
  then obtain st5 where 5: "orch_reachable example_orch st5 {example_reviewer}" "og_db st5 = d5"
    using orch_reachable.decide [OF 4(1) prod.collapse [symmetric], of "\<lambda>_ _. Inr example_reviewer" "example_orch_env [] 1" example_decision] v
    by auto
  have "pw_get ?pg ''t'' ''r'' d5 = (Inr s5, d5)"
    using d5(2) by (simp add: pw_get_def pg_run_def tx_bind_def pw_set_tenant_def tx_lift_def current_def)
  then show ?thesis using 5 d5(3) by blast
qed

theorem contact_needs_proven_reviewer_witness:
  "\<exists>st x. orch_reachable example_orch st {example_reviewer} \<and> x \<in> set (pw_actions (og_db st)) \<and> hr_status x = ''APPROVED'' \<and>
    hr_decided_by x = Some ''00000000-0000-0000-0000-000000000001''"
proof -
  obtain st s db' where r: "orch_reachable example_orch st {example_reviewer}"
    "pw_get \<lparr>pg_now = 0, pg_fault = None\<rparr> ''t'' ''r'' (og_db st) = (Inr s, db')" "rn_stage s = CONTACT"
    using example_run_decided by blast
  have "ho_verifier (oc_human example_orch) \<noteq> None" "past_approval (rn_stage s)"
    using r(3) by (simp_all add: example_orch_def past_approval_def)
  from contact_needs_proven_reviewer [OF r(1) this(1) r(2) this(2)] show ?thesis
    using r(1) by (auto simp: example_reviewer_def)
qed

text \<open>
  Without a database the tenant of a request has no effect: \<open>transition\<close> looks the run up by its
  identifier alone, moves it and returns it, whatever tenant the request names.
\<close>

theorem memory_transition_ignores_tenant:
  "transition_endpoint (cf\<lparr>oc_durable := False\<rparr>) e (dict_set ''tenant_id'' v body) st =
     transition_endpoint (cf\<lparr>oc_durable := False\<rparr>) e body st"
proof -
  have i: "text_item (dict_set ''tenant_id'' v body) ''run_id'' = text_item body ''run_id''"
    by (simp add: text_item_def body_item_def dict_simps)
  have "event_of (dict_set ''tenant_id'' v body) = event_of body"
    by (simp add: event_of_def text_item_def body_item_def dict_get_or_def dict_simps)
  then show ?thesis
    by (simp add: transition_endpoint_def i Let_def cong: sum.case_cong option.case_cong split: prod.splits)
qed

end
