(* ===== verification/Agents.thy ===== *)
theory Agents
  imports Providers
begin

text \<open>
  services/agent\_adapters/app: what stands between the agents of third parties and the platform. The
  SalesGPT policy, the OpenSales boundary, the runner of the external OpenOutreach program and the
  governance, scoring and comparison of leads. An agent recommends; nothing here reaches a contact.
\<close>

section \<open>Text\<close>

text \<open>\<open>phrase in text\<close>.\<close>

fun has_sub :: "string \<Rightarrow> string \<Rightarrow> bool" where
  "has_sub p [] = (p = [])"
| "has_sub p (c # cs) = (starts_with (c # cs) p \<or> has_sub p cs)"

lemma starts_with_iff: "starts_with s p \<longleftrightarrow> (\<exists>v. s = p @ v)"
  unfolding starts_with_def by (metis append_eq_conv_conj append_take_drop_id)

lemma has_sub_iff: "has_sub p s \<longleftrightarrow> (\<exists>u v. s = u @ p @ v)"
proof (induction s)
  case (Cons c cs)
  have "(\<exists>u v. c # cs = u @ p @ v) \<longleftrightarrow> (\<exists>v. c # cs = p @ v) \<or> (\<exists>u v. cs = u @ p @ v)"
  proof
    assume "\<exists>u v. c # cs = u @ p @ v"
    then obtain u v where "c # cs = u @ p @ v" by blast
    then show "(\<exists>v. c # cs = p @ v) \<or> (\<exists>u v. cs = u @ p @ v)" by (cases u) auto
  next
    assume "(\<exists>v. c # cs = p @ v) \<or> (\<exists>u v. cs = u @ p @ v)"
    then show "\<exists>u v. c # cs = u @ p @ v" by (metis append_Cons append_Nil)
  qed
  then show ?case using Cons.IH by (simp add: starts_with_iff)
qed simp

text \<open>Membership of a set of strings; a list or an object is not hashable.\<close>

definition in_strings :: "json \<Rightarrow> string set \<Rightarrow> bool res" where
  "in_strings j strings =
     (case j of
        JStr s \<Rightarrow> Inr (s \<in> strings)
      | JList _ \<Rightarrow> raise TypeError ''unhashable'' | JObj _ \<Rightarrow> raise TypeError ''unhashable''
      | _ \<Rightarrow> Inr False)"

section \<open>salesgpt.py\<close>

definition forbidden_actions :: "string set" where
  "forbidden_actions = {''send_message'', ''place_call'', ''take_payment'', ''sign_contract''}"

definition sensitive_intents :: "string set" where
  "sensitive_intents = {''HIGH_DISCOUNT'', ''LEGAL_TERMS'', ''PAYMENT'', ''GUARANTEE''}"

definition opt_out_phrases :: "string list" where
  "opt_out_phrases = [''no me contacten'', ''deja de escribir'', ''stop'', ''baja'']"

definition salesgpt_evaluate :: "(string \<times> json) list \<Rightarrow> (string \<times> string) res" where
  "salesgpt_evaluate recommendation =
     rbind (in_strings (dict_get_or (JStr ''recommend'') recommendation ''action'') forbidden_actions) (\<lambda>forbidden.
       if forbidden then Inr (''DENIED'', ''DIRECT_SIDE_EFFECT_FORBIDDEN'')
       else (case dict_get_or (JStr []) recommendation ''text'' of
           JStr t \<Rightarrow>
             if list_ex (\<lambda>phrase. has_sub phrase (py_lower t)) opt_out_phrases then Inr (''SUPPRESS_NOW'', ''OPT_OUT_DETECTED'')
             else rbind (in_strings (dict_get_or JNull recommendation ''intent'') sensitive_intents) (\<lambda>sensitive.
               if sensitive then Inr (''HUMAN_REVIEW'', ''SENSITIVE_OPPORTUNITY'') else Inr (''RECOMMEND'', ''WITHIN_POLICY''))
         | _ \<Rightarrow> raise AttributeError ''lower''))"

section \<open>opensales.py\<close>

definition allowed_outputs :: "string list" where
  "allowed_outputs = [''segment'', ''sequence'', ''subject'', ''body'', ''claims'']"

text \<open>\<open>any(claim not in grounded_claims for claim in claims)\<close>: stops at the first such claim.\<close>

fun ungrounded :: "string set \<Rightarrow> json list \<Rightarrow> bool res" where
  "ungrounded grounded [] = Inr False"
| "ungrounded grounded (claim # claims) =
     rbind (in_strings claim grounded) (\<lambda>known. if known then ungrounded grounded claims else Inr True)"

text \<open>Claims that are no list are a TypeError here.\<close>

definition normalize_artifact :: "(string \<times> json) list \<Rightarrow> string set \<Rightarrow> (string \<times> json) list res" where
  "normalize_artifact artifact grounded =
     (if list_ex (\<lambda>k. k \<notin> set allowed_outputs) (map fst artifact) then raise ValueError ''UNSUPPORTED_OPENSALES_OUTPUT''
      else
        rbind (case dict_get_or (JList []) artifact ''claims'' of JList claims \<Rightarrow> ungrounded grounded claims | _ \<Rightarrow> raise TypeError ''claims'')
          (\<lambda>bad. if bad then raise ValueError ''UNGROUNDED_CLAIM''
             else Inr (dict_set ''artifact_hash'' (JStr (sha256_hex (JObj artifact))) artifact)))"

text \<open>
  Values are compared up to the order of keys; a number and its float are different here. The changes are
  listed in the order of the fields, where the source iterates over a set.
\<close>

definition field_changed :: "(string \<times> json) list \<Rightarrow> (string \<times> json) list \<Rightarrow> string \<Rightarrow> bool" where
  "field_changed approved candidate key =
     (json_canon (dict_get_or JNull approved key) \<noteq> json_canon (dict_get_or JNull candidate key))"

definition material_diff :: "(string \<times> json) list \<Rightarrow> (string \<times> json) list \<Rightarrow> (string \<times> json) list" where
  "material_diff approved candidate =
     (let changes = map (\<lambda>key. (key, JObj [(''before'', dict_get_or JNull approved key), (''after'', dict_get_or JNull candidate key)]))
            (filter (field_changed approved candidate) allowed_outputs)
      in [(''material'', JBool (changes \<noteq> [])), (''changes'', JObj changes), (''approved_hash'', JStr (sha256_hex (JObj approved))),
          (''candidate_hash'', JStr (sha256_hex (JObj candidate)))])"

section \<open>outreach\_cli.py\<close>

text \<open>
  The file system and the process are parameters: \<open>realpath\<close>, \<open>isabs\<close>, the contents of a file, and the run
  of a command on its input, which gives the return code and the output or an exception (a
  time-out, a missing file).
\<close>

record outreach_runner =
  or_executable :: string
  or_approved_sha256 :: string

definition runner_init :: "(string \<Rightarrow> string) \<Rightarrow> string \<Rightarrow> string \<Rightarrow> outreach_runner" where
  "runner_init realpath executable approved = \<lparr>or_executable = realpath executable, or_approved_sha256 = approved\<rparr>"

text \<open>\<open>str.splitlines()\<close>, on the ASCII line ends.\<close>

definition is_line_end :: "char \<Rightarrow> bool" where
  "is_line_end c \<longleftrightarrow> code c \<in> {10, 11, 12, 13, 28, 29, 30}"

fun split_lines :: "string \<Rightarrow> string \<Rightarrow> string list" where
  "split_lines acc [] = (if acc = [] then [] else [rev acc])"
| "split_lines acc [c] = (if is_line_end c then [rev acc] else [rev (c # acc)])"
| "split_lines acc (c # d # cs) =
     (if code c = 13 \<and> code d = 10 then rev acc # split_lines [] cs
      else if is_line_end c then rev acc # split_lines [] (d # cs)
      else split_lines (c # acc) (d # cs))"

fun load_lines :: "string list \<Rightarrow> json list res" where
  "load_lines [] = Inr []"
| "load_lines (l # ls) =
     rbind (of_option (Exn ValueError ''JSON_DECODE_ERROR'') (json_loads l)) (\<lambda>j. rbind (load_lines ls) (\<lambda>js. Inr (j # js)))"

text \<open>\<open>key in lead\<close>: a key of an object, an element of a list, a part of a text; anything else cannot be searched.\<close>

fun key_in :: "string \<Rightarrow> json \<Rightarrow> bool res" where
  "key_in key (JObj kvs) = Inr (map_of kvs key \<noteq> None)"
| "key_in key (JList js) = Inr (JStr key \<in> set js)"
| "key_in key (JStr s) = Inr (has_sub key s)"
| "key_in key _ = raise TypeError ''argument is not iterable''"

text \<open>\<open>all(key in lead for key in keys)\<close>: stops at the first key that is missing.\<close>

fun all_in :: "string list \<Rightarrow> json \<Rightarrow> bool res" where
  "all_in [] lead = Inr True"
| "all_in (key # keys) lead = rbind (key_in key lead) (\<lambda>found. if found then all_in keys lead else Inr False)"

definition provenance_keys :: "string list" where
  "provenance_keys = [''source_uri'', ''observed_at'', ''confidence'']"

fun check_leads :: "json list \<Rightarrow> unit res" where
  "check_leads [] = Inr ()"
| "check_leads (lead # leads) =
     rbind (all_in provenance_keys lead) (\<lambda>ok. if ok then check_leads leads else raise ValueError ''LEAD_PROVENANCE_REQUIRED'')"

definition outreach_run ::
  "(string \<Rightarrow> bool) \<Rightarrow> (string \<Rightarrow> bytes res) \<Rightarrow> (string list \<Rightarrow> string \<Rightarrow> 'w \<Rightarrow> (int \<times> string) res \<times> 'w) \<Rightarrow> outreach_runner \<Rightarrow> json
    \<Rightarrow> 'w \<Rightarrow> json list res \<times> 'w" where
  "outreach_run isabs read_bytes exec r query w =
     (if \<not> isabs (or_executable r) \<or> or_approved_sha256 r = [] then (raise RuntimeError ''OPENOUTREACH_BINARY_NOT_PINNED'', w)
      else (case read_bytes (or_executable r) of
          Inl x \<Rightarrow> (Inl x, w)
        | Inr binary \<Rightarrow>
            if sha256_hexdigest binary \<noteq> or_approved_sha256 r then (raise RuntimeError ''OPENOUTREACH_BINARY_DIGEST_MISMATCH'', w)
            else (case exec [or_executable r, ''--format'', ''jsonl''] (json_dumps query) w of
                (Inl x, w') \<Rightarrow> (Inl x, w')
              | (Inr (rc, out), w') \<Rightarrow>
                  (if rc \<noteq> 0 then raise RuntimeError ''OPENOUTREACH_EXTERNAL_PROCESS_FAILED''
                   else rbind (load_lines (filter (\<lambda>l. py_strip l \<noteq> []) (split_lines [] out))) (\<lambda>leads.
                     rbind (check_leads leads) (\<lambda>_. Inr leads)), w'))))"

section \<open>lead\_intelligence.py\<close>

text \<open>A confidence is a real number here: the rounding of floats is not modelled.\<close>

record lead =
  ld_company :: string
  ld_contact_name :: "string option"
  ld_website :: "string option"
  ld_phone_token :: "string option"
  ld_source_uri :: string
  ld_source_license :: string
  ld_observed_at :: datetime
  ld_confidence :: real
  ld_attributes :: "(string \<times> json) list"

definition url_host :: "(string \<Rightarrow> parsed_url option) \<Rightarrow> string \<Rightarrow> string option res" where
  "url_host urlparse url = of_option (Exn ValueError ''URL'') (map_option pu_hostname (urlparse url))"

definition validate_lead ::
  "(string \<Rightarrow> parsed_url option) \<Rightarrow> string set \<Rightarrow> string set \<Rightarrow> lead \<Rightarrow> lead res" where
  "validate_lead urlparse allowed_domains allowed_licenses l =
     rbind (url_host urlparse (ld_source_uri l)) (\<lambda>domain.
       if domain \<notin> Some ` allowed_domains then raise PermissionError ''LEAD_SOURCE_NOT_ALLOWLISTED''
       else if ld_source_license l \<notin> allowed_licenses then raise PermissionError ''LEAD_SOURCE_LICENSE_NOT_APPROVED''
       else if \<not> (0 \<le> ld_confidence l \<and> ld_confidence l \<le> 1) then raise ValueError ''LEAD_CONFIDENCE_INVALID''
       else Inr l)"

text \<open>\<open>value in profile.get(key, [])\<close>, for a list.\<close>

definition listed_in :: "json \<Rightarrow> (string \<times> json) list \<Rightarrow> string \<Rightarrow> bool res" where
  "listed_in j profile key =
     (case dict_get_or (JList []) profile key of
        JList js \<Rightarrow> Inr (json_canon j \<in> json_canon ` set js)
      | _ \<Rightarrow> raise TypeError key)"

definition int_or :: "int \<Rightarrow> (string \<times> json) list \<Rightarrow> string \<Rightarrow> int res" where
  "int_or d kvs key = (case map_of kvs key of None \<Rightarrow> Inr d | Some (JInt i) \<Rightarrow> Inr i | _ \<Rightarrow> raise TypeError key)"

text \<open>\<open>round(x)\<close>: to the nearest integer, to the even one of two.\<close>

definition round_even :: "real \<Rightarrow> int" where
  "round_even x =
     (let f = \<lfloor>x\<rfloor>; d = x - of_int f in
      if d < 1 / 2 \<or> d = 1 / 2 \<and> even f then f else f + 1)"

definition score_components :: "lead \<Rightarrow> (string \<times> json) list \<Rightarrow> (string \<times> int) list res" where
  "score_components l profile =
     rbind (listed_in (dict_get_or JNull (ld_attributes l) ''industry'') profile ''industries'') (\<lambda>industry.
     rbind (int_or 0 profile ''min_employees'') (\<lambda>least.
     rbind (int_or (- 1) (ld_attributes l) ''employees'') (\<lambda>employees.
     rbind (if least \<le> employees then rbind (int_or (10 ^ 9) profile ''max_employees'') (\<lambda>most. Inr (employees \<le> most)) else Inr False) (\<lambda>size.
     rbind (listed_in (dict_get_or JNull (ld_attributes l) ''region'') profile ''regions'') (\<lambda>region.
       Inr [(''industry'', if industry then 35 else 0), (''employee_range'', if size then 25 else 0),
            (''region'', if region then 20 else 0), (''source_confidence'', round_even (20 * ld_confidence l))])))))"

definition score_lead :: "lead \<Rightarrow> (string \<times> json) list \<Rightarrow> (int \<times> (string \<times> int) list \<times> string) res" where
  "score_lead l profile = rbind (score_components l profile) (\<lambda>cs. Inr (sum_list (map snd cs), cs, ''lead-score@1''))"

definition same_given :: "string option \<Rightarrow> string option \<Rightarrow> bool" where
  "same_given a b \<longleftrightarrow> given a \<and> a = b"

definition classify_leads :: "(string \<Rightarrow> parsed_url option) \<Rightarrow> lead \<Rightarrow> lead \<Rightarrow> string res" where
  "classify_leads urlparse left right =
     (if same_given (ld_phone_token left) (ld_phone_token right) then Inr ''MATCH''
      else
        rbind (case (ld_website left, ld_website right) of
                 (Some a, Some b) \<Rightarrow>
                   if a \<noteq> [] \<and> b \<noteq> [] then rbind (url_host urlparse a) (\<lambda>x. rbind (url_host urlparse b) (\<lambda>y. Inr (x = y))) else Inr False
               | _ \<Rightarrow> Inr False) (\<lambda>same_site.
          if same_site then Inr ''REVIEW''
          else if py_lower (py_strip (ld_company left)) = py_lower (py_strip (ld_company right)) then Inr ''REVIEW''
          else Inr ''DISTINCT''))"

subsection \<open>The guard against instructions in foreign content\<close>

text \<open>
  Each pattern is the text of the regular expression and what it matches: a sequence of parts, where a part is a choice of
  strings or white space, one or more. Upper and lower case are alike, on ASCII.
\<close>

datatype part = Choice "string list" | Spaces

fun match_parts :: "part list \<Rightarrow> string \<Rightarrow> bool" where
  "match_parts [] s = True"
| "match_parts (Choice ws # ps) s = list_ex (\<lambda>w. starts_with s w \<and> match_parts ps (drop (length w) s)) ws"
| "match_parts (Spaces # ps) s =
     list_ex (\<lambda>n. match_parts ps (drop n s)) [1..<Suc (length (takeWhile is_space s))]"

fun search_parts :: "part list \<Rightarrow> string \<Rightarrow> bool" where
  "search_parts ps [] = match_parts ps []"
| "search_parts ps (c # cs) = (match_parts ps (c # cs) \<or> search_parts ps cs)"

definition injection_patterns :: "(string \<times> part list) list" where
  "injection_patterns =
     [(''ignore (all |the )?(previous|prior) instructions'',
       [Choice [''ignore ''], Choice [''all '', ''the '', []], Choice [''previous'', ''prior''], Choice ['' instructions'']]),
      (''system prompt'', [Choice [''system prompt'']]), (''developer message'', [Choice [''developer message'']]),
      (''tool[_ ]?call'', [Choice [''tool''], Choice [''_'', '' '', []], Choice [''call'']]),
      (''execute'' @ [CHR 0x5C] @ ''s+(command|shell|code)'', [Choice [''execute''], Spaces, Choice [''command'', ''shell'', ''code'']]),
      (''reveal'' @ [CHR 0x5C] @ ''s+(secret|token|password)'', [Choice [''reveal''], Spaces, Choice [''secret'', ''token'', ''password'']])]"

definition inspect_content :: "string \<Rightarrow> (string \<times> json) list" where
  "inspect_content txt =
     (let findings = map fst (filter (\<lambda>(name, ps). search_parts ps (py_lower txt)) injection_patterns) in
      [(''status'', JStr (if findings \<noteq> [] then ''QUARANTINE'' else ''ALLOW'')), (''findings'', JList (map JStr findings)),
       (''content_hash'', JStr (sha256_hexdigest txt))])"

section \<open>Properties\<close>

lemma in_strings_Inr: "in_strings j strings = Inr b \<Longrightarrow> b = (\<exists>s. j = JStr s \<and> s \<in> strings)"
  by (cases j) (auto simp: in_strings_def)

text \<open>
  An agent's recommendation passes only when it asks for no side effect, its text holds no opt-out
  in any case, and its intent is not sensitive; an opt-out is never answered by a review or a
  recommendation.
\<close>

theorem recommendation_within_policy:
  assumes "salesgpt_evaluate r = Inr (status, reason)"
  shows "(status = ''RECOMMEND'' \<longrightarrow>
      (\<forall>a. dict_get_or (JStr ''recommend'') r ''action'' = JStr a \<longrightarrow> a \<notin> forbidden_actions) \<and>
      (\<exists>t. dict_get_or (JStr []) r ''text'' = JStr t \<and> (\<forall>phrase \<in> set opt_out_phrases. \<forall>u v. py_lower t \<noteq> u @ phrase @ v)) \<and>
      (\<forall>i. dict_get_or JNull r ''intent'' = JStr i \<longrightarrow> i \<notin> sensitive_intents)) \<and>
    (\<forall>t phrase u v. dict_get_or (JStr []) r ''text'' = JStr t \<and> phrase \<in> set opt_out_phrases \<and> py_lower t = u @ phrase @ v \<longrightarrow>
      status \<in> {''DENIED'', ''SUPPRESS_NOW''})"
proof -
  obtain forbidden where f: "in_strings (dict_get_or (JStr ''recommend'') r ''action'') forbidden_actions = Inr forbidden"
    using assms by (auto simp: salesgpt_evaluate_def rbind_Inr_iff)
  show ?thesis
  proof (cases forbidden)
    case True
    then show ?thesis using assms by (auto simp: salesgpt_evaluate_def f)
  next
    case False
    then obtain t where t: "dict_get_or (JStr []) r ''text'' = JStr t"
      using assms by (auto simp: salesgpt_evaluate_def f split: json.splits)
    show ?thesis
    proof (cases "list_ex (\<lambda>phrase. has_sub phrase (py_lower t)) opt_out_phrases")
      case True
      then show ?thesis using assms False by (auto simp: salesgpt_evaluate_def f t)
    next
      case no: False
      then have "\<forall>phrase \<in> set opt_out_phrases. \<forall>u v. py_lower t \<noteq> u @ phrase @ v"
        unfolding list_ex_iff has_sub_iff by blast
      moreover obtain sensitive where s: "in_strings (dict_get_or JNull r ''intent'') sensitive_intents = Inr sensitive"
        "status = (if sensitive then ''HUMAN_REVIEW'' else ''RECOMMEND'')"
        using assms False no by (auto simp: salesgpt_evaluate_def f t rbind_Inr_iff split: if_splits)
      ultimately show ?thesis using t False in_strings_Inr [OF f] in_strings_Inr [OF s(1)] by auto
    qed
  qed
qed

theorem recommendation_within_policy_witness:
  "let r = [(''action'', JStr ''recommend''), (''text'', JStr ''Hola, BAJA por favor''), (''intent'', JStr ''PAYMENT'')] in
   salesgpt_evaluate r = Inr (''SUPPRESS_NOW'', ''OPT_OUT_DETECTED'') \<and> ''SUPPRESS_NOW'' \<noteq> ''RECOMMEND''"
proof -
  let ?r = "[(''action'', JStr ''recommend''), (''text'', JStr ''Hola, BAJA por favor''), (''intent'', JStr ''PAYMENT'')]"
  have "has_sub ''baja'' (py_lower ''Hola, BAJA por favor'')" by code_simp
  then have "salesgpt_evaluate ?r = Inr (''SUPPRESS_NOW'', ''OPT_OUT_DETECTED'')"
    by (simp add: salesgpt_evaluate_def dict_get_or_def in_strings_def forbidden_actions_def opt_out_phrases_def)
  from recommendation_within_policy [OF this] this show ?thesis by simp
qed

lemma all_in_True: "all_in keys lead = Inr True \<longleftrightarrow> (\<forall>key \<in> set keys. key_in key lead = Inr True)"
  by (induction keys) (auto simp: rbind_Inr_iff)

lemma check_leads_Inr: "check_leads leads = Inr () \<longleftrightarrow> (\<forall>lead \<in> set leads. all_in provenance_keys lead = Inr True)"
  by (induction leads) (auto simp: rbind_Inr_iff)

lemma key_in_True:
  "key_in key lead = Inr True \<longleftrightarrow>
     (\<exists>kvs. lead = JObj kvs \<and> key \<in> dom (map_of kvs)) \<or> (\<exists>js. lead = JList js \<and> JStr key \<in> set js) \<or>
     (\<exists>u v. lead = JStr (u @ key @ v))"
  by (cases lead) (auto simp: has_sub_iff)

text \<open>
  C35: the external program is run only when the file at its resolved absolute path has the approved SHA-256,
  with fixed arguments. Every lead that is returned holds the three names of its source, its date and its confidence:
  as keys when it is an object; a list with these three elements or a text with these three words passes as well, and
  nothing else does.
\<close>

theorem outreach_runs_approved_binary:
  assumes "outreach_run isabs read_bytes exec r query w = (res, w')" "w' \<noteq> w \<or> (\<exists>leads. res = Inr leads)"
  shows "isabs (or_executable r) \<and>
    (\<exists>binary. read_bytes (or_executable r) = Inr binary \<and> sha256_hexdigest binary = or_approved_sha256 r) \<and>
    w' = snd (exec [or_executable r, ''--format'', ''jsonl''] (json_dumps query) w) \<and>
    (\<forall>leads. res = Inr leads \<longrightarrow> (\<forall>lead \<in> set leads. \<forall>key \<in> {''source_uri'', ''observed_at'', ''confidence''}.
      (\<exists>kvs. lead = JObj kvs \<and> key \<in> dom (map_of kvs)) \<or> (\<exists>js. lead = JList js \<and> JStr key \<in> set js) \<or>
      (\<exists>u v. lead = JStr (u @ key @ v))))"
proof -
  have leads: "\<forall>lead \<in> set leads. \<forall>key \<in> {''source_uri'', ''observed_at'', ''confidence''}. key_in key lead = Inr True"
    if "check_leads leads = Inr ()" for leads
    using that unfolding check_leads_Inr all_in_True provenance_keys_def by simp
  have "check_leads leads = Inr ()" if "res = Inr leads" for leads
    using assms(1) that by (auto simp: outreach_run_def rbind_Inr_iff split: if_splits sum.splits prod.splits)
  then have "\<forall>leads. res = Inr leads \<longrightarrow> (\<forall>lead \<in> set leads. \<forall>key \<in> {''source_uri'', ''observed_at'', ''confidence''}. key_in key lead = Inr True)"
    using leads by blast
  moreover have "isabs (or_executable r) \<and>
    (\<exists>binary. read_bytes (or_executable r) = Inr binary \<and> sha256_hexdigest binary = or_approved_sha256 r) \<and>
    w' = snd (exec [or_executable r, ''--format'', ''jsonl''] (json_dumps query) w)"
    using assms by (auto simp: outreach_run_def split: if_splits sum.splits prod.splits)
  ultimately show ?thesis unfolding key_in_True by blast
qed

theorem outreach_runs_approved_binary_witness:
  "let r = \<lparr>or_executable = ''/opt/outreach'', or_approved_sha256 = sha256_hexdigest ''bin''\<rparr>;
       text = ''[\"source_uri\",\"observed_at\",\"confidence\"]'';
       result = outreach_run (\<lambda>p. starts_with p ''/'') (\<lambda>_. Inr ''bin'') (\<lambda>args q n. (Inr (0, text), Suc n)) r (JObj []) (0 :: nat)
   in result = (Inr [JList (map JStr provenance_keys)], 1) \<and>
      outreach_run (\<lambda>p. starts_with p ''/'') (\<lambda>_. raise OSError []) (\<lambda>args q n. (Inr (0, []), Suc n)) r (JObj []) (0 :: nat) = (raise OSError [], 0)"
proof -
  let ?r = "\<lparr>or_executable = ''/opt/outreach'', or_approved_sha256 = sha256_hexdigest ''bin''\<rparr>"
  let ?text = "''[\"source_uri\",\"observed_at\",\"confidence\"]''"
  let ?exec = "\<lambda>(args :: string list) (q :: string) n. (Inr (0 :: int, ?text) :: (int \<times> string) res, Suc n)"
  have n: "sha256_hexdigest ''bin'' \<noteq> []" using length_sha256_hexdigest [of "''bin''"] by (metis list.size(3) zero_neq_numeral)
  have t: "split_lines [] ?text = [?text]" "py_strip ?text \<noteq> []" by code_simp+
  have j: "json_loads ?text = Some (JList (map JStr provenance_keys))" by code_simp
  have c: "check_leads [JList (map JStr provenance_keys)] = Inr ()" by code_simp
  have run: "outreach_run (\<lambda>p. starts_with p ''/'') (\<lambda>_. Inr ''bin'') (\<lambda>_ _ n. (Inr (0, s), Suc n)) ?r (JObj []) 0 = (Inr [lead], 1)"
    if "split_lines [] s = [s]" "py_strip s \<noteq> []" "json_loads s = Some lead" "check_leads [lead] = Inr ()" for s lead
    using n that by (simp add: outreach_run_def del: check_leads.simps)
  note r = run [OF t j c]
  have "1 = snd (?exec [''/opt/outreach'', ''--format'', ''jsonl''] (json_dumps (JObj [])) (0 :: nat))"
    using outreach_runs_approved_binary [OF r, THEN conjunct2, THEN conjunct2, THEN conjunct1] by simp
  moreover have "outreach_run (\<lambda>p. starts_with p ''/'') (\<lambda>_. raise OSError []) (\<lambda>args q n. (Inr (0, []), Suc n)) ?r (JObj []) (0 :: nat) =
      (raise OSError [], 0)"
    using n by (simp add: outreach_run_def)
  ultimately show ?thesis unfolding Let_def using r by blast
qed

text \<open>What OpenSales made: only the agreed fields, only grounded claims, and the hash of exactly these fields.\<close>

lemma ungrounded_False: "ungrounded grounded claims = Inr False \<longleftrightarrow> (\<forall>c \<in> set claims. \<exists>s. c = JStr s \<and> s \<in> grounded)"
proof (induction claims)
  case (Cons c claims)
  then show ?case by (cases c) (auto simp: in_strings_def)
qed simp

theorem artifact_sound:
  assumes "normalize_artifact artifact grounded = Inr a"
  shows "fst ` set artifact \<subseteq> set allowed_outputs \<and> dict_pop ''artifact_hash'' a = artifact \<and>
    map_of a ''artifact_hash'' = Some (JStr (sha256_hex (JObj artifact))) \<and>
    (\<forall>claims. map_of artifact ''claims'' = Some (JList claims) \<longrightarrow> (\<forall>c \<in> set claims. \<exists>s. c = JStr s \<and> s \<in> grounded))"
proof -
  have k: "fst ` set artifact \<subseteq> set allowed_outputs" and a: "a = dict_set ''artifact_hash'' (JStr (sha256_hex (JObj artifact))) artifact"
    using assms by (auto simp: normalize_artifact_def list_ex_iff rbind_Inr_iff split: if_splits)
  have h: "''artifact_hash'' \<notin> fst ` set artifact" using k by (auto simp: allowed_outputs_def)
  have "dict_pop ''artifact_hash'' a = artifact" using h by (simp add: a dict_set_fresh) (force simp: AList.delete_eq filter_id_conv)
  moreover have "\<forall>c \<in> set claims. \<exists>s. c = JStr s \<and> s \<in> grounded" if "map_of artifact ''claims'' = Some (JList claims)" for claims
    using assms that by (auto simp: normalize_artifact_def rbind_Inr_iff dict_get_or_def ungrounded_False split: if_splits)
  ultimately show ?thesis using k by (simp add: a dict_simps)
qed

text \<open>A change is material exactly when a field differs; equal artifacts never are.\<close>

theorem material_exact:
  "map_of (material_diff approved candidate) ''material'' = Some (JBool (\<exists>key \<in> set allowed_outputs. field_changed approved candidate key))"
  by (auto simp: material_diff_def Let_def filter_empty_conv)

theorem leads_compared_alike: "classify_leads urlparse l r = Inr x \<Longrightarrow> classify_leads urlparse r l = Inr y \<Longrightarrow> x = y"
  by (auto simp: classify_leads_def same_given_def given_def rbind_Inr_iff split: option.splits if_splits)

text \<open>The score of a valid lead lies between 0 and 100 and is the sum of its components.\<close>

lemma round_even_bounds: "of_int a \<le> x \<Longrightarrow> x \<le> of_int b \<Longrightarrow> a \<le> round_even x \<and> round_even x \<le> b"
proof -
  assume a: "of_int a \<le> x" and b: "x \<le> of_int b"
  have f: "a \<le> \<lfloor>x\<rfloor>" using a by (simp add: le_floor_iff)
  show ?thesis
  proof (cases "x = of_int \<lfloor>x\<rfloor>")
    case True
    then show ?thesis using f b by (simp add: round_even_def Let_def)
  next
    case False
    then have "\<lfloor>x\<rfloor> + 1 \<le> b" using b by linarith
    then show ?thesis using f by (auto simp: round_even_def Let_def)
  qed
qed

theorem score_bounds:
  assumes "validate_lead urlparse domains licenses l = Inr l'" "score_lead l profile = Inr (n, cs, version)"
  shows "0 \<le> n \<and> n \<le> 100 \<and> n = sum_list (map snd cs) \<and> l' = l"
proof -
  have c: "0 \<le> ld_confidence l" "ld_confidence l \<le> 1" "l' = l"
    using assms(1) by (auto simp: validate_lead_def rbind_Inr_iff split: if_splits)
  have "0 \<le> round_even (20 * ld_confidence l) \<and> round_even (20 * ld_confidence l) \<le> 20"
    using round_even_bounds [of 0 "20 * ld_confidence l" 20] c by simp
  then show ?thesis using assms(2) c(3) by (auto simp: score_lead_def score_components_def rbind_Inr_iff)
qed

end
