(* ===== verification/Telemetry.thy ===== *)
theory Telemetry
  imports Agents
begin

text \<open>
  shared/atlantis\_contracts/telemetry.py: log lines without personal data, and the counters and timings of a
  process. Keys are matched on ASCII, upper and lower case alike.
\<close>

section \<open>Redaction\<close>

definition pii_words :: "string list" where
  "pii_words = [''phone'', ''email'', ''name'', ''address'', ''token'', ''secret'', ''password'', ''content'']"

text \<open>\<open>PII\_KEYS.search(key)\<close>.\<close>

definition pii_key :: "string \<Rightarrow> bool" where
  "pii_key k = list_ex (\<lambda>w. has_sub w (py_lower k)) pii_words"

fun redact_json :: "json \<Rightarrow> json" where
  "redact_json (JObj kvs) = JObj (map (\<lambda>(k, v). (k, if pii_key k then JStr ''[REDACTED]'' else redact_json v)) kvs)"
| "redact_json (JList vs) = JList (map redact_json vs)"
| "redact_json j = j"

text \<open>\<open>json.dumps(value, separators=(",", ":"))\<close>.\<close>

fun json_compact :: "json \<Rightarrow> string" where
  "json_compact JNull = ''null''"
| "json_compact (JBool b) = (if b then ''true'' else ''false'')"
| "json_compact (JInt i) = int_dec i"
| "json_compact (JFloat s) = s"
| "json_compact (JStr s) = ascii_quote s"
| "json_compact (JList vs) = ''['' @ py_join '','' (map json_compact vs) @ '']''"
| "json_compact (JObj kvs) = ''{'' @ py_join '','' (map (\<lambda>(k, v). ascii_quote k @ '':'' @ json_compact v) kvs) @ ''}''"

text \<open>The line \<open>emit\<close> hands to the logger; no field is called \<open>event\<close>, which is a parameter.\<close>

definition log_line :: "string \<Rightarrow> (string \<times> json) list \<Rightarrow> string" where
  "log_line event flds =
     (case redact_json (JObj flds) of JObj kvs \<Rightarrow> json_compact (JObj ((''event'', JStr event) # kvs)) | _ \<Rightarrow> [])"

section \<open>Metrics\<close>

type_synonym metric_key = "string \<times> (string \<times> string) list"

record metrics =
  mx_counters :: "(metric_key, nat) dict"
  mx_timings :: "(string, real list) dict"

definition metrics_init :: metrics where
  "metrics_init = \<lparr>mx_counters = [], mx_timings = []\<rparr>"

text \<open>\<open>name, tuple(sorted(labels.items()))\<close>, for labels that are strings.\<close>

definition metric_key :: "string \<Rightarrow> (string, string) dict \<Rightarrow> metric_key" where
  "metric_key name labels = (name, sort_key fst labels)"

definition metric_increment :: "string \<Rightarrow> (string, string) dict \<Rightarrow> metrics \<Rightarrow> metrics" where
  "metric_increment name labels m =
     (let key = metric_key name labels in
      m\<lparr>mx_counters := dict_set key (dict_get_or 0 (mx_counters m) key + 1) (mx_counters m)\<rparr>)"

text \<open>The \<open>finally\<close> block of \<open>timer\<close>: it records also when the timed block raises.\<close>

definition metric_timer :: "string \<Rightarrow> real \<Rightarrow> real \<Rightarrow> ('s \<Rightarrow> 'a res \<times> 's) \<Rightarrow> metrics \<Rightarrow> 's \<Rightarrow> 'a res \<times> metrics \<times> 's" where
  "metric_timer name started finished block m s =
     (case block s of
        (r, s') \<Rightarrow>
          (r, m\<lparr>mx_timings := dict_set name (dict_get_or [] (mx_timings m) name @ [(finished - started) * 1000]) (mx_timings m)\<rparr>, s'))"

text \<open>The summary of each timing: count, maximum and average.\<close>

definition timing_summary :: "metrics \<Rightarrow> (string \<times> nat \<times> real \<times> real) list" where
  "timing_summary m =
     map (\<lambda>(name, ts). (name, length ts, Max (set ts), sum_list ts / of_nat (length ts))) (filter (\<lambda>(name, ts). ts \<noteq> []) (mx_timings m))"

section \<open>Properties\<close>

text \<open>A value is clean when below it every field with a personal key is the placeholder.\<close>

fun clean_json :: "json \<Rightarrow> bool" where
  "clean_json (JObj kvs) = list_all (\<lambda>(k, v). if pii_key k then v = JStr ''[REDACTED]'' else clean_json v) kvs"
| "clean_json (JList vs) = list_all clean_json vs"
| "clean_json j = True"

lemma redact_clean: "clean_json (redact_json j)"
  by (induction j rule: redact_json.induct) (auto simp: list_all_iff)

lemma redact_fixed: "clean_json j \<Longrightarrow> redact_json j = j"
  by (induction j rule: redact_json.induct) (auto simp: list_all_iff map_idI split: prod.splits if_splits)

text \<open>
  A log line shows no field with a personal key, at any depth of objects and lists; what is already
  clean is logged as it is, so redaction is idempotent, and no field is added or dropped.
\<close>

theorem log_line_clean:
  "\<exists>kvs. log_line event flds = json_compact (JObj ((''event'', JStr event) # kvs)) \<and> map fst kvs = map fst flds \<and>
     clean_json (JObj kvs) \<and> (clean_json (JObj flds) \<longrightarrow> kvs = flds)"
proof -
  let ?kvs = "map (\<lambda>(k, v). (k, if pii_key k then JStr ''[REDACTED]'' else redact_json v)) flds"
  have "log_line event flds = json_compact (JObj ((''event'', JStr event) # ?kvs))" by (simp add: log_line_def)
  moreover have "map fst ?kvs = map fst flds" by (simp add: case_prod_unfold comp_def)
  moreover have "clean_json (JObj ?kvs)" using redact_clean [of "JObj flds"] by simp
  moreover have "?kvs = flds" if "clean_json (JObj flds)" using redact_fixed [OF that] by simp
  ultimately show ?thesis by blast
qed

theorem log_line_clean_witness:
  "log_line ''e'' [(''user_Email'', JStr ''x''), (''n'', JInt 1)] = json_compact (JObj [(''event'', JStr ''e''), (''user_Email'', JStr ''[REDACTED]''), (''n'', JInt 1)]) \<and>
   (\<exists>kvs. log_line ''e'' [(''n'', JInt 1)] = json_compact (JObj ((''event'', JStr ''e'') # kvs)) \<and> kvs = [(''n'', JInt 1)])"
proof -
  have p: "pii_key ''user_Email''" "\<not> pii_key ''n''" by code_simp+
  have "clean_json (JObj [(''n'', JInt 1)])" using p by simp
  then have "\<exists>kvs. log_line ''e'' [(''n'', JInt 1)] = json_compact (JObj ((''event'', JStr ''e'') # kvs)) \<and> kvs = [(''n'', JInt 1)]"
    using log_line_clean [of "''e''" "[(''n'', JInt 1)]"] by blast
  then show ?thesis using p by (simp add: log_line_def)
qed

text \<open>A counter counts the increments with its name and labels, in whatever order the labels are given.\<close>

definition count_all :: "(string \<times> (string, string) dict) list \<Rightarrow> metrics \<Rightarrow> metrics" where
  "count_all = fold (\<lambda>(name, labels). metric_increment name labels)"

theorem counters_count:
  "dict_get_or 0 (mx_counters (count_all events m)) key =
     dict_get_or 0 (mx_counters m) key + length (filter (\<lambda>(name, labels). metric_key name labels = key) events)"
  by (induction events arbitrary: m) (auto simp: count_all_def metric_increment_def Let_def dict_get_or_def dict_simps split: option.splits)

end
