(* ===== verification/Regexes.thy ===== *)
theory Regexes
  imports Agents
begin

text \<open>
  The regular expressions of the release tools, as far as they use them: a match is a set of end
  positions in the text, so that anchors and word boundaries can look at what stands before. With
  \<open>re.I\<close> the text is lowered first and the expression is written in lower case; white space and word characters
  are those of ASCII.
\<close>

datatype regex =
    Lit string
  | Cls "char \<Rightarrow> bool"
  | Many "char \<Rightarrow> bool" nat
  | Seq regex regex
  | Alt regex regex
  | WordEdge
  | AtStart
  | AtEnd

definition word_char :: "char \<Rightarrow> bool" where
  "word_char c \<longleftrightarrow> is_digit c \<or> 65 \<le> code c \<and> code c \<le> 90 \<or> 97 \<le> code c \<and> code c \<le> 122 \<or> c = CHR ''_''"

text \<open>Is there a word character at position \<open>i\<close>?\<close>

definition word_at :: "string \<Rightarrow> nat \<Rightarrow> bool" where
  "word_at s i \<longleftrightarrow> i < length s \<and> word_char (s ! i)"

definition word_edge :: "string \<Rightarrow> nat \<Rightarrow> bool" where
  "word_edge s i \<longleftrightarrow> (0 < i \<and> word_at s (i - 1)) \<noteq> word_at s i"

text \<open>
  The number of characters in some bytes of UTF-8, and whether a position stands between characters.
\<close>

definition continuation :: "char \<Rightarrow> bool" where
  "continuation c \<longleftrightarrow> code c div 64 = 2"

definition char_count :: "string \<Rightarrow> nat" where
  "char_count w = length (filter (\<lambda>c. \<not> continuation c) w)"

definition between_chars :: "string \<Rightarrow> nat \<Rightarrow> bool" where
  "between_chars s i \<longleftrightarrow> \<not> (i < length s \<and> continuation (s ! i))"

text \<open>
  The ends of the matches from position \<open>i\<close>. \<open>Many P n\<close> is \<open>n\<close> characters of the class or more, where the bytes of a
  character are all in the class or none is; \<open>AtEnd\<close> is \<open>$\<close>, which also matches before a final line feed.
\<close>

fun match_ends :: "string \<Rightarrow> regex \<Rightarrow> nat \<Rightarrow> nat list" where
  "match_ends s (Lit w) i = (if take (length w) (drop i s) = w then [i + length w] else [])"
| "match_ends s (Cls P) i = (if i < length s \<and> P (s ! i) then [i + 1] else [])"
| "match_ends s (Many P n) i =
     filter (\<lambda>j. n \<le> char_count (take (j - i) (drop i s)) \<and> between_chars s j)
       [i..<i + length (takeWhile P (drop i s)) + 1]"
| "match_ends s (Seq a b) i = concat (map (match_ends s b) (match_ends s a i))"
| "match_ends s (Alt a b) i = match_ends s a i @ match_ends s b i"
| "match_ends s WordEdge i = (if word_edge s i then [i] else [])"
| "match_ends s AtStart i = (if i = 0 then [i] else [])"
| "match_ends s AtEnd i = (if i = length s \<or> i + 1 = length s \<and> s ! i = CHR 0x0A then [i] else [])"

definition regex_search :: "regex \<Rightarrow> string \<Rightarrow> bool" where
  "regex_search r s = list_ex (\<lambda>i. match_ends s r i \<noteq> []) [0..<length s + 1]"

definition regex_fullmatch :: "regex \<Rightarrow> string \<Rightarrow> bool" where
  "regex_fullmatch r s \<longleftrightarrow> length s \<in> set (match_ends s r 0)"

fun seq_all :: "regex list \<Rightarrow> regex" where
  "seq_all [] = Lit []"
| "seq_all [r] = r"
| "seq_all (r # rs) = Seq r (seq_all rs)"

fun alt_all :: "regex list \<Rightarrow> regex" where
  "alt_all [] = Cls (\<lambda>_. False)"
| "alt_all [r] = r"
| "alt_all (r # rs) = Alt r (alt_all rs)"

definition lower_hex :: "char \<Rightarrow> bool" where
  "lower_hex c \<longleftrightarrow> is_digit c \<or> 97 \<le> code c \<and> code c \<le> 102"

text \<open>\<open>[0-9a-f]{64}\<close>, as a full match.\<close>

definition hex64 :: "string \<Rightarrow> bool" where
  "hex64 s \<longleftrightarrow> length s = 64 \<and> list_all lower_hex s"

definition spaces :: regex where
  "spaces = Many is_space 1"

section \<open>Lemmas\<close>

lemma search_iff: "regex_search r s \<longleftrightarrow> (\<exists>i \<le> length s. match_ends s r i \<noteq> [])"
  unfolding regex_search_def list_ex_iff by (auto simp del: upt_Suc simp: less_Suc_eq_le)

lemma match_Seq_Nil: "match_ends s (Seq a b) i = [] \<longleftrightarrow> (\<forall>j \<in> set (match_ends s a i). match_ends s b j = [])"
  by auto

lemma match_Lit: "match_ends s (Lit w) i \<noteq> [] \<longleftrightarrow> take (length w) (drop i s) = w"
  by simp

lemma search_Lit: "regex_search (Lit w) s \<longleftrightarrow> (\<exists>u v. s = u @ w @ v)"
proof
  assume "regex_search (Lit w) s"
  then obtain i where "take (length w) (drop i s) = w" by (auto simp: search_iff split: if_splits)
  then have "s = take i s @ w @ drop (length w) (drop i s)" by (metis append_take_drop_id)
  then show "\<exists>u v. s = u @ w @ v" by blast
next
  assume "\<exists>u v. s = u @ w @ v"
  then obtain u v where "s = u @ w @ v" by blast
  then have "take (length w) (drop (length u) s) = w" "length u \<le> length s" by simp_all
  then show "regex_search (Lit w) s" by (auto simp: search_iff)
qed

lemma hex64_hexdigest: "hex64 (sha256_hexdigest m)"
proof -
  have "lower_hex c" if "c \<in> set (sha256_hexdigest m)" for c
    using that hexlify_lower [of c "sha256 m"] by (auto simp: sha256_hexdigest_def is_lower_hex_def lower_hex_def is_digit_def)
  then show ?thesis by (simp add: hex64_def length_sha256_hexdigest list_all_iff)
qed

end
