(* ===== verification/Compliance.thy ===== *)
theory Compliance
  imports Regexes Crm
begin

text \<open>
  tools/compliance\_gate.py: the gate that a release must pass. Every check of the script collects the
  messages it finds; an exception nobody catches ends the script. The file system, openssl, the clock,
  \<open>datetime.fromisoformat\<close>, \<open>repr\<close> and the texts of decoding errors are parameters; a path is the list of
  its parts below the root directory. Case folding is that of ASCII.
\<close>

section \<open>Files and messages\<close>

type_synonym path = "string list"

datatype file_kind = Missing | Folder | Regular nat | Special

record gate =
  gv_stat :: "path \<Rightarrow> file_kind"
  gv_read :: "path \<Rightarrow> bytes res"
  gv_tree :: "path \<Rightarrow> path list"
  gv_resolve :: "path \<Rightarrow> path res"
  gv_repr :: "json \<Rightarrow> string"
  gv_decode_error :: "bytes \<Rightarrow> string"
  gv_fromiso :: "string \<Rightarrow> (bool \<times> datetime) option"
  gv_now :: datetime
  gv_openssl :: "path \<Rightarrow> bytes \<Rightarrow> bytes \<Rightarrow> string + int"

text \<open>
  \<open>gv_stat\<close> is what \<open>is_file\<close>, \<open>is_dir\<close>, \<open>exists\<close> and \<open>stat().st_size\<close> see; \<open>gv_tree\<close> lists \<open>rglob("*")\<close> relative to its
  directory; \<open>gv_fromiso\<close> tells whether the time has a zone, and the time; \<open>gv_openssl\<close> runs
  \<open>openssl dgst -sha256 -verify\<close> with a key, a signature and a payload and gives its exit code, or the text of the
  OSError or SubprocessError.
\<close>

definition is_file :: "gate \<Rightarrow> path \<Rightarrow> bool" where
  "is_file g p = (case gv_stat g p of Regular _ \<Rightarrow> True | _ \<Rightarrow> False)"

definition is_empty_file :: "gate \<Rightarrow> path \<Rightarrow> bool" where
  "is_empty_file g p = (gv_stat g p = Regular 0)"

definition path_text :: "path \<Rightarrow> string" where
  "path_text p = CHR ''/'' # py_join ''/'' p"

text \<open>\<open>path / text\<close>: an absolute text replaces the path; empty parts and dots are dropped.\<close>

definition path_join :: "path \<Rightarrow> string \<Rightarrow> path" where
  "path_join p s =
     (let parts = filter (\<lambda>w. w \<noteq> [] \<and> w \<noteq> ''.'') (split_all (CHR ''/'') s) in if starts_with s ''/'' then parts else p @ parts)"

text \<open>Does \<open>target.relative_to(folder)\<close> succeed?\<close>

definition path_below :: "path \<Rightarrow> path \<Rightarrow> bool" where
  "path_below folder target \<longleftrightarrow> take (length folder) target = folder"

text \<open>The messages of a loop, of two checks after each other and of one condition.\<close>

fun collect :: "('a \<Rightarrow> string list res) \<Rightarrow> 'a list \<Rightarrow> string list res" where
  "collect f [] = Inr []"
| "collect f (x # xs) = rbind (f x) (\<lambda>es. rbind (collect f xs) (\<lambda>rest. Inr (es @ rest)))"

definition then_check :: "string list res \<Rightarrow> string list res \<Rightarrow> string list res" where
  "then_check a b = rbind a (\<lambda>es. rbind b (\<lambda>rest. Inr (es @ rest)))"

definition flag :: "bool \<Rightarrow> string \<Rightarrow> string list" where
  "flag b m = (if b then [m] else [])"

text \<open>\<open>read_text(errors="replace")\<close>: each maximal part of an ill-formed sequence becomes U+FFFD; line ends become \<open>\n\<close>.\<close>

definition good_tail :: "nat \<Rightarrow> string \<Rightarrow> nat" where
  "good_tail lead t =
     (case t of [] \<Rightarrow> 0
      | x # xs \<Rightarrow> if utf8_tail_ok lead (code x) then Suc (length (takeWhile continuation xs)) else 0)"

function utf8_replace :: "bytes \<Rightarrow> string" where
  "utf8_replace [] = []"
| "utf8_replace (c # cs) =
     (let k = utf8_length (code c); t = take k cs;
          n = (if code c < 194 \<or> 245 \<le> code c then 0 else good_tail (code c) t) in
      if code c < 128 then c # utf8_replace cs
      else if 194 \<le> code c \<and> code c < 245 \<and> n = k then c # t @ utf8_replace (drop k cs)
      else utf8 65533 @ utf8_replace (drop n cs))"
  by pat_completeness auto

termination
  by (relation "measure length") auto

fun newlines_after :: "bool \<Rightarrow> string \<Rightarrow> string" where
  "newlines_after cr [] = []"
| "newlines_after cr (c # cs) =
     (if c = CHR 0x0D then CHR 0x0A # newlines_after True cs
      else if cr \<and> c = CHR 0x0A then newlines_after False cs else c # newlines_after False cs)"

definition newlines :: "string \<Rightarrow> string" where
  "newlines s = newlines_after False s"

definition read_replaced :: "gate \<Rightarrow> path \<Rightarrow> string res" where
  "read_replaced g p = rbind (gv_read g p) (\<lambda>bs. Inr (newlines (utf8_replace bs)))"

section \<open>Values\<close>

text \<open>\<open>str(item.get(k, d))\<close>.\<close>

definition str_field :: "gate \<Rightarrow> object \<Rightarrow> string \<Rightarrow> string \<Rightarrow> string" where
  "str_field g item k d = py_str (gv_repr g) (dict_get_or (JStr d) item k)"

text \<open>Python iterates over the elements of a list, the keys of a dictionary and the characters of a text.\<close>

fun iter_json :: "json \<Rightarrow> json list res" where
  "iter_json (JList vs) = Inr vs"
| "iter_json (JObj kvs) = Inr (map (\<lambda>(k, v). JStr k) kvs)"
| "iter_json (JStr s) = Inr (map (\<lambda>c. JStr [c]) s)"
| "iter_json _ = raise TypeError ''not iterable''"

text \<open>The dictionaries among some values.\<close>

fun objects :: "json list \<Rightarrow> object list" where
  "objects [] = []"
| "objects (JObj kvs # vs) = kvs # objects vs"
| "objects (_ # vs) = objects vs"

text \<open>\<open>==\<close> of two JSON values: \<open>True\<close> is 1, numbers by value, dictionaries without order.\<close>

fun json_equal :: "json \<Rightarrow> json \<Rightarrow> bool" where
  "json_equal (JInt a) j = equals_int j a"
| "json_equal (JBool a) j = equals_int j (if a then 1 else 0)"
| "json_equal (JFloat s) j =
     (case j of JFloat t \<Rightarrow> s \<noteq> ''NaN'' \<and> (s = t \<or> float_zero s \<and> float_zero t)
      | JInt n \<Rightarrow> equals_int (JFloat s) n | JBool b \<Rightarrow> equals_int (JFloat s) (if b then 1 else 0) | _ \<Rightarrow> False)"
| "json_equal (JList vs) j = (case j of JList ws \<Rightarrow> list_all2 json_equal vs ws | _ \<Rightarrow> False)"
| "json_equal (JObj kvs) j =
     (case j of JObj kws \<Rightarrow> length kvs = length kws \<and>
        list_all (\<lambda>(k, v). case map_of kws k of None \<Rightarrow> False | Some w \<Rightarrow> json_equal v w) kvs
      | _ \<Rightarrow> False)"
| "json_equal a j = (a = j)"

text \<open>\<open>sorted({x for x in xs if xs.count(x) > 1})\<close>.\<close>

definition duplicates :: "string list \<Rightarrow> string list" where
  "duplicates xs = sort (remdups (filter (\<lambda>x. 1 < count_list xs x) xs))"

definition named_duplicates :: "string list \<Rightarrow> string list" where
  "named_duplicates xs = filter (\<lambda>x. x \<noteq> []) (duplicates xs)"

definition pending :: "string set" where
  "pending = {[], ''TBD'', ''UNSET'', ''UNKNOWN'', ''LATEST'', ''MAIN-LATEST''}"

definition forbidden_license_markers :: "string set" where
  "forbidden_license_markers = {''NOASSERTION'', ''NONE'', ''UNKNOWN'', ''TBD'', ''LICENSEREF-GENERIC-OPENSOURCE'',
     ''LICENSEREF-UNKNOWN'', ''LICENSEREF-UNSPECIFIED''}"

definition license_is_unresolved :: "gate \<Rightarrow> json \<Rightarrow> bool" where
  "license_is_unresolved g j \<longleftrightarrow>
     py_upper (py_strip (if truthy j then py_str (gv_repr g) j else [])) \<in> forbidden_license_markers"

section \<open>Digests\<close>

definition sha256_file :: "gate \<Rightarrow> path \<Rightarrow> string res" where
  "sha256_file g p = rbind (gv_read g p) (\<lambda>bs. Inr (sha256_hexdigest bs))"

text \<open>What \<open>sha256_directory\<close> feeds the digest for one file, and for the directory.\<close>

definition directory_entry :: "gate \<Rightarrow> path \<Rightarrow> path \<Rightarrow> bytes res" where
  "directory_entry g p rel =
     (let name = py_join ''/'' rel in
      if \<not> utf8_ok name then raise ValueError ''surrogates not allowed''
      else rbind (gv_read g (p @ rel)) (\<lambda>bs. Inr (name @ CHR 0x00 # sha256 bs)))"

fun directory_bytes :: "gate \<Rightarrow> path \<Rightarrow> path list \<Rightarrow> bytes res" where
  "directory_bytes g p [] = Inr []"
| "directory_bytes g p (rel # rels) =
     rbind (directory_entry g p rel) (\<lambda>bs. rbind (directory_bytes g p rels) (\<lambda>rest. Inr (bs @ rest)))"

definition files_below :: "gate \<Rightarrow> path \<Rightarrow> path list" where
  "files_below g p = filter (\<lambda>rel. is_file g (p @ rel)) (gv_tree g p)"

definition sha256_directory :: "gate \<Rightarrow> path \<Rightarrow> string res" where
  "sha256_directory g p = rbind (directory_bytes g p (sort (files_below g p))) (\<lambda>bs. Inr (sha256_hexdigest bs))"

definition artifact_sha256 :: "gate \<Rightarrow> path \<Rightarrow> string res" where
  "artifact_sha256 g p = (if gv_stat g p = Folder then sha256_directory g p else sha256_file g p)"

section \<open>Reading JSON\<close>

definition is_os_error :: "exn \<Rightarrow> bool" where
  "is_os_error e \<longleftrightarrow> exn_cls e \<in> {OSError, PermissionError, TimeoutError, URLError}"

text \<open>The object and the messages.\<close>

definition load_json :: "gate \<Rightarrow> path \<Rightarrow> string \<Rightarrow> (object option \<times> string list) res" where
  "load_json g p label =
     (case gv_read g p of
        Inl e \<Rightarrow> if is_os_error e then Inr (None, [''Invalid '' @ label @ '': '' @ exn_msg e]) else Inl e
      | Inr bs \<Rightarrow>
          (case (if utf8_ok bs then json_loads (newlines bs) else None) of
             None \<Rightarrow> Inr (None, [''Invalid '' @ label @ '': '' @ gv_decode_error g bs])
           | Some (JObj kvs) \<Rightarrow> Inr (Some kvs, [])
           | Some _ \<Rightarrow> Inr (None, [''Invalid '' @ label @ '': top level must be an object''])))"

section \<open>The source tree\<close>

definition text_suffixes :: "string set" where
  "text_suffixes = {''.py'', ''.toml'', ''.yaml'', ''.yml'', ''.json'', ''.md'', ''.txt''}"

text \<open>\<open>path.suffix\<close>: from the last dot, unless it is the first or the last character.\<close>

definition path_suffix :: "path \<Rightarrow> string" where
  "path_suffix p =
     (let name = last p; tail = takeWhile (\<lambda>c. c \<noteq> CHR ''.'') (rev name); stem = length name - length tail - 1 in
      if length tail = length name \<or> stem = 0 \<or> tail = [] then [] else drop stem name)"

definition ignored_parts :: "string set" where
  "ignored_parts = {''.git'', ''.venv'', ''venv'', ''__pycache__'', ''node_modules'', ''.pytest_cache''}"

definition skipped_file :: "gate \<Rightarrow> path \<Rightarrow> bool" where
  "skipped_file g p \<longleftrightarrow> \<not> is_file g p \<or> path_suffix p \<notin> text_suffixes \<or> ''evidence'' \<in> set p \<or>
     ignored_parts \<inter> set p \<noteq> {}"

definition quote_char :: "char \<Rightarrow> bool" where
  "quote_char c \<longleftrightarrow> c \<in> {CHR 0x22, CHR 0x27}"

definition gpl_import :: regex where
  "gpl_import =
     Alt (seq_all [Alt AtStart (Cls (\<lambda>c. is_space c \<or> quote_char c)), Lit ''import'', spaces, Lit ''openoutreach'',
            Alt (Cls is_space) AtEnd])
         (seq_all [Lit ''from'', spaces, Lit ''openoutreach'', Cls (\<lambda>c. c = CHR ''.'' \<or> is_space c)])"

definition n8n_word :: regex where
  "n8n_word = seq_all [WordEdge, Lit ''n8n'', WordEdge]"

definition latest_image :: regex where
  "latest_image = seq_all [Alt (Lit ''image:'') (Lit ''from''), spaces, Many (\<lambda>c. \<not> is_space c) 1, Lit '':latest'', WordEdge]"

definition hardcoded_secret :: regex where
  "hardcoded_secret =
     seq_all [alt_all [Lit ''password'', Lit ''secret'', Lit ''api_key''], Many is_space 0, Cls (\<lambda>c. c = CHR '':'' \<or> c = CHR ''=''),
       Many is_space 0, Cls quote_char, Many (\<lambda>c. \<not> quote_char c) 12, Cls quote_char]"

text \<open>\<open>re.search(pattern, text, re.I)\<close>, the pattern in lower case.\<close>

definition search_ignoring_case :: "regex \<Rightarrow> string \<Rightarrow> bool" where
  "search_ignoring_case r s = regex_search r (py_lower s)"

text \<open>The messages about the text of one file.\<close>

definition scan_text :: "path \<Rightarrow> string \<Rightarrow> string list" where
  "scan_text relative txt =
     (let name = py_join ''/'' relative; runtime_or_manifest = (hd relative \<in> {''services'', ''shared'', ''deploy''}) in
      flag (search_ignoring_case gpl_import txt) (''GPL boundary violation: '' @ name) @
      flag (runtime_or_manifest \<and> search_ignoring_case n8n_word txt) (''Forbidden component n8n: '' @ name) @
      flag (path_suffix relative = ''.py'' \<and> name \<noteq> ''tools/compliance_gate.py'' \<and> has_sub ''shell=True'' txt)
        (''Unsafe subprocess shell: '' @ name) @
      flag (runtime_or_manifest \<and> search_ignoring_case latest_image txt) (''Mutable latest image: '' @ name) @
      flag (runtime_or_manifest \<and> search_ignoring_case hardcoded_secret txt \<and> \<not> has_sub ''development-secret-change-me'' txt)
        (''Possible hardcoded secret: '' @ name))"

definition scan_file :: "gate \<Rightarrow> path \<Rightarrow> path \<Rightarrow> string list res" where
  "scan_file g base relative =
     (if skipped_file g (base @ relative) then Inr []
      else rbind (read_replaced g (base @ relative)) (\<lambda>txt. Inr (scan_text relative txt)))"

definition isolated_services :: "string list" where
  "isolated_services = [''policy_gateway'', ''crm_api'', ''orchestrator'', ''model_gateway'', ''channel_adapters'']"

definition missing_builds :: "gate \<Rightarrow> path \<Rightarrow> string list" where
  "missing_builds g base =
     concat (map (\<lambda>service. flag (gv_stat g (base @ [''services'', service, ''Dockerfile'']) = Missing)
       (''Missing isolated build: services/'' @ service @ ''/Dockerfile'')) isolated_services)"

definition scan_source :: "gate \<Rightarrow> path \<Rightarrow> string list res" where
  "scan_source g base = then_check (collect (scan_file g base) (gv_tree g base)) (Inr (missing_builds g base))"

section \<open>The component lock\<close>

definition lock_fields :: "string list" where
  "lock_fields = [''name'', ''kind'', ''repository'', ''revision'', ''artifact'', ''digest'', ''license_spdx'',
     ''license_text_sha256'', ''license_path'', ''owner'', ''distribution_mode'', ''source_obligation'']"

definition oci_reference :: "string \<Rightarrow> bool" where
  "oci_reference s = regex_fullmatch (seq_all ([Alt (Lit ''oci'') (Lit ''docker''), Lit ''://'', Many (\<lambda>c. \<not> is_space c) 1,
     Lit ''@sha256:''] @ replicate 64 (Cls lower_hex))) s"

definition sha256_reference :: "string \<Rightarrow> bool" where
  "sha256_reference s \<longleftrightarrow> starts_with s ''sha256:'' \<and> hex64 (drop 7 s)"

definition reference_char :: "char \<Rightarrow> bool" where
  "reference_char c \<longleftrightarrow> c \<in> set ''/:@-''"

definition latest_reference :: regex where
  "latest_reference = seq_all [Alt AtStart (Cls reference_char), Lit ''latest'', Alt AtEnd (Cls reference_char)]"

text \<open>\<open>json.dumps(value, sort_keys=True)\<close>.\<close>

definition dumps_sorted :: "json \<Rightarrow> string" where
  "dumps_sorted j = json_dumps (json_canon j)"

definition unpinned_fields :: "gate \<Rightarrow> string \<Rightarrow> object \<Rightarrow> string list" where
  "unpinned_fields g name item =
     concat (map (\<lambda>field. flag (py_upper (py_strip (str_field g item field [])) \<in> pending)
       (''Unpinned component: '' @ name @ ''.'' @ field)) lock_fields)"

definition lock_digests :: "gate \<Rightarrow> string \<Rightarrow> object \<Rightarrow> string list" where
  "lock_digests g name item =
     (let digest = str_field g item ''digest'' []; license_digest = str_field g item ''license_text_sha256'' [] in
      flag (digest \<noteq> [] \<and> \<not> sha256_reference digest) (''Invalid component digest: '' @ name) @
      flag (license_digest \<noteq> [] \<and> py_upper license_digest \<notin> pending \<and> \<not> hex64 license_digest) (''Invalid license digest: '' @ name))"

definition lock_references :: "gate \<Rightarrow> string \<Rightarrow> object \<Rightarrow> string list" where
  "lock_references g name item =
     (let combined = dumps_sorted (JObj item) in
      flag (license_is_unresolved g (dict_get_or JNull item ''license_spdx'')) (''Unresolved component license: '' @ name) @
      flag (dict_get_or JNull item ''kind'' = JStr ''oci-image'' \<and> starts_with (py_lower name) ''atlantis-'' \<and>
          \<not> oci_reference (str_field g item ''repository'' []))
        (''Atlantis OCI image is not pinned to a published registry manifest: '' @ name) @
      flag (search_ignoring_case latest_reference combined) (''Mutable component reference: '' @ name) @
      flag (search_ignoring_case n8n_word combined) (''Forbidden component in lock: '' @ name))"

definition lock_name :: "gate \<Rightarrow> nat \<Rightarrow> object \<Rightarrow> string" where
  "lock_name g index item = py_strip (str_field g item ''name'' (''components['' @ nat_dec index @ '']''))"

text \<open>The components from an index on, with the names seen before it.\<close>

fun lock_items :: "gate \<Rightarrow> string set \<Rightarrow> nat \<Rightarrow> json list \<Rightarrow> string list" where
  "lock_items g seen index [] = []"
| "lock_items g seen index (JObj item # items) =
     (let name = lock_name g index item in
      flag (py_lower name \<in> seen) (''Duplicate component in lock: '' @ name) @ unpinned_fields g name item @
      lock_digests g name item @ lock_references g name item @
      lock_items g (insert (py_lower name) seen) (index + 1) items)"
| "lock_items g seen index (_ # items) =
     (''Invalid component lock: components['' @ nat_dec index @ ''] must be an object'') # lock_items g seen (index + 1) items"

definition lock_errors :: "gate \<Rightarrow> object \<Rightarrow> string list" where
  "lock_errors g lock =
     flag (dict_get_or JNull lock ''release_status'' \<noteq> JStr ''approved'') ''Invalid component lock: release_status must be approved'' @
     (case dict_get_or JNull lock ''components'' of
        JList (item # items) \<Rightarrow> lock_items g {} 0 (item # items)
      | _ \<Rightarrow> [''Invalid component lock: components must be a non-empty array''])"

definition validate_lock :: "gate \<Rightarrow> path \<Rightarrow> (object option \<times> string list) res" where
  "validate_lock g p =
     rbind (load_json g p ''component lock'') (\<lambda>(lock, es).
       Inr (lock, es @ (case lock of None \<Rightarrow> [] | Some kvs \<Rightarrow> lock_errors g kvs)))"

end
