(* ===== verification/ReleaseGate.thy ===== *)
theory ReleaseGate
  imports Compliance
begin

text \<open>
  tools/compliance\_gate.py, second part: the evidence of a distribution (licenses, notices,
  corresponding source, the software bills of materials of the product and of its images), the signed
  attestation, and the gate itself with its exit code.
\<close>

section \<open>Licenses, notices, corresponding source\<close>

text \<open>What follows \<open>if not lock: return\<close>.\<close>

definition with_lock :: "object option \<Rightarrow> (object \<Rightarrow> string list res) \<Rightarrow> string list res" where
  "with_lock lock f = (case lock of Some kvs \<Rightarrow> if kvs = [] then Inr [] else f kvs | None \<Rightarrow> Inr [])"

text \<open>\<open>lock.get("components", [])\<close>, iterated over.\<close>

definition lock_components :: "object \<Rightarrow> json list res" where
  "lock_components lock = iter_json (dict_get_or (JList []) lock ''components'')"

definition license_item :: "gate \<Rightarrow> path \<Rightarrow> path \<Rightarrow> json \<Rightarrow> string list res" where
  "license_item g evidence license_root item =
     (case item of
        JObj kvs \<Rightarrow>
          (let name = str_field g kvs ''name'' ''<unknown>'' in
           rbind (gv_resolve g (path_join evidence (str_field g kvs ''license_path'' []))) (\<lambda>target.
           if \<not> path_below license_root target then Inr [''License path escapes LICENSES directory: '' @ name]
           else (case gv_stat g target of
              Regular n \<Rightarrow>
                if n = 0 then Inr [''Missing license text for component: '' @ name]
                else if n < 100 then Inr [''License text is implausibly short: '' @ name]
                else rbind (sha256_file g target) (\<lambda>d.
                  Inr (flag (JStr d \<noteq> dict_get_or JNull kvs ''license_text_sha256'') (''License text digest mismatch: '' @ name)))
            | _ \<Rightarrow> Inr [''Missing license text for component: '' @ name])))
      | _ \<Rightarrow> Inr [])"

definition validate_licenses :: "gate \<Rightarrow> path \<Rightarrow> object option \<Rightarrow> string list res" where
  "validate_licenses g evidence lock =
     with_lock lock (\<lambda>kvs.
       rbind (gv_resolve g (evidence @ [''LICENSES''])) (\<lambda>license_root.
       rbind (lock_components kvs) (collect (license_item g evidence license_root))))"

definition notice_item :: "gate \<Rightarrow> string \<Rightarrow> json \<Rightarrow> string list res" where
  "notice_item g notices item =
     rbind (as_object item) (\<lambda>kvs.
       let name = py_strip (str_field g kvs ''name'' []) in
       Inr (flag (name \<noteq> [] \<and> \<not> has_sub (py_lower name) notices) (''Component missing from third-party notices: '' @ name)))"

definition validate_notices :: "gate \<Rightarrow> path \<Rightarrow> object option \<Rightarrow> string list res" where
  "validate_notices g evidence lock =
     with_lock lock (\<lambda>kvs.
       rbind (read_replaced g (evidence @ [''THIRD_PARTY_NOTICES.md''])) (\<lambda>notices.
       rbind (lock_components kvs) (collect (notice_item g (py_lower notices)))))"

text \<open>The last entry of each name.\<close>

definition entries_by :: "(object \<Rightarrow> string) \<Rightarrow> json list \<Rightarrow> (string, object) dict" where
  "entries_by key items = dict_of (map (\<lambda>kvs. (key kvs, kvs)) (objects items))"

definition source_required :: "string \<Rightarrow> bool" where
  "source_required obligation = list_ex (\<lambda>marker. has_sub marker obligation) [''include'', ''source-offer'', ''corresponding-source'']"

definition source_material :: "gate \<Rightarrow> path \<Rightarrow> string \<Rightarrow> object \<Rightarrow> string list res" where
  "source_material g folder name entry =
     rbind (gv_resolve g (path_join folder (str_field g entry ''path'' []))) (\<lambda>target.
     rbind (gv_resolve g folder) (\<lambda>source_root.
     if \<not> path_below source_root target then Inr [''Corresponding-source path escapes evidence directory: '' @ name]
     else if gv_stat g target = Missing \<or> is_empty_file g target then Inr [''Missing corresponding-source material: '' @ name]
     else rbind (artifact_sha256 g target) (\<lambda>d.
       Inr (flag (dict_get_or JNull entry ''sha256'' \<noteq> JStr d) (''Corresponding-source digest mismatch: '' @ name)))))"

definition source_item :: "gate \<Rightarrow> path \<Rightarrow> (string, object) dict \<Rightarrow> json \<Rightarrow> string list res" where
  "source_item g folder by_name component =
     rbind (as_object component) (\<lambda>kvs.
       let name = str_field g kvs ''name'' [] in
       case map_of by_name name of
         None \<Rightarrow> Inr [''Component missing from corresponding-source manifest: '' @ name]
       | Some entry \<Rightarrow>
           (let disposition = dict_get_or JNull entry ''disposition'' in
            rbind (in_strings disposition {''included'', ''written-offer'', ''not-required''}) (\<lambda>known.
            if \<not> known then Inr [''Invalid corresponding-source disposition: '' @ name]
            else if disposition = JStr ''not-required''
            then Inr (flag (source_required (py_lower (str_field g kvs ''source_obligation'' [])))
              (''Corresponding source is required by component obligation: '' @ name))
            else source_material g folder name entry)))"

text \<open>The text of a field that need not be there: \<open>str(item.get(k))\<close>.\<close>

definition str_or_none :: "gate \<Rightarrow> string \<Rightarrow> object \<Rightarrow> string" where
  "str_or_none g k item = py_str (gv_repr g) (dict_get_or JNull item k)"

definition source_entries :: "gate \<Rightarrow> path \<Rightarrow> object \<Rightarrow> json list \<Rightarrow> string list res" where
  "source_entries g folder lock entries =
     then_check
       (Inr (map (\<lambda>name. ''Duplicate component in corresponding-source manifest: '' @ name)
          (named_duplicates (map (\<lambda>kvs. str_field g kvs ''name'' []) (objects entries)))))
       (rbind (lock_components lock) (collect (source_item g folder (entries_by (str_or_none g ''name'') entries))))"

definition validate_corresponding_source :: "gate \<Rightarrow> path \<Rightarrow> object option \<Rightarrow> string list res" where
  "validate_corresponding_source g evidence lock =
     (let folder = evidence @ [''corresponding-source''] in
      rbind (load_json g (folder @ [''manifest.json'']) ''corresponding-source manifest'') (\<lambda>(manifest, es).
      case manifest of
        None \<Rightarrow> Inr es
      | Some m \<Rightarrow> with_lock lock (\<lambda>kvs.
          case dict_get_or JNull m ''components'' of
            JList entries \<Rightarrow> source_entries g folder kvs entries
          | _ \<Rightarrow> Inr [''Corresponding-source manifest components must be an array''])))"

section \<open>Bills of materials of the product\<close>

definition folded_name :: "gate \<Rightarrow> object \<Rightarrow> string" where
  "folded_name g item = py_lower (str_field g item ''name'' [])"

definition remove_prefix :: "string \<Rightarrow> string \<Rightarrow> string" where
  "remove_prefix p s = (if starts_with s p then drop (length p) s else s)"

definition listed :: "json \<Rightarrow> json list" where
  "listed j = (case j of JList vs \<Rightarrow> vs | _ \<Rightarrow> [])"

text \<open>The digests and the licenses an entry of the CycloneDX document declares.\<close>

definition sbom_hashes :: "gate \<Rightarrow> object \<Rightarrow> string set" where
  "sbom_hashes g entry =
     (\<lambda>h. str_field g h ''content'' []) `
       {h \<in> set (objects (listed (dict_get_or (JList []) entry ''hashes''))).
         py_upper (str_field g h ''alg'' []) \<in> {''SHA-256'', ''SHA_256''}}"

definition declared_of :: "gate \<Rightarrow> object \<Rightarrow> string list" where
  "declared_of g choice =
     (if truthy (dict_get_or JNull choice ''expression'') then [str_or_none g ''expression'' choice] else []) @
     (case dict_get_or JNull choice ''license'' of
        JObj license \<Rightarrow> if truthy (dict_get_or JNull license ''id'') then [str_or_none g ''id'' license] else []
      | _ \<Rightarrow> [])"

definition declared_licenses :: "gate \<Rightarrow> object \<Rightarrow> string set" where
  "declared_licenses g entry = set (concat (map (declared_of g) (objects (listed (dict_get_or (JList []) entry ''licenses'')))))"

definition sbom_item :: "gate \<Rightarrow> (string, object) dict \<Rightarrow> json \<Rightarrow> string list res" where
  "sbom_item g by_name item =
     rbind (as_object item) (\<lambda>kvs.
       let name = str_field g kvs ''name'' [] in
       case map_of by_name (py_lower name) of
         None \<Rightarrow> if name \<noteq> [] then Inr [''Component missing from CycloneDX SBOM: '' @ name] else raise KeyError []
       | Some entry \<Rightarrow> Inr (
           flag (str_field g entry ''version'' [] \<noteq> str_field g kvs ''revision'' []) (''SBOM revision mismatch: '' @ name) @
           flag (remove_prefix ''sha256:'' (str_field g kvs ''digest'' []) \<notin> sbom_hashes g entry) (''SBOM digest mismatch: '' @ name) @
           flag (str_field g kvs ''license_spdx'' [] \<notin> declared_licenses g entry) (''SBOM license mismatch: '' @ name)))"

text \<open>The entries of a document that the lock does not name, and the names the lock has.\<close>

definition lock_names :: "gate \<Rightarrow> json list \<Rightarrow> string set" where
  "lock_names g items = folded_name g ` set (objects items)"

definition unlocked :: "gate \<Rightarrow> string \<Rightarrow> json list \<Rightarrow> json list \<Rightarrow> string list" where
  "unlocked g message items entries =
     concat (map (\<lambda>kvs. let name = str_field g kvs ''name'' [] in
       flag (name \<noteq> [] \<and> py_lower name \<notin> lock_names g items) (message @ name)) (objects entries))"

definition sbom_entries :: "gate \<Rightarrow> object option \<Rightarrow> json list \<Rightarrow> string list res" where
  "sbom_entries g lock components =
     then_check
       (Inr (map (\<lambda>name. ''Duplicate component in CycloneDX SBOM: '' @ name) (named_duplicates (map (folded_name g) (objects components))) @
         flag (search_ignoring_case n8n_word (dumps_sorted (JList components))) ''Forbidden component in CycloneDX SBOM: n8n''))
       (with_lock lock (\<lambda>kvs. rbind (lock_components kvs) (\<lambda>items.
          then_check (collect (sbom_item g (entries_by (folded_name g) components)) items)
            (Inr (unlocked g ''SBOM component missing from component lock: '' items components)))))"

definition validate_sbom :: "gate \<Rightarrow> path \<Rightarrow> object option \<Rightarrow> string list res" where
  "validate_sbom g p lock =
     rbind (load_json g p ''CycloneDX SBOM'') (\<lambda>(sbom, es).
     case sbom of
       None \<Rightarrow> Inr es
     | Some m \<Rightarrow>
         then_check
           (Inr (flag (dict_get_or JNull m ''bomFormat'' \<noteq> JStr ''CycloneDX'' \<or> dict_get_or JNull m ''specVersion'' \<noteq> JStr ''1.6'')
             ''Invalid CycloneDX SBOM header''))
           (case dict_get_or JNull m ''components'' of
              JList (c # cs) \<Rightarrow> sbom_entries g lock (c # cs)
            | _ \<Rightarrow> Inr [''CycloneDX SBOM has no components'']))"

definition spdx_licenses :: "gate \<Rightarrow> object \<Rightarrow> string list" where
  "spdx_licenses g package =
     (let name = str_field g package ''name'' ''<unknown>''; concluded = dict_get_or JNull package ''licenseConcluded'' in
      flag (license_is_unresolved g (dict_get_or JNull package ''licenseDeclared'')) (''Unresolved SPDX declared license: '' @ name) @
      flag (concluded \<noteq> JNull \<and> license_is_unresolved g concluded) (''Unresolved SPDX concluded license: '' @ name))"

definition spdx_checksums :: "gate \<Rightarrow> object \<Rightarrow> string set" where
  "spdx_checksums g package =
     (\<lambda>c. str_field g c ''checksumValue'' []) `
       {c \<in> set (objects (listed (dict_get_or (JList []) package ''checksums''))). dict_get_or JNull c ''algorithm'' = JStr ''SHA256''}"

definition spdx_item :: "gate \<Rightarrow> (string, object) dict \<Rightarrow> json \<Rightarrow> string list res" where
  "spdx_item g by_name component =
     rbind (as_object component) (\<lambda>kvs.
       let name = str_field g kvs ''name'' [] in
       case map_of by_name (py_lower name) of
         None \<Rightarrow> Inr [''Component missing from SPDX SBOM: '' @ name]
       | Some package \<Rightarrow> Inr (
           flag (str_field g package ''versionInfo'' [] \<noteq> str_field g kvs ''revision'' []) (''SPDX revision mismatch: '' @ name) @
           flag (remove_prefix ''sha256:'' (str_field g kvs ''digest'' []) \<notin> spdx_checksums g package) (''SPDX digest mismatch: '' @ name) @
           flag (\<not> json_equal (dict_get_or JNull package ''licenseDeclared'') (dict_get_or JNull kvs ''license_spdx''))
             (''SPDX license mismatch: '' @ name)))"

definition spdx_packages :: "gate \<Rightarrow> object option \<Rightarrow> json list \<Rightarrow> string list res" where
  "spdx_packages g lock packages =
     then_check
       (Inr (concat (map (spdx_licenses g) (objects packages)) @
         map (\<lambda>name. ''Duplicate package in SPDX SBOM: '' @ name) (named_duplicates (map (folded_name g) (objects packages)))))
       (with_lock lock (\<lambda>kvs. rbind (lock_components kvs) (\<lambda>items.
          then_check (collect (spdx_item g (entries_by (folded_name g) packages)) items)
            (Inr (unlocked g ''SPDX package missing from component lock: '' items packages)))))"

definition validate_spdx :: "gate \<Rightarrow> path \<Rightarrow> object option \<Rightarrow> string list res" where
  "validate_spdx g p lock =
     rbind (load_json g p ''SPDX SBOM'') (\<lambda>(sbom, es).
     case sbom of
       None \<Rightarrow> Inr es
     | Some m \<Rightarrow>
         then_check
           (Inr (flag (dict_get_or JNull m ''spdxVersion'' \<noteq> JStr ''SPDX-2.3'' \<or> dict_get_or JNull m ''dataLicense'' \<noteq> JStr ''CC0-1.0'' \<or>
               dict_get_or JNull m ''SPDXID'' \<noteq> JStr ''SPDXRef-DOCUMENT'') ''Invalid SPDX SBOM header''))
           (case dict_get_or JNull m ''packages'' of
              JList (q # qs) \<Rightarrow> spdx_packages g lock (q # qs)
            | _ \<Rightarrow> Inr [''SPDX SBOM has no packages'']))"

section \<open>Bills of materials of the images\<close>

definition scanner_fixed :: "gate \<Rightarrow> json \<Rightarrow> bool" where
  "scanner_fixed g scanner =
     (case scanner of
        JObj kvs \<Rightarrow> py_strip (str_field g kvs ''name'' []) \<noteq> [] \<and> py_upper (str_field g kvs ''version'' []) \<notin> pending \<and>
          hex64 (str_field g kvs ''sha256'' [])
      | _ \<Rightarrow> False)"

text \<open>The format, its header field and value, and the name of its collection.\<close>

definition image_formats :: "(string \<times> string \<times> string \<times> string) list" where
  "image_formats = [(''cyclonedx'', ''bomFormat'', ''CycloneDX'', ''components''), (''spdx'', ''spdxVersion'', ''SPDX-2.3'', ''packages'')]"

definition nonempty_list :: "json \<Rightarrow> bool" where
  "nonempty_list j = (case j of JList (_ # _) \<Rightarrow> True | _ \<Rightarrow> False)"

definition unknown_licenses :: "gate \<Rightarrow> string \<Rightarrow> object \<Rightarrow> string list res" where
  "unknown_licenses g display data =
     rbind (iter_json (dict_get_or (JList []) data ''packages'')) (\<lambda>packages.
       Inr (map (\<lambda>kvs. ''Unknown package license in image SBOM: '' @ display @ ''::'' @ str_field g kvs ''name'' ''<unknown>'')
         (filter (\<lambda>kvs. license_is_unresolved g (dict_get_or JNull kvs ''licenseDeclared'')) (objects packages))))"

definition image_document :: "gate \<Rightarrow> string \<Rightarrow> string \<times> string \<times> string \<times> string \<Rightarrow> object \<Rightarrow> string list res" where
  "image_document g display fmt data =
     (case fmt of (format_name, header_field, header_value, collection) \<Rightarrow>
       then_check
         (Inr (flag (dict_get_or JNull data header_field \<noteq> JStr header_value \<or> \<not> nonempty_list (dict_get_or JNull data collection))
             (''Invalid '' @ format_name @ '' image SBOM content: '' @ display) @
           flag (search_ignoring_case n8n_word (dumps_sorted (dict_get_or (JList []) data collection)))
             (''Forbidden component in image SBOM: '' @ display)))
         (if format_name = ''spdx'' then unknown_licenses g display data else Inr []))"

definition image_file ::
  "gate \<Rightarrow> path \<Rightarrow> path \<Rightarrow> string \<Rightarrow> object \<Rightarrow> string \<times> string \<times> string \<times> string \<Rightarrow> string list res" where
  "image_file g evidence image_root display entry fmt =
     (let format_name = fst fmt in
      case dict_get_or JNull entry format_name of
        JObj descriptor \<Rightarrow>
          rbind (gv_resolve g (path_join evidence (str_field g descriptor ''path'' []))) (\<lambda>target.
          if \<not> path_below image_root target then Inr [''Image SBOM path escapes evidence directory: '' @ display]
          else if \<not> is_file g target \<or> is_empty_file g target
          then Inr [''Missing '' @ format_name @ '' image SBOM: '' @ display]
          else rbind (sha256_file g target) (\<lambda>d.
          if dict_get_or JNull descriptor ''sha256'' \<noteq> JStr d
          then Inr [''Image SBOM file digest mismatch: '' @ display @ ''.'' @ format_name]
          else rbind (load_json g target (display @ '' '' @ format_name @ '' image SBOM'')) (\<lambda>(data, es).
          case data of None \<Rightarrow> Inr es | Some kvs \<Rightarrow> image_document g display fmt kvs)))
      | _ \<Rightarrow> Inr [''Missing '' @ format_name @ '' image SBOM descriptor: '' @ display])"

definition image_item ::
  "gate \<Rightarrow> path \<Rightarrow> path \<Rightarrow> (string, object) dict \<Rightarrow> string \<times> object \<Rightarrow> string list res" where
  "image_item g evidence image_root by_name item =
     (case item of (name, kvs) \<Rightarrow>
       (let display = str_field g kvs ''name'' name in
        case map_of by_name name of
          None \<Rightarrow> Inr [''OCI component missing image SBOMs: '' @ display]
        | Some entry \<Rightarrow>
            then_check
              (Inr (flag (\<not> json_equal (dict_get_or JNull entry ''image_id'') (dict_get_or JNull kvs ''digest''))
                (''Image SBOM digest mismatch: '' @ display)))
              (collect (image_file g evidence image_root display entry) image_formats)))"

definition oci_components :: "gate \<Rightarrow> json list \<Rightarrow> (string, object) dict" where
  "oci_components g items =
     dict_of (map (\<lambda>kvs. (folded_name g kvs, kvs)) (filter (\<lambda>kvs. dict_get_or JNull kvs ''kind'' = JStr ''oci-image'') (objects items)))"

definition image_entries :: "gate \<Rightarrow> path \<Rightarrow> object \<Rightarrow> json list \<Rightarrow> string list res" where
  "image_entries g evidence lock images =
     (let by_name = entries_by (folded_name g) images in
      then_check
        (Inr (map (\<lambda>name. ''Duplicate image in SBOM manifest: '' @ name) (named_duplicates (map (folded_name g) (objects images)))))
        (rbind (lock_components lock) (\<lambda>items.
         rbind (gv_resolve g (evidence @ [''image-sboms''])) (\<lambda>image_root.
         let oci = oci_components g items in
         then_check (collect (image_item g evidence image_root by_name) oci)
           (Inr (map (\<lambda>name. ''Image SBOM is absent from component lock: '' @ name)
             (sort (filter (\<lambda>name. name \<notin> set (map fst oci)) (map fst by_name)))))))))"

definition validate_image_sboms :: "gate \<Rightarrow> path \<Rightarrow> object option \<Rightarrow> string list res" where
  "validate_image_sboms g evidence lock =
     rbind (load_json g (evidence @ [''image-sboms'', ''manifest.json'']) ''image SBOM manifest'') (\<lambda>(manifest, es).
     case manifest of
       None \<Rightarrow> Inr es
     | Some m \<Rightarrow> with_lock lock (\<lambda>kvs.
         then_check
           (Inr (flag (\<not> scanner_fixed g (dict_get_or JNull m ''scanner'')) ''Image SBOM manifest lacks a fixed scanner version''))
           (case dict_get_or JNull m ''images'' of
              JList images \<Rightarrow> image_entries g evidence kvs images
            | _ \<Rightarrow> Inr [''Image SBOM manifest images must be an array''])))"

section \<open>The attestation\<close>

definition approval_roles :: "string set" where
  "approval_roles = {''release'', ''security'', ''legal''}"

definition evidence_files :: "(string \<times> string) list" where
  "evidence_files =
     [(''sbom.cdx.json'', ''file''), (''sbom.spdx.json'', ''file''), (''image-sboms'', ''directory''),
      (''THIRD_PARTY_NOTICES.md'', ''file''), (''LICENSES'', ''directory''), (''corresponding-source'', ''directory''),
      (''component-lock.json'', ''file'')]"

text \<open>
  The payload is the text of canonical.py for the subject and the artifacts; a lone surrogate has no
  encoding.
\<close>

definition signed_payload :: "object \<Rightarrow> bytes res" where
  "signed_payload attestation =
     (let payload = canonical_json (JObj [(''subject'', dict_get_or JNull attestation ''subject''),
            (''artifacts'', dict_get_or JNull attestation ''artifacts'')])
      in if utf8_ok payload then Inr payload else raise ValueError ''surrogates not allowed'')"

text \<open>
  \<open>base64.b64decode(text, validate=True)\<close>: the strict mode of \<open>binascii.a2b_base64\<close> in Python 3.12. \<open>q\<close> is the
  position in the quad, \<open>l\<close> the bits left over, \<open>p\<close> the padding seen, \<open>started\<close> whether there was any.
\<close>

fun strict_loop :: "nat \<Rightarrow> nat \<Rightarrow> nat \<Rightarrow> bool \<Rightarrow> string \<Rightarrow> bytes option" where
  "strict_loop q l p started [] = (if q = 0 then Some [] else None)"
| "strict_loop q l p started (c # cs) =
     (if c = CHR ''='' then
        (if 2 \<le> q \<and> 4 \<le> q + (p + 1) then (if cs = [] then Some [] else None)
         else strict_loop q l (if 2 \<le> q then p + 1 else p) True cs)
      else if c = CHR ''-'' \<or> c = CHR ''_'' \<or> started then None
      else (case b64_val c of
          None \<Rightarrow> None
        | Some v \<Rightarrow>
            if q = 0 then strict_loop 1 v 0 False cs
            else if q = 1 then map_option ((#) (char_of (l * 4 + v div 16))) (strict_loop 2 (v mod 16) 0 False cs)
            else if q = 2 then map_option ((#) (char_of (l * 16 + v div 4))) (strict_loop 3 (v mod 4) 0 False cs)
            else map_option ((#) (char_of (l * 64 + v))) (strict_loop 0 0 0 False cs)))"

definition b64_strict :: "string \<Rightarrow> bytes option" where
  "b64_strict s = (if \<not> starts_with s ''='' then strict_loop 0 0 0 False s else None)"

definition zulu_offset :: "string \<Rightarrow> string" where
  "zulu_offset s = concat (map (\<lambda>c. if c = CHR ''Z'' then ''+00:00'' else [c]) s)"

definition signed_in_past :: "gate \<Rightarrow> string \<Rightarrow> bool" where
  "signed_in_past g signed_at =
     (case gv_fromiso g (zulu_offset signed_at) of None \<Rightarrow> False | Some (aware, moment) \<Rightarrow> aware \<and> moment \<le> gv_now g)"

definition signer_key :: "path \<Rightarrow> string \<Rightarrow> path" where
  "signer_key base role = base @ [''release'', ''trusted-signers'', role @ ''.pem'']"

definition approval_role :: "gate \<Rightarrow> object \<Rightarrow> string" where
  "approval_role g approval = py_lower (str_field g approval ''role'' [])"

definition approval_signer :: "gate \<Rightarrow> object \<Rightarrow> string" where
  "approval_signer g approval = py_strip (str_field g approval ''signer'' [])"

definition verify_signature :: "gate \<Rightarrow> path \<Rightarrow> string \<Rightarrow> string \<Rightarrow> bytes \<Rightarrow> string list" where
  "verify_signature g base role encoded payload =
     (if \<not> is_file g (signer_key base role) then [''Missing trusted signer key: release/trusted-signers/'' @ role @ ''.pem'']
      else (case b64_strict encoded of
        None \<Rightarrow> [''Invalid base64 signature for '' @ role]
      | Some signature \<Rightarrow>
          (case gv_openssl g (signer_key base role) signature payload of
             Inl m \<Rightarrow> [''Could not verify '' @ role @ '' signature: '' @ m]
           | Inr returncode \<Rightarrow> flag (returncode \<noteq> 0) (''Invalid cryptographic signature for '' @ role))))"

definition verify_approval :: "gate \<Rightarrow> path \<Rightarrow> object \<Rightarrow> bytes \<Rightarrow> string list" where
  "verify_approval g base approval payload =
     (let role = approval_role g approval; signed_at = py_strip (str_field g approval ''signed_at'' []);
          encoded = py_strip (str_field g approval ''signature_base64'' []) in
      if role \<notin> approval_roles \<or> approval_signer g approval = [] \<or> signed_at = [] \<or> encoded = []
      then [''Invalid '' @ (if role = [] then ''unknown'' else role) @ '' approval metadata'']
      else if \<not> signed_in_past g signed_at then [''Invalid signed_at timestamp for '' @ role]
      else verify_signature g base role encoded payload)"

definition check_subject :: "gate \<Rightarrow> object \<Rightarrow> path option \<Rightarrow> string list res" where
  "check_subject g attestation artifact =
     (case artifact of
        None \<Rightarrow> Inr [''Final distribution artifact was not supplied with --artifact'']
      | Some p \<Rightarrow>
          if \<not> is_file g p \<or> is_empty_file g p then Inr [''Final distribution artifact is missing or empty: '' @ path_text p]
          else (case dict_get_or JNull attestation ''subject'' of
             JObj subject \<Rightarrow>
               if py_strip (str_field g subject ''name'' []) = []
               then Inr [''Attestation subject digest does not match final distribution artifact'']
               else rbind (sha256_file g p) (\<lambda>d.
                 Inr (flag (dict_get_or JNull subject ''sha256'' \<noteq> JStr d)
                   ''Attestation subject digest does not match final distribution artifact''))
           | _ \<Rightarrow> Inr [''Attestation subject digest does not match final distribution artifact'']))"

definition check_artifact :: "gate \<Rightarrow> path \<Rightarrow> (string, object) dict \<Rightarrow> string \<Rightarrow> string list res" where
  "check_artifact g evidence by_path relative =
     (case map_of by_path relative of
        None \<Rightarrow> Inr [''Attestation does not bind artifact: '' @ relative]
      | Some item \<Rightarrow> rbind (artifact_sha256 g (evidence @ [relative])) (\<lambda>d.
          Inr (flag (dict_get_or JNull item ''sha256'' \<noteq> JStr d) (''Attestation digest mismatch: '' @ relative))))"

definition check_artifacts :: "gate \<Rightarrow> path \<Rightarrow> object \<Rightarrow> string list res" where
  "check_artifacts g evidence attestation =
     (case dict_get_or JNull attestation ''artifacts'' of
        JList recorded \<Rightarrow>
          then_check
            (Inr (map (\<lambda>name. ''Duplicate artifact in attestation: '' @ name)
              (duplicates (map (str_or_none g ''path'') (objects recorded)))))
            (collect (check_artifact g evidence (entries_by (str_or_none g ''path'') recorded)) (map fst evidence_files))
      | _ \<Rightarrow> Inr [''Attestation artifacts must be an array''])"

definition check_approvals :: "gate \<Rightarrow> path \<Rightarrow> object \<Rightarrow> object list \<Rightarrow> string list res" where
  "check_approvals g base attestation approvals =
     (let roles = map (approval_role g) approvals; signers = map (\<lambda>a. py_lower (approval_signer g a)) approvals in
      rbind (signed_payload attestation) (\<lambda>payload.
      Inr (map (\<lambda>role. ''Duplicate attestation approval: '' @ role) (named_duplicates roles) @
        map (\<lambda>role. ''Missing attestation approval: '' @ role)
          (filter (\<lambda>role. role \<notin> set roles) [''legal'', ''release'', ''security'']) @
        map (\<lambda>signer. ''Signer cannot approve multiple independent roles: '' @ signer) (named_duplicates signers) @
        concat (map (\<lambda>approval. verify_approval g base approval payload) approvals))))"

definition validate_attestation :: "gate \<Rightarrow> path \<Rightarrow> path \<Rightarrow> path option \<Rightarrow> string list res" where
  "validate_attestation g base evidence artifact =
     rbind (load_json g (evidence @ [''attestation.json'']) ''attestation'') (\<lambda>(attestation, es).
     case attestation of
       None \<Rightarrow> Inr es
     | Some att \<Rightarrow>
         then_check (Inr (flag (\<not> equals_int (dict_get_or JNull att ''schema_version'') 1) ''Invalid attestation schema_version''))
         (then_check (check_subject g att artifact)
         (then_check (check_artifacts g evidence att)
           (case dict_get_or JNull att ''approvals'' of
              JList approvals \<Rightarrow> check_approvals g base att (objects approvals)
            | _ \<Rightarrow> Inr [''Attestation approvals must be an array'']))))"

section \<open>The gate\<close>

definition present :: "gate \<Rightarrow> path \<Rightarrow> string \<times> string \<Rightarrow> string list" where
  "present g evidence item =
     (case item of (relative, kind) \<Rightarrow>
       (let p = evidence @ [relative]; shown = ''release/evidence/'' @ relative in
        if \<not> (if kind = ''file'' then is_file g p else gv_stat g p = Folder) then [''Missing distribution artifact: '' @ shown]
        else if (if is_file g p then is_empty_file g p else files_below g p = []) then [''Empty distribution artifact: '' @ shown]
        else []))"

definition missing_evidence :: "gate \<Rightarrow> path \<Rightarrow> string list" where
  "missing_evidence g evidence =
     concat (map (present g evidence) evidence_files) @
     flag (\<not> is_file g (evidence @ [''attestation.json''])) ''Missing distribution artifact: release/evidence/attestation.json''"

definition evidence_errors :: "gate \<Rightarrow> path \<Rightarrow> path \<Rightarrow> path option \<Rightarrow> object option \<Rightarrow> string list res" where
  "evidence_errors g base evidence artifact lock =
     then_check (validate_sbom g (evidence @ [''sbom.cdx.json'']) lock)
     (then_check (validate_spdx g (evidence @ [''sbom.spdx.json'']) lock)
     (then_check (validate_image_sboms g evidence lock)
     (then_check (validate_licenses g evidence lock)
     (then_check (validate_notices g evidence lock)
     (then_check (validate_corresponding_source g evidence lock)
       (validate_attestation g base evidence artifact))))))"

definition distribution_errors :: "gate \<Rightarrow> path \<Rightarrow> path option \<Rightarrow> string list res" where
  "distribution_errors g base artifact =
     (let evidence = base @ [''release'', ''evidence''] in
      if missing_evidence g evidence \<noteq> [] then Inr (missing_evidence g evidence)
      else rbind (validate_lock g (evidence @ [''component-lock.json''])) (\<lambda>(lock, es).
        then_check (Inr es) (evidence_errors g base evidence artifact lock)))"

text \<open>\<open>main()\<close> with parsed arguments: what it prints, and the exit code. The resolved artifact is the path of \<open>--artifact\<close>.\<close>

definition gate_errors :: "gate \<Rightarrow> path \<Rightarrow> bool \<Rightarrow> path option \<Rightarrow> string list res" where
  "gate_errors g base distribution artifact =
     then_check (scan_source g base)
       (if distribution
        then rbind (case artifact of None \<Rightarrow> Inr None | Some p \<Rightarrow> rbind (gv_resolve g p) (\<lambda>q. Inr (Some q))) (distribution_errors g base)
        else Inr [])"

definition gate_main :: "gate \<Rightarrow> path \<Rightarrow> bool \<Rightarrow> path option \<Rightarrow> (string list \<times> int) res" where
  "gate_main g base distribution artifact =
     rbind (gate_errors g base distribution artifact) (\<lambda>errors.
       if errors \<noteq> [] then Inr (''COMPLIANCE GATE: BLOCKED'' # map (\<lambda>e. ''- '' @ e) errors, 1)
       else Inr ([''COMPLIANCE GATE: PASS ('' @ (if distribution then ''distribution'' else ''source'') @ '')''], 0))"

end
