(* ===== verification/ReleaseFacts.thy ===== *)
theory ReleaseFacts
  imports ReleaseGate JsonRoundtrip
begin

text \<open>
  What a passing gate shows: the lock pins every component, the documents agree with it, the license
  texts are those of the lock, and the release is bound to the attestation that three different people
  signed. Also where the gate does not see what it means to refuse.
\<close>

section \<open>Checks without a message\<close>

named_theorems gate_simps \<open>when a check of the gate has no message\<close>

lemma flag_Nil [gate_simps]: "flag b m = [] \<longleftrightarrow> \<not> b"
  by (simp add: flag_def)

lemma collect_Nil [gate_simps]: "collect f xs = Inr [] \<longleftrightarrow> (\<forall>x \<in> set xs. f x = Inr [])"
  by (induction xs) (auto simp: rbind_Inr_iff)

lemma then_check_Nil [gate_simps]: "then_check a b = Inr [] \<longleftrightarrow> a = Inr [] \<and> b = Inr []"
  by (auto simp: then_check_def rbind_Inr_iff)

lemma with_lock_Nil [gate_simps]: "with_lock (Some kvs) f = Inr [] \<longleftrightarrow> kvs = [] \<or> f kvs = Inr []"
  by (simp add: with_lock_def)

lemma duplicates_Nil [gate_simps]: "duplicates xs = [] \<longleftrightarrow> distinct xs"
proof -
  have "distinct xs \<longleftrightarrow> (\<forall>x \<in> set xs. \<not> 1 < count_list xs x)"
    by (induction xs) (auto simp: count_list_0_iff not_less le_Suc_eq split: if_splits)
  moreover have "duplicates xs = [] \<longleftrightarrow> set (duplicates xs) = {}" by simp
  ultimately show ?thesis by (simp add: duplicates_def) blast
qed

lemma named_duplicates_Nil: "named_duplicates xs = [] \<Longrightarrow> [] \<notin> set xs \<Longrightarrow> distinct xs"
proof -
  assume n: "named_duplicates xs = []" and e: "[] \<notin> set xs"
  have "set (duplicates xs) \<subseteq> set xs" by (auto simp: duplicates_def)
  moreover have "\<forall>x \<in> set (duplicates xs). x = []" using n by (simp add: named_duplicates_def filter_empty_conv)
  ultimately have "set (duplicates xs) = {}" using e by (metis equals0I subsetD)
  then show ?thesis by (simp add: gate_simps)
qed

lemma dict_get_or_str: "dict_get_or JNull d k = JStr v \<longleftrightarrow> map_of d k = Some (JStr v)"
  by (auto simp: dict_get_or_def split: option.splits)

lemma case_list_Nil [gate_simps]:
  "(case j of JList (x # xs) \<Rightarrow> f x xs | _ \<Rightarrow> [m]) = [] \<longleftrightarrow> (\<exists>x xs. j = JList (x # xs) \<and> f x xs = [])"
  "(case j of JList (x # xs) \<Rightarrow> h x xs | _ \<Rightarrow> Inr [m]) = Inr [] \<longleftrightarrow> (\<exists>x xs. j = JList (x # xs) \<and> h x xs = Inr [])"
  "(case j of JList vs \<Rightarrow> k vs | _ \<Rightarrow> Inr [m]) = Inr [] \<longleftrightarrow> (\<exists>vs. j = JList vs \<and> k vs = Inr [])"
proof -
  show "(case j of JList (x # xs) \<Rightarrow> f x xs | _ \<Rightarrow> [m]) = [] \<longleftrightarrow> (\<exists>x xs. j = JList (x # xs) \<and> f x xs = [])"
    "(case j of JList (x # xs) \<Rightarrow> h x xs | _ \<Rightarrow> Inr [m]) = Inr [] \<longleftrightarrow> (\<exists>x xs. j = JList (x # xs) \<and> h x xs = Inr [])"
    by (cases j; cases "listed j"; simp add: listed_def)+
qed (cases j; simp)

lemma load_json_Some:
  assumes "load_json g p label = Inr (Some kvs, es)"
  shows "es = [] \<and> (\<exists>bs. gv_read g p = Inr bs \<and> json_loads (newlines bs) = Some (JObj kvs))"
  using assms by (auto simp: load_json_def split: sum.splits option.splits json.splits if_splits)

lemma load_json_messages:
  assumes "load_json g p label = Inr (None, es)"
  shows "es \<noteq> []"
  using assms by (auto simp: load_json_def split: sum.splits option.splits json.splits if_splits)

section \<open>The component lock\<close>

lemma pending_unspaced: "w \<in> pending \<Longrightarrow> c \<in> set w \<Longrightarrow> \<not> is_space c"
  by (auto simp: pending_def is_space_def)

lemma upper_space: "is_space c \<Longrightarrow> ascii_upper c = c"
  by (auto simp: is_space_def ascii_upper_def)

lemma upper_pending_strip:
  assumes "py_upper s \<in> pending"
  shows "py_strip s = s"
proof (rule py_strip_id, intro ballI notI)
  fix c assume "c \<in> set s" "is_space c"
  then have "c \<in> set (py_upper s)" using upper_space by (force simp: py_upper_def image_iff)
  then show False using pending_unspaced [OF assms] \<open>is_space c\<close> by blast
qed

lemma unpinned_Nil:
  "unpinned_fields g name item = [] \<longleftrightarrow>
    (\<forall>field \<in> set lock_fields. py_upper (py_strip (str_field g item field [])) \<notin> pending)"
  by (simp add: unpinned_fields_def gate_simps)

text \<open>What the gate asks of one component.\<close>

definition pinned :: "gate \<Rightarrow> object \<Rightarrow> bool" where
  "pinned g item \<longleftrightarrow>
     (\<forall>field \<in> set lock_fields. py_upper (py_strip (str_field g item field [])) \<notin> pending) \<and>
     sha256_reference (str_field g item ''digest'' []) \<and> hex64 (str_field g item ''license_text_sha256'' []) \<and>
     \<not> license_is_unresolved g (dict_get_or JNull item ''license_spdx'') \<and>
     \<not> search_ignoring_case n8n_word (dumps_sorted (JObj item))"

lemma lock_checks_pinned:
  assumes "unpinned_fields g name item = []" "lock_digests g name' item = []" "lock_references g name'' item = []"
  shows "pinned g item"
proof -
  have f: "\<forall>field \<in> set lock_fields. py_upper (py_strip (str_field g item field [])) \<notin> pending"
    using assms(1) by (simp add: unpinned_Nil)
  have upper: "py_upper (str_field g item field []) \<notin> pending" if "field \<in> set lock_fields" for field
    using f upper_pending_strip that by fastforce
  have "py_upper (str_field g item ''digest'' []) \<notin> pending" "py_upper (str_field g item ''license_text_sha256'' []) \<notin> pending"
    by (intro upper; simp add: lock_fields_def)+
  moreover from this have "str_field g item ''digest'' [] \<noteq> []" "str_field g item ''license_text_sha256'' [] \<noteq> []"
    by (auto simp: py_upper_def pending_def)
  ultimately show ?thesis using assms(2,3) f
    by (simp add: pinned_def lock_digests_def lock_references_def Let_def gate_simps)
qed

lemma lock_name_pinned:
  assumes "pinned g item"
  shows "lock_name g index item = py_strip (str_field g item ''name'' [])" "str_field g item ''name'' [] \<noteq> []"
proof -
  have "''name'' \<in> set lock_fields" by (simp add: lock_fields_def)
  then have p: "py_upper (py_strip (str_field g item ''name'' [])) \<notin> pending" using assms by (auto simp: pinned_def)
  have e: "py_upper (py_strip []) \<in> pending" by (simp add: py_upper_def py_strip_def pending_def)
  then show "str_field g item ''name'' [] \<noteq> []" using p by metis
  then show "lock_name g index item = py_strip (str_field g item ''name'' [])"
    by (auto simp: lock_name_def str_field_def dict_get_or_def split: option.splits)
qed

definition stripped_name :: "gate \<Rightarrow> object \<Rightarrow> string" where
  "stripped_name g item = py_lower (py_strip (str_field g item ''name'' []))"

lemma lock_items_Nil:
  "lock_items g seen index items = [] \<Longrightarrow>
    \<exists>objs. items = map JObj objs \<and> list_all (pinned g) objs \<and> distinct (map (stripped_name g) objs) \<and>
      set (map (stripped_name g) objs) \<inter> seen = {}"
proof (induction g seen index items rule: lock_items.induct)
  case (2 g seen index item items)
  have p: "pinned g item" using 2(2) lock_checks_pinned by (auto simp: Let_def)
  have n: "py_lower (lock_name g index item) = stripped_name g item"
    using lock_name_pinned [OF p] by (simp add: stripped_name_def)
  obtain objs where o: "items = map JObj objs" "list_all (pinned g) objs" "distinct (map (stripped_name g) objs)"
      "set (map (stripped_name g) objs) \<inter> insert (stripped_name g item) seen = {}"
    using 2 n by (auto simp: Let_def)
  moreover have "stripped_name g item \<notin> seen" using 2(2) n by (simp add: Let_def gate_simps)
  ultimately show ?case using p by (intro exI [of _ "item # objs"]) auto
qed simp_all

text \<open>
  C31: a component lock without complaint is approved and names at least one component; every component is
  an object with all twelve fields filled in, a SHA-256 digest for its artifact and for its license
  text and a license that is not one of the unresolved marks; the JSON text of a component does not have
  n8n as a word of its own; and no two components have the same name.
\<close>

theorem accepted_lock_pinned:
  assumes "lock_errors g lock = []"
  shows "map_of lock ''release_status'' = Some (JStr ''approved'') \<and>
    (\<exists>objs. map_of lock ''components'' = Some (JList (map JObj objs)) \<and> objs \<noteq> [] \<and> list_all (pinned g) objs \<and>
      distinct (map (stripped_name g) objs))"
proof
  let ?j = "dict_get_or JNull lock ''components''"
  have l: "lock_errors g lock = [] \<longleftrightarrow> dict_get_or JNull lock ''release_status'' = JStr ''approved'' \<and>
      (\<exists>item items. ?j = JList (item # items) \<and> lock_items g {} 0 (item # items) = [])"
    unfolding lock_errors_def append_is_Nil_conv case_list_Nil flag_Nil not_not by (rule refl)
  show "map_of lock ''release_status'' = Some (JStr ''approved'')"
    using iffD1 [OF l assms, THEN conjunct1] unfolding dict_get_or_str .
  obtain item items' where c': "?j = JList (item # items')" "lock_items g {} 0 (item # items') = []"
    using iffD1 [OF l assms, THEN conjunct2] by (elim exE conjE) (rule that)
  define items where "items = item # items'"
  then have c: "?j = JList items" "items \<noteq> []" "lock_items g {} 0 items = []" using c' by (simp_all only: list.distinct not_False_eq_True)
  obtain objs where o: "items = map JObj objs" "list_all (pinned g) objs" "distinct (map (stripped_name g) objs)"
    using lock_items_Nil [OF c(3)] by metis
  moreover have "map_of lock ''components'' = Some (JList items)"
    using c(1) by (cases "map_of lock ''components''") (simp_all add: dict_get_or_def)
  moreover have "objs \<noteq> []" using c(2) o(1) by simp
  ultimately show "\<exists>objs. map_of lock ''components'' = Some (JList (map JObj objs)) \<and> objs \<noteq> [] \<and> list_all (pinned g) objs \<and>
      distinct (map (stripped_name g) objs)" by metis
qed

section \<open>The attestation\<close>

text \<open>The approval of a role was verified with openssl, under the key of the role, over a payload.\<close>

definition verified_by :: "gate \<Rightarrow> path \<Rightarrow> bytes \<Rightarrow> object \<Rightarrow> bool" where
  "verified_by g base payload approval \<longleftrightarrow>
     approval_role g approval \<in> approval_roles \<and> approval_signer g approval \<noteq> [] \<and>
     signed_in_past g (py_strip (str_field g approval ''signed_at'' [])) \<and>
     is_file g (signer_key base (approval_role g approval)) \<and>
     (\<exists>signature. b64_strict (py_strip (str_field g approval ''signature_base64'' [])) = Some signature \<and>
        gv_openssl g (signer_key base (approval_role g approval)) signature payload = Inr 0)"

lemma verify_signature_Nil:
  "verify_signature g base role encoded payload = [] \<longleftrightarrow>
     is_file g (signer_key base role) \<and>
     (\<exists>signature. b64_strict encoded = Some signature \<and> gv_openssl g (signer_key base role) signature payload = Inr 0)"
  by (auto simp: verify_signature_def gate_simps split: option.splits sum.splits)

lemma verify_approval_Nil:
  assumes "verify_approval g base approval payload = []"
  shows "verified_by g base payload approval"
  using assms unfolding verify_approval_def Let_def verified_by_def by (auto simp: verify_signature_Nil split: if_splits)

lemma attestation_checked:
  assumes "validate_attestation g base evidence artifact = Inr []"
  shows "\<exists>bs att approvals. gv_read g (evidence @ [''attestation.json'']) = Inr bs \<and> json_loads (newlines bs) = Some (JObj att) \<and>
    check_subject g att artifact = Inr [] \<and> check_artifacts g evidence att = Inr [] \<and>
    dict_get_or JNull att ''approvals'' = JList approvals \<and> check_approvals g base att (objects approvals) = Inr []"
proof -
  obtain att es where l: "load_json g (evidence @ [''attestation.json'']) ''attestation'' = Inr (att, es)"
    using assms by (auto simp: validate_attestation_def rbind_Inr_iff)
  show ?thesis
  proof (cases att)
    case None
    then have "es \<noteq> []" using load_json_messages l by blast
    then show ?thesis using assms l None by (simp add: validate_attestation_def)
  next
    case (Some kvs)
    then have "check_subject g kvs artifact = Inr [] \<and> check_artifacts g evidence kvs = Inr [] \<and>
        (\<exists>approvals. dict_get_or JNull kvs ''approvals'' = JList approvals \<and> check_approvals g base kvs (objects approvals) = Inr [])"
      using assms l unfolding validate_attestation_def by (simp add: gate_simps)
    then show ?thesis using load_json_Some l Some by blast
  qed
qed

lemma check_approvals_Nil:
  assumes "check_approvals g base att approvals = Inr []"
  shows "\<exists>payload. signed_payload att = Inr payload \<and> (\<forall>a \<in> set approvals. verified_by g base payload a) \<and>
    distinct (map (approval_role g) approvals) \<and> distinct (map (\<lambda>a. py_lower (approval_signer g a)) approvals) \<and>
    set (map (approval_role g) approvals) = approval_roles"
proof -
  let ?roles = "map (approval_role g) approvals" and ?signers = "map (\<lambda>a. py_lower (approval_signer g a)) approvals"
  obtain payload where p: "signed_payload att = Inr payload" "named_duplicates ?roles = []" "named_duplicates ?signers = []"
      "filter (\<lambda>role. role \<notin> set ?roles) [''legal'', ''release'', ''security''] = []"
      "\<forall>a \<in> set approvals. verify_approval g base a payload = []"
    using assms unfolding check_approvals_def Let_def rbind_Inr_iff by auto
  then have v: "\<forall>a \<in> set approvals. verified_by g base payload a" using verify_approval_Nil by blast
  then have "[] \<notin> set ?roles" "[] \<notin> set ?signers"
    by (auto simp: verified_by_def approval_roles_def py_lower_def)
  then have "distinct ?roles" "distinct ?signers" using p named_duplicates_Nil by blast+
  moreover have "set ?roles = approval_roles"
    using v p(4) by (auto simp: verified_by_def approval_roles_def filter_empty_conv split: if_splits)
  ultimately show ?thesis using p v by blast
qed

text \<open>
  C15: when the attestation passes, exactly one approval of each of the roles release, security and legal
  is on it, the three signers are different people, and openssl verified the signature of each, with
  the key kept for the role, over the canonical text of the subject and the artifacts.
\<close>

theorem release_signed_by_three:
  assumes "validate_attestation g base evidence artifact = Inr []"
  shows "\<exists>bs att approvals payload.
    gv_read g (evidence @ [''attestation.json'']) = Inr bs \<and> json_loads (newlines bs) = Some (JObj att) \<and>
    map_of att ''approvals'' = Some (JList approvals) \<and> signed_payload att = Inr payload \<and>
    length (objects approvals) = 3 \<and> set (map (approval_role g) (objects approvals)) = approval_roles \<and>
    distinct (map (\<lambda>a. py_lower (approval_signer g a)) (objects approvals)) \<and>
    list_all (verified_by g base payload) (objects approvals)"
proof -
  obtain bs att approvals where a: "gv_read g (evidence @ [''attestation.json'']) = Inr bs" "json_loads (newlines bs) = Some (JObj att)"
      "dict_get_or JNull att ''approvals'' = JList approvals" "check_approvals g base att (objects approvals) = Inr []"
    using attestation_checked [OF assms] by blast
  obtain payload where c: "signed_payload att = Inr payload" "\<forall>a \<in> set (objects approvals). verified_by g base payload a"
      "distinct (map (approval_role g) (objects approvals))" "distinct (map (\<lambda>a. py_lower (approval_signer g a)) (objects approvals))"
      "set (map (approval_role g) (objects approvals)) = approval_roles"
    using check_approvals_Nil [OF a(4)] by blast
  have "map_of att ''approvals'' = Some (JList approvals)"
    using a(3) by (cases "map_of att ''approvals''") (simp_all add: dict_get_or_def)
  moreover have "length (objects approvals) = card approval_roles"
    using distinct_card [OF c(3)] c(5) by simp
  moreover have "card approval_roles = 3" by (simp add: approval_roles_def)
  ultimately show ?thesis using a c by (auto simp: list_all_iff)
qed

lemma map_of_dict_of: "map_of (dict_of kvs) k = Some v \<Longrightarrow> (k, v) \<in> set kvs"
proof -
  have "map_of (foldl (\<lambda>d (k, v). dict_set k v d) d kvs) k = Some v \<Longrightarrow> (k, v) \<in> set kvs \<or> map_of d k = Some v" for d
    by (induction kvs arbitrary: d) (fastforce simp: dict_simps split: if_splits)+
  from this [of "[]"] show "map_of (dict_of kvs) k = Some v \<Longrightarrow> ?thesis" by (simp add: dict_of_def)
qed

lemma map_of_entries: "map_of (entries_by key items) k = Some entry \<Longrightarrow> entry \<in> set (objects items) \<and> key entry = k"
  unfolding entries_by_def by (drule map_of_dict_of) auto

lemma objects_mem: "kvs \<in> set (objects items) \<longleftrightarrow> JObj kvs \<in> set items"
  by (induction items rule: objects.induct) auto

lemma objects_map [simp]: "objects (map JObj objs) = objs"
  by (induction objs) simp_all

lemma sha256_file_Inr: "sha256_file g p = Inr d \<longleftrightarrow> (\<exists>bs. gv_read g p = Inr bs \<and> d = sha256_hexdigest bs)"
  by (auto simp: sha256_file_def rbind_Inr_iff)

lemma check_subject_Nil:
  assumes "check_subject g att (Some p) = Inr []"
  shows "\<exists>subject contents. map_of att ''subject'' = Some (JObj subject) \<and> gv_read g p = Inr contents \<and>
    map_of subject ''sha256'' = Some (JStr (sha256_hexdigest contents)) \<and> \<not> is_empty_file g p"
proof -
  obtain subject where s: "dict_get_or JNull att ''subject'' = JObj subject" "\<not> is_empty_file g p"
      "rbind (sha256_file g p) (\<lambda>d. Inr (flag (dict_get_or JNull subject ''sha256'' \<noteq> JStr d)
         ''Attestation subject digest does not match final distribution artifact'')) = Inr []"
    using assms by (auto simp: check_subject_def split: if_splits json.splits)
  obtain contents where "gv_read g p = Inr contents" "dict_get_or JNull subject ''sha256'' = JStr (sha256_hexdigest contents)"
    using s(3) by (auto simp: rbind_Inr_iff sha256_file_Inr gate_simps)
  moreover have "map_of att ''subject'' = Some (JObj subject)"
    using s(1) by (cases "map_of att ''subject''") (simp_all add: dict_get_or_def)
  ultimately show ?thesis using s(2) by (auto simp: dict_get_or_str)
qed

lemma check_artifact_Nil:
  assumes "check_artifact g evidence (entries_by (str_or_none g ''path'') recorded) relative = Inr []"
  shows "\<exists>item d. JObj item \<in> set recorded \<and> str_or_none g ''path'' item = relative \<and>
    artifact_sha256 g (evidence @ [relative]) = Inr d \<and> map_of item ''sha256'' = Some (JStr d)"
  using assms
  by (auto simp: check_artifact_def rbind_Inr_iff gate_simps dict_get_or_str objects_mem dest!: map_of_entries split: option.splits)

text \<open>
  C16: when the attestation passes, its subject carries the digest of the very artifact that is delivered,
  which is not empty, and its artifacts the digest of each of the seven pieces of evidence as they are
  in the evidence directory.
\<close>

theorem attestation_binds_release:
  assumes "validate_attestation g base evidence (Some artifact) = Inr []"
  shows "\<exists>bs att subject recorded contents.
    gv_read g (evidence @ [''attestation.json'']) = Inr bs \<and> json_loads (newlines bs) = Some (JObj att) \<and>
    map_of att ''subject'' = Some (JObj subject) \<and> map_of att ''artifacts'' = Some (JList recorded) \<and>
    gv_read g artifact = Inr contents \<and> map_of subject ''sha256'' = Some (JStr (sha256_hexdigest contents)) \<and>
    \<not> is_empty_file g artifact \<and>
    list_all (\<lambda>(relative, kind). \<exists>item d. JObj item \<in> set recorded \<and> str_or_none g ''path'' item = relative \<and>
      artifact_sha256 g (evidence @ [relative]) = Inr d \<and> map_of item ''sha256'' = Some (JStr d)) evidence_files"
proof -
  obtain bs att where a: "gv_read g (evidence @ [''attestation.json'']) = Inr bs" "json_loads (newlines bs) = Some (JObj att)"
      "check_subject g att (Some artifact) = Inr []" "check_artifacts g evidence att = Inr []"
    using attestation_checked [OF assms] by blast
  obtain recorded where r: "dict_get_or JNull att ''artifacts'' = JList recorded"
      "\<forall>relative \<in> set (map fst evidence_files).
         check_artifact g evidence (entries_by (str_or_none g ''path'') recorded) relative = Inr []"
    using a(4) unfolding check_artifacts_def case_list_Nil then_check_Nil collect_Nil by blast
  have "map_of att ''artifacts'' = Some (JList recorded)"
    using r(1) by (cases "map_of att ''artifacts''") (simp_all add: dict_get_or_def)
  moreover have "list_all (\<lambda>(relative, kind). \<exists>item d. JObj item \<in> set recorded \<and> str_or_none g ''path'' item = relative \<and>
      artifact_sha256 g (evidence @ [relative]) = Inr d \<and> map_of item ''sha256'' = Some (JStr d)) evidence_files"
    unfolding list_all_iff
  proof (intro ballI, clarify)
    fix relative kind assume "(relative, kind) \<in> set evidence_files"
    then have "relative \<in> set (map fst evidence_files)" by force
    then show "\<exists>item d. JObj item \<in> set recorded \<and> str_or_none g ''path'' item = relative \<and>
        artifact_sha256 g (evidence @ [relative]) = Inr d \<and> map_of item ''sha256'' = Some (JStr d)"
      using r(2) by (intro check_artifact_Nil) blast
  qed
  ultimately show ?thesis using a(1,2) check_subject_Nil [OF a(3)] by blast
qed

section \<open>Licenses and bills of materials\<close>

lemma lock_components_list:
  "map_of lock ''components'' = Some (JList items) \<Longrightarrow> lock_components lock = Inr items \<and> lock \<noteq> []"
  by (auto simp: lock_components_def dict_get_or_def)

lemma license_item_Nil:
  assumes "license_item g evidence license_root (JObj item) = Inr []"
  shows "\<exists>target txt. gv_resolve g (path_join evidence (str_field g item ''license_path'' [])) = Inr target \<and>
    path_below license_root target \<and> gv_read g target = Inr txt \<and>
    map_of item ''license_text_sha256'' = Some (JStr (sha256_hexdigest txt))"
  using assms by (auto simp: license_item_def Let_def rbind_Inr_iff sha256_file_Inr gate_simps dict_get_or_str [symmetric]
    split: if_splits file_kind.splits)

text \<open>
  When the licenses pass, the license text of every component of the lock lies below the LICENSES
  directory, links and parent references resolved, and it is the text whose digest the lock records.
\<close>

theorem license_texts_bound:
  assumes "validate_licenses g evidence (Some lock) = Inr []"
    and "map_of lock ''components'' = Some (JList (map JObj objs))"
  shows "\<exists>license_root. gv_resolve g (evidence @ [''LICENSES'']) = Inr license_root \<and>
    list_all (\<lambda>item. \<exists>target txt. gv_resolve g (path_join evidence (str_field g item ''license_path'' [])) = Inr target \<and>
      path_below license_root target \<and> gv_read g target = Inr txt \<and>
      map_of item ''license_text_sha256'' = Some (JStr (sha256_hexdigest txt))) objs"
proof -
  obtain license_root where "gv_resolve g (evidence @ [''LICENSES'']) = Inr license_root"
      "\<forall>item \<in> set objs. license_item g evidence license_root (JObj item) = Inr []"
    using assms(1) lock_components_list [OF assms(2)] by (auto simp: validate_licenses_def with_lock_Nil rbind_Inr_iff collect_Nil)
  then show ?thesis using license_item_Nil by (auto simp: list_all_iff)
qed

text \<open>What the CycloneDX document says of a component of the lock.\<close>

definition described_by :: "gate \<Rightarrow> object \<Rightarrow> object \<Rightarrow> bool" where
  "described_by g item entry \<longleftrightarrow>
     folded_name g entry = folded_name g item \<and> str_field g entry ''version'' [] = str_field g item ''revision'' [] \<and>
     remove_prefix ''sha256:'' (str_field g item ''digest'' []) \<in> sbom_hashes g entry \<and>
     str_field g item ''license_spdx'' [] \<in> declared_licenses g entry"

lemma sbom_item_Nil:
  assumes "sbom_item g (entries_by (folded_name g) components) (JObj item) = Inr []"
  shows "\<exists>entry \<in> set (objects components). described_by g item entry"
  using assms
  by (auto simp: sbom_item_def Let_def gate_simps described_by_def folded_name_def dest!: map_of_entries split: option.splits if_splits)

lemma unlocked_Nil:
  "unlocked g m items entries = [] \<longleftrightarrow>
     (\<forall>entry \<in> set (objects entries). str_field g entry ''name'' [] = [] \<or> folded_name g entry \<in> lock_names g items)"
  by (auto simp: unlocked_def Let_def gate_simps folded_name_def)

lemma validate_sbom_Nil:
  assumes "validate_sbom g p lock = Inr []"
  shows "\<exists>bs sbom components. gv_read g p = Inr bs \<and> json_loads (newlines bs) = Some (JObj sbom) \<and>
    map_of sbom ''components'' = Some (JList components) \<and> sbom_entries g lock components = Inr []"
proof -
  obtain sbom es where l: "load_json g p ''CycloneDX SBOM'' = Inr (sbom, es)"
    using assms by (auto simp: validate_sbom_def rbind_Inr_iff)
  show ?thesis
  proof (cases sbom)
    case None
    then have "es \<noteq> []" using load_json_messages l by blast
    then show ?thesis using assms l None by (simp add: validate_sbom_def)
  next
    case (Some kvs)
    obtain components where c: "dict_get_or JNull kvs ''components'' = JList components" "sbom_entries g lock components = Inr []"
      using assms unfolding validate_sbom_def l Some rbind.simps prod.case option.case then_check_Nil case_list_Nil(2)
      by (elim conjE exE) (rule that)
    then have "map_of kvs ''components'' = Some (JList components)"
      by (cases "map_of kvs ''components''") (simp_all add: dict_get_or_def)
    then show ?thesis using load_json_Some l Some c(2) by blast
  qed
qed

text \<open>
  When the CycloneDX document passes, every component of the lock is described in it, with the same
  revision, artifact digest and license, and it describes no named component that is not in the lock.
\<close>

theorem sbom_matches_lock:
  assumes "validate_sbom g p (Some lock) = Inr []" and "map_of lock ''components'' = Some (JList (map JObj objs))"
  shows "\<exists>bs sbom components. gv_read g p = Inr bs \<and> json_loads (newlines bs) = Some (JObj sbom) \<and>
    map_of sbom ''components'' = Some (JList components) \<and>
    list_all (\<lambda>item. list_ex (described_by g item) (objects components)) objs \<and>
    list_all (\<lambda>entry. str_field g entry ''name'' [] = [] \<or> folded_name g entry \<in> folded_name g ` set objs) (objects components)"
proof -
  obtain bs sbom components where s: "gv_read g p = Inr bs" "json_loads (newlines bs) = Some (JObj sbom)"
      "map_of sbom ''components'' = Some (JList components)" "sbom_entries g (Some lock) components = Inr []"
    using validate_sbom_Nil [OF assms(1)] by blast
  have "\<forall>item \<in> set objs. sbom_item g (entries_by (folded_name g) components) (JObj item) = Inr []"
      "unlocked g ''SBOM component missing from component lock: '' (map JObj objs) components = []"
    using s(4) lock_components_list [OF assms(2)] by (auto simp: sbom_entries_def then_check_Nil with_lock_Nil collect_Nil)
  then show ?thesis using s(1-3) sbom_item_Nil by (auto simp: list_all_iff list_ex_iff unlocked_Nil lock_names_def)
qed

section \<open>The gate\<close>

text \<open>
  The script ends with 0 for a distribution just when the source scan finds nothing, the evidence is
  there, the lock is an object without complaint, and every check of the evidence against the lock
  and of the attestation passes. Any message, and any exception, blocks the release.
\<close>

theorem release_passes_iff:
  "(\<exists>out. gate_main g base True (Some file) = Inr (out, 0)) =
    (scan_source g base = Inr [] \<and> (\<exists>artifact lock. let evidence = base @ [''release'', ''evidence''] in
      gv_resolve g file = Inr artifact \<and> missing_evidence g evidence = [] \<and>
      validate_lock g (evidence @ [''component-lock.json'']) = Inr (Some lock, []) \<and>
      validate_sbom g (evidence @ [''sbom.cdx.json'']) (Some lock) = Inr [] \<and>
      validate_spdx g (evidence @ [''sbom.spdx.json'']) (Some lock) = Inr [] \<and>
      validate_image_sboms g evidence (Some lock) = Inr [] \<and> validate_licenses g evidence (Some lock) = Inr [] \<and>
      validate_notices g evidence (Some lock) = Inr [] \<and> validate_corresponding_source g evidence (Some lock) = Inr [] \<and>
      validate_attestation g base evidence (Some artifact) = Inr []))"
proof -
  have main: "(\<exists>out. gate_main g base True (Some file) = Inr (out, 0)) \<longleftrightarrow> gate_errors g base True (Some file) = Inr []"
    by (auto simp: gate_main_def rbind_Inr_iff split: if_splits)
  have lock: "lock \<noteq> None" if v: "validate_lock g q = Inr (lock, [])" for q lock
    using v load_json_messages [of g q "''component lock''"] by (cases lock) (auto simp: validate_lock_def rbind_Inr_iff)
  have "distribution_errors g base (Some artifact) = Inr [] \<longleftrightarrow>
      (\<exists>lock. missing_evidence g (base @ [''release'', ''evidence'']) = [] \<and>
        validate_lock g ((base @ [''release'', ''evidence'']) @ [''component-lock.json'']) = Inr (Some lock, []) \<and>
        evidence_errors g base (base @ [''release'', ''evidence'']) (Some artifact) (Some lock) = Inr [])" for artifact
    unfolding distribution_errors_def Let_def using lock
    by (auto simp: rbind_Inr_iff then_check_Nil simp del: append_assoc)
  then show ?thesis unfolding main gate_errors_def Let_def evidence_errors_def then_check_Nil
    by (auto simp: rbind_Inr_iff simp del: append_assoc)
qed

section \<open>Examples\<close>

text \<open>Printable ASCII survives encoding, decoding and the translation of line ends.\<close>

definition printable :: "char \<Rightarrow> bool" where
  "printable c \<longleftrightarrow> 32 \<le> code c \<and> code c < 127"

fun json_plain :: "json \<Rightarrow> bool" where
  "json_plain (JStr s) = list_all printable s"
| "json_plain (JFloat s) = list_all printable s"
| "json_plain (JList vs) = list_all json_plain vs"
| "json_plain (JObj kvs) = list_all (\<lambda>(k, v). list_all printable k \<and> json_plain v) kvs"
| "json_plain j = True"

lemma printable_chars: "is_digit c \<Longrightarrow> printable c" "is_lower_hex c \<Longrightarrow> printable c"
  "printable (CHR ''['')" "printable (CHR '']'')" "printable (CHR ''{'')" "printable (CHR ''}'')"
  "printable (CHR '','')" "printable (CHR '':'')" "printable (CHR 0x22)" "printable (CHR ''-'')"
  by (auto simp: printable_def is_digit_def is_lower_hex_def)

lemma printable_newlines: "list_all printable s \<Longrightarrow> newlines s = s"
proof -
  have "list_all printable s \<Longrightarrow> newlines_after False s = s" by (induction s) (auto simp: printable_def)
  then show "list_all printable s \<Longrightarrow> ?thesis" by (simp add: newlines_def)
qed

lemma printable_utf8: "list_all printable s \<Longrightarrow> utf8_ok s"
  by (induction s) (auto simp: printable_def utf8_length_def)

lemma printable_quote: "list_all printable s \<Longrightarrow> list_all printable (json_quote s)"
proof -
  have "printable c \<Longrightarrow> list_all printable (esc_char c)" for c by (auto simp: printable_def esc_char_def Let_def)
  then have "list_all printable s \<Longrightarrow> list_all printable (concat (map esc_char s))" by (induction s) auto
  then show "list_all printable s \<Longrightarrow> ?thesis" by (simp add: json_quote_def printable_chars)
qed

lemma printable_join: "list_all printable sep \<Longrightarrow> \<forall>w \<in> set ws. list_all printable w \<Longrightarrow> list_all printable (py_join sep ws)"
  by (induction sep ws rule: py_join.induct) auto

lemma printable_dec: "list_all printable (int_dec i)"
proof -
  have "list_all printable (nat_dec n)" for n
    using nat_dec_digits [of _ n] by (auto simp: list_all_iff printable_chars)
  then show ?thesis by (simp add: int_dec_def printable_chars)
qed

lemma printable_canonical: "json_plain j \<Longrightarrow> list_all printable (canonical_json j)"
proof (induction j)
  case (JList vs)
  then have "list_all printable (py_join '','' (map canonical_json vs))"
    by (intro printable_join) (auto simp: list_all_iff printable_chars)
  then show ?case by (simp add: printable_chars)
next
  case (JObj kvs)
  let ?f = "\<lambda>(k, t). json_quote k @ '':'' @ t"
  let ?ps = "map (\<lambda>(k, v). (k, canonical_json v)) kvs"
  have "\<forall>p \<in> set ?ps. list_all printable (?f p)"
    using JObj printable_quote by (fastforce simp: list_all_iff printable_chars)
  then have "\<forall>w \<in> set (map ?f (sort_key fst ?ps)). list_all printable w"
    unfolding set_map [of ?f] set_sort by blast
  then have "list_all printable (py_join '','' (map ?f (sort_key fst ?ps)))"
    by (intro printable_join) (auto simp: printable_chars)
  then show ?case by (simp add: printable_chars)
next
  case (JBool b)
  show ?case by (cases b) (simp_all add: printable_def)
qed (auto simp: printable_dec printable_quote printable_def)

lemma printable_hexdigest: "list_all printable (sha256_hexdigest m)"
  using hexlify_lower by (auto simp: sha256_hexdigest_def list_all_iff printable_chars)

lemma load_canonical:
  assumes "gv_read g p = Inr (canonical_json (JObj kvs))" "json_plain (JObj kvs)" "json_wf (JObj kvs)" "json_canon (JObj kvs) = JObj kvs"
  shows "load_json g p label = Inr (Some kvs, [])"
proof -
  note plain = printable_canonical [OF assms(2)]
  have "json_loads (newlines (canonical_json (JObj kvs))) = Some (JObj kvs)"
    using printable_newlines [OF plain] loads_canonical [OF assms(3)] assms(4) by simp
  then show ?thesis using printable_utf8 [OF plain] assms(1) by (simp add: load_json_def del: canonical_json.simps)
qed

lemma search_word:
  assumes "regex_search (Seq a (Seq (Lit w) b)) s"
  shows "has_sub w s"
proof -
  obtain i j where "j \<in> set (match_ends s a i)" "match_ends s (Seq (Lit w) b) j \<noteq> []"
    using assms unfolding search_iff match_Seq_Nil by blast
  then have "take (length w) (drop j s) = w" by (auto split: if_splits)
  then have "s = take j s @ w @ drop (length w) (drop j s)" by (metis append_take_drop_id)
  then show ?thesis unfolding has_sub_iff by blast
qed

lemma n8n_word_sub: "\<not> has_sub ''n8n'' (py_lower s) \<Longrightarrow> \<not> search_ignoring_case n8n_word s"
  unfolding search_ignoring_case_def n8n_word_def seq_all.simps using search_word by blast

text \<open>A match of the pattern for mutable references is followed by a separator or ends the text.\<close>

lemma latest_followed:
  assumes "regex_search latest_reference s"
  shows "\<exists>u v. s = u @ ''latest'' @ v \<and> (v = [] \<or> v = [CHR 0x0A] \<or> reference_char (hd v))"
proof -
  obtain i j where j: "j \<in> set (match_ends s (Alt AtStart (Cls reference_char)) i)"
      "match_ends s (Seq (Lit ''latest'') (Alt AtEnd (Cls reference_char))) j \<noteq> []"
    using assms unfolding search_iff latest_reference_def seq_all.simps match_Seq_Nil by blast
  then have t: "take 6 (drop j s) = ''latest''" and e: "match_ends s (Alt AtEnd (Cls reference_char)) (j + 6) \<noteq> []"
    by (auto split: if_splits simp: eval_nat_numeral simp del: match_ends.simps(5,8))
  let ?v = "drop 6 (drop j s)"
  have "s = take j s @ ''latest'' @ ?v" using t by (metis append_take_drop_id)
  moreover have "?v = [] \<or> ?v = [CHR 0x0A] \<or> reference_char (hd ?v)"
  proof (cases "j + 6 < length s")
    case True
    then have v: "?v = s ! (j + 6) # drop (j + 7) s" using Cons_nth_drop_Suc [OF True] by (simp add: add.commute)
    then show ?thesis using e by (auto split: if_splits)
  qed (simp add: add.commute)
  ultimately show ?thesis by blast
qed

text \<open>A component with everything filled in; its artifact and the digest of its license text vary.\<close>

definition example_component :: "string \<Rightarrow> string \<Rightarrow> object" where
  "example_component artifact license_digest =
     [(''name'', JStr ''caddyweb''), (''kind'', JStr ''runtime-library''), (''repository'', JStr ''https://example.org/caddy''),
      (''revision'', JStr ''v2.8.4-0''), (''artifact'', JStr artifact), (''digest'', JStr ''sha256:0000000000000000000000000000000000000000000000000000000000000000''),
      (''license_spdx'', JStr ''Apache-2.0''), (''license_text_sha256'', JStr license_digest),
      (''license_path'', JStr ''LICENSES/caddy.txt''), (''owner'', JStr ''platform''),
      (''distribution_mode'', JStr ''in-image''), (''source_obligation'', JStr ''none'')]"

definition example_lock :: "string \<Rightarrow> string \<Rightarrow> object" where
  "example_lock artifact license_digest =
     [(''release_status'', JStr ''approved''), (''components'', JList (map JObj [example_component artifact license_digest]))]"

definition latest_artifact :: string where
  "latest_artifact = ''registry.example/caddy:latest''"

definition all_a :: string where
  "all_a = ''aaaaaaaaaaaaaaaaaaaaaaaaaaaaaaaaaaaaaaaaaaaaaaaaaaaaaaaaaaaaaaaa''"

text \<open>Printable text without quotes and backslashes is quoted as it is.\<close>

definition bare :: "char \<Rightarrow> bool" where
  "bare c \<longleftrightarrow> printable c \<and> code c \<noteq> 34 \<and> code c \<noteq> 92"

lemma bare_quote:
  assumes "list_all bare s"
  shows "ascii_quote s = CHR 0x22 # s @ [CHR 0x22]"
proof -
  have "list_all bare s \<Longrightarrow> concat (map ascii_escape (code_points s)) = s"
  proof (induction s)
    case (Cons c cs)
    then have c: "printable c" "code c \<noteq> 34" "code c \<noteq> 92" by (auto simp: bare_def)
    then have "utf8_length (code c) = 0" "utf8_lead (code c) = code c"
      by (auto simp: printable_def utf8_length_def utf8_lead_def)
    moreover have "ascii_escape (code c) = [c]"
      using c by (auto simp: ascii_escape_def esc_char_def printable_def Let_def)
    ultimately show ?case using Cons by (simp add: Let_def)
  qed simp
  then show ?thesis using assms by (simp add: ascii_quote_def)
qed

text \<open>The text the patterns are searched in, in lower case.\<close>

definition example_text :: string where
  "example_text = py_lower (dumps_sorted (JObj (example_component latest_artifact all_a)))"

lemma example_sorted:
  "sort_key fst (example_component artifact d) =
     [(''artifact'', JStr artifact), (''digest'', JStr ''sha256:0000000000000000000000000000000000000000000000000000000000000000''),
      (''distribution_mode'', JStr ''in-image''), (''kind'', JStr ''runtime-library''), (''license_path'', JStr ''LICENSES/caddy.txt''),
      (''license_spdx'', JStr ''Apache-2.0''), (''license_text_sha256'', JStr d), (''name'', JStr ''caddyweb''),
      (''owner'', JStr ''platform''), (''repository'', JStr ''https://example.org/caddy''), (''revision'', JStr ''v2.8.4-0''),
      (''source_obligation'', JStr ''none'')]"
  by code_simp

lemma example_dumps:
  "example_text =
     ''{\"artifact\": \"registry.example/caddy:latest\", '' @
     ''\"digest\": \"sha256:0000000000000000000000000000000000000000000000000000000000000000\", '' @
     ''\"distribution_mode\": \"in-image\", '' @
     ''\"kind\": \"runtime-library\", '' @
     ''\"license_path\": \"licenses/caddy.txt\", '' @
     ''\"license_spdx\": \"apache-2.0\", '' @
     ''\"license_text_sha256\": \"aaaaaaaaaaaaaaaaaaaaaaaaaaaaaaaaaaaaaaaaaaaaaaaaaaaaaaaaaaaaaaaa\", '' @
     ''\"name\": \"caddyweb\", '' @
     ''\"owner\": \"platform\", '' @
     ''\"repository\": \"https://example.org/caddy\", '' @
     ''\"revision\": \"v2.8.4-0\", '' @
     ''\"source_obligation\": \"none\"}''"
proof -
  have c: "json_canon (JObj (example_component latest_artifact all_a)) = JObj (sort_key fst (example_component latest_artifact all_a))"
    by (simp add: example_component_def)
  show ?thesis unfolding example_text_def dumps_sorted_def c example_sorted
    by (simp add: bare_quote bare_def printable_def py_lower_def ascii_lower_def latest_artifact_def all_a_def) code_simp
qed

lemma example_searches: "\<not> has_sub ''n8n'' example_text" "list_all (\<lambda>c. \<not> has_sub (''latest'' @ [c]) example_text) ''/:@-''"
    "last example_text = CHR ''}''" "example_text \<noteq> []"
  unfolding example_dumps by simp_all

lemma pending_length: "py_upper s \<in> pending \<Longrightarrow> length s \<in> {0, 3, 5, 6, 7, 11}"
proof -
  assume "py_upper s \<in> pending"
  then have "length (py_upper s) \<in> {0, 3, 5, 6, 7, 11}" by (auto simp: pending_def)
  then show ?thesis by (simp add: py_upper_def)
qed

lemma example_digests:
  "sha256_reference ''sha256:0000000000000000000000000000000000000000000000000000000000000000''" "hex64 all_a"
  by (simp_all add: sha256_reference_def hex64_def lower_hex_def is_digit_def all_a_def)

text \<open>Values without white space of lengths that no pending mark has.\<close>

definition settled :: "string \<Rightarrow> bool" where
  "settled s \<longleftrightarrow> list_all (\<lambda>c. \<not> is_space c) s \<and> length s \<notin> {0, 3, 5, 6, 7, 11}"

lemma settled_pinned: "settled s \<Longrightarrow> py_upper (py_strip s) \<notin> pending"
  using pending_length [of s] py_strip_id [of s] by (auto simp: settled_def list_all_iff)

lemma example_pinned:
  assumes "settled artifact" "settled d"
  shows "unpinned_fields g name (example_component artifact d) = []"
proof -
  have "list_all (\<lambda>field. settled (str_field g (example_component artifact d) field [])) lock_fields"
    by (simp add: lock_fields_def str_field_def dict_get_or_def example_component_def assms)
      (simp add: settled_def is_space_def)
  then show ?thesis using settled_pinned by (simp add: unpinned_Nil list_all_iff)
qed

lemma example_lock_searches:
  "\<not> search_ignoring_case n8n_word (dumps_sorted (JObj (example_component latest_artifact all_a)))"
  "\<not> search_ignoring_case latest_reference (dumps_sorted (JObj (example_component latest_artifact all_a)))"
proof -
  let ?item = "example_component latest_artifact all_a"
  have t: "py_lower (dumps_sorted (JObj ?item)) = example_text" by (simp add: example_text_def)
  show "\<not> search_ignoring_case n8n_word (dumps_sorted (JObj ?item))"
    using example_searches(1) by (intro n8n_word_sub) (simp add: t)
  show "\<not> search_ignoring_case latest_reference (dumps_sorted (JObj ?item))"
  proof
    assume "search_ignoring_case latest_reference (dumps_sorted (JObj ?item))"
    then obtain u v where v: "example_text = u @ ''latest'' @ v" "v = [] \<or> v = [CHR 0x0A] \<or> reference_char (hd v)"
      using latest_followed unfolding search_ignoring_case_def t by blast
    have "last (u @ ''latest'' @ v) = CHR ''}''" using example_searches(3) unfolding v(1) .
    then have "v \<noteq> []" "v \<noteq> [CHR 0x0A]" by auto
    then obtain c w where "v = c # w" "c \<in> set ''/:@-''" using v(2) by (cases v) (auto simp: reference_char_def)
    then have "has_sub (''latest'' @ [c]) example_text" "c \<in> set ''/:@-''" using v(1) unfolding has_sub_iff by (auto intro: exI [of _ u])
    then show False using example_searches(2) unfolding list_all_iff by blast
  qed
qed

lemma example_lock_accepted: "lock_errors g (example_lock latest_artifact all_a) = []"
proof -
  let ?item = "example_component latest_artifact all_a"
  have "lock_digests g x ?item = []" for x
    using example_digests by (simp add: lock_digests_def Let_def flag_def example_component_def str_field_def dict_get_or_def)
  moreover have "unpinned_fields g x ?item = []" for x
    by (rule example_pinned) (simp_all add: settled_def latest_artifact_def all_a_def is_space_def)
  moreover have "lock_references g x ?item = []" for x
    unfolding lock_references_def Let_def using example_lock_searches
    by (simp add: gate_simps) (simp add: example_component_def dict_get_or_def license_is_unresolved_def forbidden_license_markers_def
      py_upper_def ascii_upper_def py_strip_def is_space_def)
  ultimately show ?thesis
    by (simp add: lock_errors_def example_lock_def gate_simps Let_def dict_get_or_def)
qed

text \<open>
  The pattern for mutable references does not see them: it is searched in the JSON text of a component,
  where the end of a value is a quote and not the end of the text. A component whose artifact is
  \<open>registry.example/caddy:latest\<close> passes the lock, though the pattern matches that value by itself.
\<close>

theorem mutable_reference_accepted:
  "lock_errors g (example_lock latest_artifact all_a) = [] \<and>
   str_field g (example_component latest_artifact all_a) ''artifact'' [] = latest_artifact \<and>
   search_ignoring_case latest_reference latest_artifact \<and>
   \<not> search_ignoring_case latest_reference (dumps_sorted (JObj (example_component latest_artifact all_a)))"
proof (intro conjI)
  show "str_field g (example_component latest_artifact all_a) ''artifact'' [] = latest_artifact"
    by (simp add: example_component_def str_field_def dict_get_or_def)
  show "search_ignoring_case latest_reference latest_artifact" by code_simp
qed (rule example_lock_accepted example_lock_searches(2))+

theorem accepted_lock_pinned_witness:
  "\<forall>g. lock_errors g (example_lock latest_artifact all_a) = [] \<and>
    (\<exists>objs. map_of (example_lock latest_artifact all_a) ''components'' = Some (JList (map JObj objs)) \<and> objs \<noteq> [] \<and>
      list_all (pinned g) objs)"
  using accepted_lock_pinned [OF example_lock_accepted] example_lock_accepted by blast

text \<open>
  A file system for the examples: some folders, texts for some paths and another for the rest; the
  signature of three zero bytes is good.
\<close>

definition example_gate :: "path set \<Rightarrow> (path \<times> bytes) list \<Rightarrow> bytes \<Rightarrow> gate" where
  "example_gate folders texts other =
     \<lparr>gv_stat = (\<lambda>p. if p \<in> folders then Folder else Regular 200),
      gv_read = (\<lambda>p. Inr (case map_of texts p of None \<Rightarrow> other | Some t \<Rightarrow> t)),
      gv_tree = (\<lambda>p. []), gv_resolve = Inr, gv_repr = (\<lambda>j. []), gv_decode_error = (\<lambda>bs. []),
      gv_fromiso = (\<lambda>s. Some (True, 0)), gv_now = 5,
      gv_openssl = (\<lambda>key signature payload. Inr (if signature = replicate 3 (CHR 0x00) then 0 else 1))\<rparr>"

definition example_approval :: "string \<Rightarrow> object" where
  "example_approval role =
     [(''role'', JStr role), (''signature_base64'', JStr ''AAAA''), (''signed_at'', JStr ''2026-01-02T03:04:05Z''),
      (''signer'', JStr (''ana-'' @ role))]"

definition example_binding :: "string \<Rightarrow> string \<Rightarrow> object" where
  "example_binding name d = [(''path'', JStr name), (''sha256'', JStr d)]"

definition example_attestation :: "string \<Rightarrow> string \<Rightarrow> object" where
  "example_attestation d d' =
     [(''approvals'', JList (map (\<lambda>role. JObj (example_approval role)) [''release'', ''security'', ''legal''])),
      (''artifacts'', JList (map (\<lambda>(name, kind). JObj (example_binding name (if kind = ''file'' then d else d'))) evidence_files)),
      (''schema_version'', JInt 1), (''subject'', JObj [(''name'', JStr ''atlantis''), (''sha256'', JStr d)])]"

lemma example_attestation_text:
  assumes "list_all printable d" "list_all printable d'"
  shows "json_plain (JObj (example_attestation d d'))" "json_wf (JObj (example_attestation d d'))"
    "json_canon (JObj (example_attestation d d')) = JObj (example_attestation d d')"
proof -
  show "json_plain (JObj (example_attestation d d'))"
    using assms by (simp add: example_attestation_def example_approval_def example_binding_def evidence_files_def printable_def)
  show "json_wf (JObj (example_attestation d d'))" by code_simp
  show "json_canon (JObj (example_attestation d d')) = JObj (example_attestation d d')" by code_simp
qed

definition signed_gate :: gate where
  "signed_gate =
     example_gate {[''e'', ''image-sboms''], [''e'', ''LICENSES''], [''e'', ''corresponding-source'']}
       [([''e'', ''attestation.json''], canonical_json (JObj (example_attestation (sha256_hexdigest ''x'') (sha256_hexdigest []))))] ''x''"

lemma signed_files: "is_file signed_gate [''a'']" "\<not> is_empty_file signed_gate [''a'']" "is_file signed_gate (signer_key [] role)"
  "sha256_file signed_gate [''a''] = Inr (sha256_hexdigest ''x'')"
  "artifact_sha256 signed_gate [''e'', ''image-sboms''] = Inr (sha256_hexdigest [])"
  "artifact_sha256 signed_gate [''e'', ''LICENSES''] = Inr (sha256_hexdigest [])"
  "artifact_sha256 signed_gate [''e'', ''corresponding-source''] = Inr (sha256_hexdigest [])"
  by (simp_all add: signed_gate_def example_gate_def is_file_def is_empty_file_def signer_key_def sha256_file_def
    artifact_sha256_def sha256_directory_def files_below_def)

lemma signed_other_files:
  "name \<in> {''sbom.cdx.json'', ''sbom.spdx.json'', ''THIRD_PARTY_NOTICES.md'', ''component-lock.json''} \<Longrightarrow>
    artifact_sha256 signed_gate [''e'', name] = Inr (sha256_hexdigest ''x'')"
  by (auto simp: signed_gate_def example_gate_def artifact_sha256_def sha256_file_def)

lemma signed_load:
  "load_json signed_gate [''e'', ''attestation.json''] label =
    Inr (Some (example_attestation (sha256_hexdigest ''x'') (sha256_hexdigest [])), [])"
  by (rule load_canonical)
    (simp_all only: signed_gate_def example_gate_def gate.simps example_attestation_text printable_hexdigest map_of.simps fst_conv snd_conv if_True
      fun_upd_same option.case simp_thms refl)

lemma example_approval_verified:
  assumes "role \<in> approval_roles"
  shows "verify_approval signed_gate [] (example_approval role) payload = []"
proof -
  have "approval_role signed_gate (example_approval role) = role" "approval_signer signed_gate (example_approval role) \<noteq> []"
    using assms by (auto simp: approval_role_def approval_signer_def example_approval_def str_field_def dict_get_or_def
      approval_roles_def py_lower_def ascii_lower_def py_strip_def is_space_def)
  moreover have "py_strip ''AAAA'' = ''AAAA''" "py_strip ''2026-01-02T03:04:05Z'' \<noteq> []" "b64_strict ''AAAA'' = Some (replicate 3 (CHR 0x00))"
    by code_simp+
  moreover have "signed_in_past signed_gate t" "gv_openssl signed_gate key (replicate 3 (CHR 0x00)) payload = Inr 0" for t key
    by (simp_all add: signed_in_past_def signed_gate_def example_gate_def)
  ultimately show ?thesis using assms signed_files
    by (simp add: verify_approval_def verify_signature_def Let_def example_approval_def str_field_def dict_get_or_def flag_def)
qed

lemma distinct_no_duplicates: "distinct xs \<Longrightarrow> named_duplicates xs = []"
  using duplicates_Nil [of xs] by (simp add: named_duplicates_def)

lemma example_attested: "validate_attestation signed_gate [] [''e''] (Some [''a'']) = Inr []"
proof -
  let ?d = "sha256_hexdigest ''x''" and ?d' = "sha256_hexdigest []"
  let ?att = "example_attestation ?d ?d'"
  have fields: "dict_get_or JNull ?att ''schema_version'' = JInt 1"
    "dict_get_or JNull ?att ''subject'' = JObj [(''name'', JStr ''atlantis''), (''sha256'', JStr ?d)]"
    "dict_get_or JNull ?att ''approvals'' = JList (map JObj (map example_approval [''release'', ''security'', ''legal'']))"
    "dict_get_or JNull ?att ''artifacts'' =
       JList (map JObj (map (\<lambda>(name, kind). example_binding name (if kind = ''file'' then ?d else ?d')) evidence_files))"
    by (simp_all add: example_attestation_def dict_get_or_def o_def case_prod_unfold)
  have subject: "check_subject signed_gate ?att (Some [''a'']) = Inr []"
    using signed_files unfolding check_subject_def fields by (simp add: str_field_def dict_get_or_def flag_def py_strip_def is_space_def)
  have artifacts: "check_artifacts signed_gate [''e''] ?att = Inr []"
    using signed_files signed_other_files unfolding check_artifacts_def fields
    by (simp add: then_check_def check_artifact_def entries_by_def dict_of_def evidence_files_def
      example_binding_def str_or_none_def dict_get_or_def flag_def duplicates_Nil)
  obtain payload where p: "signed_payload ?att = Inr payload"
  proof -
    let ?j = "JObj [(''subject'', dict_get_or JNull ?att ''subject''), (''artifacts'', dict_get_or JNull ?att ''artifacts'')]"
    have "json_plain ?j"
      using printable_hexdigest unfolding fields by (simp add: evidence_files_def example_binding_def printable_def)
    then have "utf8_ok (canonical_json ?j)" by (intro printable_utf8 printable_canonical)
    then show ?thesis using that by (simp only: signed_payload_def Let_def if_True)
  qed
  have v: "\<forall>a \<in> set (map example_approval [''release'', ''security'', ''legal'']). verify_approval signed_gate [] a payload = []"
    using example_approval_verified by (simp add: approval_roles_def)
  have roles: "map (approval_role signed_gate) (map example_approval [''release'', ''security'', ''legal'']) = [''release'', ''security'', ''legal'']"
    by (simp add: approval_role_def example_approval_def str_field_def dict_get_or_def py_lower_def ascii_lower_def)
  have signers: "distinct (map (\<lambda>a. py_lower (approval_signer signed_gate a)) (map example_approval [''release'', ''security'', ''legal'']))"
    by (simp add: approval_signer_def example_approval_def str_field_def dict_get_or_def py_lower_def ascii_lower_def py_strip_def is_space_def)
  have "check_approvals signed_gate [] ?att (map example_approval [''release'', ''security'', ''legal'']) = Inr []"
    unfolding check_approvals_def Let_def p rbind.simps roles
    using v distinct_no_duplicates [OF signers] by (simp add: distinct_no_duplicates)
  then show ?thesis using subject artifacts
    unfolding validate_attestation_def append.simps signed_load rbind.simps prod.case option.case fields json.case objects_map then_check_Nil
    by (simp add: flag_def)
qed

theorem release_signed_by_three_witness:
  "validate_attestation signed_gate [] [''e''] (Some [''a'']) = Inr [] \<and>
   (\<exists>bs att payload. gv_read signed_gate [''e'', ''attestation.json''] = Inr bs \<and> json_loads (newlines bs) = Some (JObj att) \<and>
     signed_payload att = Inr payload)"
  using release_signed_by_three [OF example_attested] example_attested by auto

theorem attestation_binds_release_witness:
  "validate_attestation signed_gate [] [''e''] (Some [''a'']) = Inr [] \<and>
   (\<exists>contents. gv_read signed_gate [''a''] = Inr contents)"
  using attestation_binds_release [OF example_attested] example_attested by blast

text \<open>A license text and a bill of materials for the example.\<close>

definition licensed_gate :: gate where
  "licensed_gate = example_gate {} [] ''Apache License''"

theorem license_texts_bound_witness:
  "let lock = example_lock latest_artifact (sha256_hexdigest ''Apache License'') in
   validate_licenses licensed_gate [''e''] (Some lock) = Inr [] \<and>
   (\<exists>license_root. gv_resolve licensed_gate ([''e''] @ [''LICENSES'']) = Inr license_root)"
proof -
  let ?lock = "example_lock latest_artifact (sha256_hexdigest ''Apache License'')"
  have p: "path_join [''e''] ''LICENSES/caddy.txt'' = [''e'', ''LICENSES'', ''caddy.txt'']" by code_simp
  have v: "validate_licenses licensed_gate [''e''] (Some ?lock) = Inr []"
    by (simp add: validate_licenses_def with_lock_def example_lock_def licensed_gate_def example_gate_def lock_components_def
      dict_get_or_def license_item_def example_component_def str_field_def p path_below_def sha256_file_def flag_def Let_def)
  have "map_of ?lock ''components'' = Some (JList (map JObj [example_component latest_artifact (sha256_hexdigest ''Apache License'')]))"
    by (simp add: example_lock_def)
  note bound = license_texts_bound [OF v this]
  show ?thesis unfolding Let_def by (intro conjI v) (use bound in blast)
qed

definition example_entry :: object where
  "example_entry =
     [(''hashes'', JList [JObj [(''alg'', JStr ''SHA-256''),
        (''content'', JStr ''0000000000000000000000000000000000000000000000000000000000000000'')]]),
      (''licenses'', JList [JObj [(''license'', JObj [(''id'', JStr ''Apache-2.0'')])]]),
      (''name'', JStr ''caddyweb''), (''version'', JStr ''v2.8.4-0'')]"

definition example_sbom :: object where
  "example_sbom = [(''bomFormat'', JStr ''CycloneDX''), (''components'', JList [JObj example_entry]), (''specVersion'', JStr ''1.6'')]"

definition sbom_gate :: gate where
  "sbom_gate = example_gate {} [] (canonical_json (JObj example_sbom))"

lemma example_sbom_load: "load_json sbom_gate p label = Inr (Some example_sbom, [])"
proof (rule load_canonical)
  show "gv_read sbom_gate p = Inr (canonical_json (JObj example_sbom))"
    by (simp only: sbom_gate_def example_gate_def gate.simps map_of.simps option.case)
  show "json_plain (JObj example_sbom)" by (simp add: example_sbom_def example_entry_def printable_def)
  show "json_wf (JObj example_sbom)" "json_canon (JObj example_sbom) = JObj example_sbom" by code_simp+
qed

lemma example_names: "folded_name g example_entry = ''caddyweb''" "folded_name g (example_component a d) = ''caddyweb''"
  "str_field g (example_component a d) ''name'' [] = ''caddyweb''" "py_lower ''caddyweb'' = ''caddyweb''"
  by (simp_all add: folded_name_def str_field_def dict_get_or_def py_lower_def ascii_lower_def example_component_def example_entry_def)

lemma example_hashes: "''0000000000000000000000000000000000000000000000000000000000000000'' \<in> sbom_hashes g example_entry"
proof -
  let ?h = "[(''alg'', JStr ''SHA-256''), (''content'', JStr ''0000000000000000000000000000000000000000000000000000000000000000'')]"
  have "?h \<in> set (objects (listed (dict_get_or (JList []) example_entry ''hashes'')))"
    by (simp add: dict_get_or_def listed_def example_entry_def)
  moreover have "str_field g ?h ''alg'' [] = ''SHA-256''" "py_upper ''SHA-256'' = ''SHA-256''"
    by (simp_all add: str_field_def dict_get_or_def py_upper_def ascii_upper_def)
  moreover have "str_field g ?h ''content'' [] = ''0000000000000000000000000000000000000000000000000000000000000000''"
    by (simp add: str_field_def dict_get_or_def)
  ultimately show ?thesis unfolding sbom_hashes_def by (intro image_eqI [of _ _ ?h]) simp_all
qed

lemma example_described:
  "sbom_item g (entries_by (folded_name g) [JObj example_entry]) (JObj (example_component a d)) = Inr []"
proof -
  have b: "map_of (entries_by (folded_name g) [JObj example_entry]) ''caddyweb'' = Some example_entry"
    by (simp add: entries_by_def dict_of_def example_names)
  have f: "str_field g (example_component a d) ''license_spdx'' [] = ''Apache-2.0''"
    "str_field g (example_component a d) ''revision'' [] = str_field g example_entry ''version'' []"
    "remove_prefix ''sha256:'' (str_field g (example_component a d) ''digest'' []) =
      ''0000000000000000000000000000000000000000000000000000000000000000''"
    by (simp_all add: example_component_def example_entry_def str_field_def dict_get_or_def remove_prefix_def)
  have l: "''Apache-2.0'' \<in> declared_licenses g example_entry"
    by (simp add: declared_licenses_def declared_of_def dict_get_or_def listed_def str_or_none_def example_entry_def)
  show ?thesis unfolding sbom_item_def as_object.simps rbind.simps Let_def f example_names b option.case
    by (simp only: example_hashes l flag_def) simp
qed

lemma example_sbom_passes: "validate_sbom sbom_gate p (Some (example_lock a d)) = Inr []"
proof -
  have c: "dict_get_or JNull example_sbom ''components'' = JList [JObj example_entry]"
    "dict_get_or JNull example_sbom ''bomFormat'' = JStr ''CycloneDX''" "dict_get_or JNull example_sbom ''specVersion'' = JStr ''1.6''"
    by (simp_all add: example_sbom_def dict_get_or_def)
  have "\<not> has_sub ''n8n'' (py_lower (dumps_sorted (JList [JObj example_entry])))"
    by (simp add: example_entry_def dumps_sorted_def bare_quote bare_def printable_def py_lower_def ascii_lower_def) code_simp
  then have "sbom_entries sbom_gate (Some (example_lock a d)) [JObj example_entry] = Inr []"
    using n8n_word_sub example_described example_names unfolding sbom_entries_def
    by (simp add: then_check_Nil with_lock_def example_lock_def lock_components_def dict_get_or_def unlocked_Nil lock_names_def flag_def
      named_duplicates_def duplicates_def)
  then show ?thesis unfolding validate_sbom_def example_sbom_load rbind.simps prod.case option.case c by (simp add: then_check_Nil flag_def)
qed

theorem sbom_matches_lock_witness:
  "validate_sbom sbom_gate [''s''] (Some (example_lock latest_artifact all_a)) = Inr [] \<and>
   (\<exists>bs sbom. gv_read sbom_gate [''s''] = Inr bs \<and> json_loads (newlines bs) = Some (JObj sbom))"
proof -
  have "map_of (example_lock latest_artifact all_a) ''components'' = Some (JList (map JObj [example_component latest_artifact all_a]))"
    by (simp add: example_lock_def)
  then show ?thesis using sbom_matches_lock [OF example_sbom_passes] example_sbom_passes by blast
qed

section \<open>Digests of directories, and what the scan leaves out\<close>

text \<open>The digest of a directory does not depend on the order in which its files are listed.\<close>

lemma directory_digest_canonical:
  assumes "mset listing = mset listing'"
  shows "sha256_directory (g\<lparr>gv_tree := (\<lambda>_. listing)\<rparr>) p = sha256_directory (g\<lparr>gv_tree := (\<lambda>_. listing')\<rparr>) p"
proof -
  have r: "gv_read (g\<lparr>gv_tree := t\<rparr>) = gv_read g" "gv_stat (g\<lparr>gv_tree := t\<rparr>) = gv_stat g"
    "gv_tree (g\<lparr>gv_tree := t\<rparr>) = t" for t by (cases g; simp)+
  have e: "directory_bytes (g\<lparr>gv_tree := t\<rparr>) p rels = directory_bytes g p rels" for t rels
    by (induction rels) (simp_all add: directory_entry_def Let_def r)
  have f: "is_file (g\<lparr>gv_tree := t\<rparr>) = is_file g" for t by (simp add: is_file_def fun_eq_iff r)
  have "sort (filter P listing) = sort (filter P listing')" for P
    using assms by (intro properties_for_sort) simp_all
  then show ?thesis unfolding sha256_directory_def files_below_def e f r by simp
qed

text \<open>
  The scan looks for ignored directories in the whole path: in a checkout below a directory called
  evidence, or one with an ignored name, no file is read.
\<close>

lemma checkout_not_scanned:
  assumes "''evidence'' \<in> set base \<or> ignored_parts \<inter> set base \<noteq> {}"
  shows "scan_source g base = Inr (missing_builds g base)"
proof -
  have "skipped_file g (base @ relative)" for relative using assms by (auto simp: skipped_file_def)
  then have "collect (scan_file g base) rels = Inr []" for rels by (simp add: collect_Nil scan_file_def)
  then show ?thesis by (simp add: scan_source_def then_check_def)
qed

text \<open>
  The signature covers the subject and the artifacts, not the approval: with another name and another
  past time on it, an approval is as good as before. What keeps the roles apart are their keys.
\<close>

lemma signer_not_signed:
  assumes "verify_approval g base approval payload = []" "py_strip signer \<noteq> []"
    and "py_strip signed_at \<noteq> []" "signed_in_past g (py_strip signed_at)"
  shows "verify_approval g base (dict_set ''signer'' (JStr signer) (dict_set ''signed_at'' (JStr signed_at) approval)) payload = []"
proof -
  let ?a = "dict_set ''signer'' (JStr signer) (dict_set ''signed_at'' (JStr signed_at) approval)"
  have "str_field g ?a k d = str_field g approval k d" if "k \<noteq> ''signer''" "k \<noteq> ''signed_at''" for k d
    using that by (simp add: str_field_def dict_get_or_def dict_simps)
  moreover have "str_field g ?a ''signer'' [] = signer" "str_field g ?a ''signed_at'' [] = signed_at"
    by (simp_all add: str_field_def dict_get_or_def dict_simps)
  ultimately show ?thesis using assms
    by (simp add: verify_approval_def approval_role_def approval_signer_def Let_def split: if_splits)
qed

end
