(* ===== verification/Evidence.thy ===== *)
theory Evidence
  imports ReleaseFacts
begin

text \<open>
  tools/prepare\_unsigned\_distribution\_evidence.py: the reviewed candidate of a distribution is copied into a
  staging directory, its digests are written into an attestation without approvals, and the directory
  gets its final name. The disk is an association list from paths to nodes; links are not modelled.
  Every write and every deletion can fail: which ones do, with which error and what a failed write leaves
  in its file, are parameters. Times and modes of the entries are not modelled.
\<close>

section \<open>The disk\<close>

datatype node = NDir | NFile bytes

type_synonym disk = "(path, node) dict"

type_synonym 'a io = "disk \<Rightarrow> 'a res \<times> disk"

definition io_bind :: "'a io \<Rightarrow> ('a \<Rightarrow> 'b io) \<Rightarrow> 'b io" where
  "io_bind m f d = (case m d of (Inl e, d') \<Rightarrow> (Inl e, d') | (Inr a, d') \<Rightarrow> f a d')"

definition io_res :: "(disk \<Rightarrow> 'a res) \<Rightarrow> 'a io" where
  "io_res f d = (f d, d)"

fun io_each :: "('a \<Rightarrow> unit io) \<Rightarrow> 'a list \<Rightarrow> unit io" where
  "io_each f [] = (\<lambda>d. (Inr (), d))"
| "io_each f (x # xs) = io_bind (f x) (\<lambda>_. io_each f xs)"

text \<open>What the gate sees of a disk.\<close>

definition disk_stat :: "disk \<Rightarrow> path \<Rightarrow> file_kind" where
  "disk_stat d p =
     (case map_of d p of None \<Rightarrow> if p = [] then Folder else Missing | Some NDir \<Rightarrow> Folder | Some (NFile bs) \<Rightarrow> Regular (length bs))"

definition disk_read :: "disk \<Rightarrow> path \<Rightarrow> bytes res" where
  "disk_read d p = (case map_of d p of Some (NFile bs) \<Rightarrow> Inr bs | _ \<Rightarrow> raise OSError (path_text p))"

text \<open>The entries at and below a path, relative to it.\<close>

definition subtree :: "disk \<Rightarrow> path \<Rightarrow> (path \<times> node) list" where
  "subtree d p = map (\<lambda>(q, n). (drop (length p) q, n)) (filter (\<lambda>(q, n). path_below p q) d)"

definition disk_tree :: "disk \<Rightarrow> path \<Rightarrow> path list" where
  "disk_tree d p = filter (\<lambda>rel. rel \<noteq> []) (map fst (subtree d p))"

definition gate_on :: "disk \<Rightarrow> gate \<Rightarrow> gate" where
  "gate_on d g = g\<lparr>gv_stat := disk_stat d, gv_read := disk_read d, gv_tree := disk_tree d\<rparr>"

section \<open>Operations on it\<close>

text \<open>
  What goes wrong: the error of creating or writing an entry (an error of reading the source of a copy counts
  at its destination), the part of a file that a failed write leaves there, the entries that cannot be deleted, and the text
  of the errors that \<open>shutil.copytree\<close> collects.
\<close>

record failures =
  fl_error :: "path \<Rightarrow> exn option"
  fl_partial :: "path \<Rightarrow> bytes option"
  fl_stuck :: "path \<Rightarrow> bool"
  fl_report :: "path \<Rightarrow> string"

definition no_failures :: failures where
  "no_failures = \<lparr>fl_error = \<lambda>_. None, fl_partial = \<lambda>_. None, fl_stuck = \<lambda>_. False, fl_report = \<lambda>_. []\<rparr>"

definition guarded_write :: "failures \<Rightarrow> path \<Rightarrow> (disk \<Rightarrow> disk) \<Rightarrow> unit io" where
  "guarded_write failing p change d = (case fl_error failing p of Some e \<Rightarrow> (Inl e, d) | None \<Rightarrow> (Inr (), change d))"

text \<open>\<open>mkdir(parents=True)\<close>: the missing parents are made from the top, and stay when a later one fails.\<close>

definition ancestors :: "path \<Rightarrow> path list" where
  "ancestors p = map (\<lambda>n. take n p) [1..<length p]"

definition add_directory :: "path \<Rightarrow> disk \<Rightarrow> disk" where
  "add_directory p d = (if p = [] \<or> map_of d p \<noteq> None then d else d @ [(p, NDir)])"

definition make_missing :: "failures \<Rightarrow> path \<Rightarrow> unit io" where
  "make_missing failing p d = (if map_of d p \<noteq> None then (Inr (), d) else guarded_write failing p (add_directory p) d)"

definition make_directory :: "failures \<Rightarrow> path \<Rightarrow> unit io" where
  "make_directory failing p d =
     (if disk_stat d p \<noteq> Missing \<or> list_ex (\<lambda>a. map_of d a \<noteq> None \<and> map_of d a \<noteq> Some NDir) (ancestors p) then (raise OSError (path_text p), d)
      else io_each (make_missing failing) (ancestors p @ [p]) d)"

text \<open>
  \<open>shutil.copytree\<close>: a directory that cannot be made is left out with all that is below it, a file that
  cannot be copied can be left in part, everything else is copied, and the errors are raised at the end.
  Copying a directory into itself is not modelled.
\<close>

definition reached :: "failures \<Rightarrow> path \<Rightarrow> path \<Rightarrow> bool" where
  "reached failing dst r = list_all (\<lambda>k. fl_error failing (dst @ take k r) = None) [0..<length r]"

definition copied_entry :: "failures \<Rightarrow> path \<Rightarrow> path \<times> node \<Rightarrow> (path \<times> node) list" where
  "copied_entry failing dst = (\<lambda>(r, n).
     if \<not> reached failing dst r then []
     else if fl_error failing (dst @ r) = None then [(dst @ r, n)]
     else case (n, fl_partial failing (dst @ r)) of (NFile _, Some part) \<Rightarrow> [(dst @ r, NFile part)] | _ \<Rightarrow> [])"

definition copy_tree :: "failures \<Rightarrow> path \<Rightarrow> path \<Rightarrow> unit io" where
  "copy_tree failing src dst d =
     (if map_of d src \<noteq> Some NDir \<or> disk_stat d dst \<noteq> Missing then (raise OSError (path_text src), d)
      else case fl_error failing dst of Some e \<Rightarrow> (Inl e, d)
      | None \<Rightarrow>
          (if list_ex (\<lambda>(r, _). fl_error failing (dst @ r) \<noteq> None) (subtree d src) then raise OSError (fl_report failing src) else Inr (),
           d @ concat (map (copied_entry failing dst) (subtree d src))))"

definition move_file :: "failures \<Rightarrow> path \<Rightarrow> path \<Rightarrow> unit io" where
  "move_file failing p q d =
     (case map_of d p of
        Some (NFile bs) \<Rightarrow>
          if map_of d q = Some NDir then (raise OSError (path_text q), d)
          else guarded_write failing q (\<lambda>d. dict_set q (NFile bs) (dict_pop p d)) d
      | _ \<Rightarrow> (raise OSError (path_text p), d))"

definition write_file :: "failures \<Rightarrow> path \<Rightarrow> bytes \<Rightarrow> unit io" where
  "write_file failing p bs d =
     (if map_of d p = Some NDir then (raise OSError (path_text p), d)
      else case fl_error failing p of
          None \<Rightarrow> (Inr (), dict_set p (NFile bs) d)
        | Some e \<Rightarrow> (Inl e, case fl_partial failing p of None \<Rightarrow> d | Some part \<Rightarrow> dict_set p (NFile part) d))"

definition copy_file :: "failures \<Rightarrow> path \<Rightarrow> path \<Rightarrow> unit io" where
  "copy_file failing src dst d =
     (case map_of d src of Some (NFile bs) \<Rightarrow> write_file failing dst bs d | _ \<Rightarrow> (raise OSError (path_text src), d))"

definition rename_tree :: "path \<Rightarrow> path \<Rightarrow> disk \<Rightarrow> disk" where
  "rename_tree p q d = map (\<lambda>(r, n). (if path_below p r then q @ drop (length p) r else r, n)) d"

text \<open>
  \<open>shutil.rmtree(ignore_errors=True)\<close>: an entry that cannot be deleted stays, and so does every directory that is not empty
  because of it.
\<close>

definition held :: "failures \<Rightarrow> path \<Rightarrow> disk \<Rightarrow> bool" where
  "held failing q d = list_ex (\<lambda>(r, _). path_below q r \<and> fl_stuck failing r) d"

definition remove_tree :: "failures \<Rightarrow> path \<Rightarrow> disk \<Rightarrow> disk" where
  "remove_tree failing p d = filter (\<lambda>(q, n). \<not> path_below p q \<or> held failing q d) d"

section \<open>The review of the candidate\<close>

definition copied_directories :: "string list" where
  "copied_directories = [''LICENSES'', ''image-sboms'', ''corresponding-source'']"

definition copied_files :: "(string \<times> string) list" where
  "copied_files = [(''sbom.cdx.candidate.json'', ''sbom.cdx.json''), (''sbom.spdx.candidate.json'', ''sbom.spdx.json''),
     (''THIRD_PARTY_NOTICES.candidate.md'', ''THIRD_PARTY_NOTICES.md''), (''component-lock.candidate.json'', ''component-lock.json'')]"

text \<open>The attested parts in the order of their names.\<close>

definition attested :: "(string \<times> string) list" where
  "attested = [(''LICENSES'', ''directory''), (''THIRD_PARTY_NOTICES.md'', ''file''), (''component-lock.json'', ''file''),
     (''corresponding-source'', ''directory''), (''image-sboms'', ''directory''), (''sbom.cdx.json'', ''file''),
     (''sbom.spdx.json'', ''file'')]"

definition unresolved_licenses :: "string set" where
  "unresolved_licenses = insert [] forbidden_license_markers"

definition load_object :: "gate \<Rightarrow> path \<Rightarrow> object res" where
  "load_object g p =
     rbind (gv_read g p) (\<lambda>bs.
     case (if utf8_ok bs then json_loads (newlines bs) else None) of
       None \<Rightarrow> raise ValueError (gv_decode_error g bs)
     | Some (JObj kvs) \<Rightarrow> Inr kvs
     | Some _ \<Rightarrow> raise ValueError (path_text p @ '' must contain a JSON object''))"

fun all_pass :: "('a \<Rightarrow> unit res) \<Rightarrow> 'a list \<Rightarrow> unit res" where
  "all_pass f [] = Inr ()"
| "all_pass f (x # xs) = rbind (f x) (\<lambda>_. all_pass f xs)"

definition license_field_ok :: "gate \<Rightarrow> string \<Rightarrow> object \<Rightarrow> string \<Rightarrow> unit res" where
  "license_field_ok g document package field =
     (let v = dict_get_or JNull package field in
      if v \<noteq> JNull \<and> py_upper (py_strip (py_str (gv_repr g) v)) \<in> unresolved_licenses
      then raise ValueError (''unresolved license in '' @ document @ '': '' @ str_field g package ''name'' ''<unknown>'' @ ''.'' @ field)
      else Inr ())"

definition document_ok :: "gate \<Rightarrow> path \<Rightarrow> unit res" where
  "document_ok g p =
     rbind (load_object g p) (\<lambda>document.
     rbind (iter_json (dict_get_or (JList []) document ''packages'')) (\<lambda>packages.
     all_pass (\<lambda>package. all_pass (license_field_ok g (last p) package) [''licenseDeclared'', ''licenseConcluded''])
       (objects packages)))"

text \<open>\<open>glob("*.spdx.json")\<close>.\<close>

definition ends_with :: "string \<Rightarrow> string \<Rightarrow> bool" where
  "ends_with s w = starts_with (rev s) (rev w)"

definition spdx_children :: "gate \<Rightarrow> path \<Rightarrow> path list" where
  "spdx_children g p =
     map (\<lambda>rel. p @ rel) (filter (\<lambda>rel. length rel = 1 \<and> ends_with (hd rel) ''.spdx.json'') (gv_tree g p))"

definition reviewable :: "gate \<Rightarrow> path \<Rightarrow> unit res" where
  "reviewable g candidate =
     rbind (load_object g (candidate @ [''BLOCKERS.json''])) (\<lambda>blockers.
     if \<not> equals_int (dict_get_or JNull blockers ''blocker_count'') 0 \<or> truthy (dict_get_or JNull blockers ''blockers'')
     then raise ValueError ''candidate still has blockers; evidence preparation refused''
     else rbind (if is_file g (candidate @ [''LEGAL_REVIEW_QUEUE.json''])
            then rbind (load_object g (candidate @ [''LEGAL_REVIEW_QUEUE.json''])) (\<lambda>queue.
              if truthy (dict_get_or JNull queue ''legal_approval_recorded'') then Inr ()
              else raise ValueError ''Legal review is not recorded; evidence preparation refused'')
            else Inr ()) (\<lambda>_.
          all_pass (document_ok g) ((candidate @ [''sbom.spdx.candidate.json'']) # spdx_children g (candidate @ [''image-sboms'']))))"

section \<open>The attestation\<close>

text \<open>\<open>json.dumps(value, indent=2, sort_keys=True)\<close> of a value with sorted keys, at an indentation.\<close>

definition line_start :: "nat \<Rightarrow> string" where
  "line_start n = CHR 0x0A # replicate (2 * n) (CHR '' '')"

fun json_indented :: "nat \<Rightarrow> json \<Rightarrow> string" where
  "json_indented n (JList vs) =
     (if vs = [] then ''[]''
      else ''['' @ line_start (n + 1) @ py_join ('','' @ line_start (n + 1)) (map (json_indented (n + 1)) vs) @ line_start n @ '']'')"
| "json_indented n (JObj kvs) =
     (if kvs = [] then ''{}''
      else ''{'' @ line_start (n + 1) @
        py_join ('','' @ line_start (n + 1)) (map (\<lambda>(k, v). ascii_quote k @ '': '' @ json_indented (n + 1) v) kvs) @ line_start n @ ''}'')"
| "json_indented n j = json_dumps j"

definition dumps_indented :: "json \<Rightarrow> string" where
  "dumps_indented j = json_indented 0 (json_canon j)"

definition digest_of :: "gate \<Rightarrow> path \<Rightarrow> string \<times> string \<Rightarrow> json res" where
  "digest_of g staging item =
     (case item of (relative, kind) \<Rightarrow>
       rbind (if kind = ''directory'' then sha256_directory g (staging @ [relative]) else sha256_file g (staging @ [relative])) (\<lambda>digest.
       Inr (JObj [(''path'', JStr relative), (''kind'', JStr kind), (''sha256'', JStr digest)])))"

fun map_res :: "('a \<Rightarrow> 'b res) \<Rightarrow> 'a list \<Rightarrow> 'b list res" where
  "map_res f [] = Inr []"
| "map_res f (x # xs) = rbind (f x) (\<lambda>y. rbind (map_res f xs) (\<lambda>ys. Inr (y # ys)))"

definition unsigned_attestation :: "gate \<Rightarrow> path \<Rightarrow> path \<Rightarrow> object res" where
  "unsigned_attestation g staging artifact =
     rbind (load_object g (staging @ [''component-lock.json''])) (\<lambda>lock.
     if dict_get_or JNull lock ''release_status'' \<noteq> JStr ''approved''
     then raise ValueError ''reviewed component lock must already have release_status=approved''
     else rbind (map_res (digest_of g staging) attested) (\<lambda>artifacts.
          rbind (sha256_file g artifact) (\<lambda>digest.
          Inr [(''schema_version'', JInt 1),
               (''subject'', JObj [(''name'', JStr (last artifact)), (''sha256'', JStr digest)]),
               (''artifacts'', JList artifacts), (''approvals'', JList [])])))"

text \<open>
  The two files that are written next to the evidence. \<open>write_text\<close> opens the file before it encodes: a payload that is no
  UTF-8 leaves it empty.
\<close>

definition write_payload :: "failures \<Rightarrow> path \<Rightarrow> bytes res \<Rightarrow> unit io" where
  "write_payload failing p payload =
     (case payload of
        Inr bs \<Rightarrow> write_file failing p bs
      | Inl e \<Rightarrow> io_bind (write_file failing p []) (\<lambda>_. io_res (\<lambda>_. Inl e)))"

definition write_attestation :: "failures \<Rightarrow> path \<Rightarrow> object \<Rightarrow> unit io" where
  "write_attestation failing staging att =
     io_bind (write_file failing (staging @ [''attestation.unsigned.json'']) (dumps_indented (JObj att) @ [CHR 0x0A])) (\<lambda>_.
     write_payload failing (staging @ [''SIGNING_PAYLOAD.json'']) (signed_payload att))"

section \<open>prepare\<close>

definition settle_manifest :: "failures \<Rightarrow> path \<Rightarrow> string \<Rightarrow> unit io" where
  "settle_manifest failing staging folder d =
     (let candidate = staging @ [folder, ''manifest.candidate.json''] in
      if (case map_of d candidate of Some (NFile _) \<Rightarrow> True | _ \<Rightarrow> False)
      then move_file failing candidate (staging @ [folder, ''manifest.json'']) d else (Inr (), d))"

definition stage_files :: "failures \<Rightarrow> path \<Rightarrow> path \<Rightarrow> unit io" where
  "stage_files failing candidate staging =
     io_bind (io_each (\<lambda>name. copy_tree failing (candidate @ [name]) (staging @ [name])) copied_directories) (\<lambda>_.
     io_bind (settle_manifest failing staging ''image-sboms'') (\<lambda>_.
     io_bind (settle_manifest failing staging ''corresponding-source'') (\<lambda>_.
     io_each (\<lambda>(source, destination). copy_file failing (candidate @ [source]) (staging @ [destination])) copied_files)))"

definition publish :: "failures \<Rightarrow> path \<Rightarrow> path \<Rightarrow> unit io" where
  "publish failing staging output = guarded_write failing output (rename_tree staging output)"

definition stage :: "gate \<Rightarrow> failures \<Rightarrow> path \<Rightarrow> path \<Rightarrow> path \<Rightarrow> path \<Rightarrow> unit io" where
  "stage g failing candidate staging output artifact =
     io_bind (stage_files failing candidate staging) (\<lambda>_.
     io_bind (io_res (\<lambda>d. unsigned_attestation (gate_on d g) staging artifact)) (\<lambda>att.
     io_bind (write_attestation failing staging att) (\<lambda>_.
     publish failing staging output)))"

definition staging_path :: "path \<Rightarrow> path" where
  "staging_path output = butlast output @ [last output @ ''.staging'']"

definition refuse :: "gate \<Rightarrow> path \<Rightarrow> path \<Rightarrow> path \<Rightarrow> disk \<Rightarrow> unit res" where
  "refuse g candidate output artifact d =
     rbind (reviewable (gate_on d g) candidate) (\<lambda>_.
     if disk_stat d output \<noteq> Missing then raise OSError (''output already exists: '' @ path_text output @ ''; review and remove it explicitly'')
     else if \<not> is_file (gate_on d g) artifact \<or> is_empty_file (gate_on d g) artifact
     then raise ValueError ''final artifact is missing or empty''
     else if disk_stat d (staging_path output) \<noteq> Missing
     then raise OSError (''staging output already exists: '' @ path_text (staging_path output))
     else Inr ())"

definition prepare :: "gate \<Rightarrow> failures \<Rightarrow> path \<Rightarrow> path \<Rightarrow> path \<Rightarrow> path io" where
  "prepare g failing candidate output artifact =
     io_bind (io_res (refuse g candidate output artifact)) (\<lambda>_.
     io_bind (make_directory failing (staging_path output)) (\<lambda>_ d.
       case stage g failing candidate (staging_path output) output artifact d of
         (Inr _, d') \<Rightarrow> (Inr output, d')
       | (Inl e, d') \<Rightarrow> (Inl e, remove_tree failing (staging_path output) d')))"

text \<open>\<open>main()\<close> with resolved paths: what is printed, and the exit code.\<close>

definition prepare_main :: "gate \<Rightarrow> failures \<Rightarrow> path \<Rightarrow> path \<Rightarrow> path \<Rightarrow> (string list \<times> int) io" where
  "prepare_main g failing candidate output artifact d =
     (case prepare g failing candidate output artifact d of
        (Inr q, d') \<Rightarrow> (Inr ([''PASS: unsigned evidence prepared at '' @ path_text q,
           ''Release, Security and Legal must sign SIGNING_PAYLOAD.json independently.''], 0), d')
      | (Inl e, d') \<Rightarrow> (if is_os_error e \<or> is_value_error e then (Inr ([''BLOCKED: '' @ exn_msg e], 1), d') else (Inl e, d')))"

section \<open>Paths and subtrees\<close>

lemma path_below_append [simp]: "path_below p (p @ r)"
  by (simp add: path_below_def)

lemma path_below_split: "path_below p q \<longleftrightarrow> (\<exists>r. q = p @ r)"
  unfolding path_below_def by (metis append_eq_conv_conj append_take_drop_id)

lemma path_below_longer: "path_below p q \<Longrightarrow> length p \<le> length q"
  by (auto simp: path_below_split)

text \<open>Siblings with different names have nothing in common below them.\<close>

lemma siblings_apart: "path_below (p @ [a]) q \<Longrightarrow> path_below (p @ [b]) q \<Longrightarrow> a = b"
  by (auto simp: path_below_split)

lemma subtree_Cons: "subtree ((q, n) # d) p = (if path_below p q then (drop (length p) q, n) # subtree d p else subtree d p)"
  by (simp add: subtree_def)

lemma subtree_Nil [simp]: "subtree [] p = []"
  by (simp add: subtree_def)

lemma map_of_subtree: "map_of (subtree d p) r = map_of d (p @ r)"
proof (induction d)
  case (Cons x d)
  obtain q n where x: "x = (q, n)" by fastforce
  have "path_below p q \<Longrightarrow> drop (length p) q = r \<longleftrightarrow> q = p @ r" by (auto simp: path_below_split)
  then show ?case using Cons x by (cases "path_below p q") (auto simp: subtree_Cons path_below_split)
qed simp

lemma subtree_set:
  assumes "\<not> path_below p q"
  shows "subtree (dict_set q n d) p = subtree d p"
  using assms by (induction d) (auto simp: subtree_Cons)

lemma map_of_rename:
  assumes "\<forall>r. map_of d (q @ r) = None"
  shows "map_of (rename_tree p q d) (q @ r) = map_of d (p @ r)"
  using assms
proof (induction d)
  case (Cons x d)
  obtain s n where x: "x = (s, n)" by fastforce
  have "\<forall>r. map_of d (q @ r) = None" and s: "\<forall>r. s \<noteq> q @ r" using Cons.prems x by (auto split: if_splits)
  moreover have "path_below p s \<Longrightarrow> drop (length p) s = r \<longleftrightarrow> s = p @ r" by (auto simp: path_below_split)
  ultimately show ?case using Cons.IH x by (auto simp: rename_tree_def)
qed (simp add: rename_tree_def)

lemma map_of_rename_other:
  assumes "\<not> path_below p s" "\<not> path_below q s"
  shows "map_of (rename_tree p q d) s = map_of d s"
  using assms by (induction d) (auto simp: rename_tree_def path_below_split)

lemma subtree_rename:
  assumes "\<forall>r. map_of d (q @ r) = None"
  shows "subtree (rename_tree p q d) (q @ r) = subtree d (p @ r)"
  using assms
proof (induction d)
  case (Cons x d)
  obtain s n where x: "x = (s, n)" by fastforce
  have d: "\<forall>r. map_of d (q @ r) = None" and s: "\<not> path_below q s"
    using Cons.prems x by (auto simp: path_below_split split: if_splits)
  then have "\<not> path_below (q @ r) s" by (auto simp: path_below_split)
  then show ?case using Cons.IH [OF d] x by (auto simp: rename_tree_def subtree_Cons path_below_split)
qed (simp add: rename_tree_def)

lemma map_of_remove:
  "map_of (remove_tree failing p d) q = (if path_below p q \<and> \<not> held failing q d then None else map_of d q)"
proof -
  have "map_of (filter (\<lambda>(q, n). \<not> path_below p q \<or> held failing q e) d) q =
      (if path_below p q \<and> \<not> held failing q e then None else map_of d q)" for e
    by (induction d) auto
  then show ?thesis by (simp add: remove_tree_def)
qed

lemma held_left:
  assumes "held failing q d" "path_below p q"
  shows "\<exists>r. path_below q r \<and> fl_stuck failing r \<and> map_of (remove_tree failing p d) r \<noteq> None"
proof -
  obtain r n where r: "(r, n) \<in> set d" "path_below q r" "fl_stuck failing r" using assms(1) by (auto simp: held_def list_ex_iff)
  moreover have "path_below r r" by (simp add: path_below_def)
  ultimately have "held failing r d" unfolding held_def list_ex_iff by fast
  moreover have "map_of d r \<noteq> None" using weak_map_of_SomeI [OF r(1)] by auto
  ultimately show ?thesis using r(2,3) map_of_remove by metis
qed

lemma gate_on_simps [simp]:
  "gv_stat (gate_on d g) = disk_stat d" "gv_read (gate_on d g) = disk_read d" "gv_tree (gate_on d g) = disk_tree d"
  "gv_repr (gate_on d g) = gv_repr g" "gv_resolve (gate_on d g) = gv_resolve g"
  by (simp_all add: gate_on_def)

lemma disk_read_Inr [simp]: "disk_read d p = Inr bs \<longleftrightarrow> map_of d p = Some (NFile bs)"
  by (simp add: disk_read_def split: option.splits node.splits)

lemma is_file_disk: "is_file (gate_on d g) p \<longleftrightarrow> (\<exists>bs. map_of d p = Some (NFile bs))"
  by (auto simp: is_file_def disk_stat_def split: option.splits node.splits)

text \<open>The digest of a directory depends on what is below it, not on where it is.\<close>

lemma directory_digest_moved:
  assumes "subtree d p = subtree d' p'" "sha256_directory (gate_on d g) p = Inr h"
  shows "sha256_directory (gate_on d' g) p' = Inr h"
proof -
  have m: "map_of d (p @ r) = map_of d' (p' @ r)" for r using assms(1) by (metis map_of_subtree)
  have f: "files_below (gate_on d' g) p' = files_below (gate_on d g) p"
    using assms(1) m by (simp add: files_below_def is_file_disk disk_tree_def)
  have "directory_bytes (gate_on d g) p rels = Inr bs \<Longrightarrow> directory_bytes (gate_on d' g) p' rels = Inr bs" for rels bs
    by (induction rels arbitrary: bs) (auto simp: rbind_Inr_iff directory_entry_def Let_def m split: if_splits)
  then show ?thesis using assms(2) f by (auto simp: sha256_directory_def rbind_Inr_iff)
qed

section \<open>What an operation leaves alone\<close>

text \<open>An operation that changes nothing outside a directory, and no directory into something else.\<close>

definition stays_below :: "path \<Rightarrow> 'a io \<Rightarrow> bool" where
  "stays_below p m \<longleftrightarrow> (\<forall>d q. \<not> path_below p q \<longrightarrow> map_of (snd (m d)) q = map_of d q)"

definition keeps_folders :: "'a io \<Rightarrow> bool" where
  "keeps_folders m \<longleftrightarrow> (\<forall>d q. map_of d q = Some NDir \<longrightarrow> map_of (snd (m d)) q = Some NDir)"

lemma stays_belowD: "stays_below p m \<Longrightarrow> m d = (r, d') \<Longrightarrow> \<not> path_below p q \<Longrightarrow> map_of d' q = map_of d q"
  unfolding stays_below_def by (metis snd_conv)

lemma keeps_foldersD: "keeps_folders m \<Longrightarrow> m d = (r, d') \<Longrightarrow> map_of d q = Some NDir \<Longrightarrow> map_of d' q = Some NDir"
  unfolding keeps_folders_def by (metis snd_conv)

named_theorems frame_rules \<open>operations that stay below a directory and keep folders\<close>

lemma frame_bind [frame_rules]:
  "stays_below p m \<Longrightarrow> (\<And>a. stays_below p (f a)) \<Longrightarrow> stays_below p (io_bind m f)"
  "keeps_folders m \<Longrightarrow> (\<And>a. keeps_folders (f a)) \<Longrightarrow> keeps_folders (io_bind m f)"
  by (auto simp: stays_below_def keeps_folders_def io_bind_def split: sum.splits prod.splits) (metis snd_conv)+

lemma frame_res [frame_rules]: "stays_below p (io_res f)" "keeps_folders (io_res f)"
  by (simp_all add: stays_below_def keeps_folders_def io_res_def)

lemma frame_each [frame_rules]:
  "(\<And>x. x \<in> set xs \<Longrightarrow> stays_below p (f x)) \<Longrightarrow> stays_below p (io_each f xs)"
  "(\<And>x. x \<in> set xs \<Longrightarrow> keeps_folders (f x)) \<Longrightarrow> keeps_folders (io_each f xs)"
  by (induction xs) (auto intro: frame_bind simp: stays_below_def [of p "\<lambda>d. (Inr (), d)"] keeps_folders_def [of "\<lambda>d. (Inr (), d)"])

lemma copied_below: "(q, n) \<in> set (copied_entry failing p x) \<Longrightarrow> q = p @ fst x"
  by (cases x) (auto simp: copied_entry_def split: if_splits node.splits option.splits)

lemma map_of_grafted:
  "\<not> path_below p q \<Longrightarrow> map_of (concat (map (copied_entry failing p) t)) q = None"
  by (auto simp: map_of_eq_None_iff dest!: copied_below)

lemma frame_copy_tree [frame_rules]:
  "path_below p dst \<Longrightarrow> stays_below p (copy_tree failing src dst)" "keeps_folders (copy_tree failing src dst)"
proof -
  have "\<not> path_below p q \<Longrightarrow> \<not> path_below dst q" if "path_below p dst" for q using that by (auto simp: path_below_split)
  then show "path_below p dst \<Longrightarrow> stays_below p (copy_tree failing src dst)"
    by (auto simp: stays_below_def copy_tree_def map_add_def map_of_grafted split: option.splits)
  show "keeps_folders (copy_tree failing src dst)"
    by (auto simp: keeps_folders_def copy_tree_def map_add_def split: option.splits)
qed

lemma frame_write [frame_rules]:
  "path_below p q \<Longrightarrow> stays_below p (write_file failing q bs)" "keeps_folders (write_file failing q bs)"
  by (auto simp: stays_below_def keeps_folders_def write_file_def dict_simps split: option.splits)

lemma frame_payload [frame_rules]:
  "path_below p q \<Longrightarrow> stays_below p (write_payload failing q payload)" "keeps_folders (write_payload failing q payload)"
  unfolding write_payload_def by (auto intro!: frame_rules split: sum.splits)

lemma frame_copy_file [frame_rules]:
  "path_below p q \<Longrightarrow> stays_below p (copy_file failing src q)" "keeps_folders (copy_file failing src q)"
  using frame_write by (auto simp: stays_below_def keeps_folders_def copy_file_def split: option.splits node.splits)

lemma frame_settle [frame_rules]: "stays_below p (settle_manifest failing p folder)" "keeps_folders (settle_manifest failing p folder)"
  by (auto simp: stays_below_def keeps_folders_def settle_manifest_def move_file_def guarded_write_def dict_simps Let_def
    split: option.splits node.splits)

lemma frame_stage_files [frame_rules]: "stays_below p (stage_files failing candidate p)" "keeps_folders (stage_files failing candidate p)"
  unfolding stage_files_def by (intro frame_rules; auto intro!: frame_rules)+

lemma frame_attestation [frame_rules]: "stays_below p (write_attestation failing p att)" "keeps_folders (write_attestation failing p att)"
  unfolding write_attestation_def by (intro frame_rules path_below_append)+

section \<open>Disks without orphans\<close>

text \<open>Every proper ancestor of an entry is a directory; the root has no entry.\<close>

definition disk_wf :: "disk \<Rightarrow> bool" where
  "disk_wf d \<longleftrightarrow> map_of d [] = None \<and>
     list_all (\<lambda>(p, n). list_all (\<lambda>k. map_of d (take k p) = Some NDir) [1..<length p]) d"

lemma nothing_below:
  assumes "disk_wf d" "disk_stat d p = Missing"
  shows "map_of d (p @ r) = None"
proof (rule ccontr)
  assume "map_of d (p @ r) \<noteq> None"
  then obtain n where n: "(p @ r, n) \<in> set d" by (auto dest: map_of_SomeD)
  have p: "p \<noteq> []" "map_of d p = None" using assms(2) by (auto simp: disk_stat_def split: option.splits node.splits if_splits)
  show False
  proof (cases "r = []")
    case True
    then show ?thesis using n p(2) by (auto simp: map_of_eq_None_iff image_iff)
  next
    case False
    then have "length p \<in> set [1..<length (p @ r)]" using p(1) by (auto simp: Suc_le_eq)
    moreover have "\<forall>k \<in> set [1..<length (p @ r)]. map_of d (take k (p @ r)) = Some NDir"
      using assms(1) n unfolding disk_wf_def list_all_iff by fast
    ultimately have "map_of d (take (length p) (p @ r)) = Some NDir" by blast
    then show ?thesis using p(2) by simp
  qed
qed

lemma map_of_add_directory:
  "map_of (add_directory p d) q = (if q = p \<and> p \<noteq> [] \<and> map_of d p = None then Some NDir else map_of d q)"
  by (auto simp: add_directory_def map_add_def split: option.splits)

lemma missing_stat: "disk_stat d p = Missing \<Longrightarrow> p \<noteq> [] \<and> map_of d p = None"
  by (auto simp: disk_stat_def split: option.splits node.splits if_splits)

lemma make_missing_cases:
  assumes "make_missing failing p d = (r, d')" "p \<noteq> []"
  shows "map_of d' q = (if q = p \<and> r = Inr () \<and> map_of d p = None then Some NDir else map_of d q)"
  using assms by (auto simp: make_missing_def guarded_write_def map_of_add_directory split: if_splits option.splits)

lemma made_missing:
  assumes "io_each (make_missing failing) ps d = (Inr u, d')" "[] \<notin> set ps"
  shows "map_of d' q = (if q \<in> set ps \<and> map_of d q = None then Some NDir else map_of d q)"
  using assms
proof (induction ps arbitrary: d)
  case (Cons p ps)
  obtain v d1 where c: "make_missing failing p d = (Inr v, d1)" "io_each (make_missing failing) ps d1 = (Inr u, d')"
    using Cons.prems(1) by (auto simp: io_bind_def split: sum.splits prod.splits)
  show ?case using Cons.IH [OF c(2)] make_missing_cases [OF c(1), of q] Cons.prems(2) by (auto split: if_splits)
qed simp

lemma failed_missing:
  assumes "io_each (make_missing failing) (ps @ [p]) d = (Inl e, d')" "[] \<notin> set (ps @ [p])"
  shows "map_of d' q = map_of d q \<or> q \<in> set ps \<and> map_of d q = None \<and> map_of d' q = Some NDir"
  using assms
proof (induction ps arbitrary: d)
  case Nil
  then have "make_missing failing p d = (Inl e, d')" by (auto simp: io_bind_def split: sum.splits prod.splits)
  then show ?case using make_missing_cases [of failing p d "Inl e" d' q] Nil.prems(2) by simp
next
  case (Cons a ps)
  consider "make_missing failing a d = (Inl e, d')"
    | v d1 where "make_missing failing a d = (Inr v, d1)" "io_each (make_missing failing) (ps @ [p]) d1 = (Inl e, d')"
    using Cons.prems(1) by (auto simp: io_bind_def split: sum.splits prod.splits)
  then show ?case
  proof cases
    case 1
    moreover have "a \<noteq> []" using Cons.prems(2) by auto
    ultimately show ?thesis using make_missing_cases [OF 1, of q] by simp
  next
    case 2
    moreover have "a \<noteq> []" "[] \<notin> set (ps @ [p])" using Cons.prems(2) by auto
    ultimately show ?thesis using Cons.IH [OF 2(2)] make_missing_cases [OF 2(1), of q] by (auto split: if_splits)
  qed
qed

lemma ancestors_proper: "[] \<notin> set (ancestors p)"
  by (auto simp: ancestors_def)

lemma make_directory_Inr:
  assumes "make_directory failing p d = (Inr u, d')"
  shows "map_of d' q = (if q \<in> set (ancestors p @ [p]) \<and> q \<noteq> [] \<and> map_of d q = None then Some NDir else map_of d q)"
proof -
  have "io_each (make_missing failing) (ancestors p @ [p]) d = (Inr u, d')" "disk_stat d p = Missing"
    using assms by (auto simp: make_directory_def split: if_splits)
  moreover from this(2) have "[] \<notin> set (ancestors p @ [p])" using ancestors_proper missing_stat by auto
  ultimately show ?thesis using made_missing [of failing "ancestors p @ [p]" d u d' q] by auto
qed

lemma make_directory_Inl:
  assumes "make_directory failing p d = (Inl e, d')"
  shows "map_of d' q = map_of d q \<or> q \<in> set (ancestors p) \<and> map_of d q = None \<and> map_of d' q = Some NDir"
proof (cases "d' = d")
  case False
  then have "io_each (make_missing failing) (ancestors p @ [p]) d = (Inl e, d')" "disk_stat d p = Missing"
    using assms by (auto simp: make_directory_def split: if_splits)
  moreover from this(2) have "[] \<notin> set (ancestors p @ [p])" using ancestors_proper missing_stat by auto
  ultimately show ?thesis using failed_missing by blast
qed simp

lemma ancestor_shorter: "q \<in> set (ancestors p) \<Longrightarrow> length q < length p \<and> path_below q p"
  by (auto simp: ancestors_def path_below_def)

lemma staging_apart: "path_below (staging_path output) q \<Longrightarrow> path_below output q \<Longrightarrow> output = []"
proof (rule ccontr)
  assume b: "path_below (staging_path output) q" "path_below output q" "output \<noteq> []"
  then have "path_below (butlast output @ [last output]) q" by simp
  then have "last output @ ''.staging'' = last output" using b(1) siblings_apart unfolding staging_path_def by blast
  then show False by simp
qed

lemma ancestor_not_below: "output \<noteq> [] \<Longrightarrow> q \<in> set (ancestors (staging_path output)) \<Longrightarrow> \<not> path_below output q"
  using ancestor_shorter [of q "staging_path output"] path_below_longer [of "output" q] by (auto simp: staging_path_def)

lemma length_staging: "output \<noteq> [] \<Longrightarrow> length (staging_path output) = length output"
  by (simp add: staging_path_def)

section \<open>Failure leaves nothing behind\<close>

lemma io_bind_cases:
  "io_bind m f d = (Inl e, d') \<Longrightarrow> m d = (Inl e, d') \<or> (\<exists>a d1. m d = (Inr a, d1) \<and> f a d1 = (Inl e, d'))"
  "io_bind m f d = (Inr b, d') \<Longrightarrow> \<exists>a d1. m d = (Inr a, d1) \<and> f a d1 = (Inr b, d')"
  by (auto simp: io_bind_def split: sum.splits prod.splits)

lemma publish_Inl: "publish failing p q d = (Inl e, d') \<Longrightarrow> d' = d"
  by (auto simp: publish_def guarded_write_def split: option.splits)

lemma stage_failed:
  assumes "stage g failing candidate p output artifact d = (Inl e, d')" "\<not> path_below p q"
  shows "map_of d' q = map_of d q"
proof -
  let ?m = "\<lambda>att. write_attestation failing p att"
  have s: "map_of (snd (stage_files failing candidate p d)) q = map_of d q" "map_of (snd (?m att d1)) q = map_of d1 q" for att d1
    using assms(2) frame_stage_files(1) frame_attestation(1) unfolding stays_below_def by blast+
  consider "stage_files failing candidate p d = (Inl e, d')"
    | u d1 where "stage_files failing candidate p d = (Inr u, d1)" "d' = d1"
    | u d1 att where "stage_files failing candidate p d = (Inr u, d1)" "?m att d1 = (Inl e, d')"
    | u d1 att v where "stage_files failing candidate p d = (Inr u, d1)" "?m att d1 = (Inr v, d')"
    using assms(1) unfolding stage_def
    by (auto dest!: io_bind_cases publish_Inl simp: io_res_def)
  then show ?thesis using s by cases (metis snd_conv)+
qed

lemma refuse_Inr:
  assumes "refuse g candidate output artifact d = Inr u"
  shows "output \<noteq> []" "map_of d output = None" "disk_stat d output = Missing" "disk_stat d (staging_path output) = Missing"
    "\<exists>bs. map_of d artifact = Some (NFile bs) \<and> bs \<noteq> []"
proof -
  have r: "disk_stat d output = Missing" "disk_stat d (staging_path output) = Missing"
      "is_file (gate_on d g) artifact" "\<not> is_empty_file (gate_on d g) artifact"
    using assms by (auto simp: refuse_def rbind_Inr_iff split: if_splits)
  then show "output \<noteq> []" "map_of d output = None" "disk_stat d output = Missing" "disk_stat d (staging_path output) = Missing"
    by (auto simp: disk_stat_def split: option.splits node.splits)
  obtain bs where b: "map_of d artifact = Some (NFile bs)" using r(3) by (auto simp: is_file_disk)
  then show "\<exists>bs. map_of d artifact = Some (NFile bs) \<and> bs \<noteq> []"
    using r(4) by (auto simp: is_empty_file_def disk_stat_def)
qed

section \<open>The steps of a preparation\<close>

lemma copied_folder:
  assumes "copy_tree failing src dst d = (Inr u, d')"
  shows "map_of d' dst = Some NDir"
proof -
  have s: "map_of d src = Some NDir" "disk_stat d dst = Missing" "d' = d @ concat (map (copied_entry failing dst) (subtree d src))"
      "fl_error failing dst = None"
    using assms by (auto simp: copy_tree_def split: if_splits option.splits)
  have e: "map_of (copied_entry failing dst x) dst = (if fst x = [] then Some (snd x) else None)" for x
    using s(4) by (cases x) (auto simp: copied_entry_def reached_def split: option.splits node.splits)
  have "map_of (concat (map (copied_entry failing dst) t)) dst = map_of t []" for t
    by (induction t) (auto simp: e map_add_def split: option.splits)
  from this [of "subtree d src"] have "map_of (concat (map (copied_entry failing dst) (subtree d src))) dst = Some NDir"
    using s(1) by (simp add: map_of_subtree)
  moreover have "map_of d dst = None" using s(2) by (auto simp: disk_stat_def split: option.splits node.splits if_splits)
  ultimately show ?thesis using s(3) by (simp add: map_add_def)
qed

lemma staged_folders:
  assumes "stage_files failing candidate p d = (Inr u, d')" "name \<in> set copied_directories"
  shows "map_of d' (p @ [name]) = Some NDir"
proof -
  let ?copy = "\<lambda>name. copy_tree failing (candidate @ [name]) (p @ [name])"
  let ?rest = "io_bind (settle_manifest failing p ''image-sboms'') (\<lambda>_.
     io_bind (settle_manifest failing p ''corresponding-source'') (\<lambda>_.
     io_each (\<lambda>(source, destination). copy_file failing (candidate @ [source]) (p @ [destination])) copied_files))"
  have each: "io_each ?copy names d1 = (Inr v, d2) \<Longrightarrow> name \<in> set names \<Longrightarrow> map_of d2 (p @ [name]) = Some NDir" for names d1 d2 v
  proof (induction names arbitrary: d1)
    case (Cons n ns)
    obtain a d3 where c: "?copy n d1 = (Inr a, d3)" "io_each ?copy ns d3 = (Inr v, d2)"
      using io_bind_cases(2) [OF Cons.prems(1) [unfolded io_each.simps]] by blast
    have k: "keeps_folders (io_each ?copy ns)" by (intro frame_rules)
    show ?case
    proof (cases "name = n")
      case True
      then have "map_of d3 (p @ [name]) = Some NDir" using copied_folder [OF c(1)] by simp
      then show ?thesis by (rule keeps_foldersD [OF k c(2)])
    next
      case False
      then show ?thesis using Cons.IH [OF c(2)] Cons.prems(2) by simp
    qed
  qed simp
  obtain a d1 where d1: "io_each ?copy copied_directories d = (Inr a, d1)" "?rest d1 = (Inr u, d')"
    using io_bind_cases(2) [OF assms(1) [unfolded stage_files_def]] by blast
  have "keeps_folders ?rest" by (intro frame_rules; auto intro!: frame_rules)
  then show ?thesis using each [OF d1(1) assms(2)] keeps_foldersD d1(2) by blast
qed

lemma write_file_Inr:
  "write_file failing p bs d = (Inr u, d') \<Longrightarrow> d' = dict_set p (NFile bs) d"
  by (auto simp: write_file_def split: if_splits option.splits)

lemma write_payload_Inr:
  "write_payload failing p payload d = (Inr u, d') \<Longrightarrow> \<exists>bs. payload = Inr bs \<and> d' = dict_set p (NFile bs) d"
  by (auto simp: write_payload_def io_bind_def io_res_def dest: write_file_Inr split: sum.splits prod.splits)

lemma write_attestation_Inr:
  assumes "write_attestation failing p att d = (Inr u, d')"
  shows "\<exists>payload. signed_payload att = Inr payload \<and>
    d' = dict_set (p @ [''SIGNING_PAYLOAD.json'']) (NFile payload)
      (dict_set (p @ [''attestation.unsigned.json'']) (NFile (dumps_indented (JObj att) @ [CHR 0x0A])) d)"
  using assms unfolding write_attestation_def
  by (auto dest!: io_bind_cases(2) write_file_Inr write_payload_Inr)

text \<open>Where a preparation that fails has come to.\<close>

lemma prepare_Inl:
  assumes "prepare g failing candidate output artifact d = (Inl e, d')"
  shows "refuse g candidate output artifact d = Inl e \<and> d' = d \<or>
    (\<exists>u. refuse g candidate output artifact d = Inr u \<and> make_directory failing (staging_path output) d = (Inl e, d')) \<or>
    (\<exists>u d1 d2. refuse g candidate output artifact d = Inr u \<and> make_directory failing (staging_path output) d = (Inr (), d1) \<and>
      stage g failing candidate (staging_path output) output artifact d1 = (Inl e, d2) \<and> d' = remove_tree failing (staging_path output) d2)"
proof (cases "refuse g candidate output artifact d")
  case (Inr u)
  obtain r d1 where m: "make_directory failing (staging_path output) d = (r, d1)" by fastforce
  show ?thesis
  proof (cases r)
    case (Inr v)
    obtain t d2 where s: "stage g failing candidate (staging_path output) output artifact d1 = (t, d2)" by fastforce
    then show ?thesis using assms \<open>refuse g candidate output artifact d = Inr u\<close> m Inr
      by (cases t) (simp_all add: prepare_def io_bind_def io_res_def)
  qed (use assms Inr m in \<open>simp add: prepare_def io_bind_def io_res_def\<close>)
qed (use assms in \<open>simp add: prepare_def io_bind_def io_res_def\<close>)

text \<open>All the steps of a preparation that succeeds.\<close>

lemma prepare_Inr:
  assumes "prepare g failing candidate output artifact d = (Inr q, d')"
  shows "\<exists>u d1 d2 att payload.
    q = output \<and> refuse g candidate output artifact d = Inr u \<and>
    make_directory failing (staging_path output) d = (Inr (), d1) \<and>
    stage_files failing candidate (staging_path output) d1 = (Inr (), d2) \<and>
    unsigned_attestation (gate_on d2 g) (staging_path output) artifact = Inr att \<and> signed_payload att = Inr payload \<and>
    d' = rename_tree (staging_path output) output
      (dict_set (staging_path output @ [''SIGNING_PAYLOAD.json'']) (NFile payload)
      (dict_set (staging_path output @ [''attestation.unsigned.json'']) (NFile (dumps_indented (JObj att) @ [CHR 0x0A])) d2))"
proof -
  let ?s = "staging_path output"
  obtain u d1 where a: "refuse g candidate output artifact d = Inr u" "make_directory failing ?s d = (Inr (), d1)"
      "(case stage g failing candidate ?s output artifact d1 of (Inr _, d') \<Rightarrow> (Inr output, d')
        | (Inl e, d') \<Rightarrow> (Inl e, remove_tree failing ?s d')) = (Inr q, d')"
    using assms unfolding prepare_def io_bind_def io_res_def by (auto split: sum.splits prod.splits)
  then have s: "stage g failing candidate ?s output artifact d1 = (Inr (), d')" "q = output"
    by (auto split: sum.splits prod.splits)
  obtain d2 att d3 where b: "stage_files failing candidate ?s d1 = (Inr (), d2)"
      "unsigned_attestation (gate_on d2 g) ?s artifact = Inr att"
      "write_attestation failing ?s att d2 = (Inr (), d3)" "publish failing ?s output d3 = (Inr (), d')"
    using s(1) unfolding stage_def io_bind_def io_res_def by (auto split: sum.splits prod.splits)
  have "d' = rename_tree ?s output d3" using b(4) by (auto simp: publish_def guarded_write_def split: option.splits)
  then show ?thesis using a(1,2) b s(2) write_attestation_Inr [OF b(3)] by blast
qed

end
