(* ===== verification/EvidenceFacts.thy ===== *)
theory EvidenceFacts
  imports Evidence
begin

text \<open>
  The preparation of evidence and the gate together: the attestation that is prepared binds what the gate
  will look at, and the payload laid out for the reviewers is the one whose signatures the gate verifies.
\<close>

section \<open>The digests of an attestation\<close>

definition digest_res :: "gate \<Rightarrow> path \<Rightarrow> string \<times> string \<Rightarrow> string res" where
  "digest_res g p item =
     (if snd item = ''directory'' then sha256_directory g (p @ [fst item]) else sha256_file g (p @ [fst item]))"

definition attested_entry :: "(string \<times> string \<Rightarrow> string) \<Rightarrow> string \<times> string \<Rightarrow> json" where
  "attested_entry h item = JObj [(''path'', JStr (fst item)), (''kind'', JStr (snd item)), (''sha256'', JStr (h item))]"

lemma digest_of_res: "digest_of g p item = rbind (digest_res g p item) (\<lambda>d. Inr (attested_entry (\<lambda>_. d) item))"
  by (simp add: digest_of_def digest_res_def attested_entry_def case_prod_unfold)

lemma digest_entries:
  "map_res (digest_of g p) items = Inr artifacts \<Longrightarrow>
    artifacts = map (attested_entry (\<lambda>item. projr (digest_res g p item))) items \<and>
    list_all (\<lambda>item. digest_res g p item = Inr (projr (digest_res g p item))) items"
proof (induction items arbitrary: artifacts)
  case (Cons item items)
  obtain digest rest where "digest_res g p item = Inr digest" "map_res (digest_of g p) items = Inr rest"
      "artifacts = attested_entry (\<lambda>_. digest) item # rest"
    using Cons.prems unfolding map_res.simps rbind_Inr_iff digest_of_res by blast
  then show ?case using Cons.IH by (simp add: attested_entry_def)
qed simp

lemma attested_checks:
  assumes "dict_get_or JNull att ''artifacts'' = JList (map (attested_entry h) attested)"
    and "list_all (\<lambda>item. artifact_sha256 g (p @ [fst item]) = Inr (h item)) attested"
  shows "check_artifacts g p att = Inr []"
  using assms(2) unfolding check_artifacts_def assms(1)
  by (simp add: then_check_def check_artifact_def entries_by_def dict_of_def evidence_files_def attested_def attested_entry_def
    str_or_none_def dict_get_or_def flag_def duplicates_Nil)

lemma unsigned_attestation_Inr:
  assumes "unsigned_attestation g p artifact = Inr att"
  shows "\<exists>h contents. gv_read g artifact = Inr contents \<and> list_all (\<lambda>item. digest_res g p item = Inr (h item)) attested \<and>
    att = [(''schema_version'', JInt 1),
      (''subject'', JObj [(''name'', JStr (last artifact)), (''sha256'', JStr (sha256_hexdigest contents))]),
      (''artifacts'', JList (map (attested_entry h) attested)), (''approvals'', JList [])]"
proof -
  obtain artifacts digest where a: "map_res (digest_of g p) attested = Inr artifacts" "sha256_file g artifact = Inr digest"
      "att = [(''schema_version'', JInt 1), (''subject'', JObj [(''name'', JStr (last artifact)), (''sha256'', JStr digest)]),
         (''artifacts'', JList artifacts), (''approvals'', JList [])]"
    using assms by (auto simp: unsigned_attestation_def rbind_Inr_iff split: if_splits)
  then show ?thesis using digest_entries [OF a(1)] unfolding sha256_file_Inr
    by (intro exI [of _ "\<lambda>item. projr (digest_res g p item)"]) auto
qed

section \<open>The published directory\<close>

text \<open>After the two files are written and the staging directory has its name, the evidence is what was staged.\<close>

lemma published:
  assumes "\<forall>r. map_of d (q @ r) = None" "\<not> path_below q p" "p \<noteq> []" "length p = length q"
    and "d' = rename_tree p q (dict_set (p @ [a]) x (dict_set (p @ [b]) y d))" "a \<noteq> b"
  shows "map_of d' (q @ [a]) = Some x" "map_of d' (q @ [b]) = Some y"
    and "name \<notin> {a, b} \<Longrightarrow> map_of d' (q @ name # r) = map_of d (p @ name # r)"
    and "name \<notin> {a, b} \<Longrightarrow> subtree d' (q @ [name]) = subtree d (p @ [name])"
    and "\<not> path_below p s \<Longrightarrow> \<not> path_below q s \<Longrightarrow> map_of d' s = map_of d s"
proof -
  let ?d = "dict_set (p @ [a]) x (dict_set (p @ [b]) y d)"
  have "p \<noteq> q" using assms(2) by (auto simp: path_below_def)
  then have "q @ r \<noteq> p @ s" for r s using assms(4) by simp
  then have n: "\<forall>r. map_of ?d (q @ r) = None" using assms(1) by (simp add: dict_simps)
  show "map_of d' (q @ [a]) = Some x" "map_of d' (q @ [b]) = Some y"
    using map_of_rename [OF n, of p] assms(5,6) by (simp_all add: dict_simps)
  show "name \<notin> {a, b} \<Longrightarrow> map_of d' (q @ name # r) = map_of d (p @ name # r)"
    using map_of_rename [OF n, of p "name # r"] assms(5) by (simp add: dict_simps)
  show "name \<notin> {a, b} \<Longrightarrow> subtree d' (q @ [name]) = subtree d (p @ [name])"
    using subtree_rename [OF n, of p "[name]"] assms(5) by (auto simp: subtree_set path_below_split)
  show "\<not> path_below p s \<Longrightarrow> \<not> path_below q s \<Longrightarrow> map_of d' s = map_of d s"
    using assms(5) map_of_rename_other [of p s q ?d] by (auto simp: dict_simps)
qed

lemma published_digest:
  assumes "digest_res (gate_on d g) p item = Inr h" "snd item = ''directory'' \<longrightarrow> map_of d (p @ [fst item]) = Some NDir"
    and "snd item = ''directory'' \<longrightarrow> subtree d' (q @ [fst item]) = subtree d (p @ [fst item])"
    and "map_of d' (q @ [fst item]) = map_of d (p @ [fst item])"
  shows "artifact_sha256 (gate_on d' g) (q @ [fst item]) = Inr h"
proof (cases "snd item = ''directory''")
  case True
  then have "gv_stat (gate_on d' g) (q @ [fst item]) = Folder" using assms(2,4) by (simp add: disk_stat_def)
  moreover have "sha256_directory (gate_on d g) (p @ [fst item]) = Inr h"
    using assms(1) unfolding digest_res_def True if_P [OF refl] .
  then have "sha256_directory (gate_on d' g) (q @ [fst item]) = Inr h"
    by (rule directory_digest_moved [OF mp [OF assms(3) True, symmetric]])
  ultimately show ?thesis by (simp add: artifact_sha256_def)
next
  case False
  then have "sha256_file (gate_on d g) (p @ [fst item]) = Inr h" using assms(1) by (simp add: digest_res_def)
  then obtain bs where "map_of d (p @ [fst item]) = Some (NFile bs)" "h = sha256_hexdigest bs"
    unfolding sha256_file_Inr gate_on_simps disk_read_Inr by blast
  then show ?thesis using assms(4) by (simp add: artifact_sha256_def disk_stat_def sha256_file_Inr)
qed

text \<open>
  C17: what the reviewers sign is what the gate verifies. After a preparation that succeeds, SIGNING\_PAYLOAD.json
  holds exactly the bytes whose signatures the gate checks, whatever approvals are put on the attestation,
  and the gate finds its subject and its seven digests to be those of the artifact and of the evidence
  in the output directory.
\<close>

theorem prepared_evidence_bound:
  assumes "disk_wf d" "py_strip (last artifact) \<noteq> []" "prepare g failing candidate output artifact d = (Inr q, d')"
  shows "\<exists>att payload. q = output \<and>
    map_of d' (output @ [''attestation.unsigned.json'']) = Some (NFile (dumps_indented (JObj att) @ [CHR 0x0A])) \<and>
    map_of d' (output @ [''SIGNING_PAYLOAD.json'']) = Some (NFile payload) \<and>
    (\<forall>approvals. let signed = dict_set ''approvals'' approvals att in
      signed_payload signed = Inr payload \<and> check_subject (gate_on d' g) signed (Some artifact) = Inr [] \<and>
      check_artifacts (gate_on d' g) output signed = Inr [])"
proof -
  let ?s = "staging_path output"
  obtain u d1 d2 att payload where p: "q = output" "refuse g candidate output artifact d = Inr u"
      "make_directory failing ?s d = (Inr (), d1)" "stage_files failing candidate ?s d1 = (Inr (), d2)"
      "unsigned_attestation (gate_on d2 g) ?s artifact = Inr att" "signed_payload att = Inr payload"
      "d' = rename_tree ?s output (dict_set (?s @ [''SIGNING_PAYLOAD.json'']) (NFile payload)
        (dict_set (?s @ [''attestation.unsigned.json'']) (NFile (dumps_indented (JObj att) @ [CHR 0x0A])) d2))"
    using prepare_Inr [OF assms(3)] by blast
  note r = refuse_Inr [OF p(2)]
  obtain bs where bs: "map_of d artifact = Some (NFile bs)" "bs \<noteq> []" using r(5) by blast
  have away: "\<not> path_below output artifact" "\<not> path_below ?s artifact"
    using bs(1) nothing_below [OF assms(1) r(3)] nothing_below [OF assms(1) r(4)] by (auto simp: path_below_split)
  have apart: "\<not> path_below ?s (output @ t)" for t using staging_apart [of "output" "output @ t"] r(1) by auto
  have none1: "map_of d1 (output @ t) = None" for t
  proof -
    have "output @ t \<noteq> ?s" using apart [of t] path_below_append [of ?s "[]"] by (metis append_Nil2)
    moreover have "output @ t \<notin> set (ancestors ?s)"
      using ancestor_shorter [of "output @ t" ?s] length_staging [OF r(1)] by auto
    ultimately have "output @ t \<notin> set (ancestors ?s @ [?s])" by simp
    then show ?thesis using make_directory_Inr [OF p(3)] nothing_below [OF assms(1) r(3)] by simp
  qed
  have none: "\<forall>t. map_of d2 (output @ t) = None"
    using none1 stays_belowD [OF frame_stage_files(1) p(4)] apart by simp
  have art2: "map_of d2 artifact = Some (NFile bs)"
    using stays_belowD [OF frame_stage_files(1) p(4) away(2)] make_directory_Inr [OF p(3), of artifact] bs by simp
  have s: "\<not> path_below output ?s" "?s \<noteq> []" "length ?s = length output"
    using staging_apart [of "output" ?s] path_below_append [of ?s "[]"] r(1) length_staging by (auto simp: staging_path_def [of "output"])
  note pub = published [OF none s p(7)]
  obtain h contents where h: "gv_read (gate_on d2 g) artifact = Inr contents"
      "list_all (\<lambda>item. digest_res (gate_on d2 g) ?s item = Inr (h item)) attested"
      "att = [(''schema_version'', JInt 1),
        (''subject'', JObj [(''name'', JStr (last artifact)), (''sha256'', JStr (sha256_hexdigest contents))]),
        (''artifacts'', JList (map (attested_entry h) attested)), (''approvals'', JList [])]"
    using unsigned_attestation_Inr [OF p(5)] by blast
  have names: "fst item \<notin> {''SIGNING_PAYLOAD.json'', ''attestation.unsigned.json''}"
      "snd item = ''directory'' \<Longrightarrow> fst item \<in> set copied_directories" if "item \<in> set attested" for item
    using that by (auto simp: attested_def copied_directories_def)
  have digests: "list_all (\<lambda>item. artifact_sha256 (gate_on d' g) (output @ [fst item]) = Inr (h item)) attested"
    unfolding list_all_iff
  proof
    fix item assume i: "item \<in> set attested"
    show "artifact_sha256 (gate_on d' g) (output @ [fst item]) = Inr (h item)"
    proof (rule published_digest)
      show "digest_res (gate_on d2 g) ?s item = Inr (h item)" using h(2) i by (simp add: list_all_iff)
      show "snd item = ''directory'' \<longrightarrow> map_of d2 (?s @ [fst item]) = Some NDir" using staged_folders [OF p(4)] names(2) i by blast
      show "snd item = ''directory'' \<longrightarrow> subtree d' (output @ [fst item]) = subtree d2 (?s @ [fst item])"
        using pub(4) names(1) i by simp
      show "map_of d' (output @ [fst item]) = map_of d2 (?s @ [fst item])" using pub(3) names(1) i by simp
    qed
  qed
  have art: "map_of d' artifact = Some (NFile bs)" "contents = bs" using pub(5) away art2 h(1) by simp_all
  then have "sha256_file (gate_on d' g) artifact = Inr (sha256_hexdigest contents)" by (simp add: sha256_file_Inr)
  then have "check_subject (gate_on d' g) att' (Some artifact) = Inr []"
    if "dict_get_or JNull att' ''subject'' = dict_get_or JNull att ''subject''" for att'
    using assms(2) bs(2) that h(3) art
    by (simp add: check_subject_def is_file_disk is_empty_file_def disk_stat_def dict_get_or_def str_field_def flag_def)
  moreover have "check_artifacts (gate_on d' g) output att' = Inr []"
    if "dict_get_or JNull att' ''artifacts'' = dict_get_or JNull att ''artifacts''" for att'
    using that h(3) digests by (intro attested_checks [of _ h]) (simp_all add: dict_get_or_def)
  moreover have k: "dict_get_or JNull (dict_set ''approvals'' v att) ''subject'' = dict_get_or JNull att ''subject''"
      "dict_get_or JNull (dict_set ''approvals'' v att) ''artifacts'' = dict_get_or JNull att ''artifacts''" for v
    by (simp_all add: dict_get_or_def dict_simps)
  moreover have "signed_payload (dict_set ''approvals'' v att) = Inr payload" for v
    using p(6) unfolding signed_payload_def k .
  ultimately show ?thesis using p(1) pub(1,2) unfolding Let_def by blast
qed


section \<open>Examples\<close>

definition example_candidate :: disk where
  "example_candidate =
     [([''c''], NDir), ([''c'', ''BLOCKERS.json''], NFile ''{\"blocker_count\": 0}''), ([''c'', ''LICENSES''], NDir),
      ([''c'', ''image-sboms''], NDir), ([''c'', ''image-sboms'', ''manifest.candidate.json''], NFile ''m''),
      ([''c'', ''corresponding-source''], NDir), ([''c'', ''sbom.cdx.candidate.json''], NFile ''x''),
      ([''c'', ''sbom.spdx.candidate.json''], NFile ''{}''), ([''c'', ''THIRD_PARTY_NOTICES.candidate.md''], NFile ''n''),
      ([''c'', ''component-lock.candidate.json''], NFile ''{\"release_status\": \"approved\"}''), ([''a''], NFile ''r'')]"

definition example_staged :: disk where
  "example_staged = example_candidate @
     [([''o.staging''], NDir), ([''o.staging'', ''LICENSES''], NDir), ([''o.staging'', ''image-sboms''], NDir),
      ([''o.staging'', ''corresponding-source''], NDir), ([''o.staging'', ''image-sboms'', ''manifest.json''], NFile ''m''),
      ([''o.staging'', ''sbom.cdx.json''], NFile ''x''), ([''o.staging'', ''sbom.spdx.json''], NFile ''{}''),
      ([''o.staging'', ''THIRD_PARTY_NOTICES.md''], NFile ''n''),
      ([''o.staging'', ''component-lock.json''], NFile ''{\"release_status\": \"approved\"}'')]"

lemma example_candidate_wf: "disk_wf example_candidate"
  by code_simp

lemma example_refuse: "refuse licensed_gate [''c''] [''o''] [''a''] example_candidate = Inr ()"
  by code_simp

lemma example_stage:
  "make_directory no_failures (staging_path [''o'']) example_candidate = (Inr (), example_candidate @ [([''o.staging''], NDir)])"
  "stage_files no_failures [''c''] (staging_path [''o'']) (example_candidate @ [([''o.staging''], NDir)]) = (Inr (), example_staged)"
  by code_simp+

lemma example_staged_lock:
  "load_object (gate_on example_staged licensed_gate) (staging_path [''o''] @ [''component-lock.json'']) =
    Inr [(''release_status'', JStr ''approved'')]"
  by code_simp

lemma example_folders:
  "name \<in> set copied_directories - {''image-sboms''} \<Longrightarrow>
    sha256_directory (gate_on example_staged g) (staging_path [''o''] @ [name]) = Inr (sha256_hexdigest [])"
proof -
  have "list_all (\<lambda>name. filter (\<lambda>rel. case map_of example_staged (staging_path [''o''] @ name # rel) of Some (NFile _) \<Rightarrow> True | _ \<Rightarrow> False)
      (disk_tree example_staged (staging_path [''o''] @ [name])) = []) [''LICENSES'', ''corresponding-source'']" by code_simp
  moreover have "is_file (gate_on d g) p \<longleftrightarrow> (case map_of d p of Some (NFile _) \<Rightarrow> True | _ \<Rightarrow> False)" for d p
    by (auto simp: is_file_disk split: option.splits node.splits)
  moreover assume "name \<in> set copied_directories - {''image-sboms''}"
  ultimately have "files_below (gate_on example_staged g) (staging_path [''o''] @ [name]) = []"
    by (auto simp: files_below_def copied_directories_def)
  then show ?thesis by (simp add: sha256_directory_def)
qed

lemma example_unsigned:
  "\<exists>att. unsigned_attestation (gate_on example_staged licensed_gate) (staging_path [''o'']) [''a''] = Inr att \<and>
    json_plain (JObj att)"
proof -
  let ?g = "gate_on example_staged licensed_gate" and ?p = "staging_path [''o'']"
  have i: "sha256_directory ?g (?p @ [''image-sboms'']) = Inr (sha256_hexdigest (''manifest.json'' @ CHR 0x00 # sha256 ''m''))"
  proof -
    have e: "sort (files_below ?g (?p @ [''image-sboms''])) = [[''manifest.json'']]" by code_simp
    have u: "utf8_ok ''manifest.json''" "disk_read example_staged ((?p @ [''image-sboms'']) @ [''manifest.json'']) = Inr ''m''" by code_simp+
    have "directory_entry ?g (?p @ [''image-sboms'']) [''manifest.json''] = Inr (''manifest.json'' @ CHR 0x00 # sha256 ''m'')"
      by (simp only: directory_entry_def Let_def py_join.simps u not_True_eq_False if_False gate_on_simps rbind.simps)
    then show ?thesis unfolding sha256_directory_def e directory_bytes.simps by simp
  qed
  have f: "sha256_file ?g (?p @ [''THIRD_PARTY_NOTICES.md'']) = Inr (sha256_hexdigest ''n'')"
    "sha256_file ?g (?p @ [''component-lock.json'']) = Inr (sha256_hexdigest ''{\"release_status\": \"approved\"}'')"
    "sha256_file ?g (?p @ [''sbom.cdx.json'']) = Inr (sha256_hexdigest ''x'')"
    "sha256_file ?g (?p @ [''sbom.spdx.json'']) = Inr (sha256_hexdigest ''{}'')"
    "sha256_file ?g [''a''] = Inr (sha256_hexdigest ''r'')"
    unfolding sha256_file_Inr gate_on_simps disk_read_Inr by (rule exI, rule conjI [OF _ refl], code_simp)+
  have d: "sha256_directory ?g (?p @ [''LICENSES'']) = Inr (sha256_hexdigest [])"
    "sha256_directory ?g (?p @ [''corresponding-source'']) = Inr (sha256_hexdigest [])"
    by (rule example_folders, simp add: copied_directories_def)+
  have status: "dict_get_or JNull [(''release_status'', JStr ''approved'')] ''release_status'' = JStr ''approved''" by code_simp
  show ?thesis unfolding unsigned_attestation_def example_staged_lock rbind.simps status
    using printable_hexdigest by (simp add: attested_def digest_of_def f d i) (simp add: printable_def)
qed

text \<open>A disk that is full when the payload is to be written; what was written of it cannot be deleted.\<close>

definition disk_full :: failures where
  "disk_full = no_failures\<lparr>fl_error := \<lambda>p.
     if p = [''o.staging'', ''SIGNING_PAYLOAD.json''] then Some (Exn OSError ''No space left on device'') else None,
     fl_partial := \<lambda>_. Some ''{'', fl_stuck := \<lambda>p. p = [''o.staging'', ''SIGNING_PAYLOAD.json'']\<rparr>"

lemma disk_full_stage:
  "make_directory disk_full (staging_path [''o'']) example_candidate = (Inr (), example_candidate @ [([''o.staging''], NDir)])"
  "stage_files disk_full [''c''] (staging_path [''o'']) (example_candidate @ [([''o.staging''], NDir)]) = (Inr (), example_staged)"
  by code_simp+

lemma example_payload:
  assumes "json_plain (JObj att)"
  shows "\<exists>payload. signed_payload att = Inr payload"
proof -
  have "json_plain (dict_get_or JNull att k)" for k
    using assms by (auto simp: dict_get_or_def list_all_iff split: option.splits dest!: map_of_SomeD)
  then have "json_plain (JObj [(''subject'', dict_get_or JNull att ''subject''), (''artifacts'', dict_get_or JNull att ''artifacts'')])"
    by (simp add: printable_def)
  then have "utf8_ok (canonical_json (JObj [(''subject'', dict_get_or JNull att ''subject''), (''artifacts'', dict_get_or JNull att ''artifacts'')]))"
    by (intro printable_utf8 printable_canonical)
  then show ?thesis by (simp only: signed_payload_def Let_def if_True) blast
qed

lemma example_paths: "staging_path [''o''] = [''o.staging'']" "map_of example_staged [''o.staging'', ''attestation.unsigned.json''] = None"
  "map_of example_staged [''o.staging'', ''SIGNING_PAYLOAD.json''] = None"
  by code_simp+

lemma example_prepared:
  "\<exists>d'. prepare licensed_gate no_failures [''c''] [''o''] [''a''] example_candidate = (Inr [''o''], d')"
  "\<exists>d'. prepare licensed_gate disk_full [''c''] [''o''] [''a''] example_candidate = (Inl (Exn OSError ''No space left on device''), d')"
proof -
  obtain att where a: "unsigned_attestation (gate_on example_staged licensed_gate) (staging_path [''o'']) [''a''] = Inr att" "json_plain (JObj att)"
    using example_unsigned by blast
  obtain payload where p: "signed_payload att = Inr payload" using example_payload [OF a(2)] by blast
  note writes = write_attestation_def write_payload_def write_file_def guarded_write_def publish_def no_failures_def dict_simps p example_paths
  show "\<exists>d'. prepare licensed_gate no_failures [''c''] [''o''] [''a''] example_candidate = (Inr [''o''], d')"
    by (simp add: prepare_def io_bind_def io_res_def example_refuse example_stage stage_def a(1)) (simp add: writes io_bind_def io_res_def)
  show "\<exists>d'. prepare licensed_gate disk_full [''c''] [''o''] [''a''] example_candidate =
      (Inl (Exn OSError ''No space left on device''), d')"
    by (simp add: prepare_def io_bind_def io_res_def example_refuse disk_full_stage stage_def a(1))
      (simp add: writes io_bind_def io_res_def disk_full_def)
qed

theorem prepared_evidence_bound_witness:
  "\<exists>d' att payload. prepare licensed_gate no_failures [''c''] [''o''] [''a''] example_candidate = (Inr [''o''], d') \<and>
    map_of d' ([''o''] @ [''SIGNING_PAYLOAD.json'']) = Some (NFile payload) \<and>
    signed_payload (dict_set ''approvals'' (JList []) att) = Inr payload"
proof -
  obtain d' where p: "prepare licensed_gate no_failures [''c''] [''o''] [''a''] example_candidate = (Inr [''o''], d')"
    using example_prepared(1) by blast
  have "py_strip (last [''a'']) \<noteq> []" by code_simp
  from prepared_evidence_bound [OF example_candidate_wf this p] show ?thesis using p unfolding Let_def by blast
qed


end
