(* ===== verification/Candidate.thy ===== *)
theory Candidate
  imports EvidenceFacts
begin

text \<open>
  tools/generate\_distribution\_candidate.py, first part: the fixed data, what the images and the Python wheels
  say of themselves, and the license texts and source archives that are laid down with their digests.
  Docker, git, the scanner, downloads and the contents of wheels are parameters.
\<close>

section \<open>Fixed data\<close>

definition service_images :: "string list" where
  "service_images =
     [''atlantis-policy-gateway:0.9.0-rc5'',
      ''atlantis-crm-api:0.9.0-rc5'',
      ''atlantis-orchestrator:0.9.0-rc5'',
      ''atlantis-model-gateway:0.9.0-rc5'',
      ''atlantis-voice-adapter:0.9.0-rc5'',
      ''atlantis-marketia-adapter:0.9.0-rc5'']"

definition third_party_images :: "(string, string) dict" where
  "third_party_images =
     [(''python-runtime'', ''python:3.12-slim-bookworm''),
      (''postgresql'', ''postgres:16-bookworm''),
      (''keycloak-shadow-validation'', ''quay.io/keycloak/keycloak@sha256:831330513f55695572286e521f94fcd3c7e285250ed5b848090265a33192f669''),
      (''rabbitmq'', ''rabbitmq:3.13-management-alpine''),
      (''valkey'', ''valkey/valkey:8-alpine''),
      (''litellm'', ''ghcr.io/berriai/litellm:main-latest''),
      (''node-red'', ''nodered/node-red:4.0.9-22-minimal''),
      (''prometheus'', ''prom/prometheus:v2.54.1''),
      (''grafana'', ''grafana/grafana:11.2.0''),
      (''opentelemetry-collector'', ''otel/opentelemetry-collector-contrib:0.108.0''),
      (''caddy'', ''caddy:2.8.4-alpine'')]"

text \<open>The revision and its evidence.\<close>

definition pinned_source_revisions :: "(string, string \<times> string) dict" where
  "pinned_source_revisions =
     [(''python-runtime'', ''2abcf904b8dac8c999d2b3aac76681abb333798a'', ''runtime-version:3.12.14+git-tag:v3.12.14''),
      (''postgresql'', ''7d3e000c5961a544302072058a1184e9a588837b'', ''runtime-version:16.15+git-tag:REL_16_15''),
      (''rabbitmq'', ''52b38439e5175ba6dc4c722c88fa43860638f559'', ''runtime-version:3.13.7+git-tag:v3.13.7''),
      (''valkey'', ''a9245aaf3286dee1795763661f0da6886acd8ef4'', ''runtime-version:8.1.9+git-tag:8.1.9''),
      (''caddy'', ''7088605cc11c52c2777ab613dfc5c2a9816006e4'', ''git-tag:v2.8.4''),
      (''grafana'', ''c57667e4481563f5e6cf945b03bc0626caa4dbeb'', ''git-tag:v11.2.0''),
      (''prometheus'', ''e6cfa720fbe6280153fab13090a483dbd40bece3'', ''git-tag:v2.54.1''),
      (''node-red'', ''ff565bacb4a4d84326c2e27eafd0732c272abfcb'', ''git-tag:4.0.9''),
      (''litellm'', ''418c7c6012d7c39a9d4a28c72cabe1995595ad2b'', ''oci-label:org.opencontainers.image.revision''),
      (''opentelemetry-collector'', ''bef563ebb0f3a73fb8681d4ca4178ddf244042b6'', ''oci-label:org.opencontainers.image.revision''),
      (''openoutreach'', ''ba6c25d94d8e644cf97d6e7df7e805106526c990'', ''git-tag:v0.1.0''),
      (''kimi-k3'', ''a590ce090cb049c93a33dfe8c208ec652aa20503'', ''huggingface-revision''),
      (''deepseek'', ''e815299b0bcbac849fa540c768ef21845365c9eb'', ''huggingface-revision'')]"

text \<open>The address and the digest of the text.\<close>

definition component_license_sources :: "(string, string \<times> string) dict" where
  "component_license_sources =
     [(''python-runtime'',
       ''https://raw.githubusercontent.com/python/cpython/2abcf904b8dac8c999d2b3aac76681abb333798a/LICENSE'',
       ''3b2f81fe21d181c499c59a256c8e1968455d6689d269aa85373bfb6af41da3bf''),
      (''postgresql'',
       ''https://raw.githubusercontent.com/postgres/postgres/7d3e000c5961a544302072058a1184e9a588837b/COPYRIGHT'',
       ''3d6af92ff8a4c2cdf69afb1cf44edea727922f5cd0cf8b5f72b11cdecac8fdfd''),
      (''rabbitmq'',
       ''https://raw.githubusercontent.com/rabbitmq/rabbitmq-server/52b38439e5175ba6dc4c722c88fa43860638f559/LICENSE-MPL-RabbitMQ'',
       ''fab3dd6bdab226f1c08630b1dd917e11fcb4ec5e1e020e2c16f83a0a13863e85''),
      (''valkey'',
       ''https://raw.githubusercontent.com/valkey-io/valkey/a9245aaf3286dee1795763661f0da6886acd8ef4/COPYING'',
       ''1a53dca3aab7ce048e91e77b03c0342f3075366f9dede8ec4d19d0cf229e12a0''),
      (''keycloak-shadow-validation'',
       ''https://raw.githubusercontent.com/keycloak/keycloak/289376b142480b4d600aca7acb1e4651862ed2a1/LICENSE.txt'',
       ''cfc7749b96f63bd31c3c42b5c471bf756814053e847c10f3eb003417bc523d30''),
      (''litellm'',
       ''https://raw.githubusercontent.com/BerriAI/litellm/418c7c6012d7c39a9d4a28c72cabe1995595ad2b/LICENSE'',
       ''b170d6bf8e8835dd357e011681db028f4d51e2fb0ea892058f56e01fb39b8273''),
      (''node-red'',
       ''https://raw.githubusercontent.com/node-red/node-red/ff565bacb4a4d84326c2e27eafd0732c272abfcb/LICENSE'',
       ''876efc5b0ea06ac893b0d5f88bba8abfc050d82d157d65a95453abcb4dd6b0e0''),
      (''prometheus'',
       ''https://raw.githubusercontent.com/prometheus/prometheus/e6cfa720fbe6280153fab13090a483dbd40bece3/LICENSE'',
       ''c71d239df91726fc519c6eb72d318ec65820627232b2f796219e87dcf35d0ab4''),
      (''grafana'',
       ''https://raw.githubusercontent.com/grafana/grafana/c57667e4481563f5e6cf945b03bc0626caa4dbeb/LICENSE'',
       ''0d96a4ff68ad6d4b6f1f30f713b18d5184912ba8dd389f86aa7710db079abcb0''),
      (''opentelemetry-collector'',
       ''https://raw.githubusercontent.com/open-telemetry/opentelemetry-collector-releases/bef563ebb0f3a73fb8681d4ca4178ddf244042b6/LICENSE'',
       ''c71d239df91726fc519c6eb72d318ec65820627232b2f796219e87dcf35d0ab4''),
      (''caddy'',
       ''https://raw.githubusercontent.com/caddyserver/caddy/7088605cc11c52c2777ab613dfc5c2a9816006e4/LICENSE'',
       ''cfc7749b96f63bd31c3c42b5c471bf756814053e847c10f3eb003417bc523d30''),
      (''openoutreach'',
       ''https://raw.githubusercontent.com/eracle/OpenOutreach/ba6c25d94d8e644cf97d6e7df7e805106526c990/LICENCE.md'',
       ''ccb349b4132ed7737f25e5adebfe61f3d52dca33708df1e50352320438d1d4c2''),
      (''kimi-k3'',
       ''https://huggingface.co/moonshotai/Kimi-K3/raw/a590ce090cb049c93a33dfe8c208ec652aa20503/LICENSE'',
       ''20c797ce19af0c17de52c6afb144644768a591c521655f5ebf5712c9850f2887''),
      (''deepseek'',
       ''https://huggingface.co/deepseek-ai/DeepSeek-V3/raw/e815299b0bcbac849fa540c768ef21845365c9eb/LICENSE-MODEL'',
       ''ccfee4895df06bcab524151c278e8dde88bbe76165a24ecbcbcf9fafd71fd2b3'')]"

definition model_metadata :: "(string, string) dict" where
  "model_metadata =
     [(''kimi-k3'', ''moonshotai/Kimi-K3''),
      (''deepseek'', ''deepseek-ai/DeepSeek-V3'')]"

definition package_license_sources :: "(string, string \<times> string) dict" where
  "package_license_sources =
     [(''langsmith'',
       ''https://raw.githubusercontent.com/langchain-ai/langsmith-sdk/930be18058789110d7d9883d7b7d481f10fa1830/LICENSE'',
       ''34e0b9842c7a31d34e53bc7eb224e81e07a34996106e029bbc72dea2d449f496'')]"

text \<open>The address, the digest and the name of the archive.\<close>

definition source_archives :: "(string, string \<times> string \<times> string) dict" where
  "source_archives =
     [(''openoutreach'',
       ''https://codeload.github.com/eracle/OpenOutreach/tar.gz/ba6c25d94d8e644cf97d6e7df7e805106526c990'',
       ''0d394ec99dd9dcbbae7d2840d04fc84fbb2a896ab179f1418d52efa4b0582379'',
       ''openoutreach-ba6c25d94d8e644cf97d6e7df7e805106526c990.tar.gz'')]"

section \<open>The surroundings\<close>

text \<open>
  A wheel is its list of members and the content of each. The repository is at \<open>gn_base\<close>. \<open>gn_inspect\<close> runs
  \<open>docker image inspect\<close> and gives the exit code and the output; \<open>gn_syft\<close> is the exit code, the output and the errors of
  \<open>syft version\<close>, \<open>gn_scan\<close> runs the scanner on an image and gives the exit code, the errors and the two documents,
  \<open>gn_scanner\<close> is its binary; \<open>gn_extract\<close> asks the base image for the packages it has; \<open>gn_download\<close> downloads the locked
  wheels in the order of their names, \<open>gn_wheelhouse\<close> are those already there; \<open>gn_stamp\<close> is the time of the revision in
  the form the documents use.
\<close>

record wheel =
  wh_name :: string
  wh_members :: "(string \<times> bytes) list"
  wh_bytes :: bytes

record surroundings =
  gn_gate :: gate
  gn_base :: path
  gn_fetch :: "string \<Rightarrow> bytes res"
  gn_inspect :: "string \<Rightarrow> int \<times> string"
  gn_syft :: "int \<times> string \<times> string"
  gn_scan :: "string \<Rightarrow> int \<times> string \<times> bytes \<times> bytes"
  gn_scanner :: "bytes res"
  gn_extract :: "int \<times> string"
  gn_download :: "string + wheel list"
  gn_wheelhouse :: "wheel list"
  gn_revision :: string
  gn_stamp :: string

definition docker_image_digest :: "surroundings \<Rightarrow> string \<Rightarrow> string option" where
  "docker_image_digest e reference =
     (case gn_inspect e reference of (rc, out) \<Rightarrow>
       let digest = py_strip out in if rc = 0 \<and> sha256_reference digest then Some digest else None)"

definition distribution :: "surroundings \<Rightarrow> path" where
  "distribution e = gn_base e @ [''release'', ''candidate'', ''distribution'']"

text \<open>What is written: paths below the output directory, and contents.\<close>

type_synonym writes = "(path \<times> bytes) list"

text \<open>The content of an address, fetched or already there, if it has the expected digest.\<close>

definition pinned_content :: "surroundings \<Rightarrow> string \<Rightarrow> string \<Rightarrow> path \<Rightarrow> bool \<Rightarrow> bytes option res" where
  "pinned_content e url expected existing fetch =
     rbind (if fetch then rbind (gn_fetch e url) (\<lambda>bs. Inr (Some bs))
            else if is_file (gn_gate e) existing then rbind (gv_read (gn_gate e) existing) (\<lambda>bs. Inr (Some bs))
            else Inr None) (\<lambda>content.
     case content of
       None \<Rightarrow> Inr None
     | Some bs \<Rightarrow>
         if sha256_hexdigest bs \<noteq> expected then raise ValueError (''pinned content digest mismatch: '' @ url) else Inr (Some bs))"

section \<open>Blockers\<close>

text \<open>A blocker; only those of images have a count.\<close>

record blocker =
  bl_component :: string
  bl_field :: string
  bl_reason :: string
  bl_count :: "nat option"

definition blocker_of :: "string \<Rightarrow> string \<Rightarrow> string \<Rightarrow> blocker" where
  "blocker_of component field reason = \<lparr>bl_component = component, bl_field = field, bl_reason = reason, bl_count = None\<rparr>"

definition blocker_json :: "blocker \<Rightarrow> json" where
  "blocker_json b = JObj ([(''component'', JStr (bl_component b)), (''field'', JStr (bl_field b)), (''reason'', JStr (bl_reason b))] @
     (case bl_count b of None \<Rightarrow> [] | Some n \<Rightarrow> [(''count'', JInt (int n))]))"

section \<open>Images\<close>

definition before_colon :: "string \<Rightarrow> string" where
  "before_colon s = takeWhile (\<lambda>c. c \<noteq> CHR '':'') s"

definition image_scan_targets :: "(string, string) dict" where
  "image_scan_targets = foldl (\<lambda>d reference. dict_set (before_colon reference) reference d) third_party_images service_images"

text \<open>\<open>item.get(k)\<close> as an iterable, and \<open>len\<close> of a list.\<close>

definition field_items :: "object \<Rightarrow> string \<Rightarrow> json list res" where
  "field_items kvs k = iter_json (dict_get_or (JList []) kvs k)"

fun json_len :: "json \<Rightarrow> nat res" where
  "json_len (JList vs) = Inr (length vs)"
| "json_len (JObj kvs) = Inr (length kvs)"
| "json_len (JStr s) = Inr (length (code_points s))"
| "json_len _ = raise TypeError ''len''"

definition image_blocker :: "json \<Rightarrow> blocker list res" where
  "image_blocker img =
     rbind (as_object img) (\<lambda>kvs.
     let unknown = dict_get_or (JList []) kvs ''unknown_license_packages'' in
     if \<not> truthy unknown then Inr []
     else rbind (text_item kvs ''name'') (\<lambda>name.
          rbind (json_len unknown) (\<lambda>n.
          Inr [\<lparr>bl_component = name, bl_field = ''license_spdx'', bl_reason = ''image-sbom-license-curation-required'', bl_count = Some n\<rparr>])))"

definition image_license_blockers :: "object \<Rightarrow> blocker list res" where
  "image_license_blockers manifest =
     rbind (field_items manifest ''images'') (\<lambda>images. rbind (map_res image_blocker images) (\<lambda>found. Inr (concat found)))"

text \<open>The reference locator of the first external reference of type purl.\<close>

fun find_purl :: "json list \<Rightarrow> json res" where
  "find_purl [] = Inr JNull"
| "find_purl (r # rs) =
     rbind (as_object r) (\<lambda>kvs. if dict_get_or JNull kvs ''referenceType'' = JStr ''purl''
       then Inr (dict_get_or JNull kvs ''referenceLocator'') else find_purl rs)"

definition text_or_empty :: "gate \<Rightarrow> json \<Rightarrow> string" where
  "text_or_empty g j = (if truthy j then py_str (gv_repr g) j else [])"

definition unknown_package :: "gate \<Rightarrow> json \<Rightarrow> (string list \<times> json) list res" where
  "unknown_package g package =
     rbind (as_object package) (\<lambda>kvs.
     rbind (case dict_get_or JNull kvs ''licenseDeclared'' of JNull \<Rightarrow> Inr True | j \<Rightarrow> in_strings j {[], ''NOASSERTION''}) (\<lambda>unknown.
     if \<not> unknown then Inr []
     else rbind (let refs = dict_get_or JNull kvs ''externalRefs'' in if truthy refs then iter_json refs else Inr []) (\<lambda>refs.
          rbind (find_purl refs) (\<lambda>purl.
          let name = str_field g kvs ''name'' ''<unknown>''; version = dict_get_or JNull kvs ''versionInfo'' in
          Inr [([py_lower name, text_or_empty g version, text_or_empty g purl],
             JObj [(''name'', JStr name), (''version'', version), (''purl'', purl)])]))))"

definition unknown_license_packages :: "gate \<Rightarrow> object \<Rightarrow> json list res" where
  "unknown_license_packages g spdx =
     rbind (field_items spdx ''packages'') (\<lambda>packages.
     rbind (map_res (unknown_package g) packages) (\<lambda>found. Inr (map snd (sort_key fst (concat found)))))"

section \<open>The scan of the images\<close>

definition sub_chars :: "(char \<Rightarrow> bool) \<Rightarrow> char \<Rightarrow> string \<Rightarrow> string" where
  "sub_chars ok r s = map (\<lambda>c. if ok c then c else r) (filter (\<lambda>c. \<not> continuation c) s)"

text \<open>
  \<open>re.sub\<close> replaces a character that is not allowed by one other: the bytes after the first of a character are dropped.
  Next the characters of a name, and a JSON document that is read.
\<close>

definition name_char :: "char \<Rightarrow> bool" where
  "name_char c \<longleftrightarrow> word_char c \<or> c = CHR ''.'' \<or> c = CHR ''-''"

definition parse_json :: "gate \<Rightarrow> bytes \<Rightarrow> json res" where
  "parse_json g bs =
     (case (if utf8_ok bs then json_loads (newlines bs) else None) of
        None \<Rightarrow> raise ValueError (gv_decode_error g bs) | Some j \<Rightarrow> Inr j)"

definition scanned :: "string \<Rightarrow> string \<Rightarrow> bytes \<Rightarrow> string \<Rightarrow> object \<Rightarrow> object res" where
  "scanned safe_name suffix content k document =
     rbind (json_len (dict_get_or (JList []) document k)) (\<lambda>n.
     Inr [(''path'', JStr (py_join ''/'' [''image-sboms'', safe_name @ suffix])), (''sha256'', JStr (sha256_hexdigest content)),
          (k, JInt (int n))])"

definition scan_image :: "surroundings \<Rightarrow> string \<times> string \<Rightarrow> (object \<times> writes) res" where
  "scan_image e target =
     (case target of (name, reference) \<Rightarrow>
      case docker_image_digest e reference of
        None \<Rightarrow> raise RuntimeError (''local image is unavailable: '' @ reference)
      | Some image_id \<Rightarrow>
          (case gn_scan e image_id of (rc, err, cdx_bytes, spdx_bytes) \<Rightarrow>
             let safe_name = sub_chars name_char (CHR ''-'') name in
             if rc \<noteq> 0 then raise RuntimeError (''Syft failed for '' @ reference @ '': '' @ py_strip err)
             else rbind (parse_json (gn_gate e) cdx_bytes) (\<lambda>cdx_json.
                  rbind (parse_json (gn_gate e) spdx_bytes) (\<lambda>spdx_json.
                  rbind (as_object spdx_json) (\<lambda>spdx.
                  rbind (unknown_license_packages (gn_gate e) spdx) (\<lambda>unknown.
                  rbind (as_object cdx_json) (\<lambda>cdx.
                  rbind (scanned safe_name ''.cdx.json'' cdx_bytes ''components'' cdx) (\<lambda>c.
                  rbind (scanned safe_name ''.spdx.json'' spdx_bytes ''packages'' spdx) (\<lambda>s.
                  Inr ([(''name'', JStr name), (''reference'', JStr reference), (''image_id'', JStr image_id),
                        (''cyclonedx'', JObj c), (''spdx'', JObj s), (''unknown_license_packages'', JList unknown)],
                       [([''image-sboms'', safe_name @ ''.cdx.json''], cdx_bytes),
                        ([''image-sboms'', safe_name @ ''.spdx.json''], spdx_bytes)]))))))))))"

text \<open>The scans run side by side and are sorted after that; of several that fail the first one is reported here.\<close>

definition scan_image_sboms :: "surroundings \<Rightarrow> (object \<times> blocker list \<times> writes) res" where
  "scan_image_sboms e =
     (case gn_syft e of (rc, out, err) \<Rightarrow>
      if rc \<noteq> 0 then raise RuntimeError (''could not execute Syft: '' @ py_strip err)
      else rbind (parse_json (gn_gate e) out) (\<lambda>version_data.
           rbind (as_object version_data) (\<lambda>version.
           rbind (map_res (\<lambda>target. rbind (scan_image e target) (\<lambda>r. Inr (fst target, r))) image_scan_targets) (\<lambda>scans.
           rbind (gn_scanner e) (\<lambda>binary.
           let manifest = [(''scanner'', JObj [(''name'', JStr ''syft''),
                 (''version'', JStr (str_field (gn_gate e) version ''version'' ''unknown'')),
                 (''sha256'', JStr (sha256_hexdigest binary))]),
               (''images'', JList (map (JObj o fst o snd) (sort_key (py_lower o fst) scans)))] in
           rbind (image_license_blockers manifest) (\<lambda>blockers.
           Inr (manifest, blockers, concat (map (snd o snd) scans))))))))"

text \<open>The findings of a manifest that is already there, read again from its documents.\<close>

definition refresh_image :: "surroundings \<Rightarrow> json \<Rightarrow> json res" where
  "refresh_image e img =
     rbind (as_object img) (\<lambda>kvs.
     rbind (as_object (dict_get_or (JObj []) kvs ''spdx'')) (\<lambda>descriptor.
     let p = path_join (distribution e) (str_field (gn_gate e) descriptor ''path'' []) in
     if \<not> is_file (gn_gate e) p then Inr img
     else rbind (gv_read (gn_gate e) p) (\<lambda>bs.
          rbind (parse_json (gn_gate e) bs) (\<lambda>document.
          rbind (as_object document) (\<lambda>spdx.
          rbind (unknown_license_packages (gn_gate e) spdx) (\<lambda>unknown.
          Inr (JObj (dict_set ''unknown_license_packages'' (JList unknown) kvs))))))))"

definition active_image :: "json \<Rightarrow> (json \<times> bool) res" where
  "active_image img =
     rbind (as_object img) (\<lambda>kvs.
     rbind (in_strings (dict_get_or JNull kvs ''name'') (fst ` set image_scan_targets)) (\<lambda>active. Inr (img, active)))"

definition refresh_image_manifest :: "surroundings \<Rightarrow> bytes \<Rightarrow> (object \<times> blocker list) res" where
  "refresh_image_manifest e bs =
     rbind (parse_json (gn_gate e) bs) (\<lambda>j.
     rbind (as_object j) (\<lambda>existing.
     rbind (field_items existing ''images'') (\<lambda>images.
     rbind (map_res active_image images) (\<lambda>marked.
     rbind (map_res (refresh_image e) (map fst (filter snd marked))) (\<lambda>refreshed.
     let manifest = dict_set ''images'' (JList refreshed) existing in
     rbind (image_license_blockers manifest) (\<lambda>blockers. Inr (manifest, blockers)))))))"

section \<open>The report on missing licenses of images\<close>

record gap =
  gp_name :: string
  gp_version :: string
  gp_purl :: json
  gp_images :: "string list"
  gp_occurrences :: nat

text \<open>An entry that is no dictionary is a name.\<close>

definition gap_item :: "gate \<Rightarrow> json \<Rightarrow> object" where
  "gap_item g raw = (case raw of JObj kvs \<Rightarrow> kvs
     | j \<Rightarrow> [(''name'', JStr (py_str (gv_repr g) j)), (''version'', JStr []), (''purl'', JNull)])"

definition add_gap :: "gate \<Rightarrow> string \<Rightarrow> json \<Rightarrow> (string \<times> string, gap) dict \<Rightarrow> (string \<times> string, gap) dict" where
  "add_gap g img raw gaps =
     (let item = gap_item g raw; purl = dict_get_or JNull item ''purl'';
          identity = (if truthy purl then py_str (gv_repr g) purl else str_field g item ''name'' ''<unknown>'');
          version = text_or_empty g (dict_get_or JNull item ''version'');
          entry = (case map_of gaps (identity, version) of
             Some x \<Rightarrow> x
           | None \<Rightarrow> \<lparr>gp_name = str_field g item ''name'' ''<unknown>'', gp_version = version, gp_purl = purl, gp_images = [], gp_occurrences = 0\<rparr>)
      in dict_set (identity, version)
        (entry\<lparr>gp_images := (if img \<in> set (gp_images entry) then gp_images entry else gp_images entry @ [img]),
          gp_occurrences := gp_occurrences entry + 1\<rparr>) gaps)"

text \<open>The number of declarations seen so far, and the groups.\<close>

definition add_image_gaps :: "gate \<Rightarrow> json \<Rightarrow> nat \<times> (string \<times> string, gap) dict \<Rightarrow> (nat \<times> (string \<times> string, gap) dict) res" where
  "add_image_gaps g img acc =
     rbind (as_object img) (\<lambda>kvs.
     rbind (field_items kvs ''unknown_license_packages'') (\<lambda>raws.
     if raws = [] then Inr acc
     else rbind (text_item kvs ''name'') (\<lambda>name.
          Inr (fold (\<lambda>raw (total, gaps). (total + 1, add_gap g name raw gaps)) raws acc))))"

fun group_gaps :: "gate \<Rightarrow> json list \<Rightarrow> nat \<times> (string \<times> string, gap) dict \<Rightarrow> (nat \<times> (string \<times> string, gap) dict) res" where
  "group_gaps g [] acc = Inr acc"
| "group_gaps g (img # imgs) acc = rbind (add_image_gaps g img acc) (group_gaps g imgs)"

text \<open>The purl in the order of the report; one that is neither a text nor empty has no place in it.\<close>

definition purl_text :: "gap \<Rightarrow> string res" where
  "purl_text x = (case gp_purl x of JStr s \<Rightarrow> Inr s | j \<Rightarrow> if truthy j then raise TypeError ''purl'' else Inr [])"

definition gap_entry :: "gap \<Rightarrow> (string list \<times> json) res" where
  "gap_entry x =
     rbind (purl_text x) (\<lambda>purl.
     Inr ([py_lower (gp_name x), gp_version x, purl],
       JObj [(''name'', JStr (gp_name x)), (''version'', if gp_version x = [] then JNull else JStr (gp_version x)),
         (''purl'', gp_purl x), (''images'', JList (map JStr (sort_key py_lower (gp_images x)))),
         (''occurrences'', JInt (int (gp_occurrences x)))]))"

definition image_license_gap_report :: "gate \<Rightarrow> object \<Rightarrow> object res" where
  "image_license_gap_report g manifest =
     rbind (field_items manifest ''images'') (\<lambda>images.
     rbind (group_gaps g images (0, [])) (\<lambda>(total, gaps).
     rbind (map_res gap_entry (map snd gaps)) (\<lambda>entries.
     Inr [(''schema_version'', JInt 1),
          (''total_unknown_license_declarations'', JInt (int total)),
          (''unique_package_versions'', JInt (int (length entries))), (''packages'', JList (map snd (sort_key fst entries)))])))"

section \<open>The locked packages and their wheels\<close>

record package =
  pk_name :: string
  pk_version :: string
  pk_hashes :: "string list"
  pk_wheel :: "string option"
  pk_digest :: "string option"
  pk_license :: "string option"
  pk_license_path :: string
  pk_license_sha256 :: string

text \<open>\<open>re.match(r"^([A-Za-z0-9_.-]+)==([^ \\]+)", line)\<close>, and the search for a hash.\<close>

definition requirement_line :: "string \<Rightarrow> (string \<times> string) option" where
  "requirement_line line =
     (let name = takeWhile name_char line; rest = drop (length name) line;
          version = takeWhile (\<lambda>c. c \<noteq> CHR '' '' \<and> c \<noteq> CHR 0x5C) (drop 2 rest)
      in if name \<noteq> [] \<and> starts_with rest ''=='' \<and> version \<noteq> [] then Some (name, version) else None)"

fun hash_option :: "string \<Rightarrow> string option" where
  "hash_option [] = None"
| "hash_option (c # cs) =
     (let s = c # cs; digest = take 64 (drop 14 s) in
      if starts_with s ''--hash=sha256:'' \<and> hex64 digest then Some digest else hash_option cs)"

definition add_hash :: "string \<Rightarrow> package \<Rightarrow> package" where
  "add_hash line p = (case hash_option line of None \<Rightarrow> p | Some digest \<Rightarrow> p\<lparr>pk_hashes := pk_hashes p @ [digest]\<rparr>)"

definition locked_package :: "string \<Rightarrow> string \<Rightarrow> package" where
  "locked_package name version =
     \<lparr>pk_name = name, pk_version = version, pk_hashes = [], pk_wheel = None, pk_digest = None, pk_license = None,
      pk_license_path = ''TBD'', pk_license_sha256 = ''TBD''\<rparr>"

text \<open>The packages read so far, the current one last.\<close>

definition runtime_line :: "string \<Rightarrow> package list \<Rightarrow> package list" where
  "runtime_line line packages =
     (case requirement_line line of
        Some (name, version) \<Rightarrow> packages @ [locked_package name version]
      | None \<Rightarrow> if packages = [] then [] else butlast packages @ [add_hash line (last packages)])"

definition read_utf8 :: "gate \<Rightarrow> path \<Rightarrow> string res" where
  "read_utf8 g p = rbind (gv_read g p) (\<lambda>bs. if utf8_ok bs then Inr (newlines bs) else raise ValueError (gv_decode_error g bs))"

definition runtime_packages :: "gate \<Rightarrow> path \<Rightarrow> package list res" where
  "runtime_packages g lock = rbind (read_utf8 g lock) (\<lambda>txt. Inr (fold runtime_line (split_lines [] txt) []))"

text \<open>
  \<open>^Field:\s*(.+)$\<close> from the start of a line: the value is the rest of the line after the white space; when nothing
  else follows, the last blank that is no line feed.
\<close>

definition header_value :: "string \<Rightarrow> string option" where
  "header_value rest =
     (let blank = takeWhile is_space rest; value = drop (length blank) rest in
      if value \<noteq> [] then Some (takeWhile (\<lambda>c. c \<noteq> CHR 0x0A) value)
      else (case filter (\<lambda>c. c \<noteq> CHR 0x0A) (rev blank) of [] \<Rightarrow> None | c # _ \<Rightarrow> Some [c]))"

text \<open>The first line that has the field; \<open>starts\<close> tells whether a line starts here. The field is in lower case.\<close>

fun find_header :: "string \<Rightarrow> bool \<Rightarrow> string \<Rightarrow> string option" where
  "find_header field starts [] = None"
| "find_header field starts (c # cs) =
     (let s = c # cs in
      case (if starts \<and> py_lower (take (length field) s) = field then header_value (drop (length field) s) else None) of
        Some v \<Rightarrow> Some v
      | None \<Rightarrow> find_header field (c = CHR 0x0A) cs)"

definition normal_name :: "string \<Rightarrow> string" where
  "normal_name s = map (\<lambda>c. if c = CHR ''_'' \<or> c = CHR ''.'' then CHR ''-'' else c) (py_lower s)"

definition wheel_identity :: "wheel \<Rightarrow> (string \<times> string) res" where
  "wheel_identity w =
     (case filter (\<lambda>(name, content). ends_with name ''.dist-info/METADATA'') (wh_members w) of
        [(name, content)] \<Rightarrow>
          (let metadata = utf8_replace content in
           case (find_header ''name:'' True metadata, find_header ''version:'' True metadata) of
             (Some n, Some v) \<Rightarrow> Inr (normal_name (py_strip n), py_strip v)
           | _ \<Rightarrow> raise ValueError (''wheel identity is incomplete: '' @ wh_name w))
      | _ \<Rightarrow> raise ValueError (''wheel must contain exactly one METADATA file: '' @ wh_name w))"

text \<open>The wheels by the name of their package, with version and digest.\<close>

type_synonym selection = "(string, wheel \<times> string \<times> string) dict"

fun index_wheels :: "wheel list \<Rightarrow> selection \<Rightarrow> selection res" where
  "index_wheels [] selected = Inr selected"
| "index_wheels (w # ws) selected =
     rbind (wheel_identity w) (\<lambda>(name, version).
     if has_key selected name then raise ValueError (''multiple selected wheels for package: '' @ name)
     else index_wheels ws (dict_set name (w, version, sha256_hexdigest (wh_bytes w)) selected))"

text \<open>The package with its wheel, and its entry in the manifest of the wheelhouse.\<close>

definition wheel_entry :: "package \<Rightarrow> wheel \<Rightarrow> string \<Rightarrow> json" where
  "wheel_entry p w digest =
     JObj [(''name'', JStr (pk_name p)), (''version'', JStr (pk_version p)), (''path'', JStr (''wheelhouse/'' @ wh_name w)),
       (''sha256'', JStr digest), (''size'', JInt (int (length (wh_bytes w))))]"

definition select_wheel :: "selection \<Rightarrow> package \<Rightarrow> (package \<times> json list) res" where
  "select_wheel selected p =
     (case map_of selected (normal_name (pk_name p)) of
        None \<Rightarrow> Inr (p, [])
      | Some (w, version, digest) \<Rightarrow>
          if version \<noteq> pk_version p then raise ValueError (''selected wheel version mismatch for '' @ pk_name p @ '': '' @ version)
          else if digest \<notin> set (pk_hashes p)
          then raise ValueError (''selected wheel digest is absent from runtime lock: '' @ wh_name w)
          else Inr (p\<lparr>pk_wheel := Some (wh_name w), pk_digest := Some digest\<rparr>, [wheel_entry p w digest]))"

text \<open>The wheels of the wheelhouse in the order of their names, downloaded before if that is asked for.\<close>

definition wheelhouse :: "surroundings \<Rightarrow> bool \<Rightarrow> wheel list res" where
  "wheelhouse e fetch =
     (if fetch then (case gn_download e of Inl err \<Rightarrow> raise RuntimeError (''could not resolve locked wheels: '' @ py_strip err) | Inr ws \<Rightarrow> Inr ws)
      else Inr (gn_wheelhouse e))"

definition select_wheels :: "surroundings \<Rightarrow> bool \<Rightarrow> package list \<Rightarrow> (package list \<times> json list) res" where
  "select_wheels e fetch packages =
     rbind (wheelhouse e fetch) (\<lambda>wheels.
     rbind (index_wheels wheels []) (\<lambda>selected.
     rbind (map_res (select_wheel selected) packages) (\<lambda>chosen.
     let unexpected = sort (filter (\<lambda>name. name \<notin> (\<lambda>p. normal_name (pk_name p)) ` set packages) (map fst selected)) in
     if unexpected \<noteq> [] then raise ValueError (''wheelhouse contains unlocked packages: '' @ py_join '', '' unexpected)
     else Inr (map fst chosen, concat (map snd chosen)))))"

end
