(* ===== verification/CandidateDocs.thy ===== *)
theory CandidateDocs
  imports Candidate
begin

text \<open>
  tools/generate\_distribution\_candidate.py, second part: the components of the lock, the license texts and
  source archives that are written, the documents made of the components, and the whole run with the files it
  leaves and the blockers it reports.
\<close>

section \<open>Components\<close>

text \<open>The twelve fields of a component, and what is added to it later.\<close>

record component =
  co_name :: string
  co_kind :: string
  co_repository :: string
  co_revision :: string
  co_artifact :: string
  co_digest :: string
  co_license_spdx :: string
  co_license_text_sha256 :: string
  co_license_path :: string
  co_owner :: string
  co_distribution_mode :: string
  co_source_obligation :: string
  co_extra :: "(string, json) dict"

definition component_fields :: "component \<Rightarrow> (string \<times> string) list" where
  "component_fields c =
     [(''name'', co_name c), (''kind'', co_kind c), (''repository'', co_repository c), (''revision'', co_revision c),
      (''artifact'', co_artifact c), (''digest'', co_digest c), (''license_spdx'', co_license_spdx c),
      (''license_text_sha256'', co_license_text_sha256 c), (''license_path'', co_license_path c), (''owner'', co_owner c),
      (''distribution_mode'', co_distribution_mode c), (''source_obligation'', co_source_obligation c)]"

definition component_object :: "component \<Rightarrow> object" where
  "component_object c = map (\<lambda>(k, v). (k, JStr v)) (component_fields c) @ co_extra c"

definition set_extra :: "string \<Rightarrow> json \<Rightarrow> component \<Rightarrow> component" where
  "set_extra k v c = c\<lparr>co_extra := dict_set k v (co_extra c)\<rparr>"

text \<open>\<open>str(item.get("commit") or item.get("tag_or_revision") or "TBD")\<close>.\<close>

definition spec_revision :: "gate \<Rightarrow> object \<Rightarrow> string" where
  "spec_revision g item =
     (let a = dict_get_or JNull item ''commit''; b = dict_get_or JNull item ''tag_or_revision'' in
      if truthy a then py_str (gv_repr g) a else if truthy b then py_str (gv_repr g) b else ''TBD'')"

definition spec_component :: "gate \<Rightarrow> object \<Rightarrow> component" where
  "spec_component g item =
     (let name = str_field g item ''name'' ''TBD''; pin = map_of pinned_source_revisions name in
      \<lparr>co_name = name, co_kind = str_field g item ''kind'' ''TBD'', co_repository = str_field g item ''repository'' ''TBD'',
       co_revision = (case pin of None \<Rightarrow> spec_revision g item | Some (revision, evidence) \<Rightarrow> revision),
       co_artifact = str_field g item ''artifact_or_model_id'' ''TBD'', co_digest = str_field g item ''digest'' ''TBD'',
       co_license_spdx = str_field g item ''license_spdx'' ''TBD'',
       co_license_text_sha256 = str_field g item ''license_text_sha256'' ''TBD'', co_license_path = ''TBD'',
       co_owner = str_field g item ''owner'' ''TBD'', co_distribution_mode = str_field g item ''distribution_mode'' ''TBD'',
       co_source_obligation = str_field g item ''source_obligation'' ''TBD'',
       co_extra = (case pin of None \<Rightarrow> [] | Some (revision, evidence) \<Rightarrow> [(''revision_evidence'', JStr evidence)])\<rparr>)"

definition service_component :: "surroundings \<Rightarrow> bytes \<Rightarrow> string \<Rightarrow> component" where
  "service_component e license reference =
     (let name = before_colon reference in
      \<lparr>co_name = name, co_kind = ''oci-image'', co_repository = ''local-docker://'' @ name, co_revision = gn_revision e,
       co_artifact = reference, co_digest = (case docker_image_digest e reference of None \<Rightarrow> ''TBD'' | Some d \<Rightarrow> d),
       co_license_spdx = ''LicenseRef-Proprietary-Atlantis'', co_license_text_sha256 = sha256_hexdigest license,
       co_license_path = ''LICENSES/Atlantis-Proprietary.txt'', co_owner = ''Platform'',
       co_distribution_mode = ''proprietary-service-image'', co_source_obligation = ''proprietary-license-notice'', co_extra = []\<rparr>)"

definition service_blockers :: "surroundings \<Rightarrow> string \<Rightarrow> blocker list" where
  "service_blockers e reference =
     (let name = before_colon reference in
      blocker_of name ''repository'' ''local-image-id-must-be-replaced-by-published-registry-manifest-digest'' #
      (if docker_image_digest e reference = None then [blocker_of name ''digest'' ''local-image-missing''] else []))"

text \<open>The items of the parsed specification lock; the text of the product's license is that of the repository.\<close>

definition normalized_components :: "surroundings \<Rightarrow> bytes \<Rightarrow> object list \<Rightarrow> component list \<times> blocker list" where
  "normalized_components e license items =
     (map (spec_component (gn_gate e)) items @ map (service_component e license) service_images,
      concat (map (service_blockers e) service_images))"

section \<open>License texts and sources\<close>

definition after_slash :: "string \<Rightarrow> string" where
  "after_slash s = last (split_all (CHR ''/'') s)"

definition two_digits :: "nat \<Rightarrow> string" where
  "two_digits n = (if n < 10 then CHR ''0'' # nat_dec n else nat_dec n)"

definition bytes_rstrip :: "bytes \<Rightarrow> bytes" where
  "bytes_rstrip bs = rev (dropWhile (\<lambda>c. 9 \<le> code c \<and> code c \<le> 13 \<or> c = CHR '' '') (rev bs))"

record installed =
  in_license :: "string option"
  in_files :: "(string \<times> bytes) list"

text \<open>
  What the base image says of a package; the content of a file is decoded with \<open>base64.b64decode\<close>. The output
  of a run that fails counts as empty.
\<close>

definition installed_file :: "json \<Rightarrow> (string \<times> bytes) res" where
  "installed_file j =
     rbind (as_object j) (\<lambda>kvs.
     rbind (text_item kvs ''content_base64'') (\<lambda>encoded.
     rbind (of_option (Exn ValueError ''Incorrect padding'') (if list_all (\<lambda>c. code c < 128) encoded then b64_loop 0 0 0 encoded else None)) (\<lambda>content.
     rbind (text_item kvs ''path'') (\<lambda>source. Inr (source, content)))))"

definition installed_of :: "object \<Rightarrow> string \<Rightarrow> installed res" where
  "installed_of metadata name =
     rbind (as_object (dict_get_or (JObj []) metadata name)) (\<lambda>kvs.
     rbind (maybe_string kvs ''declared_license'') (\<lambda>declared.
     rbind (field_items kvs ''license_files'') (\<lambda>items.
     rbind (map_res installed_file items) (\<lambda>files. Inr \<lparr>in_license = declared, in_files = files\<rparr>))))"

definition installed_python_metadata :: "surroundings \<Rightarrow> object res" where
  "installed_python_metadata e =
     (case gn_extract e of (rc, out) \<Rightarrow>
      if rc \<noteq> 0 then Inr []
      else rbind (parse_json (gn_gate e) out) (\<lambda>data. Inr (case data of JObj kvs \<Rightarrow> kvs | _ \<Rightarrow> [])))"

text \<open>The license files of a package: those of the installed one, or the pinned text.\<close>

definition license_files :: "surroundings \<Rightarrow> bool \<Rightarrow> string \<Rightarrow> installed \<Rightarrow> (string \<times> bytes) list res" where
  "license_files e fetch name inst =
     (case (in_files inst, map_of package_license_sources name) of
        ([], Some (url, digest)) \<Rightarrow>
          rbind (pinned_content e url digest (distribution e @ [''LICENSES'', ''python'', name, ''01-LICENSE'']) fetch) (\<lambda>content.
          Inr (case content of None \<Rightarrow> [] | Some bs \<Rightarrow> [(''pinned-source:'' @ url, bs)]))
      | (files, _) \<Rightarrow> Inr files)"

definition license_target :: "string \<Rightarrow> nat \<Rightarrow> string \<Rightarrow> path" where
  "license_target name index source =
     [''LICENSES'', ''python'', name, two_digits index @ ''-'' @ sub_chars name_char (CHR ''_'') (after_slash source)]"

definition combined_text :: "(string \<times> bytes) list \<Rightarrow> bytes" where
  "combined_text files =
     py_join [CHR 0x0A] (map (\<lambda>(source, content). ''===== '' @ source @ '' ====='' @ CHR 0x0A # bytes_rstrip content @ [CHR 0x0A]) files)"

definition or_null :: "string option \<Rightarrow> json" where
  "or_null v = (case v of None \<Rightarrow> JNull | Some s \<Rightarrow> JStr s)"

definition package_licenses ::
  "surroundings \<Rightarrow> bool \<Rightarrow> object \<Rightarrow> package \<Rightarrow> (package \<times> object \<times> writes) res" where
  "package_licenses e fetch metadata p =
     (let name = normal_name (pk_name p) in
      rbind (installed_of metadata name) (\<lambda>inst.
      rbind (license_files e fetch name inst) (\<lambda>files.
      let targets = map (\<lambda>(i, source, content). (license_target name i source, content)) (enumerate 1 files);
          combined = combined_text files; combined_path = [''LICENSES'', ''python'', name, ''COMPLETE_LICENSE_TEXTS.txt''];
          path_of = (if files = [] then None else Some (py_join ''/'' combined_path));
          digest_of_text = (if files = [] then None else Some (sha256_hexdigest combined)) in
      Inr (p\<lparr>pk_license := in_license inst, pk_license_path := (case path_of of None \<Rightarrow> ''TBD'' | Some t \<Rightarrow> t),
             pk_license_sha256 := (case digest_of_text of None \<Rightarrow> ''TBD'' | Some d \<Rightarrow> d)\<rparr>,
           [(''name'', JStr (pk_name p)), (''version'', JStr (pk_version p)), (''declared_license'', or_null (in_license inst)),
            (''files'', JList (map (\<lambda>(target, content). JObj [(''path'', JStr (py_join ''/'' target)),
               (''sha256'', JStr (sha256_hexdigest content))]) targets)),
            (''combined_license_path'', or_null path_of), (''combined_license_sha256'', or_null digest_of_text)],
           targets @ (if files = [] then [] else [(combined_path, combined)])))))"

definition materialize_python_licenses ::
  "surroundings \<Rightarrow> bool \<Rightarrow> object \<Rightarrow> package list \<Rightarrow> (package list \<times> object list \<times> writes) res" where
  "materialize_python_licenses e fetch metadata packages =
     rbind (map_res (package_licenses e fetch metadata) packages) (\<lambda>rows.
     Inr (map fst rows, map (fst o snd) rows, concat (map (snd o snd) rows)))"

definition component_license :: "surroundings \<Rightarrow> bool \<Rightarrow> component \<Rightarrow> (component \<times> writes) res" where
  "component_license e fetch c =
     (case map_of component_license_sources (co_name c) of
        None \<Rightarrow> Inr (c, [])
      | Some (url, digest) \<Rightarrow>
          (let target = [''LICENSES'', ''components'', co_name c @ ''.txt''] in
           rbind (pinned_content e url digest (distribution e @ target) fetch) (\<lambda>content.
           case content of
             None \<Rightarrow> Inr (c, [])
           | Some bs \<Rightarrow> Inr (set_extra ''license_source'' (JStr url)
               (c\<lparr>co_license_path := py_join ''/'' target, co_license_text_sha256 := digest\<rparr>), [(target, bs)]))))"

definition component_source :: "surroundings \<Rightarrow> bool \<Rightarrow> component \<Rightarrow> (component \<times> writes) res" where
  "component_source e fetch c =
     (case map_of source_archives (co_name c) of
        None \<Rightarrow> Inr (c, [])
      | Some (url, digest, filename) \<Rightarrow>
          (let target = [''corresponding-source'', co_name c, filename] in
           rbind (pinned_content e url digest (distribution e @ target) fetch) (\<lambda>content.
           case content of
             None \<Rightarrow> Inr (c, [])
           | Some bs \<Rightarrow> Inr (set_extra ''source_sha256'' (JStr digest) (set_extra ''source_path'' (JStr (py_join ''/'' (tl target)))
               (c\<lparr>co_artifact := py_join ''/'' target, co_digest := ''sha256:'' @ digest\<rparr>)), [(target, bs)]))))"

definition materialize :: "(component \<Rightarrow> (component \<times> writes) res) \<Rightarrow> component list \<Rightarrow> (component list \<times> writes) res" where
  "materialize f components =
     rbind (map_res f components) (\<lambda>rows. Inr (map fst rows, concat (map snd rows)))"

text \<open>
  The descriptors of the models: the answer of the model repository for a revision is checked and written in canonical form;
  a descriptor that is written, or was there before, is read and bound to the component.
\<close>

definition sibling_file :: "json \<Rightarrow> (string \<times> json) res" where
  "sibling_file j =
     rbind (as_object j) (\<lambda>kvs.
     rbind (text_item kvs ''rfilename'') (\<lambda>name.
     Inr (name, JObj (concat (map (\<lambda>k. case map_of kvs k of None \<Rightarrow> [] | Some v \<Rightarrow> [(k, v)])
       [''rfilename'', ''blobId'', ''size'', ''lfs''])))))"

definition model_url :: "string \<Rightarrow> string \<Rightarrow> string" where
  "model_url model_id revision = ''https://huggingface.co/api/models/'' @ model_id @ ''/revision/'' @ revision @ ''?blobs=true''"

definition remote_descriptor :: "surroundings \<Rightarrow> string \<Rightarrow> string \<Rightarrow> bytes res" where
  "remote_descriptor e model_id revision =
     rbind (gn_fetch e (model_url model_id revision)) (\<lambda>bs.
     rbind (parse_json (gn_gate e) bs) (\<lambda>j.
     rbind (as_object j) (\<lambda>remote.
     if dict_get_or JNull remote ''sha'' \<noteq> JStr revision then raise ValueError (''model repository revision mismatch: '' @ model_id)
     else rbind (field_items remote ''siblings'') (\<lambda>siblings.
          rbind (map_res sibling_file siblings) (\<lambda>files.
          Inr (canonical_json (JObj [(''schema_version'', JInt 1), (''provider'', JStr ''huggingface''), (''model_id'', JStr model_id),
            (''revision'', JStr revision), (''files'', JList (map snd (sort_key fst files)))]) @ [CHR 0x0A]))))))"

definition model_descriptor :: "surroundings \<Rightarrow> bool \<Rightarrow> component \<Rightarrow> (component \<times> writes) res" where
  "model_descriptor e fetch c =
     (case map_of model_metadata (co_name c) of
        None \<Rightarrow> Inr (c, [])
      | Some model_id \<Rightarrow>
          (let target = [''model-descriptors'', co_name c @ ''.json''] in
           rbind (if fetch then rbind (remote_descriptor e model_id (co_revision c)) (\<lambda>bs. Inr (Some bs))
                  else if is_file (gn_gate e) (distribution e @ target)
                  then rbind (gv_read (gn_gate e) (distribution e @ target)) (\<lambda>bs. Inr (Some bs))
                  else Inr None) (\<lambda>content.
           case content of
             None \<Rightarrow> Inr (c, [])
           | Some bs \<Rightarrow>
               rbind (parse_json (gn_gate e) bs) (\<lambda>j.
               rbind (as_object j) (\<lambda>descriptor.
               if dict_get_or JNull descriptor ''model_id'' \<noteq> JStr model_id \<or> dict_get_or JNull descriptor ''revision'' \<noteq> JStr (co_revision c)
               then raise ValueError (''cached model descriptor mismatch: '' @ model_id)
               else Inr (c\<lparr>co_artifact := py_join ''/'' target, co_digest := ''sha256:'' @ sha256_hexdigest bs\<rparr>,
                      if fetch then [(target, bs)] else []))))))"

section \<open>Documents\<close>

definition pinned_digest :: "component \<Rightarrow> string option" where
  "pinned_digest c = (if sha256_reference (co_digest c) then Some (remove_prefix ''sha256:'' (co_digest c)) else None)"

definition letter_or_digit :: "char \<Rightarrow> bool" where
  "letter_or_digit c \<longleftrightarrow> word_char c \<and> c \<noteq> CHR ''_''"

definition license_choice :: "string \<Rightarrow> json" where
  "license_choice license =
     (if license \<noteq> [] \<and> list_all (\<lambda>c. letter_or_digit c \<or> c \<in> set ''.+-'') license
      then JObj [(''license'', JObj [(''id'', JStr license)])] else JObj [(''expression'', JStr license)])"

definition sha256_hash :: "json \<Rightarrow> json" where
  "sha256_hash digest = JObj [(''alg'', JStr ''SHA-256''), (''content'', digest)]"

definition cyclonedx_hashes :: "component \<Rightarrow> object" where
  "cyclonedx_hashes c =
     (case pinned_digest c of
        Some digest \<Rightarrow> [(''hashes'', JList [sha256_hash (JStr digest)])]
      | None \<Rightarrow>
          (case dict_get_or JNull (co_extra c) ''all_hashes'' of
             JList (d # ds) \<Rightarrow> [(''hashes'', JList (map sha256_hash (d # ds)))]
           | _ \<Rightarrow> []))"

definition cyclonedx_entry :: "component \<Rightarrow> object" where
  "cyclonedx_entry c =
     [(''type'', JStr (if co_kind c = ''oci-image'' then ''container'' else ''library'')), (''name'', JStr (co_name c)),
      (''version'', JStr (co_revision c)), (''licenses'', JList [license_choice (co_license_spdx c)]),
      (''properties'', JList [JObj [(''name'', JStr ''atlantis:repository''), (''value'', JStr (co_repository c))],
         JObj [(''name'', JStr ''atlantis:artifact''), (''value'', JStr (co_artifact c))]])] @
     cyclonedx_hashes c @
     (let purl = dict_get_or JNull (co_extra c) ''purl'' in if truthy purl then [(''purl'', purl)] else [])"

definition cyclonedx_components :: "component list \<Rightarrow> json list" where
  "cyclonedx_components components = map (JObj o cyclonedx_entry) components"

definition spdx_id :: "string \<Rightarrow> string" where
  "spdx_id name = ''SPDXRef-Package-'' @ sub_chars (\<lambda>c. letter_or_digit c \<or> c = CHR ''.'' \<or> c = CHR ''-'') (CHR ''-'') name"

definition spdx_package :: "component \<Rightarrow> object" where
  "spdx_package c =
     [(''SPDXID'', JStr (spdx_id (co_name c))), (''name'', JStr (co_name c)), (''versionInfo'', JStr (co_revision c)),
      (''downloadLocation'', JStr (if starts_with (co_repository c) ''http://'' \<or> starts_with (co_repository c) ''https://''
         then co_repository c else ''NOASSERTION'')),
      (''filesAnalyzed'', JBool False), (''licenseConcluded'', JStr ''NOASSERTION''), (''licenseDeclared'', JStr (co_license_spdx c)),
      (''copyrightText'', JStr ''NOASSERTION'')] @
     (case pinned_digest c of
        None \<Rightarrow> []
      | Some digest \<Rightarrow> [(''checksums'', JList [JObj [(''algorithm'', JStr ''SHA256''), (''checksumValue'', JStr digest)]])]) @
     (let purl = dict_get_or JNull (co_extra c) ''purl'' in
      if truthy purl then [(''externalRefs'', JList [JObj [(''referenceCategory'', JStr ''PACKAGE-MANAGER''),
        (''referenceType'', JStr ''purl''), (''referenceLocator'', purl)]])] else [])"

definition spdx_relationship :: "component \<Rightarrow> json" where
  "spdx_relationship c =
     JObj [(''spdxElementId'', JStr ''SPDXRef-DOCUMENT''), (''relationshipType'', JStr ''DESCRIBES''),
       (''relatedSpdxElement'', JStr (spdx_id (co_name c)))]"

definition spdx_document :: "surroundings \<Rightarrow> component list \<Rightarrow> object" where
  "spdx_document e components =
     (let packages = JList (map (JObj o spdx_package) components) in
      [(''spdxVersion'', JStr ''SPDX-2.3''), (''dataLicense'', JStr ''CC0-1.0''), (''SPDXID'', JStr ''SPDXRef-DOCUMENT''),
       (''name'', JStr ''atlantis-autonomous-sales-0.9.0-rc5-candidate''),
       (''documentNamespace'', JStr (''https://atlantis.invalid/spdx/'' @ sha256_hexdigest (canonical_json packages))),
       (''creationInfo'', JObj [(''created'', JStr (gn_stamp e)), (''creators'', JList [JStr ''Tool: Atlantis distribution candidate generator''])]),
       (''packages'', packages), (''relationships'', JList (map spdx_relationship components))])"

definition by_folded_name :: "component list \<Rightarrow> component list" where
  "by_folded_name components = sort_key (\<lambda>c. py_lower (co_name c)) components"

text \<open>The dash of the title is three bytes.\<close>

definition notice_lines :: "component \<Rightarrow> string list" where
  "notice_lines c =
     [''## '' @ co_name c, [],
      ''- Revision: `'' @ co_revision c @ ''`'',
      ''- License declaration: `'' @ co_license_spdx c @ ''`'',
      ''- Repository/source: '' @ co_repository c,
      ''- Distribution mode: `'' @ co_distribution_mode c @ ''`'',
      ''- Source obligation: '' @ co_source_obligation c, []]"

definition notices_document :: "component list \<Rightarrow> string" where
  "notices_document components =
     py_join [CHR 0x0A]
       ([''# Third-party notices '' @ [CHR 0xE2, CHR 0x80, CHR 0x94] @ '' distribution candidate'', [],
         ''> BLOCKED: generated inventory for review; this is not a Legal approval or release authorization.'', []] @
        concat (map notice_lines (by_folded_name components)))"

definition source_entry :: "component \<Rightarrow> json" where
  "source_entry c =
     (let obligation = py_lower (co_source_obligation c);
          requires_source = list_ex (\<lambda>marker. has_sub marker obligation) [''include'', ''source-offer'', ''corresponding-source''];
          path = dict_get_or JNull (co_extra c) ''source_path'' in
      JObj [(''name'', JStr (co_name c)),
        (''disposition'', JStr (if truthy path then ''included'' else if requires_source then ''pending-review'' else ''not-required-candidate'')),
        (''obligation'', JStr (co_source_obligation c)), (''path'', path),
        (''sha256'', dict_get_or JNull (co_extra c) ''source_sha256'')])"

definition source_manifest :: "component list \<Rightarrow> object" where
  "source_manifest components =
     [(''schema_version'', JInt 1), (''release_status'', JStr ''blocked''),
      (''components'', JList (map source_entry (by_folded_name components)))]"

definition component_review :: "component \<Rightarrow> json" where
  "component_review c =
     JObj [(''name'', JStr (co_name c)), (''revision'', JStr (co_revision c)), (''license_spdx'', JStr (co_license_spdx c)),
       (''license_path'', JStr (co_license_path c)), (''license_text_sha256'', JStr (co_license_text_sha256 c)),
       (''source_obligation'', JStr (co_source_obligation c))]"

text \<open>The name and version of an entry of the inventory must be there; the rest may be missing.\<close>

definition python_review :: "object \<Rightarrow> (string \<times> json) res" where
  "python_review kvs =
     rbind (text_item kvs ''name'') (\<lambda>name.
     rbind (body_item kvs ''version'') (\<lambda>version.
     Inr (py_lower name,
       JObj ([(''name'', JStr name), (''version'', version)] @
         map (\<lambda>k. (k, dict_get_or JNull kvs k)) [''declared_license'', ''license_path'', ''license_text_sha256'']))))"

definition legal_review_queue :: "gate \<Rightarrow> component list \<Rightarrow> object list \<Rightarrow> object option \<Rightarrow> object res" where
  "legal_review_queue g components license_inventory image_manifest =
     rbind (map_res python_review license_inventory) (\<lambda>reviews.
     rbind (case image_manifest of
              Some manifest \<Rightarrow> image_license_gap_report g manifest
            | None \<Rightarrow> Inr [(''total_unknown_license_declarations'', JInt 0), (''unique_package_versions'', JInt 0), (''packages'', JList [])]) (\<lambda>gaps.
     Inr [(''schema_version'', JInt 1), (''release_status'', JStr ''blocked''), (''legal_approval_recorded'', JBool False),
          (''component_declarations'', JList (map component_review (by_folded_name components))),
          (''python_package_declarations'', JList (map snd (sort_key fst reviews))),
          (''image_license_gaps'', JObj gaps)]))"


end
