(* ===== verification/CandidateRun.thy ===== *)
theory CandidateRun
  imports CandidateDocs
begin

text \<open>
  tools/generate\_distribution\_candidate.py, third part: the packages of the lock become components, what is
  still open becomes a blocker, and the run as a whole with the files it leaves.
\<close>

section \<open>The runner of openoutreach\<close>

definition runner_path :: path where
  "runner_path = [''opt'', ''atlantis'', ''opensource'', ''openoutreach-runner'', ''runner.sh'']"

definition openoutreach_runner :: "surroundings \<Rightarrow> path" where
  "openoutreach_runner e = gn_base e @ [''tools'', ''openoutreach_container_runner.py'']"

definition openoutreach_image :: string where
  "openoutreach_image = ''ghcr.io/eracle/openoutreach@sha256:d6f355877c8f915057fe019a9f6b991a28e3752757c927de34280d9f56a9519b''"

fun update_first :: "('a \<Rightarrow> bool) \<Rightarrow> ('a \<Rightarrow> 'a) \<Rightarrow> 'a list \<Rightarrow> 'a list option" where
  "update_first P f [] = None"
| "update_first P f (x # xs) = (if P x then Some (f x # xs) else map_option ((#) x) (update_first P f xs))"

definition bind_runner :: "bytes \<Rightarrow> component \<Rightarrow> component" where
  "bind_runner runner c =
     set_extra ''runtime_image'' (JStr openoutreach_image) (set_extra ''runtime_wrapper_sha256'' (JStr (sha256_hexdigest runner)) c)"

definition check_runner :: "surroundings \<Rightarrow> component list \<Rightarrow> (component list \<times> blocker list) res" where
  "check_runner e components =
     (if \<not> is_file (gn_gate e) runner_path
      then Inr (components, [blocker_of ''openoutreach'' ''runtime'' ''external-runtime-not-installed''])
      else rbind (gv_read (gn_gate e) runner_path) (\<lambda>runner.
           let runner_text = newlines (utf8_replace runner) in
           if has_sub ''leads de ejemplo'' runner_text \<or> has_sub ''example.org/dir/'' runner_text
           then Inr (components, [blocker_of ''openoutreach'' ''runtime'' ''installed-runtime-is-fixture''])
           else rbind (gv_read (gn_gate e) (openoutreach_runner e)) (\<lambda>ours.
                if runner \<noteq> ours
                then Inr (components, [blocker_of ''openoutreach'' ''runtime'' ''installed-runtime-digest-not-bound-to-candidate''])
                else case update_first (\<lambda>c. co_name c = ''openoutreach'') (bind_runner runner) components of
                    None \<Rightarrow> raise StopIteration []
                  | Some updated \<Rightarrow> Inr (updated, []))))"

section \<open>The packages as components\<close>

text \<open>\<open>package.get("declared_license")\<close> if it is not empty.\<close>

definition declared_license :: "package \<Rightarrow> string option" where
  "declared_license p = (case pk_license p of Some l \<Rightarrow> if l = [] then None else Some l | None \<Rightarrow> None)"

definition package_blockers :: "package \<Rightarrow> blocker list" where
  "package_blockers p =
     blocker_of (pk_name p) ''license_spdx''
       (if declared_license p \<noteq> None then ''verify-installed-package-declaration'' else ''installed-package-license-metadata-missing'') #
     (if pk_digest p = None then [blocker_of (pk_name p) ''digest'' ''select-exact-distributed-wheel''] else [])"

definition package_purl :: "package \<Rightarrow> string" where
  "package_purl p = ''pkg:pypi/'' @ pk_name p @ ''@'' @ pk_version p"

definition package_artifact :: "package \<Rightarrow> string" where
  "package_artifact p = (case pk_wheel p of Some w \<Rightarrow> ''wheelhouse/'' @ w | None \<Rightarrow> package_purl p)"

definition package_digest :: "package \<Rightarrow> string" where
  "package_digest p = (case pk_digest p of Some d \<Rightarrow> ''sha256:'' @ d | None \<Rightarrow> ''TBD'')"

definition package_extra :: "package \<Rightarrow> component \<Rightarrow> component" where
  "package_extra p c = set_extra ''all_hashes'' (JList (map JStr (pk_hashes p))) (set_extra ''purl'' (JStr (package_purl p)) c)"

definition package_component :: "package \<Rightarrow> component" where
  "package_component p =
     package_extra p
      \<lparr>co_name = pk_name p, co_kind = ''python-package'', co_repository = ''https://pypi.org/project/'' @ pk_name p @ ''/'',
       co_revision = pk_version p, co_artifact = package_artifact p, co_digest = package_digest p,
       co_license_spdx = (case declared_license p of Some l \<Rightarrow> l | None \<Rightarrow> ''TBD''),
       co_license_text_sha256 = pk_license_sha256 p, co_license_path = pk_license_path p, co_owner = ''Platform'',
       co_distribution_mode = ''proprietary-service-runtime-dependency'', co_source_obligation = ''pending-legal-verification'',
       co_extra = []\<rparr>"

text \<open>\<open>existing.update(...)\<close>.\<close>

definition update_component :: "package \<Rightarrow> component \<Rightarrow> component" where
  "update_component p c =
     package_extra p (c\<lparr>co_revision := pk_version p, co_artifact := package_artifact p, co_digest := package_digest p,
       co_license_text_sha256 := pk_license_sha256 p, co_license_path := pk_license_path p\<rparr>)"

text \<open>The dictionary by folded names holds the last component of a name.\<close>

definition merge_package :: "package \<Rightarrow> component list \<Rightarrow> component list" where
  "merge_package p components =
     (case update_first (\<lambda>c. py_lower (co_name c) = py_lower (pk_name p)) (update_component p) (rev components) of
        None \<Rightarrow> components @ [package_component p]
      | Some updated \<Rightarrow> rev updated)"

definition merge_packages :: "package list \<Rightarrow> component list \<Rightarrow> component list" where
  "merge_packages packages components = fold merge_package packages components"

definition pending_fields :: "component \<Rightarrow> blocker list" where
  "pending_fields c =
     map (\<lambda>(field, v). blocker_of (co_name c) field ''not-fixed'')
       (filter (\<lambda>(field, v). field \<notin> {''name'', ''kind''} \<and> py_upper (py_strip v) \<in> pending) (component_fields c))"

section \<open>The documents\<close>

definition candidate_lock :: "surroundings \<Rightarrow> component list \<Rightarrow> object" where
  "candidate_lock e components =
     [(''schema_version'', JInt 1), (''release_status'', JStr ''blocked''), (''source_revision'', JStr (gn_revision e)),
      (''components'', JList (map (JObj o component_object) components))]"

definition slice :: "nat \<Rightarrow> nat \<Rightarrow> string \<Rightarrow> string" where
  "slice a b s = take (b - a) (drop a s)"

definition serial_number :: "string \<Rightarrow> string" where
  "serial_number seed =
     ''urn:uuid:'' @ py_join ''-'' [slice 0 8 seed, slice 8 12 seed, slice 12 16 seed, slice 16 20 seed, slice 20 32 seed]"

definition candidate_sbom :: "component list \<Rightarrow> object" where
  "candidate_sbom components =
     (let sbom_components = JList (cyclonedx_components components) in
      [(''bomFormat'', JStr ''CycloneDX''), (''specVersion'', JStr ''1.6''),
       (''serialNumber'', JStr (serial_number (sha256_hexdigest (canonical_json sbom_components)))),
       (''version'', JInt 1),
       (''metadata'', JObj [(''component'', JObj [(''type'', JStr ''application''), (''name'', JStr ''atlantis-autonomous-sales''),
          (''version'', JStr ''0.9.0-rc5'')])]),
       (''components'', sbom_components),
       (''properties'', JList [JObj [(''name'', JStr ''atlantis:distribution-status''), (''value'', JStr ''blocked-candidate-only'')]])])"

definition candidate_report :: "blocker list \<Rightarrow> object" where
  "candidate_report blockers =
     [(''schema_version'', JInt 1), (''distribution_authorized'', JBool False), (''blocker_count'', JInt (int (length blockers))),
      (''blockers'', JList (map blocker_json (sort_key (\<lambda>b. [bl_component b, bl_field b, bl_reason b]) blockers))),
      (''required_human_approvals'', JList [JStr ''release'', JStr ''security'', JStr ''legal''])]"

definition document_text :: "object \<Rightarrow> bytes" where
  "document_text kvs = dumps_indented (JObj kvs) @ [CHR 0x0A]"

text \<open>What a run has found out: the components, the blockers and what goes into the documents beside them.\<close>

record candidate =
  ca_components :: "component list"
  ca_blockers :: "blocker list"
  ca_wheels :: "json list"
  ca_images :: "object option"
  ca_inventory :: "object list"

definition image_documents :: "gate \<Rightarrow> object option \<Rightarrow> writes res" where
  "image_documents g image_manifest =
     (case image_manifest of
        None \<Rightarrow> Inr []
      | Some manifest \<Rightarrow>
          rbind (image_license_gap_report g manifest) (\<lambda>report.
          Inr [([''image-sboms'', ''manifest.candidate.json''], document_text manifest),
               ([''IMAGE_LICENSE_GAPS.json''], document_text report)]))"

definition documents :: "surroundings \<Rightarrow> candidate \<Rightarrow> writes res" where
  "documents e ca =
     rbind (image_documents (gn_gate e) (ca_images ca)) (\<lambda>image_files.
     rbind (legal_review_queue (gn_gate e) (ca_components ca) (ca_inventory ca) (ca_images ca)) (\<lambda>queue.
     Inr ([([''component-lock.candidate.json''], document_text (candidate_lock e (ca_components ca))),
           ([''sbom.cdx.candidate.json''], document_text (candidate_sbom (ca_components ca))),
           ([''sbom.spdx.candidate.json''], document_text (spdx_document e (ca_components ca))),
           ([''THIRD_PARTY_NOTICES.candidate.md''], notices_document (ca_components ca)),
           ([''corresponding-source'', ''manifest.candidate.json''], document_text (source_manifest (ca_components ca))),
           ([''wheelhouse-manifest.candidate.json''],
            document_text [(''runtime_lock'', JStr ''deploy/proxmox/base/requirements-runtime.lock''), (''artifacts'', JList (ca_wheels ca))])] @
          image_files @
          [([''BLOCKERS.json''], document_text (candidate_report (ca_blockers ca))),
           ([''license-inventory.candidate.json''],
            document_text [(''source_image'', JStr ''atlantis-python-base:0.9.0-rc5''), (''packages'', JList (map JObj (ca_inventory ca)))]),
           ([''LEGAL_REVIEW_QUEUE.json''], document_text queue)])))"

section \<open>The run\<close>

record generator_options =
  go_wheels :: bool
  go_scan :: bool
  go_licenses :: bool
  go_sources :: bool
  go_models :: bool

definition image_findings :: "surroundings \<Rightarrow> bool \<Rightarrow> (object option \<times> blocker list \<times> writes) res" where
  "image_findings e scan =
     (let existing = distribution e @ [''image-sboms'', ''manifest.candidate.json''] in
      if scan then rbind (scan_image_sboms e) (\<lambda>(manifest, blockers, files). Inr (Some manifest, blockers, files))
      else if is_file (gn_gate e) existing
      then rbind (gv_read (gn_gate e) existing) (\<lambda>bs.
           rbind (refresh_image_manifest e bs) (\<lambda>(manifest, blockers). Inr (Some manifest, blockers, [])))
      else Inr (None, [], []))"

definition spec_items :: "surroundings \<Rightarrow> (string \<Rightarrow> json res) \<Rightarrow> object list res" where
  "spec_items e yaml =
     rbind (read_utf8 (gn_gate e) (gn_base e @ [''spec'', ''compliance'', ''component-lock.yaml''])) (\<lambda>txt.
     rbind (yaml txt) (\<lambda>source. rbind (as_object source) (\<lambda>kvs.
     rbind (field_items kvs ''components'') (map_res as_object))))"

definition survey :: "surroundings \<Rightarrow> (string \<Rightarrow> json res) \<Rightarrow> generator_options \<Rightarrow> (candidate \<times> writes) res" where
  "survey e yaml opts =
     rbind (spec_items e yaml) (\<lambda>items.
     rbind (gv_read (gn_gate e) (gn_base e @ [''LICENSE''])) (\<lambda>license.
     let (components, b1) = normalized_components e license items in
     rbind (runtime_packages (gn_gate e) (gn_base e @ [''deploy'', ''proxmox'', ''base'', ''requirements-runtime.lock''])) (\<lambda>locked.
     rbind (select_wheels e (go_wheels opts) locked) (\<lambda>(chosen, wheel_manifest).
     rbind (image_findings e (go_scan opts)) (\<lambda>(images, b2, w2).
     rbind (installed_python_metadata e) (\<lambda>metadata.
     rbind (materialize_python_licenses e (go_licenses opts) metadata chosen) (\<lambda>(packages, inventory, w3).
     rbind (materialize (component_license e (go_licenses opts)) components) (\<lambda>(licensed, w4).
     rbind (materialize (component_source e (go_sources opts)) licensed) (\<lambda>(sourced, w5).
     rbind (materialize (model_descriptor e (go_models opts)) sourced) (\<lambda>(described, w6).
     rbind (check_runner e described) (\<lambda>(checked, b3).
     let final = merge_packages packages checked in
     Inr (\<lparr>ca_components = final,
            ca_blockers = b1 @ b2 @ b3 @ concat (map package_blockers packages) @ concat (map pending_fields final),
            ca_wheels = wheel_manifest, ca_images = images, ca_inventory = inventory\<rparr>,
          w2 @ w3 @ [([''LICENSES'', ''Atlantis-Proprietary.txt''], license)] @ w4 @ w5 @ w6))))))))))))"

text \<open>\<open>main()\<close> with its options: the files below the output directory, later ones replacing earlier ones; the printed line; the exit code.\<close>

definition generate :: "surroundings \<Rightarrow> (string \<Rightarrow> json res) \<Rightarrow> generator_options \<Rightarrow> (writes \<times> string \<times> int) res" where
  "generate e yaml opts =
     rbind (survey e yaml opts) (\<lambda>(ca, materials).
     rbind (documents e ca) (\<lambda>docs.
     Inr (materials @ docs,
          json_dumps (JObj [(''status'', JStr ''BLOCKED_CANDIDATE_GENERATED''), (''components'', JInt (int (length (ca_components ca)))),
            (''blockers'', JInt (int (length (ca_blockers ca))))]), 0)))"

end
