(* ===== verification/PrintedJson.thy ===== *)
theory PrintedJson
  imports Evidence Telemetry
begin

text \<open>
  What the programs print with \<open>json.dumps\<close>, in any of the layouts they use, is read back by \<open>json.loads\<close> as the
  value that was printed. A text prints a value when it has the value's tokens with any white space between them.
\<close>

section \<open>Escaped text\<close>

definition scalar :: "nat \<Rightarrow> bool" where
  "scalar n \<longleftrightarrow> n < 1114112 \<and> \<not> (55296 \<le> n \<and> n < 57344)"

lemma div_mod_64: "b < 64 \<Longrightarrow> (64 * a + b) div 64 = (a :: nat)" "b < 64 \<Longrightarrow> (64 * a + b) mod 64 = b"
  by simp_all

lemma div_4096: "n div 4096 = n div 64 div (64 :: nat)"
  by (simp add: div_mult2_eq [symmetric])

lemma div_262144: "n div 262144 = n div 4096 div (64 :: nat)"
  by (simp add: div_mult2_eq [symmetric])

lemma tail_value: "code x div 64 = 2 \<Longrightarrow> code x = 128 + code x mod 64"
  using div_mult_mod_eq [of "code x" 64] by simp

lemma tail_code: "code x div 64 = 2 \<Longrightarrow> char_of (128 + code x mod 64) = x"
  by (metis tail_value char_of_code)

lemma lead_code:
  assumes "code c = m + k"
  shows "char_of (m + k) = c"
  using assms by (metis char_of_code)

lemma some_elements:
  "length t = 1 \<Longrightarrow> \<exists>x. t = [x]" "length t = 2 \<Longrightarrow> \<exists>x y. t = [x, y]" "length t = 3 \<Longrightarrow> \<exists>x y z. t = [x, y, z]"
  by (auto simp: length_Suc_conv numeral_eq_Suc)

lemma mod_offset: "a < m \<Longrightarrow> (k * m + a) mod m = (a :: nat)"
  by simp

lemma leads:
  "a < 32 \<Longrightarrow> utf8_lead (192 + a) = a" "a < 16 \<Longrightarrow> utf8_lead (224 + a) = a" "a < 8 \<Longrightarrow> utf8_lead (240 + a) = a"
  using mod_offset [of a 32 6] mod_offset [of a 16 14] mod_offset [of a 8 30] by (simp_all add: utf8_lead_def)

lemma three_bytes:
  assumes "a < 16" "b < 64" "d < 64" "a = 0 \<longrightarrow> 32 \<le> b" "a = 13 \<longrightarrow> b < 32"
  shows "64 * (64 * a + b) + d < 65536 \<and> 2048 \<le> 64 * (64 * a + b) + d \<and> scalar (64 * (64 * a + b) + d)"
proof -
  consider "a = 0" | "1 \<le> a" "a \<le> 12" | "a = 13" | "14 \<le> a" by linarith
  then show ?thesis using assms by cases (auto simp: scalar_def)
qed

lemma four_bytes:
  assumes "a < 5" "b < 64" "d < 64" "e < 64" "a = 0 \<longrightarrow> 16 \<le> b" "a = 4 \<longrightarrow> b < 16"
  shows "65536 \<le> 64 * (64 * (64 * a + b) + d) + e \<and> scalar (64 * (64 * (64 * a + b) + d) + e)"
proof -
  consider "a = 0" | "1 \<le> a" "a \<le> 3" | "a = 4" using assms(1) by linarith
  then show ?thesis using assms by cases (auto simp: scalar_def)
qed

lemma code_point_bytes:
  assumes "utf8_ok (c # cs)"
  shows "utf8 (hd (code_points (c # cs))) = c # take (utf8_length (code c)) cs \<and> scalar (hd (code_points (c # cs)))"
proof -
  let ?k = "utf8_length (code c)" let ?t = "take ?k cs"
  have u: "code c < 128 \<or> 194 \<le> code c \<and> code c < 245" "length ?t = ?k" "list_all (\<lambda>n. n div 64 = 2) (map code ?t)"
    "?k = 0 \<or> utf8_tail_ok (code c) (hd (map code ?t))"
    using assms by (simp_all add: Let_def)
  have h: "hd (code_points (c # cs)) = foldl (\<lambda>v x. 64 * v + code x mod 64) (utf8_lead (code c)) ?t"
    by (simp add: Let_def)
  consider "code c < 128" | "194 \<le> code c" "code c < 224" | "224 \<le> code c" "code c < 240" | "240 \<le> code c" "code c < 245"
    using u(1) by linarith
  then show ?thesis
  proof cases
    case 1
    then show ?thesis by (simp add: h utf8_length_def utf8_lead_def utf8_def scalar_def)
  next
    case 2
    then have "?k = 1" by (simp add: utf8_length_def)
    then obtain x where t: "?t = [x]" using some_elements(1) u(2) by metis
    define a b where "a = code c - 192" and "b = code x mod 64"
    have b: "b < 64" "char_of (128 + b) = x" using u(3) tail_code [of x] by (simp_all add: b_def t)
    have a: "code c = 192 + a" "2 \<le> a" "a < 32" using 2 by (simp_all add: a_def)
    have n: "hd (code_points (c # cs)) = 64 * a + b" unfolding h t using a leads(1) [of a] by (simp add: b_def)
    have "64 * a + b < 2048" "128 \<le> 64 * a + b" using a b by linarith+
    then show ?thesis unfolding n t using b lead_code [OF a(1)] by (simp add: utf8_def scalar_def)
  next
    case 3
    then have "?k = 2" by (simp add: utf8_length_def)
    then obtain x y where t: "?t = [x, y]" using some_elements(2) u(2) by metis
    define a b b' where "a = code c - 224" and "b = code x mod 64" and "b' = code y mod 64"
    have b: "b < 64" "char_of (128 + b) = x" "b' < 64" "char_of (128 + b') = y"
      using u(3) tail_code [of x] tail_code [of y] by (simp_all add: b_def b'_def t)
    have a: "code c = 224 + a" "a < 16" using 3 by (simp_all add: a_def)
    have n: "hd (code_points (c # cs)) = 64 * (64 * a + b) + b'" unfolding h t using a leads(2) [of a] by (simp add: b_def b'_def)
    have "utf8_tail_ok (code c) (code x)" "code x = 128 + b" using u(3,4) t tail_value [of x] by (auto simp: b_def)
    then have "a = 0 \<longrightarrow> 32 \<le> b" "a = 13 \<longrightarrow> b < 32" using a(1) unfolding utf8_tail_ok_def by auto
    then have r: "64 * (64 * a + b) + b' < 65536 \<and> 2048 \<le> 64 * (64 * a + b) + b' \<and> scalar (64 * (64 * a + b) + b')"
      using a(2) b(1,3) by (intro three_bytes)
    define N where "N = 64 * (64 * a + b) + b'"
    have "N div 64 = 64 * a + b" "N mod 64 = b'" using b(3) unfolding N_def by (rule div_mod_64)+
    moreover from this have "N div 4096 = a" using b(1) by (simp add: div_4096 div_mod_64)
    moreover have "(64 * a + b) mod 64 = b" using b(1) by simp
    ultimately show ?thesis unfolding n t using b r lead_code [OF a(1)] unfolding N_def [symmetric] by (simp add: utf8_def)
  next
    case 4
    then have "?k = 3" by (simp add: utf8_length_def)
    then obtain x y z where t: "?t = [x, y, z]" using some_elements(3) u(2) by metis
    define a b b' b'' where "a = code c - 240" and "b = code x mod 64" and "b' = code y mod 64" and "b'' = code z mod 64"
    have b: "b < 64" "char_of (128 + b) = x" "b' < 64" "char_of (128 + b') = y" "b'' < 64" "char_of (128 + b'') = z"
      using u(3) tail_code [of x] tail_code [of y] tail_code [of z] by (simp_all add: b_def b'_def b''_def t)
    have a: "code c = 240 + a" "a < 5" using 4 by (simp_all add: a_def)
    let ?n = "64 * (64 * (64 * a + b) + b') + b''"
    have n: "hd (code_points (c # cs)) = ?n" unfolding h t using a leads(3) [of a] by (simp add: b_def b'_def b''_def)
    have "utf8_tail_ok (code c) (code x)" "code x = 128 + b" using u(3,4) t tail_value [of x] by (auto simp: b_def)
    then have "a = 0 \<longrightarrow> 16 \<le> b" "a = 4 \<longrightarrow> b < 16" using a(1) unfolding utf8_tail_ok_def by auto
    then have r: "65536 \<le> ?n \<and> scalar ?n" using a(2) b(1,3,5) by (intro four_bytes)
    define N where "N = ?n"
    have "N div 64 = 64 * (64 * a + b) + b'" "N mod 64 = b''" using b(5) unfolding N_def by (rule div_mod_64)+
    moreover have "(64 * (64 * a + b) + b') mod 64 = b'" using b(3) by (rule div_mod_64)
    moreover have d: "(64 * (64 * a + b) + b') div 64 = 64 * a + b" using b(3) by (rule div_mod_64)
    ultimately have m: "N mod 64 = b''" "N div 64 mod 64 = b'" "N div 4096 = 64 * a + b" by (simp_all only: div_4096)
    moreover from m(3) have "N div 262144 = a" using b(1) by (simp add: div_262144 div_mod_64)
    moreover have "(64 * a + b) mod 64 = b" using b(1) by simp
    ultimately show ?thesis unfolding n t using b r lead_code [OF a(1)] unfolding N_def [symmetric] by (simp add: utf8_def)
  qed
qed

text \<open>An escape is read as the bytes of its code point.\<close>

lemma scan_escape:
  assumes "hex4 a b c d = Some u" "\<not> (55296 \<le> u \<and> u < 56320)"
  shows "scan_str (CHR 0x5C # CHR ''u'' # a # b # c # d # t) = prepend (utf8 u) (scan_str t)"
proof (cases "55296 \<le> u")
  case True
  then have "\<not> u < 56320" using assms(2) by simp
  then show ?thesis using assms(1) by (subst scan_str.simps(2)) (simp split: list.split option.split)
next
  case False
  then show ?thesis using assms(1) by (subst scan_str.simps(2)) (simp split: list.split option.split)
qed

lemma scan_surrogates:
  assumes "hex4 a b c d = Some u" "hex4 a' b' c' d' = Some u'" "55296 \<le> u" "u < 56320" "56320 \<le> u'" "u' < 57344"
  shows "scan_str (CHR 0x5C # CHR ''u'' # a # b # c # d # CHR 0x5C # CHR ''u'' # a' # b' # c' # d' # t)
    = prepend (utf8 (65536 + (u - 55296) * 1024 + (u' - 56320))) (scan_str t)"
  using assms by (subst scan_str.simps(2)) simp

lemma u_escape_digits:
  "u_escape n = [CHR 0x5C, CHR ''u'', hex_digit (n div 4096 mod 16), hex_digit (n div 256 mod 16), hex_digit (n div 16 mod 16), hex_digit (n mod 16)]"
proof -
  have "[0..<4] = [0, 1, 2, 3 :: nat]" by code_simp
  then show ?thesis by (simp add: u_escape_def)
qed

lemma four_digits:
  fixes n p q r x y z :: nat
  shows "16 * p + x = n \<Longrightarrow> 16 * q + y = p \<Longrightarrow> 16 * r + z = q \<Longrightarrow> r * 4096 + z * 256 + y * 16 + x = n"
  by linarith

lemma hex4_digits:
  assumes "n < 65536"
  shows "hex4 (hex_digit (n div 4096 mod 16)) (hex_digit (n div 256 mod 16)) (hex_digit (n div 16 mod 16)) (hex_digit (n mod 16)) = Some n"
proof -
  have d: "n div 256 = n div 16 div 16" "n div 4096 = n div 16 div 16 div 16" by (simp_all add: div_mult2_eq [symmetric])
  have m: "n div 4096 mod 16 = n div 4096" using assms by simp
  then have "n div 4096 mod 16 * 4096 + n div 256 mod 16 * 256 + n div 16 mod 16 * 16 + n mod 16 = n"
    using four_digits [OF mult_div_mod_eq mult_div_mod_eq mult_div_mod_eq] unfolding d by simp
  moreover have "n div 4096 < 16" using assms by simp
  ultimately show ?thesis using m by (simp add: hex4_def hex_val_digit)
qed

lemma scan_u_escape:
  assumes "n < 65536" "\<not> (55296 \<le> n \<and> n < 56320)"
  shows "scan_str (u_escape n @ t) = prepend (utf8 n) (scan_str t)"
  unfolding u_escape_digits using scan_escape [OF hex4_digits [OF assms(1)] assms(2)] by simp

lemma scan_ascii_escape:
  assumes "scalar n"
  shows "scan_str (ascii_escape n @ t) = prepend (utf8 n) (scan_str t)"
proof -
  consider "n < 127" "32 \<le> n \<or> n \<in> {8, 9, 10, 12, 13}" | "n < 65536" "ascii_escape n = u_escape n"
    | "65536 \<le> n" by (cases "n < 127 \<and> (32 \<le> n \<or> n \<in> {8, 9, 10, 12, 13})"; cases "n < 65536") (auto simp: ascii_escape_def)
  then show ?thesis
  proof cases
    case 1
    then have "ascii_escape n = esc_char (char_of n)" "utf8 n = [char_of n]" by (auto simp: ascii_escape_def utf8_def)
    then show ?thesis by (simp add: scan_esc)
  next
    case 2
    then show ?thesis using assms by (auto simp: scan_u_escape scalar_def)
  next
    case 3
    let ?u = "55296 + (n - 65536) div 1024" and ?u' = "56320 + (n - 65536) mod 1024"
    have u: "?u < 56320" "?u' < 57344" "?u < 65536" "?u' < 65536" using assms 3 by (auto simp: scalar_def)
    have "65536 + (?u - 55296) * 1024 + (?u' - 56320) = n" using 3 by simp
    then show ?thesis
      using 3 u scan_surrogates [OF hex4_digits [OF u(3)] hex4_digits [OF u(4)]] by (simp add: ascii_escape_def u_escape_digits)
  qed
qed

lemma scan_escaped: "utf8_ok s \<Longrightarrow> scan_str (concat (map ascii_escape (code_points s)) @ CHR 0x22 # rest) = Some (s, rest)"
proof (induction s rule: code_points.induct)
  case 1
  show ?case by (simp add: scan_str.simps(2))
next
  case (2 c cs)
  let ?k = "utf8_length (code c)"
  obtain n ns where n: "code_points (c # cs) = n # ns" "ns = code_points (drop ?k cs)" by (simp add: Let_def)
  have b: "utf8 n = c # take ?k cs" "scalar n" using code_point_bytes [OF 2(2)] n(1) by simp_all
  have "utf8_ok (drop ?k cs)" using 2(2) by (simp add: Let_def)
  then have "scan_str (concat (map ascii_escape ns) @ CHR 0x22 # rest) = Some (drop ?k cs, rest)"
    using 2(1) n(2) by simp
  then show ?case unfolding n(1) using b by (simp add: scan_ascii_escape prepend_def)
qed

section \<open>Texts of a value\<close>

definition white :: "string \<Rightarrow> bool" where
  "white w \<longleftrightarrow> list_all is_json_ws w"

definition reads :: "string \<Rightarrow> string \<Rightarrow> bool" where
  "reads s q \<longleftrightarrow> (\<forall>rest. scan_str (q @ rest) = Some (s, rest))"

text \<open>The text of a list and of an object, from the first element or key on, with the closing bracket.\<close>

inductive printed :: "json \<Rightarrow> string \<Rightarrow> bool"
  and printed_elems :: "json list \<Rightarrow> string \<Rightarrow> bool"
  and printed_members :: "(string \<times> json) list \<Rightarrow> string \<Rightarrow> bool" where
  P_null: "printed JNull ''null''"
| P_bool: "printed (JBool b) (if b then ''true'' else ''false'')"
| P_int: "printed (JInt i) (int_dec i)"
| P_float: "json_wf (JFloat s) \<Longrightarrow> printed (JFloat s) s"
| P_str: "reads s q \<Longrightarrow> printed (JStr s) (CHR 0x22 # q)"
| P_no_elem: "white w \<Longrightarrow> printed (JList []) (CHR ''['' # w @ '']'')"
| P_list: "white w \<Longrightarrow> printed_elems vs t \<Longrightarrow> printed (JList vs) (CHR ''['' # w @ t)"
| P_no_member: "white w \<Longrightarrow> printed (JObj []) (CHR ''{'' # w @ ''}'')"
| P_obj: "white w \<Longrightarrow> distinct (map fst kvs) \<Longrightarrow> printed_members kvs t \<Longrightarrow> printed (JObj kvs) (CHR ''{'' # w @ t)"
| P_last: "printed v t \<Longrightarrow> white w \<Longrightarrow> printed_elems [v] (t @ w @ '']'')"
| P_more: "printed v t \<Longrightarrow> white w \<Longrightarrow> white x \<Longrightarrow> printed_elems vs u \<Longrightarrow> printed_elems (v # vs) (t @ w @ CHR '','' # x @ u)"
| P_last_member: "reads k q \<Longrightarrow> white w \<Longrightarrow> white x \<Longrightarrow> printed v t \<Longrightarrow> white y \<Longrightarrow>
    printed_members [(k, v)] (CHR 0x22 # q @ w @ CHR '':'' # x @ t @ y @ ''}'')"
| P_member: "reads k q \<Longrightarrow> white w \<Longrightarrow> white x \<Longrightarrow> printed v t \<Longrightarrow> white y \<Longrightarrow> white z \<Longrightarrow> printed_members kvs u \<Longrightarrow>
    printed_members ((k, v) # kvs) (CHR 0x22 # q @ w @ CHR '':'' # x @ t @ y @ CHR '','' # z @ u)"

lemma skip_white: "white w \<Longrightarrow> skip_ws (w @ t) = skip_ws t"
  by (induction w) (auto simp: white_def skip_ws_def)

lemma delimited_white: "white w \<Longrightarrow> delimited rest \<Longrightarrow> delimited (w @ rest)"
  by (cases w) (auto simp: white_def delimited_def is_json_ws_def is_num_char_def is_digit_def)

text \<open>A parser that has fuel for a text reads it completely, if what follows does not continue it.\<close>

definition read_as :: "(nat \<Rightarrow> string \<Rightarrow> ('a \<times> string) option) \<Rightarrow> 'a \<Rightarrow> string \<Rightarrow> bool" where
  "read_as p v t \<longleftrightarrow> (\<exists>c cs. t = c # cs \<and> value_start c) \<and>
     (\<forall>n rest. 2 * length t < n \<longrightarrow> delimited rest \<longrightarrow> p n (t @ rest) = Some (v, rest))"

lemma read_asD: "read_as p v t \<Longrightarrow> 2 * length t < n \<Longrightarrow> delimited rest \<Longrightarrow> p n (t @ rest) = Some (v, rest)"
  by (simp add: read_as_def)

lemma read_as_skip:
  assumes "read_as p v t" "white w"
  shows "skip_ws (w @ t @ rest) = t @ rest"
  using assms by (auto simp: read_as_def skip_white skip_ws_start)

lemma read_as_head:
  assumes "read_as p v t"
  shows "\<exists>c cs. t = c # cs \<and> value_start c \<and> code c \<noteq> 93 \<and> code c \<noteq> 125"
  using assms by (auto simp: read_as_def value_start_def)

lemma scalar_read:
  assumes "json_wf j" "json_canon j = j"
  shows "read_as parse_value j (canonical_json j)"
  using canonical_start [OF assms(1)] parsesD [OF parses_value [OF assms(1)]] assms(2) by (auto simp: read_as_def)

lemma start_chars: "value_start (CHR 0x22)" "value_start (CHR ''['')" "value_start (CHR ''{'')"
  by (simp_all add: value_start_def is_json_ws_def)

lemma printed_read:
  "printed j t \<Longrightarrow> read_as parse_value j t"
  "printed_elems vs t \<Longrightarrow> read_as parse_elems vs t"
  "printed_members kvs t \<Longrightarrow> read_as parse_members kvs t \<and> hd t = CHR 0x22"
proof (induction rule: printed_printed_elems_printed_members.inducts)
  case P_null
  show ?case using scalar_read [of JNull] by simp
next
  case (P_bool b)
  show ?case using scalar_read [of "JBool b"] by simp
next
  case (P_int i)
  show ?case using scalar_read [of "JInt i"] by simp
next
  case (P_float s)
  then show ?case using scalar_read [of "JFloat s"] by simp
next
  case (P_str s q)
  have "parse_value n (CHR 0x22 # q @ rest) = Some (JStr s, rest)" if "0 < n" for n rest
    using that P_str by (cases n) (simp_all add: reads_def)
  then show ?case using start_chars by (auto simp: read_as_def)
next
  case (P_no_elem w)
  have "parse_value n (CHR ''['' # w @ '']'' @ rest) = Some (JList [], rest)" if "0 < n" for n rest
    using that skip_white [OF P_no_elem] by (cases n) simp_all
  then show ?case using start_chars by (auto simp: read_as_def)
next
  case (P_list w vs t)
  obtain c cs where c: "t = c # cs" "code c \<noteq> 93" using read_as_head [OF P_list(3)] by blast
  have "parse_value n (CHR ''['' # w @ t @ rest) = Some (JList vs, rest)" if n: "2 * length t + 2 < n" "delimited rest" for n rest
  proof -
    obtain m where m: "n = Suc m" using n by (cases n) auto
    have "parse_elems m (t @ rest) = Some (vs, rest)" using read_asD [OF P_list(3)] n m by simp
    then show ?thesis using c m read_as_skip [OF P_list(3,1), of rest] by simp
  qed
  then show ?case using start_chars by (auto simp: read_as_def)
next
  case (P_no_member w)
  have "parse_value n (CHR ''{'' # w @ ''}'' @ rest) = Some (JObj [], rest)" if "0 < n" for n rest
    using that skip_white [OF P_no_member] by (cases n) simp_all
  then show ?case using start_chars by (auto simp: read_as_def)
next
  case (P_obj w kvs t)
  then have r: "read_as parse_members kvs t" by simp
  obtain c cs where c: "t = c # cs" "code c \<noteq> 125" using read_as_head [OF r] by blast
  have "parse_value n (CHR ''{'' # w @ t @ rest) = Some (JObj kvs, rest)" if n: "2 * length t + 2 < n" "delimited rest" for n rest
  proof -
    obtain m where m: "n = Suc m" using n by (cases n) auto
    have "parse_members m (t @ rest) = Some (kvs, rest)" using read_asD [OF r] n m by simp
    then show ?thesis using c m read_as_skip [OF r P_obj(1), of rest] dict_of_distinct [OF P_obj(2)] by simp
  qed
  then show ?case using start_chars by (auto simp: read_as_def)
next
  case (P_last v t w)
  have "parse_elems n (t @ w @ '']'' @ rest) = Some ([v], rest)" if n: "2 * length t + 2 < n" for n rest
  proof -
    obtain m where m: "n = Suc m" using n by (cases n) auto
    have "parse_value m (t @ w @ '']'' @ rest) = Some (v, w @ '']'' @ rest)"
      using n m by (intro read_asD [OF P_last.IH] delimited_white [OF P_last.hyps(2)]) simp_all
    then show ?thesis using m by (simp add: skip_white [OF P_last.hyps(2)])
  qed
  then show ?case using P_last.IH by (auto simp: read_as_def)
next
  case (P_more v t w x vs u)
  have "parse_elems n (t @ w @ CHR '','' # x @ u @ rest) = Some (v # vs, rest)"
    if n: "2 * length t + 2 * length u + 2 < n" "delimited rest" for n rest
  proof -
    obtain m where m: "n = Suc m" using n by (cases n) auto
    have "parse_value m (t @ w @ CHR '','' # x @ u @ rest) = Some (v, w @ CHR '','' # x @ u @ rest)"
      using n m by (intro read_asD [OF P_more.IH(1)] delimited_white [OF P_more.hyps(2)]) simp_all
    moreover have "parse_elems m (u @ rest) = Some (vs, rest)" using n m by (intro read_asD [OF P_more.IH(2)]) simp_all
    ultimately show ?thesis using m by (simp add: skip_white [OF P_more.hyps(2)] read_as_skip [OF P_more.IH(2) P_more.hyps(3)])
  qed
  then show ?case using P_more.IH(1) by (auto simp: read_as_def)
next
  case (P_last_member k q w x v t y)
  note h = P_last_member.hyps and r = P_last_member.IH
  have "parse_members n (CHR 0x22 # q @ w @ CHR '':'' # x @ t @ y @ ''}'' @ rest) = Some ([(k, v)], rest)"
    if n: "2 * length t + 2 < n" for n rest
  proof -
    obtain m where m: "n = Suc m" using n by (cases n) auto
    have s: "scan_str (q @ w @ CHR '':'' # x @ t @ y @ ''}'' @ rest) = Some (k, w @ CHR '':'' # x @ t @ y @ ''}'' @ rest)"
      using h(1) by (simp add: reads_def)
    have p: "parse_value m (t @ y @ ''}'' @ rest) = Some (v, y @ ''}'' @ rest)"
      using n m by (intro read_asD [OF r] delimited_white [OF h(5)]) simp_all
    show ?thesis using m s p by (simp add: skip_white [OF h(2)] skip_white [OF h(5)] read_as_skip [OF r h(3)])
  qed
  then show ?case using start_chars by (auto simp: read_as_def)
next
  case (P_member k q w x v t y z kvs u)
  note h = P_member.hyps and r = P_member.IH
  have u: "read_as parse_members kvs u" "\<exists>cs. u = CHR 0x22 # cs" using r(2) by (auto simp: read_as_def)
  have "parse_members n (CHR 0x22 # q @ w @ CHR '':'' # x @ t @ y @ CHR '','' # z @ u @ rest) = Some ((k, v) # kvs, rest)"
    if n: "2 * length t + 2 * length u + 2 < n" "delimited rest" for n rest
  proof -
    let ?r = "y @ CHR '','' # z @ u @ rest"
    obtain m where m: "n = Suc m" using n by (cases n) auto
    have s: "scan_str (q @ w @ CHR '':'' # x @ t @ ?r) = Some (k, w @ CHR '':'' # x @ t @ ?r)"
      using h(1) by (simp add: reads_def)
    have p: "parse_value m (t @ ?r) = Some (v, ?r)"
      using n m by (intro read_asD [OF r(1)] delimited_white [OF h(5)]) simp_all
    have "parse_members m (u @ rest) = Some (kvs, rest)" using n m by (intro read_asD [OF u(1)]) simp_all
    then show ?thesis using m s p by (simp add: skip_white [OF h(2)] skip_white [OF h(5)] read_as_skip [OF r(1) h(3)] read_as_skip [OF u(1) h(6)])
  qed
  then show ?case using start_chars by (auto simp: read_as_def)
qed

theorem loads_printed:
  assumes "printed j t" "white w"
  shows "json_loads (t @ w) = Some j"
proof -
  have r: "read_as parse_value j t" using printed_read(1) [OF assms(1)] .
  obtain c cs where "t = c # cs" "value_start c" using read_as_head [OF r] by blast
  then have "skip_ws (t @ w) = t @ w" by (simp add: skip_ws_start)
  moreover have "parse_value (2 * length (t @ w) + 2) (t @ w) = Some (j, w)"
    using delimited_white [OF assms(2), of "[]"] by (intro read_asD [OF r]) simp_all
  ultimately show ?thesis using skip_white [OF assms(2), of "[]"] by (simp add: json_loads_def) (simp add: skip_ws_def)
qed

section \<open>The layouts of the programs\<close>

text \<open>The texts in a value are well-formed UTF-8.\<close>

fun json_text :: "json \<Rightarrow> bool" where
  "json_text (JStr s) = utf8_ok s"
| "json_text (JList vs) = list_all json_text vs"
| "json_text (JObj kvs) = list_all (\<lambda>(k, v). utf8_ok k \<and> json_text v) kvs"
| "json_text j = True"

lemma reads_escaped: "utf8_ok s \<Longrightarrow> reads s (concat (map ascii_escape (code_points s)) @ [CHR 0x22])"
  by (simp add: reads_def scan_escaped)

lemma white_line [simp]: "white (line_start n)" "white []" "white '' ''"
  by (auto simp: white_def line_start_def is_json_ws_def list_all_iff)

lemma printed_str: "utf8_ok s \<Longrightarrow> printed (JStr s) (ascii_quote s)"
  unfolding ascii_quote_def by (rule P_str [OF reads_escaped])

lemma printed_scalars:
  "printed JNull ''null''" "printed (JBool True) ''true''" "printed (JBool False) ''false''" "printed (JInt i) (int_dec i)"
  "json_wf (JFloat s) \<Longrightarrow> printed (JFloat s) s" "utf8_ok s \<Longrightarrow> printed (JStr s) (ascii_quote s)"
  using P_null P_bool [of True] P_bool [of False] P_int [of i] P_float [of s] printed_str [of s] by simp_all

text \<open>A list and an object whose elements are printed, with one separator, an opening and a closing space.\<close>

lemma printed_elems_join:
  assumes "vs \<noteq> []" "\<forall>v \<in> set vs. printed v (f v)" "white a" "white z"
  shows "printed_elems vs (py_join (CHR '','' # a) (map f vs) @ z @ '']'')"
  using assms(1,2)
proof (induction vs)
  case (Cons v vs)
  show ?case
  proof (cases "vs = []")
    case True
    then show ?thesis using Cons.prems P_last [OF _ assms(4)] by simp
  next
    case False
    then have "printed_elems vs (py_join (CHR '','' # a) (map f vs) @ z @ '']'')" using Cons by simp
    from P_more [OF _ _ assms(3) this, of v "f v" "[]"] show ?thesis
      using Cons.prems False by (simp add: py_join_Cons)
  qed
qed simp

lemma printed_members_join:
  assumes "kvs \<noteq> []" "\<forall>(k, v) \<in> set kvs. utf8_ok k \<and> printed v (f v)" "white a" "white b" "white z"
  shows "printed_members kvs (py_join (CHR '','' # a) (map (\<lambda>(k, v). ascii_quote k @ CHR '':'' # b @ f v) kvs) @ z @ ''}'')"
  using assms(1,2)
proof (induction kvs)
  case (Cons kv kvs)
  obtain k v where kv: "kv = (k, v)" by fastforce
  have q: "reads k (concat (map ascii_escape (code_points k)) @ [CHR 0x22])" and p: "printed v (f v)"
    using Cons.prems kv by (auto intro: reads_escaped)
  show ?case
  proof (cases "kvs = []")
    case True
    then show ?thesis using P_last_member [OF q _ assms(4) p assms(5), of "[]"] kv by (simp add: ascii_quote_def)
  next
    case False
    then have "printed_members kvs (py_join (CHR '','' # a) (map (\<lambda>(k, v). ascii_quote k @ CHR '':'' # b @ f v) kvs) @ z @ ''}'')"
      using Cons by simp
    from P_member [OF q _ assms(4) p _ assms(3) this, of "[]" "[]"] show ?thesis
      using False kv by (simp add: py_join_Cons ascii_quote_def)
  qed
qed simp

text \<open>\<open>json.dumps(value)\<close>, \<open>json.dumps(value, indent=2)\<close> and the compact form of the service client.\<close>

lemma printed_dumps: "json_wf j \<Longrightarrow> json_text j \<Longrightarrow> printed j (json_dumps j)"
proof (induction j)
  case (JList vs)
  show ?case
  proof (cases "vs = []")
    case True
    then show ?thesis using P_no_elem [of "[]"] by simp
  next
    case False
    have "printed_elems vs (py_join '', '' (map json_dumps vs) @ [] @ '']'')"
      using JList False by (intro printed_elems_join) (auto simp: list_all_iff)
    then show ?thesis using P_list [of "[]"] by simp
  qed
next
  case (JObj kvs)
  show ?case
  proof (cases "kvs = []")
    case True
    then show ?thesis using P_no_member [of "[]"] by simp
  next
    case False
    have "printed_members kvs (py_join '', '' (map (\<lambda>(k, v). ascii_quote k @ CHR '':'' # '' '' @ json_dumps v) kvs) @ [] @ ''}'')"
      using JObj False by (intro printed_members_join) (fastforce simp: list_all_iff)+
    then show ?thesis using P_obj [of "[]" kvs] JObj.prems by simp
  qed
qed (use printed_scalars in simp_all)

lemma printed_indented: "json_wf j \<Longrightarrow> json_text j \<Longrightarrow> printed j (json_indented n j)"
proof (induction j arbitrary: n)
  case (JList vs)
  show ?case
  proof (cases "vs = []")
    case True
    then show ?thesis using P_no_elem [of "[]"] by simp
  next
    case False
    have "printed_elems vs (py_join (CHR '','' # line_start (n + 1)) (map (json_indented (n + 1)) vs) @ line_start n @ '']'')"
      using JList False by (intro printed_elems_join) (auto simp: list_all_iff)
    then show ?thesis using P_list [of "line_start (n + 1)"] False by simp
  qed
next
  case (JObj kvs)
  show ?case
  proof (cases "kvs = []")
    case True
    then show ?thesis using P_no_member [of "[]"] by simp
  next
    case False
    have "printed_members kvs (py_join (CHR '','' # line_start (n + 1))
        (map (\<lambda>(k, v). ascii_quote k @ CHR '':'' # '' '' @ json_indented (n + 1) v) kvs) @ line_start n @ ''}'')"
      using JObj False by (intro printed_members_join) (fastforce simp: list_all_iff)+
    then show ?thesis using P_obj [of "line_start (n + 1)" kvs] JObj.prems False by simp
  qed
qed (simp_all add: printed_dumps del: json_dumps.simps)

lemma printed_compact: "json_wf j \<Longrightarrow> json_text j \<Longrightarrow> printed j (json_compact j)"
proof (induction j)
  case (JList vs)
  show ?case
  proof (cases "vs = []")
    case True
    then show ?thesis using P_no_elem [of "[]"] by simp
  next
    case False
    have "printed_elems vs (py_join '','' (map json_compact vs) @ [] @ '']'')"
      using JList False by (intro printed_elems_join) (auto simp: list_all_iff)
    then show ?thesis using P_list [of "[]"] by simp
  qed
next
  case (JObj kvs)
  show ?case
  proof (cases "kvs = []")
    case True
    then show ?thesis using P_no_member [of "[]"] by simp
  next
    case False
    have "printed_members kvs (py_join '','' (map (\<lambda>(k, v). ascii_quote k @ CHR '':'' # [] @ json_compact v) kvs) @ [] @ ''}'')"
      using JObj False by (intro printed_members_join) (fastforce simp: list_all_iff)+
    then show ?thesis using P_obj [of "[]" kvs] JObj.prems by simp
  qed
qed (use printed_scalars in simp_all)

lemma distinct_sorted: "distinct (map f (sort_key g xs)) = distinct (map f xs)"
  by (rule mset_eq_imp_distinct_iff) simp

lemma canon_wf: "json_wf j \<Longrightarrow> json_wf (json_canon j)"
proof (induction j)
  case (JObj kvs)
  then show ?case by (fastforce simp: list_all_iff distinct_sorted comp_def case_prod_unfold)
qed (simp_all add: list_all_iff)

lemma canon_json_text: "json_text j \<Longrightarrow> json_text (json_canon j)"
  by (induction j) (fastforce simp: list_all_iff)+

lemma ascii_json_canon: "ascii_json j = json_compact (json_canon j)"
proof (induction j)
  case (JObj kvs)
  have eq: "map (\<lambda>(k, v). (k, ascii_json v)) kvs = map (\<lambda>(k, v). (k, json_compact (json_canon v))) kvs"
    using JObj by fastforce
  show ?case unfolding ascii_json.simps json_canon.simps json_compact.simps eq sort_key_map_snd
    by (simp add: comp_def case_prod_unfold)
next
  case (JList vs)
  then have eq: "map ascii_json vs = map (\<lambda>v. json_compact (json_canon v)) vs" by simp
  show ?case unfolding ascii_json.simps json_canon.simps json_compact.simps map_map comp_def eq ..
qed simp_all

section \<open>What is written is read\<close>

text \<open>The printed text is ASCII with line feeds at most.\<close>

definition document_char :: "char \<Rightarrow> bool" where
  "document_char c \<longleftrightarrow> printable c \<or> c = CHR 0x0A"

lemma document_newlines: "list_all document_char s \<Longrightarrow> newlines s = s"
proof -
  have "list_all document_char s \<Longrightarrow> newlines_after False s = s"
    by (induction s) (auto simp: document_char_def printable_def)
  then show "list_all document_char s \<Longrightarrow> ?thesis" by (simp add: newlines_def)
qed

lemma document_utf8: "list_all document_char s \<Longrightarrow> utf8_ok s"
  by (induction s) (auto simp: document_char_def printable_def utf8_length_def)

lemma document_printable: "list_all printable s \<Longrightarrow> list_all document_char s"
  by (auto simp: list_all_iff document_char_def)

lemma ascii_escape_printable: "list_all printable (ascii_escape n)"
proof -
  have h: "printable (hex_digit (m mod 16))" for m using printable_chars(2) [OF hex_digit_lower] by simp
  then have u: "list_all printable (u_escape m)" for m unfolding u_escape_digits by (simp add: printable_def)
  have "list_all printable (esc_char (char_of n))" if "n < 127" "32 \<le> n \<or> n \<in> {8, 9, 10, 12, 13}"
    using that by (auto simp: esc_char_def printable_def Let_def)
  then show ?thesis using u by (simp add: ascii_escape_def)
qed

lemma ascii_quote_printable: "list_all printable (ascii_quote s)"
proof -
  have "list_all printable (concat (map ascii_escape ns))" for ns
    using ascii_escape_printable by (induction ns) simp_all
  then show ?thesis by (simp add: ascii_quote_def printable_chars)
qed

lemma document_join: "list_all document_char sep \<Longrightarrow> \<forall>w \<in> set ws. list_all document_char w \<Longrightarrow> list_all document_char (py_join sep ws)"
  by (induction sep ws rule: py_join.induct) auto

lemma document_line: "list_all document_char (line_start n)"
  by (simp add: line_start_def list_all_iff document_char_def printable_def)

lemma document_brackets: "document_char (CHR ''['')" "document_char (CHR '']'')" "document_char (CHR ''{'')" "document_char (CHR ''}'')"
  "document_char (CHR '','')" "document_char (CHR '':'')" "document_char (CHR '' '')"
  by (simp_all add: document_char_def printable_def)

lemma number_printable: "is_num_char c \<Longrightarrow> printable c"
  by (auto simp: is_num_char_def printable_def is_digit_def)

lemma document_indented: "json_wf j \<Longrightarrow> list_all document_char (json_indented n j)"
proof (induction j arbitrary: n)
  case (JList vs)
  have "list_all document_char (py_join (CHR '','' # line_start (n + 1)) (map (json_indented (n + 1)) vs))"
    using JList document_line by (intro document_join) (auto simp: list_all_iff document_brackets)
  then show ?case using document_line by (simp add: document_brackets)
next
  case (JObj kvs)
  have "list_all document_char (ascii_quote k)" for k by (rule document_printable [OF ascii_quote_printable])
  then have "list_all document_char (py_join (CHR '','' # line_start (n + 1))
      (map (\<lambda>(k, v). ascii_quote k @ '': '' @ json_indented (n + 1) v) kvs))"
    using JObj document_line by (intro document_join) (fastforce simp: list_all_iff document_brackets)+
  then show ?case using document_line by (simp add: document_brackets)
next
  case (JBool b)
  show ?case by (cases b) (simp_all add: document_char_def printable_def)
next
  case (JFloat s)
  then show ?case by (intro document_printable) (auto simp: list_all_iff number_printable)
next
  case JNull
  show ?case by (simp add: document_char_def printable_def)
qed (simp_all add: document_printable printable_dec ascii_quote_printable)

lemma written_json:
  assumes "json_wf j" "json_text j"
  shows "utf8_ok (dumps_indented j @ [CHR 0x0A]) \<and> json_loads (newlines (dumps_indented j @ [CHR 0x0A])) = Some (json_canon j) \<and>
    json_loads (ascii_json j) = Some (json_canon j) \<and> json_loads (json_dumps j) = Some j \<and> json_loads (json_compact j) = Some j"
proof -
  note c = canon_wf [OF assms(1)] canon_json_text [OF assms(2)]
  have d: "list_all document_char (dumps_indented j @ [CHR 0x0A])"
    using document_indented [OF c(1)] by (simp add: dumps_indented_def) (simp add: document_char_def)
  have w: "white [CHR 0x0A]" by (simp add: white_def is_json_ws_def)
  have i: "printed (json_canon j) (dumps_indented j)" unfolding dumps_indented_def by (rule printed_indented [OF c])
  show ?thesis
    using document_utf8 [OF d] document_newlines [OF d] loads_printed [OF i w] loads_printed [OF printed_compact [OF c], of "[]"]
      loads_printed [OF printed_dumps [OF assms], of "[]"] loads_printed [OF printed_compact [OF assms], of "[]"]
    by (simp add: ascii_json_canon)
qed

text \<open>
  C22: every document that the release tools write with \<open>json.dumps(value, indent=2, sort_keys=True)\<close> and a line feed is decoded,
  read with universal newlines and parsed as the value that was written, with its keys in order; the same holds for the compact texts of
  the service client and of the log, and for \<open>json.dumps\<close> in its default layout. Any text is escaped and read back, beyond the
  basic plane with surrogate pairs.
\<close>

theorem written_json_read_back:
  assumes "json_wf j" "json_text j"
  shows "utf8_ok (dumps_indented j @ [CHR 0x0A]) \<and> json_loads (newlines (dumps_indented j @ [CHR 0x0A])) = Some (json_canon j) \<and>
    json_loads (ascii_json j) = Some (json_canon j) \<and> json_loads (json_dumps j) = Some j \<and> json_loads (json_compact j) = Some j"
  using written_json [OF assms] .

theorem written_json_read_back_witness:
  "json_loads (newlines (dumps_indented (JObj [(''b'', JStr [CHR 0xF0, CHR 0x9F, CHR 0x98, CHR 0x80]), (''a'', JList [JInt 1, JNull])]) @ [CHR 0x0A])) =
     Some (JObj [(''a'', JList [JInt 1, JNull]), (''b'', JStr [CHR 0xF0, CHR 0x9F, CHR 0x98, CHR 0x80])])"
proof -
  let ?j = "JObj [(''b'', JStr [CHR 0xF0, CHR 0x9F, CHR 0x98, CHR 0x80]), (''a'', JList [JInt 1, JNull])]"
  have "json_wf ?j" "json_text ?j" "json_canon ?j = JObj [(''a'', JList [JInt 1, JNull]), (''b'', JStr [CHR 0xF0, CHR 0x9F, CHR 0x98, CHR 0x80])]"
    by code_simp+
  then show ?thesis using written_json_read_back [of ?j] by simp
qed

end
