(* ===== verification/CandidateFacts.thy ===== *)
theory CandidateFacts
  imports CandidateRun PrintedJson
begin

text \<open>
  What a generated candidate promises: the wheels are those of the lock, the bills of materials agree with the
  component lock when the gate reads them back, and a fresh candidate is never taken for a reviewed one.
\<close>

section \<open>Wheels\<close>

text \<open>A wheel as the dictionary holds it.\<close>

definition selected_wheel :: "wheel \<Rightarrow> string \<times> wheel \<times> string \<times> string \<Rightarrow> bool" where
  "selected_wheel w entry \<longleftrightarrow> (\<exists>name version. wheel_identity w = Inr (name, version) \<and>
     entry = (name, w, version, sha256_hexdigest (wh_bytes w)))"

lemma index_wheels_entries:
  assumes "index_wheels ws selected = Inr final" "distinct (map fst selected)"
  shows "\<exists>entries. list_all2 selected_wheel ws entries \<and> final = selected @ entries \<and> distinct (map fst final)"
  using assms
proof (induction ws arbitrary: selected)
  case (Cons w ws)
  obtain name version where i: "wheel_identity w = Inr (name, version)" "\<not> has_key selected name"
      "index_wheels ws (dict_set name (w, version, sha256_hexdigest (wh_bytes w)) selected) = Inr final"
    using Cons.prems(1) by (auto simp: rbind_Inr_iff split: if_splits)
  have "name \<notin> fst ` set selected" using i(2) by (auto simp: has_key_def map_of_eq_None_iff image_iff)
  then have s: "dict_set name (w, version, sha256_hexdigest (wh_bytes w)) selected = selected @ [(name, w, version, sha256_hexdigest (wh_bytes w))]"
      "distinct (map fst (selected @ [(name, w, version, sha256_hexdigest (wh_bytes w))]))"
    using Cons.prems(2) by (auto simp: dict_set_fresh)
  obtain entries where e: "list_all2 selected_wheel ws entries"
      "final = (selected @ [(name, w, version, sha256_hexdigest (wh_bytes w))]) @ entries" "distinct (map fst final)"
    using Cons.IH [OF i(3) [unfolded s(1)] s(2)] by blast
  moreover have "selected_wheel w (name, w, version, sha256_hexdigest (wh_bytes w))" using i(1) by (simp add: selected_wheel_def)
  ultimately show ?case by (intro exI [of _ "(name, w, version, sha256_hexdigest (wh_bytes w)) # entries"]) simp
qed simp

lemma map_res_all2: "map_res f xs = Inr ys \<longleftrightarrow> list_all2 (\<lambda>x y. f x = Inr y) xs ys"
  by (induction xs arbitrary: ys) (auto simp: rbind_Inr_iff list_all2_Cons1)

lemma sort_Nil: "sort xs = [] \<longleftrightarrow> xs = []"
  by (metis length_0_conv length_sort)

lemma all2_left: "list_all2 P xs ys \<Longrightarrow> x \<in> set xs \<Longrightarrow> \<exists>y \<in> set ys. P x y"
  by (induction xs ys rule: list_all2_induct) auto

lemma all2_right: "list_all2 P xs ys \<Longrightarrow> y \<in> set ys \<Longrightarrow> \<exists>x \<in> set xs. P x y"
  by (induction xs ys rule: list_all2_induct) auto

lemma all2_maps: "list_all2 (\<lambda>x y. f y = g x) xs ys \<Longrightarrow> map f ys = map g xs"
  by (induction xs ys rule: list_all2_induct) auto

lemma runtime_line_fresh:
  "list_all (\<lambda>p. pk_digest p = None) packages \<Longrightarrow> list_all (\<lambda>p. pk_digest p = None) (runtime_line line packages)"
proof -
  assume a: "list_all (\<lambda>p. pk_digest p = None) packages"
  have "list_all (\<lambda>p. pk_digest p = None) (butlast packages @ [add_hash line (last packages)])" if "packages \<noteq> []"
    using a that by (auto simp: list_all_iff add_hash_def split: option.splits dest: in_set_butlastD)
  then show ?thesis using a by (auto simp: runtime_line_def locked_package_def split: option.splits prod.splits)
qed

lemma runtime_packages_fresh:
  assumes "runtime_packages g lock = Inr packages"
  shows "list_all (\<lambda>p. pk_digest p = None) packages"
proof -
  have "list_all (\<lambda>p. pk_digest p = None) (fold runtime_line ls ps)" if "list_all (\<lambda>p. pk_digest p = None) ps" for ls ps
    using that by (induction ls arbitrary: ps) (simp_all add: runtime_line_fresh)
  then show ?thesis using assms by (auto simp: runtime_packages_def rbind_Inr_iff)
qed

text \<open>The package of the lock a wheel belongs to.\<close>

definition wheel_of :: "wheel \<Rightarrow> package \<Rightarrow> bool" where
  "wheel_of w p \<longleftrightarrow> wheel_identity w = Inr (normal_name (pk_name p), pk_version p) \<and> pk_wheel p = Some (wh_name w) \<and>
     pk_digest p = Some (sha256_hexdigest (wh_bytes w)) \<and> sha256_hexdigest (wh_bytes w) \<in> set (pk_hashes p)"

text \<open>
  C21: every wheel that goes into a candidate belongs to a package of the runtime lock, in the version the lock names and with a
  digest the lock lists; a package that got a digest got that of such a wheel, and nothing else about the locked packages changed.
\<close>

theorem selected_wheels_locked:
  assumes "runtime_packages (gn_gate e) lock = Inr locked" "wheelhouse e fetch = Inr wheels"
    "select_wheels e fetch locked = Inr (chosen, manifest)"
  shows "map (\<lambda>p. p\<lparr>pk_wheel := None, pk_digest := None\<rparr>) chosen = map (\<lambda>p. p\<lparr>pk_wheel := None, pk_digest := None\<rparr>) locked \<and>
    (\<forall>w \<in> set wheels. \<exists>p \<in> set chosen. wheel_of w p) \<and>
    (\<forall>p \<in> set chosen. pk_digest p \<noteq> None \<longrightarrow> (\<exists>w \<in> set wheels. wheel_of w p))"
proof -
  obtain selected rows where i: "index_wheels wheels [] = Inr selected" "map_res (select_wheel selected) locked = Inr rows"
      "chosen = map fst rows" "\<forall>name \<in> fst ` set selected. name \<in> (\<lambda>p. normal_name (pk_name p)) ` set locked"
    using assms(2,3) by (auto simp: select_wheels_def rbind_Inr_iff Let_def sort_Nil filter_empty_conv split: if_splits)
  have s: "list_all2 selected_wheel wheels selected" "distinct (map fst selected)" using index_wheels_entries [OF i(1)] by auto
  have rows: "list_all2 (\<lambda>p row. select_wheel selected p = Inr row) locked rows" using i(2) by (simp add: map_res_all2)
  define plain where "plain = (\<lambda>p. p\<lparr>pk_wheel := None, pk_digest := None\<rparr> :: package)"
  have row: "plain (fst row) = plain p \<and> (case map_of selected (normal_name (pk_name p)) of None \<Rightarrow> fst row = p
      | Some (w, version, digest) \<Rightarrow> version = pk_version p \<and> digest \<in> set (pk_hashes p) \<and>
        fst row = p\<lparr>pk_wheel := Some (wh_name w), pk_digest := Some digest\<rparr>)"
    if "select_wheel selected p = Inr row" for p row
    using that by (auto simp: select_wheel_def plain_def split: option.splits if_splits)
  have "list_all2 (\<lambda>p row. plain (fst row) = plain p) locked rows" using rows by (rule list_all2_mono) (use row in blast)
  then have same: "map plain chosen = map plain locked" using all2_maps [of "\<lambda>row. plain (fst row)" plain] i(3) by (simp add: comp_def)
  have wheel: "wheel_of w (fst row)" if "select_wheel selected p = Inr row" "(normal_name (pk_name p), w, version, digest) \<in> set selected"
      "selected_wheel w (normal_name (pk_name p), w, version, digest)" for p row w version digest
  proof -
    have "map_of selected (normal_name (pk_name p)) = Some (w, version, digest)" using that(2) s(2) by simp
    then show ?thesis using row [OF that(1)] that(3) by (auto simp: wheel_of_def selected_wheel_def)
  qed
  have entry: "\<exists>name version digest. (name, w, version, digest) \<in> set selected \<and> selected_wheel w (name, w, version, digest)"
    if "w \<in> set wheels" for w
    using all2_left [OF s(1) that] by (fastforce simp: selected_wheel_def)
  have "\<exists>p \<in> set chosen. wheel_of w p" if "w \<in> set wheels" for w
  proof -
    from entry [OF that] obtain name version digest where
      n: "(name, w, version, digest) \<in> set selected" "selected_wheel w (name, w, version, digest)" by blast
    then obtain p where p: "p \<in> set locked" "name = normal_name (pk_name p)" using i(4) by force
    then obtain row where r: "row \<in> set rows" "select_wheel selected p = Inr row" using all2_left [OF rows] by blast
    have "wheel_of w (fst row)" using wheel [OF r(2)] n p(2) by blast
    then show ?thesis using r(1) i(3) by auto
  qed
  moreover have "\<exists>w \<in> set wheels. wheel_of w p'" if "p' \<in> set chosen" "pk_digest p' \<noteq> None" for p'
  proof -
    from that(1) i(3) obtain row where r: "row \<in> set rows" "p' = fst row" by auto
    then obtain p where p: "p \<in> set locked" "select_wheel selected p = Inr row" using all2_right [OF rows] by blast
    have "pk_digest p = None" using runtime_packages_fresh [OF assms(1)] p(1) by (simp add: list_all_iff)
    then have "map_of selected (normal_name (pk_name p)) \<noteq> None" using row [OF p(2)] that(2) r(2) by (auto split: option.splits)
    then obtain w version digest where m: "map_of selected (normal_name (pk_name p)) = Some (w, version, digest)" by auto
    then have e: "(normal_name (pk_name p), w, version, digest) \<in> set selected" by (rule map_of_SomeD)
    then obtain w' where w: "w' \<in> set wheels" "selected_wheel w' (normal_name (pk_name p), w, version, digest)"
      using all2_right [OF s(1)] by blast
    then have "w' = w" by (simp add: selected_wheel_def)
    then show ?thesis using wheel [OF p(2) e] w r(2) by blast
  qed
  ultimately show ?thesis using same unfolding plain_def by blast
qed

section \<open>What the tools write for each other\<close>

definition canon_object :: "object \<Rightarrow> object" where
  "canon_object kvs = sort_key fst (map (\<lambda>(k, v). (k, json_canon v)) kvs)"

lemma canon_of_object: "json_canon (JObj kvs) = JObj (canon_object kvs)"
  by (simp add: canon_object_def)

lemma canon_object_get:
  assumes "distinct (map fst kvs)" "map_of kvs k = Some v"
  shows "map_of (canon_object kvs) k = Some (json_canon v)"
  using assms by (simp add: canon_object_def map_of_canon)

lemma canon_object_none:
  assumes "distinct (map fst kvs)" "map_of kvs k = None"
  shows "map_of (canon_object kvs) k = None"
  using assms by (simp add: canon_object_def map_of_canon)

lemma canon_object_nonempty: "kvs \<noteq> [] \<Longrightarrow> canon_object kvs \<noteq> []"
  unfolding canon_object_def by (metis length_0_conv length_map length_sort)

text \<open>A document of the candidate, read by the gate and by the preparation of the evidence.\<close>

lemma written_document:
  assumes "json_wf (JObj kvs)" "json_text (JObj kvs)"
  shows "utf8_ok (document_text kvs)" "json_loads (newlines (document_text kvs)) = Some (JObj (canon_object kvs))"
  using written_json [OF assms] unfolding document_text_def canon_of_object by blast+

lemma gate_reads_document:
  assumes "json_wf (JObj kvs)" "json_text (JObj kvs)" "gv_read g p = Inr (document_text kvs)"
  shows "load_json g p label = Inr (Some (canon_object kvs), [])" "load_object g p = Inr (canon_object kvs)"
  using written_document [OF assms(1,2)] assms(3) by (simp_all add: load_json_def load_object_def)

section \<open>A fresh candidate\<close>

definition blocker_text :: "blocker \<Rightarrow> bool" where
  "blocker_text b \<longleftrightarrow> utf8_ok (bl_component b) \<and> utf8_ok (bl_field b) \<and> utf8_ok (bl_reason b)"

lemma report_ok:
  assumes "list_all blocker_text blockers"
  shows "json_wf (JObj (candidate_report blockers)) \<and> json_text (JObj (candidate_report blockers))"
proof -
  have w: "utf8_ok ''component''" "utf8_ok ''field''" "utf8_ok ''reason''" "utf8_ok ''count''" "utf8_ok ''schema_version''"
    "utf8_ok ''distribution_authorized''" "utf8_ok ''blocker_count''" "utf8_ok ''blockers''" "utf8_ok ''required_human_approvals''"
    "utf8_ok ''release''" "utf8_ok ''security''" "utf8_ok ''legal''" by code_simp+
  have "json_wf (blocker_json b) \<and> json_text (blocker_json b)" if "blocker_text b" for b
    using that w by (auto simp: blocker_json_def blocker_text_def simp del: utf8_ok.simps split: option.splits)
  then have "list_all json_wf (map blocker_json (sort_key k blockers)) \<and> list_all json_text (map blocker_json (sort_key k blockers))"
    for k :: "blocker \<Rightarrow> string list" using assms by (auto simp: list_all_iff)
  then show ?thesis using w by (simp add: candidate_report_def del: utf8_ok.simps)
qed

lemma survey_blockers:
  assumes "survey e yaml opts = Inr (ca, materials)"
  shows "\<forall>r \<in> set service_images. \<exists>b \<in> set (ca_blockers ca). bl_component b = before_colon r \<and> bl_field b = ''repository''"
    "ca_blockers ca \<noteq> []"
proof -
  have n: "\<exists>b \<in> set (service_blockers e r). bl_component b = before_colon r \<and> bl_field b = ''repository''" for r
    by (simp add: service_blockers_def Let_def blocker_of_def)
  obtain rest where "ca_blockers ca = concat (map (service_blockers e) service_images) @ rest"
    using assms by (auto simp: survey_def rbind_Inr_iff normalized_components_def Let_def)
  then show b: "\<forall>r \<in> set service_images. \<exists>b \<in> set (ca_blockers ca). bl_component b = before_colon r \<and> bl_field b = ''repository''"
    using n by fastforce
  have "service_images \<noteq> []" by (simp add: service_images_def)
  then show "ca_blockers ca \<noteq> []" using b by (cases service_images) auto
qed

text \<open>
  C20: a candidate that was just generated is not taken for a reviewed one: for each of the six services of the product there is a blocker
  that names it and its repository, so the tool that prepares the evidence, run on a directory that holds the report the generator wrote, refuses and changes
  nothing.
\<close>

theorem fresh_candidate_refused:
  assumes "survey e yaml opts = Inr (ca, materials)" "documents e ca = Inr docs" "list_all blocker_text (ca_blockers ca)"
    "([''BLOCKERS.json''], content) \<in> set docs" "map_of d (folder @ [''BLOCKERS.json'']) = Some (NFile content)"
  shows "(\<forall>r \<in> set service_images. \<exists>b \<in> set (ca_blockers ca). bl_component b = before_colon r \<and> bl_field b = ''repository'') \<and>
    prepare g failing folder output artifact d =
      (raise ValueError ''candidate still has blockers; evidence preparation refused'', d)"
proof -
  let ?r = "candidate_report (ca_blockers ca)"
  have c: "content = document_text ?r"
    using assms(2,4) by (auto simp: documents_def image_documents_def rbind_Inr_iff split: option.splits)
  have "load_object (gate_on d g) (folder @ [''BLOCKERS.json'']) = Inr (canon_object ?r)"
    using report_ok [OF assms(3)] assms(5) c by (intro gate_reads_document(2)) auto
  moreover have "map_of (canon_object ?r) ''blocker_count'' = Some (JInt (int (length (ca_blockers ca))))"
    using canon_object_get [of ?r "''blocker_count''"] by (simp add: candidate_report_def)
  ultimately have "reviewable (gate_on d g) folder = raise ValueError ''candidate still has blockers; evidence preparation refused''"
    using survey_blockers(2) [OF assms(1)] by (cases "ca_blockers ca") (simp_all add: reviewable_def dict_get_or_def)
  then show ?thesis using survey_blockers(1) [OF assms(1)] by (simp add: prepare_def refuse_def io_bind_def io_res_def)
qed

section \<open>The bills of materials agree with the lock\<close>

text \<open>
  A component whose review is over: every field is filled in, the digests are SHA-256, the license is known, and its texts are
  well-formed.
\<close>

definition settled_component :: "component \<Rightarrow> bool" where
  "settled_component c \<longleftrightarrow> distinct (map fst (component_object c)) \<and> json_wf (JObj (component_object c)) \<and> json_text (JObj (component_object c)) \<and>
     py_strip (co_name c) = co_name c \<and> list_all (\<lambda>(field, v). py_upper (py_strip v) \<notin> pending) (component_fields c) \<and>
     py_upper (py_strip (co_license_spdx c)) \<notin> forbidden_license_markers \<and>
     sha256_reference (co_digest c) \<and> hex64 (co_license_text_sha256 c)"

lemma settled_filled:
  assumes "settled_component c"
  shows "co_name c \<noteq> []" "co_license_spdx c \<noteq> []" "co_digest c \<noteq> []"
proof -
  have p: "py_upper (py_strip []) \<in> pending" by (simp add: py_upper_def py_strip_def pending_def)
  have l: "list_all (\<lambda>(field, v). py_upper (py_strip v) \<notin> pending) (component_fields c)"
    using assms unfolding settled_component_def by blast
  have f: "v \<noteq> []" if "(k, v) \<in> set (component_fields c)" for k v
    using l that p by (auto simp: list_all_iff)
  show "co_name c \<noteq> []" by (rule f [of "''name''"]) (simp add: component_fields_def)
  show "co_license_spdx c \<noteq> []" by (rule f [of "''license_spdx''"]) (simp add: component_fields_def)
  show "co_digest c \<noteq> []" by (rule f [of "''digest''"]) (simp add: component_fields_def)
qed

lemma canon_get:
  assumes "distinct (map fst kvs)" "map_of kvs k = Some v"
  shows "dict_get_or d (canon_object kvs) k = json_canon v"
  using canon_object_get [OF assms] by (simp add: dict_get_or_def)

lemma canon_str:
  assumes "distinct (map fst kvs)" "map_of kvs k = Some (JStr s)"
  shows "str_field g (canon_object kvs) k d = s"
  using canon_get [OF assms] by (simp add: str_field_def)

lemma map_of_keyed:
  assumes "distinct (map key xs)" "x \<in> set xs"
  shows "map_of (dict_of (map (\<lambda>y. (key y, f y)) xs)) (key x) = Some (f x)"
  using assms by (simp add: dict_of_distinct comp_def image_iff) (metis (mono_tags, lifting) map_of_eq_Some_iff)

text \<open>What the gate asks of the components of the lock.\<close>

lemma component_fields_get:
  assumes "settled_component c"
  shows "str_field g (canon_object (component_object c)) ''name'' d = co_name c"
    "str_field g (canon_object (component_object c)) ''revision'' d = co_revision c"
    "str_field g (canon_object (component_object c)) ''digest'' d = co_digest c"
    "str_field g (canon_object (component_object c)) ''license_spdx'' d = co_license_spdx c"
    "dict_get_or JNull (canon_object (component_object c)) ''license_spdx'' = JStr (co_license_spdx c)"
proof -
  have d: "distinct (map fst (component_object c))" using assms by (simp add: settled_component_def)
  show "str_field g (canon_object (component_object c)) ''name'' d = co_name c"
    "str_field g (canon_object (component_object c)) ''revision'' d = co_revision c"
    "str_field g (canon_object (component_object c)) ''digest'' d = co_digest c"
    "str_field g (canon_object (component_object c)) ''license_spdx'' d = co_license_spdx c"
    by (rule canon_str [OF d], simp add: component_object_def component_fields_def)+
  show "dict_get_or JNull (canon_object (component_object c)) ''license_spdx'' = JStr (co_license_spdx c)"
    using canon_get [OF d, of "''license_spdx''"] by (simp add: component_object_def component_fields_def)
qed

lemma component_field_get:
  assumes "settled_component c" "(k, v) \<in> set (component_fields c)"
  shows "str_field g (canon_object (component_object c)) k d = v"
proof -
  have d: "distinct (map fst (component_object c))" using assms(1) by (simp add: settled_component_def)
  have "(k, JStr v) \<in> set (component_object c)" using assms(2) by (force simp: component_object_def)
  then show ?thesis using d by (intro canon_str) simp_all
qed

lemma pinned_digest_settled: "settled_component c \<Longrightarrow> pinned_digest c = Some (remove_prefix ''sha256:'' (co_digest c))"
  by (simp add: settled_component_def pinned_digest_def)

lemma sha256_hash_canon: "json_canon (sha256_hash (JStr d)) = sha256_hash (JStr d)"
proof -
  have "''alg'' \<le> ''content''" by code_simp
  then show ?thesis by (simp add: sha256_hash_def)
qed

lemma cyclonedx_entry_get:
  assumes "settled_component c"
  shows "distinct (map fst (cyclonedx_entry c))"
    "str_field g (canon_object (cyclonedx_entry c)) ''name'' d = co_name c"
    "str_field g (canon_object (cyclonedx_entry c)) ''version'' d = co_revision c"
    "dict_get_or d' (canon_object (cyclonedx_entry c)) ''hashes'' = JList [sha256_hash (JStr (remove_prefix ''sha256:'' (co_digest c)))]"
    "dict_get_or d' (canon_object (cyclonedx_entry c)) ''licenses'' = JList [license_choice (co_license_spdx c)]"
proof -
  show d: "distinct (map fst (cyclonedx_entry c))"
    using pinned_digest_settled [OF assms] by (simp add: cyclonedx_entry_def cyclonedx_hashes_def Let_def)
  show "str_field g (canon_object (cyclonedx_entry c)) ''name'' d = co_name c"
    "str_field g (canon_object (cyclonedx_entry c)) ''version'' d = co_revision c"
    by (rule canon_str [OF d], simp add: cyclonedx_entry_def)+
  show "dict_get_or d' (canon_object (cyclonedx_entry c)) ''hashes'' = JList [sha256_hash (JStr (remove_prefix ''sha256:'' (co_digest c)))]"
    using canon_get [OF d, of "''hashes''"] pinned_digest_settled [OF assms]
    by (simp add: cyclonedx_entry_def cyclonedx_hashes_def sha256_hash_canon)
  show "dict_get_or d' (canon_object (cyclonedx_entry c)) ''licenses'' = JList [license_choice (co_license_spdx c)]"
    using canon_get [OF d, of "''licenses''"] by (simp add: cyclonedx_entry_def license_choice_def)
qed

lemma cyclonedx_described:
  assumes "settled_component c"
  shows "described_by g (canon_object (component_object c)) (canon_object (cyclonedx_entry c))"
proof -
  have "py_upper ''SHA-256'' \<in> {''SHA-256'', ''SHA_256''}" by code_simp
  then have "sbom_hashes g (canon_object (cyclonedx_entry c)) = {remove_prefix ''sha256:'' (co_digest c)}"
    unfolding sbom_hashes_def cyclonedx_entry_get(4) [OF assms]
    by (auto simp: listed_def sha256_hash_def str_field_def dict_get_or_def)
  moreover have "declared_licenses g (canon_object (cyclonedx_entry c)) = {co_license_spdx c}"
    using assms unfolding declared_licenses_def cyclonedx_entry_get(5) [OF assms]
    by (auto simp: listed_def license_choice_def declared_of_def dict_get_or_def str_or_none_def settled_filled)
  ultimately show ?thesis
    by (simp add: described_by_def folded_name_def cyclonedx_entry_get [OF assms] component_fields_get [OF assms])
qed

text \<open>Components with different names, and the entries made of them.\<close>

definition settled_components :: "component list \<Rightarrow> bool" where
  "settled_components cs \<longleftrightarrow> cs \<noteq> [] \<and> list_all settled_component cs \<and> distinct (map (py_lower \<circ> co_name) cs)"

lemma entries_of_components:
  assumes "distinct (map (py_lower \<circ> co_name) cs)" "c \<in> set cs" "\<forall>c \<in> set cs. folded_name g (entry c) = py_lower (co_name c)"
  shows "map_of (entries_by (folded_name g) (map (JObj \<circ> entry) cs)) (py_lower (co_name c)) = Some (entry c)"
proof -
  have "map (\<lambda>kvs. (folded_name g kvs, kvs)) (objects (map (JObj \<circ> entry) cs)) = map (\<lambda>c. ((py_lower \<circ> co_name) c, entry c)) cs"
    using assms(3) by (simp add: map_map [symmetric, of JObj] del: map_map) simp
  then show ?thesis using map_of_keyed [OF assms(1,2), of entry] by (simp add: entries_by_def)
qed

lemma no_duplicate_names: "distinct xs \<Longrightarrow> named_duplicates xs = []"
  using duplicates_Nil [of xs] by (simp add: named_duplicates_def)

lemma objects_comp [simp]: "objects (map (JObj \<circ> entry) cs) = map entry cs"
  using objects_map [of "map entry cs"] by simp

lemma none_unlocked:
  assumes "\<forall>c \<in> set cs. folded_name g (entry c) = py_lower (co_name c) \<and> folded_name g (item c) = py_lower (co_name c)"
  shows "unlocked g m (map (JObj \<circ> item) cs) (map (JObj \<circ> entry) cs) = []"
proof -
  have "folded_name g (entry c) \<in> lock_names g (map (JObj \<circ> item) cs)" if "c \<in> set cs" for c
    using assms that by (force simp: lock_names_def)
  then show ?thesis by (auto simp: unlocked_Nil)
qed

lemma collect_all_Nil: "\<forall>x \<in> set xs. f x = Inr [] \<Longrightarrow> collect f xs = Inr []"
  by (simp add: collect_Nil)

lemma lock_document_components:
  assumes "list_all settled_component cs"
  shows "lock_components (canon_object (candidate_lock e cs)) = Inr (map (JObj \<circ> (canon_object \<circ> component_object)) cs)"
    "canon_object (candidate_lock e cs) \<noteq> []"
proof -
  have "map_of (canon_object (candidate_lock e cs)) ''components'' = Some (JList (map (JObj \<circ> (canon_object \<circ> component_object)) cs))"
    using canon_object_get [of "candidate_lock e cs" "''components''"] by (simp add: candidate_lock_def canon_of_object del: json_canon.simps(2))
  from lock_components_list [OF this] show "lock_components (canon_object (candidate_lock e cs)) = Inr (map (JObj \<circ> (canon_object \<circ> component_object)) cs)"
    "canon_object (candidate_lock e cs) \<noteq> []" by simp_all
qed

lemma lock_component_name: "settled_component c \<Longrightarrow> folded_name g (canon_object (component_object c)) = py_lower (co_name c)"
  by (simp add: folded_name_def component_fields_get)

lemma sbom_agrees:
  assumes "settled_components cs"
  shows "sbom_entries g (Some (canon_object (candidate_lock e cs))) (map (JObj \<circ> (canon_object \<circ> cyclonedx_entry)) cs) =
    Inr (flag (search_ignoring_case n8n_word (dumps_sorted (JList (map (JObj \<circ> (canon_object \<circ> cyclonedx_entry)) cs))))
      ''Forbidden component in CycloneDX SBOM: n8n'')"
proof -
  let ?entry = "canon_object \<circ> cyclonedx_entry" and ?item = "canon_object \<circ> component_object"
  have s: "list_all settled_component cs" "distinct (map (py_lower \<circ> co_name) cs)" using assms by (auto simp: settled_components_def)
  have names: "\<forall>c \<in> set cs. folded_name g (?entry c) = py_lower (co_name c) \<and> folded_name g (?item c) = py_lower (co_name c)"
    using s(1) by (auto simp: list_all_iff folded_name_def cyclonedx_entry_get(2) component_fields_get(1))
  have "sbom_item g (entries_by (folded_name g) (map (JObj \<circ> ?entry) cs)) (JObj (?item c)) = Inr []" if c: "c \<in> set cs" for c
  proof -
    have sc: "settled_component c" using s(1) c by (simp add: list_all_iff)
    have "map_of (entries_by (folded_name g) (map (JObj \<circ> ?entry) cs)) (py_lower (co_name c)) = Some (?entry c)"
      using names by (intro entries_of_components s c) blast
    then show ?thesis using cyclonedx_described [OF sc, of g]
      by (simp add: sbom_item_def component_fields_get(1) [OF sc] described_by_def flag_def)
  qed
  then have "collect (sbom_item g (entries_by (folded_name g) (map (JObj \<circ> ?entry) cs))) (map (JObj \<circ> ?item) cs) = Inr []"
    by (intro collect_all_Nil) auto
  moreover have "map (folded_name g) (map ?entry cs) = map (py_lower \<circ> co_name) cs" using names by simp
  then have "named_duplicates (map (folded_name g) (map ?entry cs)) = []" using no_duplicate_names [OF s(2)] by metis
  moreover have "unlocked g m (map (JObj \<circ> ?item) cs) (map (JObj \<circ> ?entry) cs) = []" for m using names by (rule none_unlocked)
  ultimately show ?thesis using lock_document_components [OF s(1)]
    by (simp add: sbom_entries_def then_check_def with_lock_def del: map_map)
qed

text \<open>The same for the SPDX document.\<close>

definition spdx_checksum :: "string \<Rightarrow> json" where
  "spdx_checksum digest = JObj [(''algorithm'', JStr ''SHA256''), (''checksumValue'', JStr digest)]"

lemma spdx_checksum_canon: "json_canon (spdx_checksum d) = spdx_checksum d"
proof -
  have "''algorithm'' \<le> ''checksumValue''" by code_simp
  then show ?thesis by (simp add: spdx_checksum_def)
qed

lemma spdx_package_get:
  assumes "settled_component c"
  shows "distinct (map fst (spdx_package c))"
    "str_field g (canon_object (spdx_package c)) ''name'' d = co_name c"
    "str_field g (canon_object (spdx_package c)) ''versionInfo'' d = co_revision c"
    "dict_get_or d' (canon_object (spdx_package c)) ''checksums'' = JList [spdx_checksum (remove_prefix ''sha256:'' (co_digest c))]"
    "dict_get_or d' (canon_object (spdx_package c)) ''licenseDeclared'' = JStr (co_license_spdx c)"
    "dict_get_or d' (canon_object (spdx_package c)) ''licenseConcluded'' = JStr ''NOASSERTION''"
proof -
  show d: "distinct (map fst (spdx_package c))"
    using pinned_digest_settled [OF assms] by (simp add: spdx_package_def Let_def)
  show "str_field g (canon_object (spdx_package c)) ''name'' d = co_name c"
    "str_field g (canon_object (spdx_package c)) ''versionInfo'' d = co_revision c"
    by (rule canon_str [OF d], simp add: spdx_package_def)+
  show "dict_get_or d' (canon_object (spdx_package c)) ''checksums'' = JList [spdx_checksum (remove_prefix ''sha256:'' (co_digest c))]"
  proof -
    have "map_of (spdx_package c) ''checksums'' = Some (JList [spdx_checksum (remove_prefix ''sha256:'' (co_digest c))])"
      using pinned_digest_settled [OF assms] by (simp add: spdx_package_def spdx_checksum_def)
    from canon_get [OF d this, of d'] show ?thesis by (simp add: spdx_checksum_canon)
  qed
  show "dict_get_or d' (canon_object (spdx_package c)) ''licenseDeclared'' = JStr (co_license_spdx c)"
    "dict_get_or d' (canon_object (spdx_package c)) ''licenseConcluded'' = JStr ''NOASSERTION''"
    using canon_get [OF d, of "''licenseDeclared''"] canon_get [OF d, of "''licenseConcluded''"] by (simp_all add: spdx_package_def)
qed

text \<open>What is open about the license of a component is the concluded one.\<close>

definition open_license :: "component \<Rightarrow> string" where
  "open_license c = ''Unresolved SPDX concluded license: '' @ co_name c"

lemma noassertion_open: "license_is_unresolved g (JStr ''NOASSERTION'')"
proof -
  have "py_upper (py_strip ''NOASSERTION'') \<in> forbidden_license_markers" by code_simp
  then show ?thesis by (simp add: license_is_unresolved_def)
qed

lemma settled_license: "settled_component c \<Longrightarrow> \<not> license_is_unresolved g (JStr (co_license_spdx c))"
  by (simp add: license_is_unresolved_def settled_filled settled_component_def)

lemma spdx_open:
  assumes "settled_component c"
  shows "spdx_licenses g (canon_object (spdx_package c)) = [open_license c]"
  unfolding spdx_licenses_def Let_def spdx_package_get(2,5,6) [OF assms] open_license_def
  using noassertion_open settled_license [OF assms] by (simp add: flag_def)

lemma spdx_agrees:
  assumes "settled_components cs"
  shows "spdx_packages g (Some (canon_object (candidate_lock e cs))) (map (JObj \<circ> (canon_object \<circ> spdx_package)) cs) =
    Inr (map open_license cs)"
proof -
  let ?entry = "canon_object \<circ> spdx_package" and ?item = "canon_object \<circ> component_object"
  have s: "list_all settled_component cs" "distinct (map (py_lower \<circ> co_name) cs)" using assms by (auto simp: settled_components_def)
  have names: "\<forall>c \<in> set cs. folded_name g (?entry c) = py_lower (co_name c) \<and> folded_name g (?item c) = py_lower (co_name c)"
    using s(1) by (auto simp: list_all_iff folded_name_def spdx_package_get(2) component_fields_get(1))
  have "spdx_item g (entries_by (folded_name g) (map (JObj \<circ> ?entry) cs)) (JObj (?item c)) = Inr []" if c: "c \<in> set cs" for c
  proof -
    have sc: "settled_component c" using s(1) c by (simp add: list_all_iff)
    have "map_of (entries_by (folded_name g) (map (JObj \<circ> ?entry) cs)) (py_lower (co_name c)) = Some (?entry c)"
      using names by (intro entries_of_components s c) blast
    moreover have "remove_prefix ''sha256:'' (co_digest c) \<in> spdx_checksums g (?entry c)"
      unfolding spdx_checksums_def comp_def spdx_package_get(4) [OF sc] by (auto simp: listed_def spdx_checksum_def str_field_def dict_get_or_def)
    ultimately show ?thesis
      by (simp add: spdx_item_def component_fields_get [OF sc] spdx_package_get(3,5) [OF sc] flag_def)
  qed
  then have "collect (spdx_item g (entries_by (folded_name g) (map (JObj \<circ> ?entry) cs))) (map (JObj \<circ> ?item) cs) = Inr []"
    by (intro collect_all_Nil) auto
  moreover have "map (folded_name g) (map ?entry cs) = map (py_lower \<circ> co_name) cs" using names by simp
  then have "named_duplicates (map (folded_name g) (map ?entry cs)) = []" using no_duplicate_names [OF s(2)] by metis
  moreover have "unlocked g m (map (JObj \<circ> ?item) cs) (map (JObj \<circ> ?entry) cs) = []" for m using names by (rule none_unlocked)
  moreover have "concat (map (spdx_licenses g) (map ?entry cs)) = map open_license cs"
    using s(1) by (induction cs) (simp_all add: spdx_open)
  ultimately show ?thesis using lock_document_components [OF s(1)]
    by (simp add: spdx_packages_def then_check_def with_lock_def del: map_map)
qed

text \<open>
  What the gate says of such a component in the lock: an image of the product that is not published, a reference that can
  change, a forbidden name. It looks for the last two in the component as it is printed.
\<close>

definition open_references :: "component \<Rightarrow> string list" where
  "open_references c =
     (let printed = dumps_sorted (json_canon (JObj (component_object c))) in
      flag (co_kind c = ''oci-image'' \<and> starts_with (py_lower (co_name c)) ''atlantis-'' \<and> \<not> oci_reference (co_repository c))
        (''Atlantis OCI image is not pinned to a published registry manifest: '' @ co_name c) @
      flag (search_ignoring_case latest_reference printed) (''Mutable component reference: '' @ co_name c) @
      flag (search_ignoring_case n8n_word printed) (''Forbidden component in lock: '' @ co_name c))"

lemma lock_item_settled:
  assumes "settled_component c"
  shows "lock_name g index (canon_object (component_object c)) = co_name c"
    "unpinned_fields g name (canon_object (component_object c)) = []"
    "lock_digests g name (canon_object (component_object c)) = []"
    "lock_references g (co_name c) (canon_object (component_object c)) = open_references c"
proof -
  note get = component_field_get [OF assms]
  have p: "py_strip (co_name c) = co_name c" "list_all (\<lambda>(field, v). py_upper (py_strip v) \<notin> pending) (component_fields c)"
      "sha256_reference (co_digest c)" "hex64 (co_license_text_sha256 c)"
    using assms by (simp_all add: settled_component_def)
  have n: "(''name'', co_name c) \<in> set (component_fields c)" "(''digest'', co_digest c) \<in> set (component_fields c)"
    "(''license_text_sha256'', co_license_text_sha256 c) \<in> set (component_fields c)"
    "(''repository'', co_repository c) \<in> set (component_fields c)" "(''kind'', co_kind c) \<in> set (component_fields c)"
    by (simp_all add: component_fields_def)
  show "lock_name g index (canon_object (component_object c)) = co_name c" by (simp add: lock_name_def get [OF n(1)] p(1))
  have f: "lock_fields = map fst (component_fields c)" by (simp add: lock_fields_def component_fields_def)
  have "py_upper (py_strip (str_field g (canon_object (component_object c)) field [])) \<notin> pending" if "field \<in> set lock_fields" for field
  proof -
    have "field \<in> fst ` set (component_fields c)" using that unfolding f by (simp only: list.set_map)
    then obtain v where v: "(field, v) \<in> set (component_fields c)" by (elim imageE) (metis prod.collapse)
    then show ?thesis using get [OF v] p(2) by (auto simp: list_all_iff)
  qed
  then show "unpinned_fields g name (canon_object (component_object c)) = []" by (simp add: unpinned_Nil)
  show "lock_digests g name (canon_object (component_object c)) = []"
    by (simp add: lock_digests_def get [OF n(2)] get [OF n(3)] p(3,4) flag_def)
  have d: "distinct (map fst (component_object c))" using assms by (simp add: settled_component_def)
  have k: "dict_get_or JNull (canon_object (component_object c)) ''kind'' = JStr (co_kind c)"
    using canon_get [OF d, of "''kind''"] by (simp add: component_object_def component_fields_def)
  show "lock_references g (co_name c) (canon_object (component_object c)) = open_references c"
    using settled_license [OF assms]
    by (simp add: lock_references_def open_references_def Let_def component_fields_get(5) [OF assms] get [OF n(4)] k
      canon_of_object [symmetric] flag_def del: json_canon.simps)
qed

lemma lock_items_settled:
  assumes "list_all settled_component cs" "distinct (map (py_lower \<circ> co_name) cs)" "seen \<inter> (py_lower \<circ> co_name) ` set cs = {}"
  shows "lock_items g seen index (map (JObj \<circ> (canon_object \<circ> component_object)) cs) = concat (map open_references cs)"
  using assms
proof (induction cs arbitrary: seen index)
  case (Cons c cs)
  have c: "settled_component c" using Cons.prems(1) by simp
  have "lock_items g (insert (py_lower (co_name c)) seen) (index + 1) (map (JObj \<circ> (canon_object \<circ> component_object)) cs) =
      concat (map open_references cs)"
    using Cons.prems by (intro Cons.IH) auto
  moreover have "py_lower (co_name c) \<notin> seen" using Cons.prems(3) by auto
  ultimately show ?case by (simp add: lock_item_settled [OF c] flag_def Let_def comp_def)
qed simp

text \<open>The documents are JSON values with well-formed texts.\<close>

definition json_ok :: "json \<Rightarrow> bool" where
  "json_ok j \<longleftrightarrow> json_wf j \<and> json_text j"

lemma json_ok_simps:
  "json_ok JNull" "json_ok (JBool b)" "json_ok (JInt i)" "json_ok (JStr s) \<longleftrightarrow> utf8_ok s"
  "json_ok (JList vs) \<longleftrightarrow> list_all json_ok vs"
  "json_ok (JObj kvs) \<longleftrightarrow> distinct (map fst kvs) \<and> list_all (\<lambda>(k, v). utf8_ok k \<and> json_ok v) kvs"
  by (auto simp: json_ok_def list_all_iff)

lemma utf8_words_ok:
  "list_all utf8_ok [''name'', ''version'', ''type'', ''licenses'', ''license'', ''id'', ''expression'', ''properties'', ''value'', ''hashes'', ''alg'',
     ''content'', ''purl'', ''SHA-256'', ''container'', ''library'', ''atlantis:repository'', ''atlantis:artifact'', ''bomFormat'', ''CycloneDX'',
     ''specVersion'', ''1.6'', ''serialNumber'', ''metadata'', ''component'', ''application'', ''atlantis-autonomous-sales'', ''0.9.0-rc5'',
     ''components'', ''atlantis:distribution-status'', ''blocked-candidate-only'', ''schema_version'', ''release_status'', ''blocked'', ''source_revision'']"
  by code_simp

lemmas utf8_words = utf8_words_ok [unfolded list.pred_inject]

lemma component_texts:
  assumes "settled_component c"
  shows "utf8_ok (co_name c)" "utf8_ok (co_revision c)" "utf8_ok (co_repository c)" "utf8_ok (co_artifact c)" "utf8_ok (co_license_spdx c)"
    "utf8_ok (co_digest c)" "json_ok (JObj (component_object c))"
    "json_ok (dict_get_or JNull (co_extra c) k)"
proof -
  have o: "json_wf (JObj (component_object c))" "json_text (JObj (component_object c))" using assms by (simp_all add: settled_component_def)
  then show "json_ok (JObj (component_object c))" by (simp add: json_ok_def)
  show "utf8_ok (co_name c)" "utf8_ok (co_revision c)" "utf8_ok (co_repository c)" "utf8_ok (co_artifact c)" "utf8_ok (co_license_spdx c)"
    "utf8_ok (co_digest c)"
    using o(2) by (simp_all add: component_object_def component_fields_def)
  have "json_ok v" if "map_of (co_extra c) k = Some v" for v
    using o map_of_SomeD [OF that] by (fastforce simp: component_object_def list_all_iff json_ok_def)
  then show "json_ok (dict_get_or JNull (co_extra c) k)" by (auto simp: dict_get_or_def json_ok_simps split: option.splits)
qed

lemma utf8_digest: "utf8_ok (sha256_hexdigest m)"
  by (rule printable_utf8 [OF printable_hexdigest])

lemma drop_hex_utf8: "sha256_reference d \<Longrightarrow> utf8_ok (remove_prefix ''sha256:'' d)"
proof -
  assume "sha256_reference d"
  then have "list_all printable (drop 7 d)" "starts_with d ''sha256:''"
    by (auto simp: sha256_reference_def hex64_def list_all_iff lower_hex_def printable_def is_digit_def)
  moreover from this(2) have "remove_prefix ''sha256:'' d = drop 7 d" by (simp add: remove_prefix_def numeral_eq_Suc)
  ultimately show ?thesis using printable_utf8 by metis
qed

lemma lock_document_ok:
  assumes "list_all settled_component cs" "utf8_ok (gn_revision e)"
  shows "json_ok (JObj (candidate_lock e cs))"
  unfolding candidate_lock_def json_ok_simps using assms utf8_words component_texts(7)
  by (simp add: list_all_iff json_ok_simps(1-5) del: utf8_ok.simps)

lemma sha256_hash_ok: "utf8_ok d \<Longrightarrow> json_ok (sha256_hash (JStr d))"
  unfolding sha256_hash_def json_ok_simps using utf8_words by (simp add: json_ok_simps(1-5) del: utf8_ok.simps)

lemma license_choice_ok: "utf8_ok l \<Longrightarrow> json_ok (license_choice l)"
  using utf8_words by (simp add: license_choice_def json_ok_simps del: utf8_ok.simps)

lemma cyclonedx_entry_ok:
  assumes "settled_component c"
  shows "json_ok (JObj (cyclonedx_entry c))"
proof -
  have h: "json_ok (sha256_hash (JStr (remove_prefix ''sha256:'' (co_digest c))))"
    using assms by (intro sha256_hash_ok drop_hex_utf8) (simp add: settled_component_def)
  have "list_all (\<lambda>(k, v). utf8_ok k \<and> json_ok v) (cyclonedx_entry c)"
    using utf8_words component_texts [OF assms] h license_choice_ok pinned_digest_settled [OF assms]
    by (simp add: cyclonedx_entry_def cyclonedx_hashes_def json_ok_simps Let_def del: utf8_ok.simps)
  then show ?thesis using cyclonedx_entry_get(1) [OF assms] by (simp add: json_ok_simps(6))
qed

lemma serial_number_ok: "utf8_ok (serial_number (sha256_hexdigest m))"
proof -
  have "list_all printable (slice a b (sha256_hexdigest m))" for a b
    using printable_hexdigest [of m] by (auto simp: slice_def list_all_iff dest: in_set_takeD in_set_dropD)
  then have "list_all printable (serial_number (sha256_hexdigest m))" by (simp add: serial_number_def printable_def)
  then show ?thesis by (rule printable_utf8)
qed

lemma sbom_document_ok:
  assumes "list_all settled_component cs"
  shows "json_ok (JObj (candidate_sbom cs))"
proof -
  have "json_ok (JObj [(''component'', JObj [(''type'', JStr ''application''), (''name'', JStr ''atlantis-autonomous-sales''), (''version'', JStr ''0.9.0-rc5'')])])"
    "json_ok (JObj [(''name'', JStr ''atlantis:distribution-status''), (''value'', JStr ''blocked-candidate-only'')])"
    using utf8_words by (simp_all add: json_ok_simps del: utf8_ok.simps)
  then show ?thesis
    unfolding candidate_sbom_def Let_def json_ok_simps(5) json_ok_simps(6) [of "(''bomFormat'', v) # kvs" for v kvs]
    using assms utf8_words serial_number_ok cyclonedx_entry_ok
    by (simp add: list_all_iff json_ok_simps(1-5) cyclonedx_components_def del: utf8_ok.simps)
qed

lemma spdx_words_ok:
  "list_all utf8_ok [''SPDXID'', ''name'', ''versionInfo'', ''downloadLocation'', ''NOASSERTION'', ''filesAnalyzed'', ''licenseConcluded'',
     ''licenseDeclared'', ''copyrightText'', ''checksums'', ''algorithm'', ''SHA256'', ''checksumValue'', ''externalRefs'', ''referenceCategory'',
     ''PACKAGE-MANAGER'', ''referenceType'', ''purl'', ''referenceLocator'', ''spdxElementId'', ''SPDXRef-DOCUMENT'', ''relationshipType'', ''DESCRIBES'',
     ''relatedSpdxElement'', ''spdxVersion'', ''SPDX-2.3'', ''dataLicense'', ''CC0-1.0'', ''atlantis-autonomous-sales-0.9.0-rc5-candidate'',
     ''documentNamespace'', ''creationInfo'', ''created'', ''creators'', ''Tool: Atlantis distribution candidate generator'', ''packages'', ''relationships'']"
  by code_simp

lemmas spdx_words = spdx_words_ok [unfolded list.pred_inject]

lemma spdx_id_ok: "utf8_ok (spdx_id name)"
proof -
  have "letter_or_digit c \<Longrightarrow> printable c" for c
    by (auto simp: letter_or_digit_def word_char_def printable_def is_digit_def)
  then have "list_all printable (spdx_id name)" by (auto simp: spdx_id_def sub_chars_def list_all_iff printable_def)
  then show ?thesis by (rule printable_utf8)
qed

lemma spdx_package_ok:
  assumes "settled_component c"
  shows "json_ok (JObj (spdx_package c))"
proof -
  have h: "utf8_ok (remove_prefix ''sha256:'' (co_digest c))"
    using assms by (intro drop_hex_utf8) (simp add: settled_component_def)
  have "list_all (\<lambda>(k, v). utf8_ok k \<and> json_ok v) (spdx_package c)"
    using spdx_words component_texts [OF assms] h spdx_id_ok pinned_digest_settled [OF assms]
    by (simp add: spdx_package_def json_ok_simps Let_def del: utf8_ok.simps)
  then show ?thesis using spdx_package_get(1) [OF assms] by (simp add: json_ok_simps(6))
qed

lemma spdx_document_ok:
  assumes "list_all settled_component cs" "utf8_ok (gn_stamp e)"
  shows "json_ok (JObj (spdx_document e cs))"
proof -
  have s: "list_all printable (''https://atlantis.invalid/spdx/'' @ sha256_hexdigest m)" for m
    using printable_hexdigest [of m] by (simp add: printable_def)
  have "json_ok (JObj [(''created'', JStr (gn_stamp e)), (''creators'', JList [JStr ''Tool: Atlantis distribution candidate generator''])])"
    "\<forall>c. json_ok (spdx_relationship c)"
    using spdx_words spdx_id_ok assms(2) by (simp_all add: spdx_relationship_def json_ok_simps del: utf8_ok.simps)
  then show ?thesis
    unfolding spdx_document_def Let_def json_ok_simps(5) json_ok_simps(6) [of "(''spdxVersion'', v) # kvs" for v kvs]
    using assms(1) spdx_words printable_utf8 [OF s] spdx_package_ok
    by (simp add: list_all_iff json_ok_simps(1-5) del: utf8_ok.simps)
qed

text \<open>
  C19: the documents of a candidate agree with each other. The gate reads the component lock and the two bills of materials that the
  generator wrote, for components whose review is over and whose names differ. It then finds every component described with
  the revision, the digest and the license of the lock, nothing else described and no duplicate. All it reports is this: of the
  lock that it is not approved, and for each component whether it is an unpublished image of the product, a reference that can
  change or a forbidden name; of the CycloneDX document whether a forbidden name is in it; and of the SPDX document one
  license per component that is still to be concluded.
\<close>

theorem candidate_documents_agree:
  assumes "documents e ca = Inr docs" "settled_components (ca_components ca)" "utf8_ok (gn_revision e)" "utf8_ok (gn_stamp e)"
    "([''component-lock.candidate.json''], lock_bytes) \<in> set docs" "gv_read g lp = Inr lock_bytes"
    "([''sbom.cdx.candidate.json''], sbom_bytes) \<in> set docs" "gv_read g bp = Inr sbom_bytes"
    "([''sbom.spdx.candidate.json''], spdx_bytes) \<in> set docs" "gv_read g sp = Inr spdx_bytes"
  shows "\<exists>lock. load_json g lp ''component lock'' = Inr (Some lock, []) \<and>
    lock_errors g lock = ''Invalid component lock: release_status must be approved'' # concat (map open_references (ca_components ca)) \<and>
    validate_sbom g bp (Some lock) =
      Inr (flag (search_ignoring_case n8n_word (dumps_sorted (json_canon (JList (cyclonedx_components (ca_components ca))))))
        ''Forbidden component in CycloneDX SBOM: n8n'') \<and>
    validate_spdx g sp (Some lock) = Inr (map open_license (ca_components ca))"
proof -
  let ?cs = "ca_components ca"
  have s: "list_all settled_component ?cs" "?cs \<noteq> []" using assms(2) by (simp_all add: settled_components_def)
  have c: "lock_bytes = document_text (candidate_lock e ?cs)" "sbom_bytes = document_text (candidate_sbom ?cs)"
    "spdx_bytes = document_text (spdx_document e ?cs)"
    using assms(1,5,7,9) by (auto simp: documents_def image_documents_def rbind_Inr_iff split: option.splits)
  note ok = lock_document_ok [OF s(1) assms(3)] sbom_document_ok [OF s(1)] spdx_document_ok [OF s(1) assms(4)]
  let ?lock = "canon_object (candidate_lock e ?cs)" and ?sbom = "canon_object (candidate_sbom ?cs)"
    and ?spdx = "canon_object (spdx_document e ?cs)"
  have l: "load_json g lp label = Inr (Some ?lock, [])" for label
    using ok(1) assms(6) c(1) by (intro gate_reads_document) (simp_all add: json_ok_def)
  have b: "load_json g bp label = Inr (Some ?sbom, [])" for label
    using ok(2) assms(8) c(2) by (intro gate_reads_document) (simp_all add: json_ok_def)
  have p: "load_json g sp label = Inr (Some ?spdx, [])" for label
    using ok(3) assms(10) c(3) by (intro gate_reads_document) (simp_all add: json_ok_def)
  have canon: "map json_canon (map (JObj \<circ> f) ?cs) = map (JObj \<circ> (canon_object \<circ> f)) ?cs" for f
    by (simp add: canon_of_object del: json_canon.simps)
  obtain x xs where cs: "?cs = x # xs" using s(2) by (cases ?cs) auto
  have "dict_get_or JNull ?sbom ''components'' = JList (map (JObj \<circ> (canon_object \<circ> cyclonedx_entry)) ?cs)"
    "dict_get_or JNull ?sbom ''bomFormat'' = JStr ''CycloneDX''" "dict_get_or JNull ?sbom ''specVersion'' = JStr ''1.6''"
    using canon [of cyclonedx_entry]
    by (subst canon_get, simp add: candidate_sbom_def, simp add: candidate_sbom_def cyclonedx_components_def, simp)+
  moreover have "json_canon (JList (cyclonedx_components ?cs)) = JList (map (JObj \<circ> (canon_object \<circ> cyclonedx_entry)) ?cs)"
    using canon [of cyclonedx_entry] by (simp add: cyclonedx_components_def)
  ultimately have vs: "validate_sbom g bp (Some ?lock) =
      Inr (flag (search_ignoring_case n8n_word (dumps_sorted (json_canon (JList (cyclonedx_components ?cs)))))
        ''Forbidden component in CycloneDX SBOM: n8n'')"
    using sbom_agrees [OF assms(2), of g e] b by (auto simp: validate_sbom_def then_check_def flag_def cs)
  have "dict_get_or JNull ?spdx ''packages'' = JList (map (JObj \<circ> (canon_object \<circ> spdx_package)) ?cs)"
    "dict_get_or JNull ?spdx ''spdxVersion'' = JStr ''SPDX-2.3''" "dict_get_or JNull ?spdx ''dataLicense'' = JStr ''CC0-1.0''"
    "dict_get_or JNull ?spdx ''SPDXID'' = JStr ''SPDXRef-DOCUMENT''"
    using canon [of spdx_package] by (subst canon_get, simp add: spdx_document_def, simp add: spdx_document_def Let_def, simp)+
  then have vp: "validate_spdx g sp (Some ?lock) = Inr (map open_license ?cs)"
    using spdx_agrees [OF assms(2), of g e] p by (simp add: validate_spdx_def then_check_def flag_def cs)
  have "dict_get_or JNull ?lock ''release_status'' = JStr ''blocked''"
    by (subst canon_get, simp add: candidate_lock_def, simp add: candidate_lock_def, simp)
  moreover have "dict_get_or JNull ?lock ''components'' = JList (map (JObj \<circ> (canon_object \<circ> component_object)) ?cs)"
    using canon [of component_object] by (subst canon_get, simp add: candidate_lock_def, simp add: candidate_lock_def, simp)
  moreover have "lock_items g {} 0 (map (JObj \<circ> (canon_object \<circ> component_object)) ?cs) = concat (map open_references ?cs)"
    using s(1) assms(2) by (intro lock_items_settled) (simp_all add: settled_components_def)
  ultimately have "lock_errors g ?lock = ''Invalid component lock: release_status must be approved'' # concat (map open_references ?cs)"
    by (simp add: lock_errors_def flag_def cs)
  then show ?thesis using l vs vp by blast
qed

section \<open>Examples\<close>

text \<open>A machine with nothing on it: files are empty, no image, wheel or package is installed.\<close>

definition bare_gate :: gate where
  "bare_gate = \<lparr>gv_stat = (\<lambda>_. Missing), gv_read = (\<lambda>_. Inr []), gv_tree = (\<lambda>_. []), gv_resolve = Inr, gv_repr = (\<lambda>_. []),
     gv_decode_error = (\<lambda>_. []), gv_fromiso = (\<lambda>_. None), gv_now = 0, gv_openssl = (\<lambda>_ _ _. Inr 1)\<rparr>"

definition bare_surroundings :: surroundings where
  "bare_surroundings = \<lparr>gn_gate = bare_gate, gn_base = [''repo''], gn_fetch = (\<lambda>_. Inr []), gn_inspect = (\<lambda>_. (1, [])), gn_syft = (1, [], []),
     gn_scan = (\<lambda>_. (1, [], [], [])), gn_scanner = Inr [], gn_extract = (1, []), gn_download = Inr [], gn_wheelhouse = [],
     gn_revision = ''abc'', gn_stamp = ''2026-01-01T00:00:00Z''\<rparr>"

definition no_options :: generator_options where
  "no_options = \<lparr>go_wheels = False, go_scan = False, go_licenses = False, go_sources = False, go_models = False\<rparr>"

lemma materialize_none: "\<forall>c \<in> set cs. f c = Inr (c, []) \<Longrightarrow> materialize f cs = Inr (cs, [])"
proof -
  assume "\<forall>c \<in> set cs. f c = Inr (c, [])"
  then have "map_res f cs = Inr (map (\<lambda>c. (c, [])) cs)" by (induction cs) simp_all
  then show ?thesis by (simp add: materialize_def comp_def)
qed

lemma service_sources:
  "list_all (\<lambda>r. map_of component_license_sources (before_colon r) = None \<and> map_of source_archives (before_colon r) = None \<and>
     map_of model_metadata (before_colon r) = None \<and> utf8_ok (before_colon r)) service_images"
  by code_simp

lemma service_names: "c \<in> set (map (service_component e license) service_images) \<Longrightarrow> \<exists>r \<in> set service_images. co_name c = before_colon r"
  by (auto simp: service_component_def Let_def)

lemma bare_survey:
  "\<exists>ca. survey bare_surroundings (\<lambda>_. Inr (JObj [])) no_options = Inr (ca, [([''LICENSES'', ''Atlantis-Proprietary.txt''], [])]) \<and>
     ca_images ca = None \<and> ca_inventory ca = [] \<and> list_all blocker_text (ca_blockers ca)"
proof -
  let ?e = bare_surroundings
  let ?cs = "map (service_component ?e []) service_images"
  have gate: "gn_gate ?e = bare_gate" "gv_read bare_gate p = Inr []" "\<not> is_file bare_gate p" for p
    by (simp_all add: bare_surroundings_def bare_gate_def is_file_def)
  have none: "map_of component_license_sources (co_name c) = None" "map_of source_archives (co_name c) = None"
    "map_of model_metadata (co_name c) = None" "utf8_ok (co_name c)" if "c \<in> set ?cs" for c
    using service_names [OF that] service_sources by (auto simp: list_all_iff)
  have m: "materialize (component_license ?e f) ?cs = Inr (?cs, [])" "materialize (component_source ?e f) ?cs = Inr (?cs, [])"
    "materialize (model_descriptor ?e f) ?cs = Inr (?cs, [])" for f
    using none by (intro materialize_none, simp add: component_license_def component_source_def model_descriptor_def)+
  have p: "runtime_packages bare_gate q = Inr []" "read_utf8 bare_gate q = Inr []" for q
    by (simp_all add: runtime_packages_def read_utf8_def gate newlines_def)
  have w: "select_wheels ?e False [] = Inr ([], [])" "image_findings ?e False = Inr (None, [], [])" "installed_python_metadata ?e = Inr []"
    "materialize_python_licenses ?e False [] [] = Inr ([], [], [])"
    "check_runner ?e cs = Inr (cs, [blocker_of ''openoutreach'' ''runtime'' ''external-runtime-not-installed''])" for cs
    by (simp_all add: select_wheels_def wheelhouse_def image_findings_def installed_python_metadata_def materialize_python_licenses_def
      check_runner_def gate sort_Nil) (simp_all add: bare_surroundings_def)
  have words: "utf8_ok ''repository'' \<and> utf8_ok ''digest'' \<and> utf8_ok ''local-image-missing'' \<and> utf8_ok ''not-fixed'' \<and>
      utf8_ok ''local-image-id-must-be-replaced-by-published-registry-manifest-digest'' \<and> utf8_ok ''openoutreach'' \<and> utf8_ok ''runtime'' \<and>
      utf8_ok ''external-runtime-not-installed''" by code_simp
  have fields: "\<forall>f \<in> fst ` set (component_fields c). utf8_ok f" for c
    by (simp add: component_fields_def) code_simp
  have pend: "list_all blocker_text (pending_fields c)" if "c \<in> set ?cs" for c
    using none(4) [OF that] fields [of c] words by (auto simp: pending_fields_def blocker_text_def blocker_of_def list_all_iff)
  have serv: "list_all blocker_text (service_blockers ?e r)" if "r \<in> set service_images" for r
    using service_sources words that by (auto simp: service_blockers_def blocker_text_def blocker_of_def list_all_iff Let_def)
  have b: "list_all blocker_text (concat (map (service_blockers ?e) service_images) @
      [blocker_of ''openoutreach'' ''runtime'' ''external-runtime-not-installed''] @ concat (map pending_fields ?cs))"
    using pend serv words by (auto simp: list_all_iff blocker_text_def blocker_of_def)
  show ?thesis
    using b by (simp add: survey_def spec_items_def gate p w m no_options_def normalized_components_def field_items_def dict_get_or_def merge_packages_def)
qed

theorem fresh_candidate_refused_witness:
  "\<exists>ca materials docs content. survey bare_surroundings (\<lambda>_. Inr (JObj [])) no_options = Inr (ca, materials) \<and>
    documents bare_surroundings ca = Inr docs \<and> ([''BLOCKERS.json''], content) \<in> set docs \<and>
    prepare bare_gate no_failures [''c''] [''o''] [''a''] [([''c'', ''BLOCKERS.json''], NFile content)] =
      (raise ValueError ''candidate still has blockers; evidence preparation refused'', [([''c'', ''BLOCKERS.json''], NFile content)])"
proof -
  obtain ca where ca: "survey bare_surroundings (\<lambda>_. Inr (JObj [])) no_options = Inr (ca, [([''LICENSES'', ''Atlantis-Proprietary.txt''], [])])"
      "ca_images ca = None" "ca_inventory ca = []" "list_all blocker_text (ca_blockers ca)" using bare_survey by blast
  obtain docs where d: "documents bare_surroundings ca = Inr docs"
      "([''BLOCKERS.json''], document_text (candidate_report (ca_blockers ca))) \<in> set docs"
    using ca(2,3) by (simp add: documents_def image_documents_def legal_review_queue_def)
  have "map_of [([''c'', ''BLOCKERS.json''], NFile content)] ([''c''] @ [''BLOCKERS.json'']) = Some (NFile content)" for content by simp
  from fresh_candidate_refused [OF ca(1) d(1) ca(4) d(2) this, of bare_gate no_failures "[''o'']" "[''a'']"] ca(1) d show ?thesis by blast
qed

definition example_caddy :: component where
  "example_caddy = \<lparr>co_name = ''caddy'', co_kind = ''oci-image'', co_repository = ''https://example.org/caddy'', co_revision = ''7088605c'',
     co_artifact = ''caddy:2.8.4-alpine'', co_digest = ''sha256:'' @ all_a, co_license_spdx = ''Apache-2.0'', co_license_text_sha256 = all_a,
     co_license_path = ''LICENSES/components/caddy.txt'', co_owner = ''Platform'', co_distribution_mode = ''image'', co_source_obligation = ''notice'',
     co_extra = [(''revision_evidence'', JStr ''git-tag:v2.8.4'')]\<rparr>"

definition caddy_candidate :: candidate where
  "caddy_candidate = \<lparr>ca_components = [example_caddy], ca_blockers = [], ca_wheels = [], ca_images = None, ca_inventory = []\<rparr>"

text \<open>A gate that finds the three documents.\<close>

definition caddy_gate :: gate where
  "caddy_gate = bare_gate\<lparr>gv_read := (\<lambda>p. if p = [''lock''] then Inr (document_text (candidate_lock bare_surroundings [example_caddy]))
     else if p = [''sbom''] then Inr (document_text (candidate_sbom [example_caddy]))
     else Inr (document_text (spdx_document bare_surroundings [example_caddy])))\<rparr>"

lemma caddy_settled: "settled_components [example_caddy]"
  by code_simp

theorem candidate_documents_agree_witness:
  "\<exists>lock. load_json caddy_gate [''lock''] ''component lock'' = Inr (Some lock, []) \<and>
    lock_errors caddy_gate lock = ''Invalid component lock: release_status must be approved'' # open_references example_caddy \<and>
    validate_spdx caddy_gate [''spdx''] (Some lock) = Inr [''Unresolved SPDX concluded license: caddy'']"
proof -
  have n: "ca_components caddy_candidate = [example_caddy]" by (simp add: caddy_candidate_def)
  obtain docs where d: "documents bare_surroundings caddy_candidate = Inr docs"
      "([''component-lock.candidate.json''], document_text (candidate_lock bare_surroundings [example_caddy])) \<in> set docs"
      "([''sbom.cdx.candidate.json''], document_text (candidate_sbom [example_caddy])) \<in> set docs"
      "([''sbom.spdx.candidate.json''], document_text (spdx_document bare_surroundings [example_caddy])) \<in> set docs"
    by (simp add: documents_def image_documents_def legal_review_queue_def caddy_candidate_def)
  have u: "utf8_ok (gn_revision bare_surroundings)" "utf8_ok (gn_stamp bare_surroundings)" by code_simp+
  have r: "gv_read caddy_gate [''lock''] = Inr (document_text (candidate_lock bare_surroundings [example_caddy]))"
    "gv_read caddy_gate [''sbom''] = Inr (document_text (candidate_sbom [example_caddy]))"
    "gv_read caddy_gate [''spdx''] = Inr (document_text (spdx_document bare_surroundings [example_caddy]))"
    by (simp_all add: caddy_gate_def)
  have "open_license example_caddy = ''Unresolved SPDX concluded license: caddy''" by (simp add: open_license_def example_caddy_def)
  then show ?thesis
    using candidate_documents_agree [OF d(1) caddy_settled [folded n] u d(2) r(1) d(3) r(2) d(4) r(3)] n by auto
qed

lemma split_printable: "list_all printable s \<Longrightarrow> s \<noteq> [] \<Longrightarrow> split_lines acc s = [rev acc @ s]"
proof (induction s arbitrary: acc rule: induct_list012)
  case (2 c)
  then show ?case by (auto simp: is_line_end_def printable_def)
next
  case (3 c d cs)
  then have "split_lines (c # acc) (d # cs) = [rev (c # acc) @ d # cs]" by simp
  then show ?case using 3 by (auto simp: is_line_end_def printable_def)
qed simp

lemma hash_option_found: "hex64 d \<Longrightarrow> hash_option (''--hash=sha256:'' @ d) = Some d"
  by (simp add: hex64_def numeral_eq_Suc Let_def)

text \<open>A wheel and the lock that names its digest.\<close>

definition example_wheel :: wheel where
  "example_wheel = \<lparr>wh_name = ''a-1-py3-none-any.whl'',
     wh_members = [(''a-1.dist-info/METADATA'', ''Name: a'' @ CHR 0x0A # ''Version: 1'' @ [CHR 0x0A])], wh_bytes = []\<rparr>"

definition wheel_surroundings :: surroundings where
  "wheel_surroundings = bare_surroundings\<lparr>gn_gate := bare_gate\<lparr>gv_read :=
       (\<lambda>_. Inr (''a==1'' @ CHR 0x0A # ''--hash=sha256:'' @ sha256_hexdigest []))\<rparr>, gn_wheelhouse := [example_wheel]\<rparr>"

definition example_package :: package where
  "example_package = (locked_package ''a'' ''1'')\<lparr>pk_hashes := [sha256_hexdigest []]\<rparr>"

lemma example_lock_read: "runtime_packages (gn_gate wheel_surroundings) [''lock''] = Inr [example_package]"
proof -
  let ?h = "''--hash=sha256:'' @ sha256_hexdigest []"
  have h: "list_all printable ?h" using printable_hexdigest [of "[]"] by (simp add: printable_def)
  then have d: "list_all document_char (''a==1'' @ CHR 0x0A # ?h)"
    using document_printable [OF h] by (simp add: document_char_def printable_def)
  have r: "read_utf8 (gn_gate wheel_surroundings) [''lock''] = Inr (''a==1'' @ CHR 0x0A # ?h)"
    using document_utf8 [OF d] document_newlines [OF d] by (simp add: read_utf8_def wheel_surroundings_def del: utf8_ok.simps)
  have "split_lines [] (''a==1'' @ CHR 0x0A # ?h) = ''a==1'' # split_lines [] ?h" by (simp add: is_line_end_def)
  then have l: "split_lines [] (''a==1'' @ CHR 0x0A # ?h) = [''a==1'', ?h]" using split_printable [OF h] by simp
  have q: "requirement_line ''a==1'' = Some (''a'', ''1'')" by code_simp
  have "takeWhile name_char ?h = takeWhile name_char ''--hash''" by (simp add: name_char_def word_char_def is_digit_def)
  then have n: "requirement_line ?h = None" by (simp add: requirement_line_def Let_def name_char_def word_char_def is_digit_def)
  show ?thesis
    using hash_option_found [OF hex64_hexdigest] by (simp add: runtime_packages_def r l runtime_line_def q n add_hash_def example_package_def locked_package_def
      del: append.simps hash_option.simps)
qed

lemma example_selected:
  "wheelhouse wheel_surroundings False = Inr [example_wheel]"
  "\<exists>chosen manifest. select_wheels wheel_surroundings False [example_package] = Inr (chosen, manifest)"
proof -
  show w: "wheelhouse wheel_surroundings False = Inr [example_wheel]" by (simp add: wheelhouse_def wheel_surroundings_def)
  have i: "wheel_identity example_wheel = Inr (''a'', ''1'')" by code_simp
  have n: "normal_name ''a'' = ''a''" by code_simp
  have b: "wh_bytes example_wheel = []" by (simp add: example_wheel_def)
  show "\<exists>chosen manifest. select_wheels wheel_surroundings False [example_package] = Inr (chosen, manifest)"
    by (simp add: select_wheels_def w i b select_wheel_def has_key_def example_package_def locked_package_def n sort_Nil)
qed

theorem selected_wheels_locked_witness:
  "\<exists>chosen manifest. select_wheels wheel_surroundings False [example_package] = Inr (chosen, manifest) \<and>
    (\<exists>p \<in> set chosen. wheel_of example_wheel p)"
proof -
  obtain chosen manifest where s: "select_wheels wheel_surroundings False [example_package] = Inr (chosen, manifest)"
    using example_selected(2) by blast
  from selected_wheels_locked [OF example_lock_read example_selected(1) s] s show ?thesis by auto
qed

end
