(* ===== verification/GapFacts.thy ===== *)
theory GapFacts
  imports CandidateFacts
begin

text \<open>The report on image licenses counts every declaration once; what the queue for legal review says of Python packages.\<close>

section \<open>The report on image licenses\<close>

definition gap_total :: "(string \<times> string, gap) dict \<Rightarrow> nat" where
  "gap_total gaps = sum_list (map (gp_occurrences \<circ> snd) gaps)"

lemma gap_total_set:
  "gap_total (dict_set k x gaps) + (case map_of gaps k of None \<Rightarrow> 0 | Some y \<Rightarrow> gp_occurrences y) = gap_total gaps + gp_occurrences x"
  by (induction gaps) (auto simp: gap_total_def split: option.splits)

lemma add_gap_total: "gap_total (add_gap g img raw gaps) = gap_total gaps + 1"
proof -
  have "\<exists>k x. add_gap g img raw gaps = dict_set k x gaps \<and>
      gp_occurrences x = (case map_of gaps k of None \<Rightarrow> 0 | Some y \<Rightarrow> gp_occurrences y) + 1"
    unfolding add_gap_def Let_def by (intro exI conjI, rule refl) (simp split: option.splits)
  then obtain k x where "add_gap g img raw gaps = dict_set k x gaps"
      "gp_occurrences x = (case map_of gaps k of None \<Rightarrow> 0 | Some y \<Rightarrow> gp_occurrences y) + 1" by blast
  then show ?thesis using gap_total_set [of k x gaps] by simp
qed

lemma add_gaps_total:
  "fold (\<lambda>raw (n, gaps). (n + 1, add_gap g img raw gaps)) raws (n, gaps) = (n', gaps') \<Longrightarrow>
    n' = n + length raws \<and> gap_total gaps' = gap_total gaps + length raws"
proof (induction raws arbitrary: n gaps)
  case (Cons raw raws)
  from Cons.prems have "fold (\<lambda>raw (n, gaps). (n + 1, add_gap g img raw gaps)) raws (n + 1, add_gap g img raw gaps) = (n', gaps')"
    by simp
  from Cons.IH [OF this] show ?case by (simp add: add_gap_total)
qed simp

text \<open>The declarations of an image.\<close>

definition declarations :: "json \<Rightarrow> json list" where
  "declarations img = (case img of JObj kvs \<Rightarrow> (case field_items kvs ''unknown_license_packages'' of Inr raws \<Rightarrow> raws | _ \<Rightarrow> []) | _ \<Rightarrow> [])"

lemma group_gaps_total:
  assumes "group_gaps g imgs (n, gaps) = Inr (n', gaps')"
  shows "n' = n + length (concat (map declarations imgs)) \<and> gap_total gaps' = gap_total gaps + length (concat (map declarations imgs))"
  using assms
proof (induction imgs arbitrary: n gaps)
  case (Cons img imgs)
  obtain n1 gaps1 where a: "add_image_gaps g img (n, gaps) = Inr (n1, gaps1)" "group_gaps g imgs (n1, gaps1) = Inr (n', gaps')"
    using Cons.prems by (auto simp: rbind_Inr_iff)
  then obtain kvs where kvs: "img = JObj kvs" by (cases img) (auto simp: add_image_gaps_def)
  obtain raws where r: "field_items kvs ''unknown_license_packages'' = Inr raws"
    using a(1) by (auto simp: add_image_gaps_def kvs rbind_Inr_iff)
  then have d: "declarations img = raws" by (simp add: declarations_def kvs)
  have "n1 = n + length raws \<and> gap_total gaps1 = gap_total gaps + length raws"
  proof (cases "raws = []")
    case True
    then show ?thesis using a(1) r by (simp add: add_image_gaps_def kvs)
  next
    case False
    then obtain name where "fold (\<lambda>raw (n, gaps). (n + 1, add_gap g name raw gaps)) raws (n, gaps) = (n1, gaps1)"
      using a(1) r by (auto simp: add_image_gaps_def kvs rbind_Inr_iff)
    then show ?thesis by (rule add_gaps_total)
  qed
  then show ?case using Cons.IH [OF a(2)] d by simp
qed simp

text \<open>The occurrences an entry of the report states.\<close>

definition entry_occurrences :: "json \<Rightarrow> int" where
  "entry_occurrences j = (case json_get j ''occurrences'' of Some (JInt n) \<Rightarrow> n | _ \<Rightarrow> 0)"

lemma gap_entries_total:
  assumes "map_res gap_entry xs = Inr entries"
  shows "sum_list (map (entry_occurrences \<circ> snd) entries) = int (sum_list (map gp_occurrences xs)) \<and> length entries = length xs"
  using assms
proof (induction xs arbitrary: entries)
  case (Cons x xs)
  then obtain entry rest where e: "gap_entry x = Inr entry" "map_res gap_entry xs = Inr rest" "entries = entry # rest"
    by (auto simp: rbind_Inr_iff)
  then have "entry_occurrences (snd entry) = int (gp_occurrences x)" by (auto simp: gap_entry_def rbind_Inr_iff entry_occurrences_def)
  then show ?case using Cons.IH [OF e(2)] e(3) by simp
qed simp

lemma sum_sorted: "sum_list (map f (sort_key k xs)) = (sum_list (map f xs) :: int)"
  by (metis mset_map mset_sort sum_mset_sum_list)

text \<open>
  The report on image licenses loses nothing: the total it states is the number of declarations the manifest lists for all images,
  and the occurrences of its entries add up to it, although packages that several images share, or that are listed several times, make
  one entry.
\<close>

theorem gap_report_complete:
  assumes "image_license_gap_report g manifest = Inr report" "field_items manifest ''images'' = Inr images"
  shows "\<exists>entries. map_of report ''packages'' = Some (JList entries) \<and>
    map_of report ''total_unknown_license_declarations'' = Some (JInt (int (length (concat (map declarations images))))) \<and>
    sum_list (map entry_occurrences entries) = int (length (concat (map declarations images))) \<and>
    map_of report ''unique_package_versions'' = Some (JInt (int (length entries)))"
proof -
  obtain n gaps entries where r: "group_gaps g images (0, []) = Inr (n, gaps)" "map_res gap_entry (map snd gaps) = Inr entries"
      "report = [(''schema_version'', JInt 1), (''total_unknown_license_declarations'', JInt (int n)),
        (''unique_package_versions'', JInt (int (length entries))), (''packages'', JList (map snd (sort_key fst entries)))]"
    using assms by (auto simp: image_license_gap_report_def rbind_Inr_iff)
  have "n = length (concat (map declarations images))" "gap_total gaps = length (concat (map declarations images))"
    using group_gaps_total [OF r(1)] by (simp_all add: gap_total_def)
  moreover have "sum_list (map (entry_occurrences \<circ> snd) (sort_key fst entries)) = int (gap_total gaps)"
    using gap_entries_total [OF r(2)] by (simp add: sum_sorted gap_total_def)
  ultimately show ?thesis using r(3) by simp
qed

theorem gap_report_complete_witness:
  "\<exists>entries report. image_license_gap_report bare_gate
      [(''images'', JList [JObj [(''name'', JStr ''caddy''), (''unknown_license_packages'', JList [JObj [(''name'', JStr ''x'')], JObj [(''name'', JStr ''x'')]])]])] = Inr report \<and>
    map_of report ''packages'' = Some (JList entries) \<and> sum_list (map entry_occurrences entries) = 2"
proof -
  let ?raws = "[JObj [(''name'', JStr ''x'')], JObj [(''name'', JStr ''x'')]]"
  let ?img = "JObj [(''name'', JStr ''caddy''), (''unknown_license_packages'', JList ?raws)]"
  let ?m = "[(''images'', JList [?img])]"
  have f: "field_items ?m ''images'' = Inr [?img]" by (simp add: field_items_def dict_get_or_def)
  have "declarations ?img = ?raws" by (simp add: declarations_def field_items_def dict_get_or_def)
  moreover obtain report where "image_license_gap_report bare_gate ?m = Inr report"
    by (simp add: image_license_gap_report_def f add_image_gaps_def field_items_def dict_get_or_def text_item_def body_item_def add_gap_def
      gap_item_def or_empty_def str_field_def gap_entry_def purl_text_def Let_def)
  ultimately show ?thesis using gap_report_complete [OF _ f] by (auto simp: numeral_eq_Suc)
qed

section \<open>The queue for legal review\<close>

lemma package_inventory:
  assumes "package_licenses e fetch metadata p = Inr (p', entry, files)"
  shows "map_of entry ''license_path'' = None" "map_of entry ''license_text_sha256'' = None"
  using assms by (auto simp: package_licenses_def rbind_Inr_iff Let_def)

lemma python_review_missing:
  assumes "python_review entry = Inr (key, review)" "map_of entry ''license_path'' = None" "map_of entry ''license_text_sha256'' = None"
  shows "json_get review ''license_path'' = Some JNull \<and> json_get review ''license_text_sha256'' = Some JNull"
  using assms by (auto simp: python_review_def rbind_Inr_iff dict_get_or_def)

lemma inventory_entries:
  assumes "materialize_python_licenses e fetch metadata packages = Inr (checked, inventory, files)" "entry \<in> set inventory"
  shows "map_of entry ''license_path'' = None \<and> map_of entry ''license_text_sha256'' = None"
proof -
  obtain rows where r: "map_res (package_licenses e fetch metadata) packages = Inr rows" "inventory = map (fst \<circ> snd) rows"
    using assms(1) by (auto simp: materialize_python_licenses_def rbind_Inr_iff)
  then obtain row where row: "row \<in> set rows" "entry = fst (snd row)" using assms(2) by auto
  from all2_right [OF r(1) [unfolded map_res_all2] row(1)] obtain p where "package_licenses e fetch metadata p = Inr row" by blast
  then show ?thesis using package_inventory row(2) by (cases row) auto
qed

text \<open>
  The queue that Legal works through never shows where the license text of a Python package lies: the inventory the generator makes
  names the combined text and its digest under other keys than the queue reads, so both are null for every package, also where the text
  was found and written.
\<close>

theorem queue_hides_license_texts:
  assumes "materialize_python_licenses e fetch metadata packages = Inr (checked, inventory, files)"
    "legal_review_queue g components inventory images = Inr queue"
  shows "\<exists>reviews. map_of queue ''python_package_declarations'' = Some (JList reviews) \<and> length reviews = length packages \<and>
    list_all (\<lambda>review. json_get review ''license_path'' = Some JNull \<and> json_get review ''license_text_sha256'' = Some JNull) reviews"
proof -
  obtain rows where r: "map_res python_review inventory = Inr rows"
      "map_of queue ''python_package_declarations'' = Some (JList (map snd (sort_key fst rows)))"
    using assms(2) by (auto simp: legal_review_queue_def rbind_Inr_iff split: option.splits)
  have "length rows = length inventory" "length inventory = length packages"
    using r(1) assms(1) by (auto simp: materialize_python_licenses_def rbind_Inr_iff map_res_all2 dest: list_all2_lengthD)
  moreover have "json_get (snd row) ''license_path'' = Some JNull \<and> json_get (snd row) ''license_text_sha256'' = Some JNull"
    if "row \<in> set rows" for row
  proof -
    from all2_right [OF r(1) [unfolded map_res_all2] that] obtain entry where
      e: "entry \<in> set inventory" "python_review entry = Inr row" by blast
    then have "python_review entry = Inr (fst row, snd row)" by simp
    then show ?thesis by (rule python_review_missing) (use inventory_entries [OF assms(1) e(1)] in simp_all)
  qed
  ultimately show ?thesis using r(2) by (auto simp: list_all_iff)
qed

text \<open>A package whose license text is found: its file is in the inventory, and the queue shows null.\<close>

definition licensed_metadata :: object where
  "licensed_metadata = [(''a'', JObj [(''declared_license'', JStr ''MIT''),
     (''license_files'', JList [JObj [(''path'', JStr ''a-1.dist-info/LICENSE''), (''content_base64'', JStr ''TUlU'')]])])]"

lemma licensed_inventory:
  "\<exists>checked inventory files. materialize_python_licenses bare_surroundings False licensed_metadata [example_package] = Inr (checked, inventory, files) \<and>
    map_of files [''LICENSES'', ''python'', ''a'', ''01-LICENSE''] = Some ''MIT'' \<and>
    (\<exists>queue. legal_review_queue bare_gate [] inventory None = Inr queue)"
proof -
  have i: "installed_of licensed_metadata ''a'' = Inr \<lparr>in_license = Some ''MIT'', in_files = [(''a-1.dist-info/LICENSE'', ''MIT'')]\<rparr>" by code_simp
  have n: "normal_name ''a'' = ''a''" by code_simp
  have t: "license_target ''a'' (Suc 0) ''a-1.dist-info/LICENSE'' = [''LICENSES'', ''python'', ''a'', ''01-LICENSE'']" by code_simp
  show ?thesis
    by (simp add: materialize_python_licenses_def package_licenses_def example_package_def locked_package_def n i license_files_def t Let_def
      legal_review_queue_def python_review_def text_item_def body_item_def)
qed

theorem queue_hides_license_texts_witness:
  "\<exists>checked inventory files queue review. materialize_python_licenses bare_surroundings False licensed_metadata [example_package] = Inr (checked, inventory, files) \<and>
    map_of files [''LICENSES'', ''python'', ''a'', ''01-LICENSE''] = Some ''MIT'' \<and>
    legal_review_queue bare_gate [] inventory None = Inr queue \<and>
    map_of queue ''python_package_declarations'' = Some (JList [review]) \<and> json_get review ''license_path'' = Some JNull"
proof -
  obtain checked inventory files queue where m: "materialize_python_licenses bare_surroundings False licensed_metadata [example_package] = Inr (checked, inventory, files)"
      "map_of files [''LICENSES'', ''python'', ''a'', ''01-LICENSE''] = Some ''MIT''" "legal_review_queue bare_gate [] inventory None = Inr queue"
    using licensed_inventory by blast
  obtain reviews where r: "map_of queue ''python_package_declarations'' = Some (JList reviews)" "length reviews = length [example_package]"
      "list_all (\<lambda>review. json_get review ''license_path'' = Some JNull \<and> json_get review ''license_text_sha256'' = Some JNull) reviews"
    using queue_hides_license_texts [OF m(1,3)] by blast
  then obtain review where "reviews = [review]" by (cases reviews) auto
  with r m show ?thesis by auto
qed

end
