(* ===== verification/Spec2Isabelle.thy ===== *)
theory Spec2Isabelle
  imports Governance Phone Effects Redaction ModelUsage ChannelInbox OrchServer Telemetry
    GapFacts
begin

text \<open>
  Verification of the SAILES services (src/services, src/shared): a platform that lets agents prepare
  sales campaigns and contacts people by voice and WhatsApp only when a policy decision, a human
  approval and a one-shot authorization allow it.

  \<^bold>\<open>The program.\<close> A campaign is approved by a person at the CRM (crm\_api). The orchestrator moves the run of a
  contact through its stages and stops for a human at the approval stage. For a contact the policy
  gateway asks the CRM for evidence, decides, and gives out a signed token that lives for at most five
  minutes and can be consumed once. A channel adapter consumes the token and only then calls the
  provider. The services call each other over a JSON router with signed requests, nonces and
  idempotency keys; the model gateway redacts prompts and keeps budgets. Each service works with
  in-memory stores in shadow mode and with PostgreSQL outside it.

  \<^bold>\<open>Conventions\<close> (Prelude, PyText). An exception is a value of \<open>exn\<close>, a fallible call returns \<open>exn + 'a\<close>; a
  dictionary is an association list in insertion order; a Python text is the string of its UTF-8 bytes;
  case and white space are those of ASCII; an argument annotated as a text that arrives as another JSON value is a
  TypeError. Clock readings are real numbers, a datetime counts microseconds. What a call reads from outside
  (clocks, \<open>uuid4\<close>, the connection to another service or a provider, files, RSA, \<open>urlparse\<close>,
  the \<open>repr\<close> of containers) is an argument. A PostgreSQL method is a transaction over lists of rows, which a fault leaves
  unchanged; transactions run one after the other, and foreign keys are not modelled.

  \<^bold>\<open>Theories and sources.\<close>
  \<^item> Hashing, Base64, Json, JsonRoundtrip (canonical.py and what the standard library adds): SHA-256, HMAC,
    base64, \<open>json.loads\<close>, canonical JSON. Lemmas: lengths, decoding after encoding, parsing after printing.
  \<^item> Contracts (models.py), Token (token.py): the claims, signing, the verifier; the locale \<open>single_use\<close> is
    what the verifier asks of its consumer.
  \<^item> Policy, Governance, Authorization (policy\_gateway: policy.py, repep.py, sensitivity.py, authorization.py, and
    the shadow consumer of channel\_adapters): reason codes, the decision, the issuer, the contexts.
  \<^item> Stores, PgStores (persistence.py, postgres\_ledger.py, postgres\_token.py, postgres\_webhook.py): TTL maps,
    nonce and idempotency stores behind the locales \<open>nonce_store\<close> and \<open>idempotency_store\<close>, in memory and in PostgreSQL.
  \<^item> Phone (phone.py), Security (security.py, identity.py), Webhook (webhook.py; locale \<open>event_inbox\<close>), Http
    (http.py, middleware.py), Client (client.py, config.py), Telemetry (telemetry.py).
  \<^item> PolicyServer (server.py, evidence.py, decision\_repository.py of the gateway): both endpoints, the evidence
    call, the record of decisions, the start; reachability of the gateway with its ghost history.
  \<^item> Workflow, PgWorkflow, Effects, OrchServer (orchestrator: workflow.py, postgres\_workflow.py, resilience.py,
    postgres\_outbox.py, server.py): the engine with checkpoints in memory and in PostgreSQL, retries,
    breaker, worker, outbox, and the endpoints over either engine.
  \<^item> Gateway, Redaction, ModelUsage (model\_gateway): redaction and its correctness, routing and fallback, budgets in memory
    and in PostgreSQL, the completion endpoint.
  \<^item> Crm, CrmPg, CrmServer (crm\_api: domain.py, postgres.py, server.py): every operation with the outbox and the
    audit chain, the same as transactions, the endpoints over either.
  \<^item> Providers, ChannelServer, ChannelContacts, ChannelInbox (channel\_adapters): the provider transports, Marketia, the
    adapters, webhooks and the start of the three modes; what reaches a provider; the bounded set of event identifiers and the
    inbox over any sequence of requests.
  \<^item> Agents (agent\_adapters): recommendations, artifacts, the external runner, leads.
  \<^item> Regexes, Compliance, ReleaseGate, ReleaseFacts (tools/compliance\_gate.py): the expressions it searches for, the scan of the
    sources, the component lock, the evidence of a distribution, the attestation and the exit code; what a passing gate shows.
  \<^item> Evidence, EvidenceFacts (tools/prepare\_unsigned\_distribution\_evidence.py): the review of a candidate, the staging of its
    files on a disk whose writes and deletions can fail, the attestation and the payload to sign; the tool and the gate together.
  \<^item> PrintedJson: every layout \<open>json.dumps\<close> is used with is read back by \<open>json.loads\<close>; a relation between values and
    their texts, with any white space, carries the proof.
  \<^item> Candidate, CandidateDocs, CandidateRun, CandidateFacts, GapFacts (tools/generate\_distribution\_candidate.py): images, locked
    wheels, license texts, source archives, the component lock and the bills of materials, blockers, the queue for legal review, the
    whole run; the generator together with the gate and with the preparation of the evidence.

  \<^bold>\<open>What is shown.\<close> Each theory proves its own component; the properties that are numbered C1, C2, ... stand
  in the theory of their component, those that span several here, in PolicyServer, OrchServer, CrmServer and
  ChannelContacts. Along the path of a contact: the decision meets its specification; a suppression at the CRM (in PostgreSQL one
  without an end) ends in a denial; a token the gateway gave out was given out for an allowing decision; a provider is reached with such a token only and
  once for each; a run is past its approval only with an approved action and a proven reviewer.
  Around it: tenants are isolated in the CRM and its audit chain is tamper-evident; replayed requests,
  webhooks and nonces are refused, in bounded sets as long as an entry lives and there is room; rates hold; the
  daily budget holds but for what settled calls cost more than was reserved for them; processes outside shadow mode do not start without their
  protection. A release passes its gate only with pinned components, matching documents and three verified
  signatures over the digests of what is delivered; the generated lock and bills of materials agree when the gate reads them, and
  a fresh candidate is refused for release. Some theorems show what the code does and its authors may not intend; the manifest lists
  them as findings.

  \<^bold>\<open>Bounds and fuel.\<close> Recursion is structural or by a proven measure, except the JSON parser: it has fuel \<open>2 * n + 2\<close> for a
  text of length \<open>n\<close>, which the round-trip theorem shows to be enough for all canonical text, and every nested
  value consumes a character. Loops of the services are folds over finite lists.

  \<^bold>\<open>Not modelled.\<close> Sockets, TLS contexts and threads (the standard library's server, locks: an operation
  under a lock is one step); the LangGraph adapter, which wires the engine into a third-party graph; the connection of the
  outbox publisher to RabbitMQ; health endpoints that return constants. The tools under src/tools other
  than the gate, the generator of the candidate and the preparation of the evidence are command-line programs around the
  services (probes, load tests, drills). What a run of the generator that is aborted has written is not modelled.
\<close>

section \<open>The decision\<close>

text \<open>
  C6: a decision allows contact exactly when the specification does, and its reason codes are exact:
  the one code of an allowance, or in their order the codes of all conditions of the specification that
  speak against contact and no other; there is such a condition exactly when contact is not allowed.
\<close>

theorem decision_meets_specification:
  "let d = decide e i now r in
   de_outcome d = (if contactable e r then ALLOW else DENY) \<and>
   de_reason_codes d = (if contactable e r then [''POLICY_ALLOW''] else map fst (filter snd (denial_conditions e r))) \<and>
   (contactable e r \<longleftrightarrow> list_all (\<lambda>(code, holds). \<not> holds) (denial_conditions e r))"
proof -
  have "contactable e r \<longleftrightarrow> map fst (filter snd (denial_conditions e r)) = []"
    using policy_reasons_Nil [of e r] by (simp only: policy_reasons_conditions)
  then have "contactable e r \<longleftrightarrow> list_all (\<lambda>(code, holds). \<not> holds) (denial_conditions e r)"
    by (simp only: map_is_Nil_conv filter_empty_conv list_all_iff case_prod_unfold)
  moreover have "de_reason_codes (decide e i now r) = (if contactable e r then [''POLICY_ALLOW''] else policy_reasons e r)"
    by (simp add: decide_def Let_def policy_reasons_Nil)
  ultimately show ?thesis unfolding Let_def decide_outcome policy_reasons_conditions by simp
qed

text \<open>The evidence call answered by the CRM's endpoint over one of its repositories.\<close>

definition crm_answers :: "'s crm_store \<Rightarrow> 's \<Rightarrow> string \<Rightarrow> object \<Rightarrow> 'w \<Rightarrow> json res \<times> 'w" where
  "crm_answers so st path body w =
     (case fst (evidence_endpoint so body st) of
        Inr (_, JsonBody j) \<Rightarrow> (Inr j, w) | _ \<Rightarrow> (raise ServiceClientError ''INTERNAL_SERVICE_FAILURE'', w))"

text \<open>
  A CRM in which the contact was suppressed at some time: in memory after any operations with a
  suppression among them; in PostgreSQL after a suppression without an end, whatever transactions ran before and after it.
\<close>

inductive crm_suppressing :: "string \<Rightarrow> string \<Rightarrow> (string \<Rightarrow> object \<Rightarrow> 'w \<Rightarrow> json res \<times> 'w) \<Rightarrow> bool" where
  in_memory: "(e0, Suppress t c reason) \<in> set ops \<Longrightarrow>
    crm_suppressing t c (crm_answers (memory_store tf e1) (crm_exec tf ops crm_init))"
| in_postgres: "pg_suppress repr moment e0 i t d db = (Inr r, db1) \<Longrightarrow> map_of d ''contact_id'' = Some (JStr c) \<Longrightarrow>
    dict_get_or JNull d ''expires_at'' = JNull \<Longrightarrow> crm_db_step\<^sup>*\<^sup>* db1 db2 \<Longrightarrow>
    crm_suppressing t c (crm_answers (postgres_store pc) db2)"

lemma crm_answers_Inr:
  assumes "crm_answers so st path body w = (Inr j, w')" "map_of body ''tenant_id'' = Some (JStr t)" "map_of body ''contact_id'' = Some (JStr c)"
  shows "\<exists>p ch pu v. fst (so_evidence so t c p ch pu v st) = Inr j"
  using assms
  by (auto simp: crm_answers_def evidence_endpoint_def replied_def rbind_Inr_iff text_item_Inr
      split: sum.splits prod.splits reply_body.splits) (metis fst_conv)

text \<open>Such a CRM answers that the contact is suppressed.\<close>

lemma crm_suppressing_evidence:
  assumes "crm_suppressing t c post" "post path body w = (Inr (JObj evidence), w')"
    and "map_of body ''tenant_id'' = Some (JStr t)" "map_of body ''contact_id'' = Some (JStr c)"
  shows "map_of evidence ''suppressed'' = Some (JBool True)"
  using assms(1)
proof cases
  case (in_memory e0 reason ops tf e1)
  obtain ch v where ev: "contactability_evidence t c ch v (crm_exec tf ops crm_init) = Inr (JObj evidence)"
    using crm_answers_Inr [OF assms(2) [unfolded in_memory(1)] assms(3,4)] by (auto simp: memory_store_def)
  have "t \<noteq> []" using ev by (auto simp: contactability_evidence_def require_contact_def crm_key_def rbind_Inr_iff)
  then have "has_key (cm_suppressions (crm_exec tf ops crm_init)) (t, JStr c)" using in_memory(2) by (auto simp: crm_suppressed_iff)
  then show ?thesis using ev by (auto simp: contactability_evidence_def Let_def rbind_Inr_iff)
next
  case (in_postgres repr moment e0 i d db r db1 db2 pc)
  obtain p ch pu v db3 where "pg_evidence (cp_json pc) (cp_env pc) t c p ch pu v db2 = (Inr evidence, db3)"
  proof -
    obtain p ch pu v where e: "fst (so_evidence (postgres_store pc) t c p ch pu v db2) = Inr (JObj evidence)"
      using crm_answers_Inr [OF assms(2) [unfolded in_postgres(1)] assms(3,4)] by blast
    obtain x db3 where x: "pg_evidence (cp_json pc) (cp_env pc) t c p ch pu v db2 = (x, db3)" by fastforce
    have "x = Inr evidence" using e x by (cases x) (simp_all add: postgres_store_def)
    then show thesis using that x by blast
  qed
  then show ?thesis by (rule open_suppression_in_force [OF in_postgres(2-5)])
qed

text \<open>
  C2: from the CRM to the policy. Once a contact was suppressed, every decision for it that is based
  on the CRM's evidence denies, whatever else happened in the CRM, whatever the caller claims and in
  whatever state the gateway is. The CRM keeps its data in memory, or in PostgreSQL, where a suppression may be
  given an end: there the property is about the suppressions without one.
\<close>

theorem suppressed_contact_denied:
  assumes "crm_suppressing t c post" "pc_evidence cf = Some post"
    and "map_of body ''tenant_id'' = Some (JStr t)" "map_of body ''contact_id'' = Some (JStr c)"
    and "decide_handler cf e body st = (Inr (n, d), st')"
  shows "de_outcome d = DENY \<and> ''INTERNAL_SUPPRESSION'' \<in> set (de_reason_codes d)"
proof -
  obtain body1 st1 r where r: "resolve_body cf body st = (Inr body1, st1)" "contact_request_of (pc_fromisoformat cf) body1 = Inr r"
    using assms(5) by (auto simp: decide_handler_def split: prod.splits sum.splits)
  obtain w' where w: "evidence_resolve post body (ps_world st) = (Inr body1, w')"
    using r(1) assms(2) by (auto simp: resolve_body_def split: prod.splits)
  obtain required evidence where q:
    "body_items body [''tenant_id'', ''contact_id'', ''campaign_version_id'', ''channel'', ''purpose''] = Inr required"
    "post ''/v1/contactability-evidence'' (required @ [(''phone_token'', dict_get_or JNull body ''phone_token'')]) (ps_world st) =
      (Inr (JObj evidence), w')" "body1 = apply_evidence evidence body"
    using w by (auto simp: evidence_resolve_def split: sum.splits prod.splits json.splits)
  have "map_of required ''tenant_id'' = Some (JStr t)" "map_of required ''contact_id'' = Some (JStr c)"
    using q(1) assms(3,4) by (auto simp: rbind_Inr_iff body_item_def)
  then have "map_of evidence ''suppressed'' = Some (JBool True)"
    by (intro crm_suppressing_evidence [OF assms(1) q(2)]) (simp_all add: map_add_def)
  then have "map_of body1 ''internally_suppressed'' = Some (JBool True)"
    by (simp add: q(3) apply_evidence_def evidence_fields_def dict_simps dict_get_or_def)
  then have "cr_internally_suppressed r"
    using r(2) by (auto simp: contact_request_of_def rbind_Inr_iff truth_field_def dict_get_or_def split: if_splits)
  moreover have "d = decide (pc_engine cf) (pm_fresh e) (pm_now e) r" by (rule decide_handler_made(1) [OF assms(5) r])
  ultimately show ?thesis
    by (auto simp: decide_def Let_def policy_reasons_Nil contactable_def reason_membership)
qed

definition example_policy_state :: "(mem_ledger, unit) policy_state" where
  "example_policy_state = \<lparr>ps_contexts = \<lparr>cs_ttl_seconds = 120, cs_max_entries = 10, cs_values = []\<rparr>, ps_ledger = ledger_init,
     ps_decisions = \<lparr>dd_intents = [], dd_decisions = [], dd_audit = []\<rparr>, ps_world = ()\<rparr>"

theorem suppressed_contact_denied_witness:
  "let ops = [(example_crm_env, CreateContact ''t'' [(''id'', JStr ''c'')]), (example_crm_env, Suppress ''t'' ''c'' JNull)];
       cf = example_policy\<lparr>pc_evidence := Some (crm_answers (memory_store example_floats example_crm_env) (crm_exec example_floats ops crm_init))\<rparr>
   in \<exists>n d st'. decide_handler cf \<lparr>pm_pg = \<lparr>pg_now = 0, pg_fault = None\<rparr>, pm_now = 0, pm_clock = 0, pm_fresh = ''d''\<rparr> example_body example_policy_state =
        (Inr (n, d), st') \<and> de_outcome d = DENY"
proof -
  let ?ops = "[(example_crm_env, CreateContact ''t'' [(''id'', JStr ''c'')]), (example_crm_env, Suppress ''t'' ''c'' JNull)]"
  let ?crm = "crm_exec example_floats ?ops crm_init"
  let ?cf = "example_policy\<lparr>pc_evidence := Some (crm_answers (memory_store example_floats example_crm_env) ?crm)\<rparr>"
  let ?e = "\<lparr>pm_pg = \<lparr>pg_now = 0, pg_fault = None\<rparr>, pm_now = 0, pm_clock = 0, pm_fresh = ''d''\<rparr>"
  have crm: "map_of (cm_contacts ?crm) (''t'', JStr ''c'') \<noteq> None" "cm_campaigns ?crm = []"
    by (simp_all add: crm_exec_def create_contact_def crm_suppress_def Let_def dict_get_or_def crm_key_def crm_init_def)
  obtain evidence where ev: "contactability_evidence ''t'' ''c'' ''VOICE'' ''v'' ?crm = Inr (JObj evidence)"
    "map_of evidence ''approved_content_hash'' = Some JNull" "map_of evidence ''repep_exemption_type'' = Some JNull"
    "map_of evidence ''repep_exemption_evidence_ref'' = Some JNull"
    using crm by (auto simp: contactability_evidence_def require_contact_def crm_key_def dict_get_or_def Let_def)
  have ans: "crm_answers (memory_store example_floats example_crm_env) ?crm path
      [(''tenant_id'', JStr ''t''), (''contact_id'', JStr ''c''), (''campaign_version_id'', JStr ''v''), (''channel'', JStr ''VOICE''),
       (''purpose'', JStr ''SERVICE''), (''phone_token'', p)] w = (Inr (JObj evidence), w)" for path p w
    using ev(1) by (simp add: crm_answers_def evidence_endpoint_def text_item_def body_item_def replied_def memory_store_def)
  have res: "evidence_resolve (crm_answers (memory_store example_floats example_crm_env) ?crm) example_body w = (Inr (apply_evidence evidence example_body), w)" for w
    by (simp add: evidence_resolve_def body_item_def example_body_def ans)
  obtain r where r: "contact_request_of (\<lambda>_. Some 0) (apply_evidence evidence example_body) = Inr r"
    using ev(2-4) by (simp add: contact_request_of_def channel_field_def moment_field_def body_item_def example_body_def contact_fields_def
        channel_of_def string_field_def maybe_string_def maybe_int_def object_field_def apply_evidence_def evidence_fields_def
        dict_get_or_def)
  have cfg: "pc_fromisoformat ?cf = (\<lambda>_. Some 0)" "pc_durable ?cf = False" "pc_evidence ?cf = Some (crm_answers (memory_store example_floats example_crm_env) ?crm)"
    by (simp_all add: example_policy_def)
  obtain d st' where dec: "decide_handler ?cf ?e example_body example_policy_state = (Inr (200, d), st')"
    by (simp add: decide_handler_def resolve_body_def cfg res r record_decision_def Let_def)
  have "map_of example_body ''tenant_id'' = Some (JStr ''t'')" "map_of example_body ''contact_id'' = Some (JStr ''c'')"
    by (simp_all add: example_body_def)
  moreover have "crm_suppressing ''t'' ''c'' (crm_answers (memory_store example_floats example_crm_env) ?crm)"
    by (rule crm_suppressing.in_memory [of example_crm_env _ _ JNull]) simp
  ultimately have "de_outcome d = DENY" using suppressed_contact_denied [OF _ cfg(3) _ _ dec] by blast
  then show ?thesis using dec by (auto simp: Let_def)
qed

section \<open>Tokens in PostgreSQL\<close>

text \<open>
  One authorization, one contact. However many presentations of however many tokens reach the
  adapters, in whatever order, at whatever times and with whatever faults of the database, no token
  identifier is accepted twice.
\<close>

theorem authorization_used_once:
  assumes "auth_db_ok db" "verify_run pg_token_consume secret issuer presentations db = (accepted, db')"
  shows "distinct (map cl_jti accepted)"
  using assms by (rule pg_token.run_distinct)

theorem authorization_used_once_witness:
  "\<exists>c db'. verify_run pg_token_consume ''k'' ''i''
      (replicate 2 (\<lparr>pg_now = 1, pg_fault = None\<rparr>, sign_claims ''k'' c, ''voice-adapter'', [], 1))
      (snd (pg_register \<lparr>pg_now = 0, pg_fault = None\<rparr> c (sha256_hexdigest (sign_claims ''k'' c)) \<lparr>ad_rows = [], ad_audit = []\<rparr>)) = ([c], db') \<and>
    distinct (map cl_jti [c])"
proof -
  let ?c = "\<lparr>cl_jti = ''j'', cl_iss = ''i'', cl_aud = ''voice-adapter'', cl_tenant_id = ''t'', cl_contact_id = ''c'',
      cl_campaign_version_id = ''v'', cl_decision_id = ''d'', cl_channel = ''VOICE'', cl_purpose = ''SERVICE'', cl_content_hash = ''h'',
      cl_iat = 0, cl_exp = 60\<rparr>"
  let ?e = "\<lparr>pg_now = 1, pg_fault = None\<rparr>"
  let ?db = "snd (pg_register \<lparr>pg_now = 0, pg_fault = None\<rparr> ?c (sha256_hexdigest (sign_claims ''k'' ?c)) \<lparr>ad_rows = [], ad_audit = []\<rparr>)"
  have ok: "auth_db_ok ?db" by (rule pg_register_ok) (simp add: auth_db_ok_def)
  have check: "check_claims ''i'' ''voice-adapter'' [] 1 ?c = Inr ()" by (simp add: check_claims_ok_iff)
  obtain db1 where first: "pg_token_consume ?e ?c ?db = (Inr True, db1)"
    by (simp add: pg_token_consume_def pg_register_def pg_run_def update_consumed_def consumable_def Let_def)
  then have spent: "fst (pg_token_consume ?e ?c db1) \<noteq> Inr True"
    using pg_token.spent_refused pg_token.consume_spends pg_token.ok_consume ok by (metis fst_conv snd_conv)
  have v1: "verify_and_consume (pg_token_consume ?e) ''k'' ''i'' (sign_claims ''k'' ?c) ''voice-adapter'' [] 1 ?db = (Inr ?c, db1)"
    using check first by (simp add: verify_accepted_iff decode_signed)
  obtain x db2 where v2: "verify_and_consume (pg_token_consume ?e) ''k'' ''i'' (sign_claims ''k'' ?c) ''voice-adapter'' [] 1 db1 = (Inl x, db2)"
    using spent check by (cases "verify_and_consume (pg_token_consume ?e) ''k'' ''i'' (sign_claims ''k'' ?c) ''voice-adapter'' [] 1 db1";
        cases "fst (verify_and_consume (pg_token_consume ?e) ''k'' ''i'' (sign_claims ''k'' ?c) ''voice-adapter'' [] 1 db1)")
      (auto simp: verify_accepted_iff decode_signed)
  have run: "verify_run pg_token_consume ''k'' ''i'' (replicate 2 (?e, sign_claims ''k'' ?c, ''voice-adapter'', [], 1)) ?db = ([?c], db2)"
    by (simp add: numeral_2_eq_2 v1 v2)
  then show ?thesis using authorization_used_once [OF ok run] by blast
qed

section \<open>Canonical JSON\<close>

lemma canonical_of_canon: "canonical_json (json_canon j) = canonical_json j"
proof (induction j rule: json_canon.induct)
  case (1 vs)
  then show ?case by (simp add: comp_def cong: map_cong)
next
  case (2 kvs)
  let ?g = "\<lambda>(k, v). (k, canonical_json v)"
  let ?ps = "map (\<lambda>(k, v). (k, json_canon v)) kvs"
  have "map ?g ?ps = map ?g kvs" using 2 by (auto simp: case_prod_unfold)
  then have "sort_key fst (map ?g (sort_key fst ?ps)) = sort_key fst (map ?g kvs)"
    by (simp only: sort_key_map_snd [symmetric]) (simp add: sort_key_id_if_sorted)
  then show ?case by simp
qed simp_all

text \<open>
  C30: canonical JSON loses nothing and is canonical: parsing the text gives the value back up to the
  order of keys, printing that gives the same text, and objects with the same members have the same
  text whatever their order.
\<close>

theorem canonical_json_round_trip:
  assumes "json_wf j"
  shows "json_loads (canonical_json j) = Some (json_canon j) \<and> canonical_json (json_canon j) = canonical_json j \<and>
    (\<forall>kvs kvs'. j = JObj kvs \<and> mset kvs' = mset kvs \<longrightarrow> canonical_json (JObj kvs') = canonical_json j)"
proof (intro conjI allI impI)
  fix kvs kvs' assume a: "j = JObj kvs \<and> mset kvs' = mset kvs"
  then have "canonical_json (JObj kvs) = canonical_json (JObj kvs')" using assms by (intro canonical_key_order) simp_all
  then show "canonical_json (JObj kvs') = canonical_json j" using a by simp
qed (use loads_canonical [OF assms] canonical_of_canon in simp_all)

theorem canonical_json_round_trip_witness:
  "let j = JObj [(''b'', JList [JInt (-12), JStr ''x\"y'']), (''a'', JFloat ''0.5'')] in
   json_wf j \<and> json_loads (canonical_json j) = Some (JObj [(''a'', JFloat ''0.5''), (''b'', JList [JInt (-12), JStr ''x\"y''])])"
proof -
  let ?j = "JObj [(''b'', JList [JInt (-12), JStr ''x\"y'']), (''a'', JFloat ''0.5'')]"
  have "json_wf ?j" by code_simp
  moreover have "json_canon ?j = JObj [(''a'', JFloat ''0.5''), (''b'', JList [JInt (-12), JStr ''x\"y''])]" by code_simp
  ultimately show ?thesis using canonical_json_round_trip [of ?j] by (simp add: Let_def)
qed

section \<open>Retries\<close>

text \<open>
  The delay between two attempts grows with the attempt and stays within half and the whole of the
  capped exponential, for any attempt count and a jitter in the unit interval.
\<close>

theorem retry_delay_bounds:
  assumes "0 \<le> rp_base_seconds p" "0 \<le> rp_max_seconds p" "0 \<le> jitter" "jitter \<le> 1"
  shows "retry_delay p k jitter \<le> rp_max_seconds p \<and> retry_delay p k jitter \<le> rp_base_seconds p * 2 ^ nat (max 0 (k - 1)) \<and>
    min (rp_max_seconds p) (rp_base_seconds p) / 2 \<le> retry_delay p k jitter \<and>
    retry_delay p k jitter \<le> retry_delay p (k + 1) jitter"
proof -
  let ?m = "\<lambda>a. min (rp_max_seconds p) (rp_base_seconds p * 2 ^ nat (max 0 (a - 1)))"
  have f: "1 / 2 \<le> 1 / 2 + jitter / 2" "1 / 2 + jitter / 2 \<le> 1" using assms(3,4) by simp_all
  have pow: "rp_base_seconds p * 2 ^ n \<le> rp_base_seconds p * 2 ^ m" if "n \<le> m" for n m :: nat
    using assms(1) that by (intro mult_left_mono) simp_all
  have base: "rp_base_seconds p \<le> rp_base_seconds p * 2 ^ n" for n :: nat using pow [of 0 n] by simp
  have m: "0 \<le> ?m a" for a using assms(1,2) by simp
  have upper: "retry_delay p a jitter \<le> ?m a" for a
    unfolding retry_delay_def using mult_left_mono [OF f(2) m [of a]] by simp
  have "min (rp_max_seconds p) (rp_base_seconds p) \<le> ?m k" using base [of "nat (max 0 (k - 1))"] by linarith
  then have "min (rp_max_seconds p) (rp_base_seconds p) * (1 / 2) \<le> retry_delay p k jitter"
    unfolding retry_delay_def using assms(1,2) f(1) by (intro mult_mono) simp_all
  moreover have "retry_delay p k jitter \<le> retry_delay p (k + 1) jitter"
  proof -
    have "nat (max 0 (k - 1)) \<le> nat (max 0 (k + 1 - 1))" by simp
    then have "?m k \<le> ?m (k + 1)" using pow by (intro min.mono) simp_all
    then show ?thesis unfolding retry_delay_def using f(1) by (intro mult_right_mono) simp_all
  qed
  moreover have "?m k \<le> rp_max_seconds p" "?m k \<le> rp_base_seconds p * 2 ^ nat (max 0 (k - 1))" by simp_all
  ultimately show ?thesis using upper [of k] by linarith
qed

theorem retry_delay_bounds_witness:
  "retry_delay default_retry 3 (1 / 2) = 3 / 2 \<and> retry_delay default_retry 100 1 \<le> 30"
proof -
  have "retry_delay default_retry 3 (1 / 2) = 3 / 2" by (simp add: retry_delay_def default_retry_def)
  then show ?thesis using retry_delay_bounds [of default_retry 1 100] by (simp add: default_retry_def)
qed

text \<open>
  The breaker is exact. After failures only it lets a call through exactly when there were fewer
  than its threshold or the recovery time has passed since the last one; a success or a recovery makes
  it as new.
\<close>

theorem breaker_opens_at_threshold:
  assumes "1 \<le> threshold"
  shows "(fst (breaker_allow now (foldl (\<lambda>b t. breaker_failure t b) (breaker_init threshold recovery) failures)) \<longleftrightarrow>
      int (length failures) < threshold \<or> recovery \<le> now - last failures) \<and>
    breaker_success (foldl (\<lambda>b t. breaker_failure t b) (breaker_init threshold recovery) failures) = breaker_init threshold recovery"
proof -
  have s: "foldl (\<lambda>b t. breaker_failure t b) (breaker_init threshold recovery) failures =
      \<lparr>cb_threshold = threshold, cb_recovery_seconds = recovery, cb_failures = int (length failures),
       cb_opened_at = (if int (length failures) < threshold then None else Some (last failures))\<rparr>"
    using assms by (induction failures rule: rev_induct) (auto simp: breaker_init_def breaker_failure_def Let_def)
  show ?thesis unfolding s by (simp add: breaker_allow_def breaker_success_def breaker_init_def)
qed

theorem breaker_opens_at_threshold_witness:
  "\<not> fst (breaker_allow 12 (foldl (\<lambda>b t. breaker_failure t b) (breaker_init 3 30) [0, 5, 10])) \<and>
    fst (breaker_allow 40 (foldl (\<lambda>b t. breaker_failure t b) (breaker_init 3 30) [0, 5, 10]))"
  using breaker_opens_at_threshold [of 3 12 30 "[0, 5, 10]"] breaker_opens_at_threshold [of 3 40 30 "[0, 5, 10]"] by simp

end
